(* ===== verification/Py_Prelude.thy ===== *)
theory Py_Prelude
  imports Main
begin

text \<open>
  The prelude of the development: the fragment of Python's built-in types that the modelled
  code uses, and the lemmas the component theories share.

  A Python \<open>str\<close> is a HOL \<open>string\<close> whose characters are the code points 0 to 255 (Latin-1);
  on that fragment the predicates below agree with CPython's \<open>str.isspace\<close>, \<open>str.strip\<close>,
  \<open>str.split\<close>, \<open>str.splitlines\<close>, \<open>str.lower\<close> and \<open>int\<close>. A Python \<open>dict\<close> is an association
  list in insertion order, as the language guarantees since 3.7: assigning to a key that is
  present keeps its position. A Python \<open>int\<close> is a HOL \<open>int\<close>. A raised exception is the left
  injection of a sum.
\<close>

named_theorems py_str \<open>rewriting rules for the string operations\<close>
named_theorems py_dict \<open>rewriting rules for insertion-ordered dictionaries\<close>

section \<open>Characters\<close>

abbreviation (input) LF :: char where "LF \<equiv> CHR 0x0A"
abbreviation (input) CR :: char where "CR \<equiv> CHR 0x0D"
abbreviation (input) TAB :: char where "TAB \<equiv> CHR 0x09"
abbreviation (input) SPC :: char where "SPC \<equiv> CHR 0x20"

text \<open>\<open>str.isspace\<close> on one character; code points below 256.\<close>

definition py_isspace :: "char \<Rightarrow> bool" where
  "py_isspace c \<longleftrightarrow> c \<in> {CHR 0x09, CHR 0x0A, CHR 0x0B, CHR 0x0C, CHR 0x0D, CHR 0x1C,
     CHR 0x1D, CHR 0x1E, CHR 0x1F, CHR 0x20, CHR 0x85, CHR 0xA0}"

text \<open>The boundaries of \<open>str.splitlines\<close>.\<close>

definition py_islinebreak :: "char \<Rightarrow> bool" where
  "py_islinebreak c \<longleftrightarrow> c \<in> {CHR 0x0A, CHR 0x0B, CHR 0x0C, CHR 0x0D, CHR 0x1C, CHR 0x1D,
     CHR 0x1E, CHR 0x85}"

definition ascii_upper_char :: "char \<Rightarrow> char" where
  "ascii_upper_char c = (let n = of_char c :: nat in
     if 97 \<le> n \<and> n \<le> 122 then char_of (n - 32) else c)"

text \<open>\<open>str.lower\<close>: the ASCII capitals and the Latin-1 capitals from \<open>0xC0\<close> to \<open>0xDE\<close>
  except the multiplication sign.\<close>

definition py_lower_char :: "char \<Rightarrow> char" where
  "py_lower_char c = (let n = of_char c :: nat in
     if (65 \<le> n \<and> n \<le> 90) \<or> (192 \<le> n \<and> n \<le> 222 \<and> n \<noteq> 215) then char_of (n + 32) else c)"

definition py_lower :: "string \<Rightarrow> string" where
  "py_lower s = map py_lower_char s"

lemma py_isspace_simps [simp, py_str]:
  "py_isspace LF" "py_isspace CR" "py_isspace TAB" "py_isspace SPC"
  by (simp_all add: py_isspace_def)

lemma islinebreak_isspace [py_str]: "py_islinebreak c \<Longrightarrow> py_isspace c"
  by (auto simp: py_islinebreak_def py_isspace_def)

lemma py_islinebreak_LF [simp, py_str]: "py_islinebreak LF"
  by (simp add: py_islinebreak_def)

section \<open>Prefixes, suffixes and stripping\<close>

fun startswith :: "string \<Rightarrow> string \<Rightarrow> bool" where
  "startswith s [] = True"
| "startswith [] (p # ps) = False"
| "startswith (c # cs) (p # ps) = (c = p \<and> startswith cs ps)"

definition endswith :: "string \<Rightarrow> string \<Rightarrow> bool" where
  "endswith s p = startswith (rev s) (rev p)"

definition removeprefix :: "string \<Rightarrow> string \<Rightarrow> string" where
  "removeprefix s p = (if startswith s p then drop (length p) s else s)"

definition lstrip_of :: "(char \<Rightarrow> bool) \<Rightarrow> string \<Rightarrow> string" where
  "lstrip_of P s = dropWhile P s"

definition rstrip_of :: "(char \<Rightarrow> bool) \<Rightarrow> string \<Rightarrow> string" where
  "rstrip_of P s = rev (dropWhile P (rev s))"

text \<open>\<open>str.strip\<close>, \<open>str.lstrip\<close> and \<open>str.rstrip\<close> without an argument.\<close>

definition py_lstrip :: "string \<Rightarrow> string" where "py_lstrip s = lstrip_of py_isspace s"
definition py_rstrip :: "string \<Rightarrow> string" where "py_rstrip s = rstrip_of py_isspace s"
definition py_strip :: "string \<Rightarrow> string" where "py_strip s = py_lstrip (py_rstrip s)"

text \<open>A blank string: \<open>s.strip() == ""\<close>.\<close>

definition blank :: "string \<Rightarrow> bool" where "blank s \<longleftrightarrow> (\<forall>c \<in> set s. py_isspace c)"

lemma startswith_iff: "startswith s p \<longleftrightarrow> (\<exists>t. s = p @ t)"
  by (induction s p rule: startswith.induct) auto

lemma startswith_append [simp, py_str]: "startswith (p @ s) p"
  by (auto simp: startswith_iff)

lemma startswith_drop: "startswith s p \<Longrightarrow> p @ drop (length p) s = s"
  by (auto simp: startswith_iff)

lemma startswith_take: "startswith s p \<longleftrightarrow> take (length p) s = p"
  by (auto simp: startswith_iff) (metis append_take_drop_id)

lemma startswith_Cons1: "startswith (c # cs) [p] \<longleftrightarrow> c = p"
  by simp

lemma rev_dropWhile_decomp:
  "\<exists>t. s = rev (dropWhile P (rev s)) @ t \<and> (\<forall>c \<in> set t. P c)"
proof -
  have "rev s = takeWhile P (rev s) @ dropWhile P (rev s)" by simp
  then have "s = rev (dropWhile P (rev s)) @ rev (takeWhile P (rev s))"
    by (metis rev_append rev_rev_ident)
  moreover have "\<forall>c \<in> set (rev (takeWhile P (rev s))). P c"
    by (metis set_rev set_takeWhileD)
  ultimately show ?thesis by blast
qed

lemma rstrip_of_Nil_iff [py_str]: "rstrip_of P s = [] \<longleftrightarrow> (\<forall>c \<in> set s. P c)"
  by (simp add: rstrip_of_def)

lemma lstrip_of_Nil_iff [py_str]: "lstrip_of P s = [] \<longleftrightarrow> (\<forall>c \<in> set s. P c)"
  by (simp add: lstrip_of_def)

lemma py_strip_Nil_iff [py_str]: "py_strip s = [] \<longleftrightarrow> blank s"
proof -
  obtain t where t: "s = py_rstrip s @ t" "\<forall>c \<in> set t. py_isspace c"
    using rev_dropWhile_decomp [of s py_isspace] by (auto simp: py_rstrip_def rstrip_of_def)
  have "py_strip s = [] \<longleftrightarrow> (\<forall>c \<in> set (py_rstrip s). py_isspace c)"
    by (simp add: py_strip_def py_lstrip_def lstrip_of_def)
  also have "\<dots> \<longleftrightarrow> (\<forall>c \<in> set s. py_isspace c)"
    using t by (metis Un_iff set_append)
  finally show ?thesis by (simp add: blank_def)
qed

lemma set_py_rstrip: "set (py_rstrip s) \<subseteq> set s"
  by (auto simp: py_rstrip_def rstrip_of_def dest: set_dropWhileD)

lemma set_py_strip: "set (py_strip s) \<subseteq> set s"
  using set_py_rstrip by (auto simp: py_strip_def py_lstrip_def lstrip_of_def dest: set_dropWhileD)

lemma blank_Nil [simp, py_str]: "blank []" by (simp add: blank_def)
lemma blank_Cons [simp, py_str]: "blank (c # s) \<longleftrightarrow> py_isspace c \<and> blank s" by (simp add: blank_def)
lemma blank_append [simp, py_str]: "blank (s @ t) \<longleftrightarrow> blank s \<and> blank t" by (auto simp: blank_def)

lemma py_strip_id:
  assumes "s = [] \<or> (\<not> py_isspace (hd s) \<and> \<not> py_isspace (last s))"
  shows "py_strip s = s"
proof (cases "s = []")
  case True
  then show ?thesis by (simp add: py_strip_def py_lstrip_def py_rstrip_def lstrip_of_def rstrip_of_def)
next
  case False
  with assms have h: "\<not> py_isspace (hd s)" and l: "\<not> py_isspace (hd (rev s))"
    by (simp_all add: hd_rev)
  have "dropWhile py_isspace (rev s) = rev s"
    using False l by (cases "rev s") auto
  moreover have "dropWhile py_isspace s = s"
    using False h by (cases s) auto
  ultimately show ?thesis
    by (simp add: py_strip_def py_lstrip_def py_rstrip_def lstrip_of_def rstrip_of_def)
qed

lemma py_strip_ends:
  assumes "py_strip s \<noteq> []"
  shows "\<not> py_isspace (hd (py_strip s))" and "\<not> py_isspace (last (py_strip s))"
proof -
  let ?r = "py_rstrip s"
  from assms have ne: "dropWhile py_isspace ?r \<noteq> []"
    by (simp add: py_strip_def py_lstrip_def lstrip_of_def)
  then show "\<not> py_isspace (hd (py_strip s))"
    by (simp add: py_strip_def py_lstrip_def lstrip_of_def hd_dropWhile)
  have r_ne: "dropWhile py_isspace (rev s) \<noteq> []"
  proof
    assume "dropWhile py_isspace (rev s) = []"
    then have "?r = []" by (simp only: py_rstrip_def rstrip_of_def rev.simps)
    with ne show False by simp
  qed
  have "last (py_strip s) = last ?r"
    using last_appendR [OF ne, of "takeWhile py_isspace ?r"]
    by (simp add: py_strip_def py_lstrip_def lstrip_of_def)
  also have "\<dots> = hd (dropWhile py_isspace (rev s))"
    using r_ne by (simp add: py_rstrip_def rstrip_of_def last_rev)
  finally show "\<not> py_isspace (last (py_strip s))"
    using r_ne by (simp add: hd_dropWhile)
qed

lemma py_strip_idem [simp, py_str]: "py_strip (py_strip s) = py_strip s"
  by (rule py_strip_id) (use py_strip_ends in blast)

lemma py_strip_space: "py_isspace c \<Longrightarrow> py_strip (c # s) = py_strip s"
proof -
  assume c: "py_isspace c"
  show ?thesis
  proof (cases "\<forall>x\<in>set s. py_isspace x")
    case True
    then have "blank s" "blank (c # s)" using c by (simp_all add: blank_def)
    then show ?thesis using py_strip_Nil_iff by metis
  next
    case False
    then obtain x where "x \<in> set (rev s)" "\<not> py_isspace x" by auto
    then have "dropWhile py_isspace (rev s @ [c]) = dropWhile py_isspace (rev s) @ [c]"
      by (rule dropWhile_append1)
    then show ?thesis using c by (simp add: py_strip_def py_rstrip_def py_lstrip_def rstrip_of_def lstrip_of_def)
  qed
qed

end
