(* ===== verification/Py_Text.thy ===== *)
theory Py_Text
  imports Py_Prelude
begin

text \<open>
  Splitting and joining: \<open>str.split(c)\<close>, \<open>str.split()\<close>, \<open>str.rsplit(None, 1)\<close>,
  \<open>str.splitlines()\<close>, \<open>sep.join\<close>, \<open>str.find\<close>/\<open>index\<close>/\<open>partition\<close>, \<open>str.replace\<close> of one
  character, and the round trips between them that the parsers rest on.
\<close>

section \<open>Split and join on one character\<close>

fun split_on :: "char \<Rightarrow> string \<Rightarrow> string list" where
  "split_on c [] = [[]]"
| "split_on c (x # xs) =
     (if x = c then [] # split_on c xs
      else (x # hd (split_on c xs)) # tl (split_on c xs))"

fun join :: "string \<Rightarrow> string list \<Rightarrow> string" where
  "join sep [] = []"
| "join sep [x] = x"
| "join sep (x # y # ys) = x @ sep @ join sep (y # ys)"

lemma split_on_neq_Nil [simp, py_str]: "split_on c s \<noteq> []"
  by (induction s) auto

lemma split_on_code [code]:
  "split_on c [] = [[]]"
  "split_on c (x # xs) = (case split_on c xs of [] \<Rightarrow> [[]] | y # ys \<Rightarrow> if x = c then [] # y # ys else (x # y) # ys)"
  by (simp_all split: list.splits)

lemma split_on_no_sep: "p \<in> set (split_on c s) \<Longrightarrow> c \<notin> set p"
proof (induction s arbitrary: p)
  case (Cons x xs)
  then show ?case
    by (cases "split_on c xs") (auto split: if_splits)
qed simp

lemma split_on_subset: "p \<in> set (split_on c s) \<Longrightarrow> set p \<subseteq> set s"
proof (induction s arbitrary: p)
  case (Cons x xs)
  then show ?case
    by (cases "split_on c xs") (force split: if_splits)+
qed simp

lemma split_on_id [py_str]: "c \<notin> set s \<Longrightarrow> split_on c s = [s]"
  by (induction s) auto

lemma split_on_append_sep [py_str]: "split_on c (a @ c # b) = split_on c a @ split_on c b"
proof (induction a)
  case (Cons x xs)
  then show ?case by (cases "split_on c xs") auto
qed simp

lemma join_Cons: "ys \<noteq> [] \<Longrightarrow> join sep (x # ys) = x @ sep @ join sep ys"
  by (cases ys) auto

lemma join_split_on [simp, py_str]: "join [c] (split_on c s) = s"
proof (induction s)
  case (Cons x xs)
  then show ?case
    by (cases "split_on c xs"; cases "tl (split_on c xs)") auto
qed simp

lemma split_on_join [py_str]:
  assumes "xs \<noteq> []" and "\<And>x. x \<in> set xs \<Longrightarrow> c \<notin> set x"
  shows "split_on c (join [c] xs) = xs"
  using assms
proof (induction "[c]" xs rule: join.induct)
  case (3 x y ys)
  then show ?case by (simp add: split_on_append_sep split_on_id)
qed (auto simp: split_on_id)

lemma join_append:
  "xs \<noteq> [] \<Longrightarrow> ys \<noteq> [] \<Longrightarrow> join sep (xs @ ys) = join sep xs @ sep @ join sep ys"
  by (induction sep xs rule: join.induct) (auto simp: join_Cons)

lemma set_join: "set (join sep xs) \<subseteq> \<Union> (set ` set xs) \<union> set sep"
  by (induction sep xs rule: join.induct) auto

lemma join_concat:
  "(\<And>xs. xs \<in> set xss \<Longrightarrow> xs \<noteq> []) \<Longrightarrow> join sep (map (join sep) xss) = join sep (concat xss)"
proof (induction xss)
  case (Cons xs xss)
  show ?case
  proof (cases "xss = []")
    case False
    then have "concat xss \<noteq> []" using Cons.prems by (cases xss) auto
    with False Cons show ?thesis by (simp add: join_Cons join_append)
  qed simp
qed simp

lemma length_split_on: "length (split_on c s) = Suc (count_list s c)"
  by (induction s) auto

section \<open>Splitting at whitespace\<close>

function py_split :: "string \<Rightarrow> string list" where
  "py_split s = (let t = dropWhile py_isspace s in
     if t = [] then []
     else takeWhile (\<lambda>c. \<not> py_isspace c) t # py_split (dropWhile (\<lambda>c. \<not> py_isspace c) t))"
  by pat_completeness auto
termination
proof (relation "measure length", goal_cases)
  case (2 s t)
  then obtain c cs where t: "t = c # cs" and "\<not> py_isspace c"
    by (metis dropWhile_eq_Cons_conv list.exhaust)
  then have "length (dropWhile (\<lambda>c. \<not> py_isspace c) t) < length t"
    by (simp add: le_imp_less_Suc length_dropWhile_le)
  also have "\<dots> \<le> length s" using 2 by (simp add: length_dropWhile_le)
  finally show ?case by simp
qed simp

declare py_split.simps [simp del]

lemma py_split_words:
  "w \<in> set (py_split s) \<Longrightarrow> w \<noteq> [] \<and> (\<forall>c \<in> set w. \<not> py_isspace c) \<and> set w \<subseteq> set s"
proof (induction s rule: py_split.induct)
  case (1 s)
  let ?t = "dropWhile py_isspace s"
  show ?case
  proof (cases "?t = []")
    case True
    with "1.prems" show ?thesis by (simp add: py_split.simps)
  next
    case False
    then have hd_t: "\<not> py_isspace (hd ?t)" by (simp add: hd_dropWhile)
    have sub: "set ?t \<subseteq> set s" by (auto dest: set_dropWhileD)
    from "1.prems" False consider "w = takeWhile (\<lambda>c. \<not> py_isspace c) ?t"
      | "w \<in> set (py_split (dropWhile (\<lambda>c. \<not> py_isspace c) ?t))"
      by (subst (asm) py_split.simps) (simp add: Let_def del: dropWhile_eq_Nil_conv, blast)
    then show ?thesis
    proof cases
      case 1
      then show ?thesis using False hd_t sub
        by (cases ?t) (auto dest: set_takeWhileD)
    next
      case 2
      from "1.IH" [OF refl False 2] show ?thesis using sub by (auto dest: set_dropWhileD)
    qed
  qed
qed

lemma py_split_blank: "blank s \<Longrightarrow> py_split s = []"
  by (subst py_split.simps) (simp add: blank_def Let_def)

lemma dropWhile_append_stop:
  "\<forall>c \<in> set w. P c \<Longrightarrow> r = [] \<or> \<not> P (hd r) \<Longrightarrow> dropWhile P (w @ r) = r"
  by (cases r) (auto simp: dropWhile_append2)

lemma takeWhile_append_stop:
  "\<forall>c \<in> set w. P c \<Longrightarrow> r = [] \<or> \<not> P (hd r) \<Longrightarrow> takeWhile P (w @ r) = w"
  by (cases r) (auto simp: takeWhile_append2)

lemma py_split_word:
  assumes "w \<noteq> []" and "\<forall>c \<in> set w. \<not> py_isspace c" and "r = [] \<or> py_isspace (hd r)"
  shows "py_split (w @ r) = w # py_split r"
proof -
  have d: "dropWhile py_isspace (w @ r) = w @ r"
    using assms(1,2) by (cases w) auto
  have "takeWhile (\<lambda>c. \<not> py_isspace c) (w @ r) = w"
    and "dropWhile (\<lambda>c. \<not> py_isspace c) (w @ r) = r"
    using assms(2,3) takeWhile_append_stop [of w "\<lambda>c. \<not> py_isspace c" r]
      dropWhile_append_stop [of w "\<lambda>c. \<not> py_isspace c" r] by auto
  then show ?thesis
    using assms(1) by (subst py_split.simps) (simp add: Let_def d)
qed

lemma py_split_space: "py_isspace c \<Longrightarrow> py_split (c # s) = py_split s"
  by (subst (1 2) py_split.simps) simp

lemma py_split_join:
  assumes "\<And>w. w \<in> set ws \<Longrightarrow> w \<noteq> [] \<and> (\<forall>c \<in> set w. \<not> py_isspace c)"
  shows "py_split (join [SPC] ws) = ws"
  using assms
proof (induction "[SPC]" ws rule: join.induct)
  case 1
  then show ?case by (simp add: py_split_blank)
next
  case (2 x)
  then show ?case using py_split_word [of x "[]"] by (simp add: py_split_blank)
next
  case (3 x y ys)
  have x: "x \<noteq> []" "\<forall>c \<in> set x. \<not> py_isspace c"
    using 3(2) [of x] by auto
  have "py_split (join [SPC] (y # ys)) = y # ys"
    by (rule 3(1)) (use 3(2) in auto)
  then show ?case
    using py_split_word [OF x, of "SPC # join [SPC] (y # ys)"] by (simp add: py_split_space)
qed

text \<open>\<open>s.rsplit(None, 1)\<close>: at most one split, at the last run of whitespace.\<close>

definition py_rsplit1 :: "string \<Rightarrow> string list" where
  "py_rsplit1 s = (let t = py_rstrip s;
       w = rev (takeWhile (\<lambda>c. \<not> py_isspace c) (rev t));
       r = py_rstrip (rev (dropWhile (\<lambda>c. \<not> py_isspace c) (rev t)))
     in if t = [] then [] else if r = [] then [w] else [r, w])"

section \<open>Lines\<close>

function py_splitlines :: "string \<Rightarrow> string list" where
  "py_splitlines [] = []"
| "py_splitlines (c # cs) =
     (if py_islinebreak c
      then [] # py_splitlines (if c = CR \<and> startswith cs [LF] then tl cs else cs)
      else (case py_splitlines cs of [] \<Rightarrow> [[c]] | l # ls \<Rightarrow> (c # l) # ls))"
  by pat_completeness auto
termination by (relation "measure length") auto

lemma py_splitlines_subset: "l \<in> set (py_splitlines s) \<Longrightarrow> set l \<subseteq> set s"
proof (induction s arbitrary: l rule: py_splitlines.induct)
  case (2 c cs)
  show ?case
  proof (cases "py_islinebreak c")
    case True
    then show ?thesis
      using 2 by (cases cs) (fastforce split: if_splits)+
  next
    case False
    with 2 show ?thesis by (force split: list.splits)
  qed
qed simp

lemma py_splitlines_no_break:
  "l \<in> set (py_splitlines s) \<Longrightarrow> c \<in> set l \<Longrightarrow> \<not> py_islinebreak c"
proof (induction s arbitrary: l rule: py_splitlines.induct)
  case (2 d cs)
  then show ?case by (force split: if_splits list.splits)
qed simp

lemma py_splitlines_line:
  assumes "\<forall>c \<in> set l. \<not> py_islinebreak c"
  shows "py_splitlines (l @ LF # s) = l # py_splitlines s"
  using assms by (induction l) (auto simp: py_islinebreak_def)

lemma py_splitlines_lines:
  "(\<And>l c. l \<in> set ls \<Longrightarrow> c \<in> set l \<Longrightarrow> \<not> py_islinebreak c) \<Longrightarrow>
    py_splitlines (concat (map (\<lambda>l. l @ [LF]) ls)) = ls"
proof (induction ls)
  case (Cons l ls)
  have "py_splitlines (concat (map (\<lambda>l. l @ [LF]) ls)) = ls"
    by (rule Cons.IH) (use Cons.prems in auto)
  moreover have "\<forall>c \<in> set l. \<not> py_islinebreak c" using Cons.prems [of l] by simp
  ultimately show ?case using py_splitlines_line [of l "concat (map (\<lambda>l. l @ [LF]) ls)"] by simp
qed simp

section \<open>Searching\<close>

text \<open>\<open>s.find(c)\<close>, with \<open>None\<close> for \<open>-1\<close>; \<open>s.partition(c)\<close> without the separator.\<close>

definition py_find :: "char \<Rightarrow> string \<Rightarrow> nat option" where
  "py_find c s = (if c \<in> set s then Some (length (takeWhile (\<lambda>x. x \<noteq> c) s)) else None)"

definition before :: "char \<Rightarrow> string \<Rightarrow> string" where
  "before c s = takeWhile (\<lambda>x. x \<noteq> c) s"

definition after :: "char \<Rightarrow> string \<Rightarrow> string" where
  "after c s = drop 1 (dropWhile (\<lambda>x. x \<noteq> c) s)"

lemma before_after: "c \<in> set s \<Longrightarrow> s = before c s @ c # after c s"
proof (induction s)
  case (Cons x xs)
  then show ?case by (auto simp: before_def after_def)
qed simp

lemma before_not_in [simp, py_str]: "c \<notin> set (before c s)"
  by (auto simp: before_def dest: set_takeWhileD)

lemma before_append [py_str]: "c \<notin> set a \<Longrightarrow> before c (a @ c # b) = a"
  by (induction a) (auto simp: before_def)

lemma after_append [py_str]: "c \<notin> set a \<Longrightarrow> after c (a @ c # b) = b"
  by (induction a) (auto simp: after_def)

lemma py_find_None_iff [py_str]: "py_find c s = None \<longleftrightarrow> c \<notin> set s"
  by (simp add: py_find_def)

lemma py_find_Some [py_str]:
  assumes "py_find c s = Some i"
  shows "take i s = before c s" and "drop (i + 1) s = after c s" and "c \<in> set s"
proof -
  from assms have i: "i = length (takeWhile (\<lambda>x. x \<noteq> c) s)" and c: "c \<in> set s"
    by (auto simp: py_find_def split: if_splits)
  have s: "s = before c s @ c # after c s" by (rule before_after [OF c])
  show "take i s = before c s"
    by (simp add: i before_def takeWhile_eq_take [symmetric])
  have "drop (i + 1) (before c s @ c # after c s) = after c s"
    by (simp add: i before_def)
  with s show "drop (i + 1) s = after c s" by metis
  show "c \<in> set s" by (rule c)
qed

text \<open>\<open>s.replace(c, r)\<close> for a one-character pattern.\<close>

definition replace_char :: "char \<Rightarrow> string \<Rightarrow> string \<Rightarrow> string" where
  "replace_char c r s = concat (map (\<lambda>x. if x = c then r else [x]) s)"

end
