(* ===== verification/Py_Data.thy ===== *)
theory Py_Data
  imports Py_Text
begin

text \<open>
  Decimal and hexadecimal integers as \<open>str\<close> and \<open>int\<close> write and read them, insertion-ordered
  dictionaries, and running a fallible function over a list (a \<open>for\<close> loop whose body may raise).
\<close>

section \<open>Integers and their text\<close>

definition digit_char :: "nat \<Rightarrow> char" where "digit_char d = char_of (48 + d)"

fun nat_str :: "nat \<Rightarrow> string" where
  "nat_str n = (if n < 10 then [digit_char n] else nat_str (n div 10) @ [digit_char (n mod 10)])"

declare nat_str.simps [simp del]

definition int_str :: "int \<Rightarrow> string" where
  "int_str i = (if i < 0 then CHR ''-'' # nat_str (nat (- i)) else nat_str (nat i))"

definition digit_val :: "nat \<Rightarrow> char \<Rightarrow> nat option" where
  "digit_val b c = (let n = of_char c :: nat;
       d = (if 48 \<le> n \<and> n \<le> 57 then Some (n - 48)
            else if 97 \<le> n \<and> n \<le> 122 then Some (n - 87)
            else if 65 \<le> n \<and> n \<le> 90 then Some (n - 55) else None)
     in case d of None \<Rightarrow> None | Some v \<Rightarrow> if v < b then Some v else None)"

text \<open>
  The digits of \<open>int(s, base)\<close>: groups separated by single underscores, each non-empty. CPython
  refuses more than 4300 digits unless the base is a power of two.
\<close>

definition int_body :: "nat \<Rightarrow> string \<Rightarrow> nat option" where
  "int_body b s = (let gs = split_on CHR ''_'' s in
     if (\<forall>g \<in> set gs. g \<noteq> [] \<and> (\<forall>c \<in> set g. digit_val b c \<noteq> None))
        \<and> (b = 16 \<or> length (concat gs) \<le> 4300)
     then Some (foldl (\<lambda>a c. b * a + the (digit_val b c)) 0 (concat gs))
     else None)"

definition int_prefix :: "nat \<Rightarrow> string \<Rightarrow> string" where
  "int_prefix b s = (if b = 16 \<and> (startswith s ''0x'' \<or> startswith s ''0X'')
     then removeprefix (drop 2 s) ''_'' else s)"

definition py_int_base :: "nat \<Rightarrow> string \<Rightarrow> int option" where
  "py_int_base b s = (let t = py_strip s in
     if startswith t ''-'' then map_option (\<lambda>n. - int n) (int_body b (int_prefix b (drop 1 t)))
     else if startswith t ''+'' then map_option int (int_body b (int_prefix b (drop 1 t)))
     else map_option int (int_body b (int_prefix b t)))"

definition py_int :: "string \<Rightarrow> int option" where "py_int s = py_int_base 10 s"

lemma of_char_digit_char [simp]: "d < 10 \<Longrightarrow> (of_char (digit_char d) :: nat) = 48 + d"
  by (simp add: digit_char_def)

lemma digit_val_digit_char [simp]: "d < 10 \<Longrightarrow> digit_val 10 (digit_char d) = Some d"
  by (simp add: digit_val_def)

lemma nat_str_neq_Nil [simp]: "nat_str n \<noteq> []"
  by (subst nat_str.simps) simp

lemma nat_str_digits: "c \<in> set (nat_str n) \<Longrightarrow> \<exists>d < 10. c = digit_char d"
proof (induction n rule: nat_str.induct)
  case (1 n)
  show ?case
  proof (cases "n < 10")
    case True
    with "1.prems" show ?thesis by (subst (asm) nat_str.simps) auto
  next
    case False
    with "1.prems" have "c \<in> set (nat_str (n div 10)) \<or> c = digit_char (n mod 10)"
      by (subst (asm) nat_str.simps) auto
    with "1.IH" [OF False] show ?thesis
      by (metis mod_less_divisor zero_less_numeral)
  qed
qed

lemma digit_char_eq_iff: "d < 10 \<Longrightarrow> digit_char d = c \<longleftrightarrow> of_char c = 48 + d"
  by (metis char_of_char digit_char_def of_char_digit_char)

lemma digit_char_plain:
  assumes "d < 10"
  shows "digit_char d \<noteq> CHR ''_''" "digit_char d \<noteq> CHR ''-''" "digit_char d \<noteq> CHR ''+''"
    "\<not> py_isspace (digit_char d)" "digit_char d \<noteq> CHR 0x0A"
proof -
  show "digit_char d \<noteq> CHR ''_''" "digit_char d \<noteq> CHR ''-''" "digit_char d \<noteq> CHR ''+''"
    "digit_char d \<noteq> CHR 0x0A" "\<not> py_isspace (digit_char d)"
    using assms by (auto simp: py_isspace_def digit_char_eq_iff)
qed

lemma nat_str_plain:
  assumes "c \<in> set (nat_str n)"
  shows "c \<noteq> CHR ''_''" "c \<noteq> CHR ''-''" "c \<noteq> CHR ''+''" "\<not> py_isspace c" "c \<noteq> CHR 0x0A"
  using nat_str_digits [OF assms] digit_char_plain by auto

lemma nat_str_value: "foldl (\<lambda>a c. 10 * a + the (digit_val 10 c)) 0 (nat_str n) = n"
proof (induction n rule: nat_str.induct)
  case (1 n)
  show ?case
  proof (cases "n < 10")
    case True
    then show ?thesis by (subst nat_str.simps) simp
  next
    case False
    with "1.IH" show ?thesis by (subst nat_str.simps) simp
  qed
qed

lemma int_body_nat_str:
  assumes "length (nat_str n) \<le> 4300"
  shows "int_body 10 (nat_str n) = Some n"
proof -
  have "split_on CHR ''_'' (nat_str n) = [nat_str n]"
    by (rule split_on_id) (use nat_str_plain in blast)
  moreover have "\<forall>c \<in> set (nat_str n). digit_val 10 c \<noteq> None"
    using nat_str_digits by fastforce
  ultimately show ?thesis
    using assms nat_str_value [of n] by (simp add: int_body_def)
qed

text \<open>Which strings \<open>int(_, 16)\<close> reads, without computing the number.\<close>

lemma int_body_hex: "int_body 16 s \<noteq> None \<longleftrightarrow>
    list_all (\<lambda>g. g \<noteq> [] \<and> list_all (\<lambda>c. digit_val 16 c \<noteq> None) g) (split_on CHR ''_'' s)"
  by (auto simp: int_body_def Let_def list_all_iff)

lemma int_body_hex_plain:
  "s \<noteq> [] \<Longrightarrow> list_all (\<lambda>c. digit_val 16 c \<noteq> None) s \<Longrightarrow> int_body 16 s \<noteq> None"
proof -
  assume "s \<noteq> []" and d: "list_all (\<lambda>c. digit_val 16 c \<noteq> None) s"
  moreover have "digit_val 16 (CHR ''_'') = None" by code_simp
  then have "CHR ''_'' \<notin> set s" using d by (auto simp: list_all_iff)
  ultimately show ?thesis unfolding int_body_hex by (simp add: split_on_id)
qed

lemma startswith_plain:
  "s \<noteq> [] \<Longrightarrow> hd s \<noteq> p \<Longrightarrow> \<not> startswith s [p]"
  by (cases s) auto

theorem py_int_int_str:
  assumes "length (nat_str (nat \<bar>i\<bar>)) \<le> 4300"
  shows "py_int (int_str i) = Some i"
proof -
  let ?s = "nat_str (nat \<bar>i\<bar>)"
  have h: "hd ?s \<in> set ?s" and l: "last ?s \<in> set ?s" by simp_all
  have s: "py_strip ?s = ?s"
    by (rule py_strip_id) (use nat_str_plain(4) [OF h] nat_str_plain(4) [OF l] in blast)
  have m: "py_strip (CHR ''-'' # ?s) = CHR ''-'' # ?s"
    by (rule py_strip_id) (use nat_str_plain(4) [OF l] in \<open>simp add: py_isspace_def\<close>)
  have n: "\<not> startswith ?s ''-''" "\<not> startswith ?s ''+''"
    using startswith_plain nat_str_plain(2,3) [OF h] by simp_all
  have b: "int_body 10 ?s = Some (nat \<bar>i\<bar>)" by (rule int_body_nat_str [OF assms])
  show ?thesis
  proof (cases "i < 0")
    case True
    then have "int_str i = CHR ''-'' # ?s" by (simp add: int_str_def)
    with True b m show ?thesis by (simp add: py_int_def py_int_base_def int_prefix_def)
  next
    case False
    then have "int_str i = ?s" by (simp add: int_str_def)
    with False b s n show ?thesis
      by (simp add: py_int_def py_int_base_def int_prefix_def Let_def)
  qed
qed

section \<open>Dictionaries in insertion order\<close>

type_synonym ('k, 'v) dict = "('k \<times> 'v) list"

abbreviation dict_get :: "('k, 'v) dict \<Rightarrow> 'k \<Rightarrow> 'v option" where "dict_get \<equiv> map_of"

fun dict_set :: "('k, 'v) dict \<Rightarrow> 'k \<Rightarrow> 'v \<Rightarrow> ('k, 'v) dict" where
  "dict_set [] k v = [(k, v)]"
| "dict_set ((k', v') # d) k v = (if k' = k then (k, v) # d else (k', v') # dict_set d k v)"

definition dict_pop :: "('k, 'v) dict \<Rightarrow> 'k \<Rightarrow> ('k, 'v) dict" where
  "dict_pop d k = filter (\<lambda>e. fst e \<noteq> k) d"

definition dict_has :: "('k, 'v) dict \<Rightarrow> 'k \<Rightarrow> bool" where
  "dict_has d k \<longleftrightarrow> k \<in> set (map fst d)"

definition dict_getd :: "('k, 'v) dict \<Rightarrow> 'k \<Rightarrow> 'v \<Rightarrow> 'v" where
  "dict_getd d k v = (case dict_get d k of None \<Rightarrow> v | Some x \<Rightarrow> x)"

definition dict_wf :: "('k, 'v) dict \<Rightarrow> bool" where
  "dict_wf d \<longleftrightarrow> distinct (map fst d)"

lemma dict_get_set [simp, py_dict]: "dict_get (dict_set d k v) = (dict_get d)(k \<mapsto> v)"
  by (induction d k v rule: dict_set.induct) auto

lemma dict_get_pop [simp, py_dict]: "dict_get (dict_pop d k) = (dict_get d)(k := None)"
  by (induction d) (auto simp: dict_pop_def)

lemma keys_dict_set [py_dict]:
  "map fst (dict_set d k v) = (if dict_has d k then map fst d else map fst d @ [k])"
  by (induction d k v rule: dict_set.induct) (auto simp: dict_has_def)

lemma dict_has_iff [py_dict]: "dict_has d k \<longleftrightarrow> dict_get d k \<noteq> None"
  by (simp add: dict_has_def map_of_eq_None_iff)

lemma dict_wf_set [py_dict]: "dict_wf d \<Longrightarrow> dict_wf (dict_set d k v)"
  by (simp add: dict_wf_def keys_dict_set) (simp add: dict_has_def)

lemma dict_wf_Nil [simp, py_dict]: "dict_wf []" by (simp add: dict_wf_def)

lemma dict_wf_pop [py_dict]: "dict_wf d \<Longrightarrow> dict_wf (dict_pop d k)"
  by (auto simp: dict_wf_def dict_pop_def distinct_map_filter)

lemma dict_set_new [py_dict]: "dict_get d k = None \<Longrightarrow> dict_set d k v = d @ [(k, v)]"
  by (induction d k v rule: dict_set.induct) (auto split: if_splits)

lemma dict_set_distinct:
  "distinct (map fst d @ map (g \<circ> fst) fs) \<Longrightarrow>
     foldl (\<lambda>d (n, v). dict_set d (g n) v) d fs = d @ map (\<lambda>(n, v). (g n, v)) fs"
proof (induction fs arbitrary: d)
  case (Cons f fs)
  have "dict_get d (g (fst f)) = None" using Cons.prems by (auto simp: map_of_eq_None_iff)
  then have "dict_set d (g (fst f)) (snd f) = d @ [(g (fst f), snd f)]" by (rule dict_set_new)
  moreover have "distinct (map fst (d @ [(g (fst f), snd f)]) @ map (g \<circ> fst) fs)" using Cons.prems by (auto simp: o_def)
  note Cons.IH [OF this]
  ultimately show ?case by (simp add: split_beta)
qed simp

text \<open>A field that may be absent.\<close>

definition optional_field :: "string \<Rightarrow> string option \<Rightarrow> (string \<times> string) list" where
  "optional_field name value = (case value of None \<Rightarrow> [] | Some v \<Rightarrow> [(name, v)])"

lemma get_optional:
  "dict_get (optional_field n v) = (\<lambda>k. if k = n then v else None)"
  "(m ++ (\<lambda>k. if k = n then v else None)) k = (if k = n \<and> v \<noteq> None then v else m k)"
  by (auto simp: optional_field_def map_add_def split: option.splits)

lemma keys_optional: "map fst (optional_field n v) = (if v = None then [] else [n])"
  by (auto simp: optional_field_def)

section \<open>Loops whose body may raise\<close>

fun traverse :: "('a \<Rightarrow> 'e + 'b) \<Rightarrow> 'a list \<Rightarrow> 'e + 'b list" where
  "traverse f [] = Inr []"
| "traverse f (x # xs) = (case f x of Inl e \<Rightarrow> Inl e
     | Inr y \<Rightarrow> (case traverse f xs of Inl e \<Rightarrow> Inl e | Inr ys \<Rightarrow> Inr (y # ys)))"

lemma traverse_Inr_iff: "traverse f xs = Inr ys \<longleftrightarrow> list_all2 (\<lambda>x y. f x = Inr y) xs ys"
proof (induction xs arbitrary: ys)
  case (Cons x xs)
  show ?case
    by (auto simp: list_all2_Cons1 Cons.IH [symmetric] split: sum.splits)
qed auto

lemma traverse_Inl: "traverse f xs = Inl e \<Longrightarrow> \<exists>x \<in> set xs. f x = Inl e"
  by (induction xs) (auto split: sum.splits)

lemma traverse_append:
  "traverse f (xs @ ys) = (case traverse f xs of Inl e \<Rightarrow> Inl e
     | Inr us \<Rightarrow> (case traverse f ys of Inl e \<Rightarrow> Inl e | Inr vs \<Rightarrow> Inr (us @ vs)))"
  by (induction xs) (auto split: sum.splits)

fun fold_exc :: "('a \<Rightarrow> 's \<Rightarrow> 'e + 's) \<Rightarrow> 'a list \<Rightarrow> 's \<Rightarrow> 'e + 's" where
  "fold_exc f [] s = Inr s"
| "fold_exc f (x # xs) s = (case f x s of Inl e \<Rightarrow> Inl e | Inr s' \<Rightarrow> fold_exc f xs s')"

lemma fold_exc_cong [fundef_cong]:
  "xs = ys \<Longrightarrow> s = t \<Longrightarrow> (\<And>x u. x \<in> set ys \<Longrightarrow> f x u = g x u) \<Longrightarrow> fold_exc f xs s = fold_exc g ys t"
  by (induction ys arbitrary: xs s t) (auto split: sum.split)

lemma fold_exc_inv:
  assumes "fold_exc f xs s = Inr t" and "P s"
    and "\<And>x u v. x \<in> set xs \<Longrightarrow> f x u = Inr v \<Longrightarrow> P u \<Longrightarrow> P v"
  shows "P t"
  using assms
proof (induction xs arbitrary: s)
  case (Cons x xs)
  then obtain u where u: "f x s = Inr u" "fold_exc f xs u = Inr t" by (auto split: sum.splits)
  then have "P u" using Cons.prems(2,3) by (metis list.set_intros(1))
  then show ?case by (rule Cons.IH [OF u(2)]) (metis Cons.prems(3) list.set_intros(2))
qed simp

text \<open>One step of a computation that threads a state, after a step that may have raised.\<close>

definition and_then :: "('e + 'a) \<times> 's \<Rightarrow> ('a \<Rightarrow> 's \<Rightarrow> ('e + 'b) \<times> 's) \<Rightarrow> ('e + 'b) \<times> 's" where
  "and_then r k = (case r of (Inl e, st) \<Rightarrow> (Inl e, st) | (Inr a, st) \<Rightarrow> k a st)"

lemma and_then_eqs: "and_then (Inl e, st) k = (Inl e, st)" "and_then (Inr a, st) k = k a st"
  by (simp_all add: and_then_def)

lemma and_then_Inr: "and_then r k = (Inr b, t) \<longleftrightarrow> (\<exists>a u. r = (Inr a, u) \<and> k a u = (Inr b, t))"
  by (auto simp: and_then_def split: prod.splits sum.splits)

lemma and_then_Inl: "and_then r k = (Inl e, t) \<longleftrightarrow> r = (Inl e, t) \<or> (\<exists>a u. r = (Inr a, u) \<and> k a u = (Inl e, t))"
  by (auto simp: and_then_def split: prod.splits sum.splits)

end
