(* ===== verification/Stanza.thy ===== *)
theory Stanza
  imports Py_Data
begin

text \<open>
  \<open>src/debcraft/domain/_stanza_parser.py\<close>: splitting a Debian control file into stanzas and a
  stanza into fields, in the three variants the parsers use. The interface the parsers rely on
  is the locale \<open>stanza_splitter\<close>, interpreted at the end on the module's own function.
\<close>

section \<open>Splitting into stanzas\<close>

text \<open>The loop of \<open>split_stanzas\<close> over the remaining lines: \<open>stanzas\<close> and \<open>current\<close> are the
  two lists it appends to.\<close>

fun split_stanzas_loop :: "string list \<Rightarrow> string list \<Rightarrow> string list \<Rightarrow> string list" where
  "split_stanzas_loop stanzas current [] =
     (if current \<noteq> [] then stanzas @ [join [LF] current] else stanzas)"
| "split_stanzas_loop stanzas current (line # lines) =
     (if py_strip line = [] then
        (if current \<noteq> [] then split_stanzas_loop (stanzas @ [join [LF] current]) [] lines
         else split_stanzas_loop stanzas current lines)
      else split_stanzas_loop stanzas (current @ [line]) lines)"

definition split_stanzas :: "string \<Rightarrow> string list" where
  "split_stanzas content =
     (if content = [] \<or> blank content then []
      else split_stanzas_loop [] [] (split_on LF content))"

section \<open>Fields of a stanza\<close>

definition is_continuation :: "string \<Rightarrow> bool" where
  "is_continuation line \<longleftrightarrow> startswith line '' '' \<or> startswith line [TAB]"

text \<open>\<open>parse_stanza_fields_ordered\<close>: one turn of the loop, and the loop.\<close>

definition ordered_step :: "(string \<times> string) list \<Rightarrow> string \<Rightarrow> (string \<times> string) list" where
  "ordered_step fields line =
     (if is_continuation line then
        (if fields \<noteq> [] then
           butlast fields @ [(fst (last fields), snd (last fields) @ [LF] @ drop 1 line)]
         else fields)
      else (case py_find CHR '':'' line of
          None \<Rightarrow> fields
        | Some colon_pos \<Rightarrow>
            (let field_name = take colon_pos line;
                 field_value = drop (colon_pos + 1) line
             in fields @ [(field_name,
                  if startswith field_value '' '' then drop 1 field_value else field_value)])))"

definition parse_stanza_fields_ordered :: "string \<Rightarrow> (string \<times> string) list" where
  "parse_stanza_fields_ordered stanza = foldl ordered_step [] (split_on LF stanza)"

text \<open>\<open>_parse_with_continuations\<close>: the state is the dictionary, the current key and the lines
  collected for it.\<close>

type_synonym cont_state = "(string, string) dict \<times> string option \<times> string list"

definition save_field :: "cont_state \<Rightarrow> (string, string) dict" where
  "save_field st = (case st of (fields, key, vals) \<Rightarrow>
     (case key of None \<Rightarrow> fields | Some k \<Rightarrow> dict_set fields k (join [LF] vals)))"

definition with_cont_step :: "cont_state \<Rightarrow> string \<Rightarrow> cont_state" where
  "with_cont_step st line = (case st of (fields, key, vals) \<Rightarrow>
     if is_continuation line then
       (fields, key, if key \<noteq> None then vals @ [drop 1 line] else vals)
     else (case py_find CHR '':'' line of
         None \<Rightarrow> (save_field st, None, [])
       | Some colon_idx \<Rightarrow>
           (save_field st, Some (take colon_idx line), [py_strip (drop (colon_idx + 1) line)])))"

definition parse_with_continuations :: "string \<Rightarrow> (string, string) dict" where
  "parse_with_continuations stanza =
     save_field (foldl with_cont_step ([], None, []) (split_on LF stanza))"

text \<open>\<open>_parse_without_continuations\<close>: only the first occurrence of a field is kept.\<close>

definition without_cont_step :: "(string, string) dict \<Rightarrow> string \<Rightarrow> (string, string) dict" where
  "without_cont_step fields line =
     (if is_continuation line then fields
      else if CHR '':'' \<in> set line then
        (let key = py_strip (before CHR '':'' line); value = py_strip (after CHR '':'' line)
         in if key \<noteq> [] \<and> \<not> dict_has fields key then dict_set fields key value else fields)
      else fields)"

definition parse_without_continuations :: "string \<Rightarrow> (string, string) dict" where
  "parse_without_continuations stanza = foldl without_cont_step [] (split_on LF stanza)"

definition parse_stanza_fields :: "bool \<Rightarrow> string \<Rightarrow> (string, string) dict" where
  "parse_stanza_fields preserve_continuations stanza =
     (if preserve_continuations then parse_with_continuations stanza
      else parse_without_continuations stanza)"

section \<open>What a splitter promises\<close>

text \<open>A stanza block: no line of it is blank.\<close>

definition is_block :: "string \<Rightarrow> bool" where
  "is_block b \<longleftrightarrow> (\<forall>l \<in> set (split_on LF b). \<not> blank l)"

lemma not_is_block_Nil [simp]: "\<not> is_block []"
  by (simp add: is_block_def)

lemma filter_blocks: "(\<And>b. b \<in> set bs \<Longrightarrow> is_block b) \<Longrightarrow> filter (\<lambda>b. b \<noteq> []) bs = bs"
  by (metis (mono_tags, lifting) filter_True not_is_block_Nil)

locale stanza_splitter =
  fixes splitter :: "string \<Rightarrow> string list"
  assumes split_blank: "blank s \<Longrightarrow> splitter s = []"
    and split_block: "is_block b \<Longrightarrow> splitter b = [b]"
    and split_sep: "splitter (a @ [LF, LF] @ b) = splitter a @ splitter b"
    and split_final_newline: "splitter (a @ [LF]) = splitter a"
    and split_blocks: "b \<in> set (splitter s) \<Longrightarrow> is_block b"
begin

lemma split_join:
  "(\<And>b. b \<in> set bs \<Longrightarrow> is_block b \<or> b = []) \<Longrightarrow>
     splitter (join [LF, LF] bs) = filter (\<lambda>b. b \<noteq> []) bs"
proof (induction "[LF, LF]" bs rule: join.induct)
  case 1
  then show ?case by (simp add: split_blank)
next
  case (2 x)
  then show ?case by (cases "x = []") (auto simp: split_blank split_block)
next
  case (3 x y ys)
  have "splitter x = (if x = [] then [] else [x])"
    using 3(2) [of x] by (auto simp: split_blank split_block)
  then show ?case
    using 3 split_sep [of x "join [LF, LF] (y # ys)"] by simp
qed

lemma split_again: "splitter (join [LF, LF] (splitter s)) = splitter s"
  using split_join [of "splitter s"] split_blocks filter_blocks [of "splitter s"] by simp

end

text \<open>A reader of records: one optional record per stanza. The package parsers of the mirror and
  of the indexer are readers.\<close>

locale stanza_reader = stanza_splitter +
  fixes build :: "string \<Rightarrow> 'r option" and read :: "string \<Rightarrow> 'r list"
  assumes read_eq: "read s = List.map_filter build (splitter s)"
begin

lemma read_sep: "read (a @ [LF, LF] @ b) = read a @ read b"
  unfolding read_eq split_sep by (simp add: map_filter_def)

lemma read_blocks:
  assumes "\<And>b. b \<in> set bs \<Longrightarrow> is_block b"
  shows "read (join [LF, LF] bs) = List.map_filter build bs"
  unfolding read_eq using split_join [of bs] assms filter_blocks [of bs] by simp

lemma read_from_block: "r \<in> set (read s) \<Longrightarrow> \<exists>b. is_block b \<and> build b = Some r"
  unfolding read_eq using split_blocks [of _ s] by (fastforce simp: map_filter_def)

lemma read_length: "length (read s) \<le> length (splitter s)"
  unfolding read_eq by (simp add: map_filter_def)

end

section \<open>The module keeps the promise\<close>

lemma split_loop_acc:
  "split_stanzas_loop stanzas current lines = stanzas @ split_stanzas_loop [] current lines"
proof (induction lines arbitrary: stanzas current)
  case (Cons l ls)
  from Cons.IH [of "stanzas @ [join [LF] current]"] Cons.IH [of "[join [LF] current]"]
  show ?case by (simp add: Cons.IH [of stanzas])
qed simp

lemma split_loop_nonblank:
  "(\<And>l. l \<in> set ls \<Longrightarrow> \<not> blank l) \<Longrightarrow>
     split_stanzas_loop st cur (ls @ rest) = split_stanzas_loop st (cur @ ls) rest"
  by (induction ls arbitrary: cur) (auto simp: py_strip_Nil_iff)

lemma split_loop_append_blank:
  "split_stanzas_loop st cur (ls @ [] # rest) =
     split_stanzas_loop st cur ls @ split_stanzas_loop [] [] rest"
proof (induction ls arbitrary: st cur)
  case Nil
  show ?case
    using split_loop_acc [of st "[]" rest] split_loop_acc [of "st @ [join [LF] cur]" "[]" rest]
    by (simp add: py_strip_Nil_iff)
qed simp

lemma split_loop_blank: "(\<And>l. l \<in> set ls \<Longrightarrow> blank l) \<Longrightarrow> split_stanzas_loop st [] ls = st"
  by (induction ls) (auto simp: py_strip_Nil_iff)

lemma py_strip_Nil [simp]: "py_strip [] = []"
  by (simp add: py_strip_Nil_iff)

lemma blank_lines: "blank s \<Longrightarrow> l \<in> set (split_on LF s) \<Longrightarrow> blank l"
  using split_on_subset [of l LF s] by (auto simp: blank_def)

lemma split_stanzas_alt: "split_stanzas s = split_stanzas_loop [] [] (split_on LF s)"
  using blank_lines [of s] by (auto simp: split_stanzas_def intro: split_loop_blank [symmetric])

lemma split_loop_blocks:
  assumes "b \<in> set (split_stanzas_loop [] cur ls)"
    and "\<And>l. l \<in> set (cur @ ls) \<Longrightarrow> LF \<notin> set l" and "\<And>l. l \<in> set cur \<Longrightarrow> \<not> blank l"
  shows "is_block b"
  using assms
proof (induction ls arbitrary: cur)
  case Nil
  then show ?case by (auto simp: is_block_def split_on_join split: if_splits)
next
  case (Cons l ls)
  have block: "cur \<noteq> [] \<Longrightarrow> is_block (join [LF] cur)"
    using Cons.prems(2,3) by (auto simp: is_block_def split_on_join)
  show ?case
  proof (cases "blank l")
    case True
    with Cons.prems(1) have "b = join [LF] cur \<and> cur \<noteq> [] \<or> b \<in> set (split_stanzas_loop [] [] ls)"
      using split_loop_acc [of "[join [LF] cur]" "[]" ls]
      by (auto simp: py_strip_Nil_iff split: if_splits)
    then show ?thesis using block Cons.IH [of "[]"] Cons.prems(2) by auto
  next
    case False
    with Cons.prems(1) have "b \<in> set (split_stanzas_loop [] (cur @ [l]) ls)"
      by (simp add: py_strip_Nil_iff)
    then show ?thesis
      by (rule Cons.IH) (use Cons.prems(2,3) False in auto)
  qed
qed

lemma loop_splitter: "stanza_splitter (\<lambda>s. split_stanzas_loop [] [] (split_on LF s))"
proof unfold_locales
  fix s :: string
  assume "blank s"
  then show "split_stanzas_loop [] [] (split_on LF s) = []"
    by (intro split_loop_blank) (rule blank_lines)
next
  fix b :: string
  assume "is_block b"
  then show "split_stanzas_loop [] [] (split_on LF b) = [b]"
    using split_loop_nonblank [of "split_on LF b" "[]" "[]" "[]"] by (simp add: is_block_def)
next
  fix a b :: string
  have "split_on LF (a @ [LF, LF] @ b) = split_on LF a @ [] # split_on LF b"
    using split_on_append_sep [of LF a "LF # b"] by simp
  then show "split_stanzas_loop [] [] (split_on LF (a @ [LF, LF] @ b)) =
      split_stanzas_loop [] [] (split_on LF a) @ split_stanzas_loop [] [] (split_on LF b)"
    by (simp add: split_loop_append_blank)
next
  fix a :: string
  have "split_on LF (a @ [LF]) = split_on LF a @ [[]]"
    using split_on_append_sep [of LF a "[]"] by simp
  then show "split_stanzas_loop [] [] (split_on LF (a @ [LF])) = split_stanzas_loop [] [] (split_on LF a)"
    by (simp add: split_loop_append_blank)
next
  fix b s :: string
  assume "b \<in> set (split_stanzas_loop [] [] (split_on LF s))"
  then show "is_block b"
    by (rule split_loop_blocks) (auto dest: split_on_no_sep)
qed

interpretation sp: stanza_splitter split_stanzas
  using loop_splitter by (simp add: split_stanzas_alt [abs_def, symmetric])

end
