(* ===== verification/Mirror.thy ===== *)
theory Mirror
  imports Stanza "HOL-Library.Sublist"
begin

text \<open>
  The pure part of the mirror, \<open>src/debcraft/domain/mirror/\<close>: the values, the comparator that
  decides what to download, the Release file parser and the Packages parser, and the
  deduplication of \<open>infrastructure/mirror/_checksums.py\<close>. Log messages are left out.
\<close>

section \<open>Values\<close>

record file_entry =
  fe_path :: string
  fe_sha256 :: string
  fe_size :: int

datatype sync_action = Download | Skip | Verify

record sync_decision =
  sd_entry :: file_entry
  sd_action :: sync_action
  sd_reason :: string

section \<open>The comparator\<close>

definition decide :: "(string, string) dict \<Rightarrow> file_entry \<Rightarrow> sync_decision" where
  "decide local_checksums entry = (case dict_get local_checksums (fe_path entry) of
       None \<Rightarrow> \<lparr>sd_entry = entry, sd_action = Download, sd_reason = ''file not cached''\<rparr>
     | Some local_sha256 \<Rightarrow>
         if local_sha256 = fe_sha256 entry
         then \<lparr>sd_entry = entry, sd_action = Skip, sd_reason = ''checksum matches''\<rparr>
         else \<lparr>sd_entry = entry, sd_action = Download, sd_reason = ''checksum differs''\<rparr>)"

definition compute_sync_decisions :: "file_entry list \<Rightarrow> (string, string) dict \<Rightarrow> sync_decision list" where
  "compute_sync_decisions remote_entries local_checksums =
     foldl (\<lambda>decisions entry. decisions @ [decide local_checksums entry]) [] remote_entries"

definition generate_index_paths :: "string list \<Rightarrow> string list \<Rightarrow> string list" where
  "generate_index_paths components architectures =
     map (\<lambda>(component, architecture). component @ ''/binary-'' @ architecture @ ''/Packages.gz'')
       (List.product components architectures)"

lemma compute_sync_decisions_map: "compute_sync_decisions es local = map (decide local) es"
proof -
  have "foldl (\<lambda>ds e. ds @ [decide local e]) acc es = acc @ map (decide local) es" for acc
    by (induction es arbitrary: acc) auto
  then show ?thesis by (simp add: compute_sync_decisions_def)
qed

section \<open>Deduplication\<close>

fun dedup_loop :: "string list \<Rightarrow> file_entry list \<Rightarrow> file_entry list \<Rightarrow> file_entry list" where
  "dedup_loop seen_paths unique_entries [] = unique_entries"
| "dedup_loop seen_paths unique_entries (entry # entries) =
     (if fe_path entry \<notin> set seen_paths
      then dedup_loop (fe_path entry # seen_paths) (unique_entries @ [entry]) entries
      else dedup_loop seen_paths unique_entries entries)"

definition deduplicate_entries :: "file_entry list \<Rightarrow> file_entry list" where
  "deduplicate_entries entries = dedup_loop [] [] entries"

text \<open>The first entry of each path: what is kept.\<close>

definition first_of_path :: "file_entry list \<Rightarrow> file_entry \<Rightarrow> bool" where
  "first_of_path es e \<longleftrightarrow> find (\<lambda>x. fe_path x = fe_path e) es = Some e"

fun firsts :: "string list \<Rightarrow> file_entry list \<Rightarrow> file_entry list" where
  "firsts seen [] = []"
| "firsts seen (e # es) = (if fe_path e \<in> set seen then firsts seen es else e # firsts (fe_path e # seen) es)"

lemma dedup_loop_firsts: "dedup_loop seen u es = u @ firsts seen es"
  by (induction seen u es rule: dedup_loop.induct) auto

lemma firsts_paths: "fe_path ` set (firsts seen es) = fe_path ` set es - set seen"
  by (induction seen es rule: firsts.induct) auto

lemma firsts_distinct: "distinct (map fe_path (firsts seen es))"
proof (induction seen es rule: firsts.induct)
  case (2 seen e es)
  then show ?case using firsts_paths [of "fe_path e # seen" es] by auto
qed simp

lemma firsts_subseq: "subseq (firsts seen es) es"
  by (induction seen es rule: firsts.induct) (simp_all add: list_emb_Cons)

lemma firsts_first: "x \<in> set (firsts seen es) \<Longrightarrow> first_of_path es x \<and> fe_path x \<notin> set seen"
proof (induction seen es rule: firsts.induct)
  case (2 seen e es)
  show ?case
  proof (cases "fe_path e \<in> set seen \<or> x \<noteq> e")
    case True
    with 2 have "first_of_path es x \<and> fe_path x \<notin> set seen \<and> fe_path x \<noteq> fe_path e"
      by (cases "fe_path e \<in> set seen") auto
    then show ?thesis by (auto simp: first_of_path_def)
  qed (simp add: first_of_path_def)
qed simp

section \<open>The Release parser\<close>

record release_metadata =
  rm_files :: "file_entry list"
  rm_date :: "string option"
  rm_codename :: "string option"
  rm_origin :: "string option"
  rm_label :: "string option"
  rm_suite :: "string option"
  rm_architectures :: "string option"

text \<open>\<open>ReleaseParseError\<close> with its URL and message.\<close>

datatype release_error = ReleaseParseError string string

definition SHA256_HEADERS :: "string list" where "SHA256_HEADERS = [''SHA256:'', ''SHA256Sums:'']"

definition indented :: "string \<Rightarrow> bool" where
  "indented line \<longleftrightarrow> startswith line [SPC] \<or> startswith line [TAB]"

fun parse_header_fields :: "(string, string) dict \<Rightarrow> string list \<Rightarrow> (string, string) dict" where
  "parse_header_fields hdr [] = hdr"
| "parse_header_fields hdr (line # rest) =
     (if py_rstrip line \<in> set SHA256_HEADERS then hdr
      else if endswith (py_rstrip line) '':'' \<and> py_rstrip line \<in> {''MD5Sum:'', ''SHA1:'', ''SHA512:''} then hdr
      else if indented line then parse_header_fields hdr rest
      else if CHR '':'' \<in> set line then
        (let key = py_lower (py_strip (before CHR '':'' line)); v = py_strip (after CHR '':'' line)
         in if key \<noteq> [] \<and> v \<noteq> [] then parse_header_fields (dict_set hdr key v) rest
            else parse_header_fields hdr rest)
      else parse_header_fields hdr rest)"

fun find_sha256_section :: "nat \<Rightarrow> string list \<Rightarrow> nat option" where
  "find_sha256_section i [] = None"
| "find_sha256_section i (line # rest) =
     (if py_rstrip line \<in> set SHA256_HEADERS then Some i else find_sha256_section (i + 1) rest)"

definition at_line :: "string \<Rightarrow> nat \<Rightarrow> string \<Rightarrow> string" where
  "at_line what line_number rest = what @ '' at line '' @ nat_str line_number @ '': '' @ rest"

definition parse_entry_line :: "string \<Rightarrow> nat \<Rightarrow> string \<Rightarrow> release_error + file_entry" where
  "parse_entry_line stripped_line line_number url =
     (let parts = py_split stripped_line in
      if length parts \<noteq> 3 then
        Inl (ReleaseParseError url (at_line ''Malformed entry'' line_number
          (''expected 3 fields (hash, size, path), got '' @ nat_str (length parts))))
      else
        (let sha256_hash = parts ! 0; size_str = parts ! 1; relative_path = parts ! 2 in
         if length sha256_hash \<noteq> 64 then
           Inl (ReleaseParseError url (at_line ''Invalid SHA256 hash'' line_number
             (''expected 64 hex characters, got '' @ nat_str (length sha256_hash))))
         else if py_int_base 16 sha256_hash = None then
           Inl (ReleaseParseError url (at_line ''Invalid SHA256 hash'' line_number ''contains non-hex characters''))
         else (case py_int size_str of
             None \<Rightarrow> Inl (ReleaseParseError url (at_line ''Invalid size'' line_number
               ([CHR 0x27] @ size_str @ [CHR 0x27] @ '' is not a valid integer'')))
           | Some size_bytes \<Rightarrow>
               if size_bytes < 0 then
                 Inl (ReleaseParseError url (at_line ''Invalid size'' line_number
                   (''size cannot be negative ('' @ int_str size_bytes @ '')'')))
               else Inr \<lparr>fe_path = relative_path, fe_sha256 = sha256_hash, fe_size = size_bytes\<rparr>)))"

text \<open>The loop over the lines after the section header; \<open>i\<close> is the index of the first of them.\<close>

fun entries_loop :: "string \<Rightarrow> nat \<Rightarrow> string list \<Rightarrow> file_entry list \<Rightarrow> release_error + file_entry list" where
  "entries_loop url i [] entries = Inr entries"
| "entries_loop url i (line # rest) entries =
     (if \<not> indented line then Inr entries
      else
        (let stripped = py_strip line in
         if stripped = [] then entries_loop url (i + 1) rest entries
         else (case parse_entry_line stripped (i + 1) url of
             Inl e \<Rightarrow> Inl e
           | Inr entry \<Rightarrow> entries_loop url (i + 1) rest (entries @ [entry]))))"

definition parse_sha256_section :: "string \<Rightarrow> string \<Rightarrow> release_error + file_entry list" where
  "parse_sha256_section content url =
     (let lines = py_splitlines content in
      case find_sha256_section 0 lines of
        None \<Rightarrow> Inl (ReleaseParseError url ''No SHA256 or SHA256Sums section found'')
      | Some sha256_start \<Rightarrow>
          (case entries_loop url (sha256_start + 1) (drop (sha256_start + 1) lines) [] of
             Inl e \<Rightarrow> Inl e
           | Inr entries \<Rightarrow>
               if entries = [] then Inl (ReleaseParseError url ''SHA256 section is present but contains no valid entries'')
               else Inr entries))"

definition release_parse :: "string \<Rightarrow> string \<Rightarrow> release_error + release_metadata" where
  "release_parse content url =
     (if content = [] \<or> py_strip content = [] then Inl (ReleaseParseError url ''Release file content is empty'')
      else
        (let metadata_fields = parse_header_fields [] (py_splitlines content) in
         case parse_sha256_section content url of
           Inl e \<Rightarrow> Inl e
         | Inr entries \<Rightarrow> Inr
             \<lparr>rm_files = entries,
              rm_date = dict_get metadata_fields ''date'',
              rm_codename = dict_get metadata_fields ''codename'',
              rm_origin = dict_get metadata_fields ''origin'',
              rm_label = dict_get metadata_fields ''label'',
              rm_suite = dict_get metadata_fields ''suite'',
              rm_architectures = dict_get metadata_fields ''architectures''\<rparr>))"

section \<open>The Packages parser\<close>

definition extract_entry :: "(string, string) dict \<Rightarrow> file_entry option" where
  "extract_entry pkg_fields =
     (let filename = dict_getd pkg_fields ''Filename'' []; sha256 = dict_getd pkg_fields ''SHA256'' [];
          size_str = dict_getd pkg_fields ''Size'' []
      in if filename = [] \<or> sha256 = [] \<or> size_str = [] then None
         else (case py_int size_str of
             None \<Rightarrow> None
           | Some size_bytes \<Rightarrow>
               if size_bytes < 0 then None
               else Some \<lparr>fe_path = filename, fe_sha256 = sha256, fe_size = size_bytes\<rparr>))"

definition packages_step :: "file_entry list \<Rightarrow> string \<Rightarrow> file_entry list" where
  "packages_step entries stanza =
     (case extract_entry (parse_stanza_fields False stanza) of
        None \<Rightarrow> entries | Some entry \<Rightarrow> entries @ [entry])"

definition packages_parse :: "string \<Rightarrow> file_entry list" where
  "packages_parse content =
     (if content = [] \<or> py_strip content = [] then []
      else foldl packages_step [] (split_stanzas content))"

definition package_of_stanza :: "string \<Rightarrow> file_entry option" where
  "package_of_stanza stanza = extract_entry (parse_stanza_fields False stanza)"

lemma packages_step_filter: "foldl packages_step acc ss = acc @ List.map_filter package_of_stanza ss"
  by (induction ss arbitrary: acc) (auto simp: packages_step_def package_of_stanza_def map_filter_def split: option.splits)

interpretation mirror_packages: stanza_reader split_stanzas package_of_stanza packages_parse
proof unfold_locales
  show "packages_parse s = List.map_filter package_of_stanza (split_stanzas s)" for s
    using sp.split_blank [of s] by (auto simp: packages_parse_def packages_step_filter py_strip_Nil_iff map_filter_def)
qed

section \<open>Reading back what a repository publishes\<close>

text \<open>The text of an entry in a Packages file and in a Release file, for entries whose words hold
  no white space, as those of an archive do.\<close>

definition plain_word :: "string \<Rightarrow> bool" where
  "plain_word w \<longleftrightarrow> w \<noteq> [] \<and> list_all (\<lambda>c. \<not> py_isspace c) w"

definition plain_size :: "int \<Rightarrow> bool" where
  "plain_size n \<longleftrightarrow> 0 \<le> n \<and> length (nat_str (nat n)) \<le> 4300"

definition plain_entry :: "file_entry \<Rightarrow> bool" where
  "plain_entry e \<longleftrightarrow> plain_word (fe_path e) \<and> plain_word (fe_sha256 e) \<and> plain_size (fe_size e)"

definition package_stanza :: "file_entry \<Rightarrow> string" where
  "package_stanza e = join [LF]
     [''Filename: '' @ fe_path e, ''Size: '' @ int_str (fe_size e), ''SHA256: '' @ fe_sha256 e]"

definition release_line :: "file_entry \<Rightarrow> string" where
  "release_line e = SPC # join [SPC] [fe_sha256 e, int_str (fe_size e), fe_path e]"

lemma plain_word_strip: "plain_word w \<Longrightarrow> py_strip w = w"
  by (rule py_strip_id) (auto simp: plain_word_def list_all_iff)

lemma plain_size_word: "plain_size n \<Longrightarrow> plain_word (int_str n)"
  using nat_str_plain(4) by (auto simp: plain_size_def plain_word_def int_str_def list_all_iff)

lemma plain_size_int: "plain_size n \<Longrightarrow> py_int (int_str n) = Some n"
  by (rule py_int_int_str) (simp add: plain_size_def)

lemma plain_word_no_LF: "plain_word w \<Longrightarrow> LF \<notin> set w"
  by (auto simp: plain_word_def list_all_iff)

lemma package_stanza_lines:
  "plain_entry e \<Longrightarrow> split_on LF (package_stanza e) =
     [''Filename: '' @ fe_path e, ''Size: '' @ int_str (fe_size e), ''SHA256: '' @ fe_sha256 e]"
  unfolding package_stanza_def
  by (rule split_on_join)
    (use plain_word_no_LF [OF plain_size_word [of "fe_size e"]] in \<open>auto simp: plain_entry_def dest: plain_word_no_LF\<close>)

lemma package_stanza_block: "plain_entry e \<Longrightarrow> is_block (package_stanza e)"
  by (auto simp: is_block_def package_stanza_lines blank_def py_isspace_def)

lemma field_line:
  "CHR '':'' \<notin> set key \<Longrightarrow> key \<noteq> [] \<Longrightarrow> plain_word key \<Longrightarrow> plain_word v \<Longrightarrow>
     without_cont_step d (key @ '': '' @ v) = (if dict_has d key then d else dict_set d key v)"
proof -
  assume a: "CHR '':'' \<notin> set key" "key \<noteq> []" "plain_word key" "plain_word v"
  then obtain c k where k: "key = c # k" "\<not> py_isspace c" by (cases key) (auto simp: plain_word_def)
  have "before CHR '':'' (key @ '': '' @ v) = key" using before_append [OF a(1)] by simp
  moreover have "after CHR '':'' (key @ '': '' @ v) = SPC # v" using after_append [OF a(1)] by simp
  moreover have "\<not> is_continuation (key @ '': '' @ v)"
    using k by (auto simp: is_continuation_def py_isspace_def)
  ultimately show ?thesis
    using a plain_word_strip [OF a(3)] plain_word_strip [OF a(4)] py_strip_space [of SPC v]
    by (simp add: without_cont_step_def Let_def)
qed

lemma package_of_package_stanza:
  assumes "plain_entry e"
  shows "package_of_stanza (package_stanza e) = Some e"
proof -
  have w: "plain_word (fe_path e)" "plain_word (fe_sha256 e)" "plain_size (fe_size e)"
    using assms by (auto simp: plain_entry_def)
  have k: "plain_word ''Filename''" "plain_word ''Size''" "plain_word ''SHA256''" by code_simp+
  have "parse_stanza_fields False (package_stanza e) =
      [(''Filename'', fe_path e), (''Size'', int_str (fe_size e)), (''SHA256'', fe_sha256 e)]"
    using field_line [of "''Filename''" "fe_path e"] field_line [of "''Size''" "int_str (fe_size e)"]
      field_line [of "''SHA256''" "fe_sha256 e"] w k plain_size_word [OF w(3)]
    by (simp add: parse_stanza_fields_def parse_without_continuations_def package_stanza_lines [OF assms] dict_has_def)
  then show ?thesis
    using w plain_size_int [OF w(3)] plain_size_word [OF w(3)]
    by (auto simp: package_of_stanza_def extract_entry_def dict_getd_def plain_word_def plain_size_def)
qed

text \<open>A Release file: the header lines, the section header and one line per entry. The hash is 64
  characters long and read as hexadecimal.\<close>

definition release_entry :: "file_entry \<Rightarrow> bool" where
  "release_entry e \<longleftrightarrow> plain_entry e \<and> length (fe_sha256 e) = 64 \<and> py_int_base 16 (fe_sha256 e) \<noteq> None"

definition header_line :: "string \<Rightarrow> bool" where
  "header_line l \<longleftrightarrow> list_all (\<lambda>c. \<not> py_islinebreak c) l \<and> py_rstrip l \<notin> set SHA256_HEADERS"

definition release_text :: "string list \<Rightarrow> file_entry list \<Rightarrow> string" where
  "release_text hdr es = concat (map (\<lambda>l. l @ [LF]) (hdr @ ''SHA256:'' # map release_line es))"

lemma release_line_words: "plain_entry e \<Longrightarrow> py_split (py_strip (release_line e)) = [fe_sha256 e, int_str (fe_size e), fe_path e]
    \<and> py_strip (release_line e) \<noteq> []"
proof -
  assume "plain_entry e"
  then have w: "plain_word (fe_path e)" "plain_word (fe_sha256 e)" "plain_word (int_str (fe_size e))"
    using plain_size_word by (auto simp: plain_entry_def)
  let ?j = "join [SPC] [fe_sha256 e, int_str (fe_size e), fe_path e]"
  have "?j = fe_sha256 e @ SPC # int_str (fe_size e) @ SPC # fe_path e" by simp
  moreover have "fe_sha256 e \<noteq> []" "\<not> py_isspace (hd (fe_sha256 e))" "fe_path e \<noteq> []" "\<not> py_isspace (last (fe_path e))"
    using w by (auto simp: plain_word_def list_all_iff)
  ultimately have "py_strip ?j = ?j" by (intro py_strip_id) simp
  then have j: "py_strip (release_line e) = ?j" by (simp add: release_line_def py_strip_space)
  have "py_split ?j = [fe_sha256 e, int_str (fe_size e), fe_path e]"
    by (rule py_split_join) (use w in \<open>auto simp: plain_word_def list_all_iff\<close>)
  moreover have "?j \<noteq> []" by simp
  ultimately show ?thesis unfolding j ..
qed

lemma parse_release_line:
  assumes "release_entry e"
  shows "parse_entry_line (py_strip (release_line e)) n url = Inr e"
proof -
  have "py_int (int_str (fe_size e)) = Some (fe_size e)" "0 \<le> fe_size e"
    using assms plain_size_int by (auto simp: release_entry_def plain_entry_def plain_size_def)
  moreover have "py_split (py_strip (release_line e)) = [fe_sha256 e, int_str (fe_size e), fe_path e]"
    using assms release_line_words by (simp add: release_entry_def)
  ultimately show ?thesis
    using assms by (auto simp: parse_entry_line_def release_entry_def Let_def)
qed

lemma entries_loop_reads:
  "list_all release_entry es \<Longrightarrow> entries_loop url i (map release_line es) acc = Inr (acc @ es)"
proof (induction es arbitrary: i acc)
  case (Cons e es)
  then have "py_strip (release_line e) \<noteq> []" using release_line_words [of e] by (simp add: release_entry_def)
  moreover have "indented (release_line e)" by (simp add: release_line_def indented_def)
  ultimately show ?case using Cons parse_release_line [of e "i + 1" url] by simp
qed simp

lemma find_sha256_section_after:
  "(\<And>l. l \<in> set hdr \<Longrightarrow> py_rstrip l \<notin> set SHA256_HEADERS) \<Longrightarrow>
    find_sha256_section i (hdr @ ''SHA256:'' # rest) = Some (i + length hdr)"
proof (induction hdr arbitrary: i)
  case Nil
  have "py_rstrip ''SHA256:'' \<in> set SHA256_HEADERS" by code_simp
  then show ?case by simp
qed simp

lemma release_text_lines:
  assumes "list_all header_line hdr" and "list_all release_entry es"
  shows "py_splitlines (release_text hdr es) = hdr @ ''SHA256:'' # map release_line es"
  unfolding release_text_def
proof (rule py_splitlines_lines)
  fix l c
  assume "l \<in> set (hdr @ ''SHA256:'' # map release_line es)" and c: "c \<in> set l"
  then consider "l \<in> set hdr" | "l = ''SHA256:''" | e where "e \<in> set es" "l = release_line e" by auto
  then show "\<not> py_islinebreak c"
  proof cases
    case 1
    then show ?thesis using assms(1) c by (auto simp: list_all_iff header_line_def)
  next
    case 2
    then show ?thesis using c by (auto simp: py_islinebreak_def)
  next
    case 3
    then have "plain_word (fe_path e)" "plain_word (fe_sha256 e)" "plain_word (int_str (fe_size e))"
      using assms(2) plain_size_word by (auto simp: list_all_iff release_entry_def plain_entry_def)
    moreover have "c = SPC \<or> c \<in> set (fe_sha256 e) \<or> c \<in> set (int_str (fe_size e)) \<or> c \<in> set (fe_path e)"
      using c 3(2) by (auto simp: release_line_def)
    ultimately have "c = SPC \<or> \<not> py_isspace c" unfolding plain_word_def list_all_iff by blast
    moreover have "\<not> py_islinebreak SPC" by code_simp
    ultimately show ?thesis using islinebreak_isspace by blast
  qed
qed

lemma entries_loop_valid:
  "entries_loop url i ls acc = Inr es \<Longrightarrow> list_all (\<lambda>e. length (fe_sha256 e) = 64 \<and> py_int_base 16 (fe_sha256 e) \<noteq> None
      \<and> 0 \<le> fe_size e \<and> plain_word (fe_path e)) acc \<Longrightarrow>
   list_all (\<lambda>e. length (fe_sha256 e) = 64 \<and> py_int_base 16 (fe_sha256 e) \<noteq> None
      \<and> 0 \<le> fe_size e \<and> plain_word (fe_path e)) es"
proof (induction url i ls acc rule: entries_loop.induct)
  case (2 url i line rest acc)
  let ?v = "\<lambda>e. length (fe_sha256 e) = 64 \<and> py_int_base 16 (fe_sha256 e) \<noteq> None \<and> 0 \<le> fe_size e \<and> plain_word (fe_path e)"
  have entry: "?v e" if "parse_entry_line s n url = Inr e" for s n e
  proof -
    from that have "length (py_split s) = 3" "e = \<lparr>fe_path = py_split s ! 2, fe_sha256 = py_split s ! 0, fe_size = fe_size e\<rparr>"
      "length (py_split s ! 0) = 64" "py_int_base 16 (py_split s ! 0) \<noteq> None" "0 \<le> fe_size e"
      by (auto simp: parse_entry_line_def Let_def split: if_splits option.splits)
    moreover from this have "py_split s ! 2 \<in> set (py_split s)" by simp
    ultimately show ?thesis using py_split_words [of "py_split s ! 2" s]
      by (metis file_entry.select_convs(1,2) list_all_iff plain_word_def)
  qed
  show ?case
  proof (cases "indented line")
    case True
    show ?thesis
    proof (cases "py_strip line = []")
      case True
      then show ?thesis using 2(1) [OF _ refl True] 2(3,4) \<open>indented line\<close> by simp
    next
      case False
      then obtain e where e: "parse_entry_line (py_strip line) (i + 1) url = Inr e"
        using 2(3) True by (auto split: sum.splits)
      then have "list_all ?v (acc @ [e])" using 2(4) entry [OF e] by simp
      then show ?thesis using 2(2) [OF _ refl False e] 2(3) True False e by simp
    qed
  next
    case False
    then show ?thesis using 2(3,4) by simp
  qed
qed simp

lemma parse_sha256_section_reads:
  assumes "list_all header_line hdr" and "list_all release_entry es" and "es \<noteq> []"
  shows "parse_sha256_section (release_text hdr es) url = Inr es"
proof -
  have f: "find_sha256_section 0 (hdr @ ''SHA256:'' # map release_line es) = Some (length hdr)"
    using find_sha256_section_after [of hdr 0] assms(1) by (simp add: list_all_iff header_line_def)
  have d: "drop (length hdr + 1) (hdr @ ''SHA256:'' # map release_line es) = map release_line es" by simp
  show ?thesis
    unfolding parse_sha256_section_def release_text_lines [OF assms(1,2)] Let_def f option.case d
      entries_loop_reads [OF assms(2)]
    using assms(3) by simp
qed

lemma release_parse_reads':
  assumes "list_all header_line hdr" and "list_all release_entry es" and "es \<noteq> []"
  shows "map_sum id rm_files (release_parse (release_text hdr es) url) = Inr es"
proof -
  have "CHR ''S'' \<in> set (release_text hdr es)" by (auto simp: release_text_def)
  moreover have "\<not> py_isspace (CHR ''S'')" by code_simp
  ultimately have "\<not> blank (release_text hdr es)" unfolding blank_def by blast
  then have b: "py_strip (release_text hdr es) \<noteq> []" "release_text hdr es \<noteq> []"
    unfolding py_strip_Nil_iff by (auto simp del: blank_def simp: blank_Nil)
  show ?thesis
    unfolding release_parse_def parse_sha256_section_reads [OF assms] using b by (simp add: Let_def)
qed

definition zero_entry :: file_entry where
  "zero_entry = \<lparr>fe_path = ''main/x'', fe_sha256 = replicate 64 (CHR ''0''), fe_size = 0\<rparr>"

lemma zero_entry_ok: "release_entry zero_entry"
proof -
  have h: "list_all (\<lambda>c. digit_val 16 c \<noteq> None) (replicate 64 (CHR ''0''))" by code_simp
  then have "int_body 16 (replicate 64 (CHR ''0'')) \<noteq> None" by (intro int_body_hex_plain) simp_all
  moreover have "plain_entry zero_entry" by code_simp
  moreover have "py_strip (replicate 64 (CHR ''0'')) = replicate 64 (CHR ''0'')"
    "\<not> startswith (replicate 64 (CHR ''0'')) ''-''" "\<not> startswith (replicate 64 (CHR ''0'')) ''+''"
    "\<not> startswith (replicate 64 (CHR ''0'')) ''0x''" "\<not> startswith (replicate 64 (CHR ''0'')) ''0X''"
    by code_simp+
  ultimately show ?thesis
    by (simp add: release_entry_def zero_entry_def py_int_base_def int_prefix_def)
qed

section \<open>Properties\<close>

text \<open>A Packages file reads back: for stanzas of an archive, separated by blank lines,
  the parser returns their entries, all of them and in their order.\<close>

theorem packages_parse_reads:
  assumes "list_all plain_entry es"
  shows "packages_parse (join [LF, LF] (map package_stanza es)) = es"
proof -
  have "packages_parse (join [LF, LF] (map package_stanza es)) = List.map_filter package_of_stanza (map package_stanza es)"
    using assms package_stanza_block by (intro mirror_packages.read_blocks) (auto simp: list_all_iff)
  also have "\<dots> = es"
    using assms package_of_package_stanza by (induction es) (auto simp: map_filter_simps)
  finally show ?thesis .
qed

theorem packages_parse_reads_witness:
  "packages_parse (join [LF, LF] (map package_stanza [\<lparr>fe_path = ''pool/a.deb'', fe_sha256 = ''ab12'', fe_size = 7\<rparr>,
     \<lparr>fe_path = ''pool/b.deb'', fe_sha256 = ''cd34'', fe_size = 120\<rparr>])) =
   [\<lparr>fe_path = ''pool/a.deb'', fe_sha256 = ''ab12'', fe_size = 7\<rparr>, \<lparr>fe_path = ''pool/b.deb'', fe_sha256 = ''cd34'', fe_size = 120\<rparr>]"
  by (rule packages_parse_reads) code_simp

text \<open>A Release file reads back: whatever header it has, the parser returns the entries
  of its SHA256 section, all of them and in their order.\<close>

theorem release_parse_reads:
  assumes "list_all header_line hdr" and "list_all release_entry es" and "es \<noteq> []"
  shows "map_sum id rm_files (release_parse (release_text hdr es) url) = Inr es"
  by (rule release_parse_reads' [OF assms])

theorem release_parse_reads_witness:
  "map_sum id rm_files (release_parse (release_text [''Suite: stable'', ''MD5Sum:''] [zero_entry]) []) = Inr [zero_entry]"
proof (rule release_parse_reads)
  show "list_all header_line [''Suite: stable'', ''MD5Sum:'']" by code_simp
qed (simp_all add: zero_entry_ok)

text \<open>What the Release parser returns is a valid index: at least one entry, every hash
  64 characters that \<open>int(_, 16)\<close> reads, no negative size, no empty path and no white space in
  one. A section with one malformed line gives an error, never a part of the list.\<close>

theorem release_parse_valid:
  assumes "release_parse content url = Inr meta"
  shows "rm_files meta \<noteq> [] \<and>
    list_all (\<lambda>e. length (fe_sha256 e) = 64 \<and> py_int_base 16 (fe_sha256 e) \<noteq> None
      \<and> 0 \<le> fe_size e \<and> plain_word (fe_path e)) (rm_files meta)"
proof -
  have s: "parse_sha256_section content url = Inr (rm_files meta)"
    using assms by (auto simp: release_parse_def Let_def split: if_splits sum.splits)
  then obtain i where "entries_loop url (i + 1) (drop (i + 1) (py_splitlines content)) [] = Inr (rm_files meta)" "rm_files meta \<noteq> []"
    by (auto simp: parse_sha256_section_def Let_def split: option.splits sum.splits if_splits)
  then show ?thesis using entries_loop_valid [of url "i + 1" _ "[]" "rm_files meta"] by simp
qed

theorem release_parse_valid_witness:
  "\<exists>meta. release_parse (release_text [] [zero_entry]) [] = Inr meta \<and> rm_files meta \<noteq> []"
proof -
  have "map_sum id rm_files (release_parse (release_text [] [zero_entry]) []) = Inr [zero_entry]"
    by (rule release_parse_reads') (simp_all add: zero_entry_ok)
  then obtain meta where m: "release_parse (release_text [] [zero_entry]) [] = Inr meta"
    by (cases "release_parse (release_text [] [zero_entry]) []") auto
  then show ?thesis using release_parse_valid [OF m] by blast
qed

text \<open>The hash check lets strings through that are no SHA256 digest: \<open>int(_, 16)\<close> takes
  a \<open>0x\<close> prefix, a sign and underscores, so 64 characters need not be 64 hexadecimal digits.\<close>

lemma release_hash_not_hex:
  "parse_entry_line (''0x'' @ replicate 62 (CHR ''a'') @ '' 1 f'') 1 [] =
     Inr \<lparr>fe_path = ''f'', fe_sha256 = ''0x'' @ replicate 62 (CHR ''a''), fe_size = 1\<rparr> \<and>
   parse_entry_line (''-1_'' @ replicate 61 (CHR ''0'') @ '' 1 f'') 1 [] =
     Inr \<lparr>fe_path = ''f'', fe_sha256 = ''-1_'' @ replicate 61 (CHR ''0''), fe_size = 1\<rparr>"
proof -
  have t: "py_split '' 1 f'' = [''1'', ''f'']" by code_simp
  have "py_split ((''0x'' @ replicate 62 (CHR ''a'')) @ '' 1 f'') = (''0x'' @ replicate 62 (CHR ''a'')) # py_split '' 1 f''"
    "py_split ((''-1_'' @ replicate 61 (CHR ''0'')) @ '' 1 f'') = (''-1_'' @ replicate 61 (CHR ''0'')) # py_split '' 1 f''"
    by (rule py_split_word; simp add: py_isspace_def)+
  then have w: "py_split (''0x'' @ replicate 62 (CHR ''a'') @ '' 1 f'') = [''0x'' @ replicate 62 (CHR ''a''), ''1'', ''f'']"
    "py_split (''-1_'' @ replicate 61 (CHR ''0'') @ '' 1 f'') = [''-1_'' @ replicate 61 (CHR ''0''), ''1'', ''f'']"
    by (simp_all add: t)
  have d: "digit_val 16 (CHR ''1'') \<noteq> None" "digit_val 16 (CHR ''0'') \<noteq> None" "digit_val 16 (CHR ''a'') \<noteq> None" by code_simp+
  have "split_on CHR ''_'' (''1'' @ CHR ''_'' # replicate 61 (CHR ''0'')) = [''1'', replicate 61 (CHR ''0'')]"
    unfolding split_on_append_sep by (simp add: split_on_id)
  then have "int_body 16 (''1_'' @ replicate 61 (CHR ''0'')) \<noteq> None"
    using d unfolding int_body_hex by (simp add: list_all_iff)
  moreover have "int_body 16 (replicate 62 (CHR ''a'')) \<noteq> None"
    using d by (intro int_body_hex_plain) (simp_all add: list_all_iff)
  moreover have "py_strip (''0x'' @ replicate 62 (CHR ''a'')) = ''0x'' @ replicate 62 (CHR ''a'')"
    "py_strip (''-1_'' @ replicate 61 (CHR ''0'')) = ''-1_'' @ replicate 61 (CHR ''0'')"
    by code_simp+
  moreover have "\<not> startswith (replicate 62 (CHR ''a'')) ''_''" by code_simp
  ultimately have h: "py_int_base 16 (''0x'' @ replicate 62 (CHR ''a'')) \<noteq> None"
    "py_int_base 16 (''-1_'' @ replicate 61 (CHR ''0'')) \<noteq> None"
    by (simp_all add: py_int_base_def int_prefix_def removeprefix_def)
  have "py_int ''1'' = Some 1" by code_simp
  then show ?thesis using h unfolding parse_entry_line_def w Let_def by simp
qed

text \<open>Deduplication keeps the first entry of each path and drops the others: the
  paths are distinct, none is lost, the order is kept.\<close>

theorem deduplicate_entries_spec:
  "distinct (map fe_path (deduplicate_entries es)) \<and>
   fe_path ` set (deduplicate_entries es) = fe_path ` set es \<and>
   set (deduplicate_entries es) \<subseteq> {e. first_of_path es e} \<and>
   subseq (deduplicate_entries es) es"
  using firsts_distinct firsts_paths [of "[]" es] firsts_first firsts_subseq
  by (auto simp: deduplicate_entries_def dedup_loop_firsts)

end
