(* ===== verification/Mirror_Download.thy ===== *)
theory Mirror_Download
  imports Mirror Complex_Main
begin

text \<open>
  \<open>DownloadCoordinator\<close> of \<open>src/debcraft/infrastructure/mirror/download.py\<close>, with the exceptions of
  \<open>errors.py\<close>. What is outside the program is an argument: \<open>server\<close> says what the request for a
  URL brings on its n-th attempt, \<open>sha256\<close> is the digest of \<open>hashlib\<close>, \<open>jitter\<close> the random number
  between 0 and 1 of a retry. The file system maps path names to contents. Log messages, the
  creation of directories and the file mode are left out.
\<close>

section \<open>Exceptions, replies and results\<close>

datatype download_error =
    HttpRateLimitError string nat nat
  | HttpClientError string nat nat
  | HttpServerError string nat nat
  | NetworkError string string nat
  | ChecksumMismatchError string string string nat
  | SizeMismatchError string int int nat
  | RateLimitTimeoutError
  | RuntimeError string

definition failed_for :: "string \<Rightarrow> string \<Rightarrow> string" where
  "failed_for url message = ''Download failed for '' @ [CHR 0x27] @ url @ [CHR 0x27] @ '': '' @ message"

fun error_str :: "download_error \<Rightarrow> string" where
  "error_str (HttpRateLimitError url status r) = failed_for url (''HTTP '' @ nat_str status @ '' rate limit'')"
| "error_str (HttpClientError url status r) = failed_for url (''HTTP '' @ nat_str status @ '' client error'')"
| "error_str (HttpServerError url status r) = failed_for url (''HTTP '' @ nat_str status @ '' server error'')"
| "error_str (NetworkError url message r) = failed_for url message"
| "error_str (ChecksumMismatchError url expected actual r) =
     failed_for url (''SHA256 mismatch: expected '' @ expected @ '', got '' @ actual)"
| "error_str (SizeMismatchError url expected actual r) =
     failed_for url (''Size mismatch: expected '' @ int_str expected @ '' bytes, got '' @ int_str actual @ '' bytes'')"
| "error_str RateLimitTimeoutError = ''Rate limiter token not acquired within 60.0s timeout''"
| "error_str (RuntimeError msg) = msg"

fun status_code_of :: "download_error \<Rightarrow> nat option" where
  "status_code_of (HttpRateLimitError url status r) = Some status"
| "status_code_of (HttpClientError url status r) = Some status"
| "status_code_of (HttpServerError url status r) = Some status"
| "status_code_of _ = None"

text \<open>A request waits for a token in vain, fails with an \<open>aiohttp.ClientError\<close> before the body or in
  the middle of it, or brings a status, headers and the chunks of the body.\<close>

datatype http_reply =
    Limiter_Timeout
  | Client_Error "string list option" string
  | Reply nat "(string, string) dict" "string list"

record download_spec =
  spec_sha256 :: string
  spec_size :: int

record download_result =
  dr_url :: string
  dr_success :: bool
  dr_sha256_verified :: bool
  dr_bytes_transferred :: int
  dr_error :: "string option"
  dr_retry_count :: nat
  dr_status_code :: "nat option"
  dr_headers :: "(string, string) dict option"

record download_task =
  dt_url :: string
  dt_dest :: string
  dt_sha256 :: string
  dt_size :: int

type_synonym fs = "string \<Rightarrow> string option"

section \<open>One attempt\<close>

definition part_path :: "string \<Rightarrow> string" where "part_path dest = dest @ ''.part''"

definition capture_headers :: "(string, string) dict \<Rightarrow> (string, string) dict" where
  "capture_headers hdr =
     (let h = (case dict_get hdr ''ETag'' of None \<Rightarrow> [] | Some v \<Rightarrow> [(''ETag'', v)])
      in case dict_get hdr ''Last-Modified'' of None \<Rightarrow> h | Some v \<Rightarrow> dict_set h ''Last-Modified'' v)"

text \<open>The streaming loop: what is written, what is hashed and how many bytes.\<close>

definition stream_chunks :: "string list \<Rightarrow> string \<times> string \<times> int" where
  "stream_chunks chunks = foldl (\<lambda>(written, hashed, n) chunk.
     (written @ chunk, hashed @ chunk, n + int (length chunk))) ([], [], 0) chunks"

definition verify_download ::
  "(string \<Rightarrow> string) \<Rightarrow> string \<Rightarrow> download_spec \<Rightarrow> nat \<Rightarrow> int \<Rightarrow> string \<Rightarrow> download_error option" where
  "verify_download sha256 url spec attempt bytes_written hashed =
     (if spec_size spec \<noteq> 0 \<and> bytes_written \<noteq> spec_size spec
      then Some (SizeMismatchError url (spec_size spec) bytes_written attempt)
      else if spec_sha256 spec \<noteq> [] \<and> sha256 hashed \<noteq> spec_sha256 spec
      then Some (ChecksumMismatchError url (spec_sha256 spec) (sha256 hashed) attempt)
      else None)"

definition attempt_download ::
  "(string \<Rightarrow> string) \<Rightarrow> http_reply \<Rightarrow> string \<Rightarrow> string \<Rightarrow> download_spec \<Rightarrow> nat \<Rightarrow> fs \<Rightarrow>
     (download_error + download_result) \<times> fs" where
  "attempt_download sha256 reply url dest spec attempt files =
     (let part = part_path dest; files = files(part := None) in
      case reply of
        Limiter_Timeout \<Rightarrow> (Inl RateLimitTimeoutError, files)
      | Client_Error body message \<Rightarrow>
          (let files = (case body of None \<Rightarrow> files | Some chunks \<Rightarrow> files(part \<mapsto> fst (stream_chunks chunks)))
           in (Inl (NetworkError url message attempt), files(part := None)))
      | Reply status hdr chunks \<Rightarrow>
          if status = 429 then (Inl (HttpRateLimitError url status attempt), files(part := None))
          else if 400 \<le> status \<and> status < 500 then (Inl (HttpClientError url status attempt), files(part := None))
          else if status \<ge> 500 then (Inl (HttpServerError url status attempt), files(part := None))
          else
            (case stream_chunks chunks of (written, hashed, bytes_written) \<Rightarrow>
             let files = files(part \<mapsto> written) in
             case verify_download sha256 url spec attempt bytes_written hashed of
               Some e \<Rightarrow> (Inl e, files(part := None))
             | None \<Rightarrow>
                 (Inr \<lparr>dr_url = url, dr_success = True, dr_sha256_verified = True,
                       dr_bytes_transferred = bytes_written, dr_error = None, dr_retry_count = attempt,
                       dr_status_code = None,
                       dr_headers = (if capture_headers hdr \<noteq> [] then Some (capture_headers hdr) else None)\<rparr>,
                  files(dest := files part, part := None))))"

section \<open>Retries\<close>

definition MAX_ATTEMPTS :: nat where "MAX_ATTEMPTS = 3"

definition compute_backoff_delay :: "nat \<Rightarrow> real \<Rightarrow> real \<Rightarrow> real \<Rightarrow> real \<Rightarrow> real" where
  "compute_backoff_delay attempt base maximum jitter_factor u =
     (let delay = min (base * 2 ^ attempt) maximum; jitter = u * (delay * jitter_factor)
      in min (delay + jitter) maximum)"

record download_state =
  dl_files :: fs
  dl_sleeps :: "real list"
  dl_attempts :: nat

definition give_up :: "string \<Rightarrow> download_error option \<Rightarrow> download_result" where
  "give_up url last_error =
     \<lparr>dr_url = url, dr_success = False, dr_sha256_verified = False, dr_bytes_transferred = 0,
      dr_error = Some (case last_error of None \<Rightarrow> ''Unknown error'' | Some e \<Rightarrow> error_str e),
      dr_retry_count = MAX_ATTEMPTS - 1,
      dr_status_code = (case last_error of None \<Rightarrow> None | Some e \<Rightarrow> status_code_of e),
      dr_headers = None\<rparr>"

text \<open>\<open>for attempt in range(_MAX_ATTEMPTS)\<close>, from an attempt on. An exception that no \<open>except\<close> clause
  names is raised.\<close>

function attempts_loop ::
  "(string \<Rightarrow> string) \<Rightarrow> (nat \<Rightarrow> http_reply) \<Rightarrow> (nat \<Rightarrow> real) \<Rightarrow> string \<Rightarrow> string \<Rightarrow> download_spec \<Rightarrow>
     nat \<Rightarrow> download_error option \<Rightarrow> download_state \<Rightarrow> (download_error + download_result) \<times> download_state" where
  "attempts_loop sha256 replies jitter url dest spec attempt last_error st =
     (if attempt < MAX_ATTEMPTS then
        (case attempt_download sha256 (replies attempt) url dest spec attempt (dl_files st) of
           (outcome, files) \<Rightarrow>
             let st = st\<lparr>dl_files := files, dl_attempts := dl_attempts st + 1\<rparr> in
             case outcome of
               Inr result \<Rightarrow> (Inr result, st)
             | Inl (HttpRateLimitError u s r) \<Rightarrow>
                 attempts_loop sha256 replies jitter url dest spec (attempt + 1) (Some (HttpRateLimitError u s r))
                   (if attempt < MAX_ATTEMPTS - 1
                    then st\<lparr>dl_sleeps := dl_sleeps st @ [compute_backoff_delay attempt 5 60 (1/2) (jitter attempt)]\<rparr> else st)
             | Inl (HttpClientError u s r) \<Rightarrow> (Inl (HttpClientError u s r), st)
             | Inl RateLimitTimeoutError \<Rightarrow> (Inl RateLimitTimeoutError, st)
             | Inl (RuntimeError m) \<Rightarrow> (Inl (RuntimeError m), st)
             | Inl e \<Rightarrow>
                 attempts_loop sha256 replies jitter url dest spec (attempt + 1) (Some e)
                   (if attempt < MAX_ATTEMPTS - 1
                    then st\<lparr>dl_sleeps := dl_sleeps st @ [compute_backoff_delay attempt 1 30 (1/4) (jitter attempt)]\<rparr> else st))
      else (Inr (give_up url last_error), st))"
  by pat_completeness auto
termination attempts_loop
  by (relation "measure (\<lambda>(_, _, _, _, _, _, attempt, _, _). MAX_ATTEMPTS - attempt)") auto

declare attempts_loop.simps [simp del]

definition download_file ::
  "(string \<Rightarrow> string) \<Rightarrow> (string \<Rightarrow> nat \<Rightarrow> http_reply) \<Rightarrow> (nat \<Rightarrow> real) \<Rightarrow> bool \<Rightarrow> download_task \<Rightarrow>
     fs \<Rightarrow> (download_error + download_result) \<times> download_state" where
  "download_file sha256 server jitter started task files =
     (let st = \<lparr>dl_files = files, dl_sleeps = [], dl_attempts = 0\<rparr> in
      if \<not> started then (Inl (RuntimeError ''Session not started. Call start() first.''), st)
      else attempts_loop sha256 (server (dt_url task)) jitter (dt_url task) (dt_dest task)
             \<lparr>spec_sha256 = dt_sha256 task, spec_size = dt_size task\<rparr> 0 None st)"

section \<open>Batches\<close>

text \<open>One task of a batch: a client error becomes a failed result, any other exception is raised
  and, by the task group, ends the batch.\<close>

definition batch_task ::
  "(string \<Rightarrow> string) \<Rightarrow> (string \<Rightarrow> nat \<Rightarrow> http_reply) \<Rightarrow> (nat \<Rightarrow> real) \<Rightarrow> bool \<Rightarrow> download_task \<Rightarrow>
     fs \<Rightarrow> (download_error + download_result) \<times> fs" where
  "batch_task sha256 server jitter started task files =
     (case download_file sha256 server jitter started task files of
        (Inl (HttpClientError u s r), st) \<Rightarrow>
          (Inr \<lparr>dr_url = dt_url task, dr_success = False, dr_sha256_verified = False, dr_bytes_transferred = 0,
                dr_error = Some (error_str (HttpClientError u s r)), dr_retry_count = 0, dr_status_code = None,
                dr_headers = None\<rparr>, dl_files st)
      | (outcome, st) \<Rightarrow> (outcome, dl_files st))"

text \<open>The tasks in the order in which they run; the results are those of the tasks in their order
  (\<open>download_batch_results\<close>), so for this function the order does not matter.\<close>

fun download_batch ::
  "(string \<Rightarrow> string) \<Rightarrow> (string \<Rightarrow> nat \<Rightarrow> http_reply) \<Rightarrow> (nat \<Rightarrow> real) \<Rightarrow> bool \<Rightarrow> download_task list \<Rightarrow>
     fs \<Rightarrow> (download_error + download_result list) \<times> fs" where
  "download_batch sha256 server jitter started [] files = (Inr [], files)"
| "download_batch sha256 server jitter started (task # tasks) files =
     (case batch_task sha256 server jitter started task files of
        (Inl e, files) \<Rightarrow> (Inl e, files)
      | (Inr r, files) \<Rightarrow> (case download_batch sha256 server jitter started tasks files of
            (Inl e, files) \<Rightarrow> (Inl e, files)
          | (Inr rs, files) \<Rightarrow> (Inr (r # rs), files)))"

section \<open>What an attempt does to the files\<close>

lemma stream_chunks_eq: "stream_chunks chunks = (concat chunks, concat chunks, int (length (concat chunks)))"
proof -
  have "foldl (\<lambda>(written, hashed, n) chunk. (written @ chunk, hashed @ chunk, n + int (length chunk))) (w, h, n) chunks
      = (w @ concat chunks, h @ concat chunks, n + int (length (concat chunks)))" for w h n
    by (induction chunks arbitrary: w h n) auto
  then show ?thesis by (simp add: stream_chunks_def)
qed

lemma part_path_neq [simp]: "part_path d \<noteq> d" "d \<noteq> part_path d"
  by (simp_all add: part_path_def)

text \<open>The body a result commits: it is what the specification asks for.\<close>

definition meets_spec :: "(string \<Rightarrow> string) \<Rightarrow> download_spec \<Rightarrow> string \<Rightarrow> bool" where
  "meets_spec sha256 spec body \<longleftrightarrow>
     (spec_size spec = 0 \<or> int (length body) = spec_size spec) \<and> (spec_sha256 spec = [] \<or> sha256 body = spec_sha256 spec)"

definition committed ::
  "(string \<Rightarrow> string) \<Rightarrow> download_spec \<Rightarrow> string \<Rightarrow> fs \<Rightarrow> download_error + download_result \<Rightarrow> fs \<Rightarrow> bool" where
  "committed sha256 spec dest files outcome files' \<longleftrightarrow>
     (case outcome of
        Inr r \<Rightarrow> if dr_success r
          then (\<exists>body. meets_spec sha256 spec body \<and> dr_bytes_transferred r = int (length body) \<and>
                  files' = files(dest \<mapsto> body, part_path dest := None))
          else files' = files(part_path dest := None)
      | Inl e \<Rightarrow> files' = files(part_path dest := None))"

lemma attempt_download_committed:
  assumes "attempt_download sha256 reply url dest spec attempt files = (outcome, files')"
  shows "committed sha256 spec dest files outcome files'"
proof (cases reply)
  case (Reply status hdr chunks)
  show ?thesis
  proof (cases "status < 400 \<and> verify_download sha256 url spec attempt (int (length (concat chunks))) (concat chunks) = None")
    case True
    then have "meets_spec sha256 spec (concat chunks)"
      by (auto simp: verify_download_def meets_spec_def split: if_splits)
    then show ?thesis
      using assms True by (auto simp: attempt_download_def Reply Let_def stream_chunks_eq committed_def intro!: exI [of _ "concat chunks"])
  next
    case False
    then show ?thesis
      using assms by (auto simp: attempt_download_def Reply Let_def stream_chunks_eq committed_def split: if_splits option.splits)
  qed
qed (use assms in \<open>auto simp: attempt_download_def Let_def committed_def split: option.splits\<close>)

text \<open>The outcomes that end the loop, and one turn of the loop in these terms.\<close>

fun retried :: "download_error + download_result \<Rightarrow> bool" where
  "retried (Inr r) = False"
| "retried (Inl (HttpClientError u s r)) = False"
| "retried (Inl RateLimitTimeoutError) = False"
| "retried (Inl (RuntimeError m)) = False"
| "retried (Inl e) = True"

definition retry_delay :: "download_error + download_result \<Rightarrow> nat \<Rightarrow> real \<Rightarrow> real" where
  "retry_delay outcome attempt u = (case outcome of Inl (HttpRateLimitError _ _ _) \<Rightarrow> compute_backoff_delay attempt 5 60 (1/2) u
     | _ \<Rightarrow> compute_backoff_delay attempt 1 30 (1/4) u)"

lemma attempts_loop_turn:
  assumes "attempt_download sha256 (replies attempt) url dest spec attempt (dl_files st) = (outcome, files)"
    and "attempt < MAX_ATTEMPTS"
  shows "attempts_loop sha256 replies jitter url dest spec attempt last_error st =
    (if retried outcome then
       attempts_loop sha256 replies jitter url dest spec (attempt + 1) (case outcome of Inl e \<Rightarrow> Some e | _ \<Rightarrow> None)
         (st\<lparr>dl_files := files, dl_attempts := dl_attempts st + 1,
            dl_sleeps := dl_sleeps st @ (if attempt < MAX_ATTEMPTS - 1 then [retry_delay outcome attempt (jitter attempt)] else [])\<rparr>)
     else (outcome, st\<lparr>dl_files := files, dl_attempts := dl_attempts st + 1\<rparr>))"
  using assms
  by (subst attempts_loop.simps)
    (cases outcome rule: retried.cases; auto simp: Let_def retry_delay_def)

lemma attempts_loop_end:
  "\<not> attempt < MAX_ATTEMPTS \<Longrightarrow> attempts_loop sha256 replies jitter url dest spec attempt last_error st = (Inr (give_up url last_error), st)"
  by (subst attempts_loop.simps) simp

lemma committed_after: "committed sha256 spec dest (files(part_path dest := None)) outcome files' \<Longrightarrow> committed sha256 spec dest files outcome files'"
  by (auto simp: committed_def fun_upd_twist [of dest] split: sum.splits)

lemma attempts_loop_committed:
  "attempts_loop sha256 replies jitter url dest spec attempt last_error st = (outcome, st') \<Longrightarrow>
     0 < attempt \<longrightarrow> dl_files st (part_path dest) = None \<Longrightarrow>
     attempt \<le> MAX_ATTEMPTS \<Longrightarrow> committed sha256 spec dest (dl_files st) outcome (dl_files st')"
proof (induction "MAX_ATTEMPTS - attempt" arbitrary: attempt last_error st)
  case 0
  then have "outcome = Inr (give_up url last_error)" "st' = st" "0 < attempt"
    by (auto simp: attempts_loop_end MAX_ATTEMPTS_def)
  then show ?case using 0 by (auto simp: committed_def give_up_def fun_upd_idem)
next
  case (Suc k)
  then have lt: "attempt < MAX_ATTEMPTS" by simp
  obtain out files where a: "attempt_download sha256 (replies attempt) url dest spec attempt (dl_files st) = (out, files)"
    by fastforce
  note c = attempt_download_committed [OF a]
  note turn = attempts_loop_turn [of sha256 replies attempt url dest spec st out files jitter last_error, OF a lt]
  show ?case
  proof (cases "retried out")
    case True
    then obtain e where e: "out = Inl e" by (cases out) auto
    then have f: "files = (dl_files st)(part_path dest := None)" using c by (simp add: committed_def)
    obtain st1 where st1: "attempts_loop sha256 replies jitter url dest spec (attempt + 1) (Some e) st1 = (outcome, st')"
        "dl_files st1 = files"
      using turn True e Suc.prems(1) by auto
    have "committed sha256 spec dest (dl_files st1) outcome (dl_files st')"
      by (rule Suc.hyps(1) [OF _ st1(1)]) (use Suc.hyps(2) lt st1(2) f in auto)
    then show ?thesis using st1(2) f committed_after by metis
  next
    case False
    then show ?thesis using Suc.prems(1) c turn by auto
  qed
qed

text \<open>How many attempts are made and how long the loop sleeps.\<close>

lemma compute_backoff_bounds:
  assumes "0 \<le> u" "u \<le> 1" "0 < base" "base \<le> maximum" "0 \<le> factor"
  shows "base \<le> compute_backoff_delay attempt base maximum factor u"
    and "compute_backoff_delay attempt base maximum factor u \<le> maximum"
proof -
  let ?d = "min (base * 2 ^ attempt) maximum"
  have "base * 1 \<le> base * 2 ^ attempt" using assms(3) by (intro mult_left_mono) auto
  then have d: "base \<le> ?d" using assms(4) by simp
  moreover have "0 \<le> u * (?d * factor)" using assms d by (intro mult_nonneg_nonneg) auto
  ultimately show "base \<le> compute_backoff_delay attempt base maximum factor u"
    using assms(4) by (simp add: compute_backoff_delay_def Let_def)
  show "compute_backoff_delay attempt base maximum factor u \<le> maximum"
    by (simp add: compute_backoff_delay_def Let_def)
qed

definition sleep_ok :: "real \<Rightarrow> bool" where "sleep_ok s \<longleftrightarrow> 1 \<le> s \<and> s \<le> 60"

lemma retry_delay_ok: "0 \<le> u \<Longrightarrow> u \<le> 1 \<Longrightarrow> sleep_ok (retry_delay out attempt u)"
  using compute_backoff_bounds [of u 5 60 "1/2" attempt] compute_backoff_bounds [of u 1 30 "1/4" attempt]
  by (auto simp: retry_delay_def sleep_ok_def split: sum.splits download_error.splits)

definition attempts_ok :: "nat \<Rightarrow> download_error + download_result \<Rightarrow> download_state \<Rightarrow> bool" where
  "attempts_ok start outcome st \<longleftrightarrow> start \<le> dl_attempts st \<and> dl_attempts st \<le> MAX_ATTEMPTS \<and>
     length (dl_sleeps st) < MAX_ATTEMPTS \<and> list_all sleep_ok (dl_sleeps st) \<and>
     (case outcome of Inr r \<Rightarrow> dr_retry_count r + 1 = dl_attempts st \<and> (dr_success r \<or> dl_attempts st = MAX_ATTEMPTS)
      | Inl e \<Rightarrow> \<not> retried (Inl e))"

lemma attempt_download_retry_count:
  "attempt_download sha256 reply url dest spec attempt files = (Inr r, files') \<Longrightarrow> dr_retry_count r = attempt \<and> dr_success r"
  by (auto simp: attempt_download_def Let_def split: http_reply.splits if_splits option.splits prod.splits)

lemma attempts_loop_ok:
  assumes u: "\<And>n. 0 \<le> jitter n \<and> jitter n \<le> 1"
  shows "attempts_loop sha256 replies jitter url dest spec attempt last_error st = (outcome, st') \<Longrightarrow>
     dl_attempts st = attempt \<Longrightarrow> attempt \<le> MAX_ATTEMPTS \<Longrightarrow>
     length (dl_sleeps st) = (if attempt < MAX_ATTEMPTS then attempt else MAX_ATTEMPTS - 1) \<Longrightarrow> list_all sleep_ok (dl_sleeps st) \<Longrightarrow>
     attempts_ok attempt outcome st'"
proof (induction "MAX_ATTEMPTS - attempt" arbitrary: attempt last_error st)
  case 0
  then show ?case by (auto simp: attempts_loop_end attempts_ok_def give_up_def MAX_ATTEMPTS_def)
next
  case (Suc k)
  then have lt: "attempt < MAX_ATTEMPTS" by simp
  obtain out files where a: "attempt_download sha256 (replies attempt) url dest spec attempt (dl_files st) = (out, files)"
    by fastforce
  note turn = attempts_loop_turn [of sha256 replies attempt url dest spec st out files jitter last_error, OF a lt]
  show ?case
  proof (cases "retried out")
    case True
    then obtain e where e: "out = Inl e" by (cases out) auto
    let ?st = "st\<lparr>dl_files := files, dl_attempts := dl_attempts st + 1,
            dl_sleeps := dl_sleeps st @ (if attempt < MAX_ATTEMPTS - 1 then [retry_delay out attempt (jitter attempt)] else [])\<rparr>"
    have "attempts_loop sha256 replies jitter url dest spec (attempt + 1) (Some e) ?st = (outcome, st')"
      using turn True e Suc.prems(1) by simp
    then have "attempts_ok (attempt + 1) outcome st'"
      by (rule Suc.hyps(1) [rotated 1])
        (use Suc.hyps(2) Suc.prems lt retry_delay_ok u in \<open>auto simp: MAX_ATTEMPTS_def\<close>)
    then show ?thesis by (auto simp: attempts_ok_def)
  next
    case False
    then have "outcome = out" "st' = st\<lparr>dl_files := files, dl_attempts := dl_attempts st + 1\<rparr>"
      using Suc.prems(1) turn by auto
    then show ?thesis
      using False Suc.prems lt attempt_download_retry_count a
      by (cases out) (auto simp: attempts_ok_def MAX_ATTEMPTS_def split: if_splits)
  qed
qed

lemma attempts_loop_attempts:
  "attempts_loop sha256 replies jitter url dest spec attempt last_error st = (outcome, st') \<Longrightarrow>
     attempt < MAX_ATTEMPTS \<Longrightarrow> dl_attempts st < dl_attempts st'"
proof (induction "MAX_ATTEMPTS - attempt" arbitrary: attempt last_error st)
  case (Suc k)
  then have lt: "attempt < MAX_ATTEMPTS" by simp
  obtain out files where a: "attempt_download sha256 (replies attempt) url dest spec attempt (dl_files st) = (out, files)"
    by fastforce
  note turn = attempts_loop_turn [of sha256 replies attempt url dest spec st out files jitter last_error, OF a lt]
  show ?case
  proof (cases "retried out \<and> attempt + 1 < MAX_ATTEMPTS")
    case True
    then obtain st1 e where "attempts_loop sha256 replies jitter url dest spec (attempt + 1) e st1 = (outcome, st')"
        "dl_attempts st1 = dl_attempts st + 1"
      using turn Suc.prems(1) by auto
    moreover have "k = MAX_ATTEMPTS - (attempt + 1)" using Suc.hyps(2) by simp
    ultimately show ?thesis using Suc.hyps(1) [of "attempt + 1" e st1] True by auto
  next
    case False
    then show ?thesis using turn Suc.prems(1) by (auto simp: attempts_loop_end split: if_splits)
  qed
qed simp

text \<open>Neither the outcome of an attempt nor that of the loop depends on the files.\<close>

lemma attempt_download_files:
  "fst (attempt_download sha256 reply url dest spec attempt files) = fst (attempt_download sha256 reply url dest spec attempt files')"
  by (auto simp: attempt_download_def Let_def split: http_reply.splits option.splits prod.splits)

lemma attempts_loop_files:
  "fst (attempts_loop sha256 replies jitter url dest spec attempt last_error st) =
   fst (attempts_loop sha256 replies jitter url dest spec attempt last_error st')"
proof (induction "MAX_ATTEMPTS - attempt" arbitrary: attempt last_error st st')
  case 0
  then show ?case by (simp add: attempts_loop_end)
next
  case (Suc k)
  then have lt: "attempt < MAX_ATTEMPTS" by simp
  obtain out files where a: "attempt_download sha256 (replies attempt) url dest spec attempt (dl_files st) = (out, files)"
    by fastforce
  moreover obtain files' where a': "attempt_download sha256 (replies attempt) url dest spec attempt (dl_files st') = (out, files')"
    using a attempt_download_files [of sha256 "replies attempt" url dest spec attempt "dl_files st" "dl_files st'"]
    by (cases "attempt_download sha256 (replies attempt) url dest spec attempt (dl_files st')") auto
  ultimately show ?case
    using Suc.hyps(1) [of "attempt + 1"] Suc.hyps(2) lt
      attempts_loop_turn [of sha256 replies attempt url dest spec st out files jitter last_error, OF a lt]
      attempts_loop_turn [of sha256 replies attempt url dest spec st' out files' jitter last_error, OF a' lt]
    by auto
qed

lemma download_file_files:
  "fst (download_file sha256 server jitter started task files) = fst (download_file sha256 server jitter started task files')"
  using attempts_loop_files by (simp add: download_file_def Let_def)

definition task_outcome :: "(string \<Rightarrow> string) \<Rightarrow> (string \<Rightarrow> nat \<Rightarrow> http_reply) \<Rightarrow> (nat \<Rightarrow> real) \<Rightarrow> download_task \<Rightarrow> download_error + download_result" where
  "task_outcome sha256 server jitter task = fst (batch_task sha256 server jitter True task (\<lambda>_. None))"

lemma batch_task_outcome: "fst (batch_task sha256 server jitter True task files) = task_outcome sha256 server jitter task"
proof -
  have "fst (download_file sha256 server jitter True task files) = fst (download_file sha256 server jitter True task (\<lambda>_. None))"
    by (rule download_file_files)
  then show ?thesis
    by (auto simp: task_outcome_def batch_task_def split: prod.splits sum.splits download_error.splits)
qed

lemma download_batch_traverse:
  "fst (download_batch sha256 server jitter True tasks files) = traverse (task_outcome sha256 server jitter) tasks"
proof (induction tasks arbitrary: files)
  case (Cons task tasks)
  obtain out files' where b: "batch_task sha256 server jitter True task files = (out, files')" by fastforce
  then have "task_outcome sha256 server jitter task = out"
    using batch_task_outcome [of sha256 server jitter task files] by simp
  then show ?case
    using Cons [of files'] b by (auto split: sum.splits prod.splits)
qed simp

section \<open>Properties\<close>


definition example_server :: "string \<Rightarrow> nat \<Rightarrow> http_reply" where
  "example_server url n = (if n = 0 then Reply 503 [] [] else Reply 200 [(''ETag'', ''e1'')] [''ab'', ''c''])"

definition example_task :: download_task where
  "example_task = \<lparr>dt_url = ''u'', dt_dest = ''d'', dt_sha256 = ''cba'', dt_size = 3\<rparr>"

lemma example_attempts:
  "attempt_download rev (example_server ''u'' 0) ''u'' ''d'' \<lparr>spec_sha256 = ''cba'', spec_size = 3\<rparr> 0 files =
     (Inl (HttpServerError ''u'' 503 0), files(''d.part'' := None))"
  "attempt_download rev (example_server ''u'' (Suc 0)) ''u'' ''d'' \<lparr>spec_sha256 = ''cba'', spec_size = 3\<rparr> (Suc 0) files =
     (Inr \<lparr>dr_url = ''u'', dr_success = True, dr_sha256_verified = True, dr_bytes_transferred = 3, dr_error = None,
        dr_retry_count = 1, dr_status_code = None, dr_headers = Some [(''ETag'', ''e1'')]\<rparr>, files(''d'' \<mapsto> ''abc'', ''d.part'' := None))"
  by (simp_all add: attempt_download_def example_server_def part_path_def Let_def stream_chunks_eq verify_download_def capture_headers_def fun_upd_twist)

lemma example_download:
  "download_file rev example_server (\<lambda>_. 1/2) True example_task files =
     (Inr \<lparr>dr_url = ''u'', dr_success = True, dr_sha256_verified = True, dr_bytes_transferred = 3, dr_error = None,
        dr_retry_count = 1, dr_status_code = None, dr_headers = Some [(''ETag'', ''e1'')]\<rparr>,
      \<lparr>dl_files = files(''d'' \<mapsto> ''abc'', ''d.part'' := None), dl_sleeps = [9/8], dl_attempts = 2\<rparr>)"
  by (simp add: download_file_def example_task_def Let_def attempts_loop.simps example_attempts MAX_ATTEMPTS_def
      compute_backoff_delay_def fun_upd_twist)


text \<open>The number of attempts is bounded and the result reports it: between one and
  three requests are made, with a sleep of 1 to 60 seconds between two of them; a failure is
  reported only after three attempts, and only a client error or a rate-limiter timeout is raised.\<close>

theorem download_file_attempts:
  assumes "\<And>n. 0 \<le> jitter n \<and> jitter n \<le> 1"
    and "download_file sha256 server jitter True task files = (outcome, st)"
  shows "attempts_ok 1 outcome st"
proof -
  let ?st = "\<lparr>dl_files = files, dl_sleeps = [], dl_attempts = 0\<rparr>"
  have run: "attempts_loop sha256 (server (dt_url task)) jitter (dt_url task) (dt_dest task)
      \<lparr>spec_sha256 = dt_sha256 task, spec_size = dt_size task\<rparr> 0 None ?st = (outcome, st)"
    using assms(2) by (simp add: download_file_def Let_def)
  have "attempts_ok 0 outcome st"
    by (rule attempts_loop_ok [OF assms(1) run]) (simp_all add: MAX_ATTEMPTS_def)
  moreover have "dl_attempts st \<noteq> 0"
    using attempts_loop_attempts [OF run] by (simp add: MAX_ATTEMPTS_def)
  ultimately show ?thesis by (simp add: attempts_ok_def)
qed

theorem download_file_attempts_witness:
  "attempts_ok 1 (fst (download_file rev example_server (\<lambda>_. 1/2) True example_task (\<lambda>_. None)))
     (snd (download_file rev example_server (\<lambda>_. 1/2) True example_task (\<lambda>_. None)))"
  using download_file_attempts [OF _ example_download [of "\<lambda>_. None"]] by (simp add: example_download)

text \<open>Without an expected digest, as for a Release file, nothing is compared and the
  result still says that the digest was verified, whatever the server sent.\<close>

lemma unverified_reported_verified:
  "\<exists>r st. download_file sha256 (\<lambda>_ _. Reply 200 [] [body]) jitter True
       \<lparr>dt_url = url, dt_dest = dest, dt_sha256 = [], dt_size = 0\<rparr> files = (Inr r, st) \<and>
     dr_sha256_verified r \<and> dl_files st dest = Some body"
  by (simp add: download_file_def Let_def attempts_loop.simps MAX_ATTEMPTS_def attempt_download_def stream_chunks_eq verify_download_def)

text \<open>A batch returns one result per task, in the order of the tasks, each the one the
  task gives alone: neither the files nor the order in which the tasks run matter. An exception other
  than a client error of one task ends the batch, and the results of the others are lost.\<close>

theorem download_batch_results:
  "fst (download_batch sha256 server jitter True tasks files) = traverse (task_outcome sha256 server jitter) tasks"
  by (rule download_batch_traverse)

end
