(* ===== verification/Py_Path.thy ===== *)
theory Py_Path
  imports Py_Data
begin

text \<open>
  What the program uses of \<open>pathlib\<close> and \<open>urllib.parse\<close>: joining and printing POSIX paths, and the
  scheme, authority, path and host name of a URL.
\<close>

section \<open>Paths\<close>

definition path_root :: "string \<Rightarrow> string" where
  "path_root s = (if startswith s ''//'' \<and> \<not> startswith s ''///'' then ''//''
     else if startswith s ''/'' then ''/'' else [])"

definition path_parts :: "string \<Rightarrow> string list" where
  "path_parts s = filter (\<lambda>p. p \<noteq> [] \<and> p \<noteq> ''.'') (split_on CHR ''/'' s)"

definition path_str :: "string \<Rightarrow> string list \<Rightarrow> string" where
  "path_str root parts = (if root = [] \<and> parts = [] then ''.'' else root @ join ''/'' parts)"

text \<open>\<open>str(Path(a) / b)\<close>: an absolute \<open>b\<close> replaces \<open>a\<close>; \<open>.\<close> and empty components go, \<open>..\<close> stays.\<close>

definition path_join :: "string \<Rightarrow> string \<Rightarrow> string" where
  "path_join a b = (if path_root b \<noteq> [] then path_str (path_root b) (path_parts b)
     else path_str (path_root a) (path_parts a @ path_parts b))"

definition path_of :: "string \<Rightarrow> string" where "path_of s = path_str (path_root s) (path_parts s)"

text \<open>\<open>Path.name\<close> and \<open>Path.suffix\<close>.\<close>

definition path_name :: "string \<Rightarrow> string" where
  "path_name s = (if path_parts s = [] then [] else last (path_parts s))"

definition path_suffix :: "string \<Rightarrow> string" where
  "path_suffix s = (let n = path_name s; r = rev n in
     if CHR ''.'' \<in> set n \<and> 0 < length (before CHR ''.'' r) \<and> length (before CHR ''.'' r) + 1 < length n
     then CHR ''.'' # rev (before CHR ''.'' r) else [])"

lemma path_join_absolute: "path_join root (CHR ''/'' # s) = path_of (CHR ''/'' # s)"
proof -
  have "path_root (CHR ''/'' # s) \<noteq> []" by (simp add: path_root_def)
  then show ?thesis by (simp add: path_join_def path_of_def)
qed

section \<open>URLs\<close>

record url =
  url_scheme :: string
  url_netloc :: string
  url_path :: string

definition is_scheme_char :: "char \<Rightarrow> bool" where
  "is_scheme_char c = (let n = of_char c :: nat in
     (65 \<le> n \<and> n \<le> 90) \<or> (97 \<le> n \<and> n \<le> 122) \<or> (48 \<le> n \<and> n \<le> 57) \<or> c = CHR ''+'' \<or> c = CHR ''-'' \<or> c = CHR ''.'')"

definition is_ascii_alpha :: "char \<Rightarrow> bool" where
  "is_ascii_alpha c = (let n = of_char c :: nat in (65 \<le> n \<and> n \<le> 90) \<or> (97 \<le> n \<and> n \<le> 122))"

text \<open>\<open>urlsplit\<close> drops control characters and spaces at both ends of its argument's start, and line
  breaks and tabs everywhere.\<close>

definition url_clean :: "string \<Rightarrow> string" where
  "url_clean s = filter (\<lambda>c. c \<noteq> TAB \<and> c \<noteq> LF \<and> c \<noteq> CR) (lstrip_of (\<lambda>c. (of_char c :: nat) \<le> 32) s)"

definition split_scheme :: "string \<Rightarrow> string \<times> string" where
  "split_scheme s = (let p = before CHR '':'' s in
     if CHR '':'' \<in> set s \<and> p \<noteq> [] \<and> is_ascii_alpha (hd p) \<and> list_all is_scheme_char p
     then (py_lower p, after CHR '':'' s) else ([], s))"

definition bracket_error :: "(string \<Rightarrow> bool) \<Rightarrow> string \<Rightarrow> bool" where
  "bracket_error valid_ip netloc \<longleftrightarrow>
     (CHR ''['' \<in> set netloc) \<noteq> (CHR '']'' \<in> set netloc) \<or>
     (CHR ''['' \<in> set netloc \<and> CHR '']'' \<in> set netloc \<and> \<not> valid_ip netloc)"

text \<open>\<open>urlparse\<close>: \<open>None\<close> for \<open>ValueError\<close>. \<open>valid_ip\<close> stands for the check of a bracketed host by
  \<open>ipaddress\<close>. The parameters of the last segment are cut off the path as for \<open>http\<close>.\<close>

definition urlparse :: "(string \<Rightarrow> bool) \<Rightarrow> string \<Rightarrow> url option" where
  "urlparse valid_ip s =
     (let (scheme, rest) = split_scheme (url_clean s);
          has_netloc = startswith rest ''//'';
          body = (if has_netloc then drop 2 rest else rest);
          netloc = (if has_netloc then takeWhile (\<lambda>c. c \<notin> {CHR ''/'', CHR ''?'', CHR ''#''}) body else []);
          after_netloc = drop (length netloc) body;
          no_fragment = takeWhile (\<lambda>c. c \<noteq> CHR ''#'') after_netloc;
          path = takeWhile (\<lambda>c. c \<noteq> CHR ''?'') no_fragment;
          last_segment = rev (takeWhile (\<lambda>c. c \<noteq> CHR ''/'') (rev path));
          dir = take (length path - length last_segment) path
      in if has_netloc \<and> bracket_error valid_ip netloc then None
         else Some \<lparr>url_scheme = scheme, url_netloc = netloc,
                    url_path = (if scheme \<in> {''http'', ''https'', ''ftp'', ''''} then dir @ before CHR '';'' last_segment else path)\<rparr>)"

text \<open>\<open>parsed.hostname\<close>: user name and port are cut off and the rest is lower-cased, but for a
  zone after \<open>%\<close>.\<close>

definition url_hostname :: "url \<Rightarrow> string option" where
  "url_hostname u =
     (let hostinfo = rev (before CHR ''@'' (rev (url_netloc u)));
          host = (if CHR ''['' \<in> set hostinfo then before CHR '']'' (after CHR ''['' hostinfo)
                  else before CHR '':'' hostinfo)
      in if host = [] then None else Some (py_lower (before CHR ''%'' host) @ dropWhile (\<lambda>c. c \<noteq> CHR ''%'') host))"

end
