(* ===== verification/Mirror_Engine.thy ===== *)
theory Mirror_Engine
  imports Mirror_Download Py_Path
begin

text \<open>
  \<open>MirrorEngine\<close> of \<open>src/debcraft/infrastructure/mirror/engine.py\<close> with \<open>_staging.py\<close>,
  \<open>_persistence.py\<close>, \<open>_checksums.py\<close> and the repository loop of \<open>workflow.py\<close>. The state holds the
  table of repository files, the file system and the counters. What is outside is the record
  \<open>world\<close>. Log messages, progress reports, time stamps and database failures are left out.
\<close>

section \<open>State\<close>

datatype file_state = DISCOVERED | QUEUED | DOWNLOADING | DOWNLOADED | VERIFIED | INDEXED | FAILED

record repo_file =
  rf_sha256 :: string
  rf_size :: int
  rf_state :: file_state
  rf_retry_count :: nat
  rf_local_path :: "string option"
  rf_etag :: "string option"
  rf_last_modified :: "string option"

type_synonym file_table = "(string, repo_file) dict"

record repository_config =
  rc_name :: string
  rc_base_url :: string
  rc_suites :: "string list"
  rc_components :: "string list"
  rc_architectures :: "string list"

record sync_result =
  sr_downloaded :: nat
  sr_skipped :: nat
  sr_failed :: nat
  sr_bytes :: int

text \<open>What the code calls: the digest, the servers' replies to \<open>GET\<close> and to a conditional \<open>HEAD\<close>,
  the random numbers, decoding and encoding of text files, decompression (\<open>Inl\<close> for an exception
  that is not caught, \<open>Inr None\<close> for one that is), SQL \<open>LIKE\<close>, the mirror directory.\<close>

datatype head_reply = Head_Limiter_Timeout | Head_Client_Error | Head_Status nat

record world =
  w_sha256 :: "string \<Rightarrow> string"
  w_server :: "string \<Rightarrow> nat \<Rightarrow> http_reply"
  w_head :: "string \<Rightarrow> string option \<Rightarrow> string option \<Rightarrow> head_reply"
  w_jitter :: "nat \<Rightarrow> real"
  w_read_text :: "string \<Rightarrow> string option"
  w_encode :: "string \<Rightarrow> string"
  w_gunzip_text :: "string \<Rightarrow> string + string option"
  w_like :: "string \<Rightarrow> string \<Rightarrow> bool"
  w_valid_ip :: "string \<Rightarrow> bool"
  w_mirror_base :: string

text \<open>\<open>en_cancel\<close>: what the next reads of the cancellation token give; \<open>en_published\<close>: the snapshots
  published, with the counts of verified and failed files; \<open>en_sessions\<close>: the sessions persisted.\<close>

record engine =
  en_table :: file_table
  en_files :: fs
  en_result :: sync_result
  en_cancel :: "bool list"
  en_published :: "(nat \<times> nat) list"
  en_sessions :: "(string \<times> string \<times> string \<times> sync_result) list"

datatype engine_error = Download_Raised download_error | Read_Raised string | Url_Raised

definition is_cancelled :: "engine \<Rightarrow> bool \<times> engine" where
  "is_cancelled en = (case en_cancel en of [] \<Rightarrow> (False, en) | c # cs \<Rightarrow> (c, en\<lparr>en_cancel := cs\<rparr>))"

section \<open>The table of files\<close>

definition rstrip_slash :: "string \<Rightarrow> string" where "rstrip_slash s = rstrip_of (\<lambda>c. c = CHR ''/'') s"

definition orelse :: "'a option \<Rightarrow> 'a option \<Rightarrow> 'a option" where
  "orelse a b = (case a of None \<Rightarrow> b | Some x \<Rightarrow> Some x)"

definition upsert_repository_file ::
  "string \<Rightarrow> string \<Rightarrow> int \<Rightarrow> file_state \<Rightarrow> string option \<Rightarrow> string option \<Rightarrow> string option \<Rightarrow> file_table \<Rightarrow> file_table" where
  "upsert_repository_file url sha256 size_bytes state local_path etag last_modified t =
     (case dict_get t url of
        Some existing \<Rightarrow> dict_set t url (existing\<lparr>rf_sha256 := sha256, rf_size := size_bytes, rf_state := state,
            rf_local_path := orelse local_path (rf_local_path existing), rf_etag := orelse etag (rf_etag existing),
            rf_last_modified := orelse last_modified (rf_last_modified existing)\<rparr>)
      | None \<Rightarrow> dict_set t url \<lparr>rf_sha256 = sha256, rf_size = size_bytes, rf_state = state, rf_retry_count = 0,
            rf_local_path = local_path, rf_etag = etag, rf_last_modified = last_modified\<rparr>)"

definition create_step :: "string \<Rightarrow> file_state \<Rightarrow> file_table \<Rightarrow> file_entry \<Rightarrow> file_table" where
  "create_step base_url state t entry =
     (let url = base_url @ ''/'' @ fe_path entry in
      case dict_get t url of
        Some existing \<Rightarrow> dict_set t url (existing\<lparr>rf_sha256 := fe_sha256 entry, rf_size := fe_size entry, rf_state := state\<rparr>)
      | None \<Rightarrow> dict_set t url \<lparr>rf_sha256 = fe_sha256 entry, rf_size = fe_size entry, rf_state = state, rf_retry_count = 0,
            rf_local_path = None, rf_etag = None, rf_last_modified = None\<rparr>)"

definition batch_create_repository_files :: "repository_config \<Rightarrow> file_entry list \<Rightarrow> file_state \<Rightarrow> file_table \<Rightarrow> file_table" where
  "batch_create_repository_files config entries state t = foldl (create_step (rstrip_slash (rc_base_url config)) state) t entries"

definition update_step :: "file_state \<Rightarrow> file_table \<Rightarrow> string \<times> string \<times> int \<Rightarrow> file_table" where
  "update_step state t s = (case s of (url, local_path, bytes) \<Rightarrow>
     (case dict_get t url of None \<Rightarrow> t
      | Some existing \<Rightarrow> dict_set t url (existing\<lparr>rf_state := state, rf_local_path := Some local_path\<rparr>)))"

definition batch_update_state :: "(string \<times> string \<times> int) list \<Rightarrow> file_state \<Rightarrow> file_table \<Rightarrow> file_table" where
  "batch_update_state succeeded state t = foldl (update_step state) t succeeded"

definition MAX_RETRIES :: nat where "MAX_RETRIES = 3"

definition mark_step :: "file_table \<Rightarrow> string \<Rightarrow> file_table" where
  "mark_step t url = (case dict_get t url of None \<Rightarrow> t
     | Some existing \<Rightarrow> dict_set t url (existing\<lparr>rf_retry_count := rf_retry_count existing + 1,
         rf_state := (if rf_retry_count existing + 1 \<ge> MAX_RETRIES then FAILED else QUEUED)\<rparr>))"

definition batch_mark_failed :: "string list \<Rightarrow> file_table \<Rightarrow> file_table" where
  "batch_mark_failed failed_urls t = foldl mark_step t failed_urls"

definition get_local_checksums :: "file_table \<Rightarrow> repository_config \<Rightarrow> string \<Rightarrow> string list \<Rightarrow> (string, string) dict" where
  "get_local_checksums t config suite paths =
     foldl (\<lambda>checksums path.
       case dict_get t (rstrip_slash (rc_base_url config) @ ''/dists/'' @ suite @ ''/'' @ path) of
         None \<Rightarrow> checksums
       | Some e \<Rightarrow> if rf_state e = VERIFIED then dict_set checksums path (rf_sha256 e) else checksums) [] paths"

definition get_artifact_checksums :: "file_table \<Rightarrow> repository_config \<Rightarrow> file_entry list \<Rightarrow> (string, string) dict" where
  "get_artifact_checksums t config entries =
     foldl (\<lambda>checksums entry.
       case dict_get t (rstrip_slash (rc_base_url config) @ ''/'' @ fe_path entry) of
         None \<Rightarrow> checksums
       | Some e \<Rightarrow> if rf_state e \<in> {VERIFIED, INDEXED} then dict_set checksums (fe_path entry) (rf_sha256 e) else checksums) [] entries"

text \<open>\<open>UPDATE ... SET state = new WHERE state = old\<close>.\<close>

definition update_where :: "file_state \<Rightarrow> file_state \<Rightarrow> file_table \<Rightarrow> file_table" where
  "update_where old new t = map (\<lambda>(url, f). (url, if rf_state f = old then f\<lparr>rf_state := new\<rparr> else f)) t"

definition resume_interrupted_downloads :: "file_table \<Rightarrow> file_table" where
  "resume_interrupted_downloads t = update_where DOWNLOADING QUEUED t"

definition rollback_cancellation_state :: "file_table \<Rightarrow> file_table" where
  "rollback_cancellation_state t = update_where DOWNLOADING QUEUED (update_where QUEUED DISCOVERED t)"

section \<open>Directories\<close>

text \<open>\<open>_get_mirror_root\<close> of the engine, and \<open>derive_mirror_root\<close> and \<open>derive_file_path\<close> of
  \<open>paths.py\<close>. \<open>None\<close>: \<open>urlparse\<close> raised.\<close>

definition strip_slashes :: "string \<Rightarrow> string" where
  "strip_slashes s = lstrip_of (\<lambda>c. c = CHR ''/'') (rstrip_slash s)"

definition get_mirror_root :: "world \<Rightarrow> repository_config \<Rightarrow> string option" where
  "get_mirror_root w config = map_option (\<lambda>parsed.
     let hostname = (case url_hostname parsed of None \<Rightarrow> ''unknown'' | Some h \<Rightarrow> h);
         url_path = strip_slashes (url_path parsed);
         root = path_join (w_mirror_base w) hostname
     in if url_path \<noteq> [] then path_join root url_path else root) (urlparse (w_valid_ip w) (rc_base_url config))"

definition safe_segment :: "string \<Rightarrow> string" where
  "safe_segment seg = (if seg = ''.'' then ''%2E'' else if seg = ''..'' then ''%2E%2E'' else seg)"

definition derive_mirror_root :: "world \<Rightarrow> string \<Rightarrow> string option" where
  "derive_mirror_root w base_url = map_option (\<lambda>parsed.
     let hostname = (case url_hostname parsed of None \<Rightarrow> ''unknown'' | Some h \<Rightarrow> h);
         url_path = strip_slashes (url_path parsed)
     in if url_path \<noteq> []
        then path_of (w_mirror_base w @ ''/'' @ hostname @ ''/'' @ join ''/'' (map safe_segment (split_on CHR ''/'' url_path)))
        else path_join (w_mirror_base w) hostname) (urlparse (w_valid_ip w) base_url)"

definition derive_file_path :: "string \<Rightarrow> string \<Rightarrow> string" where
  "derive_file_path mirror_root relative_path = path_join mirror_root (lstrip_of (\<lambda>c. c = CHR ''/'') relative_path)"

definition build_download_tasks :: "file_entry list \<Rightarrow> string \<Rightarrow> string \<Rightarrow> download_task list" where
  "build_download_tasks to_download base_url mirror_root =
     map (\<lambda>entry. \<lparr>dt_url = base_url @ ''/'' @ fe_path entry, dt_dest = path_join mirror_root (fe_path entry),
        dt_sha256 = fe_sha256 entry, dt_size = fe_size entry\<rparr>) to_download"

section \<open>The Release stage\<close>

definition check_conditional :: "head_reply \<Rightarrow> download_error + bool" where
  "check_conditional reply = (case reply of
       Head_Limiter_Timeout \<Rightarrow> Inl RateLimitTimeoutError
     | Head_Client_Error \<Rightarrow> Inr False
     | Head_Status status \<Rightarrow> Inr (status = 304))"

definition check_release_unchanged :: "world \<Rightarrow> string \<Rightarrow> string \<Rightarrow> engine \<Rightarrow> download_error + bool" where
  "check_release_unchanged w url cached_path en =
     (if en_files en cached_path = None then Inr False
      else (let existing = dict_get (en_table en) url
            in check_conditional (w_head w url (Option.bind existing rf_etag) (Option.bind existing rf_last_modified))))"

definition fetch :: "world \<Rightarrow> download_task \<Rightarrow> engine \<Rightarrow> (download_error + download_result) \<times> engine" where
  "fetch w task en = (case download_file (w_sha256 w) (w_server w) (w_jitter w) True task (en_files en) of
     (outcome, st) \<Rightarrow> (outcome, en\<lparr>en_files := dl_files st\<rparr>))"

text \<open>The exceptions \<open>except (DownloadError, OSError, RuntimeError)\<close> catches are all but the
  rate-limiter timeout.\<close>

definition download_release_file ::
  "world \<Rightarrow> string \<Rightarrow> string \<Rightarrow> engine \<Rightarrow> (engine_error + (string \<times> string \<times> (string, string) dict option) option) \<times> engine" where
  "download_release_file w url dest_path en =
     (case fetch w \<lparr>dt_url = url, dt_dest = dest_path, dt_sha256 = [], dt_size = 0\<rparr> en of
        (Inl RateLimitTimeoutError, en) \<Rightarrow> (Inl (Download_Raised RateLimitTimeoutError), en)
      | (Inl e, en) \<Rightarrow> (Inr None, en)
      | (Inr result, en) \<Rightarrow>
          if \<not> dr_success result then (Inr None, en)
          else (case Option.bind (en_files en dest_path) (w_read_text w) of
                  None \<Rightarrow> (Inr None, en)
                | Some content \<Rightarrow> (Inr (Some (content, url, dr_headers result)), en)))"

text \<open>The result is the Release file, if there is one to work on, and the numbers of files downloaded
  and failed.\<close>

definition parse_and_store_release ::
  "world \<Rightarrow> string \<times> string \<times> (string, string) dict option \<Rightarrow> string \<Rightarrow> engine \<Rightarrow>
     (release_metadata option \<times> nat \<times> nat) \<times> engine" where
  "parse_and_store_release w download_result dest_path en =
     (case download_result of (content, file_url, response_headers) \<Rightarrow>
      case release_parse content file_url of
        Inl e \<Rightarrow> ((None, 0, 1), en)
      | Inr release \<Rightarrow>
          (let etag = Option.bind response_headers (\<lambda>h. dict_get h ''ETag'');
               last_modified = Option.bind response_headers (\<lambda>h. dict_get h ''Last-Modified'');
               release_content_bytes = w_encode w content
           in ((Some release, 1, 0),
               en\<lparr>en_table := upsert_repository_file file_url (w_sha256 w release_content_bytes)
                   (int (length release_content_bytes)) VERIFIED (Some dest_path) etag last_modified (en_table en)\<rparr>)))"

definition suite_path :: "string \<Rightarrow> string \<Rightarrow> string \<Rightarrow> string" where
  "suite_path mirror_root suite name = path_join (path_join (path_join mirror_root ''dists'') suite) name"

definition staging_stage_release ::
  "world \<Rightarrow> repository_config \<Rightarrow> string \<Rightarrow> string \<Rightarrow> engine \<Rightarrow>
     (engine_error + (release_metadata option \<times> nat \<times> nat)) \<times> engine" where
  "staging_stage_release w config suite mirror_root en =
     (let base_url = rstrip_slash (rc_base_url config);
          inrelease_url = base_url @ ''/dists/'' @ suite @ ''/InRelease'';
          release_url = base_url @ ''/dists/'' @ suite @ ''/Release'';
          inrelease_path = suite_path mirror_root suite ''InRelease'';
          release_path = suite_path mirror_root suite ''Release''
      in case check_release_unchanged w inrelease_url inrelease_path en of
           Inl e \<Rightarrow> (Inl (Download_Raised e), en)
         | Inr True \<Rightarrow> (Inr (None, 0, 0), en)
         | Inr False \<Rightarrow>
             (case download_release_file w inrelease_url inrelease_path en of
                (Inl e, en) \<Rightarrow> (Inl e, en)
              | (Inr (Some result), en) \<Rightarrow> map_prod Inr id (parse_and_store_release w result inrelease_path en)
              | (Inr None, en) \<Rightarrow>
                  (case download_release_file w release_url release_path en of
                     (Inl e, en) \<Rightarrow> (Inl e, en)
                   | (Inr (Some result), en) \<Rightarrow> map_prod Inr id (parse_and_store_release w result release_path en)
                   | (Inr None, en) \<Rightarrow> (Inr (None, 0, 1), en))))"

definition count :: "nat \<Rightarrow> nat \<Rightarrow> nat \<Rightarrow> int \<Rightarrow> engine \<Rightarrow> engine" where
  "count downloaded skipped failed bytes en = en\<lparr>en_result :=
     \<lparr>sr_downloaded = sr_downloaded (en_result en) + downloaded, sr_skipped = sr_skipped (en_result en) + skipped,
      sr_failed = sr_failed (en_result en) + failed, sr_bytes = sr_bytes (en_result en) + bytes\<rparr>\<rparr>"

definition stage_release ::
  "world \<Rightarrow> repository_config \<Rightarrow> string \<Rightarrow> engine \<Rightarrow> (engine_error + release_metadata option) \<times> engine" where
  "stage_release w config suite en =
     (case get_mirror_root w config of
        None \<Rightarrow> (Inl Url_Raised, en)
      | Some mirror_root \<Rightarrow>
          (case staging_stage_release w config suite mirror_root en of
             (Inl e, en) \<Rightarrow> (Inl e, en)
           | (Inr (release, downloaded, failed), en) \<Rightarrow> (Inr release, count downloaded 0 failed 0 en)))"

section \<open>The index stage\<close>

definition parse_packages_file :: "world \<Rightarrow> string \<Rightarrow> fs \<Rightarrow> engine_error + file_entry list" where
  "parse_packages_file w path files =
     (case files path of
        None \<Rightarrow> Inr []
      | Some bytes \<Rightarrow>
          if path_suffix path = ''.gz'' then
            (case w_gunzip_text w bytes of
               Inl e \<Rightarrow> Inl (Read_Raised e)
             | Inr None \<Rightarrow> Inr []
             | Inr (Some content) \<Rightarrow> Inr (packages_parse content))
          else (case w_read_text w bytes of
               None \<Rightarrow> Inl (Read_Raised ''UnicodeDecodeError'')
             | Some content \<Rightarrow> Inr (packages_parse content)))"

fun index_loop ::
  "world \<Rightarrow> string \<Rightarrow> string \<Rightarrow> string \<Rightarrow> sync_decision list \<Rightarrow> file_entry list \<Rightarrow> engine \<Rightarrow>
     (engine_error + file_entry list) \<times> engine" where
  "index_loop w base_url suite mirror_root [] entries en = (Inr entries, en)"
| "index_loop w base_url suite mirror_root (decision # decisions) entries en =
     (let entry = sd_entry decision;
          index_url = base_url @ ''/dists/'' @ suite @ ''/'' @ fe_path entry;
          dest_path = suite_path mirror_root suite (fe_path entry)
      in if sd_action decision = Skip then
           (let en = count 0 1 0 0 en in
            case parse_packages_file w dest_path (en_files en) of
              Inl e \<Rightarrow> (Inl e, en)
            | Inr es \<Rightarrow> index_loop w base_url suite mirror_root decisions (entries @ es) en)
         else
           (case fetch w \<lparr>dt_url = index_url, dt_dest = dest_path, dt_sha256 = fe_sha256 entry, dt_size = fe_size entry\<rparr> en of
              (Inl e, en) \<Rightarrow> (Inl (Download_Raised e), en)
            | (Inr result, en) \<Rightarrow>
                if dr_success result then
                  (let en = count 1 0 0 (dr_bytes_transferred result) en;
                       en = en\<lparr>en_table := upsert_repository_file index_url (fe_sha256 entry) (fe_size entry) VERIFIED
                              (Some dest_path) None None (en_table en)\<rparr>
                   in case parse_packages_file w dest_path (en_files en) of
                        Inl e \<Rightarrow> (Inl e, en)
                      | Inr es \<Rightarrow> index_loop w base_url suite mirror_root decisions (entries @ es) en)
                else index_loop w base_url suite mirror_root decisions entries (count 0 0 1 0 en)))"

definition stage_indexes ::
  "world \<Rightarrow> repository_config \<Rightarrow> string \<Rightarrow> release_metadata \<Rightarrow> engine \<Rightarrow>
     (engine_error + file_entry list) \<times> engine" where
  "stage_indexes w config suite release en =
     (case get_mirror_root w config of
        None \<Rightarrow> (Inl Url_Raised, en)
      | Some mirror_root \<Rightarrow>
          (let expected_paths = generate_index_paths (rc_components config) (rc_architectures config);
               remote_entries = filter (\<lambda>entry. fe_path entry \<in> set expected_paths) (rm_files release);
               local_checksums = get_local_checksums (en_table en) config suite expected_paths;
               decisions = compute_sync_decisions remote_entries local_checksums
           in index_loop w (rstrip_slash (rc_base_url config)) suite mirror_root decisions [] en))"

section \<open>The artifact stage\<close>

text \<open>The loop over tasks and results: the files that succeeded, the URLs that failed, and the
  counters.\<close>

fun process_loop ::
  "download_task list \<Rightarrow> download_result list \<Rightarrow> (string \<times> string \<times> int) list \<Rightarrow> string list \<Rightarrow> engine \<Rightarrow>
     (string \<times> string \<times> int) list \<times> string list \<times> engine" where
  "process_loop (task # tasks) (result # results) succeeded failed_urls en =
     (if dr_success result
      then process_loop tasks results (succeeded @ [(dt_url task, dt_dest task, dr_bytes_transferred result)]) failed_urls
             (count 1 0 0 (dr_bytes_transferred result) en)
      else process_loop tasks results succeeded (failed_urls @ [dt_url task]) (count 0 0 1 0 en))"
| "process_loop _ _ succeeded failed_urls en = (succeeded, failed_urls, en)"

definition process_artifact_results :: "download_task list \<Rightarrow> download_result list \<Rightarrow> engine \<Rightarrow> engine" where
  "process_artifact_results tasks results en =
     (case process_loop tasks results [] [] en of (succeeded, failed_urls, en) \<Rightarrow>
        en\<lparr>en_table := batch_mark_failed failed_urls (batch_update_state succeeded VERIFIED (en_table en))\<rparr>)"

definition stage_artifacts ::
  "world \<Rightarrow> repository_config \<Rightarrow> file_entry list \<Rightarrow> engine \<Rightarrow> (engine_error + unit) \<times> engine" where
  "stage_artifacts w config entries en =
     (if entries = [] then (Inr (), en)
      else
        (let entries = deduplicate_entries entries;
             base_url = rstrip_slash (rc_base_url config)
         in case get_mirror_root w config of
              None \<Rightarrow> (Inl Url_Raised, en)
            | Some mirror_root \<Rightarrow>
                (let local_checksums = get_artifact_checksums (en_table en) config entries;
                     decisions = compute_sync_decisions entries local_checksums;
                     to_download = map sd_entry (filter (\<lambda>d. sd_action d = Download) decisions);
                     skipped_count = length (filter (\<lambda>d. sd_action d = Skip) decisions);
                     en = count 0 skipped_count 0 0 en
                 in if to_download = [] then (Inr (), en)
                    else
                      (let en = en\<lparr>en_table := batch_create_repository_files config to_download QUEUED (en_table en)\<rparr>;
                           tasks = build_download_tasks to_download base_url mirror_root
                       in case download_batch (w_sha256 w) (w_server w) (w_jitter w) True tasks (en_files en) of
                            (Inl e, files) \<Rightarrow> (Inl (Download_Raised e), en\<lparr>en_files := files\<rparr>)
                          | (Inr results, files) \<Rightarrow> (Inr (), process_artifact_results tasks results (en\<lparr>en_files := files\<rparr>))))))"

section \<open>Publishing, suites and repositories\<close>

definition count_where :: "world \<Rightarrow> string \<Rightarrow> file_state \<Rightarrow> file_table \<Rightarrow> nat" where
  "count_where w pattern state t = length (filter (\<lambda>(url, f). rf_state f = state \<and> w_like w pattern url) t)"

definition stage_publish :: "world \<Rightarrow> repository_config \<Rightarrow> engine \<Rightarrow> engine" where
  "stage_publish w config en =
     (let pattern = rstrip_slash (rc_base_url config) @ ''%'';
          verified_count = count_where w pattern VERIFIED (en_table en);
          failed_count = count_where w pattern FAILED (en_table en)
      in if verified_count = 0 then en
         else en\<lparr>en_published := en_published en @ [(verified_count, failed_count)]\<rparr>)"

text \<open>One suite: \<open>True\<close> when cancellation was seen between two stages.\<close>

definition sync_single_suite :: "world \<Rightarrow> repository_config \<Rightarrow> string \<Rightarrow> engine \<Rightarrow> (engine_error + bool) \<times> engine" where
  "sync_single_suite w config suite en =
     (case stage_release w config suite en of
        (Inl e, en) \<Rightarrow> (Inl e, en)
      | (Inr None, en) \<Rightarrow> (Inr False, en)
      | (Inr (Some release), en) \<Rightarrow>
          (case is_cancelled en of
             (True, en) \<Rightarrow> (Inr True, en)
           | (False, en) \<Rightarrow>
               (case stage_indexes w config suite release en of
                  (Inl e, en) \<Rightarrow> (Inl e, en)
                | (Inr entries, en) \<Rightarrow>
                    (case is_cancelled en of
                       (True, en) \<Rightarrow> (Inr True, en)
                     | (False, en) \<Rightarrow>
                         (case stage_artifacts w config entries en of
                            (Inl e, en) \<Rightarrow> (Inl e, en)
                          | (Inr (), en) \<Rightarrow>
                              (case is_cancelled en of
                                 (True, en) \<Rightarrow> (Inr True, en)
                               | (False, en) \<Rightarrow>
                                   (case is_cancelled en of
                                      (True, en) \<Rightarrow> (Inr True, en)
                                    | (False, en) \<Rightarrow> (Inr False, stage_publish w config en))))))))"

definition determine_sync_status :: "bool \<Rightarrow> sync_result \<Rightarrow> string" where
  "determine_sync_status cancelled r =
     (if cancelled then ''cancelled''
      else if sr_failed r > 0 \<and> sr_downloaded r > 0 then ''partial''
      else if sr_failed r > 0 then ''failed''
      else ''completed'')"

fun suites_loop :: "world \<Rightarrow> repository_config \<Rightarrow> string list \<Rightarrow> engine \<Rightarrow> (engine_error + unit) \<times> engine" where
  "suites_loop w config [] en = (Inr (), en)"
| "suites_loop w config (suite # suites) en =
     (case is_cancelled en of
        (True, en) \<Rightarrow> (Inr (), en)
      | (False, en) \<Rightarrow>
          (case sync_single_suite w config suite en of
             (Inl e, en) \<Rightarrow> (Inl e, en)
           | (Inr True, en) \<Rightarrow> (Inr (), en)
           | (Inr False, en) \<Rightarrow> suites_loop w config suites en))"

definition zero_result :: sync_result where
  "zero_result = \<lparr>sr_downloaded = 0, sr_skipped = 0, sr_failed = 0, sr_bytes = 0\<rparr>"

definition sync_repository :: "world \<Rightarrow> repository_config \<Rightarrow> string \<Rightarrow> engine \<Rightarrow> (engine_error + sync_result) \<times> engine" where
  "sync_repository w config session_id en =
     (let en = en\<lparr>en_result := zero_result, en_table := resume_interrupted_downloads (en_table en)\<rparr>
      in case suites_loop w config (rc_suites config) en of
           (Inl e, en) \<Rightarrow> (Inl e, en)
         | (Inr (), en) \<Rightarrow>
             (case is_cancelled en of (cancelled, en) \<Rightarrow>
                (Inr (en_result en),
                 en\<lparr>en_sessions := en_sessions en @
                   [(session_id, rc_name config, determine_sync_status cancelled (en_result en), en_result en)]\<rparr>)))"

section \<open>The workflow over all repositories\<close>

datatype mirror_event =
    MirrorSyncStartedEvent string string "string list"
  | MirrorSyncCompletedEvent string string sync_result
  | MirrorSyncFailedEvent string string engine_error

record mirror_run =
  mr_engine :: engine
  mr_totals :: sync_result
  mr_failed_repositories :: "string list"
  mr_events :: "mirror_event list"

definition add_results :: "sync_result \<Rightarrow> sync_result \<Rightarrow> sync_result" where
  "add_results acc r =
     \<lparr>sr_downloaded = sr_downloaded acc + sr_downloaded r, sr_skipped = sr_skipped acc + sr_skipped r,
      sr_failed = sr_failed acc + sr_failed r, sr_bytes = sr_bytes acc + sr_bytes r\<rparr>"

definition sync_one :: "world \<Rightarrow> string \<Rightarrow> repository_config \<Rightarrow> mirror_run \<Rightarrow> mirror_run" where
  "sync_one w session_id repo run =
     (let run = run\<lparr>mr_events := mr_events run @ [MirrorSyncStartedEvent (rc_name repo) session_id (rc_suites repo)]\<rparr>
      in case sync_repository w repo session_id (mr_engine run) of
           (Inr r, en) \<Rightarrow> run\<lparr>mr_engine := en, mr_totals := add_results (mr_totals run) r,
              mr_events := mr_events run @ [MirrorSyncCompletedEvent (rc_name repo) session_id r]\<rparr>
         | (Inl e, en) \<Rightarrow> run\<lparr>mr_engine := en, mr_failed_repositories := mr_failed_repositories run @ [rc_name repo],
              mr_events := mr_events run @ [MirrorSyncFailedEvent (rc_name repo) session_id e]\<rparr>)"

text \<open>\<open>uuid n\<close> is the session id of the n-th repository.\<close>

fun sync_all_repositories :: "world \<Rightarrow> (nat \<Rightarrow> string) \<Rightarrow> nat \<Rightarrow> repository_config list \<Rightarrow> mirror_run \<Rightarrow> mirror_run" where
  "sync_all_repositories w uuid n [] run = run"
| "sync_all_repositories w uuid n (repo # repos) run =
     (case is_cancelled (mr_engine run) of
        (True, en) \<Rightarrow> run\<lparr>mr_engine := en\<rparr>
      | (False, en) \<Rightarrow> sync_all_repositories w uuid (n + 1) repos (sync_one w (uuid n) repo (run\<lparr>mr_engine := en\<rparr>)))"

definition execute_mirror :: "world \<Rightarrow> (nat \<Rightarrow> string) \<Rightarrow> repository_config list \<Rightarrow> engine \<Rightarrow> mirror_run" where
  "execute_mirror w uuid repositories en =
     (let run = sync_all_repositories w uuid 0 repositories
            \<lparr>mr_engine = en, mr_totals = zero_result, mr_failed_repositories = [], mr_events = []\<rparr>
      in case is_cancelled (mr_engine run) of
           (cancelled, en) \<Rightarrow> run\<lparr>mr_engine := (if cancelled
              then en\<lparr>en_table := rollback_cancellation_state (en_table en)\<rparr> else en)\<rparr>)"

section \<open>The table\<close>

lemma map_eqI_dict: "dict_get (map (\<lambda>(k, v). (k, f v)) d) k = map_option f (dict_get d k)"
  by (induction d) auto

lemma dict_get_update_where:
  "dict_get (update_where old new t) url = map_option (\<lambda>f. if rf_state f = old then f\<lparr>rf_state := new\<rparr> else f) (dict_get t url)"
  unfolding update_where_def by (rule map_eqI_dict)

text \<open>The checksum dictionaries: the value of a path is looked up, whatever the order of the loop.\<close>

definition checksum_step :: "('a \<Rightarrow> string option) \<Rightarrow> ('a \<Rightarrow> string) \<Rightarrow> (string, string) dict \<Rightarrow> 'a \<Rightarrow> (string, string) dict" where
  "checksum_step F g d x = (case F x of None \<Rightarrow> d | Some v \<Rightarrow> dict_set d (g x) v)"

lemma checksum_step_get:
  assumes "g x = g e \<Longrightarrow> F x = F e"
  shows "dict_get (checksum_step F g d x) (g e) = (if g x = g e \<and> F e \<noteq> None then F e else dict_get d (g e))"
proof (cases "g x = g e")
  case True
  then have "F x = F e" by (rule assms)
  then show ?thesis using True by (cases "F e") (simp_all add: checksum_step_def)
next
  case False
  then show ?thesis by (cases "F x") (simp_all add: checksum_step_def)
qed

lemma checksum_fold:
  assumes "\<And>x. x \<in> set xs \<Longrightarrow> g x = g e \<Longrightarrow> F x = F e"
  shows "dict_get (foldl (checksum_step F g) d xs) (g e) = (if g e \<in> g ` set xs \<and> F e \<noteq> None then F e else dict_get d (g e))"
  using assms
proof (induction xs arbitrary: d)
  case (Cons x xs)
  have s: "dict_get (checksum_step F g d x) (g e) = (if g x = g e \<and> F e \<noteq> None then F e else dict_get d (g e))"
    by (rule checksum_step_get) (use Cons.prems in auto)
  have "dict_get (foldl (checksum_step F g) d (x # xs)) (g e) =
     (if g e \<in> g ` set xs \<and> F e \<noteq> None then F e else dict_get (checksum_step F g d x) (g e))"
    using Cons.IH [of "checksum_step F g d x"] Cons.prems by simp
  then show ?case unfolding s by (cases "g x = g e") auto
qed simp

definition cached_sha :: "file_table \<Rightarrow> string \<Rightarrow> string \<Rightarrow> string option" where
  "cached_sha t base p = (case dict_get t (base @ ''/'' @ p) of None \<Rightarrow> None
     | Some f \<Rightarrow> if rf_state f \<in> {VERIFIED, INDEXED} then Some (rf_sha256 f) else None)"

lemma get_artifact_checksums_get:
  assumes "e \<in> set es"
  shows "dict_get (get_artifact_checksums t config es) (fe_path e) = cached_sha t (rstrip_slash (rc_base_url config)) (fe_path e)"
proof -
  let ?F = "\<lambda>x. cached_sha t (rstrip_slash (rc_base_url config)) (fe_path x)"
  have "(case dict_get t (rstrip_slash (rc_base_url config) @ ''/'' @ fe_path entry) of
         None \<Rightarrow> checksums
       | Some e \<Rightarrow> if rf_state e \<in> {VERIFIED, INDEXED} then dict_set checksums (fe_path entry) (rf_sha256 e) else checksums)
     = checksum_step ?F fe_path checksums entry" for checksums and entry :: file_entry
    by (simp add: cached_sha_def checksum_step_def split: option.splits)
  then have "get_artifact_checksums t config es = foldl (checksum_step ?F fe_path) [] es"
    unfolding get_artifact_checksums_def by (simp only:)
  then show ?thesis using checksum_fold [of es fe_path e ?F "[]"] assms by auto
qed

text \<open>What the decisions look at: digest and state of a row.\<close>

definition row :: "file_table \<Rightarrow> string \<Rightarrow> (string \<times> file_state) option" where
  "row t url = map_option (\<lambda>f. (rf_sha256 f, rf_state f)) (dict_get t url)"

lemma cached_sha_row: "cached_sha t base p = (case row t (base @ ''/'' @ p) of None \<Rightarrow> None
     | Some (sha, st) \<Rightarrow> if st \<in> {VERIFIED, INDEXED} then Some sha else None)"
  by (simp add: cached_sha_def row_def split: option.splits)

lemma row_create: "row (create_step base st t e) url = (if url = base @ ''/'' @ fe_path e then Some (fe_sha256 e, st) else row t url)"
  by (simp add: row_def create_step_def Let_def split: option.splits)

lemma row_update: "row (update_step st t s) url = (if url = fst s then map_option (\<lambda>(sha, _). (sha, st)) (row t url) else row t url)"
  by (cases s) (simp add: row_def update_step_def split: option.splits)

lemma row_create_fold:
  "distinct (map fe_path es) \<Longrightarrow> row (foldl (create_step base st) t es) (base @ ''/'' @ p) =
     (case List.find (\<lambda>e. fe_path e = p) es of None \<Rightarrow> row t (base @ ''/'' @ p) | Some e \<Rightarrow> Some (fe_sha256 e, st))"
proof (induction es rule: rev_induct)
  case (snoc e es)
  have "List.find (\<lambda>x. fe_path x = p) (es @ [e]) = (if fe_path e = p then Some e else List.find (\<lambda>x. fe_path x = p) es)"
    using snoc.prems by (induction es) (auto simp: image_iff)
  then show ?case using snoc by (simp add: row_create)
qed simp

lemma row_update_fold:
  "row (foldl (update_step st) t ss) url =
     (if url \<in> fst ` set ss then map_option (\<lambda>(sha, _). (sha, st)) (row t url) else row t url)"
proof (induction ss rule: rev_induct)
  case (snoc s ss)
  then show ?case by (cases "row t url") (auto simp: row_update)
qed simp

text \<open>The loop over results: counters, and the URLs it sorts out.\<close>

lemma process_loop_count:
  "length tasks = length results \<Longrightarrow> process_loop tasks results s f en = (s', f', en') \<Longrightarrow>
     \<exists>b. en' = count (length (filter dr_success results)) 0 (length (filter (\<lambda>r. \<not> dr_success r) results)) b en \<and>
       fst ` set s' = fst ` set s \<union> dt_url ` fst ` set (filter (\<lambda>(t, r). dr_success r) (zip tasks results)) \<and>
       set f' = set f \<union> dt_url ` fst ` set (filter (\<lambda>(t, r). \<not> dr_success r) (zip tasks results)) \<and>
       length f' = length f + length (filter (\<lambda>r. \<not> dr_success r) results)"
proof (induction tasks results s f en rule: process_loop.induct)
  case (1 task tasks result results succeeded failed_urls en)
  show ?case
  proof (cases "dr_success result")
    case True
    from 1(1) [OF True] 1(3,4) True obtain b where
      "en' = count (length (filter dr_success results)) 0 (length (filter (\<lambda>r. \<not> dr_success r) results)) b
         (count 1 0 0 (dr_bytes_transferred result) en)"
      and *: "fst ` set s' = fst ` set (succeeded @ [(dt_url task, dt_dest task, dr_bytes_transferred result)]) \<union>
         dt_url ` fst ` set (filter (\<lambda>(t, r). dr_success r) (zip tasks results))"
        "set f' = set failed_urls \<union> dt_url ` fst ` set (filter (\<lambda>(t, r). \<not> dr_success r) (zip tasks results))"
        "length f' = length failed_urls + length (filter (\<lambda>r. \<not> dr_success r) results)"
      by auto
    then have "en' = count (length (filter dr_success (result # results))) 0 (length (filter (\<lambda>r. \<not> dr_success r) (result # results)))
         (dr_bytes_transferred result + b) en"
      using True by (simp add: count_def)
    then show ?thesis using * True by auto
  next
    case False
    from 1(2) [OF False] 1(3,4) False obtain b where
      "en' = count (length (filter dr_success results)) 0 (length (filter (\<lambda>r. \<not> dr_success r) results)) b (count 0 0 1 0 en)"
      and *: "fst ` set s' = fst ` set succeeded \<union> dt_url ` fst ` set (filter (\<lambda>(t, r). dr_success r) (zip tasks results))"
        "set f' = set (failed_urls @ [dt_url task]) \<union> dt_url ` fst ` set (filter (\<lambda>(t, r). \<not> dr_success r) (zip tasks results))"
        "length f' = length (failed_urls @ [dt_url task]) + length (filter (\<lambda>r. \<not> dr_success r) results)"
      by auto
    then have "en' = count (length (filter dr_success (result # results))) 0 (length (filter (\<lambda>r. \<not> dr_success r) (result # results))) b en"
      using False by (simp add: count_def)
    then show ?thesis using * False by auto
  qed
qed (auto simp: count_def intro!: exI [of _ 0])

text \<open>What is downloaded: the entries whose row does not hold their digest as verified.\<close>

definition stale :: "file_table \<Rightarrow> repository_config \<Rightarrow> file_entry \<Rightarrow> bool" where
  "stale t config e \<longleftrightarrow> cached_sha t (rstrip_slash (rc_base_url config)) (fe_path e) \<noteq> Some (fe_sha256 e)"

lemma decide_stale:
  assumes "e \<in> set es"
  shows "sd_entry (decide (get_artifact_checksums t config es) e) = e \<and>
    sd_action (decide (get_artifact_checksums t config es) e) = (if stale t config e then Download else Skip)"
  using get_artifact_checksums_get [OF assms, of t config]
  by (auto simp: decide_def stale_def split: option.splits)

lemma to_download_eq:
  "map sd_entry (filter (\<lambda>d. sd_action d = Download) (compute_sync_decisions es (get_artifact_checksums t config es)))
     = filter (stale t config) es"
  "length (filter (\<lambda>d. sd_action d = Skip) (compute_sync_decisions es (get_artifact_checksums t config es)))
     = length (filter (\<lambda>e. \<not> stale t config e) es)"
proof -
  let ?d = "decide (get_artifact_checksums t config es)"
  have "map sd_entry (filter (\<lambda>d. sd_action d = Download) (map ?d xs)) = filter (stale t config) xs
      \<and> length (filter (\<lambda>d. sd_action d = Skip) (map ?d xs)) = length (filter (\<lambda>e. \<not> stale t config e) xs)"
    if "set xs \<subseteq> set es" for xs
    using that by (induction xs) (auto simp: decide_stale)
  from this [of es] show "map sd_entry (filter (\<lambda>d. sd_action d = Download) (compute_sync_decisions es (get_artifact_checksums t config es)))
     = filter (stale t config) es"
  "length (filter (\<lambda>d. sd_action d = Skip) (compute_sync_decisions es (get_artifact_checksums t config es)))
     = length (filter (\<lambda>e. \<not> stale t config e) es)"
    by (simp_all add: compute_sync_decisions_map)
qed

lemma count_simps [simp]:
  "en_table (count a b c d en) = en_table en" "en_files (count a b c d en) = en_files en"
  "en_cancel (count a b c d en) = en_cancel en"
  by (simp_all add: count_def)

text \<open>A run of the stage that raises nothing, with the results of its downloads.\<close>

lemma stage_artifacts_run:
  assumes "stage_artifacts w config entries en = (Inr (), en')"
  defines "es \<equiv> deduplicate_entries entries"
  defines "todo \<equiv> filter (stale (en_table en) config) es"
  obtains results :: "download_result list" and ss :: "(string \<times> string \<times> int) list" and fs b where "length results = length todo"
    "en_result en' = en_result (count (length (filter dr_success results)) (length es - length todo)
       (length (filter (\<lambda>r. \<not> dr_success r) results)) b en)"
    "en_table en' = batch_mark_failed fs (batch_update_state ss VERIFIED (batch_create_repository_files config todo QUEUED (en_table en)))"
    "fst ` set ss = (\<lambda>(e, r). rstrip_slash (rc_base_url config) @ ''/'' @ fe_path e) ` set (filter (\<lambda>(e, r). dr_success r) (zip todo results))"
    "length fs = length (filter (\<lambda>r. \<not> dr_success r) results)"
proof -
  have skip: "length (filter (\<lambda>e. \<not> stale (en_table en) config e) es) = length es - length todo"
    using sum_length_filter_compl [of "stale (en_table en) config" es] by (simp add: todo_def)
  show ?thesis
  proof (cases "entries = [] \<or> todo = []")
    case True
    have "en' = en \<and> es = [] \<or> en' = count 0 (length es) 0 0 en \<and> todo = []"
      using assms(1) True skip unfolding stage_artifacts_def Let_def es_def [symmetric] to_download_eq todo_def [symmetric]
      by (auto simp: es_def deduplicate_entries_def todo_def split: option.splits if_splits)
    then show ?thesis
      by (intro that [of "[]" 0 "[]" "[]"])
        (auto simp: todo_def batch_mark_failed_def batch_update_state_def batch_create_repository_files_def count_def)
  next
    case False
    then obtain root where root: "get_mirror_root w config = Some root"
      using assms(1) by (auto simp: stage_artifacts_def Let_def split: option.splits)
    let ?base = "rstrip_slash (rc_base_url config)"
    let ?tasks = "build_download_tasks todo ?base root"
    let ?en = "(count 0 (length es - length todo) 0 0 en)\<lparr>en_table := batch_create_repository_files config todo QUEUED (en_table en)\<rparr>"
    obtain out files where db: "download_batch (w_sha256 w) (w_server w) (w_jitter w) True ?tasks (en_files en) = (out, files)"
      by fastforce
    have st: "stage_artifacts w config entries en =
        (case out of Inl e \<Rightarrow> (Inl (Download_Raised e), ?en\<lparr>en_files := files\<rparr>)
         | Inr results \<Rightarrow> (Inr (), process_artifact_results ?tasks results (?en\<lparr>en_files := files\<rparr>)))"
      unfolding stage_artifacts_def Let_def es_def [symmetric] to_download_eq todo_def [symmetric] root skip
      using False db by (cases out) simp_all
    then obtain results where out: "out = Inr results" using assms(1) by (cases out) auto
    have "traverse (task_outcome (w_sha256 w) (w_server w) (w_jitter w)) ?tasks = Inr results"
      using download_batch_traverse [of "w_sha256 w" "w_server w" "w_jitter w" ?tasks "en_files en"] db out by simp
    then have len: "length ?tasks = length results" by (auto simp: traverse_Inr_iff dest: list_all2_lengthD)
    obtain ss fl en2 where pl: "process_loop ?tasks results [] [] (?en\<lparr>en_files := files\<rparr>) = (ss, fl, en2)"
      by (cases "process_loop ?tasks results [] [] (?en\<lparr>en_files := files\<rparr>)") auto
    from process_loop_count [OF len pl] obtain b where
      en2: "en2 = count (length (filter dr_success results)) 0 (length (filter (\<lambda>r. \<not> dr_success r) results)) b (?en\<lparr>en_files := files\<rparr>)"
      and ss: "fst ` set ss = dt_url ` fst ` set (filter (\<lambda>(t, r). dr_success r) (zip ?tasks results))"
      and fl: "length fl = length (filter (\<lambda>r. \<not> dr_success r) results)"
      by auto
    have en': "en' = en2\<lparr>en_table := batch_mark_failed fl (batch_update_state ss VERIFIED (en_table en2))\<rparr>"
      using st assms(1) pl out by (simp add: process_artifact_results_def)
    have "dt_url ` fst ` set (filter (\<lambda>(t, r). dr_success r) (zip ?tasks results)) =
        (\<lambda>(e, r). ?base @ ''/'' @ fe_path e) ` set (filter (\<lambda>(e, r). dr_success r) (zip todo results))"
      by (force simp: build_download_tasks_def zip_map1 image_iff)
    moreover have "length results = length todo" using len by (simp add: build_download_tasks_def)
    ultimately show ?thesis
      using en' en2 ss fl by (intro that [of results b fl ss]) (simp_all add: count_def)
  qed
qed

text \<open>A run with one artifact that a server delivers, for the witnesses.\<close>

definition example_world :: world where
  "example_world = \<lparr>w_sha256 = rev, w_server = (\<lambda>_ _. Reply 200 [] [''abc'']), w_head = (\<lambda>_ _ _. Head_Status 200),
     w_jitter = (\<lambda>_. 0), w_read_text = Some, w_encode = id, w_gunzip_text = (\<lambda>s. Inr (Some s)),
     w_like = (\<lambda>_ _. True), w_valid_ip = (\<lambda>_. True), w_mirror_base = ''/m''\<rparr>"

definition example_config :: repository_config where
  "example_config = \<lparr>rc_name = ''r'', rc_base_url = ''http://h/d'', rc_suites = [''s''], rc_components = [''main''],
     rc_architectures = [''amd64'']\<rparr>"

definition example_entries :: "file_entry list" where
  "example_entries = [\<lparr>fe_path = ''a.deb'', fe_sha256 = ''cba'', fe_size = 3\<rparr>]"

definition example_engine :: engine where
  "example_engine = \<lparr>en_table = [], en_files = (\<lambda>_. None), en_result = zero_result, en_cancel = [],
     en_published = [], en_sessions = []\<rparr>"

lemma example_stage:
  obtains en' where "stage_artifacts example_world example_config example_entries example_engine = (Inr (), en')"
    "en_result en' = \<lparr>sr_downloaded = 1, sr_skipped = 0, sr_failed = 0, sr_bytes = 3\<rparr>"
proof -
  have root: "get_mirror_root example_world example_config = Some ''/m/h/d''" by code_simp
  have base: "rstrip_slash (rc_base_url example_config) = ''http://h/d''" by code_simp
  have dest: "path_join ''/m/h/d'' ''a.deb'' = ''/m/h/d/a.deb''" by code_simp
  have dec: "deduplicate_entries example_entries = example_entries"
    "filter (\<lambda>d. sd_action d = Download) (compute_sync_decisions example_entries (get_artifact_checksums [] example_config example_entries))
       = [\<lparr>sd_entry = hd example_entries, sd_action = Download, sd_reason = ''file not cached''\<rparr>]"
    "filter (\<lambda>d. sd_action d = Skip) (compute_sync_decisions example_entries (get_artifact_checksums [] example_config example_entries)) = []"
    by code_simp+
  have "\<exists>files r. download_file rev (\<lambda>_ _. Reply 200 [] [''abc'']) (\<lambda>_. 0) True
      \<lparr>dt_url = ''http://h/d/a.deb'', dt_dest = ''/m/h/d/a.deb'', dt_sha256 = ''cba'', dt_size = 3\<rparr> fs
        = (Inr r, files) \<and> dr_success r \<and> dr_bytes_transferred r = 3" for fs
    by (simp add: download_file_def Let_def attempts_loop.simps MAX_ATTEMPTS_def attempt_download_def stream_chunks_eq verify_download_def)
  then obtain files r where d: "download_file rev (\<lambda>_ _. Reply 200 [] [''abc'']) (\<lambda>_. 0) True
      \<lparr>dt_url = ''http://h/d/a.deb'', dt_dest = ''/m/h/d/a.deb'', dt_sha256 = ''cba'', dt_size = 3\<rparr> (\<lambda>_. None)
        = (Inr r, files)" "dr_success r" "dr_bytes_transferred r = 3" by blast
  have "example_entries \<noteq> []" "fe_path (hd example_entries) = ''a.deb''" "fe_sha256 (hd example_entries) = ''cba''"
    "fe_size (hd example_entries) = 3" by (simp_all add: example_entries_def)
  then have "\<exists>en'. stage_artifacts example_world example_config example_entries example_engine = (Inr (), en') \<and>
      en_result en' = \<lparr>sr_downloaded = 1, sr_skipped = 0, sr_failed = 0, sr_bytes = 3\<rparr>"
    unfolding stage_artifacts_def Let_def root base dec
    by (simp add: dec example_engine_def build_download_tasks_def dest example_world_def batch_task_def d
        process_artifact_results_def count_def zero_result_def)
  then show ?thesis using that by blast
qed

section \<open>Properties of a run\<close>

definition total_files :: "sync_result \<Rightarrow> nat" where
  "total_files r = sr_downloaded r + sr_skipped r + sr_failed r"

lemma total_files_count: "total_files (en_result (count a b c d en)) = total_files (en_result en) + a + b + c"
  by (simp add: total_files_def count_def)

text \<open>Every artifact is accounted for: a run of the artifact stage that raises nothing
  adds to the counters of files downloaded, skipped and failed exactly one for each distinct path
  among the entries.\<close>

theorem stage_artifacts_accounts:
  assumes "stage_artifacts w config entries en = (Inr (), en')"
  shows "total_files (en_result en') = total_files (en_result en) + card (fe_path ` set entries)"
proof -
  let ?es = "deduplicate_entries entries"
  let ?todo = "filter (stale (en_table en) config) ?es"
  obtain results :: "download_result list" and b where r: "length results = length ?todo"
    "en_result en' = en_result (count (length (filter dr_success results)) (length ?es - length ?todo)
       (length (filter (\<lambda>r. \<not> dr_success r) results)) b en)"
    by (rule stage_artifacts_run [OF assms]) (erule (1) that)
  have "total_files (en_result en') = total_files (en_result en) +
      (length (filter dr_success results) + length (filter (\<lambda>r. \<not> dr_success r) results)) + (length ?es - length ?todo)"
    unfolding r(2) total_files_count by (simp only: ac_simps)
  also have "\<dots> = total_files (en_result en) + length ?es"
    unfolding sum_length_filter_compl r(1) using length_filter_le [of "stale (en_table en) config" ?es] by linarith
  also have "length ?es = card (fe_path ` set ?es)"
    using firsts_distinct [of "[]" entries]
    by (metis deduplicate_entries_def dedup_loop_firsts append_Nil distinct_card length_map set_map)
  also have "fe_path ` set ?es = fe_path ` set entries"
    using firsts_paths [of "[]" entries] by (simp add: deduplicate_entries_def dedup_loop_firsts)
  finally show ?thesis .
qed

lemma find_SomeD: "List.find P xs = Some y \<Longrightarrow> y \<in> set xs \<and> P y"
  by (auto simp: find_Some_iff)

lemma image_zip_fst: "length xs = length ys \<Longrightarrow> (\<lambda>(x, y). f x) ` set (zip xs ys) = f ` set xs"
  by (induction rule: list_induct2) auto

text \<open>Marking failures changes no digest, and no state when there is none to mark.\<close>

lemma stage_artifacts_recorded:
  assumes "stage_artifacts w config entries en = (Inr (), en')" and "sr_failed (en_result en') = sr_failed (en_result en)"
    and "e \<in> set (deduplicate_entries entries)"
  shows "\<not> stale (en_table en') config e"
proof -
  let ?es = "deduplicate_entries entries" and ?base = "rstrip_slash (rc_base_url config)"
  let ?todo = "filter (stale (en_table en) config) ?es" and ?url = "rstrip_slash (rc_base_url config) @ ''/'' @ fe_path e"
  obtain results :: "download_result list" and b fs ss where r: "length results = length ?todo"
    "en_result en' = en_result (count (length (filter dr_success results)) (length ?es - length ?todo)
       (length (filter (\<lambda>r. \<not> dr_success r) results)) b en)"
    "en_table en' = batch_mark_failed fs (batch_update_state ss VERIFIED (batch_create_repository_files config ?todo QUEUED (en_table en)))"
    "fst ` set ss = (\<lambda>(e, r). ?base @ ''/'' @ fe_path e) ` set (filter (\<lambda>(e, r). dr_success r) (zip ?todo results))"
    "length fs = length (filter (\<lambda>r. \<not> dr_success r) results)"
    by (rule stage_artifacts_run [OF assms(1)]) (erule (4) that)
  have "length (filter (\<lambda>r. \<not> dr_success r) results) = 0" using r(2) assms(2) by (simp add: count_def)
  then have ok: "\<forall>r \<in> set results. dr_success r" and fs: "fs = []" using r(5) by (simp_all add: filter_empty_conv)
  have "filter (\<lambda>(e, r). dr_success r) (zip ?todo results) = zip ?todo results"
    using ok by (auto simp: filter_id_conv dest: set_zip_rightD)
  then have "fst ` set ss = (\<lambda>e. ?base @ ''/'' @ fe_path e) ` set ?todo"
    using r(4) image_zip_fst [OF r(1) [symmetric]] by simp
  moreover have d: "distinct (map fe_path ?todo)"
    using firsts_distinct [of "[]" entries] by (simp add: deduplicate_entries_def dedup_loop_firsts distinct_map_filter)
  moreover have "?url \<in> (\<lambda>e. ?base @ ''/'' @ fe_path e) ` set ?todo \<longleftrightarrow> List.find (\<lambda>x. fe_path x = fe_path e) ?todo \<noteq> None"
    by (force simp: find_None_iff image_iff)
  moreover have "en_table en' = foldl (update_step VERIFIED) (foldl (create_step ?base QUEUED) (en_table en) ?todo) ss"
    using r(3) fs by (simp add: batch_mark_failed_def batch_update_state_def batch_create_repository_files_def)
  ultimately have row: "row (en_table en') ?url = (case List.find (\<lambda>x. fe_path x = fe_path e) ?todo of
       None \<Rightarrow> row (en_table en) ?url | Some x \<Rightarrow> Some (fe_sha256 x, VERIFIED))"
    using row_create_fold [OF d, of ?base QUEUED "en_table en" "fe_path e"]
    by (cases "List.find (\<lambda>x. fe_path x = fe_path e) ?todo") (simp_all add: row_update_fold)
  show ?thesis
  proof (cases "stale (en_table en) config e")
    case True
    then have e: "e \<in> set ?todo" using assms(3) by simp
    then have "List.find (\<lambda>x. fe_path x = fe_path e) ?todo \<noteq> None" unfolding find_None_iff by blast
    then obtain y where y: "List.find (\<lambda>x. fe_path x = fe_path e) ?todo = Some y" by blast
    have "y = e" using find_SomeD [OF y] e d unfolding distinct_map by (blast dest: inj_onD)
    then show ?thesis using row y by (simp add: stale_def cached_sha_row)
  next
    case False
    then have "row (en_table en') ?url = row (en_table en) ?url \<or> (\<exists>x \<in> set ?todo. fe_path x = fe_path e)"
      using row by (auto simp: find_Some_iff split: option.splits dest: nth_mem)
    moreover have "\<not> (\<exists>x \<in> set ?todo. fe_path x = fe_path e)"
    proof
      assume "\<exists>x \<in> set ?todo. fe_path x = fe_path e"
      then obtain x where x: "x \<in> set ?es" "stale (en_table en) config x" "fe_path x = fe_path e" by auto
      then have "x = e" using firsts_distinct [of "[]" entries] assms(3)
        by (metis deduplicate_entries_def dedup_loop_firsts append_Nil distinct_map inj_onD)
      then show False using x False by simp
    qed
    ultimately have "row (en_table en') ?url = row (en_table en) ?url" by blast
    then show ?thesis using False unfolding stale_def cached_sha_row by (simp only: simp_thms)
  qed
qed

lemma card_dedup: "card (fe_path ` set entries) = length (deduplicate_entries entries)"
  using firsts_distinct [of "[]" entries] firsts_paths [of "[]" entries]
  by (metis Diff_empty append_Nil dedup_loop_firsts deduplicate_entries_def distinct_card length_map list.set(1) list.set_map)

theorem stage_artifacts_accounts_witness:
  "\<exists>en'. stage_artifacts example_world example_config example_entries example_engine = (Inr (), en') \<and>
     total_files (en_result en') = total_files (en_result example_engine) + 1"
proof -
  obtain en' where r: "stage_artifacts example_world example_config example_entries example_engine = (Inr (), en')"
    by (rule example_stage)
  show ?thesis using stage_artifacts_accounts [OF r] r by (auto simp: example_entries_def)
qed



text \<open>A file a repository lists under an absolute name is written there and not below
  the mirror directory: \<open>pathlib\<close> drops the left operand. Nothing between the Packages parser and the
  download refuses such a name; \<open>derive_file_path\<close> would, and is not used.\<close>

lemma absolute_filename_escapes:
  "map dt_dest (build_download_tasks
     (packages_parse (package_stanza \<lparr>fe_path = ''/etc/cron.d/x'', fe_sha256 = ''ab'', fe_size = 1\<rparr>)) base_url mirror_root)
     = [''/etc/cron.d/x''] \<and>
   derive_file_path ''/srv/mirror'' ''/etc/cron.d/x'' = ''/srv/mirror/etc/cron.d/x''"
proof
  have "packages_parse (package_stanza \<lparr>fe_path = ''/etc/cron.d/x'', fe_sha256 = ''ab'', fe_size = 1\<rparr>)
      = [\<lparr>fe_path = ''/etc/cron.d/x'', fe_sha256 = ''ab'', fe_size = 1\<rparr>]"
    by code_simp
  moreover have "path_of ''/etc/cron.d/x'' = ''/etc/cron.d/x''" by code_simp
  ultimately show "map dt_dest (build_download_tasks
     (packages_parse (package_stanza \<lparr>fe_path = ''/etc/cron.d/x'', fe_sha256 = ''ab'', fe_size = 1\<rparr>)) base_url mirror_root)
     = [''/etc/cron.d/x'']"
    by (simp add: build_download_tasks_def path_join_absolute)
  show "derive_file_path ''/srv/mirror'' ''/etc/cron.d/x'' = ''/srv/mirror/etc/cron.d/x''" by code_simp
qed

text \<open>A client error on one index, a 404 say, ends the synchronization of its repository:
  the exception passes through the loop, although the loop has a branch that counts the failure
  and goes on with the next index.\<close>

lemma index_client_error_aborts:
  "fst (index_loop (w\<lparr>w_server := \<lambda>_ _. Reply 404 [] []\<rparr>) base_url suite mirror_root
      (\<lparr>sd_entry = entry, sd_action = Download, sd_reason = reason\<rparr> # decisions) entries en) =
   Inl (Download_Raised (HttpClientError (base_url @ ''/dists/'' @ suite @ ''/'' @ fe_path entry) 404 0))"
  by (simp add: fetch_def download_file_def Let_def attempts_loop.simps MAX_ATTEMPTS_def attempt_download_def)

text \<open>Rolling back after a cancellation takes every interrupted file one step back and
  touches no other: a file in transfer is queued again, a queued one is only discovered, and whatever
  was downloaded, verified, indexed or failed stays. No file is left in transfer.\<close>

theorem rollback_cancellation_state_spec:
  "dict_get (rollback_cancellation_state t) url =
     map_option (\<lambda>f. case rf_state f of DOWNLOADING \<Rightarrow> f\<lparr>rf_state := QUEUED\<rparr> | QUEUED \<Rightarrow> f\<lparr>rf_state := DISCOVERED\<rparr> | _ \<Rightarrow> f)
       (dict_get t url) \<and>
   length (filter (\<lambda>(u, f). rf_state f = DOWNLOADING) (rollback_cancellation_state t)) = 0"
proof
  show "dict_get (rollback_cancellation_state t) url =
     map_option (\<lambda>f. case rf_state f of DOWNLOADING \<Rightarrow> f\<lparr>rf_state := QUEUED\<rparr> | QUEUED \<Rightarrow> f\<lparr>rf_state := DISCOVERED\<rparr> | _ \<Rightarrow> f)
       (dict_get t url)"
    by (cases "dict_get t url") (auto simp: rollback_cancellation_state_def dict_get_update_where split: file_state.split)
  show "length (filter (\<lambda>(u, f). rf_state f = DOWNLOADING) (rollback_cancellation_state t)) = 0"
    by (auto simp: rollback_cancellation_state_def update_where_def filter_empty_conv split: if_splits)
qed

end
