(* ===== verification/Mirror_Config.thy ===== *)
theory Mirror_Config
  imports Mirror_Engine
begin

text \<open>
  \<open>src/debcraft/domain/mirror/config.py\<close> and \<open>src/debcraft/infrastructure/mirror/config_reader.py\<close>:
  from the parsed TOML document to a validated \<open>MirrorConfig\<close>. The TOML parser and the text of floats
  and of nested values are parameters. A TOML float may be infinite or not a number.
\<close>

section \<open>Values\<close>

datatype py_float = Finite real | PosInf | NegInf | NaN

definition float_less :: "py_float \<Rightarrow> real \<Rightarrow> bool" where
  "float_less x r = (case x of Finite y \<Rightarrow> y < r | PosInf \<Rightarrow> False | NegInf \<Rightarrow> True | NaN \<Rightarrow> False)"

definition float_greater :: "py_float \<Rightarrow> real \<Rightarrow> bool" where
  "float_greater x r = (case x of Finite y \<Rightarrow> y > r | PosInf \<Rightarrow> True | NegInf \<Rightarrow> False | NaN \<Rightarrow> False)"

datatype toml =
    TStr string | TInt int | TFloat py_float | TBool bool | TTime string string
  | TArr "toml list" | TTable "(string \<times> toml) list"

fun type_name :: "toml \<Rightarrow> string" where
  "type_name (TStr s) = ''str''"
| "type_name (TInt i) = ''int''"
| "type_name (TFloat x) = ''float''"
| "type_name (TBool b) = ''bool''"
| "type_name (TTime name text) = name"
| "type_name (TArr xs) = ''list''"
| "type_name (TTable d) = ''dict''"

record mirror_config =
  mc_repositories :: "repository_config list"
  mc_download_timeout :: int
  mc_max_connections_per_repo :: int
  mc_max_total_connections :: int
  mc_rate_limit_rps :: py_float
  mc_rate_limit_burst :: "int option"

section \<open>Validation\<close>

definition validate_url :: "(string \<Rightarrow> bool) \<Rightarrow> string \<Rightarrow> string list" where
  "validate_url valid_ip url =
     (if url = [] then [''base_url must not be empty'']
      else case urlparse valid_ip url of
        None \<Rightarrow> [''base_url is not a valid URL: '' @ [CHR 0x27] @ url @ [CHR 0x27]]
      | Some parsed \<Rightarrow>
          (if url_scheme parsed \<notin> {''http'', ''https''}
           then [''base_url must use http or https scheme, got '' @ [CHR 0x27] @ url_scheme parsed @ [CHR 0x27]] else [])
          @ (if url_netloc parsed = [] then [''base_url must have a valid host: '' @ [CHR 0x27] @ url @ [CHR 0x27]] else []))"

fun empty_items :: "string \<Rightarrow> nat \<Rightarrow> string list \<Rightarrow> string list" where
  "empty_items field_name i [] = []"
| "empty_items field_name i (item # items) =
     (if item = [] then [field_name @ ''['' @ nat_str i @ ''] must not be empty''] else [])
     @ empty_items field_name (i + 1) items"

definition validate_string_list :: "string list \<Rightarrow> string \<Rightarrow> nat \<Rightarrow> nat \<Rightarrow> string list" where
  "validate_string_list items field_name min_count max_count =
     (if length items < min_count
      then [field_name @ '' must have at least '' @ nat_str min_count @ '' entry, got '' @ nat_str (length items)]
      else if length items > max_count
      then [field_name @ '' must have at most '' @ nat_str max_count @ '' entries, got '' @ nat_str (length items)]
      else [])
     @ empty_items field_name 0 items"

definition validate_repository_config :: "(string \<Rightarrow> bool) \<Rightarrow> repository_config \<Rightarrow> string list" where
  "validate_repository_config valid_ip config =
     (if rc_name config = [] then [''Repository name must not be empty'']
      else if length (rc_name config) > 128
      then [''Repository name must be at most 128 characters, got '' @ nat_str (length (rc_name config))]
      else [])
     @ validate_url valid_ip (rc_base_url config)
     @ validate_string_list (rc_suites config) ''suites'' 1 20
     @ validate_string_list (rc_components config) ''components'' 1 50
     @ validate_string_list (rc_architectures config) ''architectures'' 1 20"

fun duplicate_names :: "string list \<Rightarrow> string list \<Rightarrow> string list" where
  "duplicate_names seen [] = []"
| "duplicate_names seen (name # names) =
     (if name \<in> set seen then [''Duplicate repository name: '' @ [CHR 0x27] @ name @ [CHR 0x27]] else [])
     @ duplicate_names (name # seen) names"

definition validate_mirror_config :: "(string \<Rightarrow> bool) \<Rightarrow> (py_float \<Rightarrow> string) \<Rightarrow> mirror_config \<Rightarrow> string list" where
  "validate_mirror_config valid_ip float_str config =
     (let timeout = mc_download_timeout config; rps = mc_rate_limit_rps config in
     (if timeout < 30 then [''download_timeout must be at least 30 seconds, got '' @ int_str timeout]
      else if timeout > 3600 then [''download_timeout must be at most 3600 seconds, got '' @ int_str timeout]
      else [])
     @ (if float_less rps 1 then [''rate_limit_rps must be at least 1 request per second, got '' @ float_str rps]
        else if float_greater rps 1000 then [''rate_limit_rps must be at most 1000 requests per second, got '' @ float_str rps]
        else [])
     @ (case mc_rate_limit_burst config of None \<Rightarrow> []
        | Some burst \<Rightarrow>
            if burst < 1 then [''rate_limit_burst must be at least 1, got '' @ int_str burst]
            else if burst > 200 then [''rate_limit_burst must be at most 200, got '' @ int_str burst] else [])
     @ concat (map (\<lambda>repo. map (\<lambda>err. ''Repository '' @ [CHR 0x27] @ rc_name repo @ [CHR 0x27] @ '': '' @ err)
           (validate_repository_config valid_ip repo)) (mc_repositories config))
     @ duplicate_names [] (map rc_name (mc_repositories config)))"

section \<open>Reading\<close>

text \<open>\<open>Ill_Typed\<close>: a field has a TOML type the code does not expect and does not check. The run may
  then raise \<open>TypeError\<close> or \<open>AttributeError\<close>, or go on with the value; it is outside the model.
  \<open>Value_Error\<close> and \<open>Overflow_Error\<close> are what \<open>int()\<close> raises on a float.\<close>

datatype config_error = Mirror_Configuration_Error string "nat option" | Value_Error | Overflow_Error | Ill_Typed

definition configuration_error :: "string \<Rightarrow> nat option \<Rightarrow> config_error" where
  "configuration_error message line_number = Mirror_Configuration_Error
     (case line_number of None \<Rightarrow> message | Some n \<Rightarrow> message @ '' (line '' @ nat_str n @ '')'') line_number"

text \<open>\<open>re.search(r"line\s+(\d+)", msg)\<close>.\<close>

definition is_digit :: "char \<Rightarrow> bool" where "is_digit c \<longleftrightarrow> digit_val 10 c \<noteq> None"

fun extract_line_number :: "string \<Rightarrow> nat option" where
  "extract_line_number [] = None"
| "extract_line_number (c # cs) =
     (let rest = drop 3 cs; digits = takeWhile is_digit (dropWhile py_isspace rest)
      in if startswith (c # cs) ''line'' \<and> rest \<noteq> [] \<and> py_isspace (hd rest) \<and> digits \<noteq> []
         then map_option nat (py_int digits)
         else extract_line_number cs)"

text \<open>A sequence of strings: a string is one as well, of its characters.\<close>

fun as_strings :: "toml \<Rightarrow> string list option" where
  "as_strings (TStr s) = Some (map (\<lambda>c. [c]) s)"
| "as_strings (TArr xs) =
     (if list_all (\<lambda>x. case x of TStr s \<Rightarrow> True | _ \<Rightarrow> False) xs
      then Some (map (\<lambda>x. case x of TStr s \<Rightarrow> s | _ \<Rightarrow> []) xs) else None)"
| "as_strings _ = None"

definition get_string :: "(string \<times> toml) list \<Rightarrow> string \<Rightarrow> string option" where
  "get_string d k = (case dict_getd d k (TStr []) of TStr s \<Rightarrow> Some s | _ \<Rightarrow> None)"

definition get_int :: "(string \<times> toml) list \<Rightarrow> string \<Rightarrow> int \<Rightarrow> int option" where
  "get_int d k dflt = (case dict_getd d k (TInt dflt) of TInt i \<Rightarrow> Some i | _ \<Rightarrow> None)"

definition build_repository :: "toml \<Rightarrow> repository_config option" where
  "build_repository t = (case t of
     TTable repo \<Rightarrow>
       Option.bind (get_string repo ''name'') (\<lambda>name.
       Option.bind (get_string repo ''base_url'') (\<lambda>base_url.
       Option.bind (as_strings (dict_getd repo ''suites'' (TArr []))) (\<lambda>suites.
       Option.bind (as_strings (dict_getd repo ''components'' (TArr []))) (\<lambda>components.
       Option.bind (as_strings (dict_getd repo ''architectures'' (TArr []))) (\<lambda>architectures.
       Some \<lparr>rc_name = name, rc_base_url = base_url, rc_suites = suites, rc_components = components,
             rc_architectures = architectures\<rparr>)))))
   | _ \<Rightarrow> None)"

definition not_numeric :: "(toml \<Rightarrow> string) \<Rightarrow> string \<Rightarrow> toml \<Rightarrow> config_error" where
  "not_numeric toml_str what raw_value = configuration_error
     (what @ '', got '' @ type_name raw_value @ '': '' @ [CHR 0x27] @ toml_str raw_value @ [CHR 0x27]) None"

definition parse_rate_limit_rps ::
  "(py_float \<Rightarrow> string) \<Rightarrow> (toml \<Rightarrow> string) \<Rightarrow> (string \<times> toml) list \<Rightarrow> config_error + py_float" where
  "parse_rate_limit_rps float_str toml_str settings =
     (let raw_value = dict_getd settings ''rate_limit_rps'' (TFloat (Finite 50));
          check = (\<lambda>value. if float_less value 1 \<or> float_greater value 1000
            then Inl (configuration_error (''rate_limit_rps must be between 1 and 1000 (inclusive), got '' @ float_str value) None)
            else Inr value)
      in case raw_value of
           TInt i \<Rightarrow> check (Finite (of_int i))
         | TFloat x \<Rightarrow> check x
         | _ \<Rightarrow> Inl (not_numeric toml_str ''rate_limit_rps must be a numeric value (int or float)'' raw_value))"

text \<open>A Boolean is an \<open>int\<close> in Python and passes the second check; \<open>int()\<close> truncates a float.\<close>

definition parse_rate_limit_burst ::
  "(toml \<Rightarrow> string) \<Rightarrow> (string \<times> toml) list \<Rightarrow> int \<Rightarrow> config_error + int" where
  "parse_rate_limit_burst toml_str settings default_burst =
     (let check = (\<lambda>value. if value < 1 \<or> value > 200
            then Inl (configuration_error (''rate_limit_burst must be between 1 and 200 (inclusive), got '' @ int_str value) None)
            else Inr value)
      in case dict_get settings ''rate_limit_burst'' of
           None \<Rightarrow> Inr default_burst
         | Some (TInt i) \<Rightarrow> check i
         | Some (TBool b) \<Rightarrow> check (if b then 1 else 0)
         | Some (TFloat (Finite r)) \<Rightarrow> check (if r < 0 then - \<lfloor>- r\<rfloor> else \<lfloor>r\<rfloor>)
         | Some (TFloat NaN) \<Rightarrow> Inl Value_Error
         | Some (TFloat _) \<Rightarrow> Inl Overflow_Error
         | Some raw_value \<Rightarrow> Inl (not_numeric toml_str ''rate_limit_burst must be a numeric value (int)'' raw_value))"

definition build_config ::
  "(py_float \<Rightarrow> string) \<Rightarrow> (toml \<Rightarrow> string) \<Rightarrow> (string \<times> toml) list \<Rightarrow> config_error + mirror_config" where
  "build_config float_str toml_str data =
     (case (dict_getd data ''settings'' (TTable []), dict_getd data ''repository'' (TArr [])) of
        (TTable settings, TArr repositories_data) \<Rightarrow>
          (case (those (map build_repository repositories_data), get_int settings ''max_connections_per_repo'' 20) of
             (Some repositories, Some max_connections_per_repo) \<Rightarrow>
               (case parse_rate_limit_rps float_str toml_str settings of
                  Inl e \<Rightarrow> Inl e
                | Inr rate_limit_rps \<Rightarrow>
                    (case parse_rate_limit_burst toml_str settings max_connections_per_repo of
                       Inl e \<Rightarrow> Inl e
                     | Inr rate_limit_burst \<Rightarrow>
                         (case (get_int settings ''download_timeout'' 300, get_int settings ''max_total_connections'' 60) of
                            (Some timeout, Some total_connections) \<Rightarrow>
                              Inr \<lparr>mc_repositories = repositories, mc_download_timeout = timeout,
                                   mc_max_connections_per_repo = max_connections_per_repo,
                                   mc_max_total_connections = total_connections, mc_rate_limit_rps = rate_limit_rps,
                                   mc_rate_limit_burst = Some rate_limit_burst\<rparr>
                          | _ \<Rightarrow> Inl Ill_Typed)))
           | _ \<Rightarrow> Inl Ill_Typed)
      | _ \<Rightarrow> Inl Ill_Typed)"

definition DEFAULT_CONFIG :: mirror_config where
  "DEFAULT_CONFIG = \<lparr>mc_repositories =
       [\<lparr>rc_name = ''elxr'', rc_base_url = ''https://mirror.elxr.dev/elxr'', rc_suites = [''aria''],
         rc_components = [''main''], rc_architectures = [''amd64'', ''arm64'']\<rparr>],
     mc_download_timeout = 300, mc_max_connections_per_repo = 10, mc_max_total_connections = 60,
     mc_rate_limit_rps = Finite 20, mc_rate_limit_burst = Some 10\<rparr>"

text \<open>\<open>toml_load\<close> gives the document or the text of the \<open>TOMLDecodeError\<close>. \<open>content\<close> is \<open>None\<close> when
  the file does not exist.\<close>

definition parse_toml ::
  "(string \<Rightarrow> string + (string \<times> toml) list) \<Rightarrow> (py_float \<Rightarrow> string) \<Rightarrow> (toml \<Rightarrow> string) \<Rightarrow> string \<Rightarrow> string \<Rightarrow>
     config_error + mirror_config" where
  "parse_toml toml_load float_str toml_str config_path content =
     (case toml_load content of
        Inl msg \<Rightarrow> Inl (configuration_error (''Invalid TOML syntax in '' @ config_path) (extract_line_number msg))
      | Inr data \<Rightarrow> build_config float_str toml_str data)"

definition config_read ::
  "(string \<Rightarrow> string + (string \<times> toml) list) \<Rightarrow> (string \<Rightarrow> bool) \<Rightarrow> (py_float \<Rightarrow> string) \<Rightarrow> (toml \<Rightarrow> string) \<Rightarrow> string \<Rightarrow>
     string option \<Rightarrow> config_error + mirror_config" where
  "config_read toml_load valid_ip float_str toml_str config_path file =
     (case file of
        None \<Rightarrow> Inr DEFAULT_CONFIG
      | Some content \<Rightarrow>
          (case parse_toml toml_load float_str toml_str config_path content of
             Inl e \<Rightarrow> Inl e
           | Inr config \<Rightarrow>
               (let errors = validate_mirror_config valid_ip float_str config
                in if errors \<noteq> [] then Inl (configuration_error (''Configuration validation failed: '' @ join ''; '' errors) None)
                   else Inr config)))"

section \<open>What validation means\<close>

definition valid_strings :: "string list \<Rightarrow> nat \<Rightarrow> bool" where
  "valid_strings xs n \<longleftrightarrow> 1 \<le> length xs \<and> length xs \<le> n \<and> [] \<notin> set xs"

definition valid_repository :: "(string \<Rightarrow> bool) \<Rightarrow> repository_config \<Rightarrow> bool" where
  "valid_repository valid_ip r \<longleftrightarrow>
     1 \<le> length (rc_name r) \<and> length (rc_name r) \<le> 128 \<and>
     (\<exists>u. urlparse valid_ip (rc_base_url r) = Some u \<and> url_scheme u \<in> {''http'', ''https''} \<and> url_netloc u \<noteq> []) \<and>
     valid_strings (rc_suites r) 20 \<and> valid_strings (rc_components r) 50 \<and> valid_strings (rc_architectures r) 20"

definition valid_config :: "(string \<Rightarrow> bool) \<Rightarrow> mirror_config \<Rightarrow> bool" where
  "valid_config valid_ip c \<longleftrightarrow>
     mc_download_timeout c \<in> {30..3600} \<and>
     mc_rate_limit_rps c \<in> Finite ` {1..1000} \<union> {NaN} \<and>
     set_option (mc_rate_limit_burst c) \<subseteq> {1..200} \<and>
     list_all (valid_repository valid_ip) (mc_repositories c) \<and>
     distinct (map rc_name (mc_repositories c))"

lemma empty_items_Nil: "empty_items f i xs = [] \<longleftrightarrow> [] \<notin> set xs"
  by (induction f i xs rule: empty_items.induct) auto

lemma validate_string_list_Nil: "validate_string_list xs f 1 n = [] \<longleftrightarrow> valid_strings xs n"
  by (cases xs) (auto simp: validate_string_list_def valid_strings_def empty_items_Nil)

lemma urlparse_Nil: "urlparse valid_ip [] = Some \<lparr>url_scheme = [], url_netloc = [], url_path = []\<rparr>"
  by (simp add: urlparse_def split_scheme_def url_clean_def lstrip_of_def bracket_error_def before_def Let_def)

lemma validate_url_Nil:
  "validate_url valid_ip url = [] \<longleftrightarrow>
     (\<exists>u. urlparse valid_ip url = Some u \<and> url_scheme u \<in> {''http'', ''https''} \<and> url_netloc u \<noteq> [])"
  by (cases "urlparse valid_ip url") (auto simp: validate_url_def urlparse_Nil)

lemma validate_repository_Nil: "validate_repository_config valid_ip r = [] \<longleftrightarrow> valid_repository valid_ip r"
  by (auto simp: validate_repository_config_def valid_repository_def validate_url_Nil validate_string_list_Nil
      simp flip: One_nat_def length_greater_0_conv)

lemma duplicate_names_Nil: "duplicate_names seen xs = [] \<longleftrightarrow> distinct xs \<and> set xs \<inter> set seen = {}"
  by (induction seen xs rule: duplicate_names.induct) auto

lemma rps_ok: "\<not> float_less x 1 \<and> \<not> float_greater x 1000 \<longleftrightarrow> x \<in> Finite ` {1..1000} \<union> {NaN}"
  by (cases x) (auto simp: float_less_def float_greater_def)

lemma validate_mirror_config_iff':
  "validate_mirror_config valid_ip float_str config = [] \<longleftrightarrow> valid_config valid_ip config"
proof -
  have b: "(case mc_rate_limit_burst config of None \<Rightarrow> []
        | Some burst \<Rightarrow>
            if burst < 1 then [''rate_limit_burst must be at least 1, got '' @ int_str burst]
            else if burst > 200 then [''rate_limit_burst must be at most 200, got '' @ int_str burst] else []) = []
      \<longleftrightarrow> set_option (mc_rate_limit_burst config) \<subseteq> {1..200}"
    by (cases "mc_rate_limit_burst config") auto
  show ?thesis
    unfolding validate_mirror_config_def valid_config_def Let_def append_is_Nil_conv b rps_ok [symmetric]
    by (auto simp: duplicate_names_Nil validate_repository_Nil list_all_iff)
qed

text \<open>Validation reports nothing exactly for the configurations in bounds: time-out from 30
  to 3600, rate from 1 to 1000 requests per second, or not a number, burst from 1 to 200 if it is
  set, distinct repository names of 1 to 128 characters, an \<open>http\<close> or \<open>https\<close> URL with a host, and
  non-empty lists of bounded length without empty names.\<close>

theorem validate_mirror_config_iff:
  "validate_mirror_config valid_ip float_str config = [] \<longleftrightarrow> valid_config valid_ip config"
  by (rule validate_mirror_config_iff')

text \<open>No repository of a configuration that was read can make the engine raise for its URL:
  each has a directory below the mirror directory, and the names by which the sessions are told apart
  are distinct.\<close>

theorem config_read_usable:
  assumes "config_read toml_load (w_valid_ip w) float_str toml_str config_path (Some content) = Inr config"
  shows "distinct (map rc_name (mc_repositories config)) \<and>
    list_all (\<lambda>repo. get_mirror_root w repo \<noteq> None \<and> rc_suites repo \<noteq> []) (mc_repositories config)"
proof -
  have "validate_mirror_config (w_valid_ip w) float_str config = []"
    using assms by (auto simp: config_read_def Let_def split: sum.splits if_splits)
  then have "valid_config (w_valid_ip w) config" using validate_mirror_config_iff' by simp
  then show ?thesis
    by (auto simp: valid_config_def valid_repository_def valid_strings_def get_mirror_root_def list_all_iff)
qed

definition example_document :: "(string \<times> toml) list" where
  "example_document = [(''settings'', TTable [(''download_timeout'', TInt 60), (''rate_limit_rps'', TInt 5), (''rate_limit_burst'', TBool True)]),
     (''repository'', TArr [TTable [(''name'', TStr ''r''), (''base_url'', TStr ''http://h/d''), (''suites'', TStr ''s''),
        (''components'', TArr [TStr ''main'']), (''architectures'', TArr [TStr ''amd64''])]])]"

definition example_read :: mirror_config where
  "example_read = \<lparr>mc_repositories = [\<lparr>rc_name = ''r'', rc_base_url = ''http://h/d'', rc_suites = [''s''],
       rc_components = [''main''], rc_architectures = [''amd64'']\<rparr>], mc_download_timeout = 60,
     mc_max_connections_per_repo = 20, mc_max_total_connections = 60, mc_rate_limit_rps = Finite 5, mc_rate_limit_burst = Some 1\<rparr>"

lemma example_reads:
  "config_read (\<lambda>_. Inr example_document) (w_valid_ip example_world) (\<lambda>_. []) (\<lambda>_. []) ''mirrors.toml'' (Some ''text'') = Inr example_read"
proof -
  have r: "parse_rate_limit_rps (\<lambda>_. []) (\<lambda>_. []) [(''download_timeout'', TInt 60), (''rate_limit_rps'', TInt 5), (''rate_limit_burst'', TBool True)]
     = Inr (Finite 5)"
    by (simp add: parse_rate_limit_rps_def dict_getd_def float_less_def float_greater_def)
  have b: "parse_rate_limit_burst (\<lambda>_. []) [(''download_timeout'', TInt 60), (''rate_limit_rps'', TInt 5), (''rate_limit_burst'', TBool True)] 20
     = Inr 1"
    by (simp add: parse_rate_limit_burst_def)
  have "build_config (\<lambda>_. []) (\<lambda>_. []) example_document = Inr example_read"
    by (simp add: build_config_def example_document_def dict_getd_def get_int_def get_string_def build_repository_def r b example_read_def)
  moreover have "urlparse (w_valid_ip example_world) ''http://h/d'' = Some \<lparr>url_scheme = ''http'', url_netloc = ''h'', url_path = ''/d''\<rparr>"
    by code_simp
  then have "valid_config (w_valid_ip example_world) example_read"
    by (auto simp: valid_config_def example_read_def valid_repository_def valid_strings_def)
  ultimately show ?thesis
    by (simp add: config_read_def parse_toml_def validate_mirror_config_iff' Let_def)
qed

theorem config_read_usable_witness:
  "distinct (map rc_name (mc_repositories example_read)) \<and>
    list_all (\<lambda>repo. get_mirror_root example_world repo \<noteq> None \<and> rc_suites repo \<noteq> []) (mc_repositories example_read)"
  by (rule config_read_usable [OF example_reads])

text \<open>A rate limit of \<open>nan\<close> is accepted: both comparisons with the bounds are false.\<close>

lemma rate_limit_nan_accepted:
  "parse_rate_limit_rps float_str toml_str [(''rate_limit_rps'', TFloat NaN)] = Inr NaN \<and>
   validate_mirror_config valid_ip float_str (DEFAULT_CONFIG\<lparr>mc_repositories := [], mc_rate_limit_rps := NaN\<rparr>) = []"
  by (simp add: parse_rate_limit_rps_def dict_getd_def float_less_def float_greater_def validate_mirror_config_def DEFAULT_CONFIG_def)

end
