(* ===== verification/Cli_Output.thy ===== *)
theory Cli_Output
  imports Mirror_Config
begin

text \<open>
  What the commands of \<open>src/debcraft/cli/\<close> print and how they end. The dash and the cross of the messages, which are not in
  Latin-1, are written \<open>-\<close> and \<open>x\<close>; tables are lists of rows, and progress bars are left out.
\<close>

text \<open>\<open>format_bytes\<close>: a size divided by a power of two is an exact float below \<open>2\<^sup>5\<^sup>3\<close>, and \<open>.1f\<close> rounds it to the nearest
  tenth, ties to even.\<close>

definition round_half_even :: "nat \<Rightarrow> nat \<Rightarrow> nat" where
  "round_half_even a b = (let q = a div b; r = a mod b in
     if 2 * r < b then q else if b < 2 * r then q + 1 else if even q then q else q + 1)"

definition one_decimal :: "nat \<Rightarrow> nat \<Rightarrow> string" where
  "one_decimal a b = (let t = round_half_even (10 * a) b in nat_str (t div 10) @ ''.'' @ nat_str (t mod 10))"

definition format_bytes :: "nat \<Rightarrow> string" where
  "format_bytes n =
     (if n < 1024 then nat_str n @ '' B''
      else if n < 1024 * 1024 then one_decimal n 1024 @ '' KiB''
      else if n < 1024 * 1024 * 1024 then one_decimal n (1024 * 1024) @ '' MiB''
      else one_decimal n (1024 * 1024 * 1024) @ '' GiB'')"

text \<open>Lines, and the rows of tables. A command ends with an exit code, or an exception leaves it.\<close>

datatype printed = Line string | Table string "string list list"

datatype cli_end = Exit nat | Escaped string

type_synonym cli_result = "cli_end \<times> printed list"

fun config_error_str :: "config_error \<Rightarrow> string" where
  "config_error_str (Mirror_Configuration_Error message line) = message"
| "config_error_str Value_Error = ''cannot convert float NaN to integer''"
| "config_error_str Overflow_Error = ''cannot convert float infinity to integer''"
| "config_error_str Ill_Typed = ''TypeError''"

text \<open>The commands catch \<open>MirrorConfigurationError\<close> only, where they catch anything.\<close>

definition config_failure :: "string list \<Rightarrow> config_error \<Rightarrow> cli_result" where
  "config_failure hints e = (case e of
     Mirror_Configuration_Error message _ \<Rightarrow>
       (Exit 1, map Line (concat [''[red]Configuration error:[/red] '', message] # hints))
   | _ \<Rightarrow> (Escaped (config_error_str e), []))"

end
