(* ===== verification/Dpkg.thy ===== *)
theory Dpkg
  imports Stanza
begin

text \<open>
  \<open>src/debcraft/domain/scanner\<close>: the value \<open>IdentifiedPackage\<close> of \<open>values.py\<close>, the dpkg status
  parser of \<open>dpkg_parser.py\<close> and its printer \<open>dpkg_printer.py\<close>. The lemmas give the exact
  classification of a stanza and the round trip of parser and printer.
\<close>

section \<open>Values\<close>

record identified_package =
  ip_name :: string
  ip_version :: string
  ip_architecture :: string
  ip_status :: string

record dpkg_stanza = st_fields :: "(string \<times> string) list"

record dpkg_parse_result =
  pr_packages :: "identified_package list"
  pr_diagnostics :: "string list"
  pr_stanzas :: "dpkg_stanza list"

definition VALID_PACKAGE_STATUSES :: "string list" where
  "VALID_PACKAGE_STATUSES = [''installed'', ''config-files'', ''half-installed'', ''unpacked'',
     ''half-configured'', ''triggers-awaited'', ''triggers-pending'', ''not-installed'',
     ''inferred'']"

section \<open>The parser\<close>

text \<open>\<open>DpkgStanza.get\<close>: the first field whose lower-cased name matches.\<close>

fun get_loop :: "string \<Rightarrow> (string \<times> string) list \<Rightarrow> string option" where
  "get_loop lower [] = None"
| "get_loop lower ((k, v) # rest) = (if py_lower k = lower then Some v else get_loop lower rest)"

definition stanza_get :: "dpkg_stanza \<Rightarrow> string \<Rightarrow> string option" where
  "stanza_get st name = get_loop (py_lower name) (st_fields st)"

definition skipped_msg :: "nat \<Rightarrow> string \<Rightarrow> string" where
  "skipped_msg stanza_index what = ''Stanza '' @ int_str (int stanza_index + 1) @
     '': skipped due to '' @ what"

definition excluded_msg :: "nat \<Rightarrow> string \<Rightarrow> string \<Rightarrow> string \<Rightarrow> string" where
  "excluded_msg stanza_index package_name what v = ''Stanza '' @ int_str (int stanza_index + 1) @
     '': package '' @ [CHR 0x27] @ package_name @ [CHR 0x27] @ '' excluded due to unrecognized '' @
     what @ '': '' @ [CHR 0x27] @ v @ [CHR 0x27]"

definition classify_package ::
  "dpkg_stanza \<Rightarrow> nat \<Rightarrow> identified_package option \<times> string option" where
  "classify_package stanza stanza_index = (
     case (stanza_get stanza ''Package'', stanza_get stanza ''Version'') of
       (None, None) \<Rightarrow> (None, Some (skipped_msg stanza_index ''missing field(s): Package, Version''))
     | (None, Some _) \<Rightarrow> (None, Some (skipped_msg stanza_index ''missing field(s): Package''))
     | (Some _, None) \<Rightarrow> (None, Some (skipped_msg stanza_index ''missing field(s): Version''))
     | (Some package_name, Some version) \<Rightarrow>
       (case stanza_get stanza ''Status'' of
          None \<Rightarrow> (None, Some (skipped_msg stanza_index ''missing field(s): Status''))
        | Some status_field \<Rightarrow>
          (let status_parts = py_split (py_strip status_field) in
           if length status_parts < 3 then
             (None, Some (skipped_msg stanza_index
                (''malformed Status field: '' @ [CHR 0x27] @ status_field @ [CHR 0x27])))
           else
             (let desired_action = status_parts ! 0; current_state = status_parts ! 2;
                  architecture = (case stanza_get stanza ''Architecture'' of None \<Rightarrow> [] | Some a \<Rightarrow> a)
              in
              if desired_action = ''deinstall'' \<or> desired_action = ''purge'' then (None, None)
              else if desired_action = ''install'' \<or> desired_action = ''hold'' then
                (if current_state = ''installed'' then
                   (Some \<lparr>ip_name = package_name, ip_version = version,
                      ip_architecture = architecture, ip_status = ''installed''\<rparr>, None)
                 else if current_state = ''config-files'' then
                   (Some \<lparr>ip_name = package_name, ip_version = version,
                      ip_architecture = architecture, ip_status = ''config-files''\<rparr>, None)
                 else (None, Some (excluded_msg stanza_index package_name
                         ''installation state'' current_state)))
              else (None, Some (excluded_msg stanza_index package_name
                      ''desired action'' desired_action))))))"

fun parse_loop :: "nat \<Rightarrow> string list \<Rightarrow> dpkg_parse_result \<Rightarrow> dpkg_parse_result" where
  "parse_loop index [] acc = acc"
| "parse_loop index (stanza_text # rest) acc =
     (let stanza = \<lparr>st_fields = parse_stanza_fields_ordered stanza_text\<rparr>;
          (pkg, diagnostic) = classify_package stanza index
      in parse_loop (Suc index) rest
           \<lparr>pr_packages = (case pkg of None \<Rightarrow> pr_packages acc | Some p \<Rightarrow> pr_packages acc @ [p]),
            pr_diagnostics = (case diagnostic of None \<Rightarrow> pr_diagnostics acc
                           | Some d \<Rightarrow> pr_diagnostics acc @ [d]),
            pr_stanzas = pr_stanzas acc @ [stanza]\<rparr>)"

definition parse_dpkg_status :: "string \<Rightarrow> dpkg_parse_result" where
  "parse_dpkg_status content =
     parse_loop 0 (split_stanzas content) \<lparr>pr_packages = [], pr_diagnostics = [], pr_stanzas = []\<rparr>"

section \<open>The printer\<close>

definition format_field_value :: "string \<Rightarrow> string" where
  "format_field_value value =
     (if LF \<notin> set value then value
      else (let parts = split_on LF value in
        join [LF] (hd parts # map (\<lambda>part. if part = [] \<or> part = ''.'' then '' .''
                                     else '' '' @ part) (tl parts))))"

definition format_stanza :: "dpkg_stanza \<Rightarrow> string" where
  "format_stanza stanza =
     join [LF] (map (\<lambda>(name, value). name @ '': '' @ format_field_value value) (st_fields stanza))"

definition format_dpkg_status :: "dpkg_stanza list \<Rightarrow> string" where
  "format_dpkg_status ss =
     (if ss = [] then [] else join [LF, LF] (map format_stanza ss) @ [LF])"

section \<open>Classification\<close>

text \<open>The results of the loop, read off the stanza list.\<close>

definition classified :: "nat \<Rightarrow> string list \<Rightarrow> (identified_package option \<times> string option) list" where
  "classified index texts = map (\<lambda>(i, t). classify_package \<lparr>st_fields = parse_stanza_fields_ordered t\<rparr> i)
     (enumerate index texts)"

lemma classified_simps [simp]:
  "classified i [] = []"
  "classified i (t # ts) =
     classify_package \<lparr>st_fields = parse_stanza_fields_ordered t\<rparr> i # classified (Suc i) ts"
  by (simp_all add: classified_def)

lemma parse_loop_eq:
  "parse_loop i texts acc =
     \<lparr>pr_packages = pr_packages acc @ List.map_filter fst (classified i texts),
      pr_diagnostics = pr_diagnostics acc @ List.map_filter snd (classified i texts),
      pr_stanzas = pr_stanzas acc @ map (\<lambda>t. \<lparr>st_fields = parse_stanza_fields_ordered t\<rparr>) texts\<rparr>"
proof (induction i texts acc rule: parse_loop.induct)
  case (1 index acc)
  show ?case by (cases acc) (simp add: map_filter_def)
next
  case (2 index t rest acc)
  obtain pkg diag where c: "classify_package \<lparr>st_fields = parse_stanza_fields_ordered t\<rparr> index = (pkg, diag)"
    by fastforce
  show ?case
    using 2 [OF refl c [symmetric] refl] c
    by (cases pkg; cases diag) (auto simp: map_filter_simps)
qed

lemmas parse_dpkg_status_eq =
  parse_loop_eq [of 0 "split_stanzas content" "\<lparr>pr_packages = [], pr_diagnostics = [], pr_stanzas = []\<rparr>" for content,
    folded parse_dpkg_status_def, simplified]

lemma stanzas_parse:
  "pr_stanzas (parse_dpkg_status c) =
     map (\<lambda>t. \<lparr>st_fields = parse_stanza_fields_ordered t\<rparr>) (split_stanzas c)"
  by (simp add: parse_dpkg_status_eq)

text \<open>When a stanza is a package: the specification the docstring of \<open>_classify_package\<close> gives.\<close>

definition installed_as :: "dpkg_stanza \<Rightarrow> identified_package \<Rightarrow> bool" where
  "installed_as st p \<longleftrightarrow>
     stanza_get st ''Package'' = Some (ip_name p) \<and>
     stanza_get st ''Version'' = Some (ip_version p) \<and>
     ip_architecture p = (case stanza_get st ''Architecture'' of None \<Rightarrow> [] | Some a \<Rightarrow> a) \<and>
     (\<exists>status action flag rest. stanza_get st ''Status'' = Some status \<and>
        py_split (py_strip status) = action # flag # ip_status p # rest \<and>
        action \<in> {''install'', ''hold''}) \<and>
     ip_status p \<in> {''installed'', ''config-files''}"

lemma three_words: "length ws \<ge> 3 \<longleftrightarrow> (\<exists>a b c r. ws = a # b # c # r)"
  by (auto simp: numeral_3_eq_3 Suc_le_length_iff)

lemma classify_Some_iff: "fst (classify_package st i) = Some p \<longleftrightarrow> installed_as st p"
proof (cases "stanza_get st ''Package''"; cases "stanza_get st ''Version''"; cases "stanza_get st ''Status''")
  fix n v s
  assume f: "stanza_get st ''Package'' = Some n" "stanza_get st ''Version'' = Some v"
    "stanza_get st ''Status'' = Some s"
  show ?thesis
  proof (cases "length (py_split (py_strip s)) \<ge> 3")
    case True
    then obtain a b c r where "py_split (py_strip s) = a # b # c # r" by (auto simp: three_words)
    with f show ?thesis
      by (cases p) (auto simp: classify_package_def installed_as_def Let_def)
  next
    case False
    with f show ?thesis by (auto simp: classify_package_def installed_as_def)
  qed
qed (auto simp: classify_package_def installed_as_def)

lemma classify_exclusive: "fst (classify_package st i) = None \<or> snd (classify_package st i) = None"
  by (auto simp: classify_package_def Let_def split: option.splits)

section \<open>Round trip\<close>

text \<open>The fields the parser produces: the name does not look like a continuation and has no
  colon or newline, and the lines after a value's first are not blank.\<close>

definition wf_field :: "string \<times> string \<Rightarrow> bool" where
  "wf_field f \<longleftrightarrow> CHR '':'' \<notin> set (fst f) \<and> LF \<notin> set (fst f) \<and> \<not> is_continuation (fst f) \<and>
     (\<forall>l \<in> set (tl (split_on LF (snd f))). \<not> blank l)"

definition field_lines :: "string \<times> string \<Rightarrow> string list" where
  "field_lines f = (let parts = split_on LF (snd f) in
     (fst f @ '': '' @ hd parts) # map (\<lambda>l. '' '' @ l) (tl parts))"

lemma is_continuation_Cons [simp]: "is_continuation (c # cs) \<longleftrightarrow> c = SPC \<or> c = TAB"
  by (auto simp: is_continuation_def)

lemma is_continuation_Nil [simp]: "\<not> is_continuation []"
  by (simp add: is_continuation_def)

lemma is_continuation_append: "\<not> is_continuation n \<Longrightarrow> \<not> is_continuation (n @ CHR '':'' # v)"
  by (cases n) auto

lemma format_field_lines:
  assumes "wf_field (n, v)"
  shows "n @ '': '' @ format_field_value v = join [LF] (field_lines (n, v))"
proof (cases "LF \<in> set v")
  case True
  have "tl (split_on LF v) \<noteq> []"
    using True length_split_on [of LF v] by (cases "split_on LF v") (auto simp: count_list_0_iff)
  moreover have m: "map (\<lambda>part. if part = [] \<or> part = ''.'' then '' .'' else '' '' @ part) (tl (split_on LF v))
      = map (\<lambda>l. SPC # l) (tl (split_on LF v))"
    by (rule map_cong [OF refl]) (use assms in \<open>auto simp: wf_field_def\<close>)
  have "format_field_value v = join [LF] (hd (split_on LF v) # map (\<lambda>l. SPC # l) (tl (split_on LF v)))"
    using True by (simp only: format_field_value_def Let_def m) simp
  ultimately show ?thesis
    by (simp add: field_lines_def Let_def join_Cons)
qed (simp add: format_field_value_def field_lines_def split_on_id)

lemma format_stanza_lines:
  assumes "\<And>f. f \<in> set fs \<Longrightarrow> wf_field f"
  shows "format_stanza \<lparr>st_fields = fs\<rparr> = join [LF] (concat (map field_lines fs))"
proof -
  have "map (\<lambda>(name, value). name @ '': '' @ format_field_value value) fs
      = map (join [LF]) (map field_lines fs)"
    using assms format_field_lines by auto
  moreover have "join [LF] (map (join [LF]) (map field_lines fs)) = join [LF] (concat (map field_lines fs))"
    by (rule join_concat) (auto simp: field_lines_def Let_def)
  ultimately show ?thesis by (simp only: format_stanza_def dpkg_stanza.simps)
qed

lemma field_lines_ok:
  assumes "wf_field f" and "l \<in> set (field_lines f)"
  shows "LF \<notin> set l" and "\<not> blank l"
proof -
  have tl: "x \<in> set (split_on LF (snd f))" if "x \<in> set (tl (split_on LF (snd f)))" for x
    using that by (cases "split_on LF (snd f)") auto
  show "LF \<notin> set l" "\<not> blank l"
    using assms tl split_on_no_sep [of _ LF "snd f"] hd_in_set [of "split_on LF (snd f)"]
    by (auto simp: field_lines_def wf_field_def Let_def py_isspace_def)
qed

lemma ordered_step_conts:
  "foldl ordered_step (acc @ [(n, v)]) (map (\<lambda>l. '' '' @ l) ls) = acc @ [(n, join [LF] (v # ls))]"
proof (induction ls arbitrary: v)
  case (Cons l ls)
  have "join [LF] ((v @ LF # l) # ls) = join [LF] (v # l # ls)" by (cases ls) auto
  with Cons show ?case by (simp add: ordered_step_def)
qed simp

lemma ordered_step_field:
  assumes "wf_field f"
  shows "foldl ordered_step acc (field_lines f) = acc @ [f]"
proof -
  obtain n v where f: "f = (n, v)" by fastforce
  obtain p ps where ps: "split_on LF v = p # ps" by (cases "split_on LF v") auto
  have "join [LF] (p # ps) = v" by (metis join_split_on ps)
  moreover have "py_find CHR '':'' (n @ CHR '':'' # SPC # p) = Some (length n)"
    using assms by (auto simp: f wf_field_def py_find_def takeWhile_append)
  then have "ordered_step acc (n @ CHR '':'' # SPC # p) = acc @ [(n, p)]"
    using assms is_continuation_append [of n] by (simp add: f wf_field_def ordered_step_def)
  ultimately show ?thesis
    using ordered_step_conts [of acc n p ps] by (simp add: f field_lines_def ps)
qed

lemma ordered_step_fields:
  "(\<And>f. f \<in> set fs \<Longrightarrow> wf_field f) \<Longrightarrow>
     foldl ordered_step acc (concat (map field_lines fs)) = acc @ fs"
  by (induction fs arbitrary: acc) (auto simp: ordered_step_field)

lemma format_stanza_block:
  assumes "\<And>f. f \<in> set fs \<Longrightarrow> wf_field f" and "fs \<noteq> []"
  shows "split_on LF (format_stanza \<lparr>st_fields = fs\<rparr>) = concat (map field_lines fs)"
    and "is_block (format_stanza \<lparr>st_fields = fs\<rparr>)"
proof -
  have "concat (map field_lines fs) \<noteq> []"
    using assms(2) by (cases fs) (auto simp: field_lines_def Let_def)
  then have "split_on LF (join [LF] (concat (map field_lines fs))) = concat (map field_lines fs)"
    by (rule split_on_join) (use assms(1) field_lines_ok(1) in \<open>unfold set_concat set_map, blast\<close>)
  then show *: "split_on LF (format_stanza \<lparr>st_fields = fs\<rparr>) = concat (map field_lines fs)"
    using format_stanza_lines [OF assms(1)] by simp
  show "is_block (format_stanza \<lparr>st_fields = fs\<rparr>)"
    unfolding is_block_def * set_concat set_map using field_lines_ok(2) assms(1) by blast
qed

lemma parse_format_stanza:
  assumes "\<And>f. f \<in> set fs \<Longrightarrow> wf_field f" and "fs \<noteq> []"
  shows "parse_stanza_fields_ordered (format_stanza \<lparr>st_fields = fs\<rparr>) = fs"
  using ordered_step_fields [of fs "[]"] format_stanza_block(1) [OF assms] assms(1)
  by (simp add: parse_stanza_fields_ordered_def)

lemma ordered_step_wf:
  assumes "\<And>f. f \<in> set fs \<Longrightarrow> wf_field f" and "\<not> blank l" and "LF \<notin> set l"
    and "f \<in> set (ordered_step fs l)"
  shows "wf_field f"
proof (cases "is_continuation l")
  case True
  then obtain c l' where l: "l = c # l'" and c: "py_isspace c" by (cases l) auto
  show ?thesis
  proof (cases "fs = []")
    case False
    then have wl: "wf_field (last fs)" using assms(1) by simp
    have "split_on LF (snd (last fs) @ LF # l') = split_on LF (snd (last fs)) @ [l']"
      using assms(3) by (simp add: l split_on_append_sep split_on_id)
    then have "wf_field (fst (last fs), snd (last fs) @ LF # l')"
      using wl assms(2) c by (auto simp: wf_field_def l)
    moreover have "f \<in> set (butlast fs) \<or> f = (fst (last fs), snd (last fs) @ LF # l')"
      using assms(4) True False by (auto simp: ordered_step_def l)
    ultimately show ?thesis using assms(1) in_set_butlastD by metis
  qed (use assms True in \<open>auto simp: ordered_step_def\<close>)
next
  case nc: False
  show ?thesis
  proof (cases "py_find CHR '':'' l")
    case (Some i)
    have b: "set (before CHR '':'' l) \<subseteq> set l" "set (after CHR '':'' l) \<subseteq> set l"
      using before_after [OF py_find_Some(3) [OF Some]]
      by (metis Un_upper1 set_append, metis set_append set_subset_Cons Un_upper2 subset_trans)
    have "\<not> is_continuation (before CHR '':'' l)"
      using nc by (cases l) (auto simp: before_def)
    moreover have "LF \<notin> set (drop k (after CHR '':'' l))" for k
      using b(2) assms(3) by (auto dest: in_set_dropD)
    from this [of 0] this [of 1] have "LF \<notin> set (after CHR '':'' l)" "LF \<notin> set (drop 1 (after CHR '':'' l))"
      by simp_all
    ultimately have "wf_field (before CHR '':'' l, v)"
      if "v \<in> {after CHR '':'' l, drop 1 (after CHR '':'' l)}" for v
      using assms(3) b(1) that by (auto simp: wf_field_def split_on_id)
    moreover have "f \<in> set fs \<or> (\<exists>v \<in> {after CHR '':'' l, drop 1 (after CHR '':'' l)}. f = (before CHR '':'' l, v))"
      using assms(4) nc Some py_find_Some [OF Some] by (auto simp: ordered_step_def Let_def)
    ultimately show ?thesis using assms(1) by blast
  qed (use assms nc in \<open>auto simp: ordered_step_def\<close>)
qed

lemma parse_ordered_wf:
  assumes "is_block b" and "f \<in> set (parse_stanza_fields_ordered b)"
  shows "wf_field f"
proof -
  have "\<forall>f \<in> set (foldl ordered_step acc ls). wf_field f"
    if "\<forall>f \<in> set acc. wf_field f" and "\<forall>l \<in> set ls. \<not> blank l \<and> LF \<notin> set l" for acc ls
    using that
  proof (induction ls arbitrary: acc)
    case (Cons l ls)
    have "\<forall>f \<in> set (ordered_step acc l). wf_field f"
      using Cons.prems ordered_step_wf [of acc l] by auto
    then show ?case using Cons by simp
  qed simp
  from this [of "[]" "split_on LF b"] assms show ?thesis
    by (auto simp: parse_stanza_fields_ordered_def is_block_def split_on_no_sep)
qed

lemma stanzas_wf:
  "st \<in> set (pr_stanzas (parse_dpkg_status c)) \<Longrightarrow> f \<in> set (st_fields st) \<Longrightarrow> wf_field f"
  by (auto simp: stanzas_parse intro: parse_ordered_wf sp.split_blocks)

lemma stanzas_format:
  assumes "\<And>st f. st \<in> set ss \<Longrightarrow> f \<in> set (st_fields st) \<Longrightarrow> wf_field f"
  shows "pr_stanzas (parse_dpkg_status (format_dpkg_status ss)) = filter (\<lambda>s. st_fields s \<noteq> []) ss"
proof -
  have block: "is_block (format_stanza st)" if "st \<in> set ss" "st_fields st \<noteq> []" for st
    using format_stanza_block(2) [OF assms] that by (cases st) auto
  have empty: "format_stanza st = [] \<longleftrightarrow> st_fields st = []" if "st \<in> set ss" for st
    using block [OF that] not_is_block_Nil by (metis format_stanza_def join.simps(1) list.simps(8))
  have parse: "\<lparr>st_fields = parse_stanza_fields_ordered (format_stanza st)\<rparr> = st"
    if "st \<in> set ss" "st_fields st \<noteq> []" for st
    using parse_format_stanza [OF assms] that by (cases st) auto
  have "split_stanzas (format_dpkg_status ss) = filter (\<lambda>b. b \<noteq> []) (map format_stanza ss)"
    using block empty sp.split_join [of "map format_stanza ss"]
    by (auto simp: format_dpkg_status_def sp.split_final_newline sp.split_blank)
  also have "\<dots> = map format_stanza (filter (\<lambda>s. st_fields s \<noteq> []) ss)"
    using empty by (auto simp: filter_map o_def intro!: arg_cong [where f = "map format_stanza"] filter_cong)
  finally show ?thesis
    using parse by (auto simp: stanzas_parse o_def intro!: map_idI)
qed

section \<open>Properties\<close>

text \<open>Property C3. Printing what was parsed and parsing it again gives the same stanzas, for every
  file content: fields, their order and their multi-line values survive. Only stanzas without any
  field, which print as nothing, are gone.\<close>

theorem dpkg_parse_print_parse:
  "pr_stanzas (parse_dpkg_status (format_dpkg_status (pr_stanzas (parse_dpkg_status content)))) =
     filter (\<lambda>s. st_fields s \<noteq> []) (pr_stanzas (parse_dpkg_status content))"
  by (rule stanzas_format) (rule stanzas_wf)


text \<open>No stanza is counted twice: each gives at most one of a package and a
  diagnostic, so the packages and the diagnostics together are no more than the stanzas.\<close>

theorem dpkg_package_or_diagnostic:
  "length (pr_packages (parse_dpkg_status content)) + length (pr_diagnostics (parse_dpkg_status content))
     \<le> length (pr_stanzas (parse_dpkg_status content))"
proof -
  have "length (List.map_filter fst (classified i ts)) + length (List.map_filter snd (classified i ts))
      \<le> length ts" for i ts
  proof (induction ts arbitrary: i)
    case (Cons t ts)
    let ?c = "classify_package \<lparr>st_fields = parse_stanza_fields_ordered t\<rparr> i"
    show ?case
      using Cons.IH [of "Suc i"] classify_exclusive [of "\<lparr>st_fields = parse_stanza_fields_ordered t\<rparr>" i]
      by (cases "fst ?c"; cases "snd ?c") (auto simp: map_filter_simps)
  qed (simp add: map_filter_simps)
  then show ?thesis by (simp add: parse_dpkg_status_eq)
qed

end
