(* ===== verification/Scan_Values.thy ===== *)
theory Scan_Values
  imports Dpkg Py_Path "HOL-Library.List_Lexorder" "HOL-Library.Char_ord"
begin

text \<open>
  The values of a scan (\<open>src/debcraft/domain/scanner/values.py\<close>) with the detection of an artifact's type,
  and the analysis of file systems without package metadata (\<open>filesystem_analyzer.py\<close>), over its two ports.
\<close>

section \<open>Artifacts\<close>

datatype artifact_type = DIRECTORY | DOCKER | OCI | ISO | QCOW2 | IMG | AMI

definition EXTENSION_MAP :: "(string, artifact_type) dict" where
  "EXTENSION_MAP = [(''.iso'', ISO), (''.qcow2'', QCOW2), (''.img'', IMG), (''.tar'', DOCKER), (''.tar.gz'', DOCKER),
     (''.tgz'', DOCKER), (''.oci'', OCI), (''.ami'', AMI)]"

text \<open>\<open>Path.suffixes\<close>.\<close>

definition path_suffixes :: "string \<Rightarrow> string list" where
  "path_suffixes p = (let name = path_name p in
     if endswith name ''.'' then []
     else map (\<lambda>s. CHR ''.'' # s) (tl (split_on CHR ''.'' (lstrip_of (\<lambda>c. c = CHR ''.'') name))))"

definition detect_artifact_type :: "(string \<Rightarrow> bool) \<Rightarrow> string \<Rightarrow> artifact_type" where
  "detect_artifact_type isdir path =
     (if isdir path then DIRECTORY
      else
        (let p = path_of path; suffixes = py_lower (concat (path_suffixes p)) in
         case List.find (\<lambda>(ext, _). endswith suffixes ext) EXTENSION_MAP of
           Some (_, t) \<Rightarrow> t
         | None \<Rightarrow> (case dict_get EXTENSION_MAP (py_lower (path_suffix p)) of Some t \<Rightarrow> t | None \<Rightarrow> DIRECTORY)))"

lemma detect_examples:
  "detect_artifact_type (\<lambda>_. False) ''/x/Image.TAR.gz'' = DOCKER"
  "detect_artifact_type (\<lambda>_. False) ''disk.v1.qcow2'' = QCOW2"
  "detect_artifact_type (\<lambda>_. False) ''.iso'' = DIRECTORY"
  by code_simp+

section \<open>Packages and what is known of them\<close>

record package_enrichment =
  pe_source_package :: "string option"
  pe_maintainer :: "string option"
  pe_homepage :: "string option"
  pe_depends :: "string option"
  pe_section :: "string option"
  pe_priority :: "string option"
  pe_description :: "string option"
  pe_sha256 :: "string option"
  pe_download_url :: "string option"
  pe_purl :: "string option"
  pe_license_expressions :: "(string \<times> string) list"
  pe_local_deb_path :: "string option"

record enriched_package =
  ep_package :: identified_package
  ep_enrichment :: "package_enrichment option"

record scan_result =
  sc_packages :: "identified_package list"
  sc_strategy :: string
  sc_diagnostics :: "string list"
  sc_artifact_path :: string
  sc_enriched_packages :: "enriched_package list"

section \<open>File systems without package metadata\<close>

record filesystem_analysis_result =
  fa_packages :: "identified_package list"
  fa_diagnostics :: "string list"

definition quoted :: "string \<Rightarrow> string" where "quoted s = [CHR 0x27] @ s @ [CHR 0x27]"

definition missing_metadata :: "string \<Rightarrow> string" where
  "missing_metadata name = ''Package '' @ quoted name @ '' found in Contents index but no metadata available''"

definition inferred_package :: "string \<Rightarrow> string \<times> string \<times> string \<Rightarrow> identified_package" where
  "inferred_package name result = (case result of (version, architecture, _) \<Rightarrow>
     \<lparr>ip_name = name, ip_version = version, ip_architecture = architecture, ip_status = ''inferred''\<rparr>)"

definition lookup_step ::
  "(string \<Rightarrow> (string \<times> string \<times> string) option) \<Rightarrow> identified_package list \<times> string list \<Rightarrow> string \<Rightarrow>
     identified_package list \<times> string list" where
  "lookup_step find_by_name acc name = (case acc of (packages, diagnostics) \<Rightarrow>
     (case find_by_name name of
        None \<Rightarrow> (packages, diagnostics @ [missing_metadata name])
      | Some result \<Rightarrow> (packages @ [inferred_package name result], diagnostics)))"

text \<open>The ports \<open>ContentsIndexPort.find_owners\<close> and \<open>PackageLookupPort.find_by_name\<close> at one snapshot.\<close>

definition analyze_filesystem ::
  "(string list \<Rightarrow> (string, string) dict) \<Rightarrow> (string \<Rightarrow> (string \<times> string \<times> string) option) \<Rightarrow> string list \<Rightarrow> nat \<Rightarrow>
     filesystem_analysis_result" where
  "analyze_filesystem find_owners find_by_name file_paths max_paths =
     (let total_paths = length file_paths;
          truncated = total_paths > max_paths;
          paths_to_process = (if truncated then take max_paths file_paths else file_paths);
          diagnostics = (if truncated then [''Path limit reached: processed '' @ nat_str max_paths @ '' of '' @ nat_str total_paths
              @ '' paths, '' @ nat_str (total_paths - max_paths) @ '' skipped''] else []);
          path_to_package = find_owners paths_to_process
      in if path_to_package = [] then
           \<lparr>fa_packages = [], fa_diagnostics = diagnostics @ [''No contents data available: no filesystem paths matched the Contents index'']\<rparr>
         else
           (case foldl (lookup_step find_by_name) ([], diagnostics) (sort (remdups (map snd path_to_package))) of
              (packages, diagnostics) \<Rightarrow> \<lparr>fa_packages = packages, fa_diagnostics = diagnostics\<rparr>))"

lemma lookup_fold:
  "foldl (lookup_step fb) (ps, ds) names =
     (ps @ List.map_filter (\<lambda>n. map_option (inferred_package n) (fb n)) names,
      ds @ map missing_metadata (filter (\<lambda>n. fb n = None) names))"
proof (induction names arbitrary: ps ds)
  case (Cons x names)
  show ?case by (cases "fb x") (simp_all add: lookup_step_def Cons.IH [unfolded lookup_step_def] map_filter_simps)
qed (simp add: map_filter_simps)

text \<open>The packages inferred are the owners that have metadata, each once and in alphabetical order.\<close>

lemma inferred_names:
  "map ip_name (List.map_filter (\<lambda>n. map_option (inferred_package n) (fb n)) names) = filter (\<lambda>p. fb p \<noteq> None) names"
proof (induction names)
  case (Cons x names)
  then show ?case by (cases "fb x") (simp_all add: map_filter_simps inferred_package_def case_prod_unfold del: not_None_eq)
qed (simp add: map_filter_simps)

lemma analyze_filesystem_names:
  "map ip_name (fa_packages (analyze_filesystem fo fb paths n)) = filter (\<lambda>p. fb p \<noteq> None) (sort (remdups (map snd (fo (take n paths)))))"
proof -
  have t: "(if n < length paths then take n paths else paths) = take n paths" by simp
  show ?thesis
    unfolding analyze_filesystem_def Let_def t lookup_fold by (simp add: inferred_names)
qed

end
