(* ===== verification/Ar.thy ===== *)
theory Ar
  imports Py_Data
begin

text \<open>
  \<open>src/debcraft/infrastructure/package_intelligence/_ar_utils.py\<close> and \<open>file_reader.py\<close>: finding a member
  of an \<open>ar\<close> archive and unpacking it. Bytes are characters; a byte above 127, which \<open>decode\<close> replaces
  by a character outside Latin-1, is read as \<open>CHR 0xFF\<close>, which like it is neither blank nor a digit.
  The loop of the source need not end; it is a partial function. The compression libraries are a
  parameter.
\<close>

section \<open>Slices\<close>

text \<open>\<open>xs[a:b]\<close> for any integers.\<close>

definition slice_index :: "int \<Rightarrow> int \<Rightarrow> nat" where
  "slice_index n i = nat (if i < 0 then max 0 (i + n) else min i n)"

definition py_slice :: "'a list \<Rightarrow> int \<Rightarrow> int \<Rightarrow> 'a list" where
  "py_slice xs a b = (let n = int (length xs); i = slice_index n a; j = slice_index n b in take (j - i) (drop i xs))"

section \<open>The archive\<close>

definition AR_MAGIC :: string where "AR_MAGIC = ''!<arch>'' @ [LF]"
definition AR_MAGIC_LEN :: int where "AR_MAGIC_LEN = 8"
definition AR_HEADER_LEN :: int where "AR_HEADER_LEN = 60"

datatype codec = Gzip | Lzma | Zstd | Bz2

text \<open>\<open>Value_Error\<close> with its message, or without one where \<open>int()\<close> raises; \<open>Codec_Error\<close>: what a
  library raises on bad data.\<close>

datatype ar_error = Value_Error string | Invalid_Int | Codec_Error string

definition decompress :: "(codec \<Rightarrow> string \<Rightarrow> string + string) \<Rightarrow> string \<Rightarrow> string \<Rightarrow> ar_error + string" where
  "decompress unpack member_name raw_bytes =
     (if endswith member_name ''.gz'' then map_sum Codec_Error id (unpack Gzip raw_bytes)
      else if endswith member_name ''.xz'' then map_sum Codec_Error id (unpack Lzma raw_bytes)
      else if endswith member_name ''.zst'' then map_sum Codec_Error id (unpack Zstd raw_bytes)
      else if endswith member_name ''.bz2'' then map_sum Codec_Error id (unpack Bz2 raw_bytes)
      else if endswith member_name ''.lzma'' then map_sum Codec_Error id (unpack Lzma raw_bytes)
      else Inr raw_bytes)"

definition decode_ascii :: "string \<Rightarrow> string" where
  "decode_ascii s = map (\<lambda>c. if (of_char c :: nat) < 128 then c else CHR 0xFF) s"

partial_function (option) ar_loop ::
  "(codec \<Rightarrow> string \<Rightarrow> string + string) \<Rightarrow> string \<Rightarrow> string \<Rightarrow> string \<Rightarrow> int \<Rightarrow> (ar_error + string) option" where
  "ar_loop unpack data deb_path member_prefix offset =
     (let not_found = Some (Inl (Value_Error (''No member matching prefix '' @ [CHR 0x27] @ member_prefix @ [CHR 0x27]
                        @ '' found in '' @ deb_path))) in
      if offset < int (length data) then
        if offset + AR_HEADER_LEN > int (length data) then not_found
        else
          (let header = py_slice data offset (offset + AR_HEADER_LEN);
               name_raw = py_rstrip (decode_ascii (py_slice header 0 16));
               size_raw = py_strip (decode_ascii (py_slice header 48 58));
               end_magic = py_slice header 58 60
           in if end_magic \<noteq> ''`'' @ [LF]
              then Some (Inl (Value_Error (''Invalid ar member header at offset '' @ int_str offset @ '' in '' @ deb_path)))
              else case py_int size_raw of
                None \<Rightarrow> Some (Inl Invalid_Int)
              | Some member_size \<Rightarrow>
                  (let content_offset = offset + AR_HEADER_LEN;
                       content_end = content_offset + member_size;
                       member_name = rstrip_of (\<lambda>c. c = CHR ''/'') name_raw
                   in if startswith member_name member_prefix
                      then Some (decompress unpack member_name (py_slice data content_offset content_end))
                      else ar_loop unpack data deb_path member_prefix (content_end + member_size mod 2)))
      else not_found)"

definition parse_ar_member ::
  "(codec \<Rightarrow> string \<Rightarrow> string + string) \<Rightarrow> string \<Rightarrow> string \<Rightarrow> string \<Rightarrow> (ar_error + string) option" where
  "parse_ar_member unpack data deb_path member_prefix =
     (if member_prefix = [] then Some (Inr (py_slice data 0 AR_MAGIC_LEN))
      else if int (length data) < AR_MAGIC_LEN \<or> py_slice data 0 AR_MAGIC_LEN \<noteq> AR_MAGIC
      then Some (Inl (Value_Error (''Not a valid ar archive: '' @ deb_path)))
      else ar_loop unpack data deb_path member_prefix AR_MAGIC_LEN)"

section \<open>Archives with well-formed members\<close>

text \<open>A member as \<open>ar\<close> writes it: name, time, owner, group and mode, size, end marker, content, and a
  padding byte after content of odd length.\<close>

definition pad_to :: "nat \<Rightarrow> string \<Rightarrow> string" where "pad_to n s = s @ replicate (n - length s) SPC"

definition ar_header :: "string \<Rightarrow> string \<Rightarrow> nat \<Rightarrow> string" where
  "ar_header name stamps n = pad_to 16 name @ pad_to 32 stamps @ pad_to 10 (nat_str n) @ ''`'' @ [LF]"

definition ar_member :: "string \<times> string \<times> string \<Rightarrow> string" where
  "ar_member m = (case m of (name, stamps, content) \<Rightarrow>
     ar_header name stamps (length content) @ content @ (if odd (length content) then [LF] else []))"

definition ar_archive :: "(string \<times> string \<times> string) list \<Rightarrow> string" where
  "ar_archive ms = AR_MAGIC @ concat (map ar_member ms)"

definition member_ok :: "string \<times> string \<times> string \<Rightarrow> bool" where
  "member_ok m \<longleftrightarrow> (case m of (name, stamps, content) \<Rightarrow>
     name \<noteq> [] \<and> length name \<le> 16 \<and> list_all (\<lambda>c. (of_char c :: nat) < 128) name \<and>
     \<not> py_isspace (last name) \<and> last name \<noteq> CHR ''/'' \<and> length stamps \<le> 32 \<and> length (nat_str (length content)) \<le> 10)"

lemma py_slice_nat [simp]:
  "0 \<le> a \<Longrightarrow> a \<le> b \<Longrightarrow> py_slice xs a b = take (nat b - nat a) (drop (nat a) xs)"
proof -
  assume "0 \<le> a" "a \<le> b"
  then have "slice_index (int (length xs)) a = min (nat a) (length xs)" "slice_index (int (length xs)) b = min (nat b) (length xs)"
    by (auto simp: slice_index_def min_def)
  then show ?thesis using \<open>a \<le> b\<close> by (auto simp: py_slice_def Let_def min_def)
qed

lemma length_pad [simp]: "length s \<le> n \<Longrightarrow> length (pad_to n s) = n" by (simp add: pad_to_def)

lemma rstrip_pad: "s \<noteq> [] \<Longrightarrow> \<not> P (last s) \<Longrightarrow> P SPC \<Longrightarrow> rstrip_of P (pad_to n s) = s"
  by (simp add: rstrip_of_def pad_to_def dropWhile_append dropWhile_replicate hd_rev [symmetric])
     (cases "rev s"; auto)

lemma decode_ascii_id: "list_all (\<lambda>c. (of_char c :: nat) < 128) s \<Longrightarrow> decode_ascii s = s"
  by (auto simp: decode_ascii_def list_all_iff intro: map_idI)

lemma ascii_pad: "list_all (\<lambda>c. (of_char c :: nat) < 128) s \<Longrightarrow> list_all (\<lambda>c. (of_char c :: nat) < 128) (pad_to n s)"
  by (auto simp: pad_to_def list_all_iff)

lemma ascii_nat_str: "list_all (\<lambda>c. (of_char c :: nat) < 128) (nat_str n)"
  using nat_str_digits [of _ n] by (fastforce simp: list_all_iff)

lemma size_field: "length (nat_str n) \<le> 10 \<Longrightarrow> py_int (py_strip (decode_ascii (pad_to 10 (nat_str n)))) = Some (int n)"
proof -
  assume l: "length (nat_str n) \<le> 10"
  have h: "\<not> py_isspace (hd (nat_str n))" "\<not> py_isspace (last (nat_str n))"
    using nat_str_plain(4) [of "hd (nat_str n)" n] nat_str_plain(4) [of "last (nat_str n)" n] by simp_all
  have "py_rstrip (pad_to 10 (nat_str n)) = nat_str n"
    unfolding py_rstrip_def by (rule rstrip_pad) (use h in simp_all)
  then have "py_strip (pad_to 10 (nat_str n)) = nat_str n"
    using h by (cases "nat_str n") (simp_all add: py_strip_def py_lstrip_def lstrip_of_def)
  moreover have "py_int (int_str (int n)) = Some (int n)" by (rule py_int_int_str) (use l in simp)
  ultimately show ?thesis by (simp add: decode_ascii_id ascii_pad ascii_nat_str int_str_def)
qed

lemma name_field:
  assumes "name \<noteq> []" "list_all (\<lambda>c. (of_char c :: nat) < 128) name" "\<not> py_isspace (last name)" "last name \<noteq> CHR ''/''"
  shows "rstrip_of (\<lambda>c. c = CHR ''/'') (py_rstrip (decode_ascii (pad_to 16 name))) = name"
proof -
  have "py_rstrip (pad_to 16 name) = name"
    unfolding py_rstrip_def by (rule rstrip_pad) (use assms in simp_all)
  moreover have "rstrip_of (\<lambda>c. c = CHR ''/'') name = name"
    using assms(1,4) by (cases "rev name") (auto simp: rstrip_of_def)
  ultimately show ?thesis using assms(2) by (simp add: decode_ascii_id ascii_pad)
qed

lemma length_ar_header: "length name \<le> 16 \<Longrightarrow> length stamps \<le> 32 \<Longrightarrow> length (nat_str n) \<le> 10 \<Longrightarrow> length (ar_header name stamps n) = 60"
  by (simp add: ar_header_def)

lemma ar_loop_member:
  assumes "member_ok (name, stamps, content)"
  shows "ar_loop unpack (pre @ ar_member (name, stamps, content) @ post) deb_path member_prefix (int (length pre)) =
    (if startswith name member_prefix then Some (decompress unpack name content)
     else ar_loop unpack (pre @ ar_member (name, stamps, content) @ post) deb_path member_prefix
            (int (length (pre @ ar_member (name, stamps, content)))))"
proof -
  let ?h = "ar_header name stamps (length content)"
  let ?pad = "if odd (length content) then [LF] else []"
  let ?d = "pre @ ?h @ content @ ?pad @ post"
  have d: "pre @ ar_member (name, stamps, content) @ post = ?d" by (simp add: ar_member_def)
  have ok: "name \<noteq> []" "length name \<le> 16" "list_all (\<lambda>c. (of_char c :: nat) < 128) name" "\<not> py_isspace (last name)"
      "last name \<noteq> CHR ''/''" "length stamps \<le> 32" "length (nat_str (length content)) \<le> 10"
    using assms by (simp_all add: member_ok_def)
  have lh: "length ?h = 60" using ok by (simp add: length_ar_header)
  have s1: "py_slice ?d (int (length pre)) (int (length pre) + AR_HEADER_LEN) = ?h"
    using lh by (simp add: AR_HEADER_LEN_def nat_add_distrib)
  have s2: "py_slice ?h 0 16 = pad_to 16 name" "py_slice ?h 48 58 = pad_to 10 (nat_str (length content))"
      "py_slice ?h 58 60 = ''`'' @ [LF]"
    using ok by (simp_all add: ar_header_def)
  have s3: "py_slice ?d (int (length pre) + AR_HEADER_LEN) (int (length pre) + AR_HEADER_LEN + int (length content)) = content"
    using lh by (simp add: AR_HEADER_LEN_def nat_add_distrib)
  have e: "int (length pre) + AR_HEADER_LEN + int (length content) + int (length content) mod 2
      = int (length (pre @ ar_member (name, stamps, content)))"
    using lh by (auto simp: ar_member_def AR_HEADER_LEN_def) presburger+
  have lt: "int (length pre) < int (length ?d)" "\<not> int (length pre) + AR_HEADER_LEN > int (length ?d)"
    using lh by (simp_all add: AR_HEADER_LEN_def)
  show ?thesis
    unfolding e [symmetric] d
    by (subst ar_loop.simps) (simp only: Let_def if_P [OF lt(1)] if_not_P [OF lt(2)] s1 s2 s3 size_field [OF ok(7)]
        name_field [OF ok(1,3,4,5)] option.case simp_thms if_False)
qed

lemma ar_loop_members:
  "list_all member_ok ms \<Longrightarrow>
   ar_loop unpack (pre @ concat (map ar_member ms)) deb_path member_prefix (int (length pre)) =
     Some (case List.find (\<lambda>(name, stamps, content). startswith name member_prefix) ms of
       Some (name, stamps, content) \<Rightarrow> decompress unpack name content
     | None \<Rightarrow> Inl (Value_Error (''No member matching prefix '' @ [CHR 0x27] @ member_prefix @ [CHR 0x27] @ '' found in '' @ deb_path)))"
proof (induction ms arbitrary: pre)
  case Nil
  show ?case by (subst ar_loop.simps) (simp add: Let_def)
next
  case (Cons m ms)
  obtain name stamps content where m: "m = (name, stamps, content)" by (cases m) auto
  have ok: "member_ok (name, stamps, content)" "list_all member_ok ms" using Cons.prems by (simp_all add: m)
  show ?case
    using ar_loop_member [OF ok(1), of unpack pre "concat (map ar_member ms)" deb_path member_prefix]
      Cons.IH [OF ok(2), of "pre @ ar_member (name, stamps, content)"] by (simp add: m)
qed

text \<open>A member is found: in an archive written from members with plain names, the reader
  returns, and gives the unpacked content of the first member whose name has the prefix, or the error
  that there is none; the offsets of all members before it, with the padding of odd sizes, are right.\<close>

theorem parse_ar_member_reads:
  assumes "list_all member_ok ms" and "member_prefix \<noteq> []"
  shows "parse_ar_member unpack (ar_archive ms) deb_path member_prefix =
     Some (case List.find (\<lambda>(name, stamps, content). startswith name member_prefix) ms of
       Some (name, stamps, content) \<Rightarrow> decompress unpack name content
     | None \<Rightarrow> Inl (Value_Error (''No member matching prefix '' @ [CHR 0x27] @ member_prefix @ [CHR 0x27] @ '' found in '' @ deb_path)))"
proof -
  have "length AR_MAGIC = 8" by (simp add: AR_MAGIC_def)
  then show ?thesis
    using assms(2) ar_loop_members [OF assms(1), of unpack AR_MAGIC deb_path member_prefix]
    by (simp add: parse_ar_member_def ar_archive_def AR_MAGIC_LEN_def)
qed

theorem parse_ar_member_reads_witness:
  "parse_ar_member (\<lambda>c s. Inr (rev s)) (ar_archive [(''debian-binary'', [], ''2.0'' @ [LF]), (''a'', [], ''odd''), (''control.tar.gz'', ''0'', ''xyz'')])
     ''p.deb'' ''control.tar'' = Some (Inr ''zyx'')"
proof -
  have "list_all member_ok [(''debian-binary'', [], ''2.0'' @ [LF]), (''a'', [], ''odd''), (''control.tar.gz'', ''0'', ''xyz'')]"
    by code_simp
  from parse_ar_member_reads [OF this, of "''control.tar''" "\<lambda>c s. Inr (rev s)" "''p.deb''"] show ?thesis
    by (simp add: decompress_def endswith_def)
qed

text \<open>A member size of \<open>-60\<close> sends the loop back to the header it has just read: the reader does not
  return.\<close>

definition endless_archive :: string where
  "endless_archive = AR_MAGIC @ pad_to 16 ''x'' @ pad_to 32 [] @ pad_to 10 ''-60'' @ ''`'' @ [LF]"

lemma negative_size_never_returns: "parse_ar_member unpack endless_archive deb_path ''control.tar'' = None"
proof -
  have step: "int (length endless_archive) = 68" "py_slice endless_archive 0 8 = AR_MAGIC"
    "py_slice endless_archive 58 60 \<noteq> []" by code_simp+
  let ?h = "py_slice endless_archive 8 68"
  have h: "py_slice ?h 58 60 = ''`'' @ [LF]" "py_int (py_strip (decode_ascii (py_slice ?h 48 58))) = Some (- 60)"
    "\<not> startswith (rstrip_of (\<lambda>c. c = CHR ''/'') (py_rstrip (decode_ascii (py_slice ?h 0 16)))) ''control.tar''"
    by code_simp+
  have "ar_loop u d p m i = Some r \<Longrightarrow> d = endless_archive \<Longrightarrow> m = ''control.tar'' \<Longrightarrow> i = 8 \<Longrightarrow> False" for u d p m i r
  proof (induction rule: ar_loop.raw_induct [rotated 1, consumes 1])
    case (1 loop u d p m i r)
    then show ?case using step h by (simp add: AR_HEADER_LEN_def Let_def)
  qed
  then have "ar_loop unpack endless_archive deb_path ''control.tar'' 8 = None" by (metis not_None_eq)
  then show ?thesis using step by (simp add: parse_ar_member_def AR_MAGIC_LEN_def)
qed

end
