(* ===== verification/Archive.thy ===== *)
theory Archive
  imports Py_Data
begin

text \<open>
  \<open>src/debcraft/domain/_archive_paths.py\<close> and \<open>_whiteouts.py\<close>: normalising tar member names and
  applying the whiteout markers of one image layer to the merged file system. The file system is
  the insertion-ordered dictionary the scanners keep; the operations of \<open>posixpath\<close> they use are
  modelled first. The lemmas reduce the mutating loop to one filter over the file system.
\<close>

section \<open>\<open>posixpath\<close>\<close>

definition posix_head :: "string \<Rightarrow> string" where
  "posix_head p = rev (dropWhile (\<lambda>c. c \<noteq> CHR ''/'') (rev p))"

definition posix_basename :: "string \<Rightarrow> string" where
  "posix_basename p = rev (takeWhile (\<lambda>c. c \<noteq> CHR ''/'') (rev p))"

definition posix_dirname :: "string \<Rightarrow> string" where
  "posix_dirname p = (let head = posix_head p in
     if head \<noteq> [] \<and> head \<noteq> replicate (length head) CHR ''/''
     then rstrip_of (\<lambda>c. c = CHR ''/'') head else head)"

definition posix_join :: "string \<Rightarrow> string \<Rightarrow> string" where
  "posix_join a b = (if startswith b ''/'' then b
     else if a = [] \<or> endswith a ''/'' then a @ b else a @ ''/'' @ b)"

section \<open>Member names\<close>

definition normalize_tar_member_name :: "string \<Rightarrow> string" where
  "normalize_tar_member_name name = lstrip_of (\<lambda>c. c = CHR ''/'') (removeprefix name ''./'')"

section \<open>Whiteouts\<close>

definition WHITEOUT_PREFIX :: string where "WHITEOUT_PREFIX = ''.wh.''"
definition OPAQUE_WHITEOUT :: string where "OPAQUE_WHITEOUT = ''.wh..wh..opq''"

text \<open>The file system and what the markers do to it: \<open>opaque_prefix\<close> and \<open>target_path\<close> are the
  local variables of the loop body.\<close>

definition opaque_prefix :: "string \<Rightarrow> string" where
  "opaque_prefix entry = (let d = posix_dirname entry in if d \<noteq> [] then d @ ''/'' else [])"

definition target_path :: "string \<Rightarrow> string" where
  "target_path entry = (let d = posix_dirname entry;
       target_name = removeprefix (posix_basename entry) WHITEOUT_PREFIX
     in if d \<noteq> [] then posix_join d target_name else target_name)"

definition whiteout_step ::
  "string list \<Rightarrow> (string, 'b) dict \<Rightarrow> string \<Rightarrow> (string, 'b) dict" where
  "whiteout_step shielded vfs entry =
     (if posix_basename entry = OPAQUE_WHITEOUT then
        (let prefix = opaque_prefix entry;
             doomed = filter (\<lambda>key. startswith key prefix \<and> key \<notin> set shielded) (map fst vfs)
         in dict_pop (foldl dict_pop vfs doomed) entry)
      else if startswith (posix_basename entry) WHITEOUT_PREFIX then
        dict_pop (dict_pop vfs (target_path entry)) entry
      else vfs)"

definition apply_whiteouts ::
  "(string, 'b) dict \<Rightarrow> string list \<Rightarrow> (string, 'b) dict" where
  "apply_whiteouts vfs layer_entries = foldl (whiteout_step layer_entries) vfs layer_entries"

section \<open>The declarative reading\<close>

definition is_marker :: "string \<Rightarrow> bool" where
  "is_marker entry \<longleftrightarrow> startswith (posix_basename entry) WHITEOUT_PREFIX"

text \<open>Does the marker \<open>entry\<close> of a layer with the given entries hide the key?\<close>

definition hides :: "string set \<Rightarrow> string \<Rightarrow> string \<Rightarrow> bool" where
  "hides layer entry key \<longleftrightarrow> is_marker entry \<and>
     (key = entry \<or>
      (if posix_basename entry = OPAQUE_WHITEOUT
       then startswith key (opaque_prefix entry) \<and> key \<notin> layer
       else key = target_path entry))"

lemma opaque_is_marker: "posix_basename entry = OPAQUE_WHITEOUT \<Longrightarrow> is_marker entry"
  by (simp add: is_marker_def OPAQUE_WHITEOUT_def WHITEOUT_PREFIX_def)

lemma foldl_dict_pop: "foldl dict_pop d ks = filter (\<lambda>e. fst e \<notin> set ks) d"
  by (induction ks arbitrary: d) (auto simp: dict_pop_def intro: filter_cong)

lemma whiteout_step_eq:
  "whiteout_step layer vfs entry = filter (\<lambda>e. \<not> hides (set layer) entry (fst e)) vfs"
proof (cases "posix_basename entry = OPAQUE_WHITEOUT")
  case True
  then show ?thesis using opaque_is_marker [OF True]
    by (auto simp: whiteout_step_def hides_def Let_def foldl_dict_pop dict_pop_def intro!: filter_cong)
next
  case False
  then show ?thesis
    by (auto simp: whiteout_step_def hides_def is_marker_def dict_pop_def intro: filter_cong)
qed

lemma foldl_whiteout_step:
  "foldl (whiteout_step layer) vfs es = filter (\<lambda>e. \<not> (\<exists>m \<in> set es. hides (set layer) m (fst e))) vfs"
  by (induction es arbitrary: vfs) (auto simp: whiteout_step_eq intro: filter_cong)

lemma apply_whiteouts_filter:
  "apply_whiteouts vfs layer = filter (\<lambda>e. \<not> (\<exists>m \<in> set layer. hides (set layer) m (fst e))) vfs"
  by (simp add: apply_whiteouts_def foldl_whiteout_step)

section \<open>Properties\<close>

text \<open>Applying the markers of a layer is one declarative filter: a path survives, with
  its content and its position, exactly when no marker of the layer hides it. A marker hides
  itself; an opaque marker hides every path under its directory that the layer does not carry; a
  plain marker hides the path it names.\<close>

theorem apply_whiteouts_spec:
  "apply_whiteouts vfs layer = filter (\<lambda>e. \<not> (\<exists>m \<in> set layer. hides (set layer) m (fst e))) vfs"
  by (rule apply_whiteouts_filter)

text \<open>The order in which a layer lists its entries does not matter, nor do
  repetitions: the loop mutates the file system marker by marker, but two layers with the same
  set of entries have the same effect.\<close>

theorem apply_whiteouts_order:
  assumes "set layer = set layer'"
  shows "apply_whiteouts vfs layer = apply_whiteouts vfs layer'"
  by (simp add: apply_whiteouts_def foldl_whiteout_step assms)

theorem apply_whiteouts_order_witness:
  "apply_whiteouts [(''a/x'', 1 :: int), (''b'', 2)] [''a/.wh..wh..opq'', ''.wh.b''] =
   apply_whiteouts [(''a/x'', 1 :: int), (''b'', 2)] [''.wh.b'', ''a/.wh..wh..opq'', ''.wh.b'']"
  by (rule apply_whiteouts_order) auto

text \<open>No marker of the layer is left in the file system, and applying the layer again
  changes nothing.\<close>

theorem apply_whiteouts_clean:
  "filter (\<lambda>e. fst e \<in> set layer \<and> is_marker (fst e)) (apply_whiteouts vfs layer) = [] \<and>
   apply_whiteouts (apply_whiteouts vfs layer) layer = apply_whiteouts vfs layer"
  by (auto simp: apply_whiteouts_filter hides_def filter_empty_conv)

text \<open>The rule that a layer does not hide its own paths is kept for opaque markers
  only: a plain marker hides the path it names even when the same layer carries that path. And it
  hides that one key only: the files below a directory it names stay.\<close>

lemma plain_whiteout_not_shielded:
  "dict_get (apply_whiteouts [(''etc/conf'', content)] [''etc/.wh.conf'', ''etc/conf'']) ''etc/conf'' = None \<and>
   dict_get (apply_whiteouts [(''etc/d/f'', content)] [''etc/.wh.d'']) ''etc/d/f'' = Some content"
proof -
  have "hides {''etc/.wh.conf'', ''etc/conf''} ''etc/.wh.conf'' ''etc/conf''"
    and "\<not> hides {''etc/.wh.d''} ''etc/.wh.d'' ''etc/d/f''"
    by code_simp+
  then show ?thesis by (simp add: apply_whiteouts_filter)
qed

text \<open>Normalising a member name removes one leading \<open>./\<close>, if there is one, and then
  every leading slash, and nothing else: the result never starts with a slash.\<close>

lemma normalize_tar_member_name_spec:
  "\<not> startswith (normalize_tar_member_name name) ''/'' \<and>
   (\<exists>k. name = (if startswith name ''./'' then ''./'' else []) @ replicate k (CHR ''/'')
      @ normalize_tar_member_name name)"
proof -
  let ?r = "removeprefix name ''./''"
  have 1: "\<not> startswith (lstrip_of (\<lambda>c. c = CHR ''/'') s) ''/''" for s
    by (induction s) (auto simp: lstrip_of_def)
  have 2: "\<exists>k. s = replicate k (CHR ''/'') @ lstrip_of (\<lambda>c. c = CHR ''/'') s" for s
  proof (induction s)
    case (Cons c s)
    then obtain k where "s = replicate k (CHR ''/'') @ lstrip_of (\<lambda>c. c = CHR ''/'') s" by blast
    then show ?case
      by (cases "c = CHR ''/''") (auto simp: lstrip_of_def intro: exI [of _ "Suc k"] exI [of _ "0::nat"])
  qed (simp add: lstrip_of_def)
  have "name = (if startswith name ''./'' then ''./'' else []) @ ?r"
    using startswith_drop [of name "''./''"] by (auto simp: removeprefix_def)
  moreover obtain k where "?r = replicate k (CHR ''/'') @ normalize_tar_member_name name"
    using 2 [of ?r] by (auto simp: normalize_tar_member_name_def)
  ultimately have "name = (if startswith name ''./'' then ''./'' else []) @ replicate k (CHR ''/'')
      @ normalize_tar_member_name name" by simp
  then show ?thesis using 1 [of ?r] by (auto simp: normalize_tar_member_name_def)
qed

end
