(* ===== verification/Deb_Parser.thy ===== *)
theory Deb_Parser
  imports Ar Archive Stanza
begin

text \<open>
  \<open>DebParser\<close> of \<open>src/debcraft/domain/package_intelligence/deb_parser.py\<close>: control fields, dependencies, file
  list and copyright text of a \<open>.deb\<close>. The port \<open>DebFileReader\<close> is a function from a member prefix to
  its bytes, and \<open>LocalDebFileReader\<close>, over \<open>Ar\<close>, is one. \<open>tarfile\<close> is a parameter: the members of an
  archive or \<open>TarError\<close>; so is decoding UTF-8 with replacement.
\<close>

section \<open>Values and errors\<close>

datatype dependency_relation = DependencyRelation
  (dep_package: string) (dep_version_constraint: "string option") (dep_alternatives: "dependency_relation list")

record deb_parse_result =
  db_package_name :: string
  db_version :: string
  db_architecture :: string
  db_control_fields :: "(string, string) dict"
  db_dependencies :: "dependency_relation list"
  db_file_listing :: "string list"
  db_copyright_text :: "string option"

text \<open>What a reader raises: an \<open>OSError\<close>, one of the errors of \<open>Ar\<close>.\<close>

datatype read_error = Os_Error string | Ar_Error ar_error

text \<open>\<open>DebParseError(file_path, reason)\<close> and \<open>DependencyParseError(package_name, field_name, reason)\<close>.\<close>

datatype deb_error = DebParseError string string | DependencyParseError string string string

record tar_member =
  tm_name :: string
  tm_is_file :: bool
  tm_content :: "string option"

section \<open>Control fields\<close>

text \<open>The loop of \<open>_parse_control_text\<close>: it stops at the first blank line. The result is the state when
  the loop ends.\<close>

fun control_loop :: "cont_state \<Rightarrow> string list \<Rightarrow> cont_state" where
  "control_loop st [] = st"
| "control_loop (flds, current_field, current_value_lines) (line # lines) =
     (if line = [] \<or> blank line then (save_field (flds, current_field, current_value_lines), current_field, current_value_lines)
      else if hd line = SPC \<or> hd line = TAB then
        control_loop (flds, current_field, if current_field \<noteq> None then current_value_lines @ [drop 1 line] else current_value_lines) lines
      else
        (let flds = save_field (flds, current_field, current_value_lines)
         in case py_find CHR '':'' line of
              None \<Rightarrow> control_loop (flds, None, []) lines
            | Some colon_pos \<Rightarrow> control_loop (flds, Some (take colon_pos line), [py_strip (drop (colon_pos + 1) line)]) lines))"

definition parse_control_text :: "string \<Rightarrow> (string, string) dict" where
  "parse_control_text txt =
     (case control_loop ([], None, []) (py_splitlines txt) of (flds, current_field, current_value_lines) \<Rightarrow>
        (case current_field of
           Some k \<Rightarrow> if dict_has flds k then flds else dict_set flds k (join [LF] current_value_lines)
         | None \<Rightarrow> flds))"

section \<open>Dependencies\<close>

definition is_alnum_ascii :: "char \<Rightarrow> bool" where
  "is_alnum_ascii c = (let n = of_char c :: nat in (65 \<le> n \<and> n \<le> 90) \<or> (97 \<le> n \<and> n \<le> 122) \<or> (48 \<le> n \<and> n \<le> 57))"

definition is_package_char :: "char \<Rightarrow> bool" where
  "is_package_char c \<longleftrightarrow> is_alnum_ascii c \<or> c = CHR ''.'' \<or> c = CHR ''+'' \<or> c = CHR ''-''"

text \<open>The regular expression of \<open>_parse_single_dep\<close>, part by part. No character class meets the character
  that must follow it, so the greedy matches need no backtracking up to the last two groups.\<close>

definition profile_ok :: "string \<Rightarrow> bool" where
  "profile_ok s = (let t = dropWhile py_isspace s in
     t = [] \<or> (hd t = CHR ''<'' \<and> list_ex (\<lambda>i. t ! i = CHR ''>'' \<and> LF \<notin> set (take i t) \<and> blank (drop (i + 1) t)) [1..<length t]))"

definition tail_ok :: "string \<Rightarrow> bool" where
  "tail_ok s = (let t = dropWhile py_isspace s in
     if t \<noteq> [] \<and> hd t = CHR ''['' then
       list_ex (\<lambda>i. t ! i = CHR '']'' \<and> LF \<notin> set (take i t) \<and> profile_ok (drop (i + 1) t)) [1..<length t]
     else profile_ok t)"

definition match_version :: "string \<Rightarrow> string option \<times> string" where
  "match_version s = (let t = dropWhile py_isspace s in
     if t \<noteq> [] \<and> hd t = CHR ''('' \<and> CHR '')'' \<in> set (drop 1 t) \<and> before CHR '')'' (drop 1 t) \<noteq> []
     then (Some (before CHR '')'' (drop 1 t)), after CHR '')'' (drop 1 t)) else (None, s))"

definition match_qualifier :: "string \<Rightarrow> string" where
  "match_qualifier s = (let q = takeWhile (\<lambda>c. is_alnum_ascii c \<or> c = CHR ''-'') (drop 1 s) in
     if s \<noteq> [] \<and> hd s = CHR '':'' \<and> q \<noteq> [] then drop (1 + length q) s else s)"

definition match_dependency :: "string \<Rightarrow> (string \<times> string option) option" where
  "match_dependency s =
     (let name = takeWhile is_package_char s in
      if name = [] \<or> \<not> is_alnum_ascii (hd name) then None
      else (case match_version (match_qualifier (drop (length name) s)) of (version, rest) \<Rightarrow>
              if tail_ok rest then Some (name, version) else None))"

definition parse_single_dep :: "string \<Rightarrow> string \<Rightarrow> string \<Rightarrow> deb_error + dependency_relation" where
  "parse_single_dep dep_str package_name field_name =
     (let dep_str = py_strip dep_str in
      case match_dependency dep_str of
        None \<Rightarrow> Inl (DependencyParseError package_name field_name (''Malformed dependency: '' @ [CHR 0x27] @ dep_str @ [CHR 0x27]))
      | Some (name, version_part) \<Rightarrow>
          Inr (DependencyRelation name
            (case version_part of Some v \<Rightarrow> if v \<noteq> [] then Some (py_strip v) else None | None \<Rightarrow> None) []))"

text \<open>\<open>re.sub(r"\n\s*", " ", value)\<close>.\<close>

function unfold_lines :: "string \<Rightarrow> string" where
  "unfold_lines [] = []"
| "unfold_lines (c # s) = (if c = LF then SPC # unfold_lines (dropWhile py_isspace s) else c # unfold_lines s)"
  by pat_completeness auto

termination unfold_lines
  by (relation "measure length") (auto simp: le_imp_less_Suc length_dropWhile_le)

definition parse_entry :: "string \<Rightarrow> string \<Rightarrow> string \<Rightarrow> deb_error + dependency_relation" where
  "parse_entry package_name field_name entry =
     (let alternatives_raw = split_on CHR ''|'' entry in
      if length alternatives_raw > 1 then
        (case parse_single_dep (py_strip (hd alternatives_raw)) package_name field_name of
           Inl e \<Rightarrow> Inl e
         | Inr primary \<Rightarrow>
             (case traverse (\<lambda>alt_raw. parse_single_dep alt_raw package_name field_name)
                     (filter (\<lambda>a. a \<noteq> []) (map py_strip (tl alternatives_raw))) of
                Inl e \<Rightarrow> Inl e
              | Inr alts \<Rightarrow> Inr (DependencyRelation (dep_package primary) (dep_version_constraint primary) alts)))
      else parse_single_dep entry package_name field_name)"

definition parse_dependency_field :: "string \<Rightarrow> string \<Rightarrow> string \<Rightarrow> deb_error + dependency_relation list" where
  "parse_dependency_field value package_name field_name =
     (let value = py_strip (unfold_lines value) in
      if value = [] then Inr []
      else traverse (parse_entry package_name field_name) (filter (\<lambda>e. e \<noteq> []) (map py_strip (split_on CHR '','' value))))"

text \<open>\<open>order\<close> is the order in which the \<open>frozenset\<close> of the four field names is iterated, which changes
  from run to run with the hash seed.\<close>

definition DEPENDENCY_FIELDS :: "string list" where
  "DEPENDENCY_FIELDS = [''Depends'', ''Pre-Depends'', ''Recommends'', ''Suggests'']"

definition parse_dependencies ::
  "string list \<Rightarrow> (string, string) dict \<Rightarrow> string \<Rightarrow> deb_error + dependency_relation list" where
  "parse_dependencies order control_fields package_name =
     map_sum id concat (traverse (\<lambda>field_name. case dict_get control_fields field_name of
         None \<Rightarrow> Inr []
       | Some value \<Rightarrow> parse_dependency_field value package_name field_name) order)"

section \<open>The parser\<close>

definition validate_ar_magic :: "(string \<Rightarrow> read_error + string) \<Rightarrow> string \<Rightarrow> deb_error option" where
  "validate_ar_magic read deb_path =
     (case read [] of
        Inl e \<Rightarrow> Some (DebParseError deb_path ''Failed to read archive header'')
      | Inr raw \<Rightarrow> if startswith raw AR_MAGIC then None
          else Some (DebParseError deb_path
            (''Not a valid ar archive: missing magic bytes '' @ [CHR 0x27] @ ''!<arch>'' @ [CHR 0x5C] @ ''n'' @ [CHR 0x27])))"

definition validate_debian_binary :: "(string \<Rightarrow> string) \<Rightarrow> (string \<Rightarrow> read_error + string) \<Rightarrow> string \<Rightarrow> deb_error option" where
  "validate_debian_binary decode read deb_path =
     (case read ''debian-binary'' of
        Inl e \<Rightarrow> Some (DebParseError deb_path (''Failed to read '' @ [CHR 0x27] @ ''debian-binary'' @ [CHR 0x27] @ '' member''))
      | Inr content \<Rightarrow>
          (let version_str = py_strip (decode content) in
           if startswith version_str ''2.'' then None
           else Some (DebParseError deb_path (''Unsupported debian-binary version: '' @ [CHR 0x27] @ version_str @ [CHR 0x27]
                  @ '' (expected version starting with '' @ [CHR 0x27] @ ''2.'' @ [CHR 0x27] @ '')''))))"

text \<open>The first regular member of a name that has a content.\<close>

definition find_member :: "string \<Rightarrow> tar_member list \<Rightarrow> string option" where
  "find_member name members =
     (case List.find (\<lambda>m. normalize_tar_member_name (tm_name m) = name \<and> tm_is_file m \<and> tm_content m \<noteq> None) members of
        None \<Rightarrow> None | Some m \<Rightarrow> tm_content m)"

definition read_control_from_tar ::
  "(string \<Rightarrow> string) \<Rightarrow> (string \<Rightarrow> unit + tar_member list) \<Rightarrow> string \<Rightarrow> string \<Rightarrow> deb_error + string" where
  "read_control_from_tar decode tar deb_path tar_bytes =
     (case tar tar_bytes of
        Inl e \<Rightarrow> Inl (DebParseError deb_path ''Failed to read control.tar archive'')
      | Inr members \<Rightarrow>
          (case find_member ''control'' members of
             Some content \<Rightarrow> Inr (decode content)
           | None \<Rightarrow> Inl (DebParseError deb_path (''No '' @ [CHR 0x27] @ ''control'' @ [CHR 0x27] @ '' file found within control.tar''))))"

definition extract_control_fields ::
  "(string \<Rightarrow> string) \<Rightarrow> (string \<Rightarrow> unit + tar_member list) \<Rightarrow> (string \<Rightarrow> read_error + string) \<Rightarrow> string \<Rightarrow>
     deb_error + (string, string) dict" where
  "extract_control_fields decode tar read deb_path =
     (case read ''control.tar'' of
        Inl e \<Rightarrow> Inl (DebParseError deb_path (''Missing or unreadable '' @ [CHR 0x27] @ ''control.tar'' @ [CHR 0x27] @ '' member''))
      | Inr control_tar_bytes \<Rightarrow> map_sum id parse_control_text (read_control_from_tar decode tar deb_path control_tar_bytes))"

definition extract_file_listing ::
  "(string \<Rightarrow> unit + tar_member list) \<Rightarrow> (string \<Rightarrow> read_error + string) \<Rightarrow> string \<Rightarrow> deb_error + string list" where
  "extract_file_listing tar read deb_path =
     (case read ''data.tar'' of
        Inl e \<Rightarrow> Inl (DebParseError deb_path (''Missing or unreadable '' @ [CHR 0x27] @ ''data.tar'' @ [CHR 0x27] @ '' member''))
      | Inr data_tar_bytes \<Rightarrow>
          (case tar data_tar_bytes of
             Inl e \<Rightarrow> Inl (DebParseError deb_path ''Failed to read data.tar archive'')
           | Inr members \<Rightarrow> Inr (map tm_name members)))"

text \<open>\<open>except (OSError, ValueError)\<close> lets the errors of a compression library pass; they cannot occur,
  as the listing has read the same member before.\<close>

definition extract_copyright ::
  "(string \<Rightarrow> string) \<Rightarrow> (string \<Rightarrow> unit + tar_member list) \<Rightarrow> (string \<Rightarrow> read_error + string) \<Rightarrow> string \<Rightarrow> string option" where
  "extract_copyright decode tar read package_name =
     (if package_name = [] then None
      else case read ''data.tar'' of
        Inl e \<Rightarrow> None
      | Inr data_tar_bytes \<Rightarrow>
          (case tar data_tar_bytes of
             Inl e \<Rightarrow> None
           | Inr members \<Rightarrow> map_option decode (find_member (''usr/share/doc/'' @ package_name @ ''/copyright'') members)))"

definition deb_parse ::
  "string list \<Rightarrow> (string \<Rightarrow> string) \<Rightarrow> (string \<Rightarrow> unit + tar_member list) \<Rightarrow> (string \<Rightarrow> read_error + string) \<Rightarrow> string \<Rightarrow>
     deb_error + deb_parse_result" where
  "deb_parse order decode tar read deb_path =
     (case validate_ar_magic read deb_path of Some e \<Rightarrow> Inl e | None \<Rightarrow>
     (case validate_debian_binary decode read deb_path of Some e \<Rightarrow> Inl e | None \<Rightarrow>
     (case extract_control_fields decode tar read deb_path of Inl e \<Rightarrow> Inl e | Inr control_fields \<Rightarrow>
        (let package_name = dict_getd control_fields ''Package'' [] in
         case parse_dependencies order control_fields package_name of Inl e \<Rightarrow> Inl e | Inr dependencies \<Rightarrow>
        (case extract_file_listing tar read deb_path of Inl e \<Rightarrow> Inl e | Inr file_listing \<Rightarrow>
           Inr \<lparr>db_package_name = package_name, db_version = dict_getd control_fields ''Version'' [],
                db_architecture = dict_getd control_fields ''Architecture'' [], db_control_fields = control_fields,
                db_dependencies = dependencies, db_file_listing = file_listing,
                db_copyright_text = extract_copyright decode tar read package_name\<rparr>)))))"

text \<open>\<open>LocalDebFileReader.read_ar_member\<close> over a file system: \<open>None\<close> when \<open>Ar\<close> does not return.\<close>

definition local_reader ::
  "(codec \<Rightarrow> string \<Rightarrow> string + string) \<Rightarrow> (string \<Rightarrow> string option) \<Rightarrow> string \<Rightarrow> string \<Rightarrow> (read_error + string) option" where
  "local_reader unpack files deb_path member_prefix =
     (case files deb_path of
        None \<Rightarrow> Some (Inl (Os_Error deb_path))
      | Some bytes \<Rightarrow> map_option (map_sum Ar_Error id) (parse_ar_member unpack bytes deb_path member_prefix))"

section \<open>Dependency fields as they are written\<close>

definition print_single :: "dependency_relation \<Rightarrow> string" where
  "print_single d = dep_package d @ (case dep_version_constraint d of None \<Rightarrow> [] | Some v \<Rightarrow> '' ('' @ v @ '')'')"

definition print_relation :: "dependency_relation \<Rightarrow> string" where
  "print_relation d = join '' | '' (map print_single (d # dep_alternatives d))"

definition print_dependencies :: "dependency_relation list \<Rightarrow> string" where
  "print_dependencies ds = join '', '' (map print_relation ds)"

definition single_ok :: "dependency_relation \<Rightarrow> bool" where
  "single_ok d \<longleftrightarrow> dep_package d \<noteq> [] \<and> is_alnum_ascii (hd (dep_package d)) \<and> list_all is_package_char (dep_package d) \<and>
     (case dep_version_constraint d of None \<Rightarrow> True
      | Some v \<Rightarrow> v \<noteq> [] \<and> py_strip v = v \<and> list_all (\<lambda>c. c \<notin> {CHR '')'', CHR '','', CHR ''|'', LF}) v)"

definition relation_ok :: "dependency_relation \<Rightarrow> bool" where
  "relation_ok d \<longleftrightarrow> single_ok d \<and> list_all (\<lambda>a. single_ok a \<and> dep_alternatives a = []) (dep_alternatives d)"

lemma py_strip_pad:
  assumes "blank a" "blank b" "e \<noteq> []" "py_strip e = e"
  shows "py_strip (a @ e @ b) = e"
proof -
  have h: "\<not> py_isspace (hd e)" "\<not> py_isspace (last e)" using py_strip_ends [of e] assms(3,4) by auto
  have "dropWhile py_isspace (rev (a @ e @ b)) = rev e @ rev a"
    using assms(2,3) h(2) dropWhile_append_stop [of "rev b" py_isspace "rev e @ rev a"] by (simp add: blank_def hd_append hd_rev)
  then have "py_rstrip (a @ e @ b) = a @ e" by (simp add: py_rstrip_def rstrip_of_def)
  then show ?thesis
    using dropWhile_append_stop [of a py_isspace e] assms(1) h(1) by (simp add: py_strip_def py_lstrip_def lstrip_of_def blank_def)
qed

lemma split_join_strip:
  assumes "blank p" "blank q" "blank r" "c \<notin> set (p @ q @ r)" "es \<noteq> []"
    and "\<And>e. e \<in> set es \<Longrightarrow> e \<noteq> [] \<and> c \<notin> set e \<and> py_strip e = e"
  shows "map py_strip (split_on c (r @ join (p @ [c] @ q) es)) = es"
  using assms(3-6)
proof (induction "p @ [c] @ q" es arbitrary: r rule: join.induct)
  case (2 e)
  then show ?case using py_strip_pad [of r "[]" e] by (simp add: split_on_id)
next
  case (3 e f es)
  have "split_on c (r @ join (p @ [c] @ q) (e # f # es)) = (r @ e @ p) # split_on c (q @ join (p @ [c] @ q) (f # es))"
    using split_on_append_sep [of c "r @ e @ p" "q @ join (p @ [c] @ q) (f # es)"] 3(3) 3(5) [of e] by (simp add: split_on_id)
  moreover have "map py_strip (split_on c (q @ join (p @ [c] @ q) (f # es))) = f # es"
    by (rule 3(1)) (use 3 assms(2) in auto)
  ultimately show ?case using py_strip_pad [of r p e] 3 assms(1) by simp
qed simp

lemma single_chars:
  assumes "single_ok d" and "c \<in> set (print_single d)"
  shows "c \<notin> {CHR '','', CHR ''|'', LF}"
proof -
  have "c \<in> set (dep_package d) \<or> c \<in> {SPC, CHR ''('', CHR '')''} \<or> (\<exists>v. dep_version_constraint d = Some v \<and> c \<in> set v)"
    using assms(2) by (auto simp: print_single_def split: option.splits)
  moreover have "is_package_char x \<Longrightarrow> x \<notin> {CHR '','', CHR ''|'', LF}" for x
    by (auto simp: is_package_char_def is_alnum_ascii_def Let_def)
  ultimately show ?thesis using assms(1) by (fastforce simp: single_ok_def list_all_iff)
qed

lemma package_char_plain: "is_package_char c \<Longrightarrow> \<not> py_isspace c"
  by (auto simp: is_package_char_def is_alnum_ascii_def py_isspace_def Let_def)

lemma single_ends:
  assumes "single_ok d"
  shows "print_single d \<noteq> [] \<and> \<not> py_isspace (hd (print_single d)) \<and> \<not> py_isspace (last (print_single d))"
proof -
  have p: "dep_package d \<noteq> []" "\<forall>c \<in> set (dep_package d). \<not> py_isspace c"
    using assms package_char_plain by (auto simp: single_ok_def list_all_iff)
  have "\<not> py_isspace (hd (dep_package d))" "\<not> py_isspace (last (dep_package d))" using p by simp_all
  then show ?thesis using p(1) by (simp add: print_single_def py_isspace_def split: option.splits)
qed

lemma single_strip: "single_ok d \<Longrightarrow> py_strip (print_single d) = print_single d"
  using single_ends by (blast intro: py_strip_id)

lemma parse_print_single:
  assumes "single_ok d"
  shows "parse_single_dep (print_single d) package_name field_name =
    Inr (DependencyRelation (dep_package d) (dep_version_constraint d) [])"
proof -
  let ?n = "dep_package d"
  have n: "?n \<noteq> []" "is_alnum_ascii (hd ?n)" "\<forall>c \<in> set ?n. is_package_char c" using assms by (auto simp: single_ok_def list_all_iff)
  have sp: "\<not> is_package_char SPC" "tail_ok []" by code_simp+
  have "match_dependency (print_single d) = Some (?n, dep_version_constraint d)"
  proof (cases "dep_version_constraint d")
    case None
    have t: "takeWhile is_package_char ?n = ?n" using n(3) by (simp add: takeWhile_eq_all_conv)
    have "match_version (match_qualifier []) = (None, [])" by code_simp
    moreover have p: "print_single d = ?n" by (simp add: print_single_def None)
    ultimately show ?thesis unfolding p match_dependency_def Let_def t using n(1,2) sp(2) by (simp add: None)
  next
    case (Some v)
    let ?r = "SPC # CHR ''('' # v @ '')''"
    have v: "v \<noteq> []" "CHR '')'' \<notin> set v" using assms by (auto simp: single_ok_def Some list_all_iff)
    have p: "print_single d = ?n @ ?r" by (simp add: print_single_def Some)
    have t: "takeWhile is_package_char (?n @ ?r) = ?n" by (rule takeWhile_append_stop) (use n(3) sp(1) in auto)
    have q: "match_qualifier ?r = ?r" by (simp add: match_qualifier_def Let_def)
    have b: "before CHR '')'' (v @ '')'') = v" "after CHR '')'' (v @ '')'') = []" using v(2) by (simp_all add: before_append after_append)
    have m: "match_version ?r = (Some v, [])" using v(1) by (simp add: match_version_def Let_def b py_isspace_def [of "CHR ''(''"])
    show ?thesis unfolding p match_dependency_def Let_def t using n(1,2) sp(2) by (simp add: q m Some)
  qed
  moreover have "(case dep_version_constraint d of Some v \<Rightarrow> if v \<noteq> [] then Some (py_strip v) else None | None \<Rightarrow> None) = dep_version_constraint d"
    using assms by (auto simp: single_ok_def split: option.splits)
  ultimately show ?thesis by (simp add: parse_single_dep_def single_strip [OF assms] Let_def)
qed

lemma parse_print_entry:
  assumes "relation_ok d"
  shows "parse_entry package_name field_name (print_relation d) = Inr d"
proof -
  let ?es = "map print_single (d # dep_alternatives d)"
  have ok: "single_ok x" if "x \<in> set (d # dep_alternatives d)" for x
    using assms that by (auto simp: relation_ok_def list_all_iff)
  have "e \<noteq> [] \<and> CHR ''|'' \<notin> set e \<and> py_strip e = e" if "e \<in> set ?es" for e
    using that ok single_strip single_ends single_chars by fastforce
  then have s: "map py_strip (split_on CHR ''|'' (print_relation d)) = ?es"
    using split_join_strip [of "'' ''" "'' ''" "[]" "CHR ''|''" ?es] by (simp add: print_relation_def)
  obtain x xs where x: "split_on CHR ''|'' (print_relation d) = x # xs" by (cases "split_on CHR ''|'' (print_relation d)") auto
  have xs: "py_strip x = print_single d" "map py_strip xs = map print_single (dep_alternatives d)" using s by (simp_all add: x)
  have d: "single_ok d" by (rule ok) simp
  show ?thesis
  proof (cases "dep_alternatives d = []")
    case True
    then have "print_relation d = print_single d" "xs = []" using xs by (simp_all add: print_relation_def)
    moreover from this have "split_on CHR ''|'' (print_single d) = [x]" using x by simp
    ultimately show ?thesis using parse_print_single [OF d] True by (cases d) (simp add: parse_entry_def)
  next
    case False
    then have l: "length (x # xs) > 1" using xs(2) by (cases xs) auto
    have f: "filter (\<lambda>a. a \<noteq> []) (map py_strip xs) = map print_single (dep_alternatives d)"
      using ok single_ends by (auto simp: xs(2) filter_id_conv)
    have "traverse (\<lambda>alt_raw. parse_single_dep alt_raw package_name field_name) (map print_single (dep_alternatives d)) = Inr (dep_alternatives d)"
      using assms parse_print_single
      by (auto simp: traverse_Inr_iff list_all2_conv_all_nth relation_ok_def list_all_length) (metis dependency_relation.collapse nth_mem)
    then show ?thesis
      unfolding parse_entry_def x Let_def using l f xs(1) parse_print_single [OF d] by (cases d) simp
  qed
qed

lemma relation_chars:
  assumes "relation_ok d" and "c \<in> set (print_relation d)"
  shows "c \<noteq> CHR '','' \<and> c \<noteq> LF"
proof -
  have "c \<in> \<Union> (set ` set (map print_single (d # dep_alternatives d))) \<union> set '' | ''"
    using assms(2) set_join [of "'' | ''" "map print_single (d # dep_alternatives d)"] unfolding print_relation_def by blast
  then consider "c \<in> set '' | ''" | x where "x \<in> set (d # dep_alternatives d)" "c \<in> set (print_single x)" by auto
  then show ?thesis
  proof cases
    case 2
    then have "single_ok x" using assms(1) by (auto simp: relation_ok_def list_all_iff)
    then show ?thesis using single_chars 2(2) by blast
  qed auto
qed

lemma join_ends:
  "es \<noteq> [] \<Longrightarrow> (\<And>e. e \<in> set es \<Longrightarrow> e \<noteq> [] \<and> \<not> py_isspace (hd e) \<and> \<not> py_isspace (last e)) \<Longrightarrow>
     join s es \<noteq> [] \<and> \<not> py_isspace (hd (join s es)) \<and> \<not> py_isspace (last (join s es))"
proof (induction s es rule: join.induct)
  case (3 s x y ys)
  then have "join s (y # ys) \<noteq> [] \<and> \<not> py_isspace (last (join s (y # ys)))" by simp
  moreover have "x \<noteq> []" "\<not> py_isspace (hd x)" using 3(3) [of x] by simp_all
  ultimately show ?case by (simp add: hd_append)
qed simp_all

lemma relation_ends:
  "relation_ok d \<Longrightarrow> print_relation d \<noteq> [] \<and> \<not> py_isspace (hd (print_relation d)) \<and> \<not> py_isspace (last (print_relation d))"
  unfolding print_relation_def by (rule join_ends) (use single_ends in \<open>auto simp: relation_ok_def list_all_iff\<close>)

lemma unfold_lines_id: "LF \<notin> set s \<Longrightarrow> unfold_lines s = s" by (induction s) auto

lemma parse_print_dependencies':
  assumes "list_all relation_ok ds"
  shows "parse_dependency_field (print_dependencies ds) package_name field_name = Inr ds"
proof (cases "ds = []")
  case False
  let ?es = "map print_relation ds"
  have ok: "relation_ok d" if "d \<in> set ds" for d using assms that by (simp add: list_all_iff)
  have e: "e \<noteq> [] \<and> CHR '','' \<notin> set e \<and> LF \<notin> set e \<and> \<not> py_isspace (hd e) \<and> \<not> py_isspace (last e)" if "e \<in> set ?es" for e
    using that ok relation_ends relation_chars by fastforce
  then have st: "py_strip e = e" if "e \<in> set ?es" for e using that by (intro py_strip_id) blast
  have p: "print_dependencies ds = join ('','' @ [SPC]) ?es" by (simp add: print_dependencies_def)
  have j: "print_dependencies ds \<noteq> [] \<and> \<not> py_isspace (hd (print_dependencies ds)) \<and> \<not> py_isspace (last (print_dependencies ds))"
    unfolding p by (rule join_ends) (use False e in auto)
  have "LF \<notin> set (print_dependencies ds)"
    using set_join [of "'','' @ [SPC]" ?es] e unfolding p by auto
  then have v: "py_strip (unfold_lines (print_dependencies ds)) = print_dependencies ds"
    using j by (simp add: unfold_lines_id py_strip_id)
  have m: "map py_strip (split_on CHR '','' (print_dependencies ds)) = ?es"
    using split_join_strip [of "[]" "[SPC]" "[]" "CHR '',''" ?es] e st False by (simp add: p)
  have f: "filter (\<lambda>e. e \<noteq> []) ?es = ?es" using e by (simp add: filter_id_conv)
  have "traverse (parse_entry package_name field_name) ?es = Inr ds"
    using ok parse_print_entry by (simp add: traverse_Inr_iff list_all2_conv_all_nth)
  then show ?thesis using j by (simp add: parse_dependency_field_def v m f Let_def)
qed (simp add: print_dependencies_def parse_dependency_field_def py_strip_Nil_iff Let_def)

text \<open>A dependency field reads back: written with its alternatives separated by bars and its
  relations by commas, each name with its version in parentheses, the parser gives the same relations.\<close>

theorem parse_print_dependencies:
  assumes "list_all relation_ok ds"
  shows "parse_dependency_field (print_dependencies ds) package_name field_name = Inr ds"
  by (rule parse_print_dependencies' [OF assms])

theorem parse_print_dependencies_witness:
  "parse_dependency_field ''a (>= 1) | b, libc6'' ''p'' ''Depends'' =
     Inr [DependencyRelation ''a'' (Some ''>= 1'') [DependencyRelation ''b'' None []], DependencyRelation ''libc6'' None []]"
proof -
  let ?ds = "[DependencyRelation ''a'' (Some ''>= 1'') [DependencyRelation ''b'' None []], DependencyRelation ''libc6'' None []]"
  have "list_all relation_ok ?ds" by code_simp
  moreover have "print_dependencies ?ds = ''a (>= 1) | b, libc6''" by code_simp
  ultimately show ?thesis using parse_print_dependencies [of ?ds "''p''" "''Depends''"] by simp
qed

text \<open>The last field of a control file, when it repeats an earlier one, counts only if a blank line
  follows it.\<close>

lemma repeated_last_field:
  "parse_control_text (join [LF] [''A: 1'', ''A: 2'']) = [(''A'', ''1'')] \<and>
   parse_control_text (join [LF] [''A: 1'', ''A: 2'', [], []]) = [(''A'', ''2'')]"
  by code_simp

end
