(* ===== verification/Dep5.thy ===== *)
theory Dep5
  imports Stanza
begin

text \<open>
  Machine-readable copyright files: \<open>dep5_parser.py\<close> and \<open>dep5_printer.py\<close> of
  \<open>src/debcraft/domain/package_intelligence/\<close>, with the documents of \<open>values.py\<close>, and the round trip
  between them.
\<close>

section \<open>Documents\<close>

record dep5_header =
  dh_format_url :: string
  dh_upstream_name :: "string option"
  dh_upstream_contact :: "string option"
  dh_source :: "string option"
  dh_comment :: "string option"
  dh_extra_fields :: "(string, string) dict"

record dep5_files_paragraph =
  df_files :: "string list"
  df_copyright :: string
  df_license_name :: string
  df_license_text :: "string option"
  df_comment :: "string option"
  df_extra_fields :: "(string, string) dict"

record dep5_license_paragraph =
  dl_license_name :: string
  dl_license_text :: string
  dl_comment :: "string option"
  dl_extra_fields :: "(string, string) dict"

record dep5_document =
  dd_header :: dep5_header
  dd_files_paragraphs :: "dep5_files_paragraph list"
  dd_license_paragraphs :: "dep5_license_paragraph list"

text \<open>\<open>DEP5ParseError(message, paragraph_index)\<close>.\<close>

datatype dep5_error = DEP5ParseError string "nat option"

definition dep5_error_str :: "dep5_error \<Rightarrow> string" where
  "dep5_error_str e = (case e of
     DEP5ParseError message None \<Rightarrow> ''Failed to parse DEP-5 document: '' @ message
   | DEP5ParseError message (Some i) \<Rightarrow> ''Failed to parse DEP-5 document at paragraph '' @ nat_str i @ '': '' @ message)"

section \<open>The parser\<close>

text \<open>\<open>_split_paragraphs\<close> has the loop of \<open>split_stanzas\<close> without its guard.\<close>

definition split_paragraphs :: "string \<Rightarrow> string list" where
  "split_paragraphs txt = split_stanzas_loop [] [] (split_on LF txt)"

text \<open>\<open>_parse_fields\<close>: the dictionary, the current field and its lines.\<close>

definition fields_step :: "cont_state \<Rightarrow> string \<Rightarrow> cont_state" where
  "fields_step st line = (case st of (flds, current_field, current_value_lines) \<Rightarrow>
     if is_continuation line then
       (if current_field = None then st
        else (let continuation = drop 1 line in
          (flds, current_field, current_value_lines @ [if continuation = ''.'' then [] else continuation])))
     else if CHR '':'' \<in> set line then
       (save_field st, Some (py_lower (py_strip (before CHR '':'' line))), [py_strip (after CHR '':'' line)])
     else if current_field \<noteq> None then (flds, current_field, current_value_lines @ [line])
     else st)"

definition parse_fields :: "string \<Rightarrow> (string, string) dict" where
  "parse_fields paragraph = save_field (foldl fields_step ([], None, []) (split_on LF paragraph))"

definition extra_of :: "string list \<Rightarrow> (string, string) dict \<Rightarrow> (string, string) dict" where
  "extra_of known_fields flds = filter (\<lambda>(key, _). key \<notin> set known_fields) flds"

definition parse_header :: "(string, string) dict \<Rightarrow> dep5_error + dep5_header" where
  "parse_header flds =
     (case dict_get flds ''format'' of
        None \<Rightarrow> Inl (DEP5ParseError ''Missing required field 'Format' in header paragraph'' (Some 0))
      | Some format_url \<Rightarrow> Inr
          \<lparr>dh_format_url = format_url, dh_upstream_name = dict_get flds ''upstream-name'',
           dh_upstream_contact = dict_get flds ''upstream-contact'', dh_source = dict_get flds ''source'',
           dh_comment = dict_get flds ''comment'',
           dh_extra_fields = extra_of [''format'', ''upstream-name'', ''upstream-contact'', ''source'', ''comment''] flds\<rparr>)"

definition missing_field :: "string \<Rightarrow> nat \<Rightarrow> dep5_error" where
  "missing_field display paragraph_index =
     DEP5ParseError (''Missing required field '' @ [CHR 0x27] @ display @ [CHR 0x27] @ '' in Files paragraph'') (Some paragraph_index)"

definition parse_files_paragraph :: "(string, string) dict \<Rightarrow> nat \<Rightarrow> dep5_error + dep5_files_paragraph" where
  "parse_files_paragraph flds paragraph_index =
     (case dict_get flds ''files'' of None \<Rightarrow> Inl (missing_field ''Files'' paragraph_index)
      | Some files_value \<Rightarrow>
     (case dict_get flds ''copyright'' of None \<Rightarrow> Inl (missing_field ''Copyright'' paragraph_index)
      | Some copyright \<Rightarrow>
     (case dict_get flds ''license'' of None \<Rightarrow> Inl (missing_field ''License'' paragraph_index)
      | Some license_value \<Rightarrow>
          (let license_lines = split_on LF license_value
           in Inr \<lparr>df_files = py_split files_value, df_copyright = copyright, df_license_name = py_strip (hd license_lines),
                df_license_text = (if length license_lines > 1 then Some (join [LF] (tl license_lines)) else None),
                df_comment = dict_get flds ''comment'',
                df_extra_fields = extra_of [''files'', ''copyright'', ''license'', ''comment''] flds\<rparr>))))"

definition parse_license_paragraph :: "(string, string) dict \<Rightarrow> dep5_license_paragraph" where
  "parse_license_paragraph flds =
     (let license_lines = split_on LF (dict_getd flds ''license'' [])
      in \<lparr>dl_license_name = py_strip (hd license_lines),
          dl_license_text = (if length license_lines > 1 then join [LF] (tl license_lines) else []),
          dl_comment = dict_get flds ''comment'',
          dl_extra_fields = extra_of [''license'', ''comment''] flds\<rparr>)"

fun paragraphs_loop ::
  "nat \<Rightarrow> (string, string) dict list \<Rightarrow> dep5_files_paragraph list \<Rightarrow> dep5_license_paragraph list \<Rightarrow>
     dep5_error + dep5_files_paragraph list \<times> dep5_license_paragraph list" where
  "paragraphs_loop idx [] files_paragraphs license_paragraphs = Inr (files_paragraphs, license_paragraphs)"
| "paragraphs_loop idx (flds # paragraphs) files_paragraphs license_paragraphs =
     (if dict_has flds ''files'' then
        (case parse_files_paragraph flds idx of
           Inl e \<Rightarrow> Inl e
         | Inr para \<Rightarrow> paragraphs_loop (idx + 1) paragraphs (files_paragraphs @ [para]) license_paragraphs)
      else if dict_has flds ''license'' then
        paragraphs_loop (idx + 1) paragraphs files_paragraphs (license_paragraphs @ [parse_license_paragraph flds])
      else paragraphs_loop (idx + 1) paragraphs files_paragraphs license_paragraphs)"

definition dep5_parse :: "string \<Rightarrow> dep5_error + dep5_document" where
  "dep5_parse txt =
     (if txt = [] \<or> py_strip txt = [] then Inl (DEP5ParseError ''No content found'' None)
      else
        (let raw_paragraphs = split_paragraphs txt
         in if raw_paragraphs = [] then Inl (DEP5ParseError ''No content found'' None)
            else
              (let paragraphs = map parse_fields raw_paragraphs
               in case parse_header (hd paragraphs) of
                    Inl e \<Rightarrow> Inl e
                  | Inr header \<Rightarrow>
                      (case paragraphs_loop 1 (tl paragraphs) [] [] of
                         Inl e \<Rightarrow> Inl e
                       | Inr (files_paragraphs, license_paragraphs) \<Rightarrow>
                           Inr \<lparr>dd_header = header, dd_files_paragraphs = files_paragraphs,
                                dd_license_paragraphs = license_paragraphs\<rparr>))))"

section \<open>The printer\<close>

definition format_field :: "string \<Rightarrow> string \<Rightarrow> string" where
  "format_field name value =
     (let field_lines = split_on LF value
      in foldl (\<lambda>result continuation. if continuation = [] then result @ '' .'' @ [LF] else result @ '' '' @ continuation @ [LF])
           (name @ '': '' @ hd field_lines @ [LF]) (tl field_lines))"

text \<open>\<open>str.capitalize\<close>: the first character in title case, the others in lower case. The title case
  of the micro sign and of \<open>y\<close> with diaeresis is not a Latin-1 character; they are kept.\<close>

definition title_char :: "char \<Rightarrow> string" where
  "title_char c = (let n = of_char c :: nat in
     if (97 \<le> n \<and> n \<le> 122) \<or> (224 \<le> n \<and> n \<le> 254 \<and> n \<noteq> 247) then [char_of (n - 32)]
     else if n = 223 then ''Ss'' else [c])"

definition capitalize :: "string \<Rightarrow> string" where
  "capitalize s = (case s of [] \<Rightarrow> [] | c # cs \<Rightarrow> title_char c @ py_lower cs)"

definition title_case_field :: "string \<Rightarrow> string" where
  "title_case_field key = join ''-'' (map capitalize (split_on CHR ''-'' key))"

definition format_optional :: "string \<Rightarrow> string option \<Rightarrow> string list" where
  "format_optional name value = (case value of None \<Rightarrow> [] | Some v \<Rightarrow> [format_field name v])"

definition format_extra :: "(string, string) dict \<Rightarrow> string list" where
  "format_extra extra_fields = map (\<lambda>(key, value). format_field (title_case_field key) value) extra_fields"

definition format_header :: "dep5_header \<Rightarrow> string" where
  "format_header header = concat
     ([format_field ''Format'' (dh_format_url header)]
      @ format_optional ''Upstream-Name'' (dh_upstream_name header)
      @ format_optional ''Upstream-Contact'' (dh_upstream_contact header)
      @ format_optional ''Source'' (dh_source header)
      @ format_optional ''Comment'' (dh_comment header)
      @ format_extra (dh_extra_fields header))"

definition format_files_paragraph :: "dep5_files_paragraph \<Rightarrow> string" where
  "format_files_paragraph para = concat
     ([format_field ''Files'' (join '' '' (df_files para)),
       format_field ''Copyright'' (df_copyright para),
       format_field ''License'' (case df_license_text para of
          Some txt \<Rightarrow> df_license_name para @ [LF] @ txt | None \<Rightarrow> df_license_name para)]
      @ format_optional ''Comment'' (df_comment para)
      @ format_extra (df_extra_fields para))"

definition format_license_paragraph :: "dep5_license_paragraph \<Rightarrow> string" where
  "format_license_paragraph para = concat
     ([format_field ''License'' (if dl_license_text para \<noteq> []
          then dl_license_name para @ [LF] @ dl_license_text para else dl_license_name para)]
      @ format_optional ''Comment'' (dl_comment para)
      @ format_extra (dl_extra_fields para))"

definition dep5_print :: "dep5_document \<Rightarrow> string" where
  "dep5_print document = join [LF]
     (format_header (dd_header document)
      # map format_files_paragraph (dd_files_paragraphs document)
      @ map format_license_paragraph (dd_license_paragraphs document))"

section \<open>Paragraphs as lists of printed fields\<close>

text \<open>A paragraph is printed as a list of names and values; \<open>field_lines\<close> are its lines.\<close>

definition dep5_lines :: "string \<times> string \<Rightarrow> string list" where
  "dep5_lines f = (let ls = split_on LF (snd f) in
     (fst f @ '': '' @ hd ls) # map (\<lambda>l. if l = [] then '' .'' else '' '' @ l) (tl ls))"

definition extra_names :: "(string, string) dict \<Rightarrow> (string \<times> string) list" where
  "extra_names extra = map (\<lambda>(k, v). (title_case_field k, v)) extra"

definition header_fields :: "dep5_header \<Rightarrow> (string \<times> string) list" where
  "header_fields h = (''Format'', dh_format_url h) # optional_field ''Upstream-Name'' (dh_upstream_name h)
     @ optional_field ''Upstream-Contact'' (dh_upstream_contact h) @ optional_field ''Source'' (dh_source h)
     @ optional_field ''Comment'' (dh_comment h) @ extra_names (dh_extra_fields h)"

definition files_license :: "dep5_files_paragraph \<Rightarrow> string" where
  "files_license p = (case df_license_text p of Some t \<Rightarrow> df_license_name p @ [LF] @ t | None \<Rightarrow> df_license_name p)"

definition files_fields :: "dep5_files_paragraph \<Rightarrow> (string \<times> string) list" where
  "files_fields p = (''Files'', join '' '' (df_files p)) # (''Copyright'', df_copyright p) # (''License'', files_license p)
     # optional_field ''Comment'' (df_comment p) @ extra_names (df_extra_fields p)"

definition paragraph_license :: "dep5_license_paragraph \<Rightarrow> string" where
  "paragraph_license p = (if dl_license_text p \<noteq> [] then dl_license_name p @ [LF] @ dl_license_text p else dl_license_name p)"

definition license_fields :: "dep5_license_paragraph \<Rightarrow> (string \<times> string) list" where
  "license_fields p = (''License'', paragraph_license p) # optional_field ''Comment'' (dl_comment p) @ extra_names (dl_extra_fields p)"

definition block_of :: "(string \<times> string) list \<Rightarrow> string" where
  "block_of fs = join [LF] (concat (map dep5_lines fs))"

lemma concat_newlines: "ls \<noteq> [] \<Longrightarrow> concat (map (\<lambda>l. l @ [LF]) ls) = join [LF] ls @ [LF]"
  by (induction "[LF]" ls rule: join.induct) auto

lemma dep5_field_lines: "format_field n v = concat (map (\<lambda>l. l @ [LF]) (dep5_lines (n, v)))"
proof -
  have "foldl (\<lambda>result continuation. if continuation = [] then result @ '' .'' @ [LF] else result @ '' '' @ continuation @ [LF]) acc ls
     = acc @ concat (map (\<lambda>l. l @ [LF]) (map (\<lambda>l. if l = [] then '' .'' else '' '' @ l) ls))" for acc ls
    by (induction ls arbitrary: acc) auto
  then show ?thesis by (simp add: format_field_def dep5_lines_def Let_def)
qed

lemma dep5_lines_neq_Nil [simp]: "dep5_lines f \<noteq> []" by (simp add: dep5_lines_def Let_def)

lemma printed_block:
  assumes "fs \<noteq> []"
  shows "concat (map (\<lambda>(n, v). format_field n v) fs) = block_of fs @ [LF]"
proof -
  have e: "concat (map (\<lambda>(n, v). format_field n v) fs) = concat (map (\<lambda>l. l @ [LF]) (concat (map dep5_lines fs)))"
    by (induction fs) (auto simp: dep5_field_lines)
  have "concat (map dep5_lines fs) \<noteq> []" using assms by (cases fs) auto
  then show ?thesis unfolding e block_of_def by (rule concat_newlines)
qed

lemma format_optional_fields: "format_optional n v = map (\<lambda>(n, v). format_field n v) (optional_field n v)"
  by (cases v) (simp_all add: format_optional_def optional_field_def)

lemma format_extra_fields: "format_extra ex = map (\<lambda>(n, v). format_field n v) (extra_names ex)"
  by (auto simp: format_extra_def extra_names_def)

lemma format_header_block: "format_header h = block_of (header_fields h) @ [LF]"
  using printed_block [of "header_fields h"]
  by (simp add: header_fields_def format_header_def format_optional_fields format_extra_fields)

lemma format_files_block: "format_files_paragraph p = block_of (files_fields p) @ [LF]"
  using printed_block [of "files_fields p"]
  by (simp add: files_fields_def format_files_paragraph_def files_license_def format_optional_fields format_extra_fields)

lemma format_license_block: "format_license_paragraph p = block_of (license_fields p) @ [LF]"
  using printed_block [of "license_fields p"]
  by (simp add: license_fields_def format_license_paragraph_def paragraph_license_def format_optional_fields format_extra_fields)

lemma join_blocks: "bs \<noteq> [] \<Longrightarrow> join [LF] (map (\<lambda>b. b @ [LF]) bs) = join [LF, LF] bs @ [LF]"
  by (induction "[LF, LF]" bs rule: join.induct) auto

definition document_fields :: "dep5_document \<Rightarrow> (string \<times> string) list list" where
  "document_fields d = header_fields (dd_header d) # map files_fields (dd_files_paragraphs d)
     @ map license_fields (dd_license_paragraphs d)"

lemma dep5_print_blocks: "dep5_print d = join [LF, LF] (map block_of (document_fields d)) @ [LF]"
proof -
  have "map format_files_paragraph ps = map (\<lambda>b. b @ [LF]) (map block_of (map files_fields ps))"
    "map format_license_paragraph ls = map (\<lambda>b. b @ [LF]) (map block_of (map license_fields ls))" for ps ls
    by (simp_all add: format_files_block format_license_block)
  then have "dep5_print d = join [LF] (map (\<lambda>b. b @ [LF]) (map block_of (document_fields d)))"
    by (simp only: dep5_print_def document_fields_def format_header_block list.map map_append)
  moreover have "map block_of (document_fields d) \<noteq> []" by (simp add: document_fields_def)
  ultimately show ?thesis using join_blocks by metis
qed

section \<open>Reading printed fields\<close>

text \<open>Names and values that survive: a name without colon, line break and blank ends; a value whose
  first line has no blank ends and whose other lines are empty or neither blank nor a lone dot.\<close>

definition name_ok :: "string \<Rightarrow> bool" where
  "name_ok n \<longleftrightarrow> CHR '':'' \<notin> set n \<and> LF \<notin> set n \<and> py_strip n = n"

definition rest_ok :: "string \<Rightarrow> bool" where "rest_ok l \<longleftrightarrow> l = [] \<or> (\<not> blank l \<and> l \<noteq> ''.'')"

definition value_ok :: "string \<Rightarrow> bool" where
  "value_ok v \<longleftrightarrow> py_strip (hd (split_on LF v)) = hd (split_on LF v) \<and> list_all rest_ok (tl (split_on LF v))"

definition field_ok :: "string \<times> string \<Rightarrow> bool" where "field_ok f \<longleftrightarrow> name_ok (fst f) \<and> value_ok (snd f)"

lemma name_start:
  assumes "py_strip n = n"
  shows "\<not> is_continuation (n @ CHR '':'' # s)"
proof (cases n)
  case (Cons c cs)
  then have "\<not> py_isspace c" using py_strip_ends(1) [of n] assms by simp
  then show ?thesis using Cons by (auto simp: is_continuation_def)
qed (simp add: is_continuation_def)

lemma fields_step_conts:
  "list_all rest_ok ls \<Longrightarrow>
     foldl fields_step (d, Some k, vs) (map (\<lambda>l. if l = [] then '' .'' else '' '' @ l) ls) = (d, Some k, vs @ ls)"
  by (induction ls arbitrary: vs) (auto simp: fields_step_def is_continuation_def rest_ok_def)

lemma fields_step_field:
  assumes "field_ok f"
  shows "foldl fields_step st (dep5_lines f) = (save_field st, Some (py_lower (fst f)), split_on LF (snd f))"
proof -
  obtain p ps where ps: "split_on LF (snd f) = p # ps" by (cases "split_on LF (snd f)") auto
  have n: "CHR '':'' \<notin> set (fst f)" "py_strip (fst f) = fst f" "py_strip p = p" "list_all rest_ok ps"
    using assms by (auto simp: field_ok_def name_ok_def value_ok_def ps)
  obtain d k vs where st: "st = (d, k, vs)" by (cases st) auto
  have "fields_step st (fst f @ CHR '':'' # SPC # p) = (save_field st, Some (py_lower (fst f)), [p])"
    using n(1-3) name_start [OF n(2), of "SPC # p"]
    by (simp add: st fields_step_def before_append after_append py_strip_space)
  then show ?thesis using fields_step_conts [OF n(4)] by (simp add: dep5_lines_def ps)
qed

lemma fields_step_fields:
  "list_all field_ok fs \<Longrightarrow> save_field (foldl fields_step st (concat (map dep5_lines fs))) =
     foldl (\<lambda>d (n, v). dict_set d (py_lower n) v) (save_field st) fs"
proof (induction fs arbitrary: st)
  case (Cons f fs)
  have "save_field (save_field st, Some (py_lower (fst f)), split_on LF (snd f)) = dict_set (save_field st) (py_lower (fst f)) (snd f)"
    by (simp add: save_field_def)
  with Cons show ?case by (simp add: fields_step_field split_beta)
qed simp

lemma dep5_lines_ok:
  assumes "field_ok f" and "l \<in> set (dep5_lines f)"
  shows "LF \<notin> set l \<and> \<not> blank l"
proof -
  obtain p ps where ps: "split_on LF (snd f) = p # ps" by (cases "split_on LF (snd f)") auto
  have lf: "LF \<notin> set q" if "q \<in> set (p # ps)" for q using split_on_no_sep [of q LF "snd f"] that ps by simp
  have r: "\<forall>q \<in> set ps. q = [] \<or> \<not> blank q"
    using assms(1) by (auto simp: field_ok_def value_ok_def ps list_all_iff rest_ok_def)
  have "LF \<notin> set (fst f)" using assms(1) by (simp add: field_ok_def name_ok_def)
  then show ?thesis using assms(2) lf r by (auto simp: dep5_lines_def ps py_isspace_def)
qed

lemma block_lines:
  assumes "list_all field_ok fs" and "fs \<noteq> []"
  shows "split_on LF (block_of fs) = concat (map dep5_lines fs)" "is_block (block_of fs)"
proof -
  have "concat (map dep5_lines fs) \<noteq> []" using assms(2) by (cases fs) auto
  then show *: "split_on LF (block_of fs) = concat (map dep5_lines fs)"
    unfolding block_of_def using assms(1) dep5_lines_ok by (intro split_on_join) (auto simp: list_all_iff)
  show "is_block (block_of fs)"
    unfolding is_block_def * using assms(1) dep5_lines_ok by (auto simp: list_all_iff)
qed

lemma parse_fields_block:
  assumes "list_all field_ok fs" and "fs \<noteq> []" and "distinct (map (py_lower \<circ> fst) fs)"
  shows "parse_fields (block_of fs) = map (\<lambda>(n, v). (py_lower n, v)) fs"
  using fields_step_fields [OF assms(1), of "([], None, [])"] dict_set_distinct [of "[]" py_lower fs] assms(3)
  by (simp add: parse_fields_def block_lines [OF assms(1,2)] save_field_def)

interpretation paragraphs: stanza_splitter split_paragraphs
  unfolding split_paragraphs_def [abs_def] by (rule loop_splitter)

section \<open>Printed documents are read back\<close>

definition extra_ok :: "string list \<Rightarrow> (string, string) dict \<Rightarrow> bool" where
  "extra_ok known ex \<longleftrightarrow> distinct (map fst ex) \<and>
     list_all (\<lambda>(k, v). k \<notin> set known \<and> py_lower (title_case_field k) = k \<and> field_ok (title_case_field k, v)) ex"

definition option_ok :: "string option \<Rightarrow> bool" where
  "option_ok v \<longleftrightarrow> (case v of None \<Rightarrow> True | Some x \<Rightarrow> value_ok x)"

definition line_of_name :: "string \<Rightarrow> bool" where "line_of_name n \<longleftrightarrow> LF \<notin> set n \<and> py_strip n = n"

definition header_ok :: "dep5_header \<Rightarrow> bool" where
  "header_ok h \<longleftrightarrow> value_ok (dh_format_url h) \<and> option_ok (dh_upstream_name h) \<and> option_ok (dh_upstream_contact h) \<and>
     option_ok (dh_source h) \<and> option_ok (dh_comment h) \<and>
     extra_ok [''format'', ''upstream-name'', ''upstream-contact'', ''source'', ''comment''] (dh_extra_fields h)"

definition files_ok :: "dep5_files_paragraph \<Rightarrow> bool" where
  "files_ok p \<longleftrightarrow> py_split (join '' '' (df_files p)) = df_files p \<and> value_ok (join '' '' (df_files p)) \<and>
     value_ok (df_copyright p) \<and> value_ok (files_license p) \<and> line_of_name (df_license_name p) \<and> option_ok (df_comment p) \<and>
     extra_ok [''files'', ''copyright'', ''license'', ''comment''] (df_extra_fields p)"

definition license_ok :: "dep5_license_paragraph \<Rightarrow> bool" where
  "license_ok p \<longleftrightarrow> value_ok (paragraph_license p) \<and> line_of_name (dl_license_name p) \<and> option_ok (dl_comment p) \<and>
     extra_ok [''license'', ''comment''] (dl_extra_fields p) \<and> ''files'' \<notin> fst ` set (dl_extra_fields p)"

definition document_ok :: "dep5_document \<Rightarrow> bool" where
  "document_ok d \<longleftrightarrow> header_ok (dd_header d) \<and> list_all files_ok (dd_files_paragraphs d) \<and>
     list_all license_ok (dd_license_paragraphs d)"

lemma known_names:
  "py_lower ''Format'' = ''format''" "py_lower ''Upstream-Name'' = ''upstream-name''"
  "py_lower ''Upstream-Contact'' = ''upstream-contact''" "py_lower ''Source'' = ''source''"
  "py_lower ''Comment'' = ''comment''" "py_lower ''Files'' = ''files''" "py_lower ''Copyright'' = ''copyright''"
  "py_lower ''License'' = ''license''"
  by code_simp+

lemma known_names_ok:
  "list_all name_ok [''Format'', ''Upstream-Name'', ''Upstream-Contact'', ''Source'', ''Comment'', ''Files'', ''Copyright'', ''License'']"
  by code_simp

abbreviation lowered :: "(string \<times> string) list \<Rightarrow> (string, string) dict" where
  "lowered fs \<equiv> map (\<lambda>(n, v). (py_lower n, v)) fs"

lemma lowered_extra: "extra_ok known ex \<Longrightarrow> lowered (extra_names ex) = ex"
  by (induction ex) (auto simp: extra_ok_def extra_names_def)

lemma extra_ok_fields: "extra_ok known ex \<Longrightarrow> list_all field_ok (extra_names ex)"
  by (auto simp: extra_ok_def extra_names_def list_all_iff)

lemma optional_ok: "option_ok v \<Longrightarrow> name_ok n \<Longrightarrow> list_all field_ok (optional_field n v)"
  by (auto simp: optional_field_def option_ok_def field_ok_def split: option.splits)

lemma lowered_optional: "lowered (optional_field n v) = optional_field (py_lower n) v"
  by (auto simp: optional_field_def split: option.splits)

lemma get_extra: "extra_ok known ex \<Longrightarrow> k \<in> set known \<Longrightarrow> dict_get ex k = None"
  by (auto simp: extra_ok_def list_all_iff map_of_eq_None_iff)

lemma extra_of_append: "extra_of known (a @ b) = extra_of known a @ extra_of known b"
  by (simp add: extra_of_def)

lemma extra_of_known: "n \<in> set known \<Longrightarrow> extra_of known ((n, v) # r) = extra_of known r"
  "n \<in> set known \<Longrightarrow> extra_of known (optional_field n w) = []"
  by (auto simp: extra_of_def optional_field_def split: option.splits)

lemma extra_of_extra: "extra_ok known ex \<Longrightarrow> extra_of known ex = ex"
  by (auto simp: extra_of_def extra_ok_def list_all_iff filter_id_conv)

lemma lowered_keys: "map (py_lower \<circ> fst) fs = map fst (lowered fs)" by (induction fs) auto

lemmas lowered_fields = header_fields_def files_fields_def license_fields_def known_names lowered_optional

lemma lowered_header:
  "header_ok h \<Longrightarrow> lowered (header_fields h) = (''format'', dh_format_url h) # optional_field ''upstream-name'' (dh_upstream_name h)
     @ optional_field ''upstream-contact'' (dh_upstream_contact h) @ optional_field ''source'' (dh_source h)
     @ optional_field ''comment'' (dh_comment h) @ dh_extra_fields h"
  by (auto simp: lowered_fields header_ok_def intro: lowered_extra)

lemma lowered_files:
  "files_ok p \<Longrightarrow> lowered (files_fields p) = (''files'', join '' '' (df_files p)) # (''copyright'', df_copyright p)
     # (''license'', files_license p) # optional_field ''comment'' (df_comment p) @ df_extra_fields p"
  by (auto simp: lowered_fields files_ok_def intro: lowered_extra)

lemma lowered_license:
  "license_ok p \<Longrightarrow> lowered (license_fields p) = (''license'', paragraph_license p) # optional_field ''comment'' (dl_comment p)
     @ dl_extra_fields p"
  by (auto simp: lowered_fields license_ok_def intro: lowered_extra)

lemma extra_distinct: "extra_ok known ex \<Longrightarrow> distinct (map fst ex) \<and> fst ` set ex \<inter> set known = {}"
  by (auto simp: extra_ok_def list_all_iff)

lemma header_block:
  assumes "header_ok h"
  shows "is_block (block_of (header_fields h))" "parse_header (parse_fields (block_of (header_fields h))) = Inr h"
proof -
  have e: "extra_ok [''format'', ''upstream-name'', ''upstream-contact'', ''source'', ''comment''] (dh_extra_fields h)"
    using assms by (simp add: header_ok_def)
  have ok: "list_all field_ok (header_fields h)"
    using assms known_names_ok extra_ok_fields [OF e] by (simp add: header_ok_def header_fields_def optional_ok) (simp add: field_ok_def)
  have ne: "header_fields h \<noteq> []" by (simp add: header_fields_def)
  have "distinct (map (py_lower \<circ> fst) (header_fields h))"
    unfolding lowered_keys lowered_header [OF assms] using extra_distinct [OF e] by (auto simp: keys_optional)
  then have "parse_fields (block_of (header_fields h)) = lowered (header_fields h)" by (rule parse_fields_block [OF ok ne])
  then show "parse_header (parse_fields (block_of (header_fields h))) = Inr h"
    unfolding lowered_header [OF assms] using get_extra [OF e] extra_of_extra [OF e]
    by (simp add: parse_header_def get_optional extra_of_append extra_of_known)
  show "is_block (block_of (header_fields h))" by (rule block_lines(2) [OF ok ne])
qed

lemma files_block:
  assumes "files_ok p"
  shows "is_block (block_of (files_fields p))" "dict_has (parse_fields (block_of (files_fields p))) ''files''"
    "parse_files_paragraph (parse_fields (block_of (files_fields p))) i = Inr p"
proof -
  have e: "extra_ok [''files'', ''copyright'', ''license'', ''comment''] (df_extra_fields p)" using assms by (simp add: files_ok_def)
  have ok: "list_all field_ok (files_fields p)"
    using assms known_names_ok extra_ok_fields [OF e] by (simp add: files_ok_def files_fields_def optional_ok) (simp add: field_ok_def)
  have ne: "files_fields p \<noteq> []" by (simp add: files_fields_def)
  have "distinct (map (py_lower \<circ> fst) (files_fields p))"
    unfolding lowered_keys lowered_files [OF assms] using extra_distinct [OF e] by (auto simp: keys_optional)
  then have f: "parse_fields (block_of (files_fields p)) = lowered (files_fields p)" by (rule parse_fields_block [OF ok ne])
  then show "dict_has (parse_fields (block_of (files_fields p))) ''files''"
    by (simp add: lowered_files [OF assms] dict_has_def)
  have n: "LF \<notin> set (df_license_name p)" "py_strip (df_license_name p) = df_license_name p"
    using assms by (simp_all add: files_ok_def line_of_name_def)
  have l: "split_on LF (files_license p) =
      (case df_license_text p of None \<Rightarrow> [df_license_name p] | Some t \<Rightarrow> df_license_name p # split_on LF t)"
    using n(1) by (simp add: files_license_def split_on_append_sep split_on_id split: option.splits)
  have x: "1 < length (df_license_name p # split_on LF t)" for t by (cases "split_on LF t") auto
  show "parse_files_paragraph (parse_fields (block_of (files_fields p))) i = Inr p"
    unfolding f lowered_files [OF assms] using get_extra [OF e] extra_of_extra [OF e] n(2) x assms
    by (cases "df_license_text p")
       (simp_all add: parse_files_paragraph_def get_optional extra_of_append extra_of_known l Let_def files_ok_def)
  show "is_block (block_of (files_fields p))" by (rule block_lines(2) [OF ok ne])
qed

lemma license_block:
  assumes "license_ok p"
  shows "is_block (block_of (license_fields p))" "\<not> dict_has (parse_fields (block_of (license_fields p))) ''files''"
    "dict_has (parse_fields (block_of (license_fields p))) ''license''"
    "parse_license_paragraph (parse_fields (block_of (license_fields p))) = p"
proof -
  have e: "extra_ok [''license'', ''comment''] (dl_extra_fields p)" using assms by (simp add: license_ok_def)
  have ok: "list_all field_ok (license_fields p)"
    using assms known_names_ok extra_ok_fields [OF e] by (simp add: license_ok_def license_fields_def optional_ok) (simp add: field_ok_def)
  have ne: "license_fields p \<noteq> []" by (simp add: license_fields_def)
  have "distinct (map (py_lower \<circ> fst) (license_fields p))"
    unfolding lowered_keys lowered_license [OF assms] using extra_distinct [OF e] by (auto simp: keys_optional)
  then have f: "parse_fields (block_of (license_fields p)) = lowered (license_fields p)" by (rule parse_fields_block [OF ok ne])
  then show "\<not> dict_has (parse_fields (block_of (license_fields p))) ''files''"
    "dict_has (parse_fields (block_of (license_fields p))) ''license''"
    using assms by (auto simp: lowered_license [OF assms] dict_has_def license_ok_def keys_optional
        simp flip: set_map split: if_splits)
  have n: "LF \<notin> set (dl_license_name p)" "py_strip (dl_license_name p) = dl_license_name p"
    using assms by (simp_all add: license_ok_def line_of_name_def)
  have l: "split_on LF (paragraph_license p) =
      (if dl_license_text p = [] then [dl_license_name p] else dl_license_name p # split_on LF (dl_license_text p))"
    using n(1) by (simp add: paragraph_license_def split_on_append_sep split_on_id)
  have x: "1 < length (dl_license_name p # split_on LF t)" for t by (cases "split_on LF t") auto
  show "parse_license_paragraph (parse_fields (block_of (license_fields p))) = p"
    unfolding f lowered_license [OF assms] using get_extra [OF e] extra_of_extra [OF e] n(2) x
    by (simp add: parse_license_paragraph_def dict_getd_def get_optional extra_of_append extra_of_known l Let_def)
  show "is_block (block_of (license_fields p))" by (rule block_lines(2) [OF ok ne])
qed

lemma paragraphs_loop_files:
  "list_all files_ok ps \<Longrightarrow>
     paragraphs_loop i (map (\<lambda>p. parse_fields (block_of (files_fields p))) ps @ rest) fps lps =
     paragraphs_loop (i + length ps) rest (fps @ ps) lps"
  by (induction ps arbitrary: i fps) (auto simp: files_block)

lemma paragraphs_loop_licenses:
  "list_all license_ok ps \<Longrightarrow>
     paragraphs_loop i (map (\<lambda>p. parse_fields (block_of (license_fields p))) ps) fps lps = Inr (fps, lps @ ps)"
  by (induction ps arbitrary: i lps) (auto simp: license_block)

lemma dep5_print_parse:
  assumes "document_ok d"
  shows "dep5_parse (dep5_print d) = Inr d"
proof -
  have ok: "header_ok (dd_header d)" "list_all files_ok (dd_files_paragraphs d)" "list_all license_ok (dd_license_paragraphs d)"
    using assms by (simp_all add: document_ok_def)
  have b: "is_block b" if "b \<in> set (map block_of (document_fields d))" for b
    using that ok header_block(1) files_block(1) license_block(1) by (auto simp: document_fields_def list_all_iff)
  then have s: "split_paragraphs (dep5_print d) = map block_of (document_fields d)"
    using paragraphs.split_join [of "map block_of (document_fields d)"] filter_blocks [of "map block_of (document_fields d)"]
    by (simp only: dep5_print_blocks paragraphs.split_final_newline) simp
  have nb: "py_strip (dep5_print d) \<noteq> []"
    using paragraphs.split_blank [of "dep5_print d"] s by (auto simp: py_strip_Nil_iff document_fields_def)
  then have "dep5_print d \<noteq> []" by auto
  then show ?thesis
    unfolding dep5_parse_def s Let_def using nb header_block(2) [OF ok(1)] paragraphs_loop_files [OF ok(2)]
      paragraphs_loop_licenses [OF ok(3)]
    by (simp add: document_fields_def o_def)
qed

section \<open>Parsed documents are printable\<close>

text \<open>Texts for which the printer loses nothing: ASCII characters, so that the case of a field name is
  recovered, and no line that is a lone dot, which the parser takes as text and the printer writes like
  an empty line.\<close>

definition ascii :: "string \<Rightarrow> bool" where "ascii s \<longleftrightarrow> list_all (\<lambda>c. (of_char c :: nat) < 128) s"

definition printable :: "string \<Rightarrow> bool" where
  "printable txt \<longleftrightarrow> ascii txt \<and> ''.'' \<notin> set (split_on LF txt)"

definition key_ok :: "string \<Rightarrow> bool" where
  "key_ok k \<longleftrightarrow> ascii k \<and> CHR '':'' \<notin> set k \<and> LF \<notin> set k \<and> py_strip k = k \<and> py_lower k = k"

lemma of_char_less: "(of_char c :: nat) < 256"
  using of_char_mod_256 [of c] by (metis mod_less_divisor zero_less_numeral)

lemma py_isspace_of_char:
  "py_isspace c \<longleftrightarrow> (of_char c :: nat) \<in> {9, 10, 11, 12, 13, 28, 29, 30, 31, 32, 133, 160}"
proof -
  have "c = d \<longleftrightarrow> (of_char c :: nat) = of_char d" for d by (metis char_of_char)
  then have "py_isspace c \<longleftrightarrow> (of_char c :: nat) \<in> of_char ` {CHR 0x09, CHR 0x0A, CHR 0x0B, CHR 0x0C, CHR 0x0D, CHR 0x1C,
     CHR 0x1D, CHR 0x1E, CHR 0x1F, CHR 0x20, CHR 0x85, CHR 0xA0}"
    by (simp only: py_isspace_def image_insert image_empty insert_iff empty_iff)
  then show ?thesis by simp
qed

lemma of_char_lower:
  "(of_char (py_lower_char c) :: nat) = (let n = of_char c :: nat in
     if (65 \<le> n \<and> n \<le> 90) \<or> (192 \<le> n \<and> n \<le> 222 \<and> n \<noteq> 215) then n + 32 else n)"
  using of_char_less [of c] by (simp add: py_lower_char_def Let_def)

lemma py_isspace_lower [simp]: "py_isspace (py_lower_char c) = py_isspace c"
  by (auto simp: py_isspace_of_char of_char_lower Let_def)

lemma py_lower_char_idem: "py_lower_char (py_lower_char c) = py_lower_char c"
proof -
  have "(of_char (py_lower_char (py_lower_char c)) :: nat) = of_char (py_lower_char c)"
    by (auto simp: of_char_lower Let_def)
  then show ?thesis by (metis char_of_char)
qed

lemma py_lower_idem [simp]: "py_lower (py_lower s) = py_lower s"
  by (simp add: py_lower_def py_lower_char_idem)

lemma py_lower_char_eq:
  "(of_char d :: nat) \<in> {10, 45, 58} \<Longrightarrow> py_lower_char c = d \<longleftrightarrow> c = d"
proof -
  assume d: "(of_char d :: nat) \<in> {10, 45, 58}"
  have "py_lower_char c = d \<longleftrightarrow> (of_char (py_lower_char c) :: nat) = of_char d" by (metis char_of_char)
  also have "\<dots> \<longleftrightarrow> (of_char c :: nat) = of_char d" using d by (auto simp: of_char_lower Let_def)
  also have "\<dots> \<longleftrightarrow> c = d" by (metis char_of_char)
  finally show ?thesis .
qed

lemma in_py_lower: "(of_char d :: nat) \<in> {10, 45, 58} \<Longrightarrow> d \<in> set (py_lower s) \<longleftrightarrow> d \<in> set s"
proof -
  assume "(of_char d :: nat) \<in> {10, 45, 58}"
  then have c: "py_lower_char c = d \<longleftrightarrow> c = d" for c by (rule py_lower_char_eq)
  have "d \<in> set (py_lower s) \<longleftrightarrow> (\<exists>c \<in> set s. py_lower_char c = d)" by (auto simp: py_lower_def)
  then show ?thesis by (simp add: c)
qed

lemma py_strip_lower:
  assumes "py_strip s = s"
  shows "py_strip (py_lower s) = py_lower s"
proof (cases "s = []")
  case False
  then have "\<not> py_isspace (hd s)" "\<not> py_isspace (last s)" using py_strip_ends [of s] assms by auto
  then show ?thesis using False by (intro py_strip_id) (simp add: py_lower_def hd_map last_map)
qed (simp add: py_lower_def)

lemma strip_of_lower: "py_strip (py_lower n) = py_lower n \<Longrightarrow> py_strip n = n"
proof (cases "n = []")
  case False
  assume "py_strip (py_lower n) = py_lower n"
  then have "\<not> py_isspace (hd n)" "\<not> py_isspace (last n)"
    using py_strip_ends [of "py_lower n"] False by (simp_all add: py_lower_def hd_map last_map)
  then show ?thesis by (intro py_strip_id) simp
qed simp

lemma ascii_capitalize:
  assumes "ascii w"
  shows "py_lower (capitalize w) = py_lower w"
proof (cases w)
  case (Cons c cs)
  have "(of_char c :: nat) < 128" using assms Cons by (simp add: ascii_def)
  then have "map py_lower_char (title_char c) = [py_lower_char c]"
    by (auto simp: title_char_def Let_def py_lower_char_def)
  then show ?thesis by (simp add: Cons capitalize_def py_lower_def py_lower_char_idem)
qed (simp add: capitalize_def)

lemma py_lower_join: "py_lower (join sep xs) = join (py_lower sep) (map py_lower xs)"
  by (induction sep xs rule: join.induct) (auto simp: py_lower_def)

lemma title_case_lower:
  assumes "ascii k" and "py_lower k = k"
  shows "py_lower (title_case_field k) = k"
proof -
  have c: "py_lower_char c = c" if "c \<in> set k" for c
    using assms(2) that by (simp add: py_lower_def map_idI) (metis assms(2) map_eq_conv list.map_ident py_lower_def)
  have "py_lower (capitalize w) = w" if "w \<in> set (split_on CHR ''-'' k)" for w
  proof -
    have "set w \<subseteq> set k" by (rule split_on_subset [OF that])
    then have "ascii w" "py_lower w = w"
      using assms(1) c by (auto simp: ascii_def list_all_iff py_lower_def intro!: map_idI)
    then show ?thesis by (simp add: ascii_capitalize)
  qed
  then have "map py_lower (map capitalize (split_on CHR ''-'' k)) = split_on CHR ''-'' k"
    by (simp add: map_idI)
  moreover have "py_lower ''-'' = ''-''" by code_simp
  ultimately show ?thesis by (simp only: title_case_field_def py_lower_join join_split_on)
qed

lemma key_ok_title:
  assumes "key_ok k"
  shows "py_lower (title_case_field k) = k" "name_ok (title_case_field k)"
proof -
  show l: "py_lower (title_case_field k) = k"
    using assms by (simp add: key_ok_def title_case_lower)
  have "py_strip (title_case_field k) = title_case_field k"
    by (rule strip_of_lower) (use assms l in \<open>simp add: key_ok_def\<close>)
  moreover have "CHR '':'' \<notin> set (title_case_field k)" "LF \<notin> set (title_case_field k)"
    using in_py_lower [of "CHR '':''" "title_case_field k"] in_py_lower [of LF "title_case_field k"] assms
    by (simp_all add: l key_ok_def)
  ultimately show "name_ok (title_case_field k)" by (simp add: name_ok_def)
qed

text \<open>The invariant of \<open>_parse_fields\<close> over lines of a printable paragraph.\<close>

definition dict_ok :: "(string, string) dict \<Rightarrow> bool" where
  "dict_ok d \<longleftrightarrow> dict_wf d \<and> list_all (\<lambda>(k, v). key_ok k \<and> value_ok v) d"

definition lines_ok :: "string list \<Rightarrow> bool" where
  "lines_ok vs \<longleftrightarrow> vs \<noteq> [] \<and> list_all (\<lambda>l. LF \<notin> set l) vs \<and> py_strip (hd vs) = hd vs \<and> list_all rest_ok (tl vs)"

definition state_ok :: "cont_state \<Rightarrow> bool" where
  "state_ok st \<longleftrightarrow> (case st of (d, k, vs) \<Rightarrow> dict_ok d \<and> (case k of None \<Rightarrow> True | Some k \<Rightarrow> key_ok k \<and> lines_ok vs))"

definition text_line :: "string \<Rightarrow> bool" where
  "text_line l \<longleftrightarrow> ascii l \<and> LF \<notin> set l \<and> \<not> blank l \<and> l \<noteq> ''.''"

lemma dict_set_all: "list_all P d \<Longrightarrow> P (k, v) \<Longrightarrow> list_all P (dict_set d k v)"
  by (induction d k v rule: dict_set.induct) auto

lemma lines_ok_value: "lines_ok vs \<Longrightarrow> value_ok (join [LF] vs)"
  by (simp add: lines_ok_def value_ok_def list_all_iff split_on_join)

lemma save_field_ok: "state_ok st \<Longrightarrow> dict_ok (save_field st)"
  by (auto simp: state_ok_def save_field_def dict_ok_def dict_wf_set dict_set_all lines_ok_value split: prod.splits option.splits)

lemma lines_ok_snoc: "lines_ok vs \<Longrightarrow> LF \<notin> set l \<Longrightarrow> rest_ok l \<Longrightarrow> lines_ok (vs @ [l])"
  by (auto simp: lines_ok_def)

lemma fields_step_ok:
  assumes "state_ok st" and "text_line l"
  shows "state_ok (fields_step st l)"
proof -
  obtain d k vs where st: "st = (d, k, vs)" by (cases st) auto
  consider (cont) "is_continuation l" | (field) "\<not> is_continuation l" "CHR '':'' \<in> set l"
    | (other) "\<not> is_continuation l" "CHR '':'' \<notin> set l" by blast
  then show ?thesis
  proof cases
    case cont
    then obtain c l' where l: "l = c # l'" "py_isspace c" by (cases l) (auto simp: is_continuation_def)
    then have "\<not> blank l'" "LF \<notin> set l'" using assms(2) by (simp_all add: text_line_def)
    then show ?thesis using assms(1) cont l
      by (auto simp: st fields_step_def state_ok_def rest_ok_def intro!: lines_ok_snoc split: option.splits)
  next
    case field
    have sub: "set (before CHR '':'' l) \<subseteq> set l" "set (after CHR '':'' l) \<subseteq> set l"
      using before_after [OF field(2)] by (metis Un_upper1 set_append, metis set_append set_subset_Cons Un_upper2 subset_trans)
    let ?n = "py_strip (before CHR '':'' l)"
    have n: "set ?n \<subseteq> set l" "CHR '':'' \<notin> set ?n" "set (py_strip (after CHR '':'' l)) \<subseteq> set l"
      using sub set_py_strip [of "before CHR '':'' l"] set_py_strip [of "after CHR '':'' l"] before_not_in [of "CHR '':''" l] by blast+
    have a: "ascii (py_lower ?n)"
      using n(1) assms(2) by (auto simp: ascii_def list_all_iff py_lower_def of_char_lower text_line_def Let_def dest!: subsetD)
    have "key_ok (py_lower ?n)"
      using n a assms(2) by (auto simp: key_ok_def in_py_lower py_strip_lower text_line_def)
    moreover have "lines_ok [py_strip (after CHR '':'' l)]"
      using n assms(2) by (auto simp: lines_ok_def text_line_def)
    ultimately show ?thesis using field save_field_ok [OF assms(1)] by (simp add: st fields_step_def state_ok_def)
  next
    case other
    then show ?thesis using assms
      by (auto simp: st fields_step_def state_ok_def rest_ok_def text_line_def intro!: lines_ok_snoc split: option.splits)
  qed
qed

lemma parse_fields_ok:
  assumes "list_all text_line (split_on LF b)"
  shows "dict_ok (parse_fields b)"
proof -
  have "state_ok st \<Longrightarrow> list_all text_line ls \<Longrightarrow> state_ok (foldl fields_step st ls)" for st ls
    by (induction ls arbitrary: st) (auto simp: fields_step_ok)
  then have "state_ok (foldl fields_step ([], None, []) (split_on LF b))"
    using assms by (auto simp: state_ok_def dict_ok_def)
  then show ?thesis unfolding parse_fields_def by (rule save_field_ok)
qed

lemma dict_ok_get: "dict_ok d \<Longrightarrow> dict_get d k = Some v \<Longrightarrow> value_ok v"
  by (auto simp: dict_ok_def list_all_iff dest!: map_of_SomeD)

lemma dict_ok_option: "dict_ok d \<Longrightarrow> option_ok (dict_get d k)"
  by (auto simp: option_ok_def dict_ok_get split: option.splits)

lemma dict_ok_extra: "dict_ok d \<Longrightarrow> extra_ok known (extra_of known d)"
  by (auto simp: extra_ok_def extra_of_def dict_ok_def dict_wf_def list_all_iff field_ok_def key_ok_title
      distinct_map_filter)

lemma value_ok_line: "value_ok v \<Longrightarrow> line_of_name (hd (split_on LF v))"
  using split_on_no_sep [of "hd (split_on LF v)" LF v] by (simp add: value_ok_def line_of_name_def)

lemma split_on_single: "\<not> Suc 0 < length (split_on c s) \<Longrightarrow> split_on c s = [s]"
  using join_split_on [of c s] by (cases "split_on c s") auto

lemma split_on_more: "Suc 0 < length (split_on c s) \<Longrightarrow> hd (split_on c s) @ c # join [c] (tl (split_on c s)) = s"
  using join_split_on [of c s] by (cases "split_on c s") (auto simp: join_Cons)

lemma words_value: "value_ok (join '' '' (py_split v))"
proof (cases "py_split v = []")
  case False
  let ?j = "join '' '' (py_split v)"
  have w: "w \<noteq> [] \<and> (\<forall>c \<in> set w. \<not> py_isspace c)" if "w \<in> set (py_split v)" for w
    using py_split_words [OF that] by blast
  have "LF \<notin> set ?j"
    using set_join [of "'' ''" "py_split v"] w by (fastforce simp: py_isspace_def)
  moreover have "ws \<noteq> [] \<Longrightarrow> (\<And>w. w \<in> set ws \<Longrightarrow> w \<noteq> [] \<and> (\<forall>c \<in> set w. \<not> py_isspace c)) \<Longrightarrow>
      join '' '' ws \<noteq> [] \<and> \<not> py_isspace (hd (join '' '' ws)) \<and> \<not> py_isspace (last (join '' '' ws))" for ws
  proof (induction "'' ''" ws rule: join.induct)
    case (3 x y ys)
    have "x \<noteq> []" "\<not> py_isspace (hd x)" using 3(3) [of x] by simp_all
    moreover have "join '' '' (y # ys) \<noteq> [] \<and> \<not> py_isspace (hd (join '' '' (y # ys))) \<and> \<not> py_isspace (last (join '' '' (y # ys)))"
      by (rule 3(1)) (use 3(3) in auto)
    ultimately show ?case by (simp add: hd_append)
  qed simp_all
  then have "py_strip ?j = ?j" using w False by (intro py_strip_id) blast
  ultimately show ?thesis by (simp add: value_ok_def split_on_id)
qed (simp add: value_ok_def)

lemma parse_header_ok: "dict_ok d \<Longrightarrow> parse_header d = Inr h \<Longrightarrow> header_ok h"
  by (auto simp: parse_header_def header_ok_def dict_ok_get dict_ok_option dict_ok_extra split: option.splits)

lemma parse_files_ok:
  assumes "dict_ok d" and "parse_files_paragraph d i = Inr p"
  shows "files_ok p"
proof -
  obtain f c l where g: "dict_get d ''files'' = Some f" "dict_get d ''copyright'' = Some c" "dict_get d ''license'' = Some l"
    using assms(2) by (auto simp: parse_files_paragraph_def split: option.splits)
  have l: "line_of_name (hd (split_on LF l))" "value_ok l"
    using value_ok_line dict_ok_get [OF assms(1) g(3)] by auto
  then have s: "py_strip (hd (split_on LF l)) = hd (split_on LF l)" by (simp add: line_of_name_def)
  have "py_split (join '' '' (py_split f)) = py_split f"
    by (rule py_split_join) (use py_split_words in blast)
  then show ?thesis
    using assms(2) l s dict_ok_option [OF assms(1)] dict_ok_extra [OF assms(1)] dict_ok_get [OF assms(1) g(2)] words_value
      split_on_single [of LF l] split_on_more [of LF l]
    by (auto simp: parse_files_paragraph_def g files_ok_def files_license_def Let_def)
qed

lemma parse_license_ok:
  assumes "dict_ok d" and "dict_get d ''license'' = Some l" and "dict_get d ''files'' = None"
  shows "license_ok (parse_license_paragraph d)"
proof -
  have l: "line_of_name (hd (split_on LF l))" "value_ok l"
    using value_ok_line dict_ok_get [OF assms(1,2)] by auto
  then have s: "py_strip (hd (split_on LF l)) = hd (split_on LF l)" by (simp add: line_of_name_def)
  have n: "value_ok (hd (split_on LF l))" using l(1) by (simp add: line_of_name_def value_ok_def split_on_id)
  have "''files'' \<notin> fst ` set (extra_of [''license'', ''comment''] d)"
    using assms(3) by (auto simp: extra_of_def map_of_eq_None_iff image_iff)
  then show ?thesis
    using l s n dict_ok_option [OF assms(1)] dict_ok_extra [OF assms(1)] split_on_single [of LF l] split_on_more [of LF l]
    by (auto simp: parse_license_paragraph_def assms(2) license_ok_def paragraph_license_def Let_def dict_getd_def)
qed

lemma paragraphs_loop_ok:
  "paragraphs_loop i ds fps lps = Inr (fps', lps') \<Longrightarrow> list_all dict_ok ds \<Longrightarrow> list_all files_ok fps \<Longrightarrow> list_all license_ok lps \<Longrightarrow>
     list_all files_ok fps' \<and> list_all license_ok lps'"
proof (induction i ds fps lps rule: paragraphs_loop.induct)
  case (2 i d ds fps lps)
  show ?case
  proof (cases "dict_has d ''files''")
    case True
    then obtain p where "parse_files_paragraph d i = Inr p"
      using "2.prems"(1) by (auto split: sum.splits)
    moreover from this have "files_ok p" by (rule parse_files_ok [rotated]) (use "2.prems"(2) in simp)
    ultimately show ?thesis using True "2.prems" "2.IH"(1) by simp
  next
    case False
    then show ?thesis
      using "2.prems" "2.IH"(2,3) parse_license_ok by (cases "dict_get d ''license''") (auto simp: dict_has_iff)
  qed
qed simp

lemma split_paragraphs_lines:
  assumes "printable txt" and "b \<in> set (split_paragraphs txt)"
  shows "list_all text_line (split_on LF b)"
proof -
  have loop: "b \<in> set (split_stanzas_loop [] cur ls) \<Longrightarrow> (\<And>l. l \<in> set (cur @ ls) \<Longrightarrow> ascii l \<and> LF \<notin> set l \<and> l \<noteq> ''.'') \<Longrightarrow>
      list_all (\<lambda>l. \<not> blank l) cur \<Longrightarrow> list_all text_line (split_on LF b)" for cur ls
  proof (induction ls arbitrary: cur)
    case Nil
    then show ?case by (auto simp: split_on_join list_all_iff text_line_def split: if_splits)
  next
    case (Cons l ls)
    show ?case
    proof (cases "blank l")
      case False
      then show ?thesis using Cons.prems Cons.IH [of "cur @ [l]"] by (simp add: py_strip_Nil_iff)
    next
      case True
      show ?thesis
      proof (cases "cur = []")
        case False
        then have "b = join [LF] cur \<or> b \<in> set (split_stanzas_loop [] [] ls)"
          using Cons.prems(1) True split_loop_acc [of "[join [LF] cur]" "[]" ls] by (auto simp: py_strip_Nil_iff)
        moreover have "list_all text_line (split_on LF (join [LF] cur))"
          using Cons.prems(2,3) False by (auto simp: split_on_join list_all_iff text_line_def)
        ultimately show ?thesis using Cons.IH [of "[]"] Cons.prems(2) by auto
      next
        case True
        then show ?thesis using Cons.IH [of "[]"] Cons.prems \<open>blank l\<close> by (simp add: py_strip_Nil_iff)
      qed
    qed
  qed
  show ?thesis
    using loop [of "[]" "split_on LF txt"] assms split_on_no_sep [of _ LF "txt"] split_on_subset [of _ LF "txt"]
    by (auto simp: split_paragraphs_def printable_def ascii_def list_all_iff)
qed

lemma dep5_parse_ok:
  assumes "printable txt" and "dep5_parse txt = Inr d"
  shows "document_ok d"
proof -
  obtain r rs where r: "split_paragraphs txt = r # rs"
    using assms(2) by (cases "split_paragraphs txt") (auto simp: dep5_parse_def split: if_splits)
  obtain h fps lps where p: "parse_header (parse_fields r) = Inr h" "paragraphs_loop 1 (map parse_fields rs) [] [] = Inr (fps, lps)"
      "d = \<lparr>dd_header = h, dd_files_paragraphs = fps, dd_license_paragraphs = lps\<rparr>"
    using assms(2) by (auto simp: dep5_parse_def r split: if_splits sum.splits)
  have ok: "dict_ok (parse_fields b)" if "b \<in> set (split_paragraphs txt)" for b
    by (rule parse_fields_ok) (rule split_paragraphs_lines [OF assms(1) that])
  then have "dict_ok (parse_fields r)" "list_all dict_ok (map parse_fields rs)" by (simp_all add: r list_all_iff)
  then show ?thesis
    using parse_header_ok p paragraphs_loop_ok [OF p(2)] by (auto simp: document_ok_def)
qed


definition example_copyright :: string where
  "example_copyright = join [LF] [''Format: f'', ''X-y:  z'', [], ''Files: a  b'', ''Copyright: c'', ''License: MIT'', '' t'', '' .'', '' u'', [], ''License: G'']"


text \<open>A lone dot in the first column is text to the parser and comes back as an empty line
  from the printer.\<close>

lemma dep5_lone_dot_lost:
  "map_sum id dh_comment (map_sum id dd_header (dep5_parse (join [LF] [''Format: f'', ''Comment: c'', ''.'']))) = Inr (Some (''c'' @ [LF] @ ''.'')) \<and>
   (case dep5_parse (join [LF] [''Format: f'', ''Comment: c'', ''.'']) of
      Inr d \<Rightarrow> map_sum id dh_comment (map_sum id dd_header (dep5_parse (dep5_print d))) = Inr (Some (''c'' @ [LF])) | Inl _ \<Rightarrow> False)"
  by code_simp

end
