(* ===== verification/Spdx_Tokens.thy ===== *)
theory Spdx_Tokens
  imports Py_Data
begin

text \<open>
  The SPDX tokenizer of \<open>src/debcraft/domain/package_intelligence/spdx_tokenizer.py\<close>, with the
  token types of \<open>values.py\<close> and the errors of \<open>errors.py\<close>. The main loop runs over a position
  in the expression, as in the code; \<open>lex\<close> is a reference lexer over the remaining text, and the
  two agree.
\<close>

section \<open>Tokens and errors\<close>

datatype spdx_token_type = T_LICENSE_ID | T_OR_LATER | T_AND | T_OR | T_WITH | T_LPAREN
  | T_RPAREN | T_DOCUMENT_REF | T_LICENSE_REF

record spdx_token =
  tok_type :: spdx_token_type
  tok_value :: string
  tok_offset :: nat

text \<open>The message and the offset, or token position, the exceptions carry.\<close>

datatype spdx_error = SPDXTokenizeError string nat | SPDXParseError string nat

section \<open>The regular expressions\<close>

definition is_ident_char :: "char \<Rightarrow> bool" where
  "is_ident_char c = (let n = of_char c :: nat in
     (65 \<le> n \<and> n \<le> 90) \<or> (97 \<le> n \<and> n \<le> 122) \<or> (48 \<le> n \<and> n \<le> 57) \<or> n = 45 \<or> n = 46)"

text \<open>\<open>_LICENSE_REF_RE\<close> and \<open>_DOCUMENT_REF_RE\<close> matched at the start of a text: the matched
  string. The classes hold no colon, so the greedy match never has to give characters back.\<close>

definition match_license_ref :: "string \<Rightarrow> string option" where
  "match_license_ref s =
     (if startswith (py_lower s) ''licenseref-'' then
        (let body = takeWhile is_ident_char (drop 11 s)
         in if body = [] then None else Some (take 11 s @ body))
      else None)"

definition match_document_ref :: "string \<Rightarrow> string option" where
  "match_document_ref s =
     (if startswith (py_lower s) ''documentref-'' then
        (let body = takeWhile is_ident_char (drop 12 s); rest = dropWhile is_ident_char (drop 12 s)
         in if body \<noteq> [] \<and> startswith rest '':'' then
              (case match_license_ref (drop 1 rest) of None \<Rightarrow> None
               | Some v \<Rightarrow> Some (take 12 s @ body @ '':'' @ v))
            else None)
      else None)"

section \<open>The tokenizer\<close>

definition try_document_ref ::
  "string \<Rightarrow> nat \<Rightarrow> spdx_token list \<Rightarrow> (nat \<times> spdx_token list) option" where
  "try_document_ref expression pos tokens =
     (case match_document_ref (drop pos expression) of None \<Rightarrow> None
      | Some v \<Rightarrow> Some (pos + length v,
          tokens @ [\<lparr>tok_type = T_DOCUMENT_REF, tok_value = v, tok_offset = pos\<rparr>]))"

definition try_license_ref ::
  "string \<Rightarrow> nat \<Rightarrow> spdx_token list \<Rightarrow> (nat \<times> spdx_token list) option" where
  "try_license_ref expression pos tokens =
     (case match_license_ref (drop pos expression) of None \<Rightarrow> None
      | Some v \<Rightarrow> Some (pos + length v,
          tokens @ [\<lparr>tok_type = T_LICENSE_REF, tok_value = v, tok_offset = pos\<rparr>]))"

definition consume_identifier ::
  "string \<Rightarrow> nat \<Rightarrow> spdx_token list \<Rightarrow> nat \<times> spdx_token list" where
  "consume_identifier expression start tokens =
     (let value = takeWhile is_ident_char (drop start expression);
          pos = start + length value;
          upper_value = map ascii_upper_char value
      in if upper_value = ''AND'' then
           (pos, tokens @ [\<lparr>tok_type = T_AND, tok_value = value, tok_offset = start\<rparr>])
         else if upper_value = ''OR'' then
           (pos, tokens @ [\<lparr>tok_type = T_OR, tok_value = value, tok_offset = start\<rparr>])
         else if upper_value = ''WITH'' then
           (pos, tokens @ [\<lparr>tok_type = T_WITH, tok_value = value, tok_offset = start\<rparr>])
         else if pos < length expression \<and> expression ! pos = CHR ''+'' then
           (pos + 1, tokens @ [\<lparr>tok_type = T_OR_LATER, tok_value = value, tok_offset = start\<rparr>])
         else
           (pos, tokens @ [\<lparr>tok_type = T_LICENSE_ID, tok_value = value, tok_offset = start\<rparr>]))"

lemma match_license_ref_len: "match_license_ref s = Some v \<Longrightarrow> v \<noteq> [] \<and> startswith s v"
proof -
  assume "match_license_ref s = Some v"
  then have v: "v = take 11 s @ takeWhile is_ident_char (drop 11 s)"
    and "takeWhile is_ident_char (drop 11 s) \<noteq> []"
    by (auto simp: match_license_ref_def Let_def split: if_splits)
  moreover have "s = v @ dropWhile is_ident_char (drop 11 s)"
    using v by simp
  ultimately show ?thesis by (metis append_is_Nil_conv startswith_append)
qed

lemma match_document_ref_len: "match_document_ref s = Some v \<Longrightarrow> v \<noteq> [] \<and> startswith s v"
proof -
  assume m: "match_document_ref s = Some v"
  let ?b = "takeWhile is_ident_char (drop 12 s)" and ?r = "dropWhile is_ident_char (drop 12 s)"
  from m obtain w where w: "match_license_ref (drop 1 ?r) = Some w" and v: "v = take 12 s @ ?b @ '':'' @ w"
    and c: "startswith ?r '':''"
    by (auto simp: match_document_ref_def Let_def split: if_splits option.splits)
  obtain t where t: "drop 1 ?r = w @ t" using match_license_ref_len [OF w] by (auto simp: startswith_iff)
  have "s = take 12 s @ ?b @ ?r" by simp
  also have "?r = '':'' @ w @ t" using c t by (cases ?r) auto
  finally have "s = v @ t" by (simp add: v)
  then show ?thesis using v by (metis append_is_Nil_conv list.discI startswith_append)
qed

text \<open>The loop of \<open>tokenize\<close>: one turn per call, the result is the token list or the exception.\<close>

function tokenize_loop :: "string \<Rightarrow> nat \<Rightarrow> spdx_token list \<Rightarrow> spdx_error + spdx_token list" where
  "tokenize_loop expression pos tokens =
     (if pos < length expression then
        (let char = expression ! pos in
         if char = SPC \<or> char = TAB then tokenize_loop expression (pos + 1) tokens
         else if char = CHR ''('' then tokenize_loop expression (pos + 1)
           (tokens @ [\<lparr>tok_type = T_LPAREN, tok_value = ''('', tok_offset = pos\<rparr>])
         else if char = CHR '')'' then tokenize_loop expression (pos + 1)
           (tokens @ [\<lparr>tok_type = T_RPAREN, tok_value = '')'', tok_offset = pos\<rparr>])
         else (case try_document_ref expression pos tokens of
             Some (new_pos, tokens') \<Rightarrow> tokenize_loop expression new_pos tokens'
           | None \<Rightarrow> (case try_license_ref expression pos tokens of
               Some (new_pos, tokens') \<Rightarrow> tokenize_loop expression new_pos tokens'
             | None \<Rightarrow>
               (if is_ident_char char then
                  (case consume_identifier expression pos tokens of
                     (new_pos, tokens') \<Rightarrow> tokenize_loop expression new_pos tokens')
                else Inl (SPDXTokenizeError (''Invalid character '' @ [CHR 0x27, char, CHR 0x27]) pos)))))
      else Inr tokens)"
  by pat_completeness auto

lemma consume_identifier_pos:
  assumes "pos < length e" and "is_ident_char (e ! pos)" and "consume_identifier e pos ts = (q, ts')"
  shows "pos < q"
proof -
  have "drop pos e = e ! pos # drop (Suc pos) e" using assms(1) by (simp add: Cons_nth_drop_Suc)
  with assms(2) have "takeWhile is_ident_char (drop pos e) \<noteq> []" by simp
  then have "0 < length (takeWhile is_ident_char (drop pos e))" by blast
  with assms(3) show ?thesis by (auto simp: consume_identifier_def Let_def split: if_splits)
qed

lemma try_ref_pos:
  "try_document_ref e pos ts = Some (q, ts') \<Longrightarrow> pos < q"
  "try_license_ref e pos ts = Some (q, ts') \<Longrightarrow> pos < q"
  using match_document_ref_len [of "drop pos e"] match_license_ref_len [of "drop pos e"]
  by (auto simp: try_document_ref_def try_license_ref_def split: option.splits)

lemma measure_step: "pos < length e \<Longrightarrow> pos < q \<Longrightarrow> length e - q < length e - pos"
  by simp

termination tokenize_loop
  by (relation "measure (\<lambda>(e, pos, ts). length e - pos)")
    (auto intro: measure_step dest: try_ref_pos consume_identifier_pos split: prod.splits)

declare tokenize_loop.simps [simp del]

definition tokenize :: "string \<Rightarrow> spdx_error + spdx_token list" where
  "tokenize expression = tokenize_loop expression 0 []"

section \<open>What the tokens are\<close>

text \<open>The text a token stands for, and a token list that covers an expression from a position
  on: the tokens' texts stand at their offsets, from left to right, without overlap, and whatever
  they do not cover is a space or a tab.\<close>

definition tok_text :: "spdx_token \<Rightarrow> string" where
  "tok_text t = tok_value t @ (if tok_type t = T_OR_LATER then ''+'' else [])"

definition gap :: "string \<Rightarrow> nat \<Rightarrow> nat \<Rightarrow> bool" where
  "gap e i j \<longleftrightarrow> (\<forall>k \<in> {i..<j}. e ! k = SPC \<or> e ! k = TAB)"

fun covers :: "string \<Rightarrow> nat \<Rightarrow> spdx_token list \<Rightarrow> bool" where
  "covers e pos [] \<longleftrightarrow> gap e pos (length e)"
| "covers e pos (t # ts) \<longleftrightarrow> pos \<le> tok_offset t \<and> gap e pos (tok_offset t) \<and>
     tok_text t \<noteq> [] \<and> startswith (drop (tok_offset t) e) (tok_text t) \<and>
     covers e (tok_offset t + length (tok_text t)) ts"

lemma gap_step: "gap e (Suc i) j \<Longrightarrow> e ! i = SPC \<or> e ! i = TAB \<Longrightarrow> gap e i j"
  unfolding gap_def by (metis atLeastLessThan_iff le_eq_less_or_eq Suc_leI)

lemma covers_skip: "covers e (Suc pos) ts \<Longrightarrow> e ! pos = SPC \<or> e ! pos = TAB \<Longrightarrow> covers e pos ts"
  by (cases ts) (auto intro: gap_step)

lemma gap_refl [simp]: "gap e i i" by (simp add: gap_def)

lemma covers_token:
  "t = \<lparr>tok_type = ty, tok_value = v, tok_offset = pos\<rparr> \<Longrightarrow> tok_text t \<noteq> [] \<Longrightarrow>
     startswith (drop pos e) (tok_text t) \<Longrightarrow> covers e (pos + length (tok_text t)) ts \<Longrightarrow>
     covers e pos (t # ts)"
  by simp

lemma try_document_ref_SomeD:
  assumes "try_document_ref e pos ts = Some (q, ts')"
  obtains v where "match_document_ref (drop pos e) = Some v" "q = pos + length v"
    "ts' = ts @ [\<lparr>tok_type = T_DOCUMENT_REF, tok_value = v, tok_offset = pos\<rparr>]"
  using assms by (auto simp: try_document_ref_def split: option.splits)

lemma try_license_ref_SomeD:
  assumes "try_license_ref e pos ts = Some (q, ts')"
  obtains v where "match_license_ref (drop pos e) = Some v" "q = pos + length v"
    "ts' = ts @ [\<lparr>tok_type = T_LICENSE_REF, tok_value = v, tok_offset = pos\<rparr>]"
  using assms by (auto simp: try_license_ref_def split: option.splits)

text \<open>The word at the start of a text: the type of its token and the text after it.\<close>

definition word_token :: "string \<Rightarrow> spdx_token_type \<times> string \<times> string" where
  "word_token s = (let v = takeWhile is_ident_char s; r = dropWhile is_ident_char s;
       u = map ascii_upper_char v
     in if u = ''AND'' then (T_AND, v, r)
        else if u = ''OR'' then (T_OR, v, r)
        else if u = ''WITH'' then (T_WITH, v, r)
        else if startswith r ''+'' then (T_OR_LATER, v, drop 1 r)
        else (T_LICENSE_ID, v, r))"

lemma nth_drop_eq: "pos < length e \<Longrightarrow> startswith (drop pos e) [c] \<longleftrightarrow> e ! pos = c"
  by (simp add: Cons_nth_drop_Suc [symmetric])

lemma nth_dropWhile:
  fixes e :: string
  assumes "drop pos e = v @ r"
  shows "pos + length v < length e \<and> e ! (pos + length v) = c \<longleftrightarrow> startswith r [c]"
proof -
  have r: "drop (pos + length v) e = r" using assms by (metis append_eq_conv_conj drop_drop add.commute)
  show ?thesis
  proof (cases "pos + length v < length e")
    case True
    then show ?thesis using nth_drop_eq [OF True, of c] r by simp
  next
    case False
    then show ?thesis using r by (cases r) auto
  qed
qed

lemma consume_identifier_word:
  assumes "consume_identifier e pos ts = (q, ts')"
  obtains ty v r where "word_token (drop pos e) = (ty, v, r)" "drop q e = r"
    "ts' = ts @ [\<lparr>tok_type = ty, tok_value = v, tok_offset = pos\<rparr>]"
    "v = takeWhile is_ident_char (drop pos e)"
    "drop pos e = v @ (if ty = T_OR_LATER then ''+'' else []) @ r"
    "q = pos + length (tok_text \<lparr>tok_type = ty, tok_value = v, tok_offset = pos\<rparr>)"
proof -
  let ?v = "takeWhile is_ident_char (drop pos e)" and ?r = "dropWhile is_ident_char (drop pos e)"
  have e: "drop pos e = ?v @ ?r" by simp
  have r: "drop (pos + length ?v) e = ?r"
    using e by (metis append_eq_conv_conj drop_drop add.commute)
  have r1: "drop (Suc (pos + length ?v)) e = drop 1 ?r"
    using r by (metis drop_drop plus_1_eq_Suc)
  have n: "pos + length ?v < length e \<and> e ! (pos + length ?v) = CHR ''+'' \<longleftrightarrow> startswith ?r ''+''"
    by (rule nth_dropWhile) (rule e)
  have plus: "?r = CHR ''+'' # drop 1 ?r" if "startswith ?r ''+''"
    using that by (cases ?r) auto
  show ?thesis
    using assms n r r1 plus that [of "fst (word_token (drop pos e))" ?v "snd (snd (word_token (drop pos e)))"]
    by (auto simp: consume_identifier_def word_token_def Let_def tok_text_def split: if_splits)
qed

section \<open>A reference lexer\<close>

lemma word_token_shorter:
  assumes "word_token (c # cs) = (ty, v, r)" and "is_ident_char c"
  shows "length r < Suc (length cs)"
proof -
  have "length (dropWhile is_ident_char cs) \<le> length cs" by (rule length_dropWhile_le)
  moreover have "r = dropWhile is_ident_char cs \<or> r = drop 1 (dropWhile is_ident_char cs)"
    using assms by (auto simp: word_token_def Let_def split: if_splits)
  ultimately show ?thesis by auto
qed

function lex :: "string \<Rightarrow> (spdx_token_type \<times> string) list option" where
  "lex [] = Some []"
| "lex (c # cs) =
     (if c = SPC \<or> c = TAB then lex cs
      else if c = CHR ''('' then map_option ((#) (T_LPAREN, ''('')) (lex cs)
      else if c = CHR '')'' then map_option ((#) (T_RPAREN, '')'')) (lex cs)
      else (case match_document_ref (c # cs) of
          Some v \<Rightarrow> map_option ((#) (T_DOCUMENT_REF, v)) (lex (drop (length v) (c # cs)))
        | None \<Rightarrow> (case match_license_ref (c # cs) of
            Some v \<Rightarrow> map_option ((#) (T_LICENSE_REF, v)) (lex (drop (length v) (c # cs)))
          | None \<Rightarrow>
            (if is_ident_char c then
               (case word_token (c # cs) of (ty, v, r) \<Rightarrow> map_option ((#) (ty, v)) (lex r))
             else None))))"
  by pat_completeness auto

lemma ref_nonempty:
  "match_document_ref s = Some v \<Longrightarrow> 0 < length v" "match_license_ref s = Some v \<Longrightarrow> 0 < length v"
  using match_document_ref_len match_license_ref_len by blast+

termination lex
  by (relation "measure length")
    (auto dest: ref_nonempty dest!: word_token_shorter [OF sym])

declare lex.simps(2) [simp del]

text \<open>What a run of the loop from a position is to give: the tokens found after \<open>acc\<close> cover the
  rest of the expression and are those of the reference lexer, or the character at the reported
  offset starts no token and the reference lexer fails.\<close>

definition tok_pair :: "spdx_token \<Rightarrow> spdx_token_type \<times> string" where
  "tok_pair t = (tok_type t, tok_value t)"

definition tokenized :: "string \<Rightarrow> nat \<Rightarrow> spdx_token list \<Rightarrow> spdx_error + spdx_token list \<Rightarrow> bool" where
  "tokenized e pos acc res = (case res of
     Inr ts \<Rightarrow> (\<exists>ts'. ts = acc @ ts' \<and> covers e pos ts' \<and>
        lex (drop pos e) = Some (map tok_pair ts'))
   | Inl err \<Rightarrow> lex (drop pos e) = None \<and> (\<exists>msg k. err = SPDXTokenizeError msg k \<and> pos \<le> k \<and>
        k < length e \<and> \<not> is_ident_char (e ! k) \<and> e ! k \<notin> {SPC, TAB, CHR ''('', CHR '')''}))"

lemma tokenized_token:
  assumes "tokenized e (pos + length (tok_text t)) (acc @ [t]) res"
    and "tok_offset t = pos" and "tok_text t \<noteq> []" and "startswith (drop pos e) (tok_text t)"
    and "lex (drop pos e) = map_option ((#) (tok_pair t)) (lex (drop (pos + length (tok_text t)) e))"
  shows "tokenized e pos acc res"
proof (cases res)
  case (Inl err)
  with assms show ?thesis by (auto simp: tokenized_def)
next
  case (Inr ts)
  with assms(1) obtain ts' where "ts = acc @ t # ts'" and "covers e (pos + length (tok_text t)) ts'"
    and "lex (drop (pos + length (tok_text t)) e) = Some (map tok_pair ts')"
    by (auto simp: tokenized_def)
  with assms show ?thesis
    by (auto simp: tokenized_def Inr intro!: exI [of _ "t # ts'"])
qed

text \<open>One unfolding of the loop and of the lexer at the same position, as rewriting rules for the
  five cases of the loop body.\<close>

lemma lex_at:
  assumes "pos < length e"
  shows "lex (drop pos e) =
     (if e ! pos = SPC \<or> e ! pos = TAB then lex (drop (Suc pos) e)
      else if e ! pos = CHR ''('' then map_option ((#) (T_LPAREN, ''('')) (lex (drop (Suc pos) e))
      else if e ! pos = CHR '')'' then map_option ((#) (T_RPAREN, '')'')) (lex (drop (Suc pos) e))
      else (case match_document_ref (drop pos e) of
          Some v \<Rightarrow> map_option ((#) (T_DOCUMENT_REF, v)) (lex (drop (pos + length v) e))
        | None \<Rightarrow> (case match_license_ref (drop pos e) of
            Some v \<Rightarrow> map_option ((#) (T_LICENSE_REF, v)) (lex (drop (pos + length v) e))
          | None \<Rightarrow>
            (if is_ident_char (e ! pos) then
               (case word_token (drop pos e) of (ty, v, r) \<Rightarrow> map_option ((#) (ty, v)) (lex r))
             else None))))"
proof -
  have d: "e ! pos # drop (Suc pos) e = drop pos e" using assms by (rule Cons_nth_drop_Suc)
  show ?thesis
    using lex.simps(2) [of "e ! pos" "drop (Suc pos) e"] unfolding d drop_drop
    by (simp only: add.commute [of pos])
qed

definition plain_char :: "char \<Rightarrow> bool" where
  "plain_char c \<longleftrightarrow> c \<notin> {SPC, TAB, CHR ''('', CHR '')''}"

lemma loop_skip:
  assumes "pos < length e" and "e ! pos = SPC \<or> e ! pos = TAB"
    and "tokenized e (Suc pos) acc (tokenize_loop e (Suc pos) acc)"
  shows "tokenized e pos acc (tokenize_loop e pos acc)"
proof -
  have "tokenize_loop e pos acc = tokenize_loop e (Suc pos) acc"
    using assms(1,2) by (subst tokenize_loop.simps) auto
  moreover have "lex (drop pos e) = lex (drop (Suc pos) e)"
    using lex_at [OF assms(1)] assms(2) by simp
  ultimately show ?thesis
    using assms(2,3) by (auto simp: tokenized_def intro: covers_skip split: sum.splits)
qed

lemma loop_paren:
  assumes "pos < length e" and "e ! pos = c" and "(c, ty) \<in> {(CHR ''('', T_LPAREN), (CHR '')'', T_RPAREN)}"
    and "t = \<lparr>tok_type = ty, tok_value = [c], tok_offset = pos\<rparr>"
    and "tokenized e (Suc pos) (acc @ [t]) (tokenize_loop e (Suc pos) (acc @ [t]))"
  shows "tokenized e pos acc (tokenize_loop e pos acc)"
proof -
  have run: "tokenize_loop e pos acc = tokenize_loop e (Suc pos) (acc @ [t])"
    using assms(1-4) by (subst tokenize_loop.simps) auto
  have txt_t: "tok_text t = [c]" using assms(3,4) by (auto simp: tok_text_def)
  show ?thesis
  proof (rule tokenized_token [where t = t])
    show "startswith (drop pos e) (tok_text t)"
      using assms(1,2) txt_t by (simp add: nth_drop_eq)
    show "lex (drop pos e) = map_option ((#) (tok_pair t)) (lex (drop (pos + length (tok_text t)) e))"
      using lex_at [OF assms(1)] assms(2-4) txt_t by (auto simp: tok_pair_def)
  qed (use assms txt_t run in simp_all)
qed

lemma loop_ref:
  assumes "pos < length e" and "plain_char (e ! pos)"
    and "match_document_ref (drop pos e) = Some v \<and> ty = T_DOCUMENT_REF \<or>
      match_document_ref (drop pos e) = None \<and> match_license_ref (drop pos e) = Some v \<and> ty = T_LICENSE_REF"
    and t: "t = \<lparr>tok_type = ty, tok_value = v, tok_offset = pos\<rparr>"
    and "tokenized e (pos + length v) (acc @ [t]) (tokenize_loop e (pos + length v) (acc @ [t]))"
  shows "tokenized e pos acc (tokenize_loop e pos acc)"
proof -
  have run: "tokenize_loop e pos acc = tokenize_loop e (pos + length v) (acc @ [t])"
    using assms(1-4) by (subst tokenize_loop.simps)
      (auto simp: plain_char_def try_document_ref_def try_license_ref_def)
  have txt_t: "tok_text t = v" using assms(3) t by (auto simp: tok_text_def)
  have v: "v \<noteq> []" "startswith (drop pos e) v"
    using assms(3) match_document_ref_len match_license_ref_len by blast+
  show ?thesis
  proof (rule tokenized_token [where t = t])
    show "lex (drop pos e) = map_option ((#) (tok_pair t)) (lex (drop (pos + length (tok_text t)) e))"
      using lex_at [OF assms(1)] assms(2-4) txt_t by (auto simp: tok_pair_def plain_char_def)
  qed (use assms txt_t run v in simp_all)
qed

lemma loop_word:
  assumes "pos < length e" and "plain_char (e ! pos)" and "match_document_ref (drop pos e) = None"
    and "match_license_ref (drop pos e) = None" and "is_ident_char (e ! pos)"
    and "consume_identifier e pos acc = (q, ts')" and "tokenized e q ts' (tokenize_loop e q ts')"
  shows "tokenized e pos acc (tokenize_loop e pos acc)"
proof -
  obtain ty v r where w: "word_token (drop pos e) = (ty, v, r)" "drop q e = r"
    "ts' = acc @ [\<lparr>tok_type = ty, tok_value = v, tok_offset = pos\<rparr>]"
    "v = takeWhile is_ident_char (drop pos e)"
    "drop pos e = v @ (if ty = T_OR_LATER then ''+'' else []) @ r"
    "q = pos + length (tok_text \<lparr>tok_type = ty, tok_value = v, tok_offset = pos\<rparr>)"
    by (rule consume_identifier_word [OF assms(6)])
  let ?t = "\<lparr>tok_type = ty, tok_value = v, tok_offset = pos\<rparr>"
  have run: "tokenize_loop e pos acc = tokenize_loop e q ts'"
    using assms(1-6) by (subst tokenize_loop.simps)
      (auto simp: plain_char_def try_document_ref_def try_license_ref_def)
  show ?thesis
  proof (rule tokenized_token [where t = ?t])
    show "tokenized e (pos + length (tok_text ?t)) (acc @ [?t]) (tokenize_loop e pos acc)"
      unfolding run using assms(7) w(3,6) by simp
    show "tok_text ?t \<noteq> []"
      using w(4) assms(1,5) by (simp add: tok_text_def Cons_nth_drop_Suc [symmetric])
    show "startswith (drop pos e) (tok_text ?t)"
      using w(5) by (auto simp: tok_text_def startswith_iff)
    show "lex (drop pos e) = map_option ((#) (tok_pair ?t)) (lex (drop (pos + length (tok_text ?t)) e))"
      using lex_at [OF assms(1)] assms(2-5) w(1,2,6) by (simp add: tok_pair_def plain_char_def)
  qed simp
qed

lemma loop_invalid:
  assumes "pos < length e" and "plain_char (e ! pos)" and "match_document_ref (drop pos e) = None"
    and "match_license_ref (drop pos e) = None" and "\<not> is_ident_char (e ! pos)"
  shows "tokenized e pos acc (tokenize_loop e pos acc)"
proof -
  have "\<exists>msg. tokenize_loop e pos acc = Inl (SPDXTokenizeError msg pos)"
    using assms by (subst tokenize_loop.simps)
      (auto simp: plain_char_def try_document_ref_def try_license_ref_def)
  then show ?thesis using lex_at [OF assms(1)] assms by (auto simp: tokenized_def plain_char_def)
qed

lemma tokenize_loop_tokenized: "tokenized e pos acc (tokenize_loop e pos acc)"
proof (induction "length e - pos" arbitrary: pos acc rule: less_induct)
  case less
  show ?case
  proof (cases "pos < length e")
    case False
    then show ?thesis
      by (subst tokenize_loop.simps) (simp add: tokenized_def gap_def)
  next
    case len: True
    have IH: "tokenized e q acc' (tokenize_loop e q acc')" if "pos < q" for q acc'
      using less that len by simp
    consider "e ! pos = SPC \<or> e ! pos = TAB" | "e ! pos = CHR ''('' \<or> e ! pos = CHR '')''"
      | "plain_char (e ! pos)" by (auto simp: plain_char_def)
    then show ?thesis
    proof cases
      case 1
      then show ?thesis using loop_skip len IH by blast
    next
      case 2
      then show ?thesis
        using loop_paren [OF len refl _ refl IH] by auto
    next
      case 3
      show ?thesis
      proof (cases "match_document_ref (drop pos e) = None \<and> match_license_ref (drop pos e) = None")
        case False
        then obtain v ty where "match_document_ref (drop pos e) = Some v \<and> ty = T_DOCUMENT_REF \<or>
            match_document_ref (drop pos e) = None \<and> match_license_ref (drop pos e) = Some v \<and> ty = T_LICENSE_REF"
          by (cases "match_document_ref (drop pos e)") auto
        then show ?thesis
          using loop_ref [OF len 3 _ refl IH] ref_nonempty by auto
      next
        case True
        obtain q ts' where ci: "consume_identifier e pos acc = (q, ts')" by fastforce
        show ?thesis
          using loop_word [OF len 3 _ _ _ ci IH] loop_invalid [OF len 3, of acc] True
            consume_identifier_pos [OF len _ ci]
          by (cases "is_ident_char (e ! pos)") simp_all
      qed
    qed
  qed
qed

lemma tokenize_eq_lex':
  "case tokenize expression of
     Inr tokens \<Rightarrow> lex expression = Some (map tok_pair tokens)
   | Inl err \<Rightarrow> lex expression = None \<and> (\<exists>msg k. err = SPDXTokenizeError msg k \<and> k < length expression \<and>
       \<not> is_ident_char (expression ! k) \<and> expression ! k \<notin> {SPC, TAB, CHR ''('', CHR '')''})"
  using tokenize_loop_tokenized [of expression 0 "[]"]
  by (auto simp: tokenize_def tokenized_def split: sum.splits)

section \<open>Properties\<close>

text \<open>The tokenizer loses nothing and invents nothing: on success the tokens' texts
  stand in the expression at their offsets, from left to right and without overlap, and whatever
  they leave uncovered is a space or a tab.\<close>

theorem tokenize_covers:
  assumes "tokenize expression = Inr tokens"
  shows "covers expression 0 tokens"
  using tokenize_loop_tokenized [of expression 0 "[]"] assms
  by (simp add: tokenize_def tokenized_def)

theorem tokenize_covers_witness:
  "covers ''GPL-2.0+ AND (MIT)'' 0
     [\<lparr>tok_type = T_OR_LATER, tok_value = ''GPL-2.0'', tok_offset = 0\<rparr>,
      \<lparr>tok_type = T_AND, tok_value = ''AND'', tok_offset = 9\<rparr>,
      \<lparr>tok_type = T_LPAREN, tok_value = ''('', tok_offset = 13\<rparr>,
      \<lparr>tok_type = T_LICENSE_ID, tok_value = ''MIT'', tok_offset = 14\<rparr>,
      \<lparr>tok_type = T_RPAREN, tok_value = '')'', tok_offset = 17\<rparr>]"
  by (rule tokenize_covers) code_simp

text \<open>The positional loop with its token accumulator computes what a lexer over the
  remaining text computes, and where the lexer fails the loop raises with the offset of a
  character that is in the expression and starts no token.\<close>

theorem tokenize_eq_lex:
  "case tokenize expression of
     Inr tokens \<Rightarrow> lex expression = Some (map tok_pair tokens)
   | Inl err \<Rightarrow> lex expression = None \<and> (\<exists>msg k. err = SPDXTokenizeError msg k \<and> k < length expression \<and>
       \<not> is_ident_char (expression ! k) \<and> expression ! k \<notin> {SPC, TAB, CHR ''('', CHR '')''})"
  by (rule tokenize_eq_lex')

end
