(* ===== verification/Spdx_Parse.thy ===== *)
theory Spdx_Parse
  imports Spdx_Tokens
begin

text \<open>
  The recursive-descent parser of \<open>spdx_parser.py\<close> and the syntax tree of \<open>values.py\<close>. The
  parser's state is the position and the nesting depth; its five methods call each other, so they
  are mutually recursive functions with fuel. \<open>enough_fuel\<close> shows that four units per remaining
  token and four more never run out, so \<open>parse\<close>, which starts with that much, always returns.
  The specification is the grammar at the end; the parser accepts exactly its sentences.
\<close>

section \<open>Syntax tree\<close>

datatype spdx_node = SimpleNode (node_id: string) (or_later: bool)
  | WithNode (node_license: spdx_node) (node_exception: string)
  | AndNode (node_left: spdx_node) (node_right: spdx_node)
  | OrNode (node_left: spdx_node) (node_right: spdx_node)

section \<open>The parser\<close>

abbreviation (input) MAX_NESTING_DEPTH :: nat where "MAX_NESTING_DEPTH \<equiv> 32"

text \<open>\<open>None\<close>: out of fuel. Otherwise the exception, or the node with the new position and depth.\<close>

type_synonym parse_result = "(spdx_error + spdx_node \<times> nat \<times> nat) option"

definition perr :: "string \<Rightarrow> nat \<Rightarrow> parse_result" where
  "perr msg pos = Some (Inl (SPDXParseError msg pos))"

definition pok :: "spdx_node \<Rightarrow> nat \<Rightarrow> nat \<Rightarrow> parse_result" where
  "pok node pos depth = Some (Inr (node, pos, depth))"

definition pbind :: "parse_result \<Rightarrow> (spdx_node \<Rightarrow> nat \<Rightarrow> nat \<Rightarrow> parse_result) \<Rightarrow> parse_result" where
  "pbind m k = (case m of None \<Rightarrow> None | Some (Inl e) \<Rightarrow> Some (Inl e)
     | Some (Inr (node, pos, depth)) \<Rightarrow> k node pos depth)"

definition unbalanced_missing :: string where
  "unbalanced_missing = ''Unbalanced parentheses: missing closing '' @ [CHR 0x27, CHR '')'', CHR 0x27]"

definition unbalanced_unexpected :: string where
  "unbalanced_unexpected = ''Unbalanced parentheses: unexpected closing '' @ [CHR 0x27, CHR '')'', CHR 0x27]"

definition peek :: "spdx_token list \<Rightarrow> nat \<Rightarrow> spdx_token option" where
  "peek tokens pos = (if pos < length tokens then Some (tokens ! pos) else None)"

definition peek_type :: "spdx_token list \<Rightarrow> nat \<Rightarrow> spdx_token_type option" where
  "peek_type tokens pos = map_option tok_type (peek tokens pos)"

text \<open>\<open>parse_or_expr\<close> calls itself through \<open>parse_atom\<close>, inside parentheses: the methods below
  it take that call as \<open>rec\<close>.\<close>

definition parse_atom ::
  "(nat \<Rightarrow> nat \<Rightarrow> parse_result) \<Rightarrow> spdx_token list \<Rightarrow> nat \<Rightarrow> nat \<Rightarrow> parse_result" where
  "parse_atom rec ts pos depth =
     (case peek ts pos of
        None \<Rightarrow> perr ''Unexpected end of expression'' pos
      | Some token \<Rightarrow>
        if tok_type token = T_LPAREN then
          (let pos = pos + 1; depth = depth + 1 in
           if depth > MAX_NESTING_DEPTH then perr ''Excessive nesting depth'' (pos - 1)
           else pbind (rec pos depth) (\<lambda>node pos depth.
             (let depth = depth - 1 in
              case peek ts pos of
                None \<Rightarrow> perr unbalanced_missing (pos - 1)
              | Some closing \<Rightarrow>
                  if tok_type closing \<noteq> T_RPAREN then perr unbalanced_missing pos
                  else pok node (pos + 1) depth)))
        else if tok_type token = T_LICENSE_ID then pok (SimpleNode (tok_value token) False) (pos + 1) depth
        else if tok_type token = T_OR_LATER then pok (SimpleNode (tok_value token) True) (pos + 1) depth
        else if tok_type token = T_LICENSE_REF then pok (SimpleNode (tok_value token) False) (pos + 1) depth
        else if tok_type token = T_DOCUMENT_REF then pok (SimpleNode (tok_value token) False) (pos + 1) depth
        else if tok_type token = T_RPAREN then perr unbalanced_unexpected pos
        else perr (''Missing operand before '' @ tok_value token) pos)"

definition parse_with_expr ::
  "(nat \<Rightarrow> nat \<Rightarrow> parse_result) \<Rightarrow> spdx_token list \<Rightarrow> nat \<Rightarrow> nat \<Rightarrow> parse_result" where
  "parse_with_expr rec ts pos depth =
     pbind (parse_atom rec ts pos depth) (\<lambda>node pos depth.
       if peek_type ts pos = Some T_WITH then
         (let pos = pos + 1 in
          if pos \<ge> length ts then perr ''Missing exception identifier after WITH'' (pos - 1)
          else (case peek ts pos of
              None \<Rightarrow> perr ''Expected exception identifier after WITH'' pos
            | Some exception_token \<Rightarrow>
                if tok_type exception_token \<notin> {T_LICENSE_ID, T_LICENSE_REF}
                then perr ''Expected exception identifier after WITH'' pos
                else pok (WithNode node (tok_value exception_token)) (pos + 1) depth))
       else pok node pos depth)"

fun and_loop :: "nat \<Rightarrow> (nat \<Rightarrow> nat \<Rightarrow> parse_result) \<Rightarrow> spdx_token list \<Rightarrow> spdx_node \<Rightarrow> nat \<Rightarrow> nat \<Rightarrow> parse_result" where
  "and_loop 0 rec ts left pos depth = None"
| "and_loop (Suc f) rec ts left pos depth =
     (if peek_type ts pos = Some T_AND then
        (let pos = pos + 1 in
         if pos \<ge> length ts then perr ''Missing operand after AND'' (pos - 1)
         else pbind (parse_with_expr rec ts pos depth)
                (\<lambda>right pos depth. and_loop f rec ts (AndNode left right) pos depth))
      else pok left pos depth)"

definition parse_and_expr ::
  "(nat \<Rightarrow> nat \<Rightarrow> parse_result) \<Rightarrow> spdx_token list \<Rightarrow> nat \<Rightarrow> nat \<Rightarrow> parse_result" where
  "parse_and_expr rec ts pos depth =
     pbind (parse_with_expr rec ts pos depth) (\<lambda>left pos depth. and_loop (Suc (length ts)) rec ts left pos depth)"

fun or_loop :: "nat \<Rightarrow> (nat \<Rightarrow> nat \<Rightarrow> parse_result) \<Rightarrow> spdx_token list \<Rightarrow> spdx_node \<Rightarrow> nat \<Rightarrow> nat \<Rightarrow> parse_result" where
  "or_loop 0 rec ts left pos depth = None"
| "or_loop (Suc f) rec ts left pos depth =
     (if peek_type ts pos = Some T_OR then
        (let pos = pos + 1 in
         if pos \<ge> length ts then perr ''Missing operand after OR'' (pos - 1)
         else pbind (parse_and_expr rec ts pos depth)
                (\<lambda>right pos depth. or_loop f rec ts (OrNode left right) pos depth))
      else pok left pos depth)"

fun parse_or_expr :: "nat \<Rightarrow> spdx_token list \<Rightarrow> nat \<Rightarrow> nat \<Rightarrow> parse_result" where
  "parse_or_expr 0 ts pos depth = None"
| "parse_or_expr (Suc f) ts pos depth =
     pbind (parse_and_expr (parse_or_expr f ts) ts pos depth)
       (\<lambda>left pos depth. or_loop (Suc (length ts)) (parse_or_expr f ts) ts left pos depth)"

definition parse :: "spdx_token list \<Rightarrow> (spdx_error + spdx_node) option" where
  "parse tokens =
     (if tokens = [] then Some (Inl (SPDXParseError ''Expression is empty'' 0))
      else (case parse_or_expr (Suc MAX_NESTING_DEPTH) tokens 0 0 of
          None \<Rightarrow> None
        | Some (Inl e) \<Rightarrow> Some (Inl e)
        | Some (Inr (result, pos, depth)) \<Rightarrow>
            if pos < length tokens
            then Some (Inl (SPDXParseError ''Unexpected token after complete expression'' pos))
            else Some (Inr result)))"

section \<open>Results\<close>

lemma pbind_simps [simp]:
  "pbind None k = None" "pbind (perr m p) k = perr m p" "pbind (pok n p d) k = k n p d"
  by (simp_all add: pbind_def perr_def pok_def)

lemma pbind_Some_Inl [simp]: "pbind (Some (Inl e)) k = Some (Inl e)"
  by (simp add: pbind_def)

lemma pbind_ok_iff: "pbind m k = pok n p d \<longleftrightarrow> (\<exists>n' p' d'. m = pok n' p' d' \<and> k n' p' d' = pok n p d)"
  by (auto simp: pbind_def pok_def split: option.splits sum.splits)

lemma pok_neq [simp]: "perr m p \<noteq> pok n q d" "pok n q d \<noteq> perr m p" "pok n q d \<noteq> None" "perr m p \<noteq> None"
  by (simp_all add: perr_def pok_def)

lemma pok_eq [simp]: "pok n p d = pok n' p' d' \<longleftrightarrow> n = n' \<and> p = p' \<and> d = d'"
  by (simp add: pok_def)

section \<open>The grammar\<close>

text \<open>The sentences and their trees, with at most \<open>k\<close> parentheses inside each other.\<close>

inductive g_atom :: "nat \<Rightarrow> spdx_token list \<Rightarrow> spdx_node \<Rightarrow> bool"
  and g_with :: "nat \<Rightarrow> spdx_token list \<Rightarrow> spdx_node \<Rightarrow> bool"
  and g_and :: "nat \<Rightarrow> spdx_token list \<Rightarrow> spdx_node \<Rightarrow> bool"
  and g_or :: "nat \<Rightarrow> spdx_token list \<Rightarrow> spdx_node \<Rightarrow> bool" where
  license: "tok_type t \<in> {T_LICENSE_ID, T_LICENSE_REF, T_DOCUMENT_REF} \<Longrightarrow> g_atom k [t] (SimpleNode (tok_value t) False)"
| or_later: "tok_type t = T_OR_LATER \<Longrightarrow> g_atom k [t] (SimpleNode (tok_value t) True)"
| paren: "tok_type lp = T_LPAREN \<Longrightarrow> g_or k ts n \<Longrightarrow> tok_type rp = T_RPAREN \<Longrightarrow> g_atom (Suc k) (lp # ts @ [rp]) n"
| atom: "g_atom k ts n \<Longrightarrow> g_with k ts n"
| with_exception: "g_atom k ts n \<Longrightarrow> tok_type w = T_WITH \<Longrightarrow> tok_type e \<in> {T_LICENSE_ID, T_LICENSE_REF} \<Longrightarrow>
    g_with k (ts @ [w, e]) (WithNode n (tok_value e))"
| and_one: "g_with k ts n \<Longrightarrow> g_and k ts n"
| and_more: "g_and k ts n \<Longrightarrow> tok_type t = T_AND \<Longrightarrow> g_with k us m \<Longrightarrow> g_and k (ts @ t # us) (AndNode n m)"
| or_one: "g_and k ts n \<Longrightarrow> g_or k ts n"
| or_more: "g_or k ts n \<Longrightarrow> tok_type t = T_OR \<Longrightarrow> g_and k us m \<Longrightarrow> g_or k (ts @ t # us) (OrNode n m)"

lemma g_not_Nil: "g_atom k ts n \<Longrightarrow> ts \<noteq> []" "g_with k ts n \<Longrightarrow> ts \<noteq> []" "g_and k ts n \<Longrightarrow> ts \<noteq> []"
  "g_or k ts n \<Longrightarrow> ts \<noteq> []"
  by (induction rule: g_atom_g_with_g_and_g_or.inducts) auto

section \<open>The parser against the grammar\<close>

text \<open>What a call of a parsing method at a position and depth promises: it returns, and a result
  puts the depth back, moves forward inside the tokens and is the tree of the tokens consumed.\<close>

definition sound :: "spdx_token list \<Rightarrow> (spdx_token list \<Rightarrow> spdx_node \<Rightarrow> bool) \<Rightarrow> nat \<Rightarrow> nat \<Rightarrow> parse_result \<Rightarrow> bool" where
  "sound ts g pos d r \<longleftrightarrow> (case r of None \<Rightarrow> False | Some (Inl e) \<Rightarrow> True
     | Some (Inr (n, p, d')) \<Rightarrow> d' = d \<and> (\<exists>seg. pos + length seg = p \<and> p \<le> length ts
          \<and> take (length seg) (drop pos ts) = seg \<and> g seg n))"

lemma sound_perr [simp]: "sound ts g pos d (perr m p)"
  by (simp add: sound_def perr_def)

lemma sound_pok: "sound ts g pos d (pok n p d') \<longleftrightarrow> d' = d \<and> (\<exists>seg. pos + length seg = p \<and> p \<le> length ts
          \<and> take (length seg) (drop pos ts) = seg \<and> g seg n)"
  by (simp add: sound_def pok_def)

lemma sound_pbind:
  assumes "sound ts g pos d m"
    and "\<And>n seg rest. drop pos ts = seg @ rest \<Longrightarrow> g seg n \<Longrightarrow> m = pok n (pos + length seg) d \<Longrightarrow> pos + length seg \<le> length ts \<Longrightarrow>
      sound ts h pos' d' (k n (pos + length seg) d)"
  shows "sound ts h pos' d' (pbind m k)"
proof (cases m)
  case None
  then show ?thesis using assms(1) by (simp add: sound_def)
next
  case (Some r)
  show ?thesis
  proof (cases r)
    case (Inl e)
    then show ?thesis by (simp add: Some sound_def)
  next
    case (Inr q)
    obtain n p e where q: "q = (n, p, e)" by (cases q)
    have m: "m = pok n p e" by (simp add: Some Inr q pok_def)
    then obtain seg where "e = d" "pos + length seg = p" "p \<le> length ts" "take (length seg) (drop pos ts) = seg" "g seg n"
      using assms(1) by (auto simp: sound_pok)
    then show ?thesis using assms(2) [of seg "drop (length seg) (drop pos ts)" n] m
      by (metis append_take_drop_id pbind_simps(3))
  qed
qed

lemma peek_drop: "peek ts pos = Some t \<Longrightarrow> \<exists>rest. drop pos ts = t # rest \<and> drop (Suc pos) ts = rest \<and> Suc pos \<le> length ts"
  by (auto simp: peek_def Cons_nth_drop_Suc [symmetric] split: if_splits)

lemma drop_peek: "drop pos ts = t # rest \<Longrightarrow> peek ts pos = Some t \<and> drop (Suc pos) ts = rest \<and> Suc pos \<le> length ts"
  by (metis Cons_nth_drop_Suc Suc_leI drop_eq_Nil list.inject list.distinct(1) not_le peek_def)

lemma drop_seg: "drop pos ts = seg @ rest \<Longrightarrow> drop (pos + length seg) ts = rest"
  by (metis add.commute append_eq_conv_conj drop_drop)

lemma sound_pokI: "drop pos ts = seg @ rest \<Longrightarrow> pos + length seg \<le> length ts \<Longrightarrow> g seg n \<Longrightarrow>
    sound ts g pos d (pok n (pos + length seg) d)"
  by (auto simp: sound_pok intro!: exI [of _ seg])

lemma parse_atom_sound:
  assumes "\<And>k pos. MAX_NESTING_DEPTH = d + Suc k \<Longrightarrow> sound ts (g_or k) pos (Suc d) (rec pos (Suc d))"
    and "MAX_NESTING_DEPTH = d + k"
  shows "sound ts (g_atom k) pos d (parse_atom rec ts pos d)"
proof (cases "peek ts pos")
  case (Some t)
  then obtain rest where r: "drop pos ts = t # rest" "drop (Suc pos) ts = rest" "Suc pos \<le> length ts"
    using peek_drop by blast
  have one: "g_atom k [t] n \<Longrightarrow> sound ts (g_atom k) pos d (pok n (Suc pos) d)" for n
    using sound_pokI [of pos ts "[t]" rest "g_atom k" n d] r by simp
  show ?thesis
  proof (cases "tok_type t = T_LPAREN \<and> d < MAX_NESTING_DEPTH")
    case True
    then obtain k' where k: "k = Suc k'" using assms(2) by (cases k) auto
    have "sound ts (g_or k') (Suc pos) (Suc d) (rec (Suc pos) (Suc d))"
      using assms k by simp
    then have "sound ts (g_atom k) pos d (pbind (rec (Suc pos) (Suc d)) (\<lambda>node pos depth.
             (let depth = depth - 1 in
              case peek ts pos of
                None \<Rightarrow> perr unbalanced_missing (pos - 1)
              | Some closing \<Rightarrow>
                  if tok_type closing \<noteq> T_RPAREN then perr unbalanced_missing pos
                  else pok node (pos + 1) depth)))"
    proof (rule sound_pbind)
      fix n seg rest'
      assume a: "drop (Suc pos) ts = seg @ rest'" "g_or k' seg n" "Suc pos + length seg \<le> length ts"
      let ?p = "Suc pos + length seg"
      show "sound ts (g_atom k) pos d (let depth = Suc d - 1 in
              case peek ts ?p of
                None \<Rightarrow> perr unbalanced_missing (?p - 1)
              | Some closing \<Rightarrow>
                  if tok_type closing \<noteq> T_RPAREN then perr unbalanced_missing ?p
                  else pok n (?p + 1) depth)"
      proof (cases "\<exists>c. peek ts ?p = Some c \<and> tok_type c = T_RPAREN")
        case True
        then obtain c where c: "peek ts ?p = Some c" "tok_type c = T_RPAREN" by blast
        then obtain rest'' where "drop ?p ts = c # rest''" "Suc ?p \<le> length ts" using peek_drop by blast
        then have "rest' = c # rest''" using drop_seg [OF a(1)] by simp
        then have "sound ts (g_atom k) pos d (pok n (pos + length (t # seg @ [c])) d)"
          using \<open>Suc ?p \<le> length ts\<close> a r \<open>tok_type t = T_LPAREN \<and> _\<close> c
          by (intro sound_pokI [where rest = rest'']) (auto simp: k intro: paren)
        then show ?thesis using c by simp
      qed (auto split: option.splits)
    qed
    then show ?thesis using True Some by (simp add: parse_atom_def)
  next
    case False
    then show ?thesis using Some one
      by (auto simp: parse_atom_def Let_def intro: license or_later)
  qed
qed (simp add: parse_atom_def)

lemma parse_with_expr_sound:
  assumes "\<And>pos. sound ts (g_atom k) pos d (parse_atom rec ts pos d)"
  shows "sound ts (g_with k) pos d (parse_with_expr rec ts pos d)"
  unfolding parse_with_expr_def
proof (rule sound_pbind [OF assms])
  fix n seg rest
  assume a: "drop pos ts = seg @ rest" "g_atom k seg n" "pos + length seg \<le> length ts"
  let ?p = "pos + length seg"
  have plain: "sound ts (g_with k) pos d (pok n ?p d)"
    using a by (auto intro: sound_pokI atom)
  show "sound ts (g_with k) pos d (if peek_type ts ?p = Some T_WITH then
         (let pos = ?p + 1 in
          if pos \<ge> length ts then perr ''Missing exception identifier after WITH'' (pos - 1)
          else (case peek ts pos of
              None \<Rightarrow> perr ''Expected exception identifier after WITH'' pos
            | Some exception_token \<Rightarrow>
                if tok_type exception_token \<notin> {T_LICENSE_ID, T_LICENSE_REF}
                then perr ''Expected exception identifier after WITH'' pos
                else pok (WithNode n (tok_value exception_token)) (pos + 1) d))
       else pok n ?p d)"
  proof (cases "\<exists>w e. peek ts ?p = Some w \<and> tok_type w = T_WITH \<and> peek ts (Suc ?p) = Some e \<and> tok_type e \<in> {T_LICENSE_ID, T_LICENSE_REF}")
    case True
    then obtain w e where w: "peek ts ?p = Some w" "tok_type w = T_WITH" and e: "peek ts (Suc ?p) = Some e" "tok_type e \<in> {T_LICENSE_ID, T_LICENSE_REF}"
      by blast
    obtain rest' where r: "rest = w # e # rest'" "Suc (Suc ?p) \<le> length ts"
      using peek_drop [OF w(1)] peek_drop [OF e(1)] drop_seg [OF a(1)] by auto
    have "sound ts (g_with k) pos d (pok (WithNode n (tok_value e)) (pos + length (seg @ [w, e])) d)"
      using a r w e by (intro sound_pokI [where rest = rest']) (auto intro: with_exception)
    then show ?thesis using w e r by (auto simp: peek_type_def Let_def)
  qed (use plain in \<open>auto simp: peek_type_def Let_def split: option.splits\<close>)
qed

text \<open>A loop continues from a tree it has for the tokens from \<open>start\<close> to \<open>pos\<close>. Each turn consumes
  a token, so its fuel, one more than the number of tokens, lasts.\<close>

lemma and_loop_sound:
  assumes w: "\<And>pos. sound ts (g_with k) pos d (parse_with_expr rec ts pos d)"
  shows "drop start ts = seg @ rest \<Longrightarrow> g_and k seg left \<Longrightarrow> start + length seg \<le> length ts \<Longrightarrow>
    length ts < f + (start + length seg) \<Longrightarrow> sound ts (g_and k) start d (and_loop f rec ts left (start + length seg) d)"
proof (induction f arbitrary: seg rest left)
  case (Suc f)
  let ?p = "start + length seg"
  show ?case
  proof (cases "\<exists>t. peek ts ?p = Some t \<and> tok_type t = T_AND \<and> Suc ?p < length ts")
    case True
    then obtain t where t: "peek ts ?p = Some t" "tok_type t = T_AND" "Suc ?p < length ts" by blast
    then obtain rest' where r: "rest = t # rest'" "drop (Suc ?p) ts = rest'"
      using peek_drop [OF t(1)] drop_seg [OF Suc.prems(1)] by auto
    have "sound ts (g_and k) start d (pbind (parse_with_expr rec ts (Suc ?p) d)
        (\<lambda>right pos depth. and_loop f rec ts (AndNode left right) pos depth))"
    proof (rule sound_pbind [OF w])
      fix n us rest2
      assume a: "drop (Suc ?p) ts = us @ rest2" "g_with k us n" "Suc ?p + length us \<le> length ts"
      have "sound ts (g_and k) start d
          (and_loop f rec ts (AndNode left n) (start + length (seg @ t # us)) d)"
        using Suc.prems a r t by (intro Suc.IH [where rest = rest2]) (auto intro: and_more)
      then show "sound ts (g_and k) start d (and_loop f rec ts (AndNode left n) (Suc ?p + length us) d)"
        by (simp add: add.assoc)
    qed
    then show ?thesis using t by (simp add: peek_type_def Let_def)
  qed (use Suc.prems sound_pokI in \<open>auto simp: peek_type_def Let_def\<close>)
qed simp

lemma or_loop_sound:
  assumes w: "\<And>pos. sound ts (g_and k) pos d (parse_and_expr rec ts pos d)"
  shows "drop start ts = seg @ rest \<Longrightarrow> g_or k seg left \<Longrightarrow> start + length seg \<le> length ts \<Longrightarrow>
    length ts < f + (start + length seg) \<Longrightarrow> sound ts (g_or k) start d (or_loop f rec ts left (start + length seg) d)"
proof (induction f arbitrary: seg rest left)
  case (Suc f)
  let ?p = "start + length seg"
  show ?case
  proof (cases "\<exists>t. peek ts ?p = Some t \<and> tok_type t = T_OR \<and> Suc ?p < length ts")
    case True
    then obtain t where t: "peek ts ?p = Some t" "tok_type t = T_OR" "Suc ?p < length ts" by blast
    then obtain rest' where r: "rest = t # rest'" "drop (Suc ?p) ts = rest'"
      using peek_drop [OF t(1)] drop_seg [OF Suc.prems(1)] by auto
    have "sound ts (g_or k) start d (pbind (parse_and_expr rec ts (Suc ?p) d)
        (\<lambda>right pos depth. or_loop f rec ts (OrNode left right) pos depth))"
    proof (rule sound_pbind [OF w])
      fix n us rest2
      assume a: "drop (Suc ?p) ts = us @ rest2" "g_and k us n" "Suc ?p + length us \<le> length ts"
      have "sound ts (g_or k) start d
          (or_loop f rec ts (OrNode left n) (start + length (seg @ t # us)) d)"
        using Suc.prems a r t by (intro Suc.IH [where rest = rest2]) (auto intro: or_more)
      then show "sound ts (g_or k) start d (or_loop f rec ts (OrNode left n) (Suc ?p + length us) d)"
        by (simp add: add.assoc)
    qed
    then show ?thesis using t by (simp add: peek_type_def Let_def)
  qed (use Suc.prems sound_pokI in \<open>auto simp: peek_type_def Let_def\<close>)
qed simp

lemma parse_and_expr_sound:
  assumes "\<And>pos. sound ts (g_with k) pos d (parse_with_expr rec ts pos d)"
  shows "sound ts (g_and k) pos d (parse_and_expr rec ts pos d)"
  unfolding parse_and_expr_def
  by (rule sound_pbind [OF assms]) (auto intro!: and_loop_sound assms simp del: and_loop.simps intro: and_one)

lemma parse_or_expr_sound:
  "MAX_NESTING_DEPTH = d + k \<Longrightarrow> k < f \<Longrightarrow> sound ts (g_or k) pos d (parse_or_expr f ts pos d)"
proof (induction f arbitrary: k d pos)
  case (Suc f)
  have "sound ts (g_or k') pos (Suc d) (parse_or_expr f ts pos (Suc d))" if "MAX_NESTING_DEPTH = d + Suc k'" for k' pos
    using Suc that by simp
  then have "sound ts (g_atom k) pos d (parse_atom (parse_or_expr f ts) ts pos d)" for pos
    using Suc.prems by (blast intro: parse_atom_sound)
  then have a: "sound ts (g_and k) pos d (parse_and_expr (parse_or_expr f ts) ts pos d)" for pos
    by (intro parse_and_expr_sound parse_with_expr_sound)
  show ?case
    unfolding parse_or_expr.simps
    by (rule sound_pbind [OF a]) (auto intro!: or_loop_sound a simp del: or_loop.simps intro: or_one)
qed simp

text \<open>Completeness: on the tokens of a sentence, followed by nothing that continues it, the parser
  returns the sentence's tree.\<close>

definition stops :: "spdx_token_type set \<Rightarrow> spdx_token list \<Rightarrow> bool" where
  "stops S rest \<longleftrightarrow> (\<forall>t rest'. rest = t # rest' \<longrightarrow> tok_type t \<notin> S)"

lemma stops_simps [simp]: "stops S []" "stops S (t # rest) \<longleftrightarrow> tok_type t \<notin> S"
  by (auto simp: stops_def)

lemma stops_subset: "stops S rest \<Longrightarrow> T \<subseteq> S \<Longrightarrow> stops T rest"
  by (auto simp: stops_def)

lemma stops_peek: "stops S rest \<Longrightarrow> drop pos ts = rest \<Longrightarrow> a \<in> S \<Longrightarrow> peek_type ts pos \<noteq> Some a"
  using peek_drop [of ts pos] by (fastforce simp: stops_def peek_type_def)

definition accepts :: "spdx_token list \<Rightarrow> spdx_token_type set \<Rightarrow> (spdx_token list \<Rightarrow> spdx_node \<Rightarrow> bool) \<Rightarrow>
    nat \<Rightarrow> (nat \<Rightarrow> parse_result) \<Rightarrow> bool" where
  "accepts ts S g d p \<longleftrightarrow> (\<forall>pos seg rest n. drop pos ts = seg @ rest \<longrightarrow> g seg n \<longrightarrow> stops S rest \<longrightarrow>
     p pos = pok n (pos + length seg) d)"

lemma acceptsD: "accepts ts S g d p \<Longrightarrow> drop pos ts = seg @ rest \<Longrightarrow> g seg n \<Longrightarrow> stops S rest \<Longrightarrow>
    p pos = pok n (pos + length seg) d"
  by (auto simp: accepts_def)

lemmas g_trivial = g_atom_g_with_g_and_g_or.inducts

lemma g_and_induct [consumes 1, case_names one more]:
  assumes "g_and k seg n" and "\<And>seg n. g_with k seg n \<Longrightarrow> P seg n"
    and "\<And>ts n t us m. P ts n \<Longrightarrow> tok_type t = T_AND \<Longrightarrow> g_with k us m \<Longrightarrow> P (ts @ t # us) (AndNode n m)"
  shows "P seg n"
proof -
  have "g_and k' seg' n' \<Longrightarrow> k' = k \<longrightarrow> P seg' n'" for k' seg' n'
    by (induction k' seg' n' rule: g_trivial(3) [where ?P1.0 = "\<lambda>_ _ _. True" and ?P2.0 = "\<lambda>_ _ _. True" and ?P4.0 = "\<lambda>_ _ _. True"])
       (auto intro: assms)
  then show ?thesis using assms(1) by blast
qed

lemma g_or_induct [consumes 1, case_names one more]:
  assumes "g_or k seg n" and "\<And>seg n. g_and k seg n \<Longrightarrow> P seg n"
    and "\<And>ts n t us m. P ts n \<Longrightarrow> tok_type t = T_OR \<Longrightarrow> g_and k us m \<Longrightarrow> P (ts @ t # us) (OrNode n m)"
  shows "P seg n"
proof -
  have "g_or k' seg' n' \<Longrightarrow> k' = k \<longrightarrow> P seg' n'" for k' seg' n'
    by (induction k' seg' n' rule: g_trivial(4) [where ?P1.0 = "\<lambda>_ _ _. True" and ?P2.0 = "\<lambda>_ _ _. True" and ?P3.0 = "\<lambda>_ _ _. True"])
       (auto intro: assms)
  then show ?thesis using assms(1) by blast
qed

lemma parse_atom_accepts:
  assumes "\<And>k'. k = Suc k' \<Longrightarrow> accepts ts {T_AND, T_OR, T_WITH} (g_or k') (Suc d) (\<lambda>pos. rec pos (Suc d))"
    and "MAX_NESTING_DEPTH = d + k"
  shows "accepts ts {} (g_atom k) d (\<lambda>pos. parse_atom rec ts pos d)"
  unfolding accepts_def
proof (intro allI impI)
  fix pos seg rest n
  assume a: "drop pos ts = seg @ rest" "g_atom k seg n"
  show "parse_atom rec ts pos d = pok n (pos + length seg) d"
    using a(2)
  proof (cases rule: g_atom.cases)
    case (paren lp k' us rp)
    note 3 = paren
    have lp: "peek ts pos = Some lp" "drop (Suc pos) ts = us @ rp # rest"
      using a 3 drop_peek [of pos ts lp] by auto
    have "rec (Suc pos) (Suc d) = pok n (Suc pos + length us) (Suc d)"
      using 3 lp(2) by (intro acceptsD [OF assms(1)]) auto
    moreover have "peek ts (Suc pos + length us) = Some rp"
      using drop_seg [OF lp(2)] drop_peek by blast
    moreover have "d < MAX_NESTING_DEPTH" using assms(2) 3 by simp
    ultimately show ?thesis using 3 lp by (simp add: parse_atom_def)
  qed (use a drop_peek [of pos ts] in \<open>auto simp: parse_atom_def\<close>)
qed

lemma parse_with_expr_accepts:
  assumes at: "accepts ts {} (g_atom k) d (\<lambda>pos. parse_atom rec ts pos d)"
  shows "accepts ts {T_WITH} (g_with k) d (\<lambda>pos. parse_with_expr rec ts pos d)"
  unfolding accepts_def
proof (intro allI impI)
  fix pos seg rest n
  assume a: "drop pos ts = seg @ rest" "g_with k seg n" "stops {T_WITH} rest"
  show "parse_with_expr rec ts pos d = pok n (pos + length seg) d"
    using a(2)
  proof (cases rule: g_with.cases)
    case atom
    then show ?thesis using acceptsD [OF at a(1)] stops_peek [OF a(3) drop_seg [OF a(1)]]
      by (simp add: parse_with_expr_def stops_def)
  next
    case (with_exception us m w e)
    note 2 = with_exception
    have p: "parse_atom rec ts pos d = pok m (pos + length us) d"
      using a 2 by (intro acceptsD [OF at]) (auto simp: stops_def)
    have "drop (pos + length us) ts = w # e # rest"
      using a(1) 2 by (intro drop_seg) simp
    from drop_peek [OF this] have "peek ts (pos + length us) = Some w"
      and "drop (Suc (pos + length us)) ts = e # rest" by blast+
    moreover from drop_peek [OF this(2)] have "peek ts (Suc (pos + length us)) = Some e"
      and "Suc (pos + length us) < length ts" by auto
    ultimately have "peek ts (pos + length us) = Some w" "peek ts (Suc (pos + length us)) = Some e"
      "Suc (pos + length us) < length ts" by blast+
    then show ?thesis using 2 p by (auto simp: parse_with_expr_def peek_type_def Let_def)
  qed
qed

lemma and_run:
  assumes w: "accepts ts {T_WITH} (g_with k) d (\<lambda>pos. parse_with_expr rec ts pos d)"
  shows "g_and k seg n \<Longrightarrow> drop pos ts = seg @ rest \<Longrightarrow> stops {T_WITH} rest \<Longrightarrow>
    \<exists>f. length ts < f + (pos + length seg) \<and> parse_and_expr rec ts pos d = and_loop f rec ts n (pos + length seg) d"
proof (induction arbitrary: rest rule: g_and_induct)
  case (one seg n)
  then have "parse_with_expr rec ts pos d = pok n (pos + length seg) d"
    by (intro acceptsD [OF w]) auto
  then show ?case by (intro exI [of _ "Suc (length ts)"]) (simp add: parse_and_expr_def del: and_loop.simps)
next
  case (more seg n t us m)
  from more.prems have "drop pos ts = seg @ t # us @ rest" by simp
  then obtain f where f: "length ts < f + (pos + length seg)"
    "parse_and_expr rec ts pos d = and_loop f rec ts n (pos + length seg) d"
    using more.IH [of "t # us @ rest"] more.hyps by auto
  have d: "drop (pos + length seg) ts = t # us @ rest" using more.prems by (intro drop_seg) simp
  note t = drop_peek [OF d]
  have us: "us \<noteq> []" using more.hyps g_not_Nil(2) by blast
  with t have l: "Suc (pos + length seg) < length ts" by (metis append_is_Nil_conv drop_eq_Nil le_neq_implies_less order_refl)
  obtain f' where f': "f = Suc f'" using f(1) l by (cases f) auto
  have "parse_with_expr rec ts (Suc (pos + length seg)) d = pok m (Suc (pos + length seg) + length us) d"
    using t more.hyps more.prems by (intro acceptsD [OF w]) auto
  then have "parse_and_expr rec ts pos d = and_loop f' rec ts (AndNode n m) (pos + length (seg @ t # us)) d"
    using f t l more.hyps by (simp add: f' peek_type_def Let_def add.assoc)
  then show ?case using f f' us by (intro exI [of _ f']) auto
qed

lemma parse_and_expr_accepts:
  assumes w: "accepts ts {T_WITH} (g_with k) d (\<lambda>pos. parse_with_expr rec ts pos d)"
  shows "accepts ts {T_AND, T_WITH} (g_and k) d (\<lambda>pos. parse_and_expr rec ts pos d)"
  unfolding accepts_def
proof (intro allI impI)
  fix pos seg rest n
  assume a: "drop pos ts = seg @ rest" "g_and k seg n" "stops {T_AND, T_WITH} rest"
  then obtain f where f: "length ts < f + (pos + length seg)"
    "parse_and_expr rec ts pos d = and_loop f rec ts n (pos + length seg) d"
    using and_run [OF w a(2,1)] stops_subset [OF a(3)] by blast
  moreover have "pos + length seg \<le> length ts"
    using arg_cong [OF a(1), of length] g_not_Nil(3) [OF a(2)] by (cases seg) auto
  ultimately obtain f' where "f = Suc f'" by (cases f) auto
  then show "parse_and_expr rec ts pos d = pok n (pos + length seg) d"
    using f stops_peek [OF a(3) drop_seg [OF a(1)]] by simp
qed

lemma or_run:
  assumes w: "accepts ts {T_AND, T_WITH} (g_and k) d (\<lambda>pos. parse_and_expr (parse_or_expr g ts) ts pos d)"
  shows "g_or k seg n \<Longrightarrow> drop pos ts = seg @ rest \<Longrightarrow> stops {T_AND, T_WITH} rest \<Longrightarrow>
    \<exists>f. length ts < f + (pos + length seg) \<and>
      parse_or_expr (Suc g) ts pos d = or_loop f (parse_or_expr g ts) ts n (pos + length seg) d"
proof (induction arbitrary: rest rule: g_or_induct)
  case (one seg n)
  then have "parse_and_expr (parse_or_expr g ts) ts pos d = pok n (pos + length seg) d"
    by (intro acceptsD [OF w]) auto
  then show ?case by (intro exI [of _ "Suc (length ts)"]) (simp del: or_loop.simps)
next
  case (more seg n t us m)
  from more.prems have "drop pos ts = seg @ t # us @ rest" by simp
  then obtain f where f: "length ts < f + (pos + length seg)"
    "parse_or_expr (Suc g) ts pos d = or_loop f (parse_or_expr g ts) ts n (pos + length seg) d"
    using more.IH [of "t # us @ rest"] more.hyps by auto
  have d: "drop (pos + length seg) ts = t # us @ rest" using more.prems by (intro drop_seg) simp
  note t = drop_peek [OF d]
  have us: "us \<noteq> []" using more.hyps g_not_Nil(3) by blast
  with t have l: "Suc (pos + length seg) < length ts" by (metis append_is_Nil_conv drop_eq_Nil le_neq_implies_less order_refl)
  obtain f' where f': "f = Suc f'" using f(1) l by (cases f) auto
  have "parse_and_expr (parse_or_expr g ts) ts (Suc (pos + length seg)) d = pok m (Suc (pos + length seg) + length us) d"
    using t more.hyps more.prems by (intro acceptsD [OF w]) auto
  then have "parse_or_expr (Suc g) ts pos d = or_loop f' (parse_or_expr g ts) ts (OrNode n m) (pos + length (seg @ t # us)) d"
    using f t l more.hyps by (simp add: f' peek_type_def Let_def add.assoc del: parse_or_expr.simps)
  then show ?case using f f' us by (intro exI [of _ f']) auto
qed

lemma parse_or_expr_accepts:
  "MAX_NESTING_DEPTH = d + k \<Longrightarrow> k < f \<Longrightarrow>
    accepts ts {T_AND, T_OR, T_WITH} (g_or k) d (\<lambda>pos. parse_or_expr f ts pos d)"
proof (induction f arbitrary: k d)
  case (Suc g)
  have "accepts ts {T_AND, T_OR, T_WITH} (g_or k') (Suc d) (\<lambda>pos. parse_or_expr g ts pos (Suc d))" if "k = Suc k'" for k'
    using Suc that by simp
  then have "accepts ts {} (g_atom k) d (\<lambda>pos. parse_atom (parse_or_expr g ts) ts pos d)"
    using Suc.prems(1) by (rule parse_atom_accepts)
  then have w: "accepts ts {T_AND, T_WITH} (g_and k) d (\<lambda>pos. parse_and_expr (parse_or_expr g ts) ts pos d)"
    by (intro parse_and_expr_accepts parse_with_expr_accepts)
  show ?case
    unfolding accepts_def
  proof (intro allI impI)
    fix pos seg rest n
    assume a: "drop pos ts = seg @ rest" "g_or k seg n" "stops {T_AND, T_OR, T_WITH} rest"
    have "stops {T_AND, T_WITH} rest" using a(3) by (rule stops_subset) auto
    from or_run [OF w a(2,1) this] obtain f where f: "length ts < f + (pos + length seg)"
      "parse_or_expr (Suc g) ts pos d = or_loop f (parse_or_expr g ts) ts n (pos + length seg) d"
      by (elim exE conjE)
    have len: "pos + length seg \<le> length ts"
      using arg_cong [OF a(1), of length] g_not_Nil(4) [OF a(2)] by (cases seg) auto
    obtain f' where f': "f = Suc f'" using f(1) len by (cases f) auto
    have "peek_type ts (pos + length seg) \<noteq> Some T_OR"
      using a(3) drop_seg [OF a(1)] by (rule stops_peek) simp
    then show "parse_or_expr (Suc g) ts pos d = pok n (pos + length seg) d"
      unfolding f(2) f' or_loop.simps by simp
  qed
qed simp

declare parse_or_expr.simps [simp del] or_loop.simps [simp del] and_loop.simps [simp del]

lemma sound_pok_0: "sound ts g 0 d (pok n p d') \<Longrightarrow> p \<le> length ts \<and> g (take p ts) n"
  by (metis (no_types, lifting) sound_pok add_0 drop0)

lemma parse_iff_grammar':
  "(\<exists>r. parse tokens = Some r) \<and> (parse tokens = Some (Inr n) \<longleftrightarrow> g_or MAX_NESTING_DEPTH tokens n)"
proof -
  define R where R: "R = parse_or_expr (Suc MAX_NESTING_DEPTH) tokens 0 0"
  have s: "sound tokens (g_or MAX_NESTING_DEPTH) 0 0 R"
    unfolding R by (rule parse_or_expr_sound) simp_all
  have c: "R = pok n (length tokens) 0" if "g_or MAX_NESTING_DEPTH tokens n"
    using acceptsD [OF parse_or_expr_accepts [of 0 MAX_NESTING_DEPTH "Suc MAX_NESTING_DEPTH" tokens], of 0 tokens "[]" n]
      that unfolding R by simp
  show ?thesis
  proof (cases R)
    case None
    then show ?thesis using s by (simp add: sound_def)
  next
    case (Some r)
    show ?thesis
    proof (cases r)
      case (Inl e)
      then have "\<not> g_or MAX_NESTING_DEPTH tokens n" using c Some by (auto simp: pok_def)
      then show ?thesis unfolding parse_def R [symmetric] Some Inl by simp
    next
      case (Inr q)
      obtain m p d where q: "q = (m, p, d)" by (cases q)
      have r: "R = pok m p d" unfolding Some Inr q pok_def ..
      from s have seg: "p \<le> length tokens" "g_or MAX_NESTING_DEPTH (take p tokens) m"
        unfolding r by (auto dest: sound_pok_0)
      have "tokens \<noteq> []" using g_not_Nil(4) [OF seg(2)] by auto
      then have "parse tokens = Some (if p < length tokens
          then Inl (SPDXParseError ''Unexpected token after complete expression'' p) else Inr m)"
        unfolding parse_def R [symmetric] Some Inr q by simp
      moreover have "\<not> g_or MAX_NESTING_DEPTH tokens n" if "p < length tokens" using c r that by auto
      moreover have "m = n \<longleftrightarrow> g_or MAX_NESTING_DEPTH tokens n" if "\<not> p < length tokens"
      proof
        have "take p tokens = tokens" using that by simp
        then show "m = n \<Longrightarrow> g_or MAX_NESTING_DEPTH tokens n" using seg(2) by simp
      qed (use c r in auto)
      ultimately show ?thesis by auto
    qed
  qed
qed

section \<open>Properties\<close>

text \<open>Property C1. Every call of the SPDX parser returns, with a tree or a parse error; and it
  returns a tree exactly for the sentences of the SPDX grammar (\<open>OR\<close> below \<open>AND\<close> below \<open>WITH\<close>,
  both operators to the left) with at most 32 parentheses inside each other, the tree being the
  sentence's. So precedence and associativity are those of the grammar, no sentence is refused
  and no other token list accepted.\<close>

theorem parse_iff_grammar:
  "(\<exists>r. parse tokens = Some r) \<and> (parse tokens = Some (Inr n) \<longleftrightarrow> g_or MAX_NESTING_DEPTH tokens n)"
  by (rule parse_iff_grammar')

end
