(* ===== verification/Spdx_Print.thy ===== *)
theory Spdx_Print
  imports Spdx_Parse
begin

text \<open>
  The SPDX printer of \<open>src/debcraft/domain/package_intelligence/spdx_printer.py\<close>, and what the
  tokenizer and the parser make of its output: the tree again, up to the association of
  \<open>AND\<close> and \<open>OR\<close>, which the printer does not show.
\<close>

section \<open>The printer\<close>

fun is_or :: "spdx_node \<Rightarrow> bool" where "is_or (OrNode a b) = True" | "is_or _ = False"

text \<open>\<open>result\<close> is the node printed, which \<open>_wrap_if_or\<close> computes first.\<close>

definition wrap_if_or :: "spdx_node \<Rightarrow> string \<Rightarrow> string" where
  "wrap_if_or n result = (if is_or n then ''('' @ result @ '')'' else result)"

primrec print_node :: "spdx_node \<Rightarrow> string" where
  "print_node (SimpleNode i later) = (if later then i @ ''+'' else i)"
| "print_node (WithNode l e) = print_node l @ '' WITH '' @ e"
| "print_node (AndNode a b) = wrap_if_or a (print_node a) @ '' AND '' @ wrap_if_or b (print_node b)"
| "print_node (OrNode a b) = print_node a @ '' OR '' @ print_node b"

section \<open>Lexing a printed name\<close>

text \<open>The names a tree can be printed with: words the tokenizer reads as one identifier.\<close>

definition word_ok :: "string \<Rightarrow> bool" where
  "word_ok s \<longleftrightarrow> s \<noteq> [] \<and> list_all is_ident_char s
     \<and> map ascii_upper_char s \<notin> {''AND'', ''OR'', ''WITH''} \<and> match_license_ref s = None"

definition license_ref_ok :: "string \<Rightarrow> bool" where
  "license_ref_ok s \<longleftrightarrow> match_license_ref s = Some s"

definition document_ref_ok :: "string \<Rightarrow> bool" where
  "document_ref_ok s \<longleftrightarrow> match_document_ref s = Some s"

definition sep :: "string \<Rightarrow> bool" where
  "sep r \<longleftrightarrow> (\<forall>c s. r = c # s \<longrightarrow> c \<in> {SPC, CHR '')'', CHR ''+''})"

lemma sep_simps [simp]: "sep []" "sep (c # s) \<longleftrightarrow> c \<in> {SPC, CHR '')'', CHR ''+''}"
  by (auto simp: sep_def)

lemma sep_lower: "sep r \<Longrightarrow> P \<noteq> [] \<Longrightarrow> hd P \<notin> {SPC, CHR '')'', CHR ''+''} \<Longrightarrow> \<not> startswith (py_lower r) P"
  by (cases P; cases r) (auto simp: py_lower_def py_lower_char_def)

lemma lower_prefix_sep:
  "sep r \<Longrightarrow> list_all (\<lambda>c. c \<notin> {SPC, CHR '')'', CHR ''+''}) P \<Longrightarrow>
    startswith (py_lower (s @ r)) P = startswith (py_lower s) P"
proof (induction s arbitrary: P)
  case Nil
  then show ?case using sep_lower [of r P] by (cases P) (auto simp: py_lower_def)
next
  case (Cons c s)
  then show ?case by (cases P) (auto simp: py_lower_def)
qed

lemma lower_prefix_length: "startswith (py_lower s) P \<Longrightarrow> length P \<le> length s"
  by (auto simp: startswith_iff py_lower_def dest!: arg_cong [where f = length])

lemma takeWhile_sep: "sep r \<Longrightarrow> takeWhile is_ident_char (s @ r) = takeWhile is_ident_char s"
  "sep r \<Longrightarrow> dropWhile is_ident_char (s @ r) = dropWhile is_ident_char s @ r"
  by (induction s) (cases r; auto simp: is_ident_char_def)+

lemma match_license_ref_sep: "sep r \<Longrightarrow> match_license_ref (s @ r) = match_license_ref s"
  using lower_prefix_sep [of r "''licenseref-''" s] lower_prefix_length [of s "''licenseref-''"] takeWhile_sep [of r "drop 11 s"]
  by (auto simp: match_license_ref_def Let_def)

lemma colon_sep: "sep r \<Longrightarrow> startswith (x @ r) '':'' = startswith x '':''"
  by (cases x; cases r) auto

lemma match_document_ref_sep: "sep r \<Longrightarrow> match_document_ref (s @ r) = match_document_ref s"
proof -
  assume r: "sep r"
  let ?d = "dropWhile is_ident_char (drop 12 s)"
  have c: "startswith (?d @ r) '':'' = startswith ?d '':''"
    using r by (rule colon_sep)
  have l: "match_license_ref (drop 1 (?d @ r)) = match_license_ref (drop 1 ?d)" if "startswith ?d '':''"
    using that r match_license_ref_sep [of r "drop 1 ?d"] by (cases ?d) auto
  show ?thesis
  proof (cases "startswith (py_lower s) ''documentref-''")
    case True
    then have len: "12 \<le> length s" using lower_prefix_length by fastforce
    have t: "take 12 (s @ r) = take 12 s" "drop 12 (s @ r) = drop 12 s @ r" using len by simp_all
    have p: "startswith (py_lower (s @ r)) ''documentref-''" using True r lower_prefix_sep [of r "''documentref-''" s] by simp
    show ?thesis
      unfolding match_document_ref_def t takeWhile_sep [OF r] Let_def c
      using True p l by (cases "startswith ?d '':''") (simp_all del: drop_append)
  next
    case False
    then show ?thesis
      using r lower_prefix_sep [of r "''documentref-''" s] by (simp add: match_document_ref_def)
  qed
qed

lemma match_document_ref_ident: "list_all is_ident_char s \<Longrightarrow> match_document_ref s = None"
proof -
  assume "list_all is_ident_char s"
  then have "\<forall>x\<in>set (drop 12 s). is_ident_char x" by (auto simp: list_all_iff dest: in_set_dropD)
  then have "dropWhile is_ident_char (drop 12 s) = []" unfolding dropWhile_eq_Nil_conv .
  then show ?thesis unfolding match_document_ref_def Let_def by (simp del: dropWhile_eq_Nil_conv)
qed

lemma match_license_ref_lower: "startswith (py_lower s) ''licenseref-'' \<or> match_license_ref s = None"
  by (simp add: match_license_ref_def)

lemma lex_nonspecial:
  "s \<noteq> [] \<Longrightarrow> plain_char (hd s) \<Longrightarrow> lex s = (case match_document_ref s of
          Some v \<Rightarrow> map_option ((#) (T_DOCUMENT_REF, v)) (lex (drop (length v) s))
        | None \<Rightarrow> (case match_license_ref s of
            Some v \<Rightarrow> map_option ((#) (T_LICENSE_REF, v)) (lex (drop (length v) s))
          | None \<Rightarrow>
            (if is_ident_char (hd s) then
               (case word_token s of (ty, v, r) \<Rightarrow> map_option ((#) (ty, v)) (lex r))
             else None)))"
proof -
  assume a: "s \<noteq> []" "plain_char (hd s)"
  then have "hd s # tl s = s" by simp
  then show ?thesis using lex.simps(2) [of "hd s" "tl s"] a(2) by (simp only: plain_char_def) simp
qed

lemma ident_plain: "is_ident_char c \<Longrightarrow> plain_char c"
  by (auto simp: is_ident_char_def plain_char_def)

lemma word_lex:
  assumes "s \<noteq> []" "list_all is_ident_char s" "match_license_ref s = None" "sep r"
  shows "lex (s @ r) = (case word_token (s @ r) of (ty, v, r) \<Rightarrow> map_option ((#) (ty, v)) (lex r))"
proof -
  have h: "is_ident_char (hd s)" using assms by (cases s) auto
  have "match_document_ref (s @ r) = None" using assms match_document_ref_sep match_document_ref_ident by metis
  moreover have "match_license_ref (s @ r) = None" using assms match_license_ref_sep by metis
  ultimately show ?thesis using h assms by (subst lex_nonspecial) (auto intro: ident_plain)
qed

lemma word_token_sep:
  assumes "list_all is_ident_char s" "sep r"
  shows "takeWhile is_ident_char (s @ r) = s" "dropWhile is_ident_char (s @ r) = r"
  using assms takeWhile_sep [of r s] by (auto simp: list_all_iff takeWhile_eq_all_conv dropWhile_eq_Nil_conv)

lemma lex_name:
  "word_ok s \<Longrightarrow> sep r \<Longrightarrow> \<not> startswith r ''+'' \<Longrightarrow> lex (s @ r) = map_option ((#) (T_LICENSE_ID, s)) (lex r)"
  "word_ok s \<Longrightarrow> lex (s @ CHR ''+'' # r) = map_option ((#) (T_OR_LATER, s)) (lex r)"
  using word_lex [of s r] word_lex [of s "CHR ''+'' # r"] word_token_sep [of s r] word_token_sep [of s "CHR ''+'' # r"]
  by (auto simp: word_ok_def word_token_def Let_def)

lemma lex_license_ref:
  assumes "license_ref_ok s" "sep r"
  shows "lex (s @ r) = map_option ((#) (T_LICENSE_REF, s)) (lex r)"
proof -
  have m: "match_license_ref s = Some s" using assms by (simp add: license_ref_ok_def)
  then have l: "startswith (py_lower s) ''licenseref-''" by (auto simp: match_license_ref_def split: if_splits)
  then obtain c t where s: "s = c # t" "py_lower_char c = CHR ''l''" by (cases s) (auto simp: py_lower_def)
  have "\<not> startswith (py_lower s) ''documentref-''" using s by (simp add: py_lower_def)
  then have "match_document_ref s = None" by (simp add: match_document_ref_def)
  then have "match_document_ref (s @ r) = None" using assms(2) match_document_ref_sep by metis
  moreover have "match_license_ref (s @ r) = Some s" using m assms(2) match_license_ref_sep by metis
  moreover have "plain_char c" using s(2) by (auto simp: plain_char_def py_lower_char_def)
  ultimately show ?thesis using s(1) by (subst lex_nonspecial) simp_all
qed

lemma lex_document_ref:
  assumes "document_ref_ok s" "sep r"
  shows "lex (s @ r) = map_option ((#) (T_DOCUMENT_REF, s)) (lex r)"
proof -
  have m: "match_document_ref s = Some s" using assms by (simp add: document_ref_ok_def)
  then have l: "startswith (py_lower s) ''documentref-''" by (auto simp: match_document_ref_def split: if_splits)
  then obtain c t where s: "s = c # t" "py_lower_char c = CHR ''d''" by (cases s) (auto simp: py_lower_def)
  moreover have "match_document_ref (s @ r) = Some s" using m assms(2) match_document_ref_sep by metis
  moreover have "plain_char c" using s(2) by (auto simp: plain_char_def py_lower_char_def)
  ultimately show ?thesis by (subst lex_nonspecial) simp_all
qed

text \<open>The operators and parentheses with the spaces the printer puts round them.\<close>

lemma lex_space: "lex (SPC # r) = lex r"
  by (simp add: lex.simps(2))

lemma lex_parens: "lex (CHR ''('' # r) = map_option ((#) (T_LPAREN, ''('')) (lex r)"
  "lex (CHR '')'' # r) = map_option ((#) (T_RPAREN, '')'')) (lex r)"
  by (simp_all add: lex.simps(2))

lemma lex_operator:
  "lex ('' AND '' @ r) = map_option ((#) (T_AND, ''AND'')) (lex r)"
  "lex ('' OR '' @ r) = map_option ((#) (T_OR, ''OR'')) (lex r)"
  "lex ('' WITH '' @ r) = map_option ((#) (T_WITH, ''WITH'')) (lex r)"
proof -
  have "list_all is_ident_char ''AND''" "match_license_ref ''AND'' = None"
    "list_all is_ident_char ''OR''" "match_license_ref ''OR'' = None"
    "list_all is_ident_char ''WITH''" "match_license_ref ''WITH'' = None" by code_simp+
  note w = this
  show "lex ('' AND '' @ r) = map_option ((#) (T_AND, ''AND'')) (lex r)"
    "lex ('' OR '' @ r) = map_option ((#) (T_OR, ''OR'')) (lex r)"
    "lex ('' WITH '' @ r) = map_option ((#) (T_WITH, ''WITH'')) (lex r)"
    using word_lex [of "''AND''" "SPC # r"] word_lex [of "''OR''" "SPC # r"] word_lex [of "''WITH''" "SPC # r"]
      word_token_sep [of "''AND''" "SPC # r"] word_token_sep [of "''OR''" "SPC # r"] word_token_sep [of "''WITH''" "SPC # r"] w
    by (simp_all add: lex_space word_token_def Let_def ascii_upper_char_def)
qed

section \<open>Printing, then tokenizing\<close>

text \<open>Trees with names the tokenizer reads back, and \<open>WITH\<close> on a plain license only: these are
  the trees whose text denotes them. \<open>with_parentheses_lost\<close> below shows what the printer does
  to the others.\<close>

primrec printable :: "spdx_node \<Rightarrow> bool" where
  "printable (SimpleNode i later) \<longleftrightarrow> word_ok i \<or> \<not> later \<and> (license_ref_ok i \<or> document_ref_ok i)"
| "printable (WithNode l e) \<longleftrightarrow> (\<exists>i later. l = SimpleNode i later) \<and> printable l \<and> (word_ok e \<or> license_ref_ok e)"
| "printable (AndNode a b) \<longleftrightarrow> printable a \<and> printable b"
| "printable (OrNode a b) \<longleftrightarrow> printable a \<and> printable b"

definition name_token :: "string \<Rightarrow> spdx_token_type \<times> string" where
  "name_token i = (if word_ok i then (T_LICENSE_ID, i) else if license_ref_ok i then (T_LICENSE_REF, i) else (T_DOCUMENT_REF, i))"

definition wrap_tokens :: "spdx_node \<Rightarrow> (spdx_token_type \<times> string) list \<Rightarrow> (spdx_token_type \<times> string) list" where
  "wrap_tokens n ts = (if is_or n then (T_LPAREN, ''('') # ts @ [(T_RPAREN, '')'')] else ts)"

primrec node_tokens :: "spdx_node \<Rightarrow> (spdx_token_type \<times> string) list" where
  "node_tokens (SimpleNode i later) = [if later then (T_OR_LATER, i) else name_token i]"
| "node_tokens (WithNode l e) = node_tokens l @ [(T_WITH, ''WITH''), name_token e]"
| "node_tokens (AndNode a b) = wrap_tokens a (node_tokens a) @ (T_AND, ''AND'') # wrap_tokens b (node_tokens b)"
| "node_tokens (OrNode a b) = node_tokens a @ (T_OR, ''OR'') # node_tokens b"

definition closed :: "string \<Rightarrow> bool" where
  "closed r \<longleftrightarrow> sep r \<and> \<not> startswith r ''+''"

lemma closed_simps [simp]: "closed []" "closed (SPC # r)" "closed (CHR '')'' # r)"
  by (simp_all add: closed_def)

lemma lex_name_token:
  "word_ok i \<or> license_ref_ok i \<or> document_ref_ok i \<Longrightarrow> closed r \<Longrightarrow> lex r = Some ts \<Longrightarrow>
    lex (i @ r) = Some (name_token i # ts)"
  using lex_name(1) [of i r] lex_license_ref [of i r] lex_document_ref [of i r]
  by (auto simp: closed_def name_token_def)

lemma lex_wrap:
  assumes "\<And>r ts. closed r \<Longrightarrow> lex r = Some ts \<Longrightarrow> lex (s @ r) = Some (us @ ts)" and "closed r" and "lex r = Some ts"
  shows "lex (wrap_if_or n s @ r) = Some (wrap_tokens n us @ ts)"
  using assms(1) [OF assms(2,3)] assms(1) [of "CHR '')'' # r" "(T_RPAREN, '')'') # ts"] assms(3)
  by (simp add: wrap_if_or_def wrap_tokens_def lex_parens)

lemma closed_operator: "closed ('' AND '' @ r)" "closed ('' OR '' @ r)" "closed ('' WITH '' @ r)"
  by (simp_all add: closed_def)

lemma lex_print: "printable n \<Longrightarrow> closed r \<Longrightarrow> lex r = Some ts \<Longrightarrow> lex (print_node n @ r) = Some (node_tokens n @ ts)"
proof (induction n arbitrary: r ts)
  case (SimpleNode i later)
  then show ?case using lex_name(2) [of i r] lex_name_token [of i r ts] by (auto simp: word_ok_def)
next
  case (WithNode l e)
  have "lex (e @ r) = Some (name_token e # ts)" using WithNode.prems by (auto intro: lex_name_token)
  then have "lex ('' WITH '' @ e @ r) = Some ((T_WITH, ''WITH'') # name_token e # ts)"
    unfolding lex_operator(3) by simp
  then have "lex (print_node l @ '' WITH '' @ e @ r) = Some (node_tokens l @ (T_WITH, ''WITH'') # name_token e # ts)"
    by (rule WithNode.IH [rotated 2]) (use WithNode.prems closed_operator in auto)
  then show ?case by simp
next
  case (AndNode a b)
  have "lex (wrap_if_or b (print_node b) @ r) = Some (wrap_tokens b (node_tokens b) @ ts)"
    using AndNode by (intro lex_wrap) auto
  then have "lex ('' AND '' @ wrap_if_or b (print_node b) @ r) = Some ((T_AND, ''AND'') # wrap_tokens b (node_tokens b) @ ts)"
    unfolding lex_operator(1) by simp
  then have "lex (wrap_if_or a (print_node a) @ '' AND '' @ wrap_if_or b (print_node b) @ r)
      = Some (wrap_tokens a (node_tokens a) @ (T_AND, ''AND'') # wrap_tokens b (node_tokens b) @ ts)"
    by (rule lex_wrap [rotated 2]) (use AndNode closed_operator in auto)
  then show ?case by simp
next
  case (OrNode a b)
  have "lex (print_node b @ r) = Some (node_tokens b @ ts)"
    using OrNode by auto
  then have "lex ('' OR '' @ print_node b @ r) = Some ((T_OR, ''OR'') # node_tokens b @ ts)"
    unfolding lex_operator(2) by simp
  then have "lex (print_node a @ '' OR '' @ print_node b @ r) = Some (node_tokens a @ (T_OR, ''OR'') # node_tokens b @ ts)"
    by (rule OrNode.IH(1) [rotated 2]) (use OrNode.prems closed_operator in auto)
  then show ?case by simp
qed

section \<open>The tree that is read back\<close>

text \<open>The text shows neither how \<open>AND\<close> operands nor how \<open>OR\<close> operands are grouped; the
  parser groups them to the left. \<open>regroup\<close> is the tree regrouped so, \<open>and_onto x n\<close> and
  \<open>or_onto x n\<close> add the operands of \<open>n\<close> to \<open>x\<close>.\<close>

fun regroup :: "spdx_node \<Rightarrow> spdx_node"
  and and_onto :: "spdx_node \<Rightarrow> spdx_node \<Rightarrow> spdx_node"
  and or_onto :: "spdx_node \<Rightarrow> spdx_node \<Rightarrow> spdx_node" where
  "regroup (SimpleNode i later) = SimpleNode i later"
| "regroup (WithNode l e) = WithNode l e"
| "regroup (AndNode a b) = and_onto (regroup a) b"
| "regroup (OrNode a b) = or_onto (regroup a) b"
| "and_onto x (AndNode a b) = and_onto (and_onto x a) b"
| "and_onto x (OrNode a b) = AndNode x (or_onto (regroup a) b)"
| "and_onto x (SimpleNode i later) = AndNode x (SimpleNode i later)"
| "and_onto x (WithNode l e) = AndNode x (WithNode l e)"
| "or_onto x (OrNode a b) = or_onto (or_onto x a) b"
| "or_onto x (AndNode a b) = OrNode x (and_onto (regroup a) b)"
| "or_onto x (SimpleNode i later) = OrNode x (SimpleNode i later)"
| "or_onto x (WithNode l e) = OrNode x (WithNode l e)"

text \<open>How deep parentheses stand inside each other in the printed tree.\<close>

primrec print_depth :: "spdx_node \<Rightarrow> nat" where
  "print_depth (SimpleNode i later) = 0"
| "print_depth (WithNode l e) = print_depth l"
| "print_depth (AndNode a b) = max (if is_or a then Suc (print_depth a) else print_depth a)
    (if is_or b then Suc (print_depth b) else print_depth b)"
| "print_depth (OrNode a b) = max (print_depth a) (print_depth b)"

text \<open>Whether a choice of licenses satisfies an expression.\<close>

fun satisfied :: "(spdx_node \<Rightarrow> bool) \<Rightarrow> spdx_node \<Rightarrow> bool" where
  "satisfied v (AndNode a b) \<longleftrightarrow> satisfied v a \<and> satisfied v b"
| "satisfied v (OrNode a b) \<longleftrightarrow> satisfied v a \<or> satisfied v b"
| "satisfied v n \<longleftrightarrow> v n"

lemma satisfied_regroup:
  "satisfied v (regroup n) = satisfied v n"
  "satisfied v (and_onto x n) = (satisfied v x \<and> satisfied v n)"
  "satisfied v (or_onto x n) = (satisfied v x \<or> satisfied v n)"
  by (induction n and x n and x n rule: regroup_and_onto_or_onto.induct) auto

section \<open>Reading the printed tokens\<close>

text \<open>The grammar sees types and values of tokens only.\<close>

definition reads :: "(spdx_token list \<Rightarrow> spdx_node \<Rightarrow> bool) \<Rightarrow> (spdx_token_type \<times> string) list \<Rightarrow> spdx_node \<Rightarrow> bool" where
  "reads g ps n \<longleftrightarrow> (\<forall>ts. map tok_pair ts = ps \<longrightarrow> g ts n)"

lemma reads_rule1: "reads g ps n \<Longrightarrow> (\<And>ts. g ts n \<Longrightarrow> h ts m) \<Longrightarrow> reads h ps m"
  by (simp add: reads_def)

lemma reads_operator:
  assumes "reads g ps n" "reads h qs m" and "\<And>ts us t. g ts n \<Longrightarrow> tok_type t = ty \<Longrightarrow> h us m \<Longrightarrow> f (ts @ t # us) q"
  shows "reads f (ps @ (ty, v) # qs) q"
  using assms by (auto simp: reads_def map_eq_append_conv map_eq_Cons_conv tok_pair_def)

lemma reads_and: "reads (g_and k) ps n \<Longrightarrow> reads (g_with k) qs m \<Longrightarrow> reads (g_and k) (ps @ (T_AND, v) # qs) (AndNode n m)"
  by (rule reads_operator [where g = "g_and k" and h = "g_with k"]) (auto intro: and_more)

lemma reads_or: "reads (g_or k) ps n \<Longrightarrow> reads (g_and k) qs m \<Longrightarrow> reads (g_or k) (ps @ (T_OR, v) # qs) (OrNode n m)"
  by (rule reads_operator [where g = "g_or k" and h = "g_and k"]) (auto intro: or_more)

lemma reads_paren':
  assumes "reads (g_or k) ps n"
  shows "reads (g_atom (Suc k)) ((T_LPAREN, ''('') # ps @ [(T_RPAREN, '')'')]) n"
  using assms by (auto simp: reads_def map_eq_append_conv map_eq_Cons_conv tok_pair_def
      eq_commute [of T_RPAREN] intro!: paren)

lemma reads_paren: "reads (g_or k) ps n \<Longrightarrow> reads (g_with (Suc k)) ((T_LPAREN, ''('') # ps @ [(T_RPAREN, '')'')]) n"
  by (rule reads_rule1 [OF reads_paren']) (auto intro: atom)

lemma reads_simple: "printable (SimpleNode i later) \<Longrightarrow> reads (g_atom k) [if later then (T_OR_LATER, i) else name_token i] (SimpleNode i later)"
  by (auto simp: reads_def map_eq_Cons_conv tok_pair_def name_token_def intro: or_later license)

lemma reads_with:
  assumes "reads (g_atom k) ps n" and "word_ok e \<or> license_ref_ok e"
  shows "reads (g_with k) (ps @ [(T_WITH, ''WITH''), name_token e]) (WithNode n e)"
  using assms by (auto simp: reads_def map_eq_append_conv map_eq_Cons_conv tok_pair_def name_token_def split: if_splits
      intro!: with_exception)

text \<open>An operand of \<open>AND\<close> is either a sum of operands itself or reads as one of \<open>WITH\<close> level.\<close>

definition operand_depth :: "spdx_node \<Rightarrow> nat" where
  "operand_depth n = (if is_or n then Suc (print_depth n) else print_depth n)"

abbreviation operand_tokens :: "spdx_node \<Rightarrow> (spdx_token_type \<times> string) list" where
  "operand_tokens n \<equiv> wrap_tokens n (node_tokens n)"

lemma reads_leaf_with: "printable (WithNode l e) \<Longrightarrow> reads (g_with k) (node_tokens (WithNode l e)) (WithNode l e)"
proof -
  assume p: "printable (WithNode l e)"
  then obtain i later where l: "l = SimpleNode i later" "printable l" "word_ok e \<or> license_ref_ok e" by auto
  then have "reads (g_atom k) (node_tokens l) l" using reads_simple [of i later k] by simp
  from reads_with [OF this l(3)] show ?thesis by simp
qed

definition reads_back :: "spdx_node \<Rightarrow> bool" where
  "reads_back n \<longleftrightarrow>
    (\<forall>k. operand_depth n \<le> k \<longrightarrow> reads (g_and k) (operand_tokens n) (regroup n)) \<and>
    (\<forall>k ps x. operand_depth n \<le> k \<longrightarrow> reads (g_and k) ps x \<longrightarrow>
       reads (g_and k) (ps @ (T_AND, ''AND'') # operand_tokens n) (and_onto x n)) \<and>
    (\<forall>k. print_depth n \<le> k \<longrightarrow> reads (g_or k) (node_tokens n) (regroup n)) \<and>
    (\<forall>k ps x. print_depth n \<le> k \<longrightarrow> reads (g_or k) ps x \<longrightarrow>
       reads (g_or k) (ps @ (T_OR, ''OR'') # node_tokens n) (or_onto x n))"

lemma reads_back_leaf:
  assumes w: "\<And>k. reads (g_with k) (node_tokens n) n"
    and n: "\<not> is_or n" "regroup n = n" "\<And>x. and_onto x n = AndNode x n" "\<And>x. or_onto x n = OrNode x n"
  shows "reads_back n"
proof -
  have a: "reads (g_and k) (node_tokens n) n" for k
    using w by (rule reads_rule1) (rule and_one)
  have o: "reads (g_or k) (node_tokens n) n" for k
    using a by (rule reads_rule1) (rule or_one)
  show ?thesis
    using a o reads_and [OF _ w] reads_or [OF _ a] n
    by (simp add: reads_back_def wrap_tokens_def)
qed

lemma reads_tree: "printable n \<Longrightarrow> reads_back n"
proof (induction n)
  case (SimpleNode i later)
  then have "reads (g_with k) (node_tokens (SimpleNode i later)) (SimpleNode i later)" for k
    using reads_simple [of i later k] unfolding node_tokens.simps by (intro reads_rule1 [OF _ atom])
  then show ?case by (rule reads_back_leaf) simp_all
next
  case (WithNode l e)
  then show ?case by (intro reads_back_leaf reads_leaf_with) simp_all
next
  case (AndNode a b)
  then have IH: "reads_back a" "reads_back b" by auto
  note IH = this [unfolded reads_back_def]
  let ?n = "AndNode a b"
  have d: "operand_depth ?n = max (operand_depth a) (operand_depth b)" "print_depth ?n = operand_depth ?n"
    by (simp_all add: operand_depth_def)
  have 1: "reads (g_and k) (node_tokens ?n) (regroup ?n)" if "operand_depth ?n \<le> k" for k
    using IH that by (simp add: d)
  have 2: "reads (g_and k) (ps @ (T_AND, ''AND'') # node_tokens ?n) (and_onto x ?n)"
    if "operand_depth ?n \<le> k" "reads (g_and k) ps x" for k ps x
  proof -
    have "reads (g_and k) (ps @ (T_AND, ''AND'') # operand_tokens a) (and_onto x a)" using IH that by (simp add: d)
    then have "reads (g_and k) ((ps @ (T_AND, ''AND'') # operand_tokens a) @ (T_AND, ''AND'') # operand_tokens b) (and_onto (and_onto x a) b)"
      using IH that unfolding d by (meson max.boundedE)
    then show ?thesis by simp
  qed
  have 3: "reads (g_or k) (node_tokens ?n) (regroup ?n)" if "operand_depth ?n \<le> k" for k
    using 1 [OF that] by (rule reads_rule1) (rule or_one)
  have 4: "reads (g_or k) (ps @ (T_OR, ''OR'') # node_tokens ?n) (or_onto x ?n)"
    if "operand_depth ?n \<le> k" "reads (g_or k) ps x" for k ps x
  proof -
    have "or_onto x ?n = OrNode x (regroup ?n)" by simp
    then show ?thesis using reads_or [OF that(2) 1 [OF that(1)]] by simp
  qed
  show ?case using 1 2 3 4 unfolding reads_back_def d(2) by (simp add: reads_back_def wrap_tokens_def del: node_tokens.simps regroup.simps and_onto.simps or_onto.simps print_depth.simps)
next
  case (OrNode a b)
  then have IH: "reads_back a" "reads_back b" by auto
  note IH = this [unfolded reads_back_def]
  let ?n = "OrNode a b"
  have 3: "reads (g_or k) (node_tokens ?n) (regroup ?n)" if "print_depth ?n \<le> k" for k
    using IH that by simp
  have 4: "reads (g_or k) (ps @ (T_OR, ''OR'') # node_tokens ?n) (or_onto x ?n)"
    if "print_depth ?n \<le> k" "reads (g_or k) ps x" for k ps x
  proof -
    have "reads (g_or k) (ps @ (T_OR, ''OR'') # node_tokens a) (or_onto x a)" using IH that by simp
    then have "reads (g_or k) ((ps @ (T_OR, ''OR'') # node_tokens a) @ (T_OR, ''OR'') # node_tokens b) (or_onto (or_onto x a) b)"
      using IH that unfolding print_depth.simps by (meson max.boundedE)
    then show ?thesis by simp
  qed
  have w: "reads (g_with k) (operand_tokens ?n) (regroup ?n)" if le: "operand_depth ?n \<le> k" for k
  proof -
    obtain k' where k: "k = Suc k'" "print_depth ?n \<le> k'" using le by (cases k) (auto simp: operand_depth_def)
    show ?thesis using reads_paren [OF 3 [OF k(2)]] k by (simp add: wrap_tokens_def)
  qed
  have 1: "reads (g_and k) (operand_tokens ?n) (regroup ?n)" if "operand_depth ?n \<le> k" for k
    using w [OF that] by (rule reads_rule1) (rule and_one)
  have 2: "reads (g_and k) (ps @ (T_AND, ''AND'') # operand_tokens ?n) (and_onto x ?n)"
    if "operand_depth ?n \<le> k" "reads (g_and k) ps x" for k ps x
  proof -
    have "and_onto x ?n = AndNode x (regroup ?n)" by simp
    then show ?thesis using reads_and [OF that(2) w [OF that(1)]] by simp
  qed
  show ?case using 1 2 3 4 by (simp add: reads_back_def del: node_tokens.simps regroup.simps and_onto.simps or_onto.simps print_depth.simps)
qed

section \<open>Properties\<close>

lemma lex_map_SomeD: "(case r of Inr ts \<Rightarrow> lex e = Some (map tok_pair ts) | Inl err \<Rightarrow> lex e = None \<and> Q err) \<Longrightarrow>
    lex e = Some ps \<Longrightarrow> \<exists>ts. r = Inr ts \<and> map tok_pair ts = ps"
  by (cases r) auto

lemma print_parse_roundtrip':
  assumes "printable n" and "print_depth n \<le> MAX_NESTING_DEPTH"
  shows "\<exists>tokens. tokenize (print_node n) = Inr tokens \<and> parse tokens = Some (Inr (regroup n))"
proof -
  have "lex (print_node n) = Some (node_tokens n)"
    using lex_print [OF assms(1), of "[]" "[]"] by simp
  then obtain tokens where t: "tokenize (print_node n) = Inr tokens" "map tok_pair tokens = node_tokens n"
    using lex_map_SomeD [OF tokenize_eq_lex'] by blast
  then have "g_or MAX_NESTING_DEPTH tokens (regroup n)"
    using reads_tree [OF assms(1)] assms(2) by (auto simp: reads_back_def reads_def)
  then show ?thesis using t parse_iff_grammar' by blast
qed



lemma print_regroup_onto:
  "print_node (regroup n) = print_node n \<and> is_or (regroup n) = is_or n"
  "print_node (and_onto x n) = print_node (AndNode x n) \<and> \<not> is_or (and_onto x n)"
  "print_node (or_onto x n) = print_node (OrNode x n) \<and> is_or (or_onto x n)"
  by (induction n and x n and x n rule: regroup_and_onto_or_onto.induct) (auto simp: wrap_if_or_def)

text \<open>Regrouping changes neither what the expression asks for, under any choice of the
  licenses a user may pick, nor the printed text: reading a printed expression back keeps the
  license.\<close>

theorem regroup_same_license:
  "satisfied v (regroup n) = satisfied v n \<and> print_node (regroup n) = print_node n"
  by (simp add: satisfied_regroup print_regroup_onto)

text \<open>The parentheses of a compound license under \<open>WITH\<close> are lost: the parser builds
  such a tree from \<open>(A OR B) WITH e\<close>, the printer writes \<open>A OR B WITH e\<close>, and that reads as another
  license, which \<open>A\<close> alone satisfies.\<close>

lemma with_parentheses_lost:
  "\<exists>toks n toks' n'.
     tokenize ''(MIT OR Zlib) WITH Bison-exception'' = Inr toks \<and> parse toks = Some (Inr n) \<and>
     tokenize (print_node n) = Inr toks' \<and> parse toks' = Some (Inr n') \<and>
     satisfied (\<lambda>l. l = SimpleNode ''MIT'' False) n' \<and> \<not> satisfied (\<lambda>l. l = SimpleNode ''MIT'' False) n"
proof -
  let ?n = "WithNode (OrNode (SimpleNode ''MIT'' False) (SimpleNode ''Zlib'' False)) ''Bison-exception''"
  let ?n' = "OrNode (SimpleNode ''MIT'' False) (WithNode (SimpleNode ''Zlib'' False) ''Bison-exception'')"
  have w: "word_ok ''MIT''" "word_ok ''Zlib''" "word_ok ''Bison-exception''" by code_simp+
  let ?toks = "[(T_LPAREN, ''(''), (T_LICENSE_ID, ''MIT''), (T_OR, ''OR''), (T_LICENSE_ID, ''Zlib''),
     (T_RPAREN, '')''), (T_WITH, ''WITH''), (T_LICENSE_ID, ''Bison-exception'')]"
  have "case tokenize ''(MIT OR Zlib) WITH Bison-exception'' of Inr toks \<Rightarrow> map tok_pair toks = ?toks | Inl e \<Rightarrow> False"
    by code_simp
  then obtain toks where toks: "tokenize ''(MIT OR Zlib) WITH Bison-exception'' = Inr toks" "map tok_pair toks = ?toks"
    by (auto split: sum.splits)
  have "reads (g_or 31) (node_tokens (node_license ?n)) (node_license ?n)"
    using reads_tree [of "node_license ?n"] w by (simp add: reads_back_def)
  from reads_with [OF reads_paren' [OF this], of "''Bison-exception''"]
  have "reads (g_or MAX_NESTING_DEPTH) ?toks ?n"
    using w by (simp add: name_token_def reads_def or_one and_one)
  then have "parse toks = Some (Inr ?n)" using toks(2) parse_iff_grammar' by (auto simp: reads_def)
  moreover obtain toks' where "tokenize (print_node ?n) = Inr toks'" "parse toks' = Some (Inr ?n')"
    using print_parse_roundtrip' [of ?n'] w by (auto simp: ex_bool_eq)
  moreover have "satisfied (\<lambda>l. l = SimpleNode ''MIT'' False) ?n'" "\<not> satisfied (\<lambda>l. l = SimpleNode ''MIT'' False) ?n"
    by simp_all
  ultimately show ?thesis using toks(1) by blast
qed

end
