(* ===== verification/License_Map.thy ===== *)
theory License_Map
  imports Spdx_Print Complex_Main
begin

text \<open>
  \<open>license_mapper.py\<close> and \<open>spdx_license_data.py\<close> of \<open>src/debcraft/domain/package_intelligence/\<close>: the
  ladder of matching rules from a Debian license name to an SPDX expression. \<open>SequenceMatcher.ratio\<close>
  is written out for texts below 200 characters, above which \<open>difflib\<close> ignores popular characters.
  A ratio is a quotient of two small integers; it is compared and rounded down as such. Its text with
  two decimals, which only enters a rationale, is a parameter.
\<close>

section \<open>The SPDX license list\<close>

record spdx_entry =
  se_license_id :: string
  se_name :: string
  se_is_deprecated :: bool

record spdx_license_data =
  sd_version :: string
  sd_licenses :: "spdx_entry list"
  sd_by_id :: "(string, spdx_entry) dict"
  sd_by_name :: "(string, spdx_entry) dict"

definition spdx_data :: "string \<Rightarrow> spdx_entry list \<Rightarrow> spdx_license_data" where
  "spdx_data version licenses =
     \<lparr>sd_version = version, sd_licenses = licenses,
      sd_by_id = foldl (\<lambda>by_id entry. dict_set by_id (py_lower (se_license_id entry)) entry) [] licenses,
      sd_by_name = foldl (\<lambda>by_name entry. dict_set by_name (py_lower (se_name entry)) entry) [] licenses\<rparr>"

definition get_by_id :: "spdx_license_data \<Rightarrow> string \<Rightarrow> spdx_entry option" where
  "get_by_id data license_id = dict_get (sd_by_id data) (py_lower license_id)"

definition get_by_name :: "spdx_license_data \<Rightarrow> string \<Rightarrow> spdx_entry option" where
  "get_by_name data name = dict_get (sd_by_name data) (py_lower name)"

definition identifiers :: "spdx_license_data \<Rightarrow> string list" where
  "identifiers data = map se_license_id (sd_licenses data)"

section \<open>\<open>difflib.SequenceMatcher\<close>\<close>

fun common_prefix :: "string \<Rightarrow> string \<Rightarrow> nat" where
  "common_prefix (x # xs) (y # ys) = (if x = y then Suc (common_prefix xs ys) else 0)"
| "common_prefix _ _ = 0"

text \<open>The longest block, the first one in \<open>a\<close>, and of those the first one in \<open>b\<close>.\<close>

definition find_longest_match :: "string \<Rightarrow> string \<Rightarrow> nat \<times> nat \<times> nat" where
  "find_longest_match a b = foldl (\<lambda>(besti, bestj, bestsize) (i, j).
     let k = common_prefix (drop i a) (drop j b) in if k > bestsize then (i, j, k) else (besti, bestj, bestsize))
     (0, 0, 0) (concat (map (\<lambda>i. map (Pair i) [0..<length b]) [0..<length a]))"

lemma common_prefix_le: "common_prefix xs ys \<le> length xs" "common_prefix xs ys \<le> length ys"
  by (induction xs ys rule: common_prefix.induct) auto

lemma find_longest_match_bounds:
  assumes "find_longest_match a b = (i, j, k)"
  shows "i + k \<le> length a \<and> j + k \<le> length b"
proof -
  define inv where "inv = (\<lambda>(i, j, k). i + k \<le> length a \<and> j + k \<le> length b)"
  define step where "step = (\<lambda>(besti, bestj, bestsize) (i, j).
     let k = common_prefix (drop i a) (drop j b) in if k > bestsize then (i, j, k) else (besti, bestj, bestsize))"
  have run: "inv (foldl step s ps)" if "inv s" "\<And>p. p \<in> set ps \<Longrightarrow> fst p < length a \<and> snd p < length b" for s ps
    using that
  proof (induction ps arbitrary: s)
    case (Cons p ps)
    obtain x y where p: "p = (x, y)" "x < length a" "y < length b" using Cons.prems(2) [of p] by (cases p) auto
    have "inv (step s p)"
      using Cons.prems(1) p common_prefix_le [of "drop x a" "drop y b"] by (auto simp: inv_def step_def Let_def split: prod.splits)
    then show ?case using Cons by simp
  qed simp
  have "inv (foldl step (0, 0, 0) (concat (map (\<lambda>i. map (Pair i) [0..<length b]) [0..<length a])))"
    by (rule run) (auto simp: inv_def)
  then have "inv (find_longest_match a b)" by (simp only: find_longest_match_def step_def)
  then show ?thesis by (simp add: assms inv_def)
qed

function matches :: "string \<Rightarrow> string \<Rightarrow> nat" where
  "matches a b = (case find_longest_match a b of (i, j, k) \<Rightarrow>
     if k = 0 then 0 else k + matches (take i a) (take j b) + matches (drop (i + k) a) (drop (j + k) b))"
  by pat_completeness auto

termination matches
proof (relation "measure (\<lambda>(a, b). length a)", goal_cases)
  case (2 a b i y j k)
  then have "i + k \<le> length a" using find_longest_match_bounds [of a b i j k] by simp
  then show ?case using 2 by auto
next
  case (3 a b i y j k)
  then have "i + k \<le> length a" using find_longest_match_bounds [of a b i j k] by simp
  then show ?case using 3 by auto
qed simp

declare matches.simps [simp del]

text \<open>\<open>ratio()\<close>: the number of matches doubled, over the sum of the lengths.\<close>

definition ratio :: "string \<Rightarrow> string \<Rightarrow> real" where
  "ratio a b = (if length a + length b = 0 then 1 else 2 * real (matches a b) / real (length a + length b))"

section \<open>Results\<close>

datatype mapping_algorithm = EXACT_SPDX | DEBIAN_ALIAS | NORMALIZED_SPELLING | SPDX_FULL_NAME
  | FUZZY_SIMILARITY | LICENSE_TEXT_HASH | UNMAPPED

record license_mapping_result =
  lm_spdx_expression :: string
  lm_confidence :: int
  lm_algorithm :: mapping_algorithm
  lm_rationale :: string

definition MAX_INPUT_LENGTH :: nat where "MAX_INPUT_LENGTH = 512"
definition MAX_SPDX_EXPRESSION_LENGTH :: nat where "MAX_SPDX_EXPRESSION_LENGTH = 1024"
definition MAX_RATIONALE_LENGTH :: nat where "MAX_RATIONALE_LENGTH = 512"

definition clamp :: "int \<Rightarrow> int \<Rightarrow> int \<Rightarrow> int" where "clamp value lo hi = max lo (min hi value)"

definition truncate_rationale :: "string \<Rightarrow> string" where
  "truncate_rationale rationale =
     (let rationale = (if rationale = [] then ''No rationale available'' else rationale)
      in if length rationale > MAX_RATIONALE_LENGTH then take (MAX_RATIONALE_LENGTH - 3) rationale @ ''...'' else rationale)"

definition truncate_expression :: "string \<Rightarrow> string" where
  "truncate_expression expression =
     (if length expression > MAX_SPDX_EXPRESSION_LENGTH then take MAX_SPDX_EXPRESSION_LENGTH expression else expression)"

definition make_result :: "string \<Rightarrow> int \<Rightarrow> mapping_algorithm \<Rightarrow> string \<Rightarrow> license_mapping_result" where
  "make_result spdx_expression confidence algorithm rationale =
     \<lparr>lm_spdx_expression = truncate_expression spdx_expression, lm_confidence = clamp confidence 0 100,
      lm_algorithm = algorithm, lm_rationale = truncate_rationale rationale\<rparr>"

definition truncation_note :: string where
  "truncation_note = '' [Note: input was truncated to '' @ nat_str MAX_INPUT_LENGTH @ '' characters]''"

definition apply_truncation_note :: "license_mapping_result \<Rightarrow> bool \<Rightarrow> license_mapping_result" where
  "apply_truncation_note result truncated =
     (if \<not> truncated then result
      else (let available = MAX_RATIONALE_LENGTH - length truncation_note;
                base_rationale = (if length (lm_rationale result) > available
                  then take (available - 3) (lm_rationale result) @ ''...'' else lm_rationale result)
            in result\<lparr>lm_rationale := base_rationale @ truncation_note\<rparr>))"

section \<open>The rules\<close>

definition DEBIAN_ALIASES :: "(string, string) dict" where
  "DEBIAN_ALIASES =
     [(''gpl-2+'', ''GPL-2.0-or-later''), (''gpl-2'', ''GPL-2.0-only''), (''gpl-3+'', ''GPL-3.0-or-later''),
      (''gpl-3'', ''GPL-3.0-only''), (''lgpl-2+'', ''LGPL-2.0-or-later''), (''lgpl-2'', ''LGPL-2.0-only''),
      (''lgpl-2.1+'', ''LGPL-2.1-or-later''), (''lgpl-2.1'', ''LGPL-2.1-only''), (''lgpl-3+'', ''LGPL-3.0-or-later''),
      (''lgpl-3'', ''LGPL-3.0-only''), (''gfdl-1.2+'', ''GFDL-1.2-or-later''), (''gfdl-1.2'', ''GFDL-1.2-only''),
      (''gfdl-1.3+'', ''GFDL-1.3-or-later''), (''gfdl-1.3'', ''GFDL-1.3-only''), (''expat'', ''MIT''),
      (''bsd'', ''BSD-3-Clause''), (''public-domain'', ''CC0-1.0''), (''artistic'', ''Artistic-2.0'')]"

definition normalize_for_spelling :: "string \<Rightarrow> string" where
  "normalize_for_spelling s = filter (\<lambda>c. c \<notin> {CHR ''-'', CHR ''_'', CHR ''.'', SPC}) (py_lower s)"

definition is_lower_alnum :: "char \<Rightarrow> bool" where
  "is_lower_alnum c = (let n = of_char c :: nat in (97 \<le> n \<and> n \<le> 122) \<or> (48 \<le> n \<and> n \<le> 57))"

text \<open>\<open>re.sub(r"-{2,}", "-", s)\<close>.\<close>

fun squeeze_hyphens :: "string \<Rightarrow> string" where
  "squeeze_hyphens (x # y # s) = (if x = CHR ''-'' \<and> y = CHR ''-'' then squeeze_hyphens (y # s) else x # squeeze_hyphens (y # s))"
| "squeeze_hyphens s = s"

definition normalize_for_license_ref :: "string \<Rightarrow> string" where
  "normalize_for_license_ref s =
     lstrip_of (\<lambda>c. c = CHR ''-'') (rstrip_of (\<lambda>c. c = CHR ''-'')
       (squeeze_hyphens (map (\<lambda>c. if is_lower_alnum c then c else CHR ''-'') (py_lower s))))"

definition normalized_index :: "spdx_license_data \<Rightarrow> (string, string) dict" where
  "normalized_index data = foldl (\<lambda>index entry. let norm = normalize_for_spelling (se_license_id entry) in
     if dict_has index norm then index else dict_set index norm (se_license_id entry)) [] (sd_licenses data)"

definition quoted :: "string \<Rightarrow> string" where "quoted s = [CHR 0x27] @ s @ [CHR 0x27]"

definition try_exact_spdx :: "spdx_license_data \<Rightarrow> string \<Rightarrow> license_mapping_result option" where
  "try_exact_spdx data identifier = map_option (\<lambda>entry. make_result (se_license_id entry) 100 EXACT_SPDX
     (''Exact case-insensitive match against SPDX identifier '' @ quoted (se_license_id entry))) (get_by_id data identifier)"

definition try_debian_alias :: "string \<Rightarrow> license_mapping_result option" where
  "try_debian_alias identifier = map_option (\<lambda>spdx_id. make_result spdx_id 100 DEBIAN_ALIAS
     (''Debian alias '' @ quoted identifier @ '' maps to SPDX expression '' @ quoted spdx_id))
     (dict_get DEBIAN_ALIASES (py_lower identifier))"

definition try_normalized_spelling :: "spdx_license_data \<Rightarrow> string \<Rightarrow> license_mapping_result option" where
  "try_normalized_spelling data identifier = map_option (\<lambda>canonical_id. make_result canonical_id 99 NORMALIZED_SPELLING
     (''Normalized spelling match: '' @ quoted identifier @ '' resolved to '' @ quoted canonical_id
      @ '' after removing hyphens, underscores, dots, and spaces''))
     (dict_get (normalized_index data) (normalize_for_spelling identifier))"

definition try_spdx_full_name :: "spdx_license_data \<Rightarrow> string \<Rightarrow> license_mapping_result option" where
  "try_spdx_full_name data identifier = map_option (\<lambda>entry. make_result (se_license_id entry) 98 SPDX_FULL_NAME
     (''Full name match: '' @ quoted identifier @ '' matches SPDX license name '' @ quoted (se_name entry)
      @ '' (identifier: '' @ quoted (se_license_id entry) @ '')'')) (get_by_name data identifier)"

definition try_license_text_hash :: "string option \<Rightarrow> license_mapping_result option" where
  "try_license_text_hash license_text = None"

text \<open>The loop over the identifiers keeps the first of the best.\<close>

definition best_match :: "string \<Rightarrow> string list \<Rightarrow> real \<times> string" where
  "best_match identifier ids = foldl (\<lambda>(best_ratio, best_id) spdx_id.
     let r = ratio (py_lower identifier) (py_lower spdx_id) in if r > best_ratio then (r, spdx_id) else (best_ratio, best_id))
     (0, []) ids"

definition try_fuzzy_similarity :: "(real \<Rightarrow> string) \<Rightarrow> spdx_license_data \<Rightarrow> string \<Rightarrow> license_mapping_result option" where
  "try_fuzzy_similarity two_decimals data identifier =
     (case best_match identifier (identifiers data) of (best_ratio, best_id) \<Rightarrow>
        if best_ratio \<ge> 80 / 100 then
          (let confidence = clamp \<lfloor>best_ratio * 100\<rfloor> 90 97
           in Some (make_result best_id confidence FUZZY_SIMILARITY
             (''Fuzzy match: '' @ quoted identifier @ '' is similar to SPDX identifier '' @ quoted best_id @ '' with ratio ''
              @ two_decimals best_ratio @ '' (confidence clamped to '' @ int_str confidence @ '')'')))
        else None)"

definition unmapped_fallback :: "string \<Rightarrow> license_mapping_result" where
  "unmapped_fallback identifier =
     (let normalized = normalize_for_license_ref identifier;
          normalized = (if normalized = [] then ''unknown'' else normalized)
      in make_result (''LicenseRef-debcraft-'' @ normalized) 0 UNMAPPED
           (''No mapping found for '' @ quoted identifier @ ''; assigned custom LicenseRef''))"

definition map_license :: "(real \<Rightarrow> string) \<Rightarrow> spdx_license_data \<Rightarrow> string \<Rightarrow> string option \<Rightarrow> license_mapping_result" where
  "map_license two_decimals data debian_identifier license_text =
     (if debian_identifier = [] \<or> py_strip debian_identifier = [] then
        make_result ''LicenseRef-debcraft-unknown'' 0 UNMAPPED ''Input identifier was empty or whitespace-only''
      else
        (let truncated = length debian_identifier > MAX_INPUT_LENGTH;
             identifier = py_strip (if truncated then take MAX_INPUT_LENGTH debian_identifier else debian_identifier)
         in case try_exact_spdx data identifier of Some result \<Rightarrow> apply_truncation_note result truncated | None \<Rightarrow>
           (case try_debian_alias identifier of Some result \<Rightarrow> apply_truncation_note result truncated | None \<Rightarrow>
           (case try_normalized_spelling data identifier of Some result \<Rightarrow> apply_truncation_note result truncated | None \<Rightarrow>
           (case try_spdx_full_name data identifier of Some result \<Rightarrow> apply_truncation_note result truncated | None \<Rightarrow>
           (case try_license_text_hash license_text of Some result \<Rightarrow> apply_truncation_note result truncated | None \<Rightarrow>
           (case try_fuzzy_similarity two_decimals data identifier of Some result \<Rightarrow> apply_truncation_note result truncated | None \<Rightarrow>
              apply_truncation_note (unmapped_fallback identifier) truncated)))))))"

section \<open>What a result says\<close>

definition confidence_ok :: "license_mapping_result \<Rightarrow> bool" where
  "confidence_ok r = (case lm_algorithm r of
     EXACT_SPDX \<Rightarrow> lm_confidence r = 100 | DEBIAN_ALIAS \<Rightarrow> lm_confidence r = 100
   | NORMALIZED_SPELLING \<Rightarrow> lm_confidence r = 99 | SPDX_FULL_NAME \<Rightarrow> lm_confidence r = 98
   | FUZZY_SIMILARITY \<Rightarrow> lm_confidence r \<in> {90..97} | LICENSE_TEXT_HASH \<Rightarrow> False | UNMAPPED \<Rightarrow> lm_confidence r = 0)"

definition sizes_ok :: "license_mapping_result \<Rightarrow> bool" where
  "sizes_ok r \<longleftrightarrow> length (lm_spdx_expression r) \<le> 1024 \<and> lm_rationale r \<noteq> [] \<and> length (lm_rationale r) \<le> 512"

lemmas limits = MAX_INPUT_LENGTH_def MAX_SPDX_EXPRESSION_LENGTH_def MAX_RATIONALE_LENGTH_def

lemma make_result_fields [simp]:
  "lm_algorithm (make_result e c a t) = a" "lm_confidence (make_result e c a t) = clamp c 0 100"
  "lm_spdx_expression (make_result e c a t) = truncate_expression e"
  by (simp_all add: make_result_def)

lemma make_result_sizes [simp]: "sizes_ok (make_result e c a t)"
  by (auto simp: sizes_ok_def make_result_def truncate_expression_def truncate_rationale_def limits Let_def)

lemma length_truncation_note: "length truncation_note < 500" "truncation_note \<noteq> []"
proof -
  have "length (nat_str 512) = 3" by code_simp
  then show "length truncation_note < 500" by (simp add: truncation_note_def limits)
  show "truncation_note \<noteq> []" by (simp add: truncation_note_def)
qed

lemma note_fields [simp]:
  "lm_algorithm (apply_truncation_note r t) = lm_algorithm r" "lm_confidence (apply_truncation_note r t) = lm_confidence r"
  "lm_spdx_expression (apply_truncation_note r t) = lm_spdx_expression r"
  by (simp_all add: apply_truncation_note_def Let_def)

lemma note_confidence [simp]: "confidence_ok (apply_truncation_note r t) = confidence_ok r"
  unfolding confidence_ok_def by (simp only: note_fields)

lemma note_sizes [simp]: "sizes_ok r \<Longrightarrow> sizes_ok (apply_truncation_note r t)"
  using length_truncation_note by (auto simp: apply_truncation_note_def Let_def sizes_ok_def limits)

lemma clamp_simps [simp]: "clamp (clamp c 90 97) 0 100 = clamp c 90 97" "90 \<le> clamp c 90 97" "clamp c 90 97 \<le> 97"
  by (auto simp: clamp_def)

lemma clamp_values [simp]: "clamp 100 0 100 = 100" "clamp 99 0 100 = 99" "clamp 98 0 100 = 98" "clamp 0 0 100 = 0"
  by (simp_all add: clamp_def)

definition result_ok :: "license_mapping_result \<Rightarrow> bool" where "result_ok r \<longleftrightarrow> sizes_ok r \<and> confidence_ok r"

lemma rules_ok:
  "try_exact_spdx data i = Some r \<Longrightarrow> result_ok r \<and> lm_algorithm r = EXACT_SPDX"
  "try_debian_alias i = Some r \<Longrightarrow> result_ok r \<and> lm_algorithm r = DEBIAN_ALIAS"
  "try_normalized_spelling data i = Some r \<Longrightarrow> result_ok r \<and> lm_algorithm r = NORMALIZED_SPELLING"
  "try_spdx_full_name data i = Some r \<Longrightarrow> result_ok r \<and> lm_algorithm r = SPDX_FULL_NAME"
  by (auto simp: try_exact_spdx_def try_debian_alias_def try_normalized_spelling_def try_spdx_full_name_def
      result_ok_def confidence_ok_def)

lemma fuzzy_ok: "try_fuzzy_similarity two_decimals data i = Some r \<Longrightarrow> result_ok r \<and> lm_algorithm r = FUZZY_SIMILARITY"
  by (auto simp: try_fuzzy_similarity_def result_ok_def confidence_ok_def Let_def split: prod.splits if_splits)

text \<open>The identifiers a fallback makes are license references.\<close>

lemma squeeze_subset: "set (squeeze_hyphens s) \<subseteq> set s" "length (squeeze_hyphens s) \<le> length s"
  by (induction s rule: squeeze_hyphens.induct) auto

lemma set_normalize: "c \<in> set (normalize_for_license_ref s) \<Longrightarrow> is_lower_alnum c \<or> c = CHR ''-''"
proof -
  let ?m = "map (\<lambda>c. if is_lower_alnum c then c else CHR ''-'') (py_lower s)"
  assume "c \<in> set (normalize_for_license_ref s)"
  then have "c \<in> set (squeeze_hyphens ?m)"
    unfolding normalize_for_license_ref_def lstrip_of_def rstrip_of_def by (auto dest!: set_dropWhileD)
  then have "c \<in> set ?m" using squeeze_subset(1) by blast
  then show ?thesis by auto
qed

lemma length_normalize: "length (normalize_for_license_ref s) \<le> length s"
proof -
  let ?m = "map (\<lambda>c. if is_lower_alnum c then c else CHR ''-'') (py_lower s)"
  have "length (lstrip_of P (rstrip_of P x)) \<le> length x" for P x
    using length_dropWhile_le [of P "rev (dropWhile P (rev x))"] length_dropWhile_le [of P "rev x"]
    by (simp add: lstrip_of_def rstrip_of_def)
  then have "length (normalize_for_license_ref s) \<le> length (squeeze_hyphens ?m)"
    unfolding normalize_for_license_ref_def .
  also have "\<dots> \<le> length ?m" by (rule squeeze_subset(2))
  finally show ?thesis by (simp add: py_lower_def)
qed

lemma license_ref_made:
  assumes "list_all (\<lambda>c. is_lower_alnum c \<or> c = CHR ''-'') n"
  shows "license_ref_ok (''LicenseRef-debcraft-'' @ n)"
proof -
  have "is_lower_alnum c \<or> c = CHR ''-'' \<Longrightarrow> is_ident_char c" for c
    by (auto simp: is_lower_alnum_def is_ident_char_def Let_def)
  then have "\<forall>c \<in> set n. is_ident_char c" using assms by (auto simp: list_all_iff)
  moreover have "list_all is_ident_char ''debcraft-''" by code_simp
  ultimately have "\<forall>c \<in> set (''debcraft-'' @ n). is_ident_char c" by (simp only: list_all_iff set_append Un_iff) blast
  then have b: "takeWhile is_ident_char (''debcraft-'' @ n) = ''debcraft-'' @ n" by (simp only: takeWhile_eq_all_conv)
  have "startswith (py_lower ''LicenseRef-'' @ py_lower (''debcraft-'' @ n)) ''licenseref-''"
  proof -
    have "py_lower ''LicenseRef-'' = ''licenseref-''" by code_simp
    then show ?thesis unfolding startswith_iff by blast
  qed
  moreover have "py_lower (''LicenseRef-debcraft-'' @ n) = py_lower ''LicenseRef-'' @ py_lower (''debcraft-'' @ n)"
    by (simp add: py_lower_def)
  ultimately have st: "startswith (py_lower (''LicenseRef-debcraft-'' @ n)) ''licenseref-''" by (simp only:)
  have t: "take 11 (''LicenseRef-debcraft-'' @ n) = ''LicenseRef-''" and d: "drop 11 (''LicenseRef-debcraft-'' @ n) = ''debcraft-'' @ n"
    by simp_all
  show ?thesis
    unfolding license_ref_ok_def match_license_ref_def if_P [OF st] d b t Let_def by simp
qed

lemma unmapped_ok:
  assumes "length i \<le> 512"
  shows "result_ok (unmapped_fallback i) \<and> lm_algorithm (unmapped_fallback i) = UNMAPPED \<and>
    license_ref_ok (lm_spdx_expression (unmapped_fallback i))"
proof -
  let ?n = "if normalize_for_license_ref i = [] then ''unknown'' else normalize_for_license_ref i"
  have "list_all (\<lambda>c. is_lower_alnum c \<or> c = CHR ''-'') ''unknown''" by code_simp
  then have "list_all (\<lambda>c. is_lower_alnum c \<or> c = CHR ''-'') ?n"
    using set_normalize [of _ i] by (simp add: list_all_iff)
  then have l: "license_ref_ok (''LicenseRef-debcraft-'' @ ?n)" by (rule license_ref_made)
  have "length ?n \<le> 512" using length_normalize [of i] assms by simp
  then have "truncate_expression (''LicenseRef-debcraft-'' @ ?n) = ''LicenseRef-debcraft-'' @ ?n"
    by (simp add: truncate_expression_def limits)
  with l show ?thesis by (simp add: unmapped_fallback_def Let_def result_ok_def confidence_ok_def del: append.simps)
qed

lemma length_py_strip: "length (py_strip s) \<le> length s"
  using length_dropWhile_le [of py_isspace "rev (dropWhile py_isspace (rev s))"] length_dropWhile_le [of py_isspace "rev s"]
  by (simp add: py_strip_def py_lstrip_def py_rstrip_def lstrip_of_def rstrip_of_def)

lemma map_license_ok:
  "result_ok (map_license two_decimals data i t) \<and>
   (lm_algorithm (map_license two_decimals data i t) = UNMAPPED \<longrightarrow>
      license_ref_ok (lm_spdx_expression (map_license two_decimals data i t)))"
proof (cases "i = [] \<or> py_strip i = []")
  case True
  have "license_ref_ok (''LicenseRef-debcraft-'' @ ''unknown'')" by (rule license_ref_made) code_simp
  then show ?thesis using True
    by (auto simp: map_license_def result_ok_def confidence_ok_def truncate_expression_def limits)
next
  case False
  let ?i = "py_strip (if length i > MAX_INPUT_LENGTH then take MAX_INPUT_LENGTH i else i)"
  have "length ?i \<le> 512"
    using length_py_strip [of "take MAX_INPUT_LENGTH i"] length_py_strip [of i] by (auto simp: limits)
  note u = unmapped_ok [OF this]
  let ?b = "length i > MAX_INPUT_LENGTH"
  have a: "result_ok r \<Longrightarrow> result_ok (apply_truncation_note r b)" for r b by (simp add: result_ok_def)
  have m: "map_license two_decimals data i t = apply_truncation_note r ?b \<and> result_ok r \<and>
      (lm_algorithm r = UNMAPPED \<longrightarrow> license_ref_ok (lm_spdx_expression r))"
    if "r = (case try_exact_spdx data ?i of Some r \<Rightarrow> r | None \<Rightarrow> case try_debian_alias ?i of Some r \<Rightarrow> r | None \<Rightarrow>
      case try_normalized_spelling data ?i of Some r \<Rightarrow> r | None \<Rightarrow> case try_spdx_full_name data ?i of Some r \<Rightarrow> r | None \<Rightarrow>
      case try_fuzzy_similarity two_decimals data ?i of Some r \<Rightarrow> r | None \<Rightarrow> unmapped_fallback ?i)" for r
  proof (cases "try_exact_spdx data ?i")
    case (Some x)
    then show ?thesis using that rules_ok(1) [OF Some] False by (simp add: map_license_def Let_def)
  next
    case e: None
    show ?thesis
    proof (cases "try_debian_alias ?i")
      case (Some x)
      then show ?thesis using that e rules_ok(2) [OF Some] False by (simp add: map_license_def Let_def)
    next
      case d: None
      show ?thesis
      proof (cases "try_normalized_spelling data ?i")
        case (Some x)
        then show ?thesis using that e d rules_ok(3) [OF Some] False by (simp add: map_license_def Let_def)
      next
        case n: None
        show ?thesis
        proof (cases "try_spdx_full_name data ?i")
          case (Some x)
          then show ?thesis using that e d n rules_ok(4) [OF Some] False by (simp add: map_license_def Let_def)
        next
          case f: None
          show ?thesis
          proof (cases "try_fuzzy_similarity two_decimals data ?i")
            case (Some x)
            then show ?thesis using that e d n f fuzzy_ok [OF Some] False
              by (simp add: map_license_def Let_def try_license_text_hash_def)
          next
            case None
            then show ?thesis using that e d n f u False by (simp add: map_license_def Let_def try_license_text_hash_def)
          qed
        qed
      qed
    qed
  qed
  show ?thesis using m [OF refl] a by simp
qed

text \<open>Every mapping is within its limits and its confidence tells the rule it came from: at
  most 1024 characters of expression, a rationale of 1 to 512 characters also after the note about
  truncation, confidence 100 for an identifier of the list or a Debian alias, 99 for another
  spelling, 98 for a full name, 90 to 97 for a similar name, and 0 exactly when nothing was found.\<close>

theorem map_license_bounds:
  "sizes_ok (map_license two_decimals data debian_identifier license_text) \<and>
   confidence_ok (map_license two_decimals data debian_identifier license_text)"
  using map_license_ok by (simp add: result_ok_def)

text \<open>Property C11. An unmapped license still gives a valid SPDX expression: the identifier made up for it
  is tokenized and parsed as one license reference.\<close>

theorem unmapped_expression_parses:
  assumes "lm_algorithm (map_license two_decimals data debian_identifier license_text) = UNMAPPED"
  shows "\<exists>tokens. tokenize (lm_spdx_expression (map_license two_decimals data debian_identifier license_text)) = Inr tokens \<and>
    parse tokens = Some (Inr (SimpleNode (lm_spdx_expression (map_license two_decimals data debian_identifier license_text)) False))"
proof -
  let ?e = "lm_spdx_expression (map_license two_decimals data debian_identifier license_text)"
  have "printable (SimpleNode ?e False)" using assms map_license_ok by simp
  then show ?thesis using print_parse_roundtrip' [of "SimpleNode ?e False"] by simp
qed

theorem unmapped_expression_parses_witness:
  "\<exists>tokens. tokenize ''LicenseRef-debcraft-my-own'' = Inr tokens \<and>
     parse tokens = Some (Inr (SimpleNode ''LicenseRef-debcraft-my-own'' False))"
proof -
  have "map_license (\<lambda>_. []) (spdx_data ''3'' []) '' My -Own!'' None =
    \<lparr>lm_spdx_expression = ''LicenseRef-debcraft-my-own'', lm_confidence = 0, lm_algorithm = UNMAPPED,
     lm_rationale = ''No mapping found for '' @ quoted ''My -Own!'' @ ''; assigned custom LicenseRef''\<rparr>"
    by code_simp
  then show ?thesis using unmapped_expression_parses [of "\<lambda>_. []" "spdx_data ''3'' []" "'' My -Own!''" None] by simp
qed

end
