(* ===== verification/Purl.thy ===== *)
theory Purl
  imports Py_Data
begin

text \<open>
  \<open>purl_generator.py\<close> and \<open>download_location.py\<close> of \<open>src/debcraft/domain/package_intelligence/\<close>: package URLs
  and download locations. A package URL determines the name, version and architecture it was made for,
  as long as the name and version have no percent sign, which is not encoded.
\<close>

section \<open>Package URLs\<close>

text \<open>\<open>PURLGenerationError(missing_field)\<close>.\<close>

datatype purl_error = PURLGenerationError string

definition purl_error_str :: "purl_error \<Rightarrow> string" where
  "purl_error_str e = (case e of PURLGenerationError missing_field \<Rightarrow>
     ''Cannot generate PURL: missing required field '' @ [CHR 0x27] @ missing_field @ [CHR 0x27])"

definition PURL_ENCODE_MAP :: "(char \<times> string) list" where
  "PURL_ENCODE_MAP = [(CHR '':'', ''%3A''), (CHR ''+'', ''%2B''), (CHR ''@'', ''%40''), (CHR ''?'', ''%3F''), (CHR ''#'', ''%23'')]"

definition percent_encode :: "string \<Rightarrow> string" where
  "percent_encode value = foldl (\<lambda>result (c, encoded). replace_char c encoded result) value PURL_ENCODE_MAP"

definition missing :: "string option \<Rightarrow> bool" where
  "missing s = (case s of None \<Rightarrow> True | Some x \<Rightarrow> py_strip x = [])"

definition generate_purl ::
  "string option \<Rightarrow> string option \<Rightarrow> string option \<Rightarrow> string option \<Rightarrow> purl_error + string" where
  "generate_purl package_name version architecture distro =
     (if missing package_name then Inl (PURLGenerationError ''package_name'')
      else if missing version then Inl (PURLGenerationError ''version'')
      else if missing architecture then Inl (PURLGenerationError ''architecture'')
      else (let namespace = (if missing distro then ''debian'' else py_lower (py_strip (the distro)));
                encoded_name = percent_encode (the package_name);
                encoded_version = percent_encode (the version)
            in Inr (''pkg:deb/'' @ namespace @ ''/'' @ encoded_name @ ''@'' @ encoded_version @ ''?arch='' @ the architecture)))"

section \<open>Download locations\<close>

definition resolve_download_location :: "string option \<Rightarrow> string option \<Rightarrow> string" where
  "resolve_download_location base_url filename =
     (if missing base_url then ''NOASSERTION''
      else if missing filename then ''NOASSERTION''
      else rstrip_of (\<lambda>c. c = CHR ''/'') (the base_url) @ ''/'' @ lstrip_of (\<lambda>c. c = CHR ''/'') (the filename))"

section \<open>Encoding one character at a time\<close>

definition encode_char :: "char \<Rightarrow> string" where
  "encode_char c = (if c = CHR '':'' then ''%3A'' else if c = CHR ''+'' then ''%2B'' else if c = CHR ''@'' then ''%40''
     else if c = CHR ''?'' then ''%3F'' else if c = CHR ''#'' then ''%23'' else [c])"

text \<open>The inverse, for texts the encoder makes.\<close>

fun percent_decode :: "string \<Rightarrow> string" where
  "percent_decode (c # a # b # s) =
     (if c = CHR ''%'' then
        (if [a, b] = ''3A'' then CHR '':'' else if [a, b] = ''2B'' then CHR ''+'' else if [a, b] = ''40'' then CHR ''@''
         else if [a, b] = ''3F'' then CHR ''?'' else CHR ''#'') # percent_decode s
      else c # percent_decode (a # b # s))"
| "percent_decode s = s"

lemma replace_char_append: "replace_char c r (s @ t) = replace_char c r s @ replace_char c r t"
  by (simp add: replace_char_def)

lemma percent_encode_append: "percent_encode (s @ t) = percent_encode s @ percent_encode t"
  by (simp add: percent_encode_def PURL_ENCODE_MAP_def replace_char_append)

lemma percent_encode_char: "percent_encode [c] = encode_char c"
  by (auto simp: percent_encode_def PURL_ENCODE_MAP_def replace_char_def encode_char_def)

lemma percent_encode_Nil [simp]: "percent_encode [] = []"
  by (simp add: percent_encode_def PURL_ENCODE_MAP_def replace_char_def)

lemma percent_encode_Cons: "percent_encode (c # s) = encode_char c @ percent_encode s"
  using percent_encode_append [of "[c]" s] by (simp add: percent_encode_char)

lemma percent_decode_Cons: "c \<noteq> CHR ''%'' \<Longrightarrow> percent_decode (c # s) = c # percent_decode s"
proof (cases s)
  case (Cons a t)
  assume "c \<noteq> CHR ''%''"
  then show ?thesis by (cases t) (simp_all only: Cons percent_decode.simps if_False)
qed simp

lemma percent_decode_char:
  assumes "c \<noteq> CHR ''%''"
  shows "percent_decode (encode_char c @ r) = c # percent_decode r"
proof (cases "c \<in> {CHR '':'', CHR ''+'', CHR ''@'', CHR ''?'', CHR ''#''}")
  case True
  then consider "c = CHR '':''" | "c = CHR ''+''" | "c = CHR ''@''" | "c = CHR ''?''" | "c = CHR ''#''" by blast
  then show ?thesis by cases (simp_all add: encode_char_def)
next
  case False
  then have "encode_char c = [c]" by (simp add: encode_char_def)
  then show ?thesis using percent_decode_Cons [OF assms] by simp
qed

lemma percent_decode_encode: "CHR ''%'' \<notin> set s \<Longrightarrow> percent_decode (percent_encode s) = s"
proof (induction s)
  case (Cons c s)
  then have "c \<noteq> CHR ''%''" by auto
  then show ?case using Cons by (simp add: percent_encode_Cons percent_decode_char)
qed simp

lemma encoded_chars:
  assumes "c \<in> {CHR '':'', CHR ''+'', CHR ''@'', CHR ''?'', CHR ''#''}"
  shows "c \<notin> set (percent_encode s)"
proof (induction s)
  case (Cons x s)
  have "\<forall>c \<in> {CHR '':'', CHR ''+'', CHR ''@'', CHR ''?'', CHR ''#''}. c \<notin> set (encode_char x)"
  proof (cases "x \<in> {CHR '':'', CHR ''+'', CHR ''@'', CHR ''?'', CHR ''#''}")
    case True
    then consider "x = CHR '':''" | "x = CHR ''+''" | "x = CHR ''@''" | "x = CHR ''?''" | "x = CHR ''#''" by blast
    then show ?thesis by cases (simp_all add: encode_char_def)
  next
    case False
    then have "encode_char x = [x]" by (simp add: encode_char_def)
    then show ?thesis using False by (simp only: set_simps) blast
  qed
  then have "c \<notin> set (encode_char x)" using assms by blast
  then show ?case using Cons by (simp add: percent_encode_Cons)
qed simp

lemma split_at_sep:
  fixes c :: char
  assumes "c \<notin> set a" "c \<notin> set b"
  shows "a @ c # r = b @ c # r' \<longleftrightarrow> a = b \<and> r = r'"
proof
  assume e: "a @ c # r = b @ c # r'"
  show "a = b \<and> r = r'"
    using arg_cong [OF e, of "before c"] arg_cong [OF e, of "after c"] assms by (simp add: before_append after_append)
qed simp

lemma percent_encode_inj:
  "CHR ''%'' \<notin> set s \<Longrightarrow> CHR ''%'' \<notin> set t \<Longrightarrow> percent_encode s = percent_encode t \<longleftrightarrow> s = t"
  by (metis percent_decode_encode)

text \<open>A package URL identifies its package: within one distribution, two packages whose names
  and versions have no percent sign have the same URL only when name, version and architecture agree;
  and the URL exists exactly when none of the three is blank.\<close>

theorem purl_identifies:
  assumes "CHR ''%'' \<notin> set (n @ v @ n' @ v')"
  shows "(isl (generate_purl (Some n) (Some v) (Some a) d) \<longleftrightarrow> blank n \<or> blank v \<or> blank a) \<and>
    (\<not> blank n \<and> \<not> blank v \<and> \<not> blank a \<and> \<not> blank n' \<and> \<not> blank v' \<and> \<not> blank a' \<longrightarrow>
       (generate_purl (Some n) (Some v) (Some a) d = generate_purl (Some n') (Some v') (Some a') d \<longleftrightarrow> n = n' \<and> v = v' \<and> a = a'))"
proof (intro conjI impI)
  have m: "missing (Some s) \<longleftrightarrow> blank s" for s by (simp add: missing_def py_strip_Nil_iff)
  show "isl (generate_purl (Some n) (Some v) (Some a) d) \<longleftrightarrow> blank n \<or> blank v \<or> blank a"
    by (simp add: generate_purl_def m Let_def)
  assume *: "\<not> blank n \<and> \<not> blank v \<and> \<not> blank a \<and> \<not> blank n' \<and> \<not> blank v' \<and> \<not> blank a'"
  have "generate_purl (Some n) (Some v) (Some a) d = generate_purl (Some n') (Some v') (Some a') d \<longleftrightarrow>
      percent_encode n @ CHR ''@'' # (percent_encode v @ CHR ''?'' # (''arch='' @ a))
      = percent_encode n' @ CHR ''@'' # (percent_encode v' @ CHR ''?'' # (''arch='' @ a'))"
    using * by (simp add: generate_purl_def m Let_def)
  also have "\<dots> \<longleftrightarrow> percent_encode n = percent_encode n' \<and> percent_encode v = percent_encode v' \<and> a = a'"
    using encoded_chars [of "CHR ''@''"] encoded_chars [of "CHR ''?''"] by (simp add: split_at_sep)
  also have "\<dots> \<longleftrightarrow> n = n' \<and> v = v' \<and> a = a'" using assms by (simp add: percent_encode_inj)
  finally show "generate_purl (Some n) (Some v) (Some a) d = generate_purl (Some n') (Some v') (Some a') d \<longleftrightarrow> n = n' \<and> v = v' \<and> a = a'" .
qed

theorem purl_identifies_witness:
  "generate_purl (Some ''g++'') (Some ''4:1.0+b1'') (Some ''amd64'') None = Inr ''pkg:deb/debian/g%2B%2B@4%3A1.0%2Bb1?arch=amd64'' \<and>
   generate_purl (Some ''g++'') (Some ''4:1.0+b1'') (Some ''amd64'') None \<noteq> generate_purl (Some ''g'') (Some ''4:1.0'') (Some ''amd64'') None"
proof
  show "generate_purl (Some ''g++'') (Some ''4:1.0+b1'') (Some ''amd64'') None = Inr ''pkg:deb/debian/g%2B%2B@4%3A1.0%2Bb1?arch=amd64''"
    by code_simp
  show "generate_purl (Some ''g++'') (Some ''4:1.0+b1'') (Some ''amd64'') None \<noteq> generate_purl (Some ''g'') (Some ''4:1.0'') (Some ''amd64'') None"
    using purl_identifies [of "''g++''" "''4:1.0+b1''" "''g''" "''4:1.0''" "''amd64''" None "''amd64''"]
    by (simp add: py_isspace_def)
qed

text \<open>A percent sign is not encoded, so two names may share a URL.\<close>

lemma percent_not_encoded:
  "generate_purl (Some ''a%2B'') (Some ''1'') (Some ''all'') None = generate_purl (Some ''a+'') (Some ''1'') (Some ''all'') None"
  by code_simp

end
