(* ===== verification/Deb_Extractor.thy ===== *)
theory Deb_Extractor
  imports Scan_Values Deb_Parser Dep5 License_Map Purl
begin

text \<open>
  Enrichment from the packages of an installation medium (\<open>src/debcraft/infrastructure/scanners/deb_extractor.py\<close>): finding a
  package's file in the pool, and the enrichment of its control fields and its copyright file. The directory listing of the
  medium is a parameter, \<open>None\<close> standing for \<open>OSError\<close>; so are the reader of archive members and the licence data.
\<close>

section \<open>Finding the package\<close>

definition POOL_COMPONENTS :: "string list" where
  "POOL_COMPONENTS = [''main'', ''contrib'', ''non-free'', ''non-free-firmware'']"

definition get_prefix_dir :: "string \<Rightarrow> string" where
  "get_prefix_dir package_name =
     (if startswith package_name ''lib'' \<and> length package_name > 3 then take 4 package_name else take 1 package_name)"

definition strip_epoch :: "string \<Rightarrow> string" where
  "strip_epoch version = (if CHR '':'' \<in> set version then after CHR '':'' version else version)"

definition deb_filename :: "string \<Rightarrow> string \<Rightarrow> string \<Rightarrow> string" where
  "deb_filename name version architecture = name @ ''_'' @ version @ ''_'' @ architecture @ ''.deb''"

definition package_dir :: "string \<Rightarrow> string \<Rightarrow> string" where
  "package_dir component name = ''pool/'' @ component @ ''/'' @ get_prefix_dir name @ ''/'' @ name"

definition find_in_directory :: "identified_package \<Rightarrow> string \<Rightarrow> string list \<Rightarrow> string option" where
  "find_in_directory pkg pkg_dir entries =
     (let expected_filename = deb_filename (ip_name pkg) (ip_version pkg) (ip_architecture pkg);
          candidate_filename = deb_filename (ip_name pkg) (strip_epoch (ip_version pkg)) (ip_architecture pkg)
      in if expected_filename \<in> set entries then Some (pkg_dir @ ''/'' @ expected_filename)
         else map_option (\<lambda>entry. pkg_dir @ ''/'' @ entry)
           (List.find (\<lambda>entry. endswith entry ''.deb'' \<and> startswith entry (ip_name pkg @ ''_'') \<and> entry = candidate_filename) entries))"

fun find_in_components :: "(string \<Rightarrow> string list option) \<Rightarrow> identified_package \<Rightarrow> string list \<Rightarrow> string option" where
  "find_in_components list_dir pkg [] = None"
| "find_in_components list_dir pkg (component # components) =
     (let pkg_dir = package_dir component (ip_name pkg) in
      case list_dir pkg_dir of
        None \<Rightarrow> find_in_components list_dir pkg components
      | Some entries \<Rightarrow>
          (case find_in_directory pkg pkg_dir entries of
             Some path \<Rightarrow> Some path
           | None \<Rightarrow> find_in_components list_dir pkg components))"

definition discover_deb_path :: "(string \<Rightarrow> string list option) \<Rightarrow> identified_package \<Rightarrow> string option" where
  "discover_deb_path list_dir pkg =
     (case list_dir ''pool'' of
        None \<Rightarrow> None
      | Some pool_entries \<Rightarrow>
          (let components = filter (\<lambda>c. c \<in> set POOL_COMPONENTS) pool_entries
           in find_in_components list_dir pkg (if components = [] then pool_entries else components)))"

section \<open>The enrichment\<close>

record extractor_env =
  dx_list_dir :: "string \<Rightarrow> string list option"
  dx_order :: "string list"
  dx_decode :: "string \<Rightarrow> string"
  dx_tar :: "string \<Rightarrow> unit + tar_member list"
  dx_read :: "string \<Rightarrow> string \<Rightarrow> read_error + string"
  dx_two_decimals :: "real \<Rightarrow> string"
  dx_spdx :: spdx_license_data

definition map_license_of :: "extractor_env \<Rightarrow> string \<Rightarrow> string option \<Rightarrow> license_mapping_result" where
  "map_license_of env = map_license (dx_two_decimals env) (dx_spdx env)"

definition algorithm_name :: "mapping_algorithm \<Rightarrow> string" where
  "algorithm_name a = (case a of EXACT_SPDX \<Rightarrow> ''ExactSPDX'' | DEBIAN_ALIAS \<Rightarrow> ''DebianAlias''
     | NORMALIZED_SPELLING \<Rightarrow> ''NormalizedSpelling'' | SPDX_FULL_NAME \<Rightarrow> ''SPDXFullName'' | FUZZY_SIMILARITY \<Rightarrow> ''FuzzySimilarity''
     | LICENSE_TEXT_HASH \<Rightarrow> ''LicenseTextHash'' | UNMAPPED \<Rightarrow> ''Unmapped'')"

definition mapped_pair :: "license_mapping_result \<Rightarrow> string \<times> string" where
  "mapped_pair result = (lm_spdx_expression result, algorithm_name (lm_algorithm result))"

fun map_dep5_loop :: "extractor_env \<Rightarrow> string list \<Rightarrow> dep5_files_paragraph list \<Rightarrow> (string \<times> string) list" where
  "map_dep5_loop env seen [] = []"
| "map_dep5_loop env seen (files_para # paras) =
     (let license_name = df_license_name files_para in
      if license_name = [] \<or> license_name \<in> set seen then map_dep5_loop env seen paras
      else mapped_pair (map_license_of env license_name (df_license_text files_para))
        # map_dep5_loop env (license_name # seen) paras)"

definition map_dep5_licenses :: "extractor_env \<Rightarrow> dep5_document \<Rightarrow> (string \<times> string) list" where
  "map_dep5_licenses env dep5_doc = map_dep5_loop env [] (dd_files_paragraphs dep5_doc)"

definition map_freeform_license :: "extractor_env \<Rightarrow> string \<Rightarrow> (string \<times> string) list" where
  "map_freeform_license env copyright_text =
     (case List.find (\<lambda>s. s \<noteq> []) (map py_strip (py_splitlines copyright_text)) of
        None \<Rightarrow> []
      | Some identifier \<Rightarrow>
          (let result = map_license_of env identifier (Some copyright_text)
           in if lm_algorithm result = UNMAPPED then [] else [mapped_pair result]))"

definition extract_license_expressions :: "extractor_env \<Rightarrow> string option \<Rightarrow> (string \<times> string) list" where
  "extract_license_expressions env copyright_text =
     (case copyright_text of
        None \<Rightarrow> []
      | Some txt \<Rightarrow>
          if txt = [] then []
          else (case dep5_parse txt of Inr dep5_doc \<Rightarrow> map_dep5_licenses env dep5_doc | Inl _ \<Rightarrow> map_freeform_license env txt))"

definition package_purl :: "identified_package \<Rightarrow> string option" where
  "package_purl pkg =
     (case generate_purl (Some (ip_name pkg)) (Some (ip_version pkg)) (Some (ip_architecture pkg)) None of
        Inr purl \<Rightarrow> Some purl | Inl _ \<Rightarrow> None)"

text \<open>\<open>DebParseError\<close> is caught; the \<open>DependencyParseError\<close> that the parser raises as well is not.\<close>

definition extract_enrichment :: "extractor_env \<Rightarrow> identified_package \<Rightarrow> deb_error + package_enrichment option" where
  "extract_enrichment env pkg =
     (case discover_deb_path (dx_list_dir env) pkg of
        None \<Rightarrow> Inr None
      | Some deb_path \<Rightarrow>
          (case deb_parse (dx_order env) (dx_decode env) (dx_tar env) (dx_read env deb_path) deb_path of
             Inl (DebParseError _ _) \<Rightarrow> Inr None
           | Inl e \<Rightarrow> Inl e
           | Inr parse_result \<Rightarrow>
               (let control = dict_get (db_control_fields parse_result)
                in Inr (Some \<lparr>pe_source_package = control ''Source'', pe_maintainer = control ''Maintainer'',
                     pe_homepage = control ''Homepage'', pe_depends = control ''Depends'', pe_section = control ''Section'',
                     pe_priority = control ''Priority'', pe_description = control ''Description'', pe_sha256 = None,
                     pe_download_url = None, pe_purl = package_purl pkg,
                     pe_license_expressions = extract_license_expressions env (db_copyright_text parse_result),
                     pe_local_deb_path = None\<rparr>))))"

section \<open>Facts\<close>

lemma deb_filename_ends: "endswith (deb_filename n v a) ''.deb'' \<and> startswith (deb_filename n v a) (n @ ''_'')"
  by (simp add: deb_filename_def endswith_def)
    (metis append_Cons append_Nil append_assoc startswith_append)

lemma find_in_directory_iff:
  "find_in_directory pkg d entries =
     (if deb_filename (ip_name pkg) (ip_version pkg) (ip_architecture pkg) \<in> set entries
      then Some (d @ ''/'' @ deb_filename (ip_name pkg) (ip_version pkg) (ip_architecture pkg))
      else if deb_filename (ip_name pkg) (strip_epoch (ip_version pkg)) (ip_architecture pkg) \<in> set entries
      then Some (d @ ''/'' @ deb_filename (ip_name pkg) (strip_epoch (ip_version pkg)) (ip_architecture pkg)) else None)"
proof -
  have "List.find (\<lambda>e. endswith e ''.deb'' \<and> startswith e (ip_name pkg @ ''_'') \<and> e = c) entries = (if c \<in> set entries then Some c else None)"
    if "c = deb_filename (ip_name pkg) v a" for c v a
    using deb_filename_ends [of "ip_name pkg" v a] that by (induction entries) auto
  then show ?thesis by (simp add: find_in_directory_def Let_def)
qed

text \<open>What is found is a file of the pool directory named after the binary package: a package whose source package has another name,
  under which Debian keeps its file, is not found.\<close>

lemma found_in_package_dir:
  "find_in_components ls pkg cs = Some path \<Longrightarrow>
     \<exists>c \<in> set cs. \<exists>v \<in> {ip_version pkg, strip_epoch (ip_version pkg)}. \<exists>entries. ls (package_dir c (ip_name pkg)) = Some entries \<and>
       deb_filename (ip_name pkg) v (ip_architecture pkg) \<in> set entries \<and>
       path = package_dir c (ip_name pkg) @ ''/'' @ deb_filename (ip_name pkg) v (ip_architecture pkg)"
  by (induction cs) (auto simp: Let_def find_in_directory_iff split: option.splits if_splits)

lemma source_directory_not_searched:
  "discover_deb_path (\<lambda>d. if d = ''pool'' then Some [''main''] else if d = ''pool/main/g/glibc'' then Some [''libc6_2.41_amd64.deb''] else None)
     \<lparr>ip_name = ''libc6'', ip_version = ''2.41'', ip_architecture = ''amd64'', ip_status = ''installed''\<rparr> = None"
  by code_simp

text \<open>A package whose dependencies the parser rejects ends the enrichment of all packages.\<close>

lemma dependency_error_escapes:
  assumes "discover_deb_path (dx_list_dir env) pkg = Some path"
    and "deb_parse (dx_order env) (dx_decode env) (dx_tar env) (dx_read env path) path = Inl (DependencyParseError p f r)"
  shows "extract_enrichment env pkg = Inl (DependencyParseError p f r)"
  using assms by (simp add: extract_enrichment_def)

text \<open>One pair for each licence name of the files paragraphs.\<close>

lemma map_dep5_loop_length: "length (map_dep5_loop env seen ps) = card (df_license_name ` set ps - insert [] (set seen))"
proof (induction env seen ps rule: map_dep5_loop.induct)
  case (2 env seen p ps)
  show ?case
  proof (cases "df_license_name p = [] \<or> df_license_name p \<in> set seen")
    case True
    then have "insert (df_license_name p) (df_license_name ` set ps) - insert [] (set seen) = df_license_name ` set ps - insert [] (set seen)"
      by auto
    then show ?thesis using 2 True by (simp add: Let_def)
  next
    case False
    then have "insert (df_license_name p) (df_license_name ` set ps) - insert [] (set seen) =
        insert (df_license_name p) (df_license_name ` set ps - insert [] (set (df_license_name p # seen)))"
      by auto
    then show ?thesis using 2(2) [OF refl False] False by (simp add: Let_def)
  qed
qed simp

end
