(* ===== verification/Indexer_Parsers.thy ===== *)
theory Indexer_Parsers
  imports Stanza
begin

text \<open>
  The parsers of \<open>src/debcraft/domain/indexer/\<close>: \<open>packages_parser.py\<close> with its printer, \<open>sources_parser.py\<close>,
  \<open>contents_parser.py\<close> and \<open>release_metadata_parser.py\<close>, over the values of \<open>values.py\<close>. The first two are
  stanza readers.
\<close>

section \<open>Values\<close>

record package_metadata =
  pm_package_name :: string
  pm_version :: string
  pm_architecture :: string
  pm_filename :: string
  pm_sha256 :: string
  pm_size_bytes :: int
  pm_source_package :: string
  pm_source_version :: string
  pm_homepage :: "string option"
  pm_maintainer :: "string option"
  pm_depends :: "string option"
  pm_provides :: "string option"
  pm_section :: "string option"
  pm_priority :: "string option"
  pm_description :: "string option"

record source_package_metadata =
  sp_name :: string
  sp_version :: string
  sp_maintainer :: "string option"
  sp_uploaders :: "string list"
  sp_section :: "string option"
  sp_homepage :: "string option"
  sp_build_depends :: "string option"
  sp_binary_packages :: "string list"

record file_ownership =
  fo_path :: string
  fo_qualified_package_name :: string

record repository_identity =
  ri_suite :: string
  ri_codename :: "string option"
  ri_origin :: "string option"
  ri_label :: "string option"
  ri_architectures :: "string list"
  ri_components :: "string list"
  ri_date :: "string option"

section \<open>Packages files\<close>

definition REQUIRED_FIELDS :: "string list" where
  "REQUIRED_FIELDS = [''Package'', ''Version'', ''Architecture'', ''Filename'', ''SHA256'', ''Size'']"

text \<open>\<open>^(.+?)\s*\(([^)]+)\)\s*$\<close>: the shortest first group after which the rest matches.\<close>

definition version_rest :: "string \<Rightarrow> string option" where
  "version_rest s = (let t = dropWhile py_isspace s in
     if t \<noteq> [] \<and> hd t = CHR ''('' \<and> CHR '')'' \<in> set t \<and> before CHR '')'' (drop 1 t) \<noteq> [] \<and> blank (after CHR '')'' t)
     then Some (before CHR '')'' (drop 1 t)) else None)"

definition match_source_with_version :: "string \<Rightarrow> (string \<times> string) option" where
  "match_source_with_version s =
     (case List.find (\<lambda>i. LF \<notin> set (take i s) \<and> version_rest (drop i s) \<noteq> None) [1..<Suc (length s)] of
        None \<Rightarrow> None
      | Some i \<Rightarrow> Some (take i s, the (version_rest (drop i s))))"

definition infer_source :: "string option \<Rightarrow> string \<Rightarrow> string \<Rightarrow> string \<times> string" where
  "infer_source source_field package_name binary_version =
     (case source_field of
        None \<Rightarrow> (package_name, binary_version)
      | Some s \<Rightarrow>
          (let source_value = py_strip s in
           if s = [] \<or> source_value = [] then (package_name, binary_version)
           else case match_source_with_version source_value of
             Some (g1, g2) \<Rightarrow> (py_strip g1, py_strip g2)
           | None \<Rightarrow> (source_value, binary_version)))"

text \<open>\<open>fields.get(key) or None\<close>.\<close>

definition get_nonempty :: "(string, string) dict \<Rightarrow> string \<Rightarrow> string option" where
  "get_nonempty d k = (case dict_get d k of None \<Rightarrow> None | Some v \<Rightarrow> if v = [] then None else Some v)"

definition build_package_metadata :: "(string, string) dict \<Rightarrow> package_metadata option" where
  "build_package_metadata flds =
     (if \<not> list_all (dict_has flds) REQUIRED_FIELDS then None
      else case py_int (py_strip (dict_getd flds ''Size'' [])) of
        None \<Rightarrow> None
      | Some size_bytes \<Rightarrow>
          if size_bytes < 0 then None
          else (case infer_source (dict_get flds ''Source'') (dict_getd flds ''Package'' []) (dict_getd flds ''Version'' []) of
            (source_package, source_version) \<Rightarrow>
              Some \<lparr>pm_package_name = dict_getd flds ''Package'' [], pm_version = dict_getd flds ''Version'' [],
                    pm_architecture = dict_getd flds ''Architecture'' [], pm_filename = dict_getd flds ''Filename'' [],
                    pm_sha256 = dict_getd flds ''SHA256'' [], pm_size_bytes = size_bytes,
                    pm_source_package = source_package, pm_source_version = source_version,
                    pm_homepage = get_nonempty flds ''Homepage'', pm_maintainer = get_nonempty flds ''Maintainer'',
                    pm_depends = get_nonempty flds ''Depends'', pm_provides = get_nonempty flds ''Provides'',
                    pm_section = get_nonempty flds ''Section'', pm_priority = get_nonempty flds ''Priority'',
                    pm_description = get_nonempty flds ''Description''\<rparr>))"

definition build_package :: "string \<Rightarrow> package_metadata option" where
  "build_package stanza = build_package_metadata (parse_stanza_fields True stanza)"

definition ix_packages_step :: "package_metadata list \<Rightarrow> string \<Rightarrow> package_metadata list" where
  "ix_packages_step results stanza =
     (case build_package stanza of None \<Rightarrow> results | Some metadata \<Rightarrow> results @ [metadata])"

definition ix_packages_parse :: "string \<Rightarrow> package_metadata list" where
  "ix_packages_parse content =
     (if content = [] \<or> py_strip content = [] then [] else foldl ix_packages_step [] (split_stanzas content))"

definition field_line :: "string \<Rightarrow> string \<Rightarrow> string" where "field_line name value = name @ '': '' @ value"

definition optional_line :: "string \<Rightarrow> string option \<Rightarrow> string list" where
  "optional_line name value = (case value of None \<Rightarrow> [] | Some v \<Rightarrow> [field_line name v])"

definition source_lines :: "package_metadata \<Rightarrow> string list" where
  "source_lines m =
     (let source_name_differs = pm_source_package m \<noteq> pm_package_name m;
          source_version_differs = pm_source_version m \<noteq> pm_version m
      in if source_name_differs \<and> source_version_differs
         then [field_line ''Source'' (pm_source_package m @ '' ('' @ pm_source_version m @ '')'')]
         else if source_name_differs then [field_line ''Source'' (pm_source_package m)]
         else if source_version_differs
         then [field_line ''Source'' (pm_source_package m @ '' ('' @ pm_source_version m @ '')'')]
         else [])"

definition description_lines :: "string option \<Rightarrow> string list" where
  "description_lines d = (case d of None \<Rightarrow> []
     | Some v \<Rightarrow> (let desc_lines = split_on LF v
         in field_line ''Description'' (hd desc_lines) # map (\<lambda>continuation. '' '' @ continuation) (tl desc_lines)))"

definition format_package :: "package_metadata \<Rightarrow> string" where
  "format_package m = join [LF]
     ([field_line ''Package'' (pm_package_name m), field_line ''Version'' (pm_version m),
       field_line ''Architecture'' (pm_architecture m), field_line ''Filename'' (pm_filename m),
       field_line ''SHA256'' (pm_sha256 m), field_line ''Size'' (int_str (pm_size_bytes m))]
      @ source_lines m
      @ optional_line ''Homepage'' (pm_homepage m) @ optional_line ''Maintainer'' (pm_maintainer m)
      @ optional_line ''Depends'' (pm_depends m) @ optional_line ''Provides'' (pm_provides m)
      @ optional_line ''Section'' (pm_section m) @ optional_line ''Priority'' (pm_priority m)
      @ description_lines (pm_description m))"

section \<open>Sources files\<close>

text \<open>\<open>_parse_binary_field\<close> and \<open>_parse_uploaders\<close> have the same body.\<close>

definition parse_comma_list :: "string \<Rightarrow> string list" where
  "parse_comma_list value =
     (if py_strip value = [] then []
      else (let normalized = replace_char LF '' '' value
            in filter (\<lambda>p. p \<noteq> []) (map py_strip (split_on CHR '','' normalized))))"

definition build_source_metadata :: "(string, string) dict \<Rightarrow> source_package_metadata option" where
  "build_source_metadata flds =
     (case (dict_getd flds ''Package'' [], dict_getd flds ''Version'' []) of (name, version) \<Rightarrow>
        if name = [] then None
        else if version = [] then None
        else Some \<lparr>sp_name = name, sp_version = version, sp_maintainer = dict_get flds ''Maintainer'',
               sp_uploaders = parse_comma_list (dict_getd flds ''Uploaders'' []), sp_section = dict_get flds ''Section'',
               sp_homepage = dict_get flds ''Homepage'', sp_build_depends = dict_get flds ''Build-Depends'',
               sp_binary_packages = parse_comma_list (dict_getd flds ''Binary'' [])\<rparr>)"

definition build_source :: "string \<Rightarrow> source_package_metadata option" where
  "build_source stanza = build_source_metadata (parse_stanza_fields True stanza)"

definition sources_step :: "source_package_metadata list \<Rightarrow> string \<Rightarrow> source_package_metadata list" where
  "sources_step results stanza = (case build_source stanza of None \<Rightarrow> results | Some metadata \<Rightarrow> results @ [metadata])"

definition sources_parse :: "string \<Rightarrow> source_package_metadata list" where
  "sources_parse content =
     (if content = [] \<or> py_strip content = [] then [] else foldl sources_step [] (split_stanzas content))"

definition format_source :: "source_package_metadata \<Rightarrow> string" where
  "format_source m = join [LF]
     ([field_line ''Package'' (sp_name m), field_line ''Version'' (sp_version m)]
      @ optional_line ''Maintainer'' (sp_maintainer m)
      @ (if sp_uploaders m \<noteq> [] then [field_line ''Uploaders'' (join '', '' (sp_uploaders m))] else [])
      @ optional_line ''Section'' (sp_section m) @ optional_line ''Homepage'' (sp_homepage m)
      @ optional_line ''Build-Depends'' (sp_build_depends m)
      @ (if sp_binary_packages m \<noteq> [] then [field_line ''Binary'' (join '', '' (sp_binary_packages m))] else []))"

section \<open>Contents files\<close>

definition parse_contents_line :: "string \<Rightarrow> file_ownership list option" where
  "parse_contents_line line =
     (case py_rsplit1 line of
        [a, b] \<Rightarrow>
          (let file_path = py_strip a; packages_field = py_strip b in
           if file_path = [] \<or> packages_field = [] then None
           else
             (let results = map (\<lambda>qualified_name. \<lparr>fo_path = file_path, fo_qualified_package_name = qualified_name\<rparr>)
                  (filter (\<lambda>q. q \<noteq> []) (map py_strip (split_on CHR '','' packages_field)))
              in if results = [] then None else Some results))
      | _ \<Rightarrow> None)"

definition contents_step :: "file_ownership list \<Rightarrow> string \<Rightarrow> file_ownership list" where
  "contents_step ownerships line =
     (let stripped = py_strip line in
      if stripped = [] then ownerships
      else case parse_contents_line stripped of None \<Rightarrow> ownerships | Some parsed \<Rightarrow> ownerships @ parsed)"

definition contents_parse :: "string \<Rightarrow> file_ownership list" where
  "contents_parse content =
     (if content = [] \<or> py_strip content = [] then [] else foldl contents_step [] (py_splitlines content))"

section \<open>Release files\<close>

text \<open>\<open>ReleaseParseError(message)\<close>.\<close>

datatype release_parse_error = ReleaseParseError string

definition release_step :: "cont_state \<Rightarrow> string \<Rightarrow> cont_state" where
  "release_step st line = (case st of (flds, current_key, current_value_lines) \<Rightarrow>
     if is_continuation line then
       (flds, current_key, if current_key \<noteq> None then current_value_lines @ [line] else current_value_lines)
     else if CHR '':'' \<in> set line then
       (save_field st, Some (py_lower (py_strip (before CHR '':'' line))), [py_strip (after CHR '':'' line)])
     else if current_key \<noteq> None then (save_field st, None, [])
     else st)"

definition parse_release_fields :: "string \<Rightarrow> (string, string) dict" where
  "parse_release_fields content = save_field (foldl release_step ([], None, []) (py_splitlines content))"

definition release_metadata_parse :: "string \<Rightarrow> release_parse_error + repository_identity" where
  "release_metadata_parse content =
     (let flds = parse_release_fields content;
          suite = dict_getd flds ''suite'' []; codename = dict_getd flds ''codename'' []
      in if suite = [] \<and> codename = []
         then Inl (ReleaseParseError ''Failed to parse Release file: Release file contains neither Suite nor Codename field'')
         else Inr \<lparr>ri_suite = (if suite \<noteq> [] then suite else codename), ri_codename = dict_get flds ''codename'',
              ri_origin = dict_get flds ''origin'', ri_label = dict_get flds ''label'',
              ri_architectures = py_split (dict_getd flds ''architectures'' []),
              ri_components = py_split (dict_getd flds ''components'' []), ri_date = dict_get flds ''date''\<rparr>)"

section \<open>Readers\<close>

lemma step_filter:
  assumes "\<And>acc s. step acc s = (case build s of None \<Rightarrow> acc | Some m \<Rightarrow> acc @ [m])"
  shows "foldl step acc ss = acc @ List.map_filter build ss"
  by (induction ss arbitrary: acc) (auto simp: assms map_filter_def split: option.splits)

interpretation ix_packages: stanza_reader split_stanzas build_package ix_packages_parse
proof unfold_locales
  show "ix_packages_parse s = List.map_filter build_package (split_stanzas s)" for s
    using sp.split_blank [of s] step_filter [of ix_packages_step build_package "[]"]
    by (auto simp: ix_packages_parse_def ix_packages_step_def py_strip_Nil_iff map_filter_def)
qed

interpretation sources: stanza_reader split_stanzas build_source sources_parse
proof unfold_locales
  show "sources_parse s = List.map_filter build_source (split_stanzas s)" for s
    using sp.split_blank [of s] step_filter [of sources_step build_source "[]"]
    by (auto simp: sources_parse_def sources_step_def py_strip_Nil_iff map_filter_def)
qed

text \<open>The column heading of a Contents file has two columns and is taken for a file.\<close>

lemma contents_heading_read:
  "contents_parse (join [LF] [''FILE    LOCATION'', ''bin/a b  utils/a,x/b'']) =
     [\<lparr>fo_path = ''FILE'', fo_qualified_package_name = ''LOCATION''\<rparr>,
      \<lparr>fo_path = ''bin/a b'', fo_qualified_package_name = ''utils/a''\<rparr>, \<lparr>fo_path = ''bin/a b'', fo_qualified_package_name = ''x/b''\<rparr>]"
  by code_simp

section \<open>Printed stanzas are read back\<close>

text \<open>A field with its continuation lines, and what survives: a name without colon and line break that
  starts a line, a value whose first line has no blank ends and whose other lines are not blank.\<close>

definition stanza_lines :: "string \<times> string \<Rightarrow> string list" where
  "stanza_lines f = (let ls = split_on LF (snd f) in field_line (fst f) (hd ls) # map (\<lambda>l. '' '' @ l) (tl ls))"

definition plain_name :: "string \<Rightarrow> bool" where
  "plain_name n \<longleftrightarrow> CHR '':'' \<notin> set n \<and> LF \<notin> set n \<and> n \<noteq> [] \<and> hd n \<noteq> SPC \<and> hd n \<noteq> TAB"

definition plain_value :: "string \<Rightarrow> bool" where
  "plain_value v \<longleftrightarrow> py_strip (hd (split_on LF v)) = hd (split_on LF v) \<and> list_all (\<lambda>l. \<not> blank l) (tl (split_on LF v))"

definition plain_field :: "string \<times> string \<Rightarrow> bool" where "plain_field f \<longleftrightarrow> plain_name (fst f) \<and> plain_value (snd f)"

lemma with_cont_conts:
  "foldl with_cont_step (d, Some k, vs) (map (\<lambda>l. '' '' @ l) ls) = (d, Some k, vs @ ls)"
  by (induction ls arbitrary: vs) (auto simp: with_cont_step_def is_continuation_def)

lemma with_cont_field:
  assumes "plain_field f"
  shows "foldl with_cont_step st (stanza_lines f) = (save_field st, Some (fst f), split_on LF (snd f))"
proof -
  obtain p ps where ps: "split_on LF (snd f) = p # ps" by (cases "split_on LF (snd f)") auto
  have n: "CHR '':'' \<notin> set (fst f)" "py_strip p = p" "fst f \<noteq> []" "hd (fst f) \<noteq> SPC" "hd (fst f) \<noteq> TAB"
    using assms by (auto simp: plain_field_def plain_name_def plain_value_def ps)
  obtain c cs where c: "fst f = c # cs" using n(3) by (cases "fst f") auto
  obtain d k vs where st: "st = (d, k, vs)" by (cases st) auto
  have "py_find CHR '':'' (fst f @ CHR '':'' # SPC # p) = Some (length (fst f))"
    using n(1) by (auto simp: py_find_def takeWhile_append)
  then have "with_cont_step st (fst f @ CHR '':'' # SPC # p) = (save_field st, Some (fst f), [p])"
    using n(2,4,5) c by (simp add: st with_cont_step_def is_continuation_def py_strip_space)
  then show ?thesis using with_cont_conts by (simp add: stanza_lines_def field_line_def ps)
qed

lemma with_cont_fields:
  "list_all plain_field fs \<Longrightarrow> save_field (foldl with_cont_step st (concat (map stanza_lines fs))) =
     foldl (\<lambda>d (n, v). dict_set d n v) (save_field st) fs"
proof (induction fs arbitrary: st)
  case (Cons f fs)
  have "save_field (save_field st, Some (fst f), split_on LF (snd f)) = dict_set (save_field st) (fst f) (snd f)"
    by (simp add: save_field_def)
  with Cons show ?case by (simp add: with_cont_field split_beta)
qed simp

lemma stanza_lines_ok:
  assumes "plain_field f" and "l \<in> set (stanza_lines f)"
  shows "LF \<notin> set l \<and> \<not> blank l"
proof -
  obtain p ps where ps: "split_on LF (snd f) = p # ps" by (cases "split_on LF (snd f)") auto
  have lf: "LF \<notin> set q" if "q \<in> set (p # ps)" for q using split_on_no_sep [of q LF "snd f"] that ps by simp
  have r: "\<forall>q \<in> set ps. \<not> blank q" using assms(1) by (auto simp: plain_field_def plain_value_def ps list_all_iff)
  have "LF \<notin> set (fst f)" using assms(1) by (simp add: plain_field_def plain_name_def)
  then show ?thesis using assms(2) lf r by (auto simp: stanza_lines_def ps field_line_def py_isspace_def)
qed

lemma parse_printed_stanza:
  assumes "list_all plain_field fs" and "fs \<noteq> []" and "distinct (map fst fs)"
  shows "parse_stanza_fields True (join [LF] (concat (map stanza_lines fs))) = fs"
    and "is_block (join [LF] (concat (map stanza_lines fs)))"
proof -
  have ne: "concat (map stanza_lines fs) \<noteq> []" using assms(2) by (cases fs) (auto simp: stanza_lines_def Let_def)
  have s: "split_on LF (join [LF] (concat (map stanza_lines fs))) = concat (map stanza_lines fs)"
    by (rule split_on_join [OF ne]) (use assms(1) stanza_lines_ok in \<open>auto simp: list_all_iff\<close>)
  have "foldl (\<lambda>d (n, v). dict_set d n v) [] fs = fs"
    using dict_set_distinct [of "[]" "\<lambda>n. n" fs] assms(3) by (simp add: o_def map_idI)
  then show "parse_stanza_fields True (join [LF] (concat (map stanza_lines fs))) = fs"
    using with_cont_fields [OF assms(1), of "([], None, [])"]
    by (simp add: parse_stanza_fields_def parse_with_continuations_def s) (simp add: save_field_def)
  show "is_block (join [LF] (concat (map stanza_lines fs)))"
    unfolding is_block_def s using assms(1) stanza_lines_ok by (auto simp: list_all_iff)
qed

lemma single_line: "LF \<notin> set v \<Longrightarrow> stanza_lines (n, v) = [field_line n v]"
  by (simp add: stanza_lines_def split_on_id)

text \<open>The metadata whose text survives.\<close>

definition text_ok :: "string \<Rightarrow> bool" where "text_ok v \<longleftrightarrow> LF \<notin> set v \<and> py_strip v = v"

definition opt_ok :: "string option \<Rightarrow> bool" where
  "opt_ok v \<longleftrightarrow> (case v of None \<Rightarrow> True | Some x \<Rightarrow> text_ok x \<and> x \<noteq> [])"

definition metadata_ok :: "package_metadata \<Rightarrow> bool" where
  "metadata_ok m \<longleftrightarrow> list_all text_ok [pm_package_name m, pm_version m, pm_architecture m, pm_filename m, pm_sha256 m] \<and>
     pm_size_bytes m \<ge> 0 \<and> length (nat_str (nat (pm_size_bytes m))) \<le> 4300 \<and>
     text_ok (pm_source_package m) \<and> pm_source_package m \<noteq> [] \<and> CHR ''('' \<notin> set (pm_source_package m) \<and>
     text_ok (pm_source_version m) \<and> pm_source_version m \<noteq> [] \<and> CHR '')'' \<notin> set (pm_source_version m) \<and>
     list_all opt_ok [pm_homepage m, pm_maintainer m, pm_depends m, pm_provides m, pm_section m, pm_priority m] \<and>
     (case pm_description m of None \<Rightarrow> True | Some v \<Rightarrow> v \<noteq> [] \<and> plain_value v)"

definition source_value :: "package_metadata \<Rightarrow> string option" where
  "source_value m =
     (if pm_source_version m \<noteq> pm_version m then Some (pm_source_package m @ '' ('' @ pm_source_version m @ '')'')
      else if pm_source_package m \<noteq> pm_package_name m then Some (pm_source_package m) else None)"

definition package_fields :: "package_metadata \<Rightarrow> (string \<times> string) list" where
  "package_fields m =
     [(''Package'', pm_package_name m), (''Version'', pm_version m), (''Architecture'', pm_architecture m),
      (''Filename'', pm_filename m), (''SHA256'', pm_sha256 m), (''Size'', int_str (pm_size_bytes m))]
     @ optional_field ''Source'' (source_value m) @ optional_field ''Homepage'' (pm_homepage m)
     @ optional_field ''Maintainer'' (pm_maintainer m) @ optional_field ''Depends'' (pm_depends m)
     @ optional_field ''Provides'' (pm_provides m) @ optional_field ''Section'' (pm_section m)
     @ optional_field ''Priority'' (pm_priority m) @ optional_field ''Description'' (pm_description m)"

lemma optional_lines:
  "(\<And>x. v = Some x \<Longrightarrow> LF \<notin> set x) \<Longrightarrow> concat (map stanza_lines (optional_field n v)) = optional_line n v"
  by (cases v) (simp_all add: optional_field_def optional_line_def single_line)

lemma description_lines_eq: "concat (map stanza_lines (optional_field ''Description'' v)) = description_lines v"
  by (cases v) (simp_all add: optional_field_def description_lines_def stanza_lines_def Let_def)

lemma source_lines_eq: "source_lines m = optional_line ''Source'' (source_value m)"
  by (auto simp: source_lines_def source_value_def optional_line_def Let_def)

lemma source_value_lf: "metadata_ok m \<Longrightarrow> source_value m = Some x \<Longrightarrow> LF \<notin> set x"
  by (auto simp: source_value_def metadata_ok_def text_ok_def split: if_splits)

lemma int_str_nat: "0 \<le> i \<Longrightarrow> int_str i = nat_str (nat i)" by (simp add: int_str_def)

lemma size_text: "0 \<le> i \<Longrightarrow> LF \<notin> set (int_str i) \<and> py_strip (int_str i) = int_str i"
  using nat_str_plain(4,5) [of _ "nat i"] by (auto simp: int_str_nat intro!: py_strip_id)

lemma format_package_fields:
  assumes "metadata_ok m"
  shows "format_package m = join [LF] (concat (map stanza_lines (package_fields m)))"
proof -
  have o: "concat (map stanza_lines (optional_field n v)) = optional_line n v" if "opt_ok v" for n v
    using that by (intro optional_lines) (auto simp: opt_ok_def text_ok_def)
  have "concat (map stanza_lines (optional_field ''Source'' (source_value m))) = source_lines m"
    unfolding source_lines_eq by (rule optional_lines) (rule source_value_lf [OF assms])
  then show ?thesis
    using assms o size_text [of "pm_size_bytes m"]
    by (simp add: format_package_def package_fields_def description_lines_eq metadata_ok_def text_ok_def single_line)
qed

lemma text_plain: "text_ok v \<Longrightarrow> plain_value v" by (simp add: text_ok_def plain_value_def split_on_id)

lemma names_plain:
  "list_all plain_name [''Package'', ''Version'', ''Architecture'', ''Filename'', ''SHA256'', ''Size'', ''Source'', ''Homepage'',
     ''Maintainer'', ''Depends'', ''Provides'', ''Section'', ''Priority'', ''Description'']"
  by code_simp

lemma optional_plain: "(\<And>x. v = Some x \<Longrightarrow> plain_value x) \<Longrightarrow> plain_name n \<Longrightarrow> list_all plain_field (optional_field n v)"
  by (cases v) (simp_all add: optional_field_def plain_field_def)

lemma text_concat:
  "text_ok a \<Longrightarrow> a \<noteq> [] \<Longrightarrow> text_ok b \<Longrightarrow> text_ok (a @ '' ('' @ b @ '')'')"
  using py_strip_ends [of a] by (auto simp: text_ok_def py_isspace_def intro!: py_strip_id)

lemma package_fields_plain:
  assumes "metadata_ok m"
  shows "list_all plain_field (package_fields m)"
proof -
  have "plain_value x" if "source_value m = Some x" for x
    using that assms by (auto simp: source_value_def metadata_ok_def intro!: text_plain text_concat [simplified] split: if_splits)
  moreover have "plain_value x" if "v = Some x" "opt_ok v" for v x using that by (simp add: opt_ok_def text_plain)
  moreover have "plain_value x" if "pm_description m = Some x" for x using that assms by (simp add: metadata_ok_def)
  moreover have "plain_value (int_str (pm_size_bytes m))"
    using size_text [of "pm_size_bytes m"] assms by (intro text_plain) (simp add: text_ok_def metadata_ok_def)
  ultimately show ?thesis
    using assms names_plain
    by (auto simp: package_fields_def metadata_ok_def plain_field_def text_plain intro!: optional_plain)
qed

lemma find_first:
  assumes "P k" and "a \<le> k" and "k < b" and "\<And>j. a \<le> j \<Longrightarrow> j < k \<Longrightarrow> \<not> P j"
  shows "List.find P [a..<b] = Some k"
proof -
  have "[a..<b] = [a..<k] @ k # [Suc k..<b]"
    using upt_add_eq_append [OF assms(2), of "b - k"] upt_conv_Cons [OF assms(3)] assms(3) by simp
  moreover have "List.find P (xs @ k # ys) = Some k" if "\<forall>x \<in> set xs. \<not> P x" for xs ys
    using that assms(1) by (induction xs) auto
  ultimately show ?thesis using assms(4) by simp
qed

lemma version_rest_none: "t \<noteq> [] \<Longrightarrow> CHR ''('' \<notin> set t \<Longrightarrow> \<not> py_isspace (last t) \<Longrightarrow> version_rest (t @ r) = None"
proof -
  assume t: "t \<noteq> []" "CHR ''('' \<notin> set t" "\<not> py_isspace (last t)"
  then have d: "dropWhile py_isspace (t @ r) = dropWhile py_isspace t @ r" "dropWhile py_isspace t \<noteq> []"
    using dropWhile_append1 [of "last t" t py_isspace r] by (auto simp: dropWhile_eq_Nil_conv)
  have "hd (dropWhile py_isspace t) \<in> set t" using d(2) by (metis hd_in_set set_dropWhileD)
  then show ?thesis using t(2) d by (auto simp: version_rest_def Let_def)
qed

lemma match_source_version:
  assumes "text_ok a" "a \<noteq> []" "CHR ''('' \<notin> set a" "b \<noteq> []" "CHR '')'' \<notin> set b"
  shows "match_source_with_version (a @ '' ('' @ b @ '')'') = Some (a, b)"
proof -
  let ?s = "a @ '' ('' @ b @ '')''"
  have a: "LF \<notin> set a" "\<not> py_isspace (last a)" using assms(1,2) py_strip_ends [of a] by (auto simp: text_ok_def)
  have v: "version_rest ('' ('' @ b @ '')'') = Some b"
    using assms(4,5) after_append [of "CHR '')''" "CHR ''('' # b" "[]"]
    by (simp add: version_rest_def Let_def before_append py_isspace_def [of "CHR ''(''"])
  have n: "version_rest (drop i ?s) = None" if "i < length a" for i
  proof -
    have "drop i ?s = drop i a @ '' ('' @ b @ '')''" using that by simp
    moreover have "version_rest (drop i a @ r) = None" for r
      by (rule version_rest_none) (use that a(2) assms(3) in \<open>auto dest: in_set_dropD\<close>)
    ultimately show ?thesis by simp
  qed
  have "List.find (\<lambda>i. LF \<notin> set (take i ?s) \<and> version_rest (drop i ?s) \<noteq> None) [1..<Suc (length ?s)] = Some (length a)"
    by (rule find_first) (use a(1) v n assms(2) in \<open>auto simp: Suc_le_eq\<close>)
  then show ?thesis unfolding match_source_with_version_def using v by simp
qed

lemma match_source_plain:
  assumes "CHR ''('' \<notin> set a"
  shows "match_source_with_version a = None"
proof -
  have "version_rest (drop i a) = None" for i
  proof -
    have "hd (dropWhile py_isspace (drop i a)) = CHR ''('' \<Longrightarrow> dropWhile py_isspace (drop i a) = []"
      using assms by (metis hd_in_set in_set_dropD set_dropWhileD)
    then show ?thesis by (auto simp: version_rest_def Let_def)
  qed
  then have "List.find (\<lambda>i. LF \<notin> set (take i a) \<and> version_rest (drop i a) \<noteq> None) [1..<Suc (length a)] = None"
    by (simp only: find_None_iff) simp
  then show ?thesis by (simp only: match_source_with_version_def option.case)
qed

lemma infer_source_printed:
  assumes "metadata_ok m"
  shows "infer_source (source_value m) (pm_package_name m) (pm_version m) = (pm_source_package m, pm_source_version m)"
proof -
  have ok: "text_ok (pm_source_package m)" "pm_source_package m \<noteq> []" "CHR ''('' \<notin> set (pm_source_package m)"
    "text_ok (pm_source_version m)" "pm_source_version m \<noteq> []" "CHR '')'' \<notin> set (pm_source_version m)"
    using assms by (auto simp: metadata_ok_def)
  have st: "py_strip (pm_source_package m) = pm_source_package m" "py_strip (pm_source_version m) = pm_source_version m"
    using ok by (simp_all add: text_ok_def)
  show ?thesis
  proof (cases "pm_source_version m = pm_version m")
    case True
    then show ?thesis using match_source_plain [OF ok(3)] ok(2) st by (simp add: source_value_def infer_source_def)
  next
    case False
    let ?v = "pm_source_package m @ '' ('' @ pm_source_version m @ '')''"
    have "py_strip ?v = ?v" using text_concat [OF ok(1,2,4)] by (simp add: text_ok_def)
    then show ?thesis
      using False match_source_version [OF ok(1,2,3,5,6)] st by (simp add: source_value_def infer_source_def del: append.simps)
  qed
qed

lemma package_fields_distinct: "distinct (map fst (package_fields m))"
  by (simp add: package_fields_def keys_optional)

lemma optional_get_nonempty: "(\<And>x. v = Some x \<Longrightarrow> x \<noteq> []) \<Longrightarrow> dict_get d k = v \<Longrightarrow> get_nonempty d k = v"
  by (auto simp: get_nonempty_def split: option.splits)

lemma py_int_size: "0 \<le> i \<Longrightarrow> length (nat_str (nat i)) \<le> 4300 \<Longrightarrow> py_int (py_strip (int_str i)) = Some i"
  using py_int_int_str [of i] size_text [of i] by simp

lemma build_printed:
  assumes "metadata_ok m"
  shows "build_package_metadata (package_fields m) = Some m"
proof -
  let ?d = "package_fields m"
  have g: "dict_get ?d ''Source'' = source_value m" "dict_get ?d ''Homepage'' = pm_homepage m" "dict_get ?d ''Maintainer'' = pm_maintainer m"
    "dict_get ?d ''Depends'' = pm_depends m" "dict_get ?d ''Provides'' = pm_provides m" "dict_get ?d ''Section'' = pm_section m"
    "dict_get ?d ''Priority'' = pm_priority m" "dict_get ?d ''Description'' = pm_description m"
    by (simp_all add: package_fields_def get_optional)
  have r: "dict_getd ?d ''Package'' [] = pm_package_name m" "dict_getd ?d ''Version'' [] = pm_version m"
    "dict_getd ?d ''Architecture'' [] = pm_architecture m" "dict_getd ?d ''Filename'' [] = pm_filename m"
    "dict_getd ?d ''SHA256'' [] = pm_sha256 m" "dict_getd ?d ''Size'' [] = int_str (pm_size_bytes m)"
    by (simp_all add: package_fields_def dict_getd_def get_optional)
  have q: "list_all (dict_has ?d) REQUIRED_FIELDS" by (simp add: REQUIRED_FIELDS_def dict_has_def package_fields_def)
  have o: "get_nonempty ?d k = v" if "dict_get ?d k = v" "opt_ok v" for k v
    using that by (intro optional_get_nonempty) (auto simp: opt_ok_def)
  have dsc: "get_nonempty ?d ''Description'' = pm_description m"
    by (rule optional_get_nonempty) (use assms g in \<open>auto simp: metadata_ok_def\<close>)
  have z: "py_int (py_strip (int_str (pm_size_bytes m))) = Some (pm_size_bytes m)" "\<not> pm_size_bytes m < 0"
    using assms by (simp_all add: py_int_size metadata_ok_def)
  show ?thesis
    using q z infer_source_printed [OF assms] o [OF g(2)] o [OF g(3)] o [OF g(4)] o [OF g(5)] o [OF g(6)] o [OF g(7)] dsc assms
    by (simp add: build_package_metadata_def r g(1) metadata_ok_def)
qed

text \<open>Packages files of the index read back: the stanzas printed for packages, separated by
  blank lines, parse to these packages in order, source names and versions included whether they are
  printed or inferred.\<close>

theorem ix_packages_format_parse:
  assumes "list_all metadata_ok ms"
  shows "ix_packages_parse (join [LF, LF] (map format_package ms)) = ms"
proof -
  have b: "is_block (format_package m) \<and> build_package (format_package m) = Some m" if "m \<in> set ms" for m
  proof -
    have ok: "metadata_ok m" using assms that by (simp add: list_all_iff)
    have "package_fields m \<noteq> []" by (simp add: package_fields_def)
    note p = parse_printed_stanza [OF package_fields_plain [OF ok] this package_fields_distinct]
    show ?thesis using p build_printed [OF ok] by (simp add: format_package_fields [OF ok] build_package_def)
  qed
  have "ix_packages_parse (join [LF, LF] (map format_package ms)) = List.map_filter build_package (map format_package ms)"
    by (rule ix_packages.read_blocks) (use b in auto)
  also have "\<dots> = ms" using b by (induction ms) (auto simp: map_filter_def)
  finally show ?thesis .
qed

definition example_package :: package_metadata where
  "example_package = \<lparr>pm_package_name = ''libc6'', pm_version = ''2.36-9'', pm_architecture = ''amd64'', pm_filename = ''pool/g.deb'',
     pm_sha256 = ''ab'', pm_size_bytes = 12, pm_source_package = ''glibc'', pm_source_version = ''2.36'', pm_homepage = None,
     pm_maintainer = Some ''M <m@x>'', pm_depends = None, pm_provides = None, pm_section = None, pm_priority = Some ''optional'',
     pm_description = Some (''a'' @ [LF] @ '' b'')\<rparr>"

theorem ix_packages_format_parse_witness:
  "ix_packages_parse (join [LF, LF] (map format_package [example_package, example_package])) = [example_package, example_package]"
proof -
  have "metadata_ok example_package" by code_simp
  then show ?thesis by (intro ix_packages_format_parse) simp
qed

text \<open>Only the description is printed with continuation lines; another field of several lines is lost
  from its second line on.\<close>

lemma folded_depends_lost:
  "(let m = example_package\<lparr>pm_depends := Some (''a,'' @ [LF] @ ''b'')\<rparr>
    in build_package_metadata (package_fields m) = Some m \<and>
       map pm_depends (ix_packages_parse (format_package m)) = [Some ''a,''])"
  by code_simp

end
