(* ===== verification/Indexer_Service.thy ===== *)
theory Indexer_Service
  imports Indexer_Parsers Mirror_Engine "HOL-Library.List_Lexorder" "HOL-Library.Product_Lexorder" "HOL-Library.Char_ord"
begin

text \<open>
  The indexing use case \<open>src/debcraft/domain/indexer/service.py\<close> with its adapters under
  \<open>src/debcraft/infrastructure/indexer/\<close>: the metadata repository (\<open>repository.py\<close>, \<open>mapper.py\<close>), the
  mirror file repository (\<open>mirror_file_repository.py\<close>) and the file reader (\<open>file_reader.py\<close>). The rows of
  \<open>metadata.db\<close> and the file table of \<open>mirror.db\<close>, which the mirror engine fills, are one state.
\<close>

section \<open>File types\<close>

fun strip_compression :: "string list \<Rightarrow> string \<Rightarrow> string" where
  "strip_compression [] base = base"
| "strip_compression (ext # exts) base =
     (if endswith (py_lower base) ext then take (length base - length ext) base else strip_compression exts base)"

definition infer_file_type :: "string \<Rightarrow> string" where
  "infer_file_type url_or_path =
     (case filter (\<lambda>seg. seg \<noteq> []) (rev (split_on CHR ''/'' url_or_path)) of
        [] \<Rightarrow> ''unknown''
      | filename # _ \<Rightarrow>
          (let lowered = py_lower (strip_compression [''.gz'', ''.xz'', ''.bz2''] filename) in
           if startswith lowered ''packages'' then ''packages''
           else if startswith lowered ''sources'' then ''sources''
           else if startswith lowered ''contents'' then ''contents''
           else if lowered = ''release'' \<or> lowered = ''inrelease'' then ''release''
           else ''unknown''))"

text \<open>\<open>_compute_download_url\<close>, which only the tests call.\<close>

definition compute_download_url :: "string \<Rightarrow> string \<Rightarrow> string" where
  "compute_download_url base_url filename = rstrip_slash base_url @ ''/'' @ lstrip_of (\<lambda>c. c = CHR ''/'') filename"

section \<open>Errors and outside world\<close>

datatype index_error =
    OSError string
  | ValueError string
  | KeyError string
  | TypeError string
  | LZMAError string
  | EOFError string
  | ZlibError string
  | Release_Error release_parse_error

text \<open>\<open>str(exc)\<close>.\<close>

fun error_str :: "index_error \<Rightarrow> string" where
  "error_str (OSError m) = m"
| "error_str (ValueError m) = m"
| "error_str (KeyError m) = m"
| "error_str (TypeError m) = m"
| "error_str (LZMAError m) = m"
| "error_str (EOFError m) = m"
| "error_str (ZlibError m) = m"
| "error_str (Release_Error (release_parse_error.ReleaseParseError m)) = m"

text \<open>Calls that storage can refuse.\<close>

datatype index_op =
    Find_Repository
  | Create_Snapshot
  | List_Files
  | Read_Record int
  | Persist int
  | Record_Indexed int
  | Mark_State int
  | Publish_Snapshot

text \<open>The file system, the decompressors, UTF-8, SQL \<open>LIKE\<close> and the storage's faults.\<close>

record index_env =
  ie_read_bytes :: "string \<Rightarrow> index_error + string"
  ie_gunzip :: "string \<Rightarrow> index_error + string"
  ie_unxz :: "string \<Rightarrow> index_error + string"
  ie_bunzip2 :: "string \<Rightarrow> index_error + string"
  ie_utf8 :: "string \<Rightarrow> string option"
  ie_like :: "string \<Rightarrow> string \<Rightarrow> bool"
  ie_fault :: "index_op \<Rightarrow> index_error option"

section \<open>The file reader\<close>

definition caught_by_reader :: "index_error \<Rightarrow> bool" where
  "caught_by_reader e = (case e of OSError _ \<Rightarrow> True | LZMAError _ \<Rightarrow> True | ValueError _ \<Rightarrow> True | _ \<Rightarrow> False)"

definition decode_or :: "index_env \<Rightarrow> string \<Rightarrow> string \<Rightarrow> index_error + string" where
  "decode_or env msg raw = (case ie_utf8 env raw of None \<Rightarrow> Inl (OSError msg) | Some text \<Rightarrow> Inr text)"

definition read_file :: "index_env \<Rightarrow> string \<Rightarrow> index_error + string" where
  "read_file env local_path =
     (let path = path_of local_path;
          suffix = py_lower (path_suffix path);
          decompress_msg = ''Failed to decompress file: '' @ local_path
      in case ie_read_bytes env path of
           Inl e \<Rightarrow> Inl (case e of OSError _ \<Rightarrow> OSError (''Failed to read file: '' @ local_path) | _ \<Rightarrow> e)
         | Inr raw_bytes \<Rightarrow>
             if suffix \<in> {''.gz'', ''.xz'', ''.bz2''} then
               (case (if suffix = ''.gz'' then ie_gunzip env else if suffix = ''.xz'' then ie_unxz env else ie_bunzip2 env) raw_bytes of
                  Inl e \<Rightarrow> Inl (if caught_by_reader e then OSError decompress_msg else e)
                | Inr content \<Rightarrow> decode_or env (''Failed to decode file as UTF-8: '' @ local_path) content)
             else decode_or env decompress_msg raw_bytes)"

section \<open>Rows\<close>

record repository_row =
  rr_id :: int
  rr_name :: string
  rr_base_url :: string
  rr_suite :: string
  rr_component :: string

record snapshot_row =
  sn_id :: int
  sn_repository_id :: int
  sn_schema_version :: int
  sn_published :: bool

record package_instance =
  pi_package_name :: string
  pi_version :: string
  pi_architecture :: string
  pi_filename :: string
  pi_sha256 :: string
  pi_size_bytes :: int
  pi_snapshot_id :: int
  pi_source_package :: "string option"
  pi_source_version :: "string option"
  pi_homepage :: "string option"
  pi_maintainer :: "string option"
  pi_depends :: "string option"
  pi_provides :: "string option"
  pi_section :: "string option"
  pi_priority :: "string option"
  pi_description :: "string option"
  pi_download_url :: "string option"

record source_package =
  so_name :: string
  so_version :: string
  so_maintainer :: "string option"
  so_uploaders :: "string option"
  so_section :: "string option"
  so_homepage :: "string option"
  so_build_depends :: "string option"
  so_binary_packages :: "string option"
  so_snapshot_id :: "int option"

record ownership_row =
  ow_snapshot_id :: int
  ow_file_path :: string
  ow_package_name :: string

record indexing_record =
  ir_parser_version :: int
  ir_indexed_sha256 :: string

datatype index_event =
    IndexingStarted string int
  | IndexingCompleted string int nat
  | IndexingFailed string int string

text \<open>The two databases and the events published. Rows of repositories and snapshots are never
  deleted, so that their primary keys count from one; indexing records are keyed by their unique
  column \<open>repository_file_id\<close>.\<close>

record index_store =
  st_repositories :: "repository_row list"
  st_snapshots :: "snapshot_row list"
  st_packages :: "package_instance list"
  st_sources :: "source_package list"
  st_ownerships :: "ownership_row list"
  st_records :: "(int, indexing_record) dict"
  st_files :: file_table
  st_events :: "index_event list"

section \<open>The mapper\<close>

definition package_metadata_to_model :: "package_metadata \<Rightarrow> int \<Rightarrow> string \<Rightarrow> package_instance" where
  "package_metadata_to_model metadata snapshot_id download_url =
     \<lparr>pi_package_name = pm_package_name metadata, pi_version = pm_version metadata,
      pi_architecture = pm_architecture metadata, pi_filename = pm_filename metadata,
      pi_sha256 = pm_sha256 metadata, pi_size_bytes = pm_size_bytes metadata, pi_snapshot_id = snapshot_id,
      pi_source_package = Some (pm_source_package metadata), pi_source_version = Some (pm_source_version metadata),
      pi_homepage = pm_homepage metadata, pi_maintainer = pm_maintainer metadata, pi_depends = pm_depends metadata,
      pi_provides = pm_provides metadata, pi_section = pm_section metadata, pi_priority = pm_priority metadata,
      pi_description = pm_description metadata, pi_download_url = Some download_url\<rparr>"

definition join_or_none :: "string list \<Rightarrow> string option" where
  "join_or_none xs = (if xs \<noteq> [] then Some (join '', '' xs) else None)"

definition source_metadata_to_model :: "source_package_metadata \<Rightarrow> int option \<Rightarrow> source_package" where
  "source_metadata_to_model metadata snapshot_id =
     \<lparr>so_name = sp_name metadata, so_version = sp_version metadata, so_maintainer = sp_maintainer metadata,
      so_uploaders = join_or_none (sp_uploaders metadata), so_section = sp_section metadata,
      so_homepage = sp_homepage metadata, so_build_depends = sp_build_depends metadata,
      so_binary_packages = join_or_none (sp_binary_packages metadata), so_snapshot_id = snapshot_id\<rparr>"

definition file_ownership_to_model :: "int \<Rightarrow> file_ownership \<Rightarrow> ownership_row" where
  "file_ownership_to_model snapshot_id ownership =
     \<lparr>ow_snapshot_id = snapshot_id, ow_file_path = fo_path ownership,
      ow_package_name = fo_qualified_package_name ownership\<rparr>"

section \<open>The metadata repository\<close>

definition find_or_create_repository :: "string \<Rightarrow> string \<Rightarrow> string \<Rightarrow> string \<Rightarrow> index_store \<Rightarrow> int \<times> index_store" where
  "find_or_create_repository name base_url suite component st =
     (case List.find (\<lambda>r. rr_name r = name) (st_repositories st) of
        Some repo \<Rightarrow> (rr_id repo, st)
      | None \<Rightarrow>
          (let new_id = int (length (st_repositories st)) + 1
           in (new_id, st\<lparr>st_repositories := st_repositories st @
                 [\<lparr>rr_id = new_id, rr_name = name, rr_base_url = base_url, rr_suite = suite, rr_component = component\<rparr>]\<rparr>)))"

definition create_snapshot :: "int \<Rightarrow> int \<Rightarrow> index_store \<Rightarrow> int \<times> index_store" where
  "create_snapshot repository_id schema_version st =
     (let new_id = int (length (st_snapshots st)) + 1
      in (new_id, st\<lparr>st_snapshots := st_snapshots st @
            [\<lparr>sn_id = new_id, sn_repository_id = repository_id, sn_schema_version = schema_version, sn_published = False\<rparr>]\<rparr>))"

definition publish_snapshot :: "int \<Rightarrow> index_store \<Rightarrow> index_store" where
  "publish_snapshot snapshot_id st =
     st\<lparr>st_snapshots := map (\<lambda>s. if sn_id s = snapshot_id then s\<lparr>sn_published := True\<rparr> else s) (st_snapshots st)\<rparr>"

type_synonym natural_key = "string \<times> string \<times> string \<times> string"

definition instance_key :: "package_instance \<Rightarrow> natural_key" where
  "instance_key p = (pi_package_name p, pi_version p, pi_architecture p, pi_filename p)"

definition metadata_key :: "package_metadata \<Rightarrow> natural_key" where
  "metadata_key m = (pm_package_name m, pm_version m, pm_architecture m, pm_filename m)"

definition add_package_step ::
  "int \<Rightarrow> string \<Rightarrow> package_instance list \<times> nat \<Rightarrow> package_metadata \<Rightarrow> package_instance list \<times> nat" where
  "add_package_step snapshot_id normalized_base_url acc pkg = (case acc of (rows, inserted_count) \<Rightarrow>
     if \<exists>r \<in> set rows. instance_key r = metadata_key pkg then (rows, inserted_count)
     else (rows @ [package_metadata_to_model pkg snapshot_id (normalized_base_url @ ''/'' @ pm_filename pkg)],
           inserted_count + 1))"

definition add_package_instances :: "int \<Rightarrow> package_metadata list \<Rightarrow> string \<Rightarrow> index_store \<Rightarrow> nat \<times> index_store" where
  "add_package_instances snapshot_id packages base_url st =
     (case foldl (add_package_step snapshot_id (rstrip_slash base_url)) (st_packages st, 0) packages of
        (rows, inserted_count) \<Rightarrow> (inserted_count, st\<lparr>st_packages := rows\<rparr>))"

definition add_source_step :: "source_package list \<times> nat \<Rightarrow> source_package_metadata \<Rightarrow> source_package list \<times> nat" where
  "add_source_step acc src_pkg = (case acc of (rows, inserted_count) \<Rightarrow>
     if \<exists>r \<in> set rows. so_name r = sp_name src_pkg \<and> so_version r = sp_version src_pkg then (rows, inserted_count)
     else (rows @ [source_metadata_to_model src_pkg None], inserted_count + 1))"

definition add_source_packages :: "source_package_metadata list \<Rightarrow> index_store \<Rightarrow> nat \<times> index_store" where
  "add_source_packages packages st =
     (case foldl add_source_step (st_sources st, 0) packages of
        (rows, inserted_count) \<Rightarrow> (inserted_count, st\<lparr>st_sources := rows\<rparr>))"

definition replace_file_ownerships :: "int \<Rightarrow> file_ownership list \<Rightarrow> index_store \<Rightarrow> nat \<times> index_store" where
  "replace_file_ownerships snapshot_id ownerships st =
     (length ownerships,
      st\<lparr>st_ownerships := filter (\<lambda>w. ow_snapshot_id w \<noteq> snapshot_id) (st_ownerships st) @
           map (file_ownership_to_model snapshot_id) ownerships\<rparr>)"

text \<open>\<open>newest_first\<close> is the \<open>ORDER BY created_at DESC\<close> of the database, whose clock counts seconds.\<close>

definition some_or :: "string option \<Rightarrow> string \<Rightarrow> string" where
  "some_or v d = (case v of None \<Rightarrow> d | Some s \<Rightarrow> if s = [] then d else s)"

definition get_package_metadata ::
  "(package_instance list \<Rightarrow> package_instance list) \<Rightarrow> string \<Rightarrow> index_store \<Rightarrow> package_metadata option" where
  "get_package_metadata newest_first package_name st =
     map_option (\<lambda>r. \<lparr>pm_package_name = pi_package_name r, pm_version = pi_version r, pm_architecture = pi_architecture r,
         pm_filename = pi_filename r, pm_sha256 = pi_sha256 r, pm_size_bytes = pi_size_bytes r,
         pm_source_package = some_or (pi_source_package r) (pi_package_name r),
         pm_source_version = some_or (pi_source_version r) (pi_version r),
         pm_homepage = pi_homepage r, pm_maintainer = pi_maintainer r, pm_depends = pi_depends r,
         pm_provides = pi_provides r, pm_section = pi_section r, pm_priority = pi_priority r,
         pm_description = pi_description r\<rparr>)
       (case newest_first (filter (\<lambda>r. pi_package_name r = package_name) (st_packages st)) of [] \<Rightarrow> None | r # _ \<Rightarrow> Some r)"

section \<open>The mirror file repository\<close>

record file_info =
  fi_id :: int
  fi_url :: string
  fi_sha256 :: string
  fi_local_path :: string
  fi_size_bytes :: int

text \<open>The primary keys of the file table count its rows, which are never deleted, from one.\<close>

definition file_info_of :: "nat \<times> string \<times> repo_file \<Rightarrow> file_info" where
  "file_info_of r = (case r of (i, url, f) \<Rightarrow>
     \<lparr>fi_id = int i + 1, fi_url = url, fi_sha256 = rf_sha256 f,
      fi_local_path = (case rf_local_path f of None \<Rightarrow> [] | Some p \<Rightarrow> p), fi_size_bytes = rf_size f\<rparr>)"

definition get_verified_files :: "(string \<Rightarrow> string \<Rightarrow> bool) \<Rightarrow> string option \<Rightarrow> file_table \<Rightarrow> file_info list" where
  "get_verified_files contains repository_name files =
     map file_info_of (filter (\<lambda>(_, url, f). rf_state f \<in> {VERIFIED, INDEXED} \<and>
         (case repository_name of None \<Rightarrow> True | Some name \<Rightarrow> contains url name)) (enumerate 0 files))"

definition get_indexing_record :: "int \<Rightarrow> index_store \<Rightarrow> indexing_record option" where
  "get_indexing_record file_id st = dict_get (st_records st) file_id"

text \<open>The two sessions of \<open>mark_indexed\<close>, one for each database.\<close>

definition record_indexed :: "int \<Rightarrow> int \<Rightarrow> string \<Rightarrow> index_store \<Rightarrow> index_store" where
  "record_indexed file_id parser_version sha256 st =
     st\<lparr>st_records := dict_set (st_records st) file_id \<lparr>ir_parser_version = parser_version, ir_indexed_sha256 = sha256\<rparr>\<rparr>"

definition mark_state :: "int \<Rightarrow> index_store \<Rightarrow> index_store" where
  "mark_state file_id st =
     st\<lparr>st_files := map (\<lambda>(i, url, f). (url, if int i + 1 = file_id then f\<lparr>rf_state := INDEXED\<rparr> else f))
          (enumerate 0 (st_files st))\<rparr>"

section \<open>The service\<close>

text \<open>A call that storage may refuse, and a call after another.\<close>

definition attempt :: "index_env \<Rightarrow> index_op \<Rightarrow> (index_store \<Rightarrow> 'a \<times> index_store) \<Rightarrow> index_store \<Rightarrow> (index_error + 'a) \<times> index_store" where
  "attempt env op act st =
     (case ie_fault env op of Some e \<Rightarrow> (Inl e, st) | None \<Rightarrow> (case act st of (a, st') \<Rightarrow> (Inr a, st')))"

definition update_store :: "(index_store \<Rightarrow> index_store) \<Rightarrow> index_store \<Rightarrow> unit \<times> index_store" where
  "update_store f st = ((), f st)"

definition SCHEMA_VERSION :: int where "SCHEMA_VERSION = 3"

definition PARSER_VERSION :: int where "PARSER_VERSION = 1"

definition get_parser_version :: "string \<Rightarrow> int" where
  "get_parser_version file_type =
     dict_getd [(''packages'', PARSER_VERSION), (''sources'', PARSER_VERSION), (''contents'', PARSER_VERSION)] file_type 1"

definition should_skip :: "indexing_record option \<Rightarrow> string \<Rightarrow> int \<Rightarrow> bool" where
  "should_skip indexing_record current_sha256 current_parser_version =
     (case indexing_record of None \<Rightarrow> False
      | Some r \<Rightarrow> ir_indexed_sha256 r = current_sha256 \<and> ir_parser_version r = current_parser_version)"

type_synonym counts = "nat \<times> nat \<times> nat \<times> nat"

definition parse_and_persist ::
  "index_env \<Rightarrow> int \<Rightarrow> string \<Rightarrow> string \<Rightarrow> string \<Rightarrow> int \<Rightarrow> index_store \<Rightarrow> (index_error + counts) \<times> index_store" where
  "parse_and_persist env file_id file_type content base_url snapshot_id st =
     (if file_type = ''packages'' then
        and_then (attempt env (Persist file_id) (add_package_instances snapshot_id (ix_packages_parse content) base_url) st)
          (\<lambda>count st. (Inr (count, 0, 0, 0), st))
      else if file_type = ''sources'' then
        and_then (attempt env (Persist file_id) (add_source_packages (sources_parse content)) st)
          (\<lambda>count st. (Inr (0, count, 0, 0), st))
      else if file_type = ''contents'' then
        and_then (attempt env (Persist file_id) (replace_file_ownerships snapshot_id (contents_parse content)) st)
          (\<lambda>count st. (Inr (0, 0, count, 0), st))
      else if file_type = ''release'' then
        (case release_metadata_parse content of
           Inl e \<Rightarrow> (Inl (Release_Error e), st)
         | Inr _ \<Rightarrow> (Inr (0, 0, 0, 0), st))
      else (Inr (0, 0, 0, 0), st))"

definition mark_indexed :: "index_env \<Rightarrow> int \<Rightarrow> int \<Rightarrow> string \<Rightarrow> index_store \<Rightarrow> (index_error + unit) \<times> index_store" where
  "mark_indexed env file_id parser_version sha256 st =
     and_then (attempt env (Record_Indexed file_id) (update_store (record_indexed file_id parser_version sha256)) st)
       (\<lambda>_. attempt env (Mark_State file_id) (update_store (mark_state file_id)))"

definition caught_per_file :: "index_error \<Rightarrow> bool" where
  "caught_per_file e = (case e of OSError _ \<Rightarrow> True | ValueError _ \<Rightarrow> True | KeyError _ \<Rightarrow> True | Release_Error _ \<Rightarrow> True | _ \<Rightarrow> False)"

definition file_body :: "index_env \<Rightarrow> string \<Rightarrow> int \<Rightarrow> file_info \<Rightarrow> index_store \<Rightarrow> (index_error + counts) \<times> index_store" where
  "file_body env base_url snapshot_id file_info st =
     (let file_type = infer_file_type (fi_url file_info);
          parser_version = get_parser_version file_type
      in and_then (attempt env (Read_Record (fi_id file_info)) (\<lambda>st. (get_indexing_record (fi_id file_info) st, st)) st)
        (\<lambda>indexing_record st.
           if should_skip indexing_record (fi_sha256 file_info) parser_version then (Inr (0, 0, 0, 1), st)
           else if file_type = ''unknown'' then (Inr (0, 0, 0, 0), st)
           else and_then (read_file env (fi_local_path file_info), st)
             (\<lambda>content st. and_then (parse_and_persist env (fi_id file_info) file_type content base_url snapshot_id st)
               (\<lambda>counts st. and_then (mark_indexed env (fi_id file_info) parser_version (fi_sha256 file_info) st)
                  (\<lambda>_ st. (Inr counts, st))))))"

definition process_single_file :: "index_env \<Rightarrow> string \<Rightarrow> int \<Rightarrow> file_info \<Rightarrow> index_store \<Rightarrow> (index_error + counts) \<times> index_store" where
  "process_single_file env base_url snapshot_id file_info st =
     (case file_body env base_url snapshot_id file_info st of
        (Inl e, st') \<Rightarrow> if caught_per_file e then (Inr (0, 0, 0, 0), st') else (Inl e, st')
      | r \<Rightarrow> r)"

definition add_counts :: "counts \<Rightarrow> counts \<Rightarrow> counts" where
  "add_counts a b = (case (a, b) of ((a1, a2, a3, a4), (b1, b2, b3, b4)) \<Rightarrow> (a1 + b1, a2 + b2, a3 + b3, a4 + b4))"

text \<open>The loop over the files: what was counted before an exception stays counted.\<close>

fun process_files ::
  "index_env \<Rightarrow> string \<Rightarrow> int \<Rightarrow> counts \<Rightarrow> file_info list \<Rightarrow> index_store \<Rightarrow> counts \<times> (index_error + unit) \<times> index_store" where
  "process_files env base_url snapshot_id totals [] st = (totals, Inr (), st)"
| "process_files env base_url snapshot_id totals (f # fs) st =
     (case process_single_file env base_url snapshot_id f st of
        (Inl e, st') \<Rightarrow> (totals, Inl e, st')
      | (Inr counts, st') \<Rightarrow> process_files env base_url snapshot_id (add_counts totals counts) fs st')"

record index_result =
  ix_repository_name :: string
  ix_snapshot_id :: int
  ix_packages_indexed :: nat
  ix_source_packages_indexed :: nat
  ix_file_ownerships_indexed :: nat
  ix_files_skipped :: nat
  ix_success :: bool
  ix_error :: "string option"

definition index_result_of :: "string \<Rightarrow> int \<Rightarrow> counts \<Rightarrow> string option \<Rightarrow> index_result" where
  "index_result_of repository_name snapshot_id totals err = (case totals of (p, s, w, k) \<Rightarrow>
     \<lparr>ix_repository_name = repository_name, ix_snapshot_id = snapshot_id, ix_packages_indexed = p,
      ix_source_packages_indexed = s, ix_file_ownerships_indexed = w, ix_files_skipped = k,
      ix_success = (err = None), ix_error = err\<rparr>)"

definition publish_event :: "index_event \<Rightarrow> index_store \<Rightarrow> index_store" where
  "publish_event ev st = st\<lparr>st_events := st_events st @ [ev]\<rparr>"

definition sort_files :: "file_info list \<Rightarrow> file_info list" where
  "sort_files verified_files = sort_key (\<lambda>f. (infer_file_type (fi_url f), fi_url f)) verified_files"

text \<open>The body of the \<open>try\<close> statement with the local variables \<open>snapshot_id\<close> and the counters as they
  are when it ends. \<open>_finalize_empty_snapshot\<close> is the case of no files.\<close>

definition publish_all :: "index_env \<Rightarrow> string \<Rightarrow> int \<Rightarrow> counts \<Rightarrow> index_store \<Rightarrow> (index_error + unit) \<times> index_store" where
  "publish_all env repository_name snapshot_id totals st =
     and_then (attempt env Publish_Snapshot (update_store (publish_snapshot snapshot_id)) st)
       (\<lambda>_ st. (Inr (), publish_event (IndexingCompleted repository_name snapshot_id (fst totals)) st))"

definition index_snapshot ::
  "index_env \<Rightarrow> string \<Rightarrow> string \<Rightarrow> int \<Rightarrow> index_store \<Rightarrow> counts \<times> (index_error + unit) \<times> index_store" where
  "index_snapshot env repository_name base_url snapshot_id st =
     (case attempt env List_Files (\<lambda>st. (get_verified_files (ie_like env) (Some repository_name) (st_files st), st)) st of
        (Inl e, st) \<Rightarrow> ((0, 0, 0, 0), Inl e, st)
      | (Inr verified_files, st) \<Rightarrow>
          if verified_files = [] then ((0, 0, 0, 0), publish_all env repository_name snapshot_id (0, 0, 0, 0) st)
          else (case process_files env base_url snapshot_id (0, 0, 0, 0) (sort_files verified_files) st of
              (totals, Inl e, st) \<Rightarrow> (totals, Inl e, st)
            | (totals, Inr _, st) \<Rightarrow> (totals, publish_all env repository_name snapshot_id totals st)))"

definition index_body ::
  "index_env \<Rightarrow> string \<Rightarrow> string \<Rightarrow> string \<Rightarrow> string \<Rightarrow> index_store \<Rightarrow> int \<times> counts \<times> (index_error + unit) \<times> index_store" where
  "index_body env repository_name base_url suite component st =
     (case attempt env Find_Repository (find_or_create_repository repository_name base_url suite component) st of
        (Inl e, st) \<Rightarrow> (0, (0, 0, 0, 0), Inl e, st)
      | (Inr repository_id, st) \<Rightarrow>
          (case attempt env Create_Snapshot (create_snapshot repository_id SCHEMA_VERSION) st of
             (Inl e, st) \<Rightarrow> (0, (0, 0, 0, 0), Inl e, st)
           | (Inr snapshot_id, st) \<Rightarrow>
               (snapshot_id, index_snapshot env repository_name base_url snapshot_id
                  (publish_event (IndexingStarted repository_name snapshot_id) st))))"

definition caught_by_index :: "index_error \<Rightarrow> bool" where
  "caught_by_index e = (case e of OSError _ \<Rightarrow> True | ValueError _ \<Rightarrow> True | KeyError _ \<Rightarrow> True | TypeError _ \<Rightarrow> True | _ \<Rightarrow> False)"

text \<open>\<open>Inl\<close> is an exception that leaves the method.\<close>

definition index_repository ::
  "index_env \<Rightarrow> string \<Rightarrow> string \<Rightarrow> string \<Rightarrow> string \<Rightarrow> index_store \<Rightarrow> (index_error + index_result) \<times> index_store" where
  "index_repository env repository_name base_url suite component st =
     (case index_body env repository_name base_url suite component st of
        (snapshot_id, totals, Inr _, st') \<Rightarrow> (Inr (index_result_of repository_name snapshot_id totals None), st')
      | (snapshot_id, totals, Inl e, st') \<Rightarrow>
          if caught_by_index e
          then (Inr (index_result_of repository_name snapshot_id totals (Some (error_str e))),
                publish_event (IndexingFailed repository_name snapshot_id (error_str e)) st')
          else (Inl e, st'))"

section \<open>Tables with a natural key\<close>

text \<open>What \<open>add_package_instances\<close> and \<open>add_source_packages\<close> share: a row is inserted unless one with
  its natural key exists.\<close>

locale keyed_table =
  fixes row_key :: "'r \<Rightarrow> 'k" and item_key :: "'x \<Rightarrow> 'k" and mk :: "'x \<Rightarrow> 'r"
    and step :: "'r list \<times> nat \<Rightarrow> 'x \<Rightarrow> 'r list \<times> nat"
  assumes mk_key: "row_key (mk x) = item_key x"
    and step_eq: "step (rows, n) x = (if item_key x \<in> row_key ` set rows then (rows, n) else (rows @ [mk x], n + 1))"
begin

lemma fold_distinct:
  "distinct (map row_key rows) \<Longrightarrow> distinct (map row_key (fst (foldl step (rows, n) xs)))"
  by (induction xs arbitrary: rows n) (auto simp: step_eq mk_key)

lemma fold_count: "length (fst (foldl step (rows, n) xs)) + n = length rows + snd (foldl step (rows, n) xs)"
proof (induction xs arbitrary: rows n)
  case (Cons x xs)
  show ?case using Cons [of rows n] Cons [of "rows @ [mk x]" "n + 1"] by (simp add: step_eq)
qed simp

lemma fold_keys: "row_key ` set (fst (foldl step (rows, n) xs)) = row_key ` set rows \<union> item_key ` set xs"
  by (induction xs arbitrary: rows n) (auto simp: step_eq mk_key)

lemma fold_rows: "r \<in> set (fst (foldl step (rows, n) xs)) \<Longrightarrow> r \<in> set rows \<or> r \<in> mk ` set xs"
proof (induction xs arbitrary: rows n)
  case (Cons x xs)
  show ?case using Cons.prems by (auto simp: step_eq split: if_splits dest!: Cons.IH)
qed simp

lemma fold_known: "item_key ` set xs \<subseteq> row_key ` set rows \<Longrightarrow> foldl step (rows, n) xs = (rows, n)"
  by (induction xs) (auto simp: step_eq)

lemma fold_again:
  "foldl step (fst (foldl step (rows, n) xs), m) xs = (fst (foldl step (rows, n) xs), m)"
  by (rule fold_known) (simp add: fold_keys)

end

definition source_key :: "source_package \<Rightarrow> string \<times> string" where "source_key r = (so_name r, so_version r)"

lemma key_in_image: "k \<in> f ` S \<longleftrightarrow> (\<exists>r \<in> S. f r = k)"
  by auto

interpretation packages_table: keyed_table instance_key metadata_key
    "\<lambda>m. package_metadata_to_model m snapshot_id (base @ ''/'' @ pm_filename m)" "add_package_step snapshot_id base"
    for snapshot_id base
  by unfold_locales (simp_all add: key_in_image instance_key_def metadata_key_def package_metadata_to_model_def add_package_step_def)

interpretation sources_table: keyed_table source_key "\<lambda>m. (sp_name m, sp_version m)"
    "\<lambda>m. source_metadata_to_model m None" add_source_step
  by unfold_locales (simp_all add: key_in_image source_key_def source_metadata_to_model_def add_source_step_def)

section \<open>The log of indexed files\<close>

text \<open>What the service relies on of \<open>MirrorFileRepository\<close>: the record it writes for a file is the
  one it reads for that file, and for no other.\<close>

locale indexing_log =
  fixes lookup :: "int \<Rightarrow> 's \<Rightarrow> indexing_record option" and mark :: "int \<Rightarrow> int \<Rightarrow> string \<Rightarrow> 's \<Rightarrow> 's"
  assumes lookup_mark: "lookup j (mark i v h s) =
    (if j = i then Some \<lparr>ir_parser_version = v, ir_indexed_sha256 = h\<rparr> else lookup j s)"
begin

lemma skip_marked: "should_skip (lookup i (mark i v h s)) h v"
  by (simp add: lookup_mark should_skip_def)

lemma skip_other: "j \<noteq> i \<Longrightarrow> should_skip (lookup j (mark i v h s)) h' v' = should_skip (lookup j s) h' v'"
  by (simp add: lookup_mark)

lemma skip_stays:
  "should_skip (lookup j s) h' v' \<Longrightarrow> (j = i \<Longrightarrow> h = h' \<and> v = v') \<Longrightarrow> should_skip (lookup j (mark i v h s)) h' v'"
  by (auto simp: lookup_mark should_skip_def)

end

lemma get_indexing_record_mark_state [simp]: "get_indexing_record j (mark_state i st) = get_indexing_record j st"
  by (simp add: get_indexing_record_def mark_state_def)

interpretation mirror_log: indexing_log get_indexing_record "\<lambda>i v h st. mark_state i (record_indexed i v h st)"
  by unfold_locales (simp add: get_indexing_record_def record_indexed_def mark_state_def)

section \<open>Calls that may fail\<close>

named_theorems kept

lemma kept_attempt [kept]: "P st \<Longrightarrow> P (snd (act st)) \<Longrightarrow> P (snd (attempt env op act st))"
  by (auto simp: attempt_def split: option.splits prod.splits)

lemma kept_and_then [kept]: "P (snd r) \<Longrightarrow> (\<And>a st. P st \<Longrightarrow> P (snd (k a st))) \<Longrightarrow> P (snd (and_then r k))"
  by (auto simp: and_then_def split: sum.splits prod.splits)

text \<open>What every call on a file keeps, \<open>process_single_file\<close> and the loop keep.\<close>

lemma kept_file:
  assumes "P st"
    and "\<And>st xs. P st \<Longrightarrow> P (snd (add_package_instances snapshot_id xs base_url st))"
    and "\<And>st xs. P st \<Longrightarrow> P (snd (add_source_packages xs st))"
    and "\<And>st xs. P st \<Longrightarrow> P (snd (replace_file_ownerships snapshot_id xs st))"
    and "\<And>st v h. P st \<Longrightarrow> P (record_indexed (fi_id f) v h st)"
    and "\<And>st. P st \<Longrightarrow> P (mark_state (fi_id f) st)"
  shows "P (snd (process_single_file env base_url snapshot_id f st))"
proof -
  note k = kept_and_then [where P = P] kept_attempt [where P = P]
  have p: "P (snd (parse_and_persist env i t c base_url snapshot_id st))" if "P st" for i t c st
  proof -
    have "P (snd (and_then (attempt env (Persist i) (add_package_instances snapshot_id xs base_url) st) (\<lambda>n st. (Inr (n, 0, 0, 0) :: index_error + counts, st))))"
      "P (snd (and_then (attempt env (Persist i) (add_source_packages ys) st) (\<lambda>n st. (Inr (0, n, 0, 0) :: index_error + counts, st))))"
      "P (snd (and_then (attempt env (Persist i) (replace_file_ownerships snapshot_id zs) st) (\<lambda>n st. (Inr (0, 0, n, 0) :: index_error + counts, st))))"
      for xs ys zs
      by (intro k that assms(2-4); simp)+
    then show ?thesis using that by (cases "release_metadata_parse c") (simp_all add: parse_and_persist_def)
  qed
  have m: "P (snd (mark_indexed env (fi_id f) v h st))" if "P st" for v h st
    unfolding mark_indexed_def by (intro k that) (simp_all add: update_store_def assms(5,6) that)
  have b: "P (snd (file_body env base_url snapshot_id f st))"
    unfolding file_body_def Let_def
  proof (intro k)
    fix r st assume P: "P st"
    let ?t = "infer_file_type (fi_url f)"
    have "P (snd (and_then (read_file env (fi_local_path f), st) (\<lambda>c st.
        and_then (parse_and_persist env (fi_id f) ?t c base_url snapshot_id st) (\<lambda>n st.
          and_then (mark_indexed env (fi_id f) (get_parser_version ?t) (fi_sha256 f) st) (\<lambda>_ st. (Inr n, st))))))"
      by (intro k p m) (simp_all add: P)
    then show "P (snd (if should_skip r (fi_sha256 f) (get_parser_version ?t) then (Inr (0, 0, 0, 1), st)
        else if ?t = ''unknown'' then (Inr (0, 0, 0, 0), st)
        else and_then (read_file env (fi_local_path f), st) (\<lambda>c st.
          and_then (parse_and_persist env (fi_id f) ?t c base_url snapshot_id st) (\<lambda>n st.
            and_then (mark_indexed env (fi_id f) (get_parser_version ?t) (fi_sha256 f) st) (\<lambda>_ st. (Inr n, st))))))"
      using P by simp
  qed (simp_all add: assms(1))
  obtain r st' where r: "file_body env base_url snapshot_id f st = (r, st')" by force
  with b have "P st'" by simp
  with r show ?thesis by (cases r) (simp_all add: process_single_file_def)
qed

lemma kept_files:
  assumes "P st" and "\<And>f st. f \<in> set fs \<Longrightarrow> P st \<Longrightarrow> P (snd (process_single_file env base_url snapshot_id f st))"
  shows "P (snd (snd (process_files env base_url snapshot_id totals fs st)))"
  using assms
proof (induction fs arbitrary: totals st)
  case (Cons f fs)
  obtain r st' where r: "process_single_file env base_url snapshot_id f st = (r, st')" by force
  have "P (snd (process_single_file env base_url snapshot_id f st))" using Cons.prems by simp
  with r have P: "P st'" by simp
  show ?case using r P Cons.IH [OF P] Cons.prems(2) by (cases r) simp_all
qed simp

section \<open>The invariant of the databases\<close>

definition ids_upto :: "nat \<Rightarrow> int list" where "ids_upto n = map (\<lambda>i. int i + 1) [0..<n]"

definition store_wf :: "index_store \<Rightarrow> bool" where
  "store_wf st \<longleftrightarrow>
     distinct (map rr_name (st_repositories st)) \<and>
     map rr_id (st_repositories st) = ids_upto (length (st_repositories st)) \<and>
     map sn_id (st_snapshots st) = ids_upto (length (st_snapshots st)) \<and>
     sn_repository_id ` set (st_snapshots st) \<subseteq> rr_id ` set (st_repositories st) \<and>
     distinct (map instance_key (st_packages st)) \<and>
     pi_snapshot_id ` set (st_packages st) \<subseteq> sn_id ` set (st_snapshots st) \<and>
     distinct (map source_key (st_sources st)) \<and>
     ow_snapshot_id ` set (st_ownerships st) \<subseteq> sn_id ` set (st_snapshots st) \<and>
     dict_wf (st_records st) \<and> dict_wf (st_files st)"

definition wf_with :: "int \<Rightarrow> index_store \<Rightarrow> bool" where
  "wf_with sid st \<longleftrightarrow> store_wf st \<and> sid \<in> sn_id ` set (st_snapshots st)"

lemma ids_upto_Suc [simp]: "ids_upto (Suc n) = ids_upto n @ [int n + 1]"
  by (simp add: ids_upto_def)

lemma ids_upto_mem [simp]: "i \<in> set (ids_upto n) \<longleftrightarrow> 1 \<le> i \<and> i \<le> int n"
proof
  assume "1 \<le> i \<and> i \<le> int n"
  then have "nat i - 1 \<in> set [0..<n]" "i = int (nat i - 1) + 1" by auto
  then show "i \<in> set (ids_upto n)" unfolding ids_upto_def set_map by (rule_tac image_eqI)
qed (auto simp: ids_upto_def)

lemma wf_find_or_create:
  assumes "store_wf st"
  shows "store_wf (snd (find_or_create_repository n b s c st))"
    "fst (find_or_create_repository n b s c st) \<in> rr_id ` set (st_repositories (snd (find_or_create_repository n b s c st)))"
proof -
  let ?F = "List.find (\<lambda>r. rr_name r = n) (st_repositories st)"
  let ?w = "store_wf (snd (find_or_create_repository n b s c st))"
  let ?m = "fst (find_or_create_repository n b s c st) \<in> rr_id ` set (st_repositories (snd (find_or_create_repository n b s c st)))"
  have "?w \<and> ?m"
  proof (cases ?F)
    case None
    then have n: "n \<notin> rr_name ` set (st_repositories st)" by (auto simp: find_None_iff)
    let ?r = "\<lparr>rr_id = int (length (st_repositories st)) + 1, rr_name = n, rr_base_url = b, rr_suite = s, rr_component = c\<rparr>"
    have e: "find_or_create_repository n b s c st = (rr_id ?r, st\<lparr>st_repositories := st_repositories st @ [?r]\<rparr>)"
      using None by (simp add: find_or_create_repository_def Let_def)
    have "sn_repository_id ` set (st_snapshots st) \<subseteq> rr_id ` set (st_repositories st @ [?r])"
      using assms unfolding store_wf_def by auto
    moreover have "distinct (map rr_name (st_repositories st @ [?r]))"
      "map rr_id (st_repositories st @ [?r]) = ids_upto (length (st_repositories st @ [?r]))"
      using assms n by (simp_all add: store_wf_def)
    ultimately have ?w using assms unfolding e store_wf_def by (simp del: set_append map_append length_append)
    then show ?thesis unfolding e by simp
  next
    case (Some r)
    then have "r \<in> set (st_repositories st)" by (auto simp: find_Some_iff)
    then show ?thesis using Some assms by (simp add: find_or_create_repository_def)
  qed
  then show ?w ?m by blast+
qed

lemma wf_create_snapshot:
  assumes "store_wf st" "rid \<in> rr_id ` set (st_repositories st)"
  shows "wf_with (fst (create_snapshot rid v st)) (snd (create_snapshot rid v st))"
  using assms by (auto simp: create_snapshot_def wf_with_def store_wf_def Let_def)

lemma map_publish: "map sn_id (map (\<lambda>s. if sn_id s = i then s\<lparr>sn_published := True\<rparr> else s) ss) = map sn_id ss"
  "map sn_repository_id (map (\<lambda>s. if sn_id s = i then s\<lparr>sn_published := True\<rparr> else s) ss) = map sn_repository_id ss"
  by (induction ss) auto

lemma set_map_cong: "map f xs = map g ys \<Longrightarrow> f ` set xs = g ` set ys"
  by (metis set_map)

lemma wf_publish_snapshot: "wf_with sid st \<Longrightarrow> wf_with sid (publish_snapshot i st)"
  using set_map_cong [OF map_publish(1) [of i "st_snapshots st"]] set_map_cong [OF map_publish(2) [of i "st_snapshots st"]]
    map_publish(1) [of i "st_snapshots st"]
  by (simp add: wf_with_def store_wf_def publish_snapshot_def del: map_map set_map)

lemma wf_add_packages: "wf_with sid st \<Longrightarrow> wf_with sid (snd (add_package_instances sid ps b st))"
proof -
  assume wf: "wf_with sid st"
  let ?rows = "fst (foldl (add_package_step sid (rstrip_slash b)) (st_packages st, 0) ps)"
  have e: "snd (add_package_instances sid ps b st) = st\<lparr>st_packages := ?rows\<rparr>"
    by (simp add: add_package_instances_def case_prod_unfold)
  have "distinct (map instance_key ?rows)"
    using wf packages_table.fold_distinct by (simp add: wf_with_def store_wf_def)
  moreover have "pi_snapshot_id r \<in> sn_id ` set (st_snapshots st)" if "r \<in> set ?rows" for r
    using packages_table.fold_rows [OF that] wf
    by (auto simp: wf_with_def store_wf_def package_metadata_to_model_def)
  ultimately show ?thesis using wf unfolding e wf_with_def store_wf_def by auto
qed

lemma wf_add_sources: "wf_with sid st \<Longrightarrow> wf_with sid (snd (add_source_packages ps st))"
  using sources_table.fold_distinct [of "st_sources st" 0 ps]
  by (simp add: add_source_packages_def case_prod_unfold wf_with_def store_wf_def)

lemma wf_replace: "wf_with sid st \<Longrightarrow> wf_with sid (snd (replace_file_ownerships sid ws st))"
  by (auto simp: replace_file_ownerships_def wf_with_def store_wf_def file_ownership_to_model_def)

lemma wf_record: "wf_with sid st \<Longrightarrow> wf_with sid (record_indexed i v h st)"
  by (simp add: record_indexed_def wf_with_def store_wf_def dict_wf_set)

lemma map_fst_mark: "map fst (map (\<lambda>(i, url, f). (url, if int i + 1 = k then g f else f)) (enumerate m t)) = map fst t"
  by (induction t arbitrary: m) auto

lemma wf_mark_state: "wf_with sid st \<Longrightarrow> wf_with sid (mark_state i st)"
  using map_fst_mark [of i "\<lambda>f. f\<lparr>rf_state := INDEXED\<rparr>" 0 "st_files st"]
  by (simp add: mark_state_def wf_with_def store_wf_def dict_wf_def del: map_map)

lemma wf_process_files: "wf_with sid st \<Longrightarrow> wf_with sid (snd (snd (process_files env b sid totals fs st)))"
  by (intro kept_files [where P = "wf_with sid"] kept_file [where P = "wf_with sid"]
      wf_add_packages wf_add_sources wf_replace wf_record wf_mark_state)

lemma wf_publish_event [simp]: "store_wf (publish_event e st) = store_wf st" "wf_with sid (publish_event e st) = wf_with sid st"
  by (simp_all add: publish_event_def store_wf_def wf_with_def)

lemma index_repository_wf:
  assumes "store_wf st"
  shows "store_wf (snd (index_repository env name base_url suite component st))"
proof -
  obtain rid st1 where f: "find_or_create_repository name base_url suite component st = (rid, st1)" by force
  have w1: "store_wf st1" "rid \<in> rr_id ` set (st_repositories st1)"
    using wf_find_or_create [OF assms, of name base_url suite component] by (simp_all add: f)
  obtain sid st2 where c: "create_snapshot rid SCHEMA_VERSION st1 = (sid, st2)" by force
  have w2: "wf_with sid st2" using wf_create_snapshot [OF w1, of SCHEMA_VERSION] by (simp add: c)
  have pub: "wf_with sid (snd (publish_all env name sid totals st))" if "wf_with sid st" for totals st
    unfolding publish_all_def
    by (intro kept_and_then [where P = "wf_with sid"] kept_attempt [where P = "wf_with sid"])
      (simp_all add: that update_store_def wf_publish_snapshot)
  have "wf_with sid (snd (snd (index_snapshot env name base_url sid st)))" if w: "wf_with sid st" for st
  proof -
    have "wf_with sid (snd (snd (process_files env base_url sid (0, 0, 0, 0) fs st)))" for fs
      by (rule wf_process_files [OF w])
    then show ?thesis
      using w pub by (auto simp: index_snapshot_def attempt_def simp del: sort_files_def
          split: option.splits prod.splits sum.splits) (metis snd_conv)+
  qed
  then have "store_wf (snd (snd (index_snapshot env name base_url sid (publish_event ev st2))))" for ev
    using w2 wf_publish_event(2) wf_with_def by blast
  then have "store_wf (snd (snd (snd (index_body env name base_url suite component st))))"
    using assms w1(1) w2 by (auto simp: index_body_def attempt_def f c split: option.split)
  then show ?thesis by (auto simp: index_repository_def split: prod.splits sum.splits)
qed

text \<open>Property C12. Whatever storage, files and decompressors do, indexing keeps the databases
  consistent: repository names, natural keys of packages and of source packages, indexed files and
  file URLs stay unique, keys stay consecutive, and every package, ownership and snapshot refers to a
  row that exists.\<close>

theorem index_repository_keeps_store_wf:
  "store_wf st \<Longrightarrow> store_wf (snd (index_repository env name base_url suite component st))"
  by (rule index_repository_wf)

definition empty_store :: index_store where
  "empty_store = \<lparr>st_repositories = [], st_snapshots = [], st_packages = [], st_sources = [], st_ownerships = [],
     st_records = [], st_files = [], st_events = []\<rparr>"

lemma store_wf_empty: "store_wf empty_store"
  by (simp add: store_wf_def empty_store_def ids_upto_def)

section \<open>Results, events and rows\<close>

named_theorems run_simps

lemma attempt_Inr [run_simps]: "attempt env op act st = (Inr a, st') \<longleftrightarrow> ie_fault env op = None \<and> act st = (a, st')"
  by (auto simp: attempt_def split: option.splits prod.splits)

lemma attempt_Inl [run_simps]: "attempt env op act st = (Inl e, st') \<longleftrightarrow> ie_fault env op = Some e \<and> st' = st"
  by (auto simp: attempt_def split: option.splits prod.splits)

declare and_then_Inr [run_simps] and_then_Inl [run_simps]

definition no_faults :: "index_env \<Rightarrow> bool" where "no_faults env \<longleftrightarrow> (\<forall>op. ie_fault env op = None)"

definition counted :: "index_store \<Rightarrow> counts \<Rightarrow> index_store \<Rightarrow> bool" where
  "counted st n st' \<longleftrightarrow> length (st_packages st') = length (st_packages st) + fst n \<and>
     length (st_sources st') = length (st_sources st) + fst (snd n)"

definition counted_or_more :: "index_store \<Rightarrow> counts \<Rightarrow> index_store \<Rightarrow> bool" where
  "counted_or_more st n st' \<longleftrightarrow> length (st_packages st) + fst n \<le> length (st_packages st') \<and>
     length (st_sources st) + fst (snd n) \<le> length (st_sources st')"

lemma add_packages_counted: "add_package_instances sid ps b st = (n, st') \<Longrightarrow> counted st (n, 0, w, k) st'"
  using packages_table.fold_count [of sid "rstrip_slash b" "st_packages st" 0 ps]
  by (auto simp: add_package_instances_def case_prod_unfold counted_def)

lemma add_sources_counted: "add_source_packages ps st = (n, st') \<Longrightarrow> counted st (0, n, w, k) st'"
  using sources_table.fold_count [of "st_sources st" 0 ps]
  by (auto simp: add_source_packages_def case_prod_unfold counted_def)

lemma replace_counted: "replace_file_ownerships sid ws st = (n, st') \<Longrightarrow> counted st (0, 0, w, k) st'"
  by (auto simp: replace_file_ownerships_def counted_def)

lemma parse_and_persist_counted:
  assumes "parse_and_persist env i t c b sid st = (r, st')"
  shows "case r of Inl e \<Rightarrow> st' = st | Inr n \<Rightarrow> counted st n st'"
proof (cases r)
  case (Inl e)
  then show ?thesis using assms
    by (cases "release_metadata_parse c") (auto simp: parse_and_persist_def run_simps split: if_splits)
next
  case (Inr n)
  then show ?thesis using assms add_packages_counted add_sources_counted replace_counted
    by (cases "release_metadata_parse c")
      (auto simp: parse_and_persist_def run_simps split: if_splits, auto simp: counted_def)
qed

lemma mark_indexed_rows:
  "mark_indexed env i v h st = (r, st') \<Longrightarrow> st_packages st' = st_packages st \<and> st_sources st' = st_sources st"
  by (cases r) (auto simp: mark_indexed_def run_simps update_store_def record_indexed_def mark_state_def)

lemma counted_frame:
  "counted st n st' \<Longrightarrow> st_packages s = st_packages st' \<Longrightarrow> st_sources s = st_sources st' \<Longrightarrow> counted st n s"
  by (simp add: counted_def)

lemma counted_more: "counted st n st' \<Longrightarrow> counted_or_more st n st'"
  by (simp add: counted_def counted_or_more_def)

lemma counted_or_more_zero: "counted_or_more st n st' \<Longrightarrow> counted_or_more st (0, 0, 0, 0) st'"
  by (simp add: counted_or_more_def)

lemma counted_refl: "counted st (0, 0, w, k) st"
  by (simp add: counted_def)

lemma get_record_attempt:
  "attempt env op (\<lambda>st. (g st, st)) st = (Inr a, st') \<Longrightarrow> st' = st \<and> a = g st"
  by (auto simp: run_simps)

lemma file_body_counted:
  assumes "file_body env b sid f st = (r, st')"
  shows "case r of Inl e \<Rightarrow> counted_or_more st (0, 0, 0, 0) st' \<and> (no_faults env \<longrightarrow> st' = st)
           | Inr n \<Rightarrow> counted st n st'"
proof (cases r)
  case (Inr n)
  have "counted st n st'"
    using assms unfolding Inr file_body_def Let_def and_then_Inr
    by (auto simp: run_simps counted_refl split: if_splits
        dest!: parse_and_persist_counted mark_indexed_rows intro: counted_frame)
  then show ?thesis using Inr by simp
next
  case (Inl e)
  let ?t = "infer_file_type (fi_url f)"
  have "st' = st \<or> (\<exists>n s. counted st n s \<and> mark_indexed env (fi_id f) (get_parser_version ?t) (fi_sha256 f) s = (Inl e, st'))"
    using assms unfolding Inl file_body_def Let_def and_then_Inl
    by (auto simp: run_simps split: if_splits dest!: parse_and_persist_counted)
  then show ?thesis
  proof
    assume "\<exists>n s. counted st n s \<and> mark_indexed env (fi_id f) (get_parser_version ?t) (fi_sha256 f) s = (Inl e, st')"
    then obtain n s where n: "counted st n s" and m: "mark_indexed env (fi_id f) (get_parser_version ?t) (fi_sha256 f) s = (Inl e, st')"
      by blast
    have "counted_or_more st (0, 0, 0, 0) st'"
      using counted_or_more_zero [OF counted_more [OF counted_frame [OF n]]] mark_indexed_rows [OF m] by simp
    moreover have "\<not> no_faults env" using m by (auto simp: mark_indexed_def run_simps no_faults_def)
    ultimately show ?thesis using Inl by simp
  qed (simp add: Inl counted_or_more_def)
qed

lemma process_single_file_counted:
  assumes "process_single_file env b sid f st = (Inr n, st')"
  shows "counted_or_more st n st' \<and> (no_faults env \<longrightarrow> counted st n st')"
proof -
  obtain r s where r: "file_body env b sid f st = (r, s)" by force
  show ?thesis
    using assms file_body_counted [OF r] counted_more counted_refl
    by (cases r) (auto simp: process_single_file_def r split: if_splits)
qed

lemma add_counts_sel: "fst (add_counts a b) = fst a + fst b" "fst (snd (add_counts a b)) = fst (snd a) + fst (snd b)"
  by (simp_all add: add_counts_def case_prod_unfold)

lemma process_files_counted:
  "process_files env b sid totals fs st = (totals', Inr u, st') \<Longrightarrow>
     length (st_packages st) + fst totals' \<le> length (st_packages st') + fst totals \<and>
     length (st_sources st) + fst (snd totals') \<le> length (st_sources st') + fst (snd totals) \<and>
     (no_faults env \<longrightarrow>
        length (st_packages st) + fst totals' = length (st_packages st') + fst totals \<and>
        length (st_sources st) + fst (snd totals') = length (st_sources st') + fst (snd totals))"
proof (induction fs arbitrary: totals st)
  case (Cons f fs)
  obtain r s where r: "process_single_file env b sid f st = (r, s)" by force
  obtain n where n: "r = Inr n" using Cons.prems r by (cases r) simp_all
  have p: "process_files env b sid (add_counts totals n) fs s = (totals', Inr u, st')" using Cons.prems r n by simp
  show ?case
    using Cons.IH [OF p] process_single_file_counted [of env b sid f st n s] r n
    by (auto simp: counted_def counted_or_more_def add_counts_sel)
qed simp

text \<open>Files leave snapshots, repositories and events alone.\<close>

lemma process_files_frame:
  "st_snapshots (snd (snd (process_files env b sid totals fs st))) = st_snapshots st \<and>
   st_repositories (snd (snd (process_files env b sid totals fs st))) = st_repositories st \<and>
   st_events (snd (snd (process_files env b sid totals fs st))) = st_events st"
proof -
  let ?P = "\<lambda>s. st_snapshots s = st_snapshots st \<and> st_repositories s = st_repositories st \<and> st_events s = st_events st"
  have "?P (snd (snd (process_files env b sid totals fs st)))"
    by (rule kept_files [where P = ?P], simp, rule kept_file [where P = ?P])
      (simp_all add: add_package_instances_def add_source_packages_def replace_file_ownerships_def
        record_indexed_def mark_state_def case_prod_unfold)
  then show ?thesis .
qed

lemma release_error_caught_per_file:
  "process_single_file env b sid f st = (Inl e, st') \<Longrightarrow> \<not> caught_per_file e"
  by (auto simp: process_single_file_def split: prod.splits sum.splits if_splits)

lemma publish_all_run:
  "publish_all env name sid totals st = (r, st') \<Longrightarrow>
     (case r of Inl e \<Rightarrow> st' = st
      | Inr _ \<Rightarrow> st' = publish_event (IndexingCompleted name sid (fst totals)) (publish_snapshot sid st))"
  by (cases r) (auto simp: publish_all_def run_simps update_store_def)

lemma publish_sel [simp]:
  "st_packages (publish_snapshot i st) = st_packages st" "st_sources (publish_snapshot i st) = st_sources st"
  "st_events (publish_snapshot i st) = st_events st" "st_snapshots (publish_event ev st) = st_snapshots st"
  "st_packages (publish_event ev st) = st_packages st" "st_sources (publish_event ev st) = st_sources st"
  "st_events (publish_event ev st) = st_events st @ [ev]"
  by (simp_all add: publish_snapshot_def publish_event_def)

lemma index_snapshot_run:
  assumes "index_snapshot env name b sid st = (totals, r, st')"
  shows "case r of
      Inl e \<Rightarrow> st_snapshots st' = st_snapshots st \<and> st_events st' = st_events st
    | Inr _ \<Rightarrow> st_snapshots st' = st_snapshots (publish_snapshot sid st) \<and>
        st_events st' = st_events st @ [IndexingCompleted name sid (fst totals)] \<and>
        counted_or_more st totals st' \<and> (no_faults env \<longrightarrow> counted st totals st')"
proof -
  define act where "act = (\<lambda>st :: index_store. (get_verified_files (ie_like env) (Some name) (st_files st), st))"
  obtain l s where l: "attempt env List_Files act st = (l, s)" by force
  show ?thesis
  proof (cases l)
    case (Inl e)
    then show ?thesis using assms l by (auto simp: index_snapshot_def act_def [symmetric] run_simps)
  next
    case (Inr vs)
    then have s: "s = st" using l by (auto simp: run_simps act_def)
    show ?thesis
    proof (cases "vs = []")
      case True
      then show ?thesis
        using assms l Inr s publish_all_run [of env name sid "(0, 0, 0, 0)" st r st']
        by (cases r) (auto simp: index_snapshot_def act_def [symmetric] counted_def counted_or_more_def)
    next
      case False
      obtain t r' s' where p: "process_files env b sid (0, 0, 0, 0) (sort_files vs) st = (t, r', s')"
        by (metis prod_cases3)
      have fr: "st_snapshots s' = st_snapshots st" "st_events s' = st_events st"
        using process_files_frame [of env b sid "(0, 0, 0, 0)" "sort_files vs" st] by (simp_all add: p)
      show ?thesis
      proof (cases r')
        case (Inl e)
        then show ?thesis using assms l Inr s False p fr by (auto simp: index_snapshot_def act_def [symmetric])
      next
        case r': (Inr u)
        have q: "totals = t" "publish_all env name sid t s' = (r, st')"
          using assms l Inr s False p r' by (auto simp: index_snapshot_def act_def [symmetric])
        show ?thesis
          using publish_all_run [OF q(2)] fr q(1) process_files_counted [OF p [unfolded r']]
          by (cases r) (auto simp: counted_def counted_or_more_def publish_snapshot_def)
      qed
    qed
  qed
qed

definition outcome_events :: "string \<Rightarrow> index_result \<Rightarrow> index_event list" where
  "outcome_events name r =
     (if ix_snapshot_id r = 0 then [] else [IndexingStarted name (ix_snapshot_id r)]) @
     [case ix_error r of
        None \<Rightarrow> IndexingCompleted name (ix_snapshot_id r) (ix_packages_indexed r)
      | Some m \<Rightarrow> IndexingFailed name (ix_snapshot_id r) m]"

definition outcome_snapshots :: "int \<Rightarrow> index_result \<Rightarrow> snapshot_row list" where
  "outcome_snapshots rid r =
     (if ix_snapshot_id r = 0 then []
      else [\<lparr>sn_id = ix_snapshot_id r, sn_repository_id = rid, sn_schema_version = SCHEMA_VERSION, sn_published = ix_success r\<rparr>])"

lemma publish_new_snapshot:
  assumes "store_wf st"
  shows "st_snapshots (publish_snapshot (int (length (st_snapshots st)) + 1)
      (publish_event ev (snd (create_snapshot rid v st)))) =
    st_snapshots st @ [\<lparr>sn_id = int (length (st_snapshots st)) + 1, sn_repository_id = rid, sn_schema_version = v, sn_published = True\<rparr>]"
proof -
  have "map sn_id (st_snapshots st) = ids_upto (length (st_snapshots st))" using assms by (simp add: store_wf_def)
  then have "set (map sn_id (st_snapshots st)) = set (ids_upto (length (st_snapshots st)))" by (rule arg_cong)
  then have "sn_id ` set (st_snapshots st) = set (ids_upto (length (st_snapshots st)))" by (simp only: set_map)
  then have "sn_id s \<in> set (ids_upto (length (st_snapshots st)))" if "s \<in> set (st_snapshots st)" for s
    using that by blast
  then have "sn_id s \<noteq> int (length (st_snapshots st)) + 1" if "s \<in> set (st_snapshots st)" for s
    using that by fastforce
  then show ?thesis by (simp add: publish_snapshot_def create_snapshot_def Let_def map_idI)
qed

lemma find_or_create_frame:
  "find_or_create_repository n b s c st = (rid, st') \<Longrightarrow>
     st_snapshots st' = st_snapshots st \<and> st_events st' = st_events st \<and> st_packages st' = st_packages st \<and>
     st_sources st' = st_sources st \<and> st_files st' = st_files st \<and> st_records st' = st_records st \<and>
     st_ownerships st' = st_ownerships st"
  by (auto simp: find_or_create_repository_def Let_def split: option.splits)

lemma index_repository_result:
  assumes "store_wf st" and "index_repository env name base_url suite component st = (Inr r, st')"
  shows "st_events st' = st_events st @ outcome_events name r \<and>
    (\<exists>rid. st_snapshots st' = st_snapshots st @ outcome_snapshots rid r) \<and>
    (ix_success r \<longleftrightarrow> ix_error r = None) \<and>
    (ix_success r \<longrightarrow> ix_snapshot_id r = int (length (st_snapshots st)) + 1 \<and>
       length (st_packages st) + ix_packages_indexed r \<le> length (st_packages st') \<and>
       length (st_sources st) + ix_source_packages_indexed r \<le> length (st_sources st') \<and>
       (no_faults env \<longrightarrow> length (st_packages st') = length (st_packages st) + ix_packages_indexed r \<and>
          length (st_sources st') = length (st_sources st) + ix_source_packages_indexed r))"
proof -
  obtain sid totals res st3 where b: "index_body env name base_url suite component st = (sid, totals, res, st3)"
    by (metis prod_cases4)
  note r = assms(2) [unfolded index_repository_def b]
  obtain f s1 where f: "attempt env Find_Repository (find_or_create_repository name base_url suite component) st = (f, s1)" by force
  show ?thesis
  proof (cases f)
    case (Inl e)
    then show ?thesis using r b f
      by (auto simp: index_body_def run_simps index_result_of_def outcome_events_def outcome_snapshots_def publish_event_def split: if_splits)
  next
    case (Inr rid)
    then have f': "find_or_create_repository name base_url suite component st = (rid, s1)" using f by (simp add: run_simps)
    have w1: "store_wf s1" using wf_find_or_create(1) [OF assms(1), of name base_url suite component] by (simp add: f')
    note fr = find_or_create_frame [OF f']
    obtain c s2 where c: "attempt env Create_Snapshot (create_snapshot rid SCHEMA_VERSION) s1 = (c, s2)" by force
    show ?thesis
    proof (cases c)
      case (Inl e)
      then show ?thesis using r b f c Inr fr
        by (auto simp: index_body_def run_simps index_result_of_def outcome_events_def outcome_snapshots_def publish_event_def split: if_splits)
    next
      case c': (Inr i)
      let ?start = "publish_event (IndexingStarted name i) s2"
      have i: "create_snapshot rid SCHEMA_VERSION s1 = (i, s2)" using c c' by (simp add: run_simps)
      then have i': "i = int (length (st_snapshots st)) + 1" "s2 = snd (create_snapshot rid SCHEMA_VERSION s1)"
        using fr by (auto simp: create_snapshot_def Let_def)
      have x: "sid = i" "index_snapshot env name base_url i ?start = (totals, res, st3)"
        using b f c Inr c' by (auto simp: index_body_def)
      have s2: "st_snapshots s2 = st_snapshots st @ [\<lparr>sn_id = i, sn_repository_id = rid, sn_schema_version = SCHEMA_VERSION, sn_published = False\<rparr>]"
        "st_events s2 = st_events st" "st_packages s2 = st_packages st" "st_sources s2 = st_sources st"
        using i fr by (auto simp: create_snapshot_def Let_def)
      have pub: "st_snapshots (publish_snapshot i ?start) =
          st_snapshots st @ [\<lparr>sn_id = i, sn_repository_id = rid, sn_schema_version = SCHEMA_VERSION, sn_published = True\<rparr>]"
        using publish_new_snapshot [OF w1, of "IndexingStarted name i" rid SCHEMA_VERSION] i' fr by simp
      show ?thesis
      proof (cases res)
        case (Inl e)
        then show ?thesis using r x index_snapshot_run [OF x(2)] s2 i'(1)
          by (auto simp: index_result_of_def case_prod_unfold outcome_events_def outcome_snapshots_def split: if_splits)
      next
        case (Inr u)
        then show ?thesis using r x index_snapshot_run [OF x(2)] s2 pub i'(1)
          by (auto simp: index_result_of_def case_prod_unfold outcome_events_def outcome_snapshots_def counted_def counted_or_more_def)
      qed
    qed
  qed
qed


section \<open>Indexing again\<close>

definition file_good :: "index_env \<Rightarrow> file_info \<Rightarrow> bool" where
  "file_good env f \<longleftrightarrow> infer_file_type (fi_url f) \<noteq> ''unknown'' \<and>
     (case read_file env (fi_local_path f) of
        Inl _ \<Rightarrow> False
      | Inr c \<Rightarrow> infer_file_type (fi_url f) = ''release'' \<longrightarrow> \<not> isl (release_metadata_parse c))"

lemma get_parser_version_one [simp]: "get_parser_version t = 1"
  by (simp add: get_parser_version_def PARSER_VERSION_def dict_getd_def)

lemma attempt_ok: "no_faults env \<Longrightarrow> attempt env op act st = (Inr (fst (act st)), snd (act st))"
  by (simp add: attempt_def no_faults_def case_prod_unfold)

lemma listed_ids_distinct: "distinct (map fi_id (get_verified_files c n files))"
proof -
  have "map (fi_id \<circ> file_info_of) (enumerate 0 files) = map (\<lambda>i. int i + 1) (map fst (enumerate 0 files))"
    by (auto simp: file_info_of_def simp del: map_fst_enumerate)
  then have "distinct (map (fi_id \<circ> file_info_of) (enumerate 0 files))" by (simp add: distinct_map inj_on_def)
  then show ?thesis unfolding get_verified_files_def by (simp add: distinct_map_filter)
qed

lemma enumerate_marked:
  "enumerate m (map (\<lambda>(i, url, f). (url, g i f)) (enumerate m t)) = map (\<lambda>(i, url, f). (i, url, g i f)) (enumerate m t)"
  by (induction t arbitrary: m) auto

lemma mark_state_listed:
  assumes "f \<in> set (get_verified_files c n (st_files st))"
  shows "get_verified_files c' n' (st_files (mark_state (fi_id f) st)) = get_verified_files c' n' (st_files st)"
proof -
  let ?E = "enumerate 0 (st_files st)"
  obtain k url r where f: "(k, url, r) \<in> set ?E" "rf_state r \<in> {VERIFIED, INDEXED}" "fi_id f = int k + 1"
    using assms by (auto simp: get_verified_files_def file_info_of_def)
  have one: "r' = r" if "(i, url', r') \<in> set ?E" "i = k" for i url' r'
    using that f(1) by (auto simp: in_set_enumerate_eq)
  have e: "enumerate 0 (st_files (mark_state (fi_id f) st)) =
      map (\<lambda>(i, url, r). (i, url, if i = k then r\<lparr>rf_state := INDEXED\<rparr> else r)) ?E"
    unfolding f(3) by (simp add: mark_state_def enumerate_marked)
  show ?thesis
    unfolding get_verified_files_def e filter_map map_map
    by (rule map_cong [OF filter_cong [OF refl]], use f(2) in \<open>auto simp: file_info_of_def dest: one split: if_splits\<close>)
qed

lemma parse_and_persist_good:
  assumes "no_faults env" and "t = ''release'' \<longrightarrow> \<not> isl (release_metadata_parse c)"
  shows "\<exists>n s. parse_and_persist env i t c b sid st = (Inr n, s) \<and> st_records s = st_records st \<and> st_files s = st_files st"
  using assms
  by (cases "release_metadata_parse c")
    (simp_all add: parse_and_persist_def attempt_ok and_then_def add_package_instances_def add_source_packages_def
      replace_file_ownerships_def case_prod_unfold)

lemma process_good:
  assumes "no_faults env" and "file_good env f"
  shows "\<exists>n st'. process_single_file env b sid f st = (Inr n, st') \<and>
    should_skip (get_indexing_record (fi_id f) st') (fi_sha256 f) 1 \<and>
    (\<forall>j. j \<noteq> fi_id f \<longrightarrow> get_indexing_record j st' = get_indexing_record j st) \<and>
    (st_files st' = st_files st \<or> st_files st' = st_files (mark_state (fi_id f) st))"
proof (cases "should_skip (get_indexing_record (fi_id f) st) (fi_sha256 f) 1")
  case True
  then show ?thesis by (simp add: process_single_file_def file_body_def attempt_ok assms(1) and_then_def)
next
  case False
  obtain c where c: "read_file env (fi_local_path f) = Inr c" "infer_file_type (fi_url f) \<noteq> ''unknown''"
    "infer_file_type (fi_url f) = ''release'' \<longrightarrow> \<not> isl (release_metadata_parse c)"
    using assms(2) by (auto simp: file_good_def split: sum.splits)
  obtain n s where n: "parse_and_persist env (fi_id f) (infer_file_type (fi_url f)) c b sid st = (Inr n, s)"
    "st_records s = st_records st" "st_files s = st_files st"
    using parse_and_persist_good [OF assms(1) c(3)] by blast
  let ?st' = "mark_state (fi_id f) (record_indexed (fi_id f) 1 (fi_sha256 f) s)"
  have "process_single_file env b sid f st = (Inr n, ?st')"
    using False c(1,2) n(1)
    by (simp add: process_single_file_def file_body_def attempt_ok assms(1) and_then_def mark_indexed_def update_store_def)
  moreover have "get_indexing_record j ?st' = get_indexing_record j st" if "j \<noteq> fi_id f" for j
    using that n(2) by (simp add: get_indexing_record_def mark_state_def record_indexed_def)
  moreover have "st_files ?st' = st_files (mark_state (fi_id f) st)" using n(3) by (simp add: mark_state_def record_indexed_def)
  ultimately show ?thesis using mirror_log.skip_marked by blast
qed

lemma process_files_good:
  assumes "no_faults env" and "\<forall>f \<in> set fs. file_good env f" and "distinct (map fi_id fs)"
    and "set fs \<subseteq> set (get_verified_files c nm (st_files st))"
  shows "\<exists>t st'. process_files env b sid totals fs st = (t, Inr (), st') \<and>
    (\<forall>f \<in> set fs. should_skip (get_indexing_record (fi_id f) st') (fi_sha256 f) 1) \<and>
    (\<forall>j. j \<notin> fi_id ` set fs \<longrightarrow> get_indexing_record j st' = get_indexing_record j st) \<and>
    (\<forall>c' n'. get_verified_files c' n' (st_files st') = get_verified_files c' n' (st_files st))"
  using assms(2-)
proof (induction fs arbitrary: totals st)
  case (Cons f fs)
  obtain n s where s: "process_single_file env b sid f st = (Inr n, s)"
    "should_skip (get_indexing_record (fi_id f) s) (fi_sha256 f) 1"
    "\<forall>j. j \<noteq> fi_id f \<longrightarrow> get_indexing_record j s = get_indexing_record j st"
    "st_files s = st_files st \<or> st_files s = st_files (mark_state (fi_id f) st)"
    using process_good [OF assms(1), of f b sid st] Cons.prems(1) by auto
  have l: "get_verified_files c' n' (st_files s) = get_verified_files c' n' (st_files st)" for c' n'
    using s(4) mark_state_listed [of f c nm st c' n'] Cons.prems(3) by auto
  obtain t st' where r: "process_files env b sid (add_counts totals n) fs s = (t, Inr (), st')"
    "\<forall>f \<in> set fs. should_skip (get_indexing_record (fi_id f) st') (fi_sha256 f) 1"
    "\<forall>j. j \<notin> fi_id ` set fs \<longrightarrow> get_indexing_record j st' = get_indexing_record j s"
    "\<forall>c' n'. get_verified_files c' n' (st_files st') = get_verified_files c' n' (st_files s)"
    using Cons.IH [of s "add_counts totals n"] Cons.prems l by auto
  have "get_indexing_record (fi_id f) st' = get_indexing_record (fi_id f) s" using r(3) Cons.prems(2) by simp
  then show ?case using s r l by (cases t) auto
next
  case Nil
  then show ?case by (cases totals) simp
qed

lemma process_files_skip:
  assumes "no_faults env" and "\<forall>f \<in> set fs. should_skip (get_indexing_record (fi_id f) st) (fi_sha256 f) 1"
  shows "process_files env b sid (p, q, w, k) fs st = ((p, q, w, k + length fs), Inr (), st)"
  using assms(2)
proof (induction fs arbitrary: k)
  case (Cons f fs)
  have "process_single_file env b sid f st = (Inr (0, 0, 0, 1), st)"
    using Cons.prems by (simp add: process_single_file_def file_body_def attempt_ok assms(1) and_then_def)
  then show ?case using Cons by (simp add: add_counts_def)
qed simp

lemma set_sort_files [simp]: "set (sort_files fs) = set fs" "length (sort_files fs) = length fs"
  by (simp_all add: sort_files_def)

lemma sort_files_distinct: "distinct (map fi_id fs) \<Longrightarrow> distinct (map fi_id (sort_files fs))"
  by (simp add: sort_files_def distinct_map)

text \<open>A run in which storage refuses nothing and no exception ends the loop.\<close>

lemma index_run_ok:
  assumes "no_faults env" and "find_or_create_repository name b s c st = (rid, s1)"
    and "create_snapshot rid SCHEMA_VERSION s1 = (i, s2)"
    and "process_files env b i (0, 0, 0, 0) (sort_files (get_verified_files (ie_like env) (Some name) (st_files st)))
        (publish_event (IndexingStarted name i) s2) = (t, Inr (), s')"
  shows "index_repository env name b s c st =
    (Inr (index_result_of name i t None), publish_event (IndexingCompleted name i (fst t)) (publish_snapshot i s'))"
proof -
  let ?start = "publish_event (IndexingStarted name i) s2"
  have f: "st_files ?start = st_files st"
    using assms(3) find_or_create_frame [OF assms(2)] by (auto simp: create_snapshot_def Let_def publish_event_def)
  have p: "publish_all env name i totals s = (Inr (), publish_event (IndexingCompleted name i (fst totals)) (publish_snapshot i s))"
    for totals s by (simp add: publish_all_def attempt_ok assms(1) and_then_def update_store_def)
  have "index_snapshot env name b i ?start =
      (t, Inr (), publish_event (IndexingCompleted name i (fst t)) (publish_snapshot i s'))"
    using assms(4) by (auto simp: index_snapshot_def attempt_ok assms(1) f p sort_files_def)
  then show ?thesis using assms(2,3) by (simp add: index_repository_def index_body_def attempt_ok assms(1))
qed

text \<open>A repository is up to date when every file listed for it would be skipped. The files listed are determined by their keys,
  so that indexing one repository leaves the others as up to date as they were.\<close>

definition up_to_date :: "index_env \<Rightarrow> string \<Rightarrow> index_store \<Rightarrow> bool" where
  "up_to_date env name st \<longleftrightarrow> (\<forall>f \<in> set (get_verified_files (ie_like env) (Some name) (st_files st)).
     should_skip (get_indexing_record (fi_id f) st) (fi_sha256 f) 1)"

definition known_repository :: "string \<Rightarrow> index_store \<Rightarrow> bool" where
  "known_repository name st \<longleftrightarrow> name \<in> rr_name ` set (st_repositories st)"

lemma listed_same:
  assumes "f \<in> set (get_verified_files c n files)" and "g \<in> set (get_verified_files c' n' files)" and "fi_id f = fi_id g"
  shows "f = g"
proof -
  have "set (get_verified_files c n files) \<subseteq> set (get_verified_files c None files)" for c n
    by (auto simp: get_verified_files_def)
  then have "f \<in> set (get_verified_files c None files)" "g \<in> set (get_verified_files c None files)"
    using assms(1,2) by (auto simp: get_verified_files_def)
  then show ?thesis using listed_ids_distinct [of c None files] assms(3) by (metis distinct_map inj_onD)
qed

lemma find_or_create_known:
  assumes "find_or_create_repository name b s c st = (rid, st')"
  shows "known_repository name st'" and "known_repository m st \<Longrightarrow> known_repository m st'"
    and "known_repository name st \<Longrightarrow> st' = st"
  using assms by (auto simp: find_or_create_repository_def known_repository_def Let_def find_Some_iff find_None_iff split: option.splits)

text \<open>A run in which every listed file can be read.\<close>

lemma index_run_reads:
  assumes "no_faults env" and "\<forall>f \<in> set (get_verified_files (ie_like env) (Some name) (st_files st)). file_good env f"
    and "index_repository env name base_url suite component st = (r, st1)"
  shows "\<exists>i t. r = Inr (index_result_of name i t None)" and "up_to_date env name st1" and "known_repository name st1"
    and "get_verified_files c' n' (st_files st1) = get_verified_files c' n' (st_files st)"
    and "up_to_date env m st \<Longrightarrow> up_to_date env m st1" and "known_repository m st \<Longrightarrow> known_repository m st1"
proof -
  let ?L = "\<lambda>s. get_verified_files (ie_like env) (Some name) (st_files s)"
  obtain rid s1 where f: "find_or_create_repository name base_url suite component st = (rid, s1)" by force
  obtain i s2 where c: "create_snapshot rid SCHEMA_VERSION s1 = (i, s2)" by force
  let ?start = "publish_event (IndexingStarted name i) s2"
  have st: "st_files ?start = st_files st" "st_repositories ?start = st_repositories s1" "st_records ?start = st_records st"
    using c find_or_create_frame [OF f] by (auto simp: create_snapshot_def Let_def publish_event_def)
  obtain t s' where p: "process_files env base_url i (0, 0, 0, 0) (sort_files (?L st)) ?start = (t, Inr (), s')"
    and skip: "\<forall>f \<in> set (?L st). should_skip (get_indexing_record (fi_id f) s') (fi_sha256 f) 1"
    and other: "\<forall>j. j \<notin> fi_id ` set (?L st) \<longrightarrow> get_indexing_record j s' = get_indexing_record j ?start"
    and l: "\<forall>c' n'. get_verified_files c' n' (st_files s') = get_verified_files c' n' (st_files st)"
    using process_files_good [OF assms(1), of "sort_files (?L st)" "ie_like env" "Some name" ?start base_url i "(0, 0, 0, 0)"]
      assms(2) sort_files_distinct [OF listed_ids_distinct] st(1) by auto
  have run: "r = Inr (index_result_of name i t None)" and st1: "st1 = publish_event (IndexingCompleted name i (fst t)) (publish_snapshot i s')"
    using index_run_ok [OF assms(1) f c p] assms(3) by simp_all
  from run show "\<exists>i t. r = Inr (index_result_of name i t None)" by blast
  have rec: "get_indexing_record j st1 = get_indexing_record j s'" for j
    by (simp add: st1 publish_event_def publish_snapshot_def get_indexing_record_def)
  have l1: "get_verified_files c' n' (st_files st1) = get_verified_files c' n' (st_files st)" for c' n'
    using l by (simp add: st1 publish_event_def publish_snapshot_def)
  then show "get_verified_files c' n' (st_files st1) = get_verified_files c' n' (st_files st)" .
  show "up_to_date env name st1" using skip by (simp add: up_to_date_def l1 rec)
  show "up_to_date env m st1" if "up_to_date env m st"
    unfolding up_to_date_def l1 rec
  proof
    fix g assume g: "g \<in> set (get_verified_files (ie_like env) (Some m) (st_files st))"
    show "should_skip (get_indexing_record (fi_id g) s') (fi_sha256 g) 1"
    proof (cases "fi_id g \<in> fi_id ` set (?L st)")
      case True
      then show ?thesis using skip listed_same [OF g] by fastforce
    next
      case False
      then have "get_indexing_record (fi_id g) s' = get_indexing_record (fi_id g) st"
        using other st(3) by (simp add: get_indexing_record_def)
      then show ?thesis using that g by (simp add: up_to_date_def)
    qed
  qed
  have "st_repositories s' = st_repositories ?start"
    using process_files_frame [of env base_url i "(0, 0, 0, 0)" "sort_files (?L st)" ?start] by (simp only: p snd_conv)
  then have known: "known_repository m st1 = known_repository m s1" for m
    using st(2) by (simp add: st1 known_repository_def) (simp add: publish_event_def publish_snapshot_def)
  show "known_repository name st1" "known_repository m st \<Longrightarrow> known_repository m st1"
    using find_or_create_known [OF f] by (simp_all add: known)
qed

text \<open>A run over a repository that is up to date.\<close>

lemma index_run_skips:
  assumes "store_wf st1" and "no_faults env" and "up_to_date env name st1" and "known_repository name st1"
  shows "let new = int (length (st_snapshots st1)) + 1;
             skipped = length (get_verified_files (ie_like env) (Some name) (st_files st1))
         in \<exists>rid. index_repository env name base_url suite component st1 =
           (Inr (index_result_of name new (0, 0, 0, skipped) None),
            st1\<lparr>st_snapshots := st_snapshots st1 @
                  [\<lparr>sn_id = new, sn_repository_id = rid, sn_schema_version = SCHEMA_VERSION, sn_published = True\<rparr>],
                st_events := st_events st1 @ [IndexingStarted name new, IndexingCompleted name new 0]\<rparr>)"
proof -
  let ?L = "get_verified_files (ie_like env) (Some name) (st_files st1)"
  obtain rid' where f1: "find_or_create_repository name base_url suite component st1 = (rid', st1)"
    using find_or_create_known(3) [OF _ assms(4)] by (metis prod.collapse)
  let ?new = "int (length (st_snapshots st1)) + 1"
  let ?s3 = "snd (create_snapshot rid' SCHEMA_VERSION st1)"
  have c1: "create_snapshot rid' SCHEMA_VERSION st1 = (?new, ?s3)" by (simp add: create_snapshot_def Let_def)
  have rec: "get_indexing_record j (publish_event ev ?s3) = get_indexing_record j st1" for j ev
    by (simp add: publish_event_def create_snapshot_def Let_def get_indexing_record_def)
  have p1: "process_files env base_url ?new (0, 0, 0, 0) (sort_files ?L) (publish_event (IndexingStarted name ?new) ?s3) =
      ((0, 0, 0, length ?L), Inr (), publish_event (IndexingStarted name ?new) ?s3)"
    using process_files_skip [OF assms(2), of "sort_files ?L" "publish_event (IndexingStarted name ?new) ?s3" base_url ?new 0 0 0 0]
      assms(3) by (simp add: up_to_date_def rec)
  have "index_repository env name base_url suite component st1 =
      (Inr (index_result_of name ?new (0, 0, 0, length ?L) None),
       publish_event (IndexingCompleted name ?new 0) (publish_snapshot ?new (publish_event (IndexingStarted name ?new) ?s3)))"
    using index_run_ok [OF assms(2) f1 c1 p1] by simp
  moreover have "publish_event (IndexingCompleted name ?new 0) (publish_snapshot ?new (publish_event (IndexingStarted name ?new) ?s3)) =
      st1\<lparr>st_snapshots := st_snapshots st1 @
            [\<lparr>sn_id = ?new, sn_repository_id = rid', sn_schema_version = SCHEMA_VERSION, sn_published = True\<rparr>],
          st_events := st_events st1 @ [IndexingStarted name ?new, IndexingCompleted name ?new 0]\<rparr>"
    using publish_new_snapshot [OF assms(1), of "IndexingStarted name ?new" rid' SCHEMA_VERSION]
    by (simp add: publish_event_def publish_snapshot_def create_snapshot_def Let_def)
  ultimately show ?thesis by (auto simp: Let_def)
qed

text \<open>Indexing is incremental: after a run in which every listed file could be read, a second
  run on the same mirror skips all of them. It changes no package, source package, ownership or record;
  it publishes one more snapshot, to which it adds nothing.\<close>

theorem reindex_skips_everything:
  assumes "store_wf st" and "no_faults env"
    and "\<forall>f \<in> set (get_verified_files (ie_like env) (Some name) (st_files st)). file_good env f"
    and "index_repository env name base_url suite component st = (r, st1)"
  shows "let new = int (length (st_snapshots st1)) + 1;
             skipped = length (get_verified_files (ie_like env) (Some name) (st_files st))
         in \<exists>rid. index_repository env name base_url' suite' component' st1 =
           (Inr (index_result_of name new (0, 0, 0, skipped) None),
            st1\<lparr>st_snapshots := st_snapshots st1 @
                  [\<lparr>sn_id = new, sn_repository_id = rid, sn_schema_version = SCHEMA_VERSION, sn_published = True\<rparr>],
                st_events := st_events st1 @ [IndexingStarted name new, IndexingCompleted name new 0]\<rparr>)"
proof -
  have "store_wf st1" using index_repository_wf [OF assms(1), of env name base_url suite component] assms(4) by simp
  then show ?thesis
    using index_run_skips [of st1 env name base_url' suite' component'] index_run_reads [OF assms(2-4)] assms(2) by simp
qed

definition example_env :: index_env where
  "example_env = \<lparr>ie_read_bytes = (\<lambda>p. if p = ''/m/Release'' then Inr ''Suite: sid'' else Inr ''usr/bin/a utils/a''),
     ie_gunzip = (\<lambda>_. Inl (EOFError ''Compressed file ended'')), ie_unxz = Inr, ie_bunzip2 = Inr, ie_utf8 = Some,
     ie_like = (\<lambda>_ _. True), ie_fault = (\<lambda>_. None)\<rparr>"

theorem index_repository_keeps_store_wf_witness:
  "store_wf (snd (index_repository example_env ''debian'' ''http://d'' ''sid'' ''main'' empty_store))"
  by (rule index_repository_keeps_store_wf [OF store_wf_empty])

definition example_row :: "string \<Rightarrow> repo_file" where
  "example_row p = \<lparr>rf_sha256 = ''0'', rf_size = 1, rf_state = VERIFIED, rf_retry_count = 0, rf_local_path = Some p,
     rf_etag = None, rf_last_modified = None\<rparr>"

definition example_store :: "string list \<Rightarrow> index_store" where
  "example_store paths = empty_store\<lparr>st_files := map (\<lambda>p. (''http://m'' @ p, example_row p)) paths\<rparr>"

definition run_example :: "string list \<Rightarrow> (index_error + index_result) \<times> index_store" where
  "run_example paths = index_repository example_env ''m'' ''http://m'' ''sid'' ''main'' (example_store paths)"

lemma no_faults_example: "no_faults example_env"
  by (simp add: no_faults_def example_env_def)

lemma example_good:
  "list_all (file_good example_env)
     (get_verified_files (ie_like example_env) (Some ''m'') (st_files (example_store [''/m/Release'', ''/m/Contents-all''])))"
  by code_simp

theorem reindex_skips_everything_witness:
  "\<exists>rid. fst (index_repository example_env ''m'' ''http://m'' ''sid'' ''main'' (snd (run_example [''/m/Release'', ''/m/Contents-all'']))) =
     Inr (index_result_of ''m'' rid (0, 0, 0, 2) None)"
proof -
  let ?st = "example_store [''/m/Release'', ''/m/Contents-all'']"
  obtain r st1 where r: "run_example [''/m/Release'', ''/m/Contents-all''] = (r, st1)" by force
  have "store_wf ?st" by (simp add: store_wf_def example_store_def empty_store_def ids_upto_def dict_wf_def)
  moreover have "length (get_verified_files (ie_like example_env) (Some ''m'') (st_files ?st)) = 2" by code_simp
  ultimately show ?thesis
    using reindex_skips_everything [OF _ no_faults_example example_good [unfolded list_all_iff], where base_url' = "''http://m''",
        OF _ r [unfolded run_example_def], where suite' = "''sid''" and component' = "''main''"] r
    by (auto simp: Let_def)
qed


text \<open>A truncated gzip file makes \<open>gzip.decompress\<close> raise \<open>EOFError\<close>, which neither the reader nor
  the service catches: the run ends with the exception, its snapshot unpublished and no event of its end.\<close>

lemma truncated_gzip_escapes:
  "run_example [''/m/Packages.gz''] =
     (Inl (EOFError ''Compressed file ended''),
      example_store [''/m/Packages.gz'']
        \<lparr>st_repositories := [\<lparr>rr_id = 1, rr_name = ''m'', rr_base_url = ''http://m'', rr_suite = ''sid'', rr_component = ''main''\<rparr>],
         st_snapshots := [\<lparr>sn_id = 1, sn_repository_id = 1, sn_schema_version = 3, sn_published = False\<rparr>],
         st_events := [IndexingStarted ''m'' 1]\<rparr>)"
  by code_simp

text \<open>Each Contents file of a snapshot replaces the ownerships of those before it, and the result counts
  them all.\<close>

lemma contents_files_replace_each_other:
  "case run_example [''/m/Contents-all'', ''/m/Contents-i386''] of (r, st') \<Rightarrow>
     map_option ix_file_ownerships_indexed (case r of Inl _ \<Rightarrow> None | Inr v \<Rightarrow> Some v) = Some 2 \<and>
     length (st_ownerships st') = 1"
  by code_simp

text \<open>An index file that has been indexed is no longer among the local checksums of the mirror, which
  asks for the state \<open>VERIFIED\<close>: the next synchronisation fetches it again.\<close>

lemma indexed_index_file_forgotten:
  "let config = \<lparr>rc_name = ''m'', rc_base_url = ''http://m'', rc_suites = [''sid''], rc_components = [], rc_architectures = []\<rparr>;
       st = example_store [''/dists/sid/main/Packages'']
   in get_local_checksums (st_files st) config ''sid'' [''main/Packages''] = [(''main/Packages'', ''0'')] \<and>
      get_local_checksums (st_files (mark_state 1 st)) config ''sid'' [''main/Packages''] = []"
  by code_simp

end
