(* ===== verification/Enricher.thy ===== *)
theory Enricher
  imports Deb_Extractor Indexer_Service
begin

text \<open>
  The enrichment of scanned packages (\<open>src/debcraft/infrastructure/scanners/enricher.py\<close>) through the cache
  (\<open>cache_adapter.py\<close>, and the stand-in of \<open>cli/sbom.py\<close>), the packages of metadata.db, which are the indexer's rows, and
  the packages on the medium; and the snapshot that the command line selects (\<open>cli/_sbom_db.py\<close>). Cache errors of the
  database are faults of the environment; logging is left out.
\<close>

section \<open>The cache\<close>

text \<open>A row keeps the licence expressions as a JSON text; \<open>json.dumps\<close> and \<open>json.loads\<close> on lists of pairs are parameters, the
  latter \<open>None\<close> when it raises.\<close>

record cached_row =
  ce_key :: "string \<times> string \<times> string \<times> int"
  ce_fields :: package_enrichment
  ce_license_expressions_json :: "string option"

datatype cache_adapter = No_Op_Cache | Cache_Database

datatype enrich_exc = Type_Error string | Attribute_Error string | Value_Error string | Deb_Error deb_error

datatype cache_op = Cache_Get "string \<times> string \<times> string \<times> int" | Cache_Store "string \<times> string \<times> string \<times> int"

record enrich_env =
  en_cache :: cache_adapter
  en_database_fault :: "cache_op \<Rightarrow> bool"
  en_dumps :: "(string \<times> string) list \<Rightarrow> string"
  en_loads :: "string \<Rightarrow> (string \<times> string) list option"
  en_metadata :: "index_store option"
  en_licenses :: "(int \<times> string \<times> string) list"
  en_query_fault :: "string \<times> string \<times> string \<times> int \<Rightarrow> bool"
  en_extract :: "(identified_package \<Rightarrow> deb_error + package_enrichment option) option"

definition to_domain :: "enrich_env \<Rightarrow> cached_row \<Rightarrow> enrich_exc + package_enrichment" where
  "to_domain env entry =
     (case ce_license_expressions_json entry of
        None \<Rightarrow> Inr ((ce_fields entry)\<lparr>pe_license_expressions := []\<rparr>)
      | Some txt \<Rightarrow>
          if txt = [] then Inr ((ce_fields entry)\<lparr>pe_license_expressions := []\<rparr>)
          else (case en_loads env txt of
             Some pairs \<Rightarrow> Inr ((ce_fields entry)\<lparr>pe_license_expressions := pairs\<rparr>)
           | None \<Rightarrow> Inl (Value_Error ''JSONDecodeError'')))"

text \<open>\<open>scalar_one_or_none\<close> raises a database error when there is more than one row. The stand-in's parameters are named
  differently, and the enricher passes them by name.\<close>

definition cache_get :: "enrich_env \<Rightarrow> string \<times> string \<times> string \<times> int \<Rightarrow> cached_row list \<Rightarrow> enrich_exc + package_enrichment option" where
  "cache_get env key rows =
     (case en_cache env of
        No_Op_Cache \<Rightarrow> Inl (Type_Error (''get() got an unexpected keyword argument '' @ [CHR 0x27] @ ''package_name'' @ [CHR 0x27]))
      | Cache_Database \<Rightarrow>
          if en_database_fault env (Cache_Get key) then Inr None
          else (case filter (\<lambda>r. ce_key r = key) rows of
             [entry] \<Rightarrow> map_sum id Some (to_domain env entry)
           | _ \<Rightarrow> Inr None))"

definition new_entry :: "enrich_env \<Rightarrow> string \<times> string \<times> string \<times> int \<Rightarrow> package_enrichment \<Rightarrow> cached_row" where
  "new_entry env key enrichment =
     \<lparr>ce_key = key, ce_fields = enrichment,
      ce_license_expressions_json = Some (en_dumps env (pe_license_expressions enrichment))\<rparr>"

definition cache_store ::
  "enrich_env \<Rightarrow> string \<times> string \<times> string \<times> int \<Rightarrow> package_enrichment \<Rightarrow> cached_row list \<Rightarrow> (enrich_exc + unit) \<times> cached_row list" where
  "cache_store env key enrichment rows =
     (case en_cache env of
        No_Op_Cache \<Rightarrow> (Inl (Attribute_Error ''store''), rows)
      | Cache_Database \<Rightarrow>
          if en_database_fault env (Cache_Store key) then (Inr (), rows)
          else (case filter (\<lambda>r. ce_key r = key) rows of
             [] \<Rightarrow> (Inr (), rows @ [new_entry env key enrichment])
           | [_] \<Rightarrow> (Inr (), map (\<lambda>r. if ce_key r = key then new_entry env key enrichment else r) rows)
           | _ \<Rightarrow> (Inr (), rows)))"

section \<open>The package rows\<close>

definition cache_key :: "identified_package \<Rightarrow> int \<Rightarrow> string \<times> string \<times> string \<times> int" where
  "cache_key pkg snapshot_id = (ip_name pkg, ip_version pkg, ip_architecture pkg, snapshot_id)"

text \<open>The package of the snapshot with the highest primary key; primary keys count the rows.\<close>

definition find_instance :: "index_store \<Rightarrow> identified_package \<Rightarrow> int \<Rightarrow> (int \<times> package_instance) option" where
  "find_instance st pkg snapshot_id =
     (let rows = filter (\<lambda>(_, r). pi_package_name r = ip_name pkg \<and> pi_version r = ip_version pkg \<and>
            pi_architecture r = ip_architecture pkg \<and> pi_snapshot_id r = snapshot_id)
          (zip (ids_upto (length (st_packages st))) (st_packages st))
      in if rows = [] then None else Some (last rows))"

definition instance_enrichment :: "enrich_env \<Rightarrow> identified_package \<Rightarrow> int \<times> package_instance \<Rightarrow> package_enrichment" where
  "instance_enrichment env pkg = (\<lambda>(pi_id, pi_row).
     \<lparr>pe_source_package = pi_source_package pi_row, pe_maintainer = pi_maintainer pi_row, pe_homepage = pi_homepage pi_row,
      pe_depends = pi_depends pi_row, pe_section = pi_section pi_row, pe_priority = pi_priority pi_row,
      pe_description = pi_description pi_row, pe_sha256 = Some (pi_sha256 pi_row), pe_download_url = pi_download_url pi_row,
      pe_purl = package_purl pkg,
      pe_license_expressions = map snd (filter (\<lambda>(package_id, _). package_id = pi_id) (en_licenses env)),
      pe_local_deb_path = None\<rparr>)"

definition lookup_metadata :: "enrich_env \<Rightarrow> identified_package \<Rightarrow> int \<Rightarrow> package_enrichment option" where
  "lookup_metadata env pkg snapshot_id =
     (case en_metadata env of
        None \<Rightarrow> None
      | Some st \<Rightarrow>
          if en_query_fault env (cache_key pkg snapshot_id) then None
          else map_option (instance_enrichment env pkg) (find_instance st pkg snapshot_id))"

definition query_metadata_db ::
  "enrich_env \<Rightarrow> identified_package \<Rightarrow> int \<Rightarrow> cached_row list \<Rightarrow> (enrich_exc + package_enrichment option) \<times> cached_row list" where
  "query_metadata_db env pkg snapshot_id rows =
     (case lookup_metadata env pkg snapshot_id of
        None \<Rightarrow> (Inr None, rows)
      | Some enrichment \<Rightarrow>
          (case cache_store env (cache_key pkg snapshot_id) enrichment rows of
             (Inl e, rows) \<Rightarrow> (case e of Value_Error _ \<Rightarrow> (Inr (Some enrichment), rows) | _ \<Rightarrow> (Inl e, rows))
           | (Inr _, rows) \<Rightarrow> (Inr (Some enrichment), rows)))"

section \<open>Enriching\<close>

definition package_label :: "identified_package \<Rightarrow> string" where
  "package_label pkg = ip_name pkg @ '' '' @ ip_version pkg @ '' ('' @ ip_architecture pkg @ '')''"

definition enriched :: "identified_package \<Rightarrow> package_enrichment option \<Rightarrow> enriched_package" where
  "enriched pkg e = \<lparr>ep_package = pkg, ep_enrichment = e\<rparr>"

definition no_match :: "enrich_env \<Rightarrow> identified_package \<Rightarrow> string" where
  "no_match env pkg = ''Enrichment unavailable for '' @ package_label pkg @ '': no matching PackageInstance in metadata.db''
     @ (if en_extract env = None then ''.'' else '' and .deb extraction failed.'')"

definition from_deb :: "identified_package \<Rightarrow> string" where
  "from_deb pkg = ''Enrichment for '' @ package_label pkg @ '' sourced from direct .deb extraction (metadata.db had no match).''"

text \<open>The loop body: the enriched package and its diagnostics.\<close>

definition enrich_package ::
  "enrich_env \<Rightarrow> int \<Rightarrow> identified_package \<Rightarrow> cached_row list \<Rightarrow> (enrich_exc + enriched_package \<times> string list) \<times> cached_row list" where
  "enrich_package env snapshot_id pkg rows =
     and_then (cache_get env (cache_key pkg snapshot_id) rows, rows) (\<lambda>cached rows.
       case cached of
         Some e \<Rightarrow> (Inr (enriched pkg (Some e), []), rows)
       | None \<Rightarrow>
           and_then (query_metadata_db env pkg snapshot_id rows) (\<lambda>metadata_enrichment rows.
             case metadata_enrichment of
               Some e \<Rightarrow> (Inr (enriched pkg (Some e), []), rows)
             | None \<Rightarrow>
                 (case en_extract env of
                    None \<Rightarrow> (Inr (enriched pkg None, [no_match env pkg]), rows)
                  | Some extractor \<Rightarrow>
                      (case extractor pkg of
                         Inl e \<Rightarrow> (Inl (Deb_Error e), rows)
                       | Inr (Some e) \<Rightarrow> (Inr (enriched pkg (Some e), [from_deb pkg]), rows)
                       | Inr None \<Rightarrow> (Inr (enriched pkg None, [no_match env pkg]), rows)))))"

fun enrich_loop ::
  "enrich_env \<Rightarrow> int \<Rightarrow> identified_package list \<Rightarrow> cached_row list \<Rightarrow>
     (enrich_exc + enriched_package list \<times> string list) \<times> cached_row list" where
  "enrich_loop env snapshot_id [] rows = (Inr ([], []), rows)"
| "enrich_loop env snapshot_id (pkg # packages) rows =
     and_then (enrich_package env snapshot_id pkg rows) (\<lambda>(e, ds) rows.
       and_then (enrich_loop env snapshot_id packages rows) (\<lambda>(es, ds') rows. (Inr (e # es, ds @ ds'), rows)))"

definition deb_step :: "(identified_package \<Rightarrow> deb_error + package_enrichment option) \<Rightarrow> identified_package \<Rightarrow>
    enrich_exc + enriched_package \<times> string list" where
  "deb_step extractor pkg =
     (case extractor pkg of
        Inl e \<Rightarrow> Inl (Deb_Error e)
      | Inr (Some e) \<Rightarrow> Inr (enriched pkg (Some e), [])
      | Inr None \<Rightarrow> Inr (enriched pkg None, [''Enrichment unavailable for '' @ package_label pkg
          @ '': .deb not found or unparseable in ISO pool.'']))"

definition enrich_without_snapshot ::
  "enrich_env \<Rightarrow> identified_package list \<Rightarrow> enrich_exc + enriched_package list \<times> string list" where
  "enrich_without_snapshot env packages =
     (case en_extract env of
        None \<Rightarrow> Inr (map (\<lambda>pkg. enriched pkg None) packages,
          [''No published RepositorySnapshot available and no .deb extractor configured; skipping metadata enrichment.''])
      | Some extractor \<Rightarrow> map_sum id (\<lambda>rs. (map fst rs, concat (map snd rs))) (traverse (deb_step extractor) packages))"

definition enrich ::
  "enrich_env \<Rightarrow> identified_package list \<Rightarrow> int \<Rightarrow> cached_row list \<Rightarrow>
     (enrich_exc + enriched_package list \<times> string list) \<times> cached_row list" where
  "enrich env packages snapshot_id rows =
     (if snapshot_id = 0 then (enrich_without_snapshot env packages, rows) else enrich_loop env snapshot_id packages rows)"

section \<open>The snapshot\<close>

text \<open>The highest published snapshot, unless one is given; zero when the database is missing or cannot be queried.\<close>

definition resolve_snapshot_id :: "bool \<Rightarrow> index_store option \<Rightarrow> int option \<Rightarrow> int" where
  "resolve_snapshot_id query_fails metadata explicit_id =
     (case explicit_id of
        Some i \<Rightarrow> i
      | None \<Rightarrow>
          (case metadata of
             None \<Rightarrow> 0
           | Some st \<Rightarrow>
               if query_fails then 0
               else (let published = map sn_id (filter sn_published (st_snapshots st))
                     in if published = [] then 0 else Max (set published))))"

section \<open>The cache changes nothing\<close>

text \<open>The enrichment of one package without a cache.\<close>

definition enrich_package_ref :: "enrich_env \<Rightarrow> int \<Rightarrow> identified_package \<Rightarrow> enrich_exc + enriched_package \<times> string list" where
  "enrich_package_ref env snapshot_id pkg =
     (case lookup_metadata env pkg snapshot_id of
        Some e \<Rightarrow> Inr (enriched pkg (Some e), [])
      | None \<Rightarrow>
          (case en_extract env of
             None \<Rightarrow> Inr (enriched pkg None, [no_match env pkg])
           | Some extractor \<Rightarrow>
               (case extractor pkg of
                  Inl e \<Rightarrow> Inl (Deb_Error e)
                | Inr (Some e) \<Rightarrow> Inr (enriched pkg (Some e), [from_deb pkg])
                | Inr None \<Rightarrow> Inr (enriched pkg None, [no_match env pkg]))))"

definition enrich_ref :: "enrich_env \<Rightarrow> identified_package list \<Rightarrow> int \<Rightarrow> enrich_exc + enriched_package list \<times> string list" where
  "enrich_ref env packages snapshot_id =
     (if snapshot_id = 0 then enrich_without_snapshot env packages
      else map_sum id (\<lambda>rs. (map fst rs, concat (map snd rs))) (traverse (enrich_package_ref env snapshot_id) packages))"

text \<open>Every row of the cache is what the metadata database answers for its key, and no key has two rows.\<close>

definition cache_ok :: "enrich_env \<Rightarrow> cached_row list \<Rightarrow> bool" where
  "cache_ok env rows \<longleftrightarrow> distinct (map ce_key rows) \<and>
     (\<forall>r \<in> set rows. \<exists>pkg sid e. ce_key r = cache_key pkg sid \<and> lookup_metadata env pkg sid = Some e \<and> r = new_entry env (ce_key r) e)"

definition json_ok :: "enrich_env \<Rightarrow> bool" where
  "json_ok env \<longleftrightarrow> (\<forall>pairs. en_dumps env pairs \<noteq> [] \<and> en_loads env (en_dumps env pairs) = Some pairs)"

lemma lookup_by_key:
  assumes "cache_key pkg sid = cache_key pkg' sid'"
  shows "lookup_metadata env pkg sid = lookup_metadata env pkg' sid'"
proof -
  have "find_instance st pkg sid = find_instance st pkg' sid'" for st
    using assms by (simp add: cache_key_def find_instance_def)
  moreover have "instance_enrichment env pkg = instance_enrichment env pkg'"
    using assms by (simp add: cache_key_def instance_enrichment_def package_purl_def)
  ultimately show ?thesis using assms by (simp add: lookup_metadata_def split: option.split)
qed

lemma to_domain_new: "json_ok env \<Longrightarrow> to_domain env (new_entry env k e) = Inr e"
  by (simp add: to_domain_def new_entry_def json_ok_def)

lemma keyed_rows:
  assumes "distinct (map ce_key rows)"
  shows "filter (\<lambda>r. ce_key r = k) rows = (case List.find (\<lambda>r. ce_key r = k) rows of None \<Rightarrow> [] | Some r \<Rightarrow> [r])"
  using assms
proof (induction rows)
  case (Cons r rows)
  show ?case
  proof (cases "ce_key r = k")
    case True
    then have "\<forall>x \<in> set rows. ce_key x \<noteq> k" using Cons.prems by (auto simp: rev_image_eqI)
    then show ?thesis using True by simp
  qed (use Cons in auto)
qed simp

lemma cache_get_ok:
  assumes "en_cache env = Cache_Database" and "json_ok env" and ok: "cache_ok env rows"
  shows "cache_get env (cache_key pkg sid) rows = Inr None \<or>
    (\<exists>e. cache_get env (cache_key pkg sid) rows = Inr (Some e) \<and> lookup_metadata env pkg sid = Some e)"
proof (cases "List.find (\<lambda>r. ce_key r = cache_key pkg sid) rows")
  case None
  then show ?thesis using assms keyed_rows [of rows "cache_key pkg sid"] by (simp add: cache_get_def cache_ok_def)
next
  case (Some r)
  then have r: "r \<in> set rows" "ce_key r = cache_key pkg sid" by (auto simp: find_Some_iff)
  then obtain pkg' sid' e where e: "ce_key r = cache_key pkg' sid'" "lookup_metadata env pkg' sid' = Some e" "r = new_entry env (ce_key r) e"
    using ok unfolding cache_ok_def by blast
  have "lookup_metadata env pkg sid = Some e" using lookup_by_key [of pkg sid pkg' sid'] e r by simp
  moreover have "to_domain env r = Inr e" using to_domain_new [OF assms(2)] e(3) by metis
  ultimately show ?thesis using assms(1) ok keyed_rows [of rows "cache_key pkg sid"] Some by (simp add: cache_get_def cache_ok_def)
qed

lemma cache_store_ok:
  assumes "en_cache env = Cache_Database" and ok: "cache_ok env rows" and l: "lookup_metadata env pkg sid = Some e"
  shows "fst (cache_store env (cache_key pkg sid) e rows) = Inr () \<and> cache_ok env (snd (cache_store env (cache_key pkg sid) e rows))"
proof -
  let ?k = "cache_key pkg sid" and ?n = "new_entry env (cache_key pkg sid) e"
  have n: "ce_key ?n = ?k" by (simp add: new_entry_def)
  have new: "\<exists>pkg sid e. ce_key ?n = cache_key pkg sid \<and> lookup_metadata env pkg sid = Some e \<and> ?n = new_entry env (ce_key ?n) e"
    using l n by metis
  have d: "distinct (map ce_key rows)" using ok by (simp add: cache_ok_def)
  show ?thesis
  proof (cases "List.find (\<lambda>r. ce_key r = ?k) rows")
    case None
    then have "?k \<notin> ce_key ` set rows" by (auto simp: find_None_iff)
    then have "cache_ok env (rows @ [?n])" using ok new n unfolding cache_ok_def by (simp add: ball_Un)
    then show ?thesis using assms(1) ok keyed_rows [OF d, of ?k] None by (simp add: cache_store_def)
  next
    case (Some r)
    let ?rows = "map (\<lambda>r. if ce_key r = ?k then ?n else r) rows"
    have "map ce_key ?rows = map ce_key rows" by (auto simp: n)
    then have "cache_ok env ?rows" using ok new unfolding cache_ok_def by (auto simp del: map_map)
    then show ?thesis using assms(1) ok keyed_rows [OF d, of ?k] Some by (simp add: cache_store_def)
  qed
qed

lemma enrich_package_ok:
  assumes "en_cache env = Cache_Database" and "json_ok env" and "cache_ok env rows"
  shows "fst (enrich_package env sid pkg rows) = enrich_package_ref env sid pkg \<and> cache_ok env (snd (enrich_package env sid pkg rows))"
proof -
  consider "cache_get env (cache_key pkg sid) rows = Inr None"
    | e where "cache_get env (cache_key pkg sid) rows = Inr (Some e)" "lookup_metadata env pkg sid = Some e"
    using cache_get_ok [OF assms] by blast
  then show ?thesis
  proof cases
    case 1
    show ?thesis
    proof (cases "lookup_metadata env pkg sid")
      case None
      then show ?thesis using 1 assms(3)
        by (simp add: enrich_package_def enrich_package_ref_def query_metadata_db_def and_then_eqs split: option.split sum.split)
    next
      case (Some e)
      obtain rows' where "cache_store env (cache_key pkg sid) e rows = (Inr (), rows')" "cache_ok env rows'"
        using cache_store_ok [OF assms(1,3) Some] by (metis prod.collapse)
      then show ?thesis using 1 Some
        by (simp add: enrich_package_def enrich_package_ref_def query_metadata_db_def and_then_eqs)
    qed
  next
    case 2
    then show ?thesis using assms(3) by (simp add: enrich_package_def enrich_package_ref_def and_then_eqs)
  qed
qed

lemma enrich_loop_ok:
  assumes "en_cache env = Cache_Database" and "json_ok env"
  shows "cache_ok env rows \<Longrightarrow>
    fst (enrich_loop env sid pkgs rows) = map_sum id (\<lambda>rs. (map fst rs, concat (map snd rs))) (traverse (enrich_package_ref env sid) pkgs) \<and>
    cache_ok env (snd (enrich_loop env sid pkgs rows))"
proof (induction pkgs arbitrary: rows)
  case (Cons pkg pkgs)
  obtain r rows1 where p: "enrich_package env sid pkg rows = (r, rows1)" by force
  have r: "r = enrich_package_ref env sid pkg" and ok1: "cache_ok env rows1"
    using enrich_package_ok [OF assms Cons.prems, of sid pkg] by (simp_all add: p)
  show ?case
  proof (cases r)
    case (Inl e)
    then show ?thesis using ok1 by (simp add: p and_then_eqs r [symmetric])
  next
    case (Inr v)
    obtain e ds where v: "v = (e, ds)" by (cases v)
    obtain r2 rows2 where q: "enrich_loop env sid pkgs rows1 = (r2, rows2)" by force
    show ?thesis using Cons.IH [OF ok1] ok1 Inr
      by (cases "traverse (enrich_package_ref env sid) pkgs") (auto simp: p q v and_then_eqs r [symmetric])
  qed
qed simp

text \<open>Property C21. The enrichment cache is transparent: from a cache whose rows agree with the metadata database, whatever database faults
  its reads and writes meet, enrichment returns exactly what it would return without a cache, one entry for each package in
  order, and leaves the cache in agreement, with one row for each key. Hypotheses: \<open>json.loads\<close> reads back what \<open>json.dumps\<close>
  wrote, and the cache database was opened.\<close>

theorem enrich_cache_transparent:
  assumes "en_cache env = Cache_Database" and "json_ok env" and "cache_ok env rows"
  shows "fst (enrich env packages snapshot_id rows) = enrich_ref env packages snapshot_id \<and>
    cache_ok env (snd (enrich env packages snapshot_id rows)) \<and>
    (\<forall>es ds. enrich_ref env packages snapshot_id = Inr (es, ds) \<longrightarrow> map ep_package es = packages)"
proof -
  have step: "enrich_package_ref env snapshot_id pkg = Inr (e, ds) \<Longrightarrow> ep_package e = pkg" for pkg e ds
    by (auto simp: enrich_package_ref_def enriched_def split: option.splits sum.splits)
  have deb: "deb_step extractor pkg = Inr (e, ds) \<Longrightarrow> ep_package e = pkg" for extractor pkg e ds
    by (auto simp: deb_step_def enriched_def split: option.splits sum.splits)
  have trav: "map ep_package (map fst rs) = packages"
    if "traverse f packages = Inr rs" and "\<And>pkg e ds. f pkg = Inr (e, ds) \<Longrightarrow> ep_package e = pkg"
    for rs and f :: "identified_package \<Rightarrow> enrich_exc + enriched_package \<times> string list"
    using that by (auto simp: traverse_Inr_iff list_all2_conv_all_nth intro!: nth_equalityI) (metis prod.collapse)
  have "map ep_package es = packages" if r: "enrich_ref env packages snapshot_id = Inr (es, ds)" for es ds
  proof (cases "snapshot_id = 0")
    case zero: True
    show ?thesis
    proof (cases "en_extract env")
      case None
      then show ?thesis using r zero by (auto simp: enrich_ref_def enrich_without_snapshot_def enriched_def o_def)
    next
      case (Some extractor)
      then show ?thesis using r zero trav [OF _ deb]
        by (cases "traverse (deb_step extractor) packages") (auto simp: enrich_ref_def enrich_without_snapshot_def)
    qed
  next
    case False
    then show ?thesis using r trav [OF _ step]
      by (cases "traverse (enrich_package_ref env snapshot_id) packages") (auto simp: enrich_ref_def)
  qed
  then show ?thesis using enrich_loop_ok [OF assms(1,2,3)] assms(3) by (auto simp: enrich_def enrich_ref_def)
qed

section \<open>The newest snapshot\<close>

text \<open>The snapshot selected for an indexed database that was indexed again.\<close>

lemma newest_is_selected:
  assumes "store_wf st" and "st_snapshots st' = st_snapshots st @ [s]" and "sn_id s = int (length (st_snapshots st)) + 1"
    and "sn_published s"
  shows "resolve_snapshot_id False (Some st') None = sn_id s"
proof -
  have "map sn_id (st_snapshots st) = ids_upto (length (st_snapshots st))" using assms(1) by (simp add: store_wf_def)
  then have "sn_id ` set (st_snapshots st) = set (ids_upto (length (st_snapshots st)))" by (metis set_map)
  then have "x \<le> int (length (st_snapshots st))" if "x \<in> sn_id ` set (st_snapshots st)" for x
    using that by simp
  then show ?thesis using assms(2-4)
    by (fastforce simp: resolve_snapshot_id_def Let_def intro!: Max_eqI)
qed

text \<open>A run of the indexer over a repository that is up to date hides the packages: it publishes an empty snapshot, which is the
  one selected when the user names none, while every package row stays with the snapshot it was added to. Each scanned package
  gets no enrichment and a diagnostic, unless the cache or the medium has it. Hypotheses: the cache database was opened and has no
  rows for a snapshot that did not exist, and there is no extractor.\<close>

lemma skipped_run_hides_packages:
  assumes "store_wf st1" and "no_faults ienv" and "up_to_date ienv name st1" and "known_repository name st1"
    and "index_repository ienv name base_url suite component st1 = (r, st2)"
    and "en_cache env = Cache_Database" and "en_metadata env = Some st2" and "en_extract env = None"
    and "\<forall>row \<in> set rows. snd (snd (snd (ce_key row))) \<le> int (length (st_snapshots st1))"
  shows "enrich env packages (resolve_snapshot_id False (en_metadata env) None) rows =
    (Inr (map (\<lambda>pkg. enriched pkg None) packages, map (no_match env) packages), rows)"
proof -
  let ?new = "int (length (st_snapshots st1)) + 1"
  obtain rid where st2: "st2 = st1\<lparr>st_snapshots := st_snapshots st1 @
        [\<lparr>sn_id = ?new, sn_repository_id = rid, sn_schema_version = SCHEMA_VERSION, sn_published = True\<rparr>],
      st_events := st_events st1 @ [IndexingStarted name ?new, IndexingCompleted name ?new 0]\<rparr>"
    using index_run_skips [OF assms(1-4), of base_url suite component] assms(5) by (auto simp: Let_def)
  note wf1 = assms(1)
  have sel: "resolve_snapshot_id False (Some st2) None = ?new"
    using newest_is_selected [OF wf1, of st2] by (simp add: st2)
  have "pi_snapshot_id p \<noteq> ?new" if "p \<in> set (st_packages st1)" for p
  proof -
    have "pi_snapshot_id p \<in> sn_id ` set (st_snapshots st1)" using wf1 that by (auto simp: store_wf_def)
    also have "\<dots> = set (ids_upto (length (st_snapshots st1)))" using wf1 by (metis store_wf_def set_map)
    finally show ?thesis by simp
  qed
  then have none: "find_instance st2 pkg ?new = None" for pkg
    by (auto simp: find_instance_def st2 Let_def filter_empty_conv dest!: set_zip_rightD)
  have "filter (\<lambda>row. ce_key row = cache_key pkg ?new) rows = []" for pkg
    using assms(9) by (force simp: filter_empty_conv cache_key_def)
  then have "enrich_package env ?new pkg rows = (Inr (enriched pkg None, [no_match env pkg]), rows)" for pkg
    using assms(6-8) none
    by (simp add: enrich_package_def cache_get_def query_metadata_db_def lookup_metadata_def and_then_eqs)
  then have "enrich_loop env ?new ps rows = (Inr (map (\<lambda>pkg. enriched pkg None) ps, map (no_match env) ps), rows)" for ps
    by (induction ps) (simp_all add: and_then_eqs)
  then show ?thesis using assms(7) sel by (simp add: enrich_def)
qed

text \<open>So after a mirror is indexed a second time without changes, enrichment finds nothing.\<close>

lemma reindexed_enrichment_empty:
  assumes "store_wf st" and "no_faults ienv"
    and "\<forall>f \<in> set (get_verified_files (ie_like ienv) (Some name) (st_files st)). file_good ienv f"
    and "index_repository ienv name base_url suite component st = (r, st1)"
    and "index_repository ienv name base_url' suite' component' st1 = (r', st2)"
    and "en_cache env = Cache_Database" and "en_metadata env = Some st2" and "en_extract env = None"
    and "\<forall>row \<in> set rows. snd (snd (snd (ce_key row))) \<le> int (length (st_snapshots st1))"
  shows "enrich env packages (resolve_snapshot_id False (en_metadata env) None) rows =
    (Inr (map (\<lambda>pkg. enriched pkg None) packages, map (no_match env) packages), rows)"
  using skipped_run_hides_packages [OF _ assms(2) index_run_reads(2,3) [OF assms(2-4)] assms(5-9)]
    index_repository_wf [OF assms(1), of ienv name base_url suite component] assms(4) by simp

definition example_enricher :: "index_store \<Rightarrow> enrich_env" where
  "example_enricher st = \<lparr>en_cache = Cache_Database, en_database_fault = \<lambda>_. False,
     en_dumps = \<lambda>ps. ''x'', en_loads = \<lambda>_. Some [], en_metadata = Some st, en_licenses = [], en_query_fault = \<lambda>_. False,
     en_extract = None\<rparr>"

definition example_package :: identified_package where
  "example_package = \<lparr>ip_name = ''a'', ip_version = ''1'', ip_architecture = ''all'', ip_status = ''installed''\<rparr>"

lemma reindexed_enrichment_empty_example:
  "let st2 = snd (index_repository example_env ''m'' ''http://m'' ''sid'' ''main''
         (snd (run_example [''/m/Release'', ''/m/Contents-all''])))
   in fst (enrich (example_enricher st2) [example_package] (resolve_snapshot_id False (Some st2) None) []) =
     Inr ([enriched example_package None], [no_match (example_enricher st2) example_package])"
proof -
  let ?st = "example_store [''/m/Release'', ''/m/Contents-all'']"
  let ?st2 = "snd (index_repository example_env ''m'' ''http://m'' ''sid'' ''main''
         (snd (run_example [''/m/Release'', ''/m/Contents-all''])))"
  obtain r st1 where r: "run_example [''/m/Release'', ''/m/Contents-all''] = (r, st1)" by force
  obtain r' where r': "index_repository example_env ''m'' ''http://m'' ''sid'' ''main'' st1 = (r', ?st2)"
    using r by (metis prod.collapse snd_conv)
  have "store_wf ?st" by (simp add: store_wf_def example_store_def empty_store_def ids_upto_def dict_wf_def)
  from reindexed_enrichment_empty [OF this no_faults_example example_good [unfolded list_all_iff] r [unfolded run_example_def] r',
      of "example_enricher ?st2" "[]" "[example_package]"]
  show ?thesis by (simp add: example_enricher_def Let_def)
qed

section \<open>Witness and the stand-in cache\<close>

text \<open>A self-delimiting encoding in place of JSON.\<close>

primrec pairs_encode :: "(string \<times> string) list \<Rightarrow> string" where
  "pairs_encode [] = ''.''"
| "pairs_encode (p # ps) = replicate (length (fst p)) (CHR ''a'') @ ''/'' @ fst p @ replicate (length (snd p)) (CHR ''a'') @ ''/'' @ snd p
     @ pairs_encode ps"

fun pairs_decode :: "nat \<Rightarrow> string \<Rightarrow> (string \<times> string) list option" where
  "pairs_decode 0 s = None"
| "pairs_decode (Suc n) s =
     (if s = ''.'' then Some []
      else (let k = length (takeWhile (\<lambda>c. c = CHR ''a'') s); rest = drop (Suc k) s;
                m = length (takeWhile (\<lambda>c. c = CHR ''a'') (drop k rest)); rest2 = drop (Suc m) (drop k rest)
            in map_option ((#) (take k rest, take m rest2)) (pairs_decode n (drop m rest2))))"

lemma pairs_roundtrip: "length ps < n \<Longrightarrow> pairs_decode n (pairs_encode ps) = Some ps"
proof (induction ps arbitrary: n)
  case Nil
  then show ?case by (cases n) simp_all
next
  case (Cons p ps)
  have t: "takeWhile (\<lambda>c. c = CHR ''a'') (replicate k (CHR ''a'') @ CHR ''/'' # s) = replicate k (CHR ''a'')" for k s
    by (induction k) simp_all
  obtain m where n: "n = Suc m" "length ps < m" using Cons.prems by (cases n) auto
  obtain x y where p: "p = (x, y)" by (cases p)
  have ne: "pairs_encode (p # ps) \<noteq> ''.''" by (cases x) (simp_all add: p)
  show ?case using Cons.IH [OF n(2)] ne by (simp add: n(1) p t Let_def)
qed

lemma length_pairs_encode: "length ps < length (pairs_encode ps)"
  by (induction ps) auto

definition pair_env :: enrich_env where
  "pair_env = (example_enricher empty_store)\<lparr>en_dumps := pairs_encode, en_loads := \<lambda>s. pairs_decode (length s) s\<rparr>"

theorem enrich_cache_transparent_witness:
  "fst (enrich pair_env [example_package] 1 []) = enrich_ref pair_env [example_package] 1 \<and>
   cache_ok pair_env (snd (enrich pair_env [example_package] 1 []))"
proof -
  have "pairs_encode ps \<noteq> []" for ps by (cases ps) simp_all
  then have "json_ok pair_env" by (simp add: json_ok_def pair_env_def pairs_roundtrip length_pairs_encode)
  moreover have "en_cache pair_env = Cache_Database" "cache_ok pair_env []"
    by (simp_all add: pair_env_def example_enricher_def cache_ok_def)
  ultimately show ?thesis using enrich_cache_transparent by blast
qed

text \<open>Without a cache database the first package of a snapshot ends the enrichment with a \<open>TypeError\<close>: the stand-in does not take the
  arguments by the names the enricher uses.\<close>

lemma no_op_cache_raises:
  assumes "en_cache env = No_Op_Cache" and "snapshot_id \<noteq> 0"
  shows "\<exists>msg. enrich env (pkg # packages) snapshot_id rows = (Inl (Type_Error msg), rows)"
  using assms by (simp add: enrich_def enrich_package_def cache_get_def and_then_eqs)

end
