(* ===== verification/Index_Cli.thy ===== *)
theory Index_Cli
  imports Cli_Output Enricher
begin

text \<open>
  The commands \<open>debcraft index\<close> and \<open>debcraft index package\<close> (\<open>src/debcraft/cli/index.py\<close>). The event bus of the commands
  drops the events that the service publishes. Opening the databases and reading the configuration are arguments, as their
  outcomes. The service is run once for every suite and component of a repository; the locale \<open>incremental_runs\<close> says what
  such a sequence of runs does when each run brings one key up to date.
\<close>

section \<open>Sequences of runs\<close>

text \<open>The loop of \<open>_index_repositories\<close>: the results in order, unless a run raises.\<close>

fun run_all :: "('k \<Rightarrow> 's \<Rightarrow> ('e + 'r) \<times> 's) \<Rightarrow> 'k list \<Rightarrow> 's \<Rightarrow> ('e + 'r list) \<times> 's" where
  "run_all run [] s = (Inr [], s)"
| "run_all run (k # ks) s =
     and_then (run k s) (\<lambda>result s. and_then (run_all run ks s) (\<lambda>results s. (Inr (result # results), s)))"

lemma run_all_append:
  "run_all run (ks @ ks') s = and_then (run_all run ks s) (\<lambda>rs s. and_then (run_all run ks' s) (\<lambda>rs' s. (Inr (rs @ rs'), s)))"
  by (induction ks arbitrary: s) (auto simp: and_then_def split: prod.splits sum.splits)

text \<open>\<open>ok\<close>: the run of a key returns a result that fits it; it makes the key current, and the run of a current key is idle: its result says that nothing
  was done, and the content stays.\<close>

locale incremental_runs =
  fixes run :: "'k \<Rightarrow> 's \<Rightarrow> ('e + 'r) \<times> 's" and ok current :: "'k \<Rightarrow> 's \<Rightarrow> bool" and content :: "'s \<Rightarrow> 'c"
    and fits idle :: "'k \<Rightarrow> 'r \<Rightarrow> bool"
  assumes run_ok: "ok k s \<Longrightarrow> \<exists>v s'. run k s = (Inr v, s') \<and> fits k v \<and> current k s'"
    and run_keeps: "ok k s \<Longrightarrow> (current j s \<longrightarrow> current j (snd (run k s))) \<and> (ok j s \<longrightarrow> ok j (snd (run k s)))"
    and run_current: "ok k s \<Longrightarrow> current k s \<Longrightarrow> content (snd (run k s)) = content s \<and> (\<forall>v. fst (run k s) = Inr v \<longrightarrow> idle k v)"
begin

lemma all_run:
  assumes "\<forall>k \<in> set ks. ok k s"
  shows "\<exists>vs s'. run_all run ks s = (Inr vs, s') \<and> list_all2 fits ks vs \<and> (\<forall>k \<in> set ks. current k s') \<and>
    (\<forall>j. current j s \<longrightarrow> current j s') \<and> (\<forall>j. ok j s \<longrightarrow> ok j s')"
  using assms
proof (induction ks arbitrary: s)
  case (Cons k ks)
  obtain v s1 where v: "run k s = (Inr v, s1)" "fits k v" "current k s1" using run_ok [of k s] Cons.prems by auto
  have keeps: "\<And>j. current j s \<Longrightarrow> current j s1" "\<And>j. ok j s \<Longrightarrow> ok j s1" using run_keeps [of k s] Cons.prems v(1) by auto
  then obtain vs s2 where "run_all run ks s1 = (Inr vs, s2)" "list_all2 fits ks vs" "\<forall>k \<in> set ks. current k s2"
    "\<forall>j. current j s1 \<longrightarrow> current j s2" "\<forall>j. ok j s1 \<longrightarrow> ok j s2"
    using Cons.IH [of s1] Cons.prems by auto
  then show ?case using v keeps by (simp add: and_then_def)
qed simp

text \<open>Once all keys are current, running them again is idle.\<close>

lemma all_idle:
  assumes "\<forall>k \<in> set ks. ok k s \<and> current k s"
  shows "\<exists>vs s'. run_all run ks s = (Inr vs, s') \<and> content s' = content s \<and> list_all2 idle ks vs"
  using assms
proof (induction ks arbitrary: s)
  case (Cons k ks)
  obtain v s1 where v: "run k s = (Inr v, s1)" "current k s1" using run_ok [of k s] Cons.prems by auto
  have keeps: "\<And>j. current j s \<Longrightarrow> current j s1" "\<And>j. ok j s \<Longrightarrow> ok j s1" using run_keeps [of k s] Cons.prems v(1) by auto
  have c: "content s1 = content s" "idle k v" using run_current [of k s] Cons.prems v(1) by auto
  obtain vs s2 where "run_all run ks s1 = (Inr vs, s2)" "content s2 = content s1" "list_all2 idle ks vs"
    using Cons.IH [of s1] Cons.prems keeps by auto
  then show ?case using v c by (simp add: and_then_def)
qed simp

text \<open>A key that is current already, or after the runs before it, is idle.\<close>

lemma nth_idle:
  assumes "\<forall>k \<in> set ks. ok k s" and "run_all run ks s = (Inr vs, s')" and "i < length ks"
    and "current (ks ! i) (snd (run_all run (take i ks) s))"
  shows "idle (ks ! i) (vs ! i)"
proof -
  have split: "ks = take i ks @ ks ! i # drop (Suc i) ks" using assms(3) by (simp add: id_take_nth_drop)
  have "\<forall>k \<in> set (take i ks). ok k s" using assms(1) by (meson in_set_takeD)
  then obtain us s1 where us: "run_all run (take i ks) s = (Inr us, s1)" "length us = i" "\<And>j. ok j s \<Longrightarrow> ok j s1"
    using all_run [of "take i ks" s] assms(3) by (auto dest: list_all2_lengthD)
  have k: "ok (ks ! i) s1" "current (ks ! i) s1" using us assms(1,3,4) by auto
  obtain v s2 where v: "run (ks ! i) s1 = (Inr v, s2)" using run_ok [OF k(1)] by auto
  have "(Inr vs, s') = run_all run (take i ks @ ks ! i # drop (Suc i) ks) s" using assms(2) split by simp
  then have "vs ! i = v"
    using us v by (auto simp: run_all_append and_then_def nth_append split: prod.splits sum.splits)
  then show ?thesis using run_current [OF k] v by simp
qed

end

section \<open>\<open>index\<close>\<close>

type_synonym index_job = "string \<times> string \<times> string \<times> string"

definition jobs_of :: "repository_config \<Rightarrow> index_job list" where
  "jobs_of repo_cfg = concat (map (\<lambda>suite. map (\<lambda>component. (rc_name repo_cfg, rc_base_url repo_cfg, suite, component))
     (rc_components repo_cfg)) (rc_suites repo_cfg))"

text \<open>The dictionary of the repositories by name has the last of each name.\<close>

definition discover_repos_to_index :: "mirror_config \<Rightarrow> string option \<Rightarrow> index_job list" where
  "discover_repos_to_index config repository =
     (if repository \<in> {None, Some []} then concat (map jobs_of (mc_repositories config))
      else case List.find (\<lambda>r. Some (rc_name r) = repository) (rev (mc_repositories config)) of
        Some repo_cfg \<Rightarrow> jobs_of repo_cfg
      | None \<Rightarrow> [(the repository, [], [], [])])"

definition index_job :: "index_env \<Rightarrow> index_job \<Rightarrow> index_store \<Rightarrow> (index_error + index_result) \<times> index_store" where
  "index_job env job st = (case job of (name, base_url, suite, component) \<Rightarrow> index_repository env name base_url suite component st)"

definition index_repositories :: "index_env \<Rightarrow> index_job list \<Rightarrow> index_store \<Rightarrow> (index_error + index_result list) \<times> index_store" where
  "index_repositories env repos_to_index st = run_all (index_job env) repos_to_index st"

text \<open>Any exception ends the command with its text.\<close>

datatype index_failure = Not_Opened string | Service_Error index_error | Config_Error config_error

fun failure_str :: "index_failure \<Rightarrow> string" where
  "failure_str (Not_Opened m) = m"
| "failure_str (Service_Error e) = error_str e"
| "failure_str (Config_Error e) = config_error_str e"

definition as_service_error :: "(index_error + 'a) \<times> index_store \<Rightarrow> (index_failure + 'a) \<times> index_store" where
  "as_service_error r = (case r of (Inl e, st) \<Rightarrow> (Inl (Service_Error e), st) | (Inr v, st) \<Rightarrow> (Inr v, st))"

definition run_index :: "index_env \<Rightarrow> string option \<Rightarrow> config_error + mirror_config \<Rightarrow> string option \<Rightarrow> index_store \<Rightarrow>
    (index_failure + index_result list) \<times> index_store" where
  "run_index env opening cfg repository st =
     (case opening of Some m \<Rightarrow> (Inl (Not_Opened m), st)
      | None \<Rightarrow>
          and_then (as_service_error (attempt env List_Files (\<lambda>st. (get_verified_files (ie_like env) repository (st_files st), st)) st))
            (\<lambda>verified_files st.
               if verified_files = [] then (Inr [], st)
               else case cfg of Inl e \<Rightarrow> (Inl (Config_Error e), st)
                 | Inr config \<Rightarrow>
                     let repos_to_index = discover_repos_to_index config repository
                     in if repos_to_index = [] then (Inr [], st) else as_service_error (index_repositories env repos_to_index st)))"

definition status_of :: "index_result \<Rightarrow> string" where
  "status_of r = (if ix_success r then ''[green]OK[/green]'' else concat [''[red]FAILED[/red] '', some_or (ix_error r) []])"

definition index_summary :: "index_result list \<Rightarrow> printed" where
  "index_summary results = Table ''Indexing Summary''
     (map (\<lambda>r. [ix_repository_name r, nat_str (ix_packages_indexed r), nat_str (ix_source_packages_indexed r),
        nat_str (ix_file_ownerships_indexed r), nat_str (ix_files_skipped r), status_of r]) results)"

definition index_command :: "index_env \<Rightarrow> string option \<Rightarrow> config_error + mirror_config \<Rightarrow> string option \<Rightarrow> index_store \<Rightarrow>
    cli_result \<times> index_store" where
  "index_command env opening cfg repository st = (case run_index env opening cfg repository st of
     (Inl e, st) \<Rightarrow> ((Exit 1, map Line [''[red]Error:[/red] Indexing failed: '' @ failure_str e,
         concat [''[dim]Suggested fix: Check database connectivity and ensure mirror.db and metadata.db are accessible. '',
           ''Run '', [CHR 0x27], ''debcraft doctor'', [CHR 0x27], '' for diagnostics.[/dim]'']]), st)
   | (Inr [], st) \<Rightarrow> ((Exit 0, [Line (concat [''[yellow]No VERIFIED files found for indexing.[/yellow] '',
         ''Run '', [CHR 0x27], ''debcraft mirror sync'', [CHR 0x27], '' first to download and verify repository files.''])]), st)
   | (Inr results, st) \<Rightarrow>
       (let failed = filter (\<lambda>r. \<not> ix_success r) results
        in ((Exit 0, [Line [], index_summary results]
               @ (if failed = [] then [] else
                    [Line (concat [[LF], ''[yellow]Warning:[/yellow] '', nat_str (length failed), '' repository(ies) failed to index.''])])
               @ [Line (concat [[LF], ''[green]Indexing completed.[/green] '', nat_str (sum_list (map ix_packages_indexed results)),
                    '' packages indexed.''])]), st)))"

section \<open>\<open>index package\<close>\<close>

text \<open>\<open>metadata_db\<close> is \<open>None\<close> when the file does not exist. An exception of the query is not caught.\<close>

definition optional_field :: "string \<Rightarrow> string option \<Rightarrow> string list list" where
  "optional_field field v = (case v of None \<Rightarrow> [] | Some s \<Rightarrow> if s = [] then [] else [[field, s]])"

definition package_rows :: "package_metadata \<Rightarrow> string list list" where
  "package_rows metadata =
     [[''Package'', pm_package_name metadata], [''Version'', pm_version metadata], [''Architecture'', pm_architecture metadata],
      [''Source'', pm_source_package metadata], [''Source Version'', pm_source_version metadata]]
     @ optional_field ''Section'' (pm_section metadata) @ optional_field ''Priority'' (pm_priority metadata)
     @ optional_field ''Maintainer'' (pm_maintainer metadata) @ optional_field ''Homepage'' (pm_homepage metadata)
     @ optional_field ''Description'' (map_option (\<lambda>desc. if length desc > 200 then take 200 desc @ ''...'' else desc) (pm_description metadata))"

definition package_command :: "(package_instance list \<Rightarrow> package_instance list) \<Rightarrow> string option \<Rightarrow> string \<Rightarrow> index_store option \<Rightarrow> cli_result" where
  "package_command newest_first query_error name metadata_db =
     (let not_found = (Exit 1, [Line (''[red]Package not found:[/red] '' @ name)])
      in case metadata_db of None \<Rightarrow> not_found
         | Some st \<Rightarrow> (case query_error of Some m \<Rightarrow> (Escaped m, [])
             | None \<Rightarrow> (case get_package_metadata newest_first name st of
                 None \<Rightarrow> not_found
               | Some metadata \<Rightarrow> (Exit 0, [Table (concat [''[bold]'', name, ''[/bold]'']) (package_rows metadata)]))))"

section \<open>What the runs do\<close>

text \<open>The runs of one command: storage refuses nothing, and every file listed for the job can be read. The files listed stay those
  of the state before, and there are no fewer snapshots.\<close>

definition job_ok :: "index_env \<Rightarrow> file_table \<Rightarrow> nat \<Rightarrow> index_job \<Rightarrow> index_store \<Rightarrow> bool" where
  "job_ok env files snapshots job st \<longleftrightarrow> no_faults env \<and> store_wf st \<and> snapshots \<le> length (st_snapshots st) \<and> (\<forall>c n. get_verified_files c n (st_files st) = get_verified_files c n files) \<and>
     (\<forall>f \<in> set (get_verified_files (ie_like env) (Some (fst job)) files). file_good env f)"

definition job_current :: "index_env \<Rightarrow> index_job \<Rightarrow> index_store \<Rightarrow> bool" where
  "job_current env job st \<longleftrightarrow> up_to_date env (fst job) st \<and> known_repository (fst job) st"

definition job_succeeded :: "index_job \<Rightarrow> index_result \<Rightarrow> bool" where
  "job_succeeded job r \<longleftrightarrow> ix_repository_name r = fst job \<and> ix_success r"

text \<open>A run that added nothing and skipped every file listed.\<close>

definition job_skipped :: "index_env \<Rightarrow> file_table \<Rightarrow> index_job \<Rightarrow> index_result \<Rightarrow> bool" where
  "job_skipped env files job r \<longleftrightarrow> (\<exists>i. r = index_result_of (fst job) i
     (0, 0, 0, length (get_verified_files (ie_like env) (Some (fst job)) files)) None)"

text \<open>Everything but the snapshots and the events.\<close>

definition index_content where
  "index_content st = (st_repositories st, st_packages st, st_sources st, st_ownerships st, st_records st, st_files st)"

interpretation index_runs: incremental_runs "index_job env" "job_ok env files n" "job_current env" index_content job_succeeded
    "job_skipped env files"
proof
  fix k j :: index_job and s :: index_store
  assume ok: "job_ok env files n k s"
  obtain name base_url suite component where k: "k = (name, base_url, suite, component)" by (cases k)
  obtain r s' where r: "index_repository env name base_url suite component s = (r, s')" by force
  have good: "\<forall>f \<in> set (get_verified_files (ie_like env) (Some name) (st_files s)). file_good env f" "no_faults env" "store_wf s"
    using ok by (auto simp: job_ok_def k)
  note reads = index_run_reads [OF good(2,1) r]
  have more: "length (st_snapshots s) \<le> length (st_snapshots s')"
    using index_repository_result [OF good(3), of env name base_url suite component] r reads(1) by fastforce
  have wf: "store_wf s'" using index_repository_wf [OF good(3), of env name base_url suite component] r by simp
  show "\<exists>v s'. index_job env k s = (Inr v, s') \<and> job_succeeded k v \<and> job_current env k s'"
    using reads(1-3) r by (auto simp: index_job_def k job_current_def job_succeeded_def index_result_of_def case_prod_unfold)
  show "(job_current env j s \<longrightarrow> job_current env j (snd (index_job env k s))) \<and>
      (job_ok env files n j s \<longrightarrow> job_ok env files n j (snd (index_job env k s)))"
    using reads(4-6) r wf more by (auto simp: index_job_def k job_current_def job_ok_def)
  assume current: "job_current env k s"
  then have "up_to_date env name s" "known_repository name s" by (simp_all add: job_current_def k)
  from index_run_skips [OF good(3,2) this, of base_url suite component] ok
  show "index_content (snd (index_job env k s)) = index_content s \<and> (\<forall>v. fst (index_job env k s) = Inr v \<longrightarrow> job_skipped env files k v)"
    by (auto simp: index_job_def k job_skipped_def index_content_def job_ok_def Let_def)
qed

lemma job_current_name: "fst j = fst k \<Longrightarrow> job_current env j = job_current env k"
  by (simp add: job_current_def fun_eq_iff)

lemma run_index_jobs:
  assumes "no_faults env" and "get_verified_files (ie_like env) repository (st_files st) \<noteq> []"
  shows "run_index env None (Inr config) repository st =
    as_service_error (run_all (index_job env) (discover_repos_to_index config repository) st)"
  using assms by (simp add: run_index_def attempt_ok as_service_error_def and_then_def index_repositories_def Let_def)

lemma jobs_ok:
  assumes "store_wf st" and "no_faults env"
    and "\<forall>job \<in> set jobs. \<forall>f \<in> set (get_verified_files (ie_like env) (Some (fst job)) (st_files st)). file_good env f"
  shows "\<forall>job \<in> set jobs. job_ok env (st_files st) (length (st_snapshots st)) job st"
  using assms by (simp add: job_ok_def)


definition example_repository :: "string list \<Rightarrow> repository_config" where
  "example_repository components = \<lparr>rc_name = ''m'', rc_base_url = ''http://m'', rc_suites = [''sid''], rc_components = components,
     rc_architectures = [''amd64'']\<rparr>"

definition example_two_components :: mirror_config where
  "example_two_components = DEFAULT_CONFIG\<lparr>mc_repositories := [example_repository [''main'', ''contrib'']]\<rparr>"

definition example_files :: index_store where
  "example_files = example_store [''/m/Release'', ''/m/Contents-all'']"

lemma example_files_wf: "store_wf example_files"
  by (simp add: example_files_def store_wf_def example_store_def empty_store_def ids_upto_def dict_wf_def)

lemma example_jobs: "discover_repos_to_index example_two_components None =
    [(''m'', ''http://m'', ''sid'', ''main''), (''m'', ''http://m'', ''sid'', ''contrib'')]"
  by (simp add: discover_repos_to_index_def example_two_components_def jobs_of_def example_repository_def)

lemma example_jobs_good:
  "\<forall>job \<in> set (discover_repos_to_index example_two_components None).
     \<forall>f \<in> set (get_verified_files (ie_like example_env) (Some (fst job)) (st_files example_files)). file_good example_env f"
  using example_good by (simp add: example_jobs example_files_def list_all_iff)

lemma example_listed: "get_verified_files (ie_like example_env) n (st_files example_files) \<noteq> []"
  by (cases n) (simp_all add: example_files_def example_store_def example_row_def get_verified_files_def example_env_def)




section \<open>Limits of the command\<close>

text \<open>Runs that failed still end with exit code 0 and the word that indexing completed.\<close>

lemma failed_runs_exit_zero:
  assumes "run_index env opening cfg repository st = (Inr results, st')" and "results \<noteq> []"
  shows "\<exists>printed. index_command env opening cfg repository st = ((Exit 0, printed), st') \<and>
    last printed = Line (concat [[LF], ''[green]Indexing completed.[/green] '', nat_str (sum_list (map ix_packages_indexed results)),
      '' packages indexed.''])"
  using assms by (cases results) (simp_all add: index_command_def Let_def)

text \<open>A configuration without repositories is reported as a mirror without verified files.\<close>

lemma no_repositories_no_files:
  assumes "no_faults env" and "mc_repositories config = []"
  shows "fst (index_command env None (Inr config) None st) = fst (index_command env None (Inr config) None (st\<lparr>st_files := []\<rparr>))"
  using assms by (simp add: index_command_def run_index_def attempt_ok as_service_error_def and_then_def discover_repos_to_index_def
      get_verified_files_def)

text \<open>Files are assigned to a repository when its name occurs in their URL: a repository whose name is not part of its URL is
  indexed without reading a file, and successfully. And the packages of one that is not configured get a relative location.\<close>

lemma name_not_in_url:
  assumes "no_faults env" and "\<forall>(url, f) \<in> set (st_files st). \<not> ie_like env url name"
  shows "\<exists>v st'. index_repository env name base_url suite component st = (Inr v, st') \<and> ix_success v \<and> ix_files_skipped v = 0
    \<and> st_packages st' = st_packages st \<and> st_records st' = st_records st"
proof -
  have none: "get_verified_files (ie_like env) (Some name) (st_files st) = []"
  proof -
    have "\<not> ie_like env url name" if "(k, url, f) \<in> set (enumerate 0 (st_files st))" for k url f
      using assms(2) that by (auto simp: in_set_enumerate_eq dest!: nth_mem)
    then show ?thesis by (auto simp: get_verified_files_def filter_empty_conv)
  qed
  obtain rid s1 where f: "find_or_create_repository name base_url suite component st = (rid, s1)" by force
  obtain i s2 where c: "create_snapshot rid SCHEMA_VERSION s1 = (i, s2)" by force
  have s2: "st_packages s2 = st_packages st" "st_records s2 = st_records st"
    using c find_or_create_frame [OF f] by (auto simp: create_snapshot_def Let_def)
  have "index_repository env name base_url suite component st = (Inr (index_result_of name i (0, 0, 0, 0) None),
      publish_event (IndexingCompleted name i 0) (publish_snapshot i (publish_event (IndexingStarted name i) s2)))"
    using index_run_ok [OF assms(1) f c] none by (simp add: sort_files_def)
  then show ?thesis using s2 by (simp add: index_result_of_def publish_event_def publish_snapshot_def)
qed

lemma unknown_repository_location:
  assumes "List.find (\<lambda>r. rc_name r = name) (rev (mc_repositories config)) = None" and "name \<noteq> []"
  shows "discover_repos_to_index config (Some name) = [(name, [], [], [])]"
    and "pi_download_url (package_metadata_to_model pkg i (rstrip_slash [] @ ''/'' @ pm_filename pkg)) = Some (''/'' @ pm_filename pkg)"
  using assms by (simp_all add: discover_repos_to_index_def package_metadata_to_model_def rstrip_slash_def rstrip_of_def)

end
