(* ===== verification/Mirror_Workflow.thy ===== *)
theory Mirror_Workflow
  imports Mirror_Engine
begin

text \<open>What the loop of \<open>infrastructure/mirror/workflow.py\<close> over the configured repositories promises:
  one repository does not stop another. The definitions of the workflow are in \<open>Mirror_Engine\<close>; here are
  the event log it is to leave and the proof that it does.\<close>

section \<open>Cancellation is not invented\<close>

lemma case_unit_any: "(case u of () \<Rightarrow> x) = x"
  by (cases u) (simp only: unit.case)

text \<open>No poll of the cancellation flag will find it set. Every operation of the engine keeps this.\<close>

definition uncancelled :: "engine \<Rightarrow> bool" where
  "uncancelled en \<longleftrightarrow> list_all Not (en_cancel en)"

lemma uncancelled_update [simp]:
  "uncancelled (en\<lparr>en_table := t\<rparr>) = uncancelled en" "uncancelled (en\<lparr>en_files := f\<rparr>) = uncancelled en"
  "uncancelled (en\<lparr>en_result := r\<rparr>) = uncancelled en" "uncancelled (en\<lparr>en_published := p\<rparr>) = uncancelled en"
  "uncancelled (en\<lparr>en_sessions := s\<rparr>) = uncancelled en" "uncancelled (count a b c d en) = uncancelled en"
  by (simp_all add: uncancelled_def count_def)

lemma is_cancelled_uncancelled:
  "uncancelled en \<Longrightarrow> \<exists>en'. is_cancelled en = (False, en') \<and> uncancelled en'"
  by (cases "en_cancel en") (auto simp: is_cancelled_def uncancelled_def)

lemma count_polls [simp]: "en_cancel (count a b c d en) = en_cancel en"
  by (simp add: count_def)

lemma fetch_polls: "fetch w task en = (r, en') \<Longrightarrow> en_cancel en' = en_cancel en"
  by (auto simp: fetch_def split: prod.splits)

lemma download_release_file_polls:
  "download_release_file w url dest en = (r, en') \<Longrightarrow> en_cancel en' = en_cancel en"
  unfolding download_release_file_def
  by (auto dest!: fetch_polls split: prod.splits sum.splits download_error.splits if_splits option.splits)

lemma parse_and_store_polls:
  "parse_and_store_release w dr dest en = (r, en') \<Longrightarrow> en_cancel en' = en_cancel en"
  by (auto simp: parse_and_store_release_def Let_def split: prod.splits sum.splits)

lemma stage_release_polls:
  "stage_release w config suite en = (r, en') \<Longrightarrow> en_cancel en' = en_cancel en"
  unfolding stage_release_def staging_stage_release_def Let_def
  by (auto dest!: download_release_file_polls parse_and_store_polls simp: map_prod_def
      split: prod.splits sum.splits option.splits bool.splits)

lemma index_loop_polls:
  "index_loop w base suite mroot ds es en = (r, en') \<Longrightarrow> en_cancel en' = en_cancel en"
proof (induction ds arbitrary: es en)
  case (Cons d ds)
  then show ?case
    by (auto simp: Let_def dest!: fetch_polls split: prod.splits sum.splits if_splits)
qed simp

lemma process_loop_polls:
  "process_loop ts rs sc fu en = (a, b, en') \<Longrightarrow> en_cancel en' = en_cancel en"
  by (induction ts rs sc fu en rule: process_loop.induct) (auto split: if_splits)

lemma stage_artifacts_polls:
  "stage_artifacts w config es en = (r, en') \<Longrightarrow> en_cancel en' = en_cancel en"
  unfolding stage_artifacts_def Let_def process_artifact_results_def
  by (auto dest!: process_loop_polls split: prod.splits sum.splits if_splits option.splits)

lemma stage_publish_polls: "en_cancel (stage_publish w config en) = en_cancel en"
  by (simp add: stage_publish_def Let_def)

lemma stage_indexes_polls:
  "stage_indexes w config suite release en = (r, en') \<Longrightarrow> en_cancel en' = en_cancel en"
  by (auto simp: stage_indexes_def Let_def dest: index_loop_polls split: option.splits)

text \<open>Without cancellation a suite ends with an error or has run through its four stages.\<close>

lemma sync_single_suite_uncancelled:
  assumes "uncancelled en"
  shows "(\<exists>e en'. sync_single_suite w config suite en = (Inl e, en') \<and> uncancelled en') \<or>
         (\<exists>en'. sync_single_suite w config suite en = (Inr False, en') \<and> uncancelled en')"
proof -
  obtain r en1 where r: "stage_release w config suite en = (r, en1)" by fastforce
  then have u1: "uncancelled en1" using stage_release_polls [OF r] assms by (simp add: uncancelled_def)
  show ?thesis
  proof (cases r)
    case (Inl e)
    then show ?thesis using r u1 by (simp add: sync_single_suite_def)
  next
    case (Inr rel)
    show ?thesis
    proof (cases rel)
      case None
      then show ?thesis using r Inr u1 by (simp add: sync_single_suite_def)
    next
      case (Some release)
      obtain en2 where c2: "is_cancelled en1 = (False, en2)" "uncancelled en2"
        using is_cancelled_uncancelled [OF u1] by blast
      obtain i en3 where i: "stage_indexes w config suite release en2 = (i, en3)" by fastforce
      have u3: "uncancelled en3" using stage_indexes_polls [OF i] c2(2) by (simp add: uncancelled_def)
      obtain en4 where c4: "is_cancelled en3 = (False, en4)" "uncancelled en4"
        using is_cancelled_uncancelled [OF u3] by blast
      show ?thesis
      proof (cases i)
        case Inl: (Inl e)
        then show ?thesis using r Inr Some c2 i u3 by (simp add: sync_single_suite_def)
      next
        case Entries: (Inr entries)
        obtain a en5 where a: "stage_artifacts w config entries en4 = (a, en5)" by fastforce
        have u5: "uncancelled en5" using stage_artifacts_polls [OF a] c4(2) by (simp add: uncancelled_def)
        obtain en6 where c6: "is_cancelled en5 = (False, en6)" "uncancelled en6"
          using is_cancelled_uncancelled [OF u5] by blast
        obtain en7 where c7: "is_cancelled en6 = (False, en7)" "uncancelled en7"
          using is_cancelled_uncancelled [OF c6(2)] by blast
        show ?thesis
          using r Inr Some c2 i Entries c4 a u5 c6(1) c7
          by (cases a) (simp_all add: sync_single_suite_def stage_publish_polls uncancelled_def case_unit_any)
      qed
    qed
  qed
qed

lemma suites_loop_uncancelled:
  "uncancelled en \<Longrightarrow> uncancelled (snd (suites_loop w config suites en))"
proof (induction suites arbitrary: en)
  case (Cons suite suites)
  obtain en1 where c: "is_cancelled en = (False, en1)" "uncancelled en1"
    using is_cancelled_uncancelled [OF Cons.prems] by blast
  show ?case
    using sync_single_suite_uncancelled [OF c(2), of w config suite] Cons.IH by (auto simp: c(1))
qed simp

lemma sync_repository_uncancelled:
  assumes "uncancelled en"
  shows "uncancelled (snd (sync_repository w config session en))"
proof -
  let ?en = "en\<lparr>en_result := zero_result, en_table := resume_interrupted_downloads (en_table en)\<rparr>"
  obtain r en1 where l: "suites_loop w config (rc_suites config) ?en = (r, en1)" by fastforce
  have u: "uncancelled en1" using suites_loop_uncancelled [of ?en w config "rc_suites config"] assms l by simp
  obtain en2 where c: "is_cancelled en1 = (False, en2)" "uncancelled en2"
    using is_cancelled_uncancelled [OF u] by blast
  show ?thesis
    using l u c by (cases r) (simp_all add: sync_repository_def Let_def case_unit_any)
qed

section \<open>The log\<close>

text \<open>What each repository ended with, and the log and the totals that outcomes stand for.\<close>

type_synonym outcome = "engine_error + sync_result"

fun repository_events :: "(nat \<Rightarrow> string) \<Rightarrow> nat \<Rightarrow> repository_config list \<Rightarrow> outcome list \<Rightarrow> mirror_event list" where
  "repository_events uuid n (repo # repos) (out # outs) =
     MirrorSyncStartedEvent (rc_name repo) (uuid n) (rc_suites repo)
     # (case out of Inr r \<Rightarrow> MirrorSyncCompletedEvent (rc_name repo) (uuid n) r | Inl e \<Rightarrow> MirrorSyncFailedEvent (rc_name repo) (uuid n) e)
     # repository_events uuid (n + 1) repos outs"
| "repository_events uuid n _ _ = []"

definition failed_names :: "repository_config list \<Rightarrow> outcome list \<Rightarrow> string list" where
  "failed_names repos outs = map (rc_name \<circ> fst) (filter (isl \<circ> snd) (zip repos outs))"

definition sum_results :: "sync_result \<Rightarrow> outcome list \<Rightarrow> sync_result" where
  "sum_results acc outs = foldl add_results acc (map projr (filter (Not \<circ> isl) outs))"

lemma sync_one_outcome:
  "\<exists>out. uncancelled (mr_engine run) \<longrightarrow> uncancelled (mr_engine (sync_one w sid repo run)) \<and>
     mr_events (sync_one w sid repo run) = mr_events run @ repository_events (\<lambda>_. sid) 0 [repo] [out] \<and>
     mr_failed_repositories (sync_one w sid repo run) = mr_failed_repositories run @ failed_names [repo] [out] \<and>
     mr_totals (sync_one w sid repo run) = sum_results (mr_totals run) [out]"
proof -
  obtain r en' where r: "sync_repository w repo sid (mr_engine run) = (r, en')" by fastforce
  have "uncancelled (mr_engine run) \<Longrightarrow> uncancelled en'"
    using sync_repository_uncancelled [of "mr_engine run" w repo sid] r by simp
  then show ?thesis
    by (intro exI [of _ r]) (cases r; simp add: sync_one_def Let_def r failed_names_def sum_results_def)
qed

lemma sync_all_outcomes:
  "uncancelled (mr_engine run) \<Longrightarrow> \<exists>outs. length outs = length repos \<and>
     mr_events (sync_all_repositories w uuid n repos run) = mr_events run @ repository_events uuid n repos outs \<and>
     mr_failed_repositories (sync_all_repositories w uuid n repos run) = mr_failed_repositories run @ failed_names repos outs \<and>
     mr_totals (sync_all_repositories w uuid n repos run) = sum_results (mr_totals run) outs"
proof (induction repos arbitrary: n run)
  case (Cons repo repos)
  obtain en1 where c: "is_cancelled (mr_engine run) = (False, en1)" "uncancelled en1"
    using is_cancelled_uncancelled [OF Cons.prems] by blast
  let ?run = "run\<lparr>mr_engine := en1\<rparr>" and ?next = "sync_one w (uuid n) repo (run\<lparr>mr_engine := en1\<rparr>)"
  obtain out where o: "uncancelled (mr_engine ?next)"
      "mr_events ?next = mr_events run @ repository_events (\<lambda>_. uuid n) 0 [repo] [out]"
      "mr_failed_repositories ?next = mr_failed_repositories run @ failed_names [repo] [out]"
      "mr_totals ?next = sum_results (mr_totals run) [out]"
    using sync_one_outcome [of ?run w "uuid n" repo] c(2) by auto
  obtain outs where os: "length outs = length repos"
      "mr_events (sync_all_repositories w uuid (n + 1) repos ?next) = mr_events ?next @ repository_events uuid (n + 1) repos outs"
      "mr_failed_repositories (sync_all_repositories w uuid (n + 1) repos ?next) = mr_failed_repositories ?next @ failed_names repos outs"
      "mr_totals (sync_all_repositories w uuid (n + 1) repos ?next) = sum_results (mr_totals ?next) outs"
    using Cons.IH [OF o(1), of "n + 1"] by blast
  show ?case
    by (rule exI [of _ "out # outs"])
      (cases out; simp add: c(1) os [simplified] o(2-4) failed_names_def sum_results_def)
qed (simp add: failed_names_def sum_results_def)

lemma mr_engine_update_fields:
  "mr_events (run\<lparr>mr_engine := en\<rparr>) = mr_events run" "mr_failed_repositories (run\<lparr>mr_engine := en\<rparr>) = mr_failed_repositories run"
  "mr_totals (run\<lparr>mr_engine := en\<rparr>) = mr_totals run"
  by simp_all

text \<open>Property C8. One repository does not stop another: when no poll finds cancellation requested, every
  configured repository, in the order of the configuration, has its start event and then exactly one
  event that ends it, with its name and session; the repositories listed as failed are those with a
  failure event and the totals are the sums over the completed ones.\<close>

theorem workflow_isolation:
  assumes "list_all Not (en_cancel en)"
  shows "\<exists>outs. length outs = length repositories \<and>
     mr_events (execute_mirror w uuid repositories en) = repository_events uuid 0 repositories outs \<and>
     mr_failed_repositories (execute_mirror w uuid repositories en) = failed_names repositories outs \<and>
     mr_totals (execute_mirror w uuid repositories en) = sum_results zero_result outs"
  using sync_all_outcomes [of "\<lparr>mr_engine = en, mr_totals = zero_result, mr_failed_repositories = [], mr_events = []\<rparr>"
      repositories w uuid 0] assms
  by (auto simp: execute_mirror_def Let_def uncancelled_def split: prod.splits)

theorem workflow_isolation_witness:
  "\<exists>outs. length outs = 2 \<and>
     mr_events (execute_mirror example_world (\<lambda>n. ''s'') [example_config, example_config] example_engine) =
       repository_events (\<lambda>n. ''s'') 0 [example_config, example_config] outs \<and>
     mr_failed_repositories (execute_mirror example_world (\<lambda>n. ''s'') [example_config, example_config] example_engine) =
       failed_names [example_config, example_config] outs \<and>
     mr_totals (execute_mirror example_world (\<lambda>n. ''s'') [example_config, example_config] example_engine) =
       sum_results zero_result outs"
  using workflow_isolation [of example_engine "[example_config, example_config]" example_world "\<lambda>n. ''s''"]
  by (simp add: example_engine_def numeral_2_eq_2)

end
