(* ===== verification/Unit_Of_Work.thy ===== *)
theory Unit_Of_Work
  imports Py_Data
begin

text \<open>
  Transactions on a logical database: \<open>SqliteUnitOfWork\<close> (\<open>src/debcraft/infrastructure/database/unit_of_work.py\<close>), the
  repositories (\<open>infrastructure/repositories\<close>) and the publication of snapshots (\<open>infrastructure/mirror/publisher.py\<close>). A
  session is what it sees of the database and what is committed; whether a commit fails, whether the token is cancelled when
  it is asked, and the errors of a body are parameters. Tables are lists of rows under their keys; the session's own copies
  of rows are left out.
\<close>

section \<open>Sessions and units of work\<close>

record 'db session =
  se_working :: 'db
  se_committed :: 'db
  se_open :: bool

text \<open>\<open>Raised\<close>: what the body of the unit of work raises.\<close>

datatype uow_error = Raised string | Storage_Error string | Commit_Error

text \<open>Each look at the token and each commit is told how it goes: whether the token is cancelled, and whether
  \<open>session.commit()\<close> raises \<open>SQLAlchemyError\<close>.\<close>

record commit_fate =
  cf_cancelled :: bool
  cf_fails :: bool

definition session_rollback :: "'db session \<Rightarrow> 'db session" where
  "session_rollback s = s\<lparr>se_working := se_committed s\<rparr>"

definition uow_commit :: "string \<Rightarrow> commit_fate \<Rightarrow> 'db session \<Rightarrow> (uow_error + unit) \<times> 'db session" where
  "uow_commit db_name fate s =
     (if cf_cancelled fate
      then (Inl (Storage_Error (concat [''Commit aborted for database '', [CHR 0x27], db_name, [CHR 0x27], '': operation was cancelled''])),
            session_rollback s)
      else if cf_fails fate then (Inl Commit_Error, s)
      else (Inr (), s\<lparr>se_committed := se_working s\<rparr>))"

text \<open>What a body does with the unit of work; \<open>Write\<close> is a change through a repository.\<close>

datatype 'db uow_step = Write "'db \<Rightarrow> string + 'db" | Commit commit_fate | Rollback

fun run_body :: "string \<Rightarrow> 'db uow_step list \<Rightarrow> 'db session \<Rightarrow> (uow_error + unit) \<times> 'db session" where
  "run_body db_name [] s = (Inr (), s)"
| "run_body db_name (Write f # steps) s = (case f (se_working s) of
     Inl e \<Rightarrow> (Inl (Raised e), s)
   | Inr db \<Rightarrow> run_body db_name steps (s\<lparr>se_working := db\<rparr>))"
| "run_body db_name (Commit fate # steps) s = (case uow_commit db_name fate s of
     (Inl e, s') \<Rightarrow> (Inl e, s')
   | (Inr _, s') \<Rightarrow> run_body db_name steps s')"
| "run_body db_name (Rollback # steps) s = run_body db_name steps (session_rollback s)"

definition uow_exit :: "string \<Rightarrow> commit_fate \<Rightarrow> (uow_error + unit) \<Rightarrow> 'db session \<Rightarrow> (uow_error + unit) \<times> 'db session" where
  "uow_exit db_name fate outcome s =
     (case (case outcome of
              Inr _ \<Rightarrow> (case uow_commit db_name fate s of
                  (Inl Commit_Error, s') \<Rightarrow>
                    (Inl (Storage_Error (concat [''Commit failed for database '', [CHR 0x27], db_name, [CHR 0x27]])), session_rollback s')
                | r \<Rightarrow> r)
            | Inl e \<Rightarrow> (Inl e, session_rollback s)) of
        (r, s') \<Rightarrow> (r, s'\<lparr>se_open := False\<rparr>))"

definition unit_of_work :: "string \<Rightarrow> commit_fate \<Rightarrow> 'db uow_step list \<Rightarrow> 'db \<Rightarrow> (uow_error + unit) \<times> 'db session" where
  "unit_of_work db_name fate steps db =
     (case run_body db_name steps \<lparr>se_working = db, se_committed = db, se_open = True\<rparr> of
        (outcome, s) \<Rightarrow> uow_exit db_name fate outcome s)"

text \<open>The writes of a body, one after the other.\<close>

fun written :: "'db uow_step list \<Rightarrow> 'db \<Rightarrow> 'db option" where
  "written [] db = Some db"
| "written (Write f # steps) db = (case f db of Inl _ \<Rightarrow> None | Inr db' \<Rightarrow> written steps db')"
| "written (_ # steps) db = None"

definition only_writes :: "'db uow_step list \<Rightarrow> bool" where
  "only_writes steps \<longleftrightarrow> (\<forall>s \<in> set steps. case s of Write _ \<Rightarrow> True | _ \<Rightarrow> False)"

lemma run_body_writes:
  assumes "only_writes steps"
  shows "written steps (se_working s) = Some db \<Longrightarrow> run_body db_name steps s = (Inr (), s\<lparr>se_working := db\<rparr>)"
    and "written steps (se_working s) = None \<Longrightarrow> \<exists>e db. run_body db_name steps s = (Inl (Raised e), s\<lparr>se_working := db\<rparr>)"
proof -
  have "(\<forall>db. written steps (se_working s) = Some db \<longrightarrow> run_body db_name steps s = (Inr (), s\<lparr>se_working := db\<rparr>)) \<and>
    (written steps (se_working s) = None \<longrightarrow> (\<exists>e db. run_body db_name steps s = (Inl (Raised e), s\<lparr>se_working := db\<rparr>)))"
    using assms
  proof (induction db_name steps s rule: run_body.induct)
    case (2 db_name f steps s)
    show ?case
    proof (cases "f (se_working s)")
      case (Inl e)
      then show ?thesis by (auto intro!: exI [of _ "se_working s"])
    next
      case (Inr db)
      then show ?thesis using "2.IH" [OF Inr] "2.prems" by (fastforce simp: only_writes_def)
    qed
  qed (auto simp: only_writes_def)
  then show "written steps (se_working s) = Some db \<Longrightarrow> run_body db_name steps s = (Inr (), s\<lparr>se_working := db\<rparr>)"
    and "written steps (se_working s) = None \<Longrightarrow> \<exists>e db. run_body db_name steps s = (Inl (Raised e), s\<lparr>se_working := db\<rparr>)"
    by blast+
qed

lemma uow_commit_cases:
  "uow_commit db_name fate s = (r, s') \<Longrightarrow>
    (r = Inr () \<and> \<not> cf_cancelled fate \<and> \<not> cf_fails fate \<and> s' = s\<lparr>se_committed := se_working s\<rparr>) \<or>
    (\<exists>m. r = Inl (Storage_Error m) \<and> cf_cancelled fate \<and> s' = session_rollback s) \<or>
    (r = Inl Commit_Error \<and> cf_fails fate \<and> s' = s)"
  by (auto simp: uow_commit_def split: if_splits)

lemma unit_of_work_closed:
  "se_open (snd (unit_of_work db_name fate steps db)) = False \<and>
   se_working (snd (unit_of_work db_name fate steps db)) = se_committed (snd (unit_of_work db_name fate steps db))"
  by (auto simp: unit_of_work_def uow_exit_def session_rollback_def
      split: prod.splits sum.splits uow_error.splits dest!: uow_commit_cases)

text \<open>Without a commit in its body a unit of work is all or nothing.\<close>

lemma unit_of_work_atomic:
  assumes "only_writes steps" and "unit_of_work db_name fate steps db = (r, s)"
  shows "if cf_cancelled fate \<or> cf_fails fate \<or> written steps db = None then (\<exists>e. r = Inl e) \<and> se_committed s = db
     else r = Inr () \<and> written steps db = Some (se_committed s)"
proof (cases "written steps db")
  case None
  then obtain e db' where "run_body db_name steps \<lparr>se_working = db, se_committed = db, se_open = True\<rparr> =
      (Inl (Raised e), \<lparr>se_working = db', se_committed = db, se_open = True\<rparr>)"
    using run_body_writes(2) [OF assms(1), of "\<lparr>se_working = db, se_committed = db, se_open = True\<rparr>" db_name] by auto
  then show ?thesis using assms(2) None by (auto simp: unit_of_work_def uow_exit_def session_rollback_def)
next
  case (Some db')
  then have "run_body db_name steps \<lparr>se_working = db, se_committed = db, se_open = True\<rparr> =
      (Inr (), \<lparr>se_working = db', se_committed = db, se_open = True\<rparr>)"
    using run_body_writes(1) [OF assms(1), of "\<lparr>se_working = db, se_committed = db, se_open = True\<rparr>" db' db_name] by simp
  then show ?thesis using assms(2) Some
    by (auto simp: unit_of_work_def uow_exit_def session_rollback_def uow_commit_def split: if_splits)
qed

text \<open>The databases that a body commits on its way.\<close>

fun checkpoints :: "'db uow_step list \<Rightarrow> 'db session \<Rightarrow> 'db list" where
  "checkpoints [] s = []"
| "checkpoints (Write f # steps) s = (case f (se_working s) of
     Inl e \<Rightarrow> [] | Inr db \<Rightarrow> checkpoints steps (s\<lparr>se_working := db\<rparr>))"
| "checkpoints (Commit fate # steps) s =
     (if cf_cancelled fate \<or> cf_fails fate then [] else se_working s # checkpoints steps (s\<lparr>se_committed := se_working s\<rparr>))"
| "checkpoints (Rollback # steps) s = checkpoints steps (session_rollback s)"

lemma run_body_committed:
  "se_committed (snd (run_body db_name steps s)) = last (se_committed s # checkpoints steps s)"
  by (induction db_name steps s rule: run_body.induct) (auto simp: uow_commit_def session_rollback_def split: sum.split)

text \<open>Property C34. What a unit of work leaves is committed and its session is closed; an error leaves exactly what the body
  itself had committed before, and success leaves all of it. Without a commit in its body the whole is applied or nothing is, and
  it is nothing when the token is cancelled at the end, when the commit fails, or when a step raises.\<close>

theorem unit_of_work_all_or_nothing:
  assumes "unit_of_work db_name fate steps db = (r, s)"
  shows "\<not> se_open s \<and> se_working s = se_committed s
    \<and> (case r of
         Inl e \<Rightarrow> se_committed s = last (db # checkpoints steps \<lparr>se_working = db, se_committed = db, se_open = True\<rparr>)
       | Inr _ \<Rightarrow> se_committed s = se_working (snd (run_body db_name steps \<lparr>se_working = db, se_committed = db, se_open = True\<rparr>)))
    \<and> (only_writes steps \<longrightarrow>
         (if cf_cancelled fate \<or> cf_fails fate \<or> written steps db = None then (\<exists>e. r = Inl e) \<and> se_committed s = db
          else r = Inr () \<and> written steps db = Some (se_committed s)))"
proof -
  let ?s = "\<lparr>se_working = db, se_committed = db, se_open = True\<rparr>"
  have "case r of Inl e \<Rightarrow> se_committed s = last (db # checkpoints steps ?s) | Inr _ \<Rightarrow> se_committed s = se_working (snd (run_body db_name steps ?s))"
    using assms run_body_committed [of db_name steps ?s]
    by (auto simp: unit_of_work_def uow_exit_def session_rollback_def uow_commit_def split: prod.splits sum.splits if_splits)
  moreover have "\<not> se_open s \<and> se_working s = se_committed s" using unit_of_work_closed [of db_name fate steps db] assms by simp
  ultimately show ?thesis using unit_of_work_atomic [OF _ assms] by blast
qed

definition example_steps :: "nat list uow_step list" where
  "example_steps = [Write (\<lambda>db. Inr (1 # db)), Commit \<lparr>cf_cancelled = False, cf_fails = False\<rparr>, Write (\<lambda>db. Inr (2 # db)),
     Write (\<lambda>db. if 3 \<in> set db then Inr db else Inl ''IntegrityError'')]"

theorem unit_of_work_all_or_nothing_witness:
  "\<exists>s. unit_of_work ''mirror'' \<lparr>cf_cancelled = False, cf_fails = False\<rparr> example_steps [] = (Inl (Raised ''IntegrityError''), s)
    \<and> se_committed s = [1] \<and> \<not> se_open s"
proof -
  obtain s where s: "unit_of_work ''mirror'' \<lparr>cf_cancelled = False, cf_fails = False\<rparr> example_steps [] = (Inl (Raised ''IntegrityError''), s)"
    by (simp add: unit_of_work_def uow_exit_def uow_commit_def example_steps_def)
  have "last ([] # checkpoints example_steps \<lparr>se_working = [], se_committed = [], se_open = True\<rparr>) = [1]" by code_simp
  then show ?thesis using unit_of_work_all_or_nothing [OF s] s by simp
qed


section \<open>Repositories\<close>

record 'e table =
  tb_rows :: "(nat, 'e) dict"
  tb_next :: nat

datatype repository_error = EntityNotFoundError string nat | ImmutableEntityError string nat

definition repo_add :: "'e \<Rightarrow> 'e table \<Rightarrow> nat \<times> 'e table" where
  "repo_add e t = (tb_next t, t\<lparr>tb_rows := dict_set (tb_rows t) (tb_next t) e, tb_next := tb_next t + 1\<rparr>)"

definition repo_get_by_id :: "string \<Rightarrow> nat \<Rightarrow> 'e table \<Rightarrow> repository_error + 'e" where
  "repo_get_by_id entity_type i t = (case dict_get (tb_rows t) i of None \<Rightarrow> Inl (EntityNotFoundError entity_type i) | Some e \<Rightarrow> Inr e)"

definition repo_find :: "('e \<Rightarrow> bool) \<Rightarrow> 'e table \<Rightarrow> (nat \<times> 'e) list" where
  "repo_find matches t = filter (\<lambda>(i, e). matches e) (tb_rows t)"

text \<open>\<open>session.merge\<close>: an entity whose key is not stored is inserted.\<close>

definition repo_update :: "nat \<Rightarrow> 'e \<Rightarrow> 'e table \<Rightarrow> 'e table" where
  "repo_update i e t = t\<lparr>tb_rows := dict_set (tb_rows t) i e, tb_next := max (tb_next t) (i + 1)\<rparr>"

definition repo_delete :: "nat \<Rightarrow> 'e table \<Rightarrow> 'e table" where
  "repo_delete i t = t\<lparr>tb_rows := dict_pop (tb_rows t) i\<rparr>"

fun repo_batch_add :: "'e list \<Rightarrow> 'e table \<Rightarrow> nat list \<times> 'e table" where
  "repo_batch_add [] t = ([], t)"
| "repo_batch_add (e # es) t = (case repo_add e t of (i, t') \<Rightarrow> (case repo_batch_add es t' of (is', t'') \<Rightarrow> (i # is', t'')))"

record natural_package_key =
  pk_package_name :: string
  pk_version :: string
  pk_architecture :: string
  pk_filename :: string

definition get_by_natural_key :: "('e \<Rightarrow> natural_package_key) \<Rightarrow> natural_package_key \<Rightarrow> 'e table \<Rightarrow> 'e option" where
  "get_by_natural_key key_of k t = (case repo_find (\<lambda>e. key_of e = k) t of [] \<Rightarrow> None | (i, e) # _ \<Rightarrow> Some e)"

section \<open>Snapshots\<close>

record repository_snapshot =
  sn_repository_id :: nat
  sn_schema_version :: nat
  sn_captured_at :: string
  sn_published :: bool

definition snapshot_update :: "nat \<Rightarrow> repository_snapshot \<Rightarrow> repository_snapshot table \<Rightarrow> (repository_error + unit) \<times> repository_snapshot table" where
  "snapshot_update i e t = (case repo_get_by_id ''RepositorySnapshot'' i t of
     Inl err \<Rightarrow> (Inl err, t)
   | Inr existing \<Rightarrow> if sn_published existing then (Inl (ImmutableEntityError ''RepositorySnapshot'' i), t) else (Inr (), repo_update i e t))"

definition snapshot_delete :: "nat \<Rightarrow> repository_snapshot table \<Rightarrow> (repository_error + unit) \<times> repository_snapshot table" where
  "snapshot_delete i t = (case repo_get_by_id ''RepositorySnapshot'' i t of
     Inl err \<Rightarrow> (Inl err, t)
   | Inr existing \<Rightarrow> if sn_published existing then (Inl (ImmutableEntityError ''RepositorySnapshot'' i), t) else (Inr (), repo_delete i t))"

datatype publisher_event =
    MirrorSyncFailed string string string nat
  | SnapshotPublished nat string string nat nat

text \<open>The history of migrations: its table is missing, reading it raises something else, or its versions. The other errors of the
  publication: adding the row (a foreign key that is not there), the commit, and a handler of the event.\<close>

datatype history_read = No_History_Table | History_Error string | Versions "nat list"

record publisher_env =
  pe_history :: history_read
  pe_now :: string
  pe_isoformat :: string
  pe_flush :: "repository_snapshot \<Rightarrow> string option"
  pe_commit_error :: "string option"
  pe_handler_error :: "string option"

definition get_schema_version :: "history_read \<Rightarrow> string + nat" where
  "get_schema_version h = (case h of
     No_History_Table \<Rightarrow> Inr 0
   | History_Error e \<Rightarrow> Inl e
   | Versions vs \<Rightarrow> Inr (if vs = [] then 0 else Max (set vs)))"

definition publisher_publish :: "publisher_env \<Rightarrow> nat \<Rightarrow> nat \<Rightarrow> nat \<Rightarrow> repository_snapshot table \<Rightarrow>
    (string + nat option) \<times> publisher_event list \<times> repository_snapshot table" where
  "publisher_publish env repository_id verified failed t =
     (if verified = 0
      then (case pe_handler_error env of Some e \<Rightarrow> Inl e | None \<Rightarrow> Inr None,
            [MirrorSyncFailed [] [] ''No verified files available for snapshot'' failed], t)
      else case get_schema_version (pe_history env) of
        Inl e \<Rightarrow> (Inl e, [], t)
      | Inr v \<Rightarrow>
          (let snapshot = \<lparr>sn_repository_id = repository_id, sn_schema_version = v, sn_captured_at = pe_now env, sn_published = False\<rparr>
           in case pe_flush env snapshot of
             Some e \<Rightarrow> (Inl e, [], t)
           | None \<Rightarrow>
               (case repo_add snapshot t of (i, t1) \<Rightarrow>
                  (let published = snapshot\<lparr>sn_published := True\<rparr>; t2 = repo_update i published t1
                   in case pe_flush env published of
                     Some e \<Rightarrow> (Inl e, [], t)
                   | None \<Rightarrow> (case pe_commit_error env of
                       Some e \<Rightarrow> (Inl e, [], t)
                     | None \<Rightarrow> (case pe_handler_error env of Some e \<Rightarrow> Inl e | None \<Rightarrow> Inr (Some i),
                         [SnapshotPublished i [] (pe_isoformat env) verified failed], t2))))))"

text \<open>What happens to the table of snapshots: through the repository, and by publications.\<close>

datatype snapshot_op =
    Add_Snapshot repository_snapshot
  | Update_Snapshot nat repository_snapshot
  | Delete_Snapshot nat
  | Publish publisher_env nat nat nat

fun snapshot_step :: "repository_snapshot table \<Rightarrow> snapshot_op \<Rightarrow> repository_snapshot table" where
  "snapshot_step t (Add_Snapshot e) = snd (repo_add e t)"
| "snapshot_step t (Update_Snapshot i e) = snd (snapshot_update i e t)"
| "snapshot_step t (Delete_Snapshot i) = snd (snapshot_delete i t)"
| "snapshot_step t (Publish env r v f) = snd (snd (publisher_publish env r v f t))"

definition table_wf :: "'e table \<Rightarrow> bool" where
  "table_wf t \<longleftrightarrow> (\<forall>i \<in> set (map fst (tb_rows t)). i < tb_next t)"

lemma table_wf_fresh: "table_wf t \<Longrightarrow> dict_get (tb_rows t) (tb_next t) = None"
  by (auto simp: table_wf_def map_of_eq_None_iff)

lemma table_wf_ops:
  "table_wf t \<Longrightarrow> table_wf (snd (repo_add e t))" "table_wf t \<Longrightarrow> table_wf (repo_update i e t)" "table_wf t \<Longrightarrow> table_wf (repo_delete i t)"
  by (auto simp: table_wf_def repo_add_def repo_update_def repo_delete_def keys_dict_set dict_pop_def less_Suc_eq max_def
      split: if_splits)

lemma publisher_publish_table:
  assumes "publisher_publish env r v f t = (res, events, t')"
  shows "(t' = t \<and> (v = 0 \<or> (\<exists>e. res = Inl e) \<and> events = [])) \<or>
    (\<exists>s. v \<noteq> 0 \<and> get_schema_version (pe_history env) = Inr s \<and>
       t' = repo_update (tb_next t) \<lparr>sn_repository_id = r, sn_schema_version = s, sn_captured_at = pe_now env, sn_published = True\<rparr>
         (snd (repo_add \<lparr>sn_repository_id = r, sn_schema_version = s, sn_captured_at = pe_now env, sn_published = False\<rparr> t)) \<and>
       events = [SnapshotPublished (tb_next t) [] (pe_isoformat env) v f])"
  using assms by (auto simp: publisher_publish_def Let_def repo_add_def split: if_splits sum.splits option.splits)

lemma snapshot_step_keeps:
  assumes "table_wf t" and "dict_get (tb_rows t) i = Some e" and "sn_published e"
  shows "table_wf (snapshot_step t op) \<and> dict_get (tb_rows (snapshot_step t op)) i = Some e"
proof -
  have "tb_next t \<noteq> i" using table_wf_fresh [OF assms(1)] assms(2) by auto
  then show ?thesis
  proof (cases op)
    case (Publish env r v f)
    obtain res events t' where p: "publisher_publish env r v f t = (res, events, t')" by (metis prod_cases3)
    then show ?thesis using publisher_publish_table [OF p] Publish assms \<open>tb_next t \<noteq> i\<close>
      by (auto simp: table_wf_ops intro: table_wf_ops) (auto simp: repo_update_def repo_add_def)
  qed (use assms in \<open>auto simp: snapshot_update_def snapshot_delete_def repo_get_by_id_def repo_add_def repo_update_def
      repo_delete_def table_wf_ops [unfolded repo_add_def repo_update_def repo_delete_def, simplified] split: option.split\<close>)
qed



definition example_publisher :: "string option \<Rightarrow> publisher_env" where
  "example_publisher handler_error = \<lparr>pe_history = Versions [1, 2, 3], pe_now = ''t0'', pe_isoformat = ''2026-01-01T00:00:00'',
     pe_flush = (\<lambda>s. if sn_repository_id s = 7 then None else Some ''FOREIGN KEY constraint failed''),
     pe_commit_error = None, pe_handler_error = handler_error\<rparr>"

definition example_snapshots :: "repository_snapshot table" where
  "example_snapshots = snapshot_step \<lparr>tb_rows = [], tb_next = 1\<rparr> (Publish (example_publisher None) 7 12 0)"

definition example_snapshot :: repository_snapshot where
  "example_snapshot = \<lparr>sn_repository_id = 7, sn_schema_version = 3, sn_captured_at = ''t0'', sn_published = True\<rparr>"


text \<open>A handler of the event that raises makes the publication raise after its commit: the snapshot stays published.\<close>

lemma publication_error_after_commit:
  "publisher_publish (example_publisher (Some ''boom'')) 7 12 0 \<lparr>tb_rows = [], tb_next = 1\<rparr> =
     (Inl ''boom'', [SnapshotPublished 1 [] ''2026-01-01T00:00:00'' 12 0], \<lparr>tb_rows = [(1, example_snapshot)], tb_next = 2\<rparr>)"
  by code_simp

text \<open>An update of an entity that is not stored raises for snapshots, and inserts it for every other repository.\<close>

lemma update_of_missing:
  "dict_get (tb_rows t) i = None \<Longrightarrow> snapshot_update i e t = (Inl (EntityNotFoundError ''RepositorySnapshot'' i), t)"
  "dict_get (tb_rows t) i = None \<Longrightarrow> tb_rows (repo_update i e' t) = tb_rows t @ [(i, e')]"
  by (simp_all add: snapshot_update_def repo_get_by_id_def repo_update_def dict_set_new)

text \<open>A batch gets consecutive new keys, in its order.\<close>

lemma repo_batch_add_rows:
  "table_wf t \<Longrightarrow> repo_batch_add es t = (ks, t') \<Longrightarrow>
    ks = [tb_next t..<tb_next t + length es] \<and> tb_rows t' = tb_rows t @ zip ks es \<and> table_wf t'"
proof (induction es arbitrary: t ks t')
  case (Cons e es)
  obtain j js t1 where b: "repo_batch_add es (snd (repo_add e t)) = (js, t1)" "j = tb_next t" "ks = j # js" "t' = t1"
    using Cons.prems(2) by (auto simp: repo_add_def split: prod.splits)
  have "tb_rows (snd (repo_add e t)) = tb_rows t @ [(j, e)]"
    using table_wf_fresh [OF Cons.prems(1)] by (simp add: repo_add_def dict_set_new b(2))
  moreover have "tb_next (snd (repo_add e t)) = tb_next t + 1" by (simp add: repo_add_def)
  ultimately show ?case using Cons.IH [OF table_wf_ops(1) [OF Cons.prems(1)] b(1)] b by (simp add: upt_conv_Cons del: upt_Suc)
qed simp

end
