(* ===== verification/Storage.thy ===== *)
theory Storage
  imports Mirror_Engine Unit_Of_Work
begin

text \<open>
  The storage of the application (\<open>src/debcraft/infrastructure/storage\<close>): the directories of its purposes
  (\<open>paths.py\<close>), the initialization of the engine (\<open>engine.py\<close> over \<open>providers.py\<close>), and the provider of the databases
  (\<open>infrastructure/database/provider.py\<close>). Paths are POSIX paths; \<open>Path.expanduser\<close>, the answers of the file system, SHA-256
  and the outcome of commits are parameters.
\<close>

section \<open>Purposes and their directories\<close>

datatype storage_purpose = MIRROR | WORKSPACE | OUTPUTS | LOGS | CACHE | DATABASE | CONFIG

definition ALL_PURPOSES :: "storage_purpose list" where
  "ALL_PURPOSES = [MIRROR, WORKSPACE, OUTPUTS, LOGS, CACHE, DATABASE, CONFIG]"

fun purpose_name :: "storage_purpose \<Rightarrow> string" where
  "purpose_name MIRROR = ''mirror''"
| "purpose_name WORKSPACE = ''workspace''"
| "purpose_name OUTPUTS = ''outputs''"
| "purpose_name LOGS = ''logs''"
| "purpose_name CACHE = ''cache''"
| "purpose_name DATABASE = ''database''"
| "purpose_name CONFIG = ''config''"

definition path_under :: "string \<Rightarrow> string list \<Rightarrow> string" where
  "path_under base parts = foldl path_join base parts"

text \<open>\<open>Path(environ[name])\<close> when the variable has a text, or else the default.\<close>

definition env_dir :: "(string, string) dict \<Rightarrow> string \<Rightarrow> string \<Rightarrow> string" where
  "env_dir environ name dflt = (let v = dict_getd environ name [] in if v \<noteq> [] then path_of v else dflt)"

definition home_dir :: "(string \<Rightarrow> string) \<Rightarrow> (string, string) dict \<Rightarrow> string \<Rightarrow> string" where
  "home_dir expanduser environ name = expanduser (path_of (dict_getd environ name ''~''))"

definition resolve_linux :: "(string \<Rightarrow> string) \<Rightarrow> (string, string) dict \<Rightarrow> storage_purpose \<Rightarrow> string" where
  "resolve_linux expanduser environ purpose =
     (let home = home_dir expanduser environ ''HOME'' in
      if purpose \<in> {MIRROR, WORKSPACE, OUTPUTS, LOGS, CACHE}
      then path_under (env_dir environ ''XDG_CACHE_HOME'' (path_under home [''.cache''])) [''debcraft'', purpose_name purpose]
      else if purpose = DATABASE
      then path_under (env_dir environ ''XDG_DATA_HOME'' (path_under home [''.local'', ''share''])) [''debcraft'']
      else path_under (env_dir environ ''XDG_CONFIG_HOME'' (path_under home [''.config''])) [''debcraft''])"

definition resolve_darwin :: "(string \<Rightarrow> string) \<Rightarrow> (string, string) dict \<Rightarrow> storage_purpose \<Rightarrow> string" where
  "resolve_darwin expanduser environ purpose =
     (let home = home_dir expanduser environ ''HOME'' in
      if purpose \<in> {MIRROR, WORKSPACE, OUTPUTS, LOGS, CACHE}
      then path_under (env_dir environ ''XDG_CACHE_HOME'' (path_under home [''Library'', ''Caches''])) [''debcraft'', purpose_name purpose]
      else if purpose = DATABASE
      then path_under (env_dir environ ''XDG_DATA_HOME'' (path_under home [''Library'', ''Application Support''])) [''debcraft'']
      else path_under (env_dir environ ''XDG_CONFIG_HOME'' (path_under home [''Library'', ''Preferences''])) [''debcraft''])"

definition resolve_windows :: "(string \<Rightarrow> string) \<Rightarrow> (string, string) dict \<Rightarrow> storage_purpose \<Rightarrow> string" where
  "resolve_windows expanduser environ purpose =
     (let home = home_dir expanduser environ ''USERPROFILE'';
          local = env_dir environ ''LOCALAPPDATA'' (path_under home [''AppData'', ''Local'']);
          roaming = env_dir environ ''APPDATA'' (path_under home [''AppData'', ''Roaming'']) in
      if purpose \<in> {MIRROR, WORKSPACE, OUTPUTS, LOGS, CACHE}
      then path_under (env_dir environ ''XDG_CACHE_HOME'' local) [''debcraft'', ''cache'', purpose_name purpose]
      else if purpose = DATABASE then path_under (env_dir environ ''XDG_DATA_HOME'' roaming) [''debcraft'']
      else path_under (env_dir environ ''XDG_CONFIG_HOME'' roaming) [''debcraft'', ''config''])"

definition resolve_xdg_path :: "(string \<Rightarrow> string) \<Rightarrow> (string, string) dict \<Rightarrow> string \<Rightarrow> storage_purpose \<Rightarrow> string" where
  "resolve_xdg_path expanduser environ platform purpose =
     (if platform = ''darwin'' then resolve_darwin expanduser environ purpose
      else if platform = ''win32'' then resolve_windows expanduser environ purpose
      else resolve_linux expanduser environ purpose)"

definition get_path :: "(storage_purpose \<Rightarrow> string) \<Rightarrow> storage_purpose \<Rightarrow> string \<Rightarrow> string" where
  "get_path resolve purpose relative = (if relative \<noteq> [] then path_join (resolve purpose) relative else resolve purpose)"

section \<open>Databases\<close>

definition VALID_DB_NAMES :: "string list" where "VALID_DB_NAMES = [''mirror'', ''metadata'', ''cache'']"

fun contains :: "string \<Rightarrow> string \<Rightarrow> bool" where
  "contains sub s = (startswith s sub \<or> (case s of [] \<Rightarrow> False | _ # t \<Rightarrow> contains sub t))"

datatype failure_type = Corruption | Not_Found | Permission_Denied

definition classify_operational_error :: "string \<Rightarrow> failure_type" where
  "classify_operational_error text = (let msg = py_lower text in
     if contains ''disk i/o error'' msg \<or> contains ''database disk image is malformed'' msg then Corruption
     else if contains ''unable to open'' msg \<or> contains ''enoent'' msg \<or> contains ''no such file'' msg then Not_Found
     else if contains ''eacces'' msg \<or> contains ''eperm'' msg \<or> contains ''permission denied'' msg \<or> contains ''readonly'' msg
     then Permission_Denied
     else Corruption)"

datatype provider_error = Unrecognized string | DatabaseConnectionError string failure_type | Timeout

text \<open>The engines that the provider has made. Making one may raise \<open>OperationalError\<close> with a text.\<close>

type_synonym provider = "string list"

definition get_or_create_engine :: "(string \<Rightarrow> string option) \<Rightarrow> string \<Rightarrow> provider \<Rightarrow> (string + unit) \<times> provider" where
  "get_or_create_engine create db_name pv =
     (if db_name \<in> set pv then (Inr (), pv)
      else case create db_name of Some e \<Rightarrow> (Inl e, pv) | None \<Rightarrow> (Inr (), pv @ [db_name]))"

definition get_session :: "(string \<Rightarrow> string option) \<Rightarrow> string \<Rightarrow> provider \<Rightarrow> (provider_error + unit) \<times> provider" where
  "get_session create db_name pv =
     (if db_name \<notin> set VALID_DB_NAMES then (Inl (Unrecognized db_name), pv)
      else case get_or_create_engine create db_name pv of
        (Inl text, pv) \<Rightarrow> (Inl (DatabaseConnectionError db_name (classify_operational_error text)), pv)
      | (Inr _, pv) \<Rightarrow> (Inr (), pv))"

definition dispose :: "bool \<Rightarrow> provider \<Rightarrow> (provider_error + unit) \<times> provider" where
  "dispose in_time pv = (if in_time then Inr () else Inl Timeout, [])"

fun health_loop :: "(string \<Rightarrow> string option) \<Rightarrow> (string \<Rightarrow> bool) \<Rightarrow> string list \<Rightarrow> provider \<Rightarrow> (string \<times> bool) list \<times> provider" where
  "health_loop create alive [] pv = ([], pv)"
| "health_loop create alive (db_name # names) pv =
     (case get_or_create_engine create db_name pv of
        (Inl _, pv) \<Rightarrow> (case health_loop create alive names pv of (results, pv) \<Rightarrow> ((db_name, False) # results, pv))
      | (Inr _, pv) \<Rightarrow> (case health_loop create alive names pv of (results, pv) \<Rightarrow> ((db_name, alive db_name) # results, pv)))"

definition health_check :: "(string \<Rightarrow> string option) \<Rightarrow> (string \<Rightarrow> bool) \<Rightarrow> provider \<Rightarrow> (string \<times> bool) list \<times> provider" where
  "health_check create alive pv = health_loop create alive VALID_DB_NAMES pv"

lemma get_session_engines:
  "set pv \<subseteq> set VALID_DB_NAMES \<Longrightarrow> distinct pv \<Longrightarrow>
    set (snd (get_session create db_name pv)) \<subseteq> set VALID_DB_NAMES \<and> distinct (snd (get_session create db_name pv))"
  by (auto simp: get_session_def get_or_create_engine_def split: option.split)

lemma health_check_names: "map fst (fst (health_check create alive pv)) = VALID_DB_NAMES"
proof -
  have "map fst (fst (health_loop create alive names pv)) = names" for names pv
    by (induction names arbitrary: pv) (auto simp: split_beta split: sum.split)
  then show ?thesis by (simp add: health_check_def)
qed


section \<open>The initialization of the engine\<close>

text \<open>What the file system answers, and the digests and commits. \<open>sv_create\<close>, \<open>sv_remove\<close>: the text of the \<open>OSError\<close>.\<close>

record storage_env =
  sv_path :: "storage_purpose \<Rightarrow> string"
  sv_create :: "string \<Rightarrow> string option"
  sv_remove :: "string \<Rightarrow> string option"
  sv_writable :: "string \<Rightarrow> bool"
  sv_has_databases :: bool
  sv_recover_commit :: commit_fate
  sv_verify_commit :: commit_fate
  sv_cache_commit :: "string option"
  sv_sha256 :: "string \<Rightarrow> string"
  sv_readable :: "string \<Rightarrow> bool"
  sv_deletable :: "string \<Rightarrow> bool"

text \<open>The directories made, the names in the workspace, the files below the mirror's directory in the order of the walk, the
  tables of the databases (of the cache: the flag \<open>valid\<close> of the rows of its three tables), the event bus.\<close>

record storage_state =
  st_dirs :: "string list"
  st_workspace :: "string list"
  st_mirror :: "(string, string) dict"
  st_table :: file_table
  st_cache :: "bool list"
  st_events :: "string list"

datatype storage_error = Cannot_Create string string | Not_Writable string | Os_Error string | Unit_Of_Work uow_error | Database_Error string

fun create_directories :: "storage_env \<Rightarrow> string list \<Rightarrow> storage_state \<Rightarrow> (storage_error + unit) \<times> storage_state" where
  "create_directories env [] st = (Inr (), st)"
| "create_directories env (path # paths) st = (case sv_create env path of
     Some e \<Rightarrow> (Inl (Cannot_Create path e), st)
   | None \<Rightarrow> create_directories env paths (st\<lparr>st_dirs := st_dirs st @ [path]\<rparr>))"

fun remove_matches :: "storage_env \<Rightarrow> string list \<Rightarrow> storage_state \<Rightarrow> (storage_error + unit) \<times> storage_state" where
  "remove_matches env [] st = (Inr (), st)"
| "remove_matches env (name # names) st = (case sv_remove env name of
     Some e \<Rightarrow> (Inl (Os_Error e), st)
   | None \<Rightarrow> remove_matches env names (st\<lparr>st_workspace := filter (\<lambda>n. n \<noteq> name) (st_workspace st)\<rparr>))"

definition remove_matching :: "storage_env \<Rightarrow> (string \<Rightarrow> bool) \<Rightarrow> storage_state \<Rightarrow> (storage_error + unit) \<times> storage_state" where
  "remove_matching env matches st = remove_matches env (filter matches (st_workspace st)) st"

fun check_writable_all :: "storage_env \<Rightarrow> string list \<Rightarrow> storage_error + unit" where
  "check_writable_all env [] = Inr ()"
| "check_writable_all env (path # paths) = (if sv_writable env path then check_writable_all env paths else Inl (Not_Writable path))"

definition MAX_DOWNLOAD_RETRIES :: nat where "MAX_DOWNLOAD_RETRIES = 3"

definition recover_entry :: "repo_file \<Rightarrow> repo_file" where
  "recover_entry e = (if rf_state e = DOWNLOADING
     then if rf_retry_count e < MAX_DOWNLOAD_RETRIES
       then e\<lparr>rf_state := QUEUED, rf_retry_count := rf_retry_count e + 1\<rparr> else e\<lparr>rf_state := FAILED\<rparr>
     else e)"

definition recover_table :: "file_table \<Rightarrow> file_table" where
  "recover_table t = map (\<lambda>(url, e). (url, recover_entry e)) t"

definition recover_interrupted_downloads :: "storage_env \<Rightarrow> storage_state \<Rightarrow> (storage_error + unit) \<times> storage_state" where
  "recover_interrupted_downloads env st =
     (if \<not> sv_has_databases env then (Inr (), st)
      else case unit_of_work ''mirror'' (sv_recover_commit env) [Write (\<lambda>t. Inr (recover_table t))] (st_table st) of
        (r, s) \<Rightarrow> (map_sum Unit_Of_Work id r, st\<lparr>st_table := se_committed s\<rparr>))"

text \<open>The row of a file: the first whose \<open>local_path\<close> is its path. \<open>corrupted\<close>: the file is read and its digest differs.\<close>

definition entry_of_path :: "file_table \<Rightarrow> string \<Rightarrow> repo_file option" where
  "entry_of_path t path = map_option snd (List.find (\<lambda>(url, e). rf_local_path e = Some path) t)"

definition corrupted :: "storage_env \<Rightarrow> file_table \<Rightarrow> string \<times> string \<Rightarrow> bool" where
  "corrupted env t = (\<lambda>(path, content). sv_readable env path \<and>
     (case entry_of_path t path of None \<Rightarrow> False | Some e \<Rightarrow> rf_sha256 e \<noteq> sv_sha256 env content))"

fun verify_files :: "storage_env \<Rightarrow> (string \<times> string) list \<Rightarrow> nat \<Rightarrow> storage_state \<Rightarrow> nat \<times> storage_state" where
  "verify_files env [] mismatched st = (mismatched, st)"
| "verify_files env ((path, content) # files) mismatched st =
     (if corrupted env (st_table st) (path, content)
      then verify_files env files (mismatched + 1)
        (if sv_deletable env path then st\<lparr>st_mirror := dict_pop (st_mirror st) path\<rparr> else st)
      else verify_files env files mismatched st)"

definition invalidate_cache_entries :: "storage_env \<Rightarrow> storage_state \<Rightarrow> (storage_error + unit) \<times> storage_state" where
  "invalidate_cache_entries env st = (case sv_cache_commit env of
     Some e \<Rightarrow> (Inl (Database_Error e), st)
   | None \<Rightarrow> (Inr (), st\<lparr>st_cache := map (\<lambda>_. False) (st_cache st)\<rparr>))"

definition verify_cache_integrity :: "storage_env \<Rightarrow> storage_state \<Rightarrow> (storage_error + unit) \<times> storage_state" where
  "verify_cache_integrity env st =
     (if \<not> sv_has_databases env \<or> st_mirror st = [] then (Inr (), st)
      else case verify_files env (st_mirror st) 0 st of
        (mismatched, st) \<Rightarrow> (case unit_of_work ''mirror'' (sv_verify_commit env) [] (st_table st) of
           (Inl e, _) \<Rightarrow> (Inl (Unit_Of_Work e), st)
         | (Inr _, _) \<Rightarrow> if mismatched > 0 then invalidate_cache_entries env st else (Inr (), st)))"

definition initialize :: "storage_env \<Rightarrow> storage_state \<Rightarrow> (storage_error + unit) \<times> storage_state" where
  "initialize env st =
     and_then (create_directories env (map (sv_path env) ALL_PURPOSES) st) (\<lambda>_ st.
     and_then (remove_matching env (\<lambda>n. endswith n ''.tmp'') st) (\<lambda>_ st.
     and_then (remove_matching env (\<lambda>n. startswith n ''tmp_'') st) (\<lambda>_ st.
     and_then (check_writable_all env (map (sv_path env) ALL_PURPOSES), st) (\<lambda>_ st.
     and_then (recover_interrupted_downloads env st) (\<lambda>_ st.
     and_then (verify_cache_integrity env st) (\<lambda>_ st.
       (Inr (), st\<lparr>st_events := st_events st @ [''storage.initialized'']\<rparr>)))))))"

text \<open>\<open>shutdown\<close>, and the use of the engine as a context: whether the event is published within the time.\<close>

definition shutdown :: "bool \<Rightarrow> storage_state \<Rightarrow> (unit + unit) \<times> storage_state" where
  "shutdown in_time st = (if in_time then (Inr (), st\<lparr>st_events := st_events st @ [''storage.shutdown'']\<rparr>) else (Inl (), st))"

section \<open>What the initialization does\<close>

lemma create_directories_Inr:
  "create_directories env paths st = (Inr (), st') \<longleftrightarrow> (\<forall>p \<in> set paths. sv_create env p = None) \<and> st' = st\<lparr>st_dirs := st_dirs st @ paths\<rparr>"
  by (induction env paths st rule: create_directories.induct) (auto split: option.splits)

lemma remove_matches_Inr:
  "remove_matches env names st = (Inr (), st') \<longleftrightarrow> (\<forall>n \<in> set names. sv_remove env n = None) \<and>
     st' = st\<lparr>st_workspace := filter (\<lambda>n. n \<notin> set names) (st_workspace st)\<rparr>"
  by (induction env names st rule: remove_matches.induct) (auto split: option.splits simp: conj_commute)

lemma remove_matching_Inr:
  "remove_matching env matches st = (Inr (), st') \<longleftrightarrow> (\<forall>n \<in> set (st_workspace st). matches n \<longrightarrow> sv_remove env n = None) \<and>
     st' = st\<lparr>st_workspace := filter (\<lambda>n. \<not> matches n) (st_workspace st)\<rparr>"
proof -
  have "filter (\<lambda>n. n \<notin> set (filter matches ws)) ws = filter (\<lambda>n. \<not> matches n) ws" for ws by (rule filter_cong) auto
  then show ?thesis by (auto simp: remove_matching_def remove_matches_Inr)
qed

lemma check_writable_Inr: "check_writable_all env paths = Inr () \<longleftrightarrow> (\<forall>p \<in> set paths. sv_writable env p)"
  by (induction paths) auto

lemma recover_Inr:
  "recover_interrupted_downloads env st = (Inr (), st') \<longleftrightarrow>
     (if sv_has_databases env
      then \<not> cf_cancelled (sv_recover_commit env) \<and> \<not> cf_fails (sv_recover_commit env) \<and> st' = st\<lparr>st_table := recover_table (st_table st)\<rparr>
      else st' = st)"
  by (auto simp: recover_interrupted_downloads_def unit_of_work_def uow_exit_def uow_commit_def session_rollback_def)

lemma recover_entry_idem: "recover_entry (recover_entry e) = recover_entry e"
  by (simp add: recover_entry_def)

lemma recover_entry_fixed: "rf_local_path (recover_entry e) = rf_local_path e" "rf_sha256 (recover_entry e) = rf_sha256 e"
  "rf_state (recover_entry e) \<noteq> DOWNLOADING" "rf_state e \<noteq> DOWNLOADING \<Longrightarrow> recover_entry e = e"
  by (simp_all add: recover_entry_def)

lemma recover_table_idem: "recover_table (recover_table t) = recover_table t"
  by (auto simp: recover_table_def recover_entry_idem)

lemma dict_get_recover: "dict_get (recover_table t) url = map_option recover_entry (dict_get t url)"
  by (induction t) (auto simp: recover_table_def)

lemma entry_of_path_recover: "entry_of_path (recover_table t) path = map_option recover_entry (entry_of_path t path)"
  by (induction t) (auto simp: recover_table_def entry_of_path_def recover_entry_fixed)

lemma corrupted_recover: "corrupted env (recover_table t) = corrupted env t"
  by (auto simp: corrupted_def entry_of_path_recover recover_entry_fixed fun_eq_iff split: option.split)

definition removed :: "storage_env \<Rightarrow> file_table \<Rightarrow> string \<times> string \<Rightarrow> bool" where
  "removed env t f \<longleftrightarrow> corrupted env t f \<and> sv_deletable env (fst f)"

lemma verify_files_result:
  "verify_files env files n st = (n + length (filter (corrupted env (st_table st)) files),
     st\<lparr>st_mirror := filter (\<lambda>f. fst f \<notin> fst ` set (filter (removed env (st_table st)) files)) (st_mirror st)\<rparr>)"
proof (induction env files n st rule: verify_files.induct)
  case (2 env path content files n st)
  then show ?case
    by (auto simp: removed_def dict_pop_def filter_filter intro!: arg_cong [where f = "\<lambda>m. st\<lparr>st_mirror := m\<rparr>"] filter_cong)
qed simp

lemma verify_mirror:
  assumes "distinct (map fst (st_mirror st))"
  shows "verify_files env (st_mirror st) 0 st = (length (filter (corrupted env (st_table st)) (st_mirror st)),
     st\<lparr>st_mirror := filter (\<lambda>f. \<not> removed env (st_table st) f) (st_mirror st)\<rparr>)"
proof -
  have "fst f \<in> fst ` set (filter (removed env (st_table st)) (st_mirror st)) \<longleftrightarrow> removed env (st_table st) f" if "f \<in> set (st_mirror st)" for f
    using assms that by (auto simp: distinct_map dest: inj_onD intro: rev_image_eqI)
  then show ?thesis by (simp add: verify_files_result cong: filter_cong)
qed

text \<open>The mirror and the cache after the verification.\<close>

definition verified_state :: "storage_env \<Rightarrow> storage_state \<Rightarrow> storage_state" where
  "verified_state env st =
     (if \<not> sv_has_databases env then st
      else st\<lparr>st_mirror := filter (\<lambda>f. \<not> removed env (st_table st) f) (st_mirror st),
           st_cache := (if filter (corrupted env (st_table st)) (st_mirror st) = [] then st_cache st else map (\<lambda>_. False) (st_cache st))\<rparr>)"

lemma verify_cache_integrity_Inr:
  assumes "distinct (map fst (st_mirror st))"
  shows "verify_cache_integrity env st = (Inr (), st') \<longleftrightarrow>
    (sv_has_databases env \<longrightarrow> st_mirror st \<noteq> [] \<longrightarrow> \<not> cf_cancelled (sv_verify_commit env) \<and> \<not> cf_fails (sv_verify_commit env)) \<and>
    (sv_has_databases env \<longrightarrow> filter (corrupted env (st_table st)) (st_mirror st) \<noteq> [] \<longrightarrow> sv_cache_commit env = None) \<and>
    st' = verified_state env st"
  unfolding verify_cache_integrity_def verify_mirror [OF assms]
  by (auto simp: unit_of_work_def uow_exit_def uow_commit_def session_rollback_def invalidate_cache_entries_def
      verified_state_def split: option.split)

definition initialized_state :: "storage_env \<Rightarrow> storage_state \<Rightarrow> storage_state" where
  "initialized_state env st =
     (let st = st\<lparr>st_dirs := st_dirs st @ map (sv_path env) ALL_PURPOSES,
          st_workspace := filter (\<lambda>n. \<not> endswith n ''.tmp'' \<and> \<not> startswith n ''tmp_'') (st_workspace st)\<rparr>;
          st = (if sv_has_databases env then st\<lparr>st_table := recover_table (st_table st)\<rparr> else st);
          st = verified_state env st
      in st\<lparr>st_events := st_events st @ [''storage.initialized'']\<rparr>)"

text \<open>When the initialization goes through.\<close>

definition ready :: "storage_env \<Rightarrow> storage_state \<Rightarrow> bool" where
  "ready env st \<longleftrightarrow> (\<forall>p \<in> set (map (sv_path env) ALL_PURPOSES). sv_create env p = None \<and> sv_writable env p)
     \<and> (\<forall>n \<in> set (st_workspace st). endswith n ''.tmp'' \<or> startswith n ''tmp_'' \<longrightarrow> sv_remove env n = None)
     \<and> (sv_has_databases env \<longrightarrow> \<not> cf_cancelled (sv_recover_commit env) \<and> \<not> cf_fails (sv_recover_commit env)
         \<and> (st_mirror st \<noteq> [] \<longrightarrow> \<not> cf_cancelled (sv_verify_commit env) \<and> \<not> cf_fails (sv_verify_commit env))
         \<and> (filter (corrupted env (st_table st)) (st_mirror st) \<noteq> [] \<longrightarrow> sv_cache_commit env = None))"

lemma initialize_Inr:
  assumes "distinct (map fst (st_mirror st))"
  shows "initialize env st = (Inr (), st') \<longleftrightarrow> ready env st \<and> st' = initialized_state env st"
  using assms
  by (auto simp: initialize_def and_then_Inr create_directories_Inr remove_matching_Inr check_writable_Inr recover_Inr
      verify_cache_integrity_Inr initialized_state_def ready_def Let_def corrupted_recover filter_filter conj_commute
      split: if_splits)


lemma initialized_again:
  assumes "ready env st" and "distinct (map fst (st_mirror st))"
  shows "initialize env (initialized_state env st) = (Inr (), (initialized_state env st)
    \<lparr>st_dirs := st_dirs (initialized_state env st) @ map (sv_path env) ALL_PURPOSES,
     st_events := st_events (initialized_state env st) @ [''storage.initialized'']\<rparr>)"
proof -
  let ?s = "initialized_state env st"
  have mirror: "st_mirror ?s = (if sv_has_databases env then filter (\<lambda>f. \<not> removed env (st_table st) f) (st_mirror st) else st_mirror st)"
    and table: "st_table ?s = (if sv_has_databases env then recover_table (st_table st) else st_table st)"
    and workspace: "st_workspace ?s = filter (\<lambda>n. \<not> endswith n ''.tmp'' \<and> \<not> startswith n ''tmp_'') (st_workspace st)"
    and cache: "st_cache ?s = (if sv_has_databases env \<and> filter (corrupted env (st_table st)) (st_mirror st) \<noteq> []
      then map (\<lambda>_. False) (st_cache st) else st_cache st)"
    by (auto simp: initialized_state_def Let_def verified_state_def removed_def corrupted_recover)
  have d: "distinct (map fst (st_mirror ?s))" by (simp add: mirror assms(2) distinct_map_filter)
  have same: "corrupted env (st_table ?s) = corrupted env (st_table st)" "removed env (st_table ?s) = removed env (st_table st)"
    by (simp_all add: table removed_def fun_eq_iff corrupted_recover)
  have sub: "set (filter (corrupted env (st_table st)) (st_mirror ?s)) \<subseteq> set (filter (corrupted env (st_table st)) (st_mirror st))"
    by (auto simp: mirror)
  have "ready env ?s"
    using assms(1) sub unfolding ready_def same
    by (auto simp: mirror workspace filter_empty_conv)
  moreover have w: "?s\<lparr>st_dirs := ds, st_workspace := filter (\<lambda>n. \<not> endswith n ''.tmp'' \<and> \<not> startswith n ''tmp_'') (st_workspace ?s)\<rparr> = ?s\<lparr>st_dirs := ds\<rparr>" for ds
    by (rule storage_state.equality) (simp_all add: workspace)
  moreover have t: "?s\<lparr>st_dirs := ds, st_table := recover_table (st_table ?s)\<rparr> = ?s\<lparr>st_dirs := ds\<rparr>" if "sv_has_databases env" for ds
    using that by (intro storage_state.equality) (simp_all add: table recover_table_idem)
  moreover have "verified_state env (?s\<lparr>st_dirs := ds\<rparr>) = ?s\<lparr>st_dirs := ds\<rparr>" for ds
  proof -
    have "sv_has_databases env \<Longrightarrow> filter (\<lambda>f. \<not> removed env (st_table st) f) (st_mirror ?s) = st_mirror ?s" by (simp add: mirror)
    moreover have "sv_has_databases env \<Longrightarrow> filter (corrupted env (st_table st)) (st_mirror ?s) \<noteq> [] \<Longrightarrow> map (\<lambda>_. False) (st_cache ?s) = st_cache ?s"
      using sub by (simp add: cache) (metis set_empty set_filter subset_empty)
    ultimately show ?thesis
      unfolding verified_state_def by (intro storage_state.equality) (auto simp: same)
  qed
  ultimately show ?thesis
    unfolding initialize_Inr [OF d] initialized_state_def [of env ?s] Let_def by (cases "sv_has_databases env") (simp_all add: w t)
qed

text \<open>Property C36. A successful initialization with databases leaves no download in progress: such a row is queued again with one
  more retry, or failed after three, and every other row is as it was. Below the mirror's directory exactly the files are gone that
  were read, could be deleted, and whose digest was not that of their row; when some file's digest was wrong, every row of the cache
  is invalid, and otherwise the cache is untouched. To initialize again changes nothing more.\<close>

theorem initialize_recovers:
  assumes "initialize env st = (Inr (), st')" and "distinct (map fst (st_mirror st))" and "sv_has_databases env"
  shows "(\<forall>url. dict_get (st_table st') url = map_option recover_entry (dict_get (st_table st) url))
    \<and> (\<forall>(url, e) \<in> set (st_table st'). rf_state e \<noteq> DOWNLOADING)
    \<and> (\<forall>(path, content) \<in> set (st_mirror st). (path, content) \<notin> set (st_mirror st') \<longleftrightarrow>
        sv_readable env path \<and> sv_deletable env path \<and> (\<exists>e. entry_of_path (st_table st) path = Some e \<and> rf_sha256 e \<noteq> sv_sha256 env content))
    \<and> set (st_mirror st') \<subseteq> set (st_mirror st)
    \<and> st_cache st' = (if \<exists>f \<in> set (st_mirror st). corrupted env (st_table st) f then map (\<lambda>_. False) (st_cache st) else st_cache st)
    \<and> initialize env st' = (Inr (), st'\<lparr>st_dirs := st_dirs st' @ map (sv_path env) ALL_PURPOSES,
        st_events := st_events st' @ [''storage.initialized'']\<rparr>)"
proof -
  have r: "ready env st" and st': "st' = initialized_state env st" using assms(1) initialize_Inr [OF assms(2)] by auto
  have parts: "st_table st' = recover_table (st_table st)" "st_mirror st' = filter (\<lambda>f. \<not> removed env (st_table st) f) (st_mirror st)"
    "st_cache st' = (if filter (corrupted env (st_table st)) (st_mirror st) = [] then st_cache st else map (\<lambda>_. False) (st_cache st))"
    by (simp_all add: st' initialized_state_def Let_def verified_state_def assms(3) corrupted_recover removed_def)
  have "\<forall>(url, e) \<in> set (st_table st'). rf_state e \<noteq> DOWNLOADING"
    by (auto simp: parts recover_table_def recover_entry_fixed)
  moreover have "\<forall>(path, content) \<in> set (st_mirror st). (path, content) \<notin> set (st_mirror st') \<longleftrightarrow>
      sv_readable env path \<and> sv_deletable env path \<and> (\<exists>e. entry_of_path (st_table st) path = Some e \<and> rf_sha256 e \<noteq> sv_sha256 env content)"
    by (auto simp: parts removed_def corrupted_def split: option.splits)
  moreover have "st_cache st' = (if \<exists>f \<in> set (st_mirror st). corrupted env (st_table st) f then map (\<lambda>_. False) (st_cache st) else st_cache st)"
    by (auto simp: parts filter_empty_conv)
  ultimately show ?thesis
    using initialized_again [OF r assms(2)] by (auto simp: parts(1,2) dict_get_recover st' [symmetric])
qed

definition example_storage_env :: storage_env where
  "example_storage_env = \<lparr>sv_path = resolve_xdg_path (\<lambda>p. p) [(''HOME'', ''/home/u'')] ''linux'', sv_create = (\<lambda>_. None),
     sv_remove = (\<lambda>_. None), sv_writable = (\<lambda>_. True), sv_has_databases = True,
     sv_recover_commit = \<lparr>cf_cancelled = False, cf_fails = False\<rparr>, sv_verify_commit = \<lparr>cf_cancelled = False, cf_fails = False\<rparr>,
     sv_cache_commit = None, sv_sha256 = (\<lambda>c. ''sha:'' @ c), sv_readable = (\<lambda>_. True), sv_deletable = (\<lambda>_. True)\<rparr>"

definition example_entry :: "file_state \<Rightarrow> nat \<Rightarrow> string \<Rightarrow> string \<Rightarrow> repo_file" where
  "example_entry s n digest path = \<lparr>rf_sha256 = digest, rf_size = 1, rf_state = s, rf_retry_count = n, rf_local_path = Some path,
     rf_etag = None, rf_last_modified = None\<rparr>"

definition example_storage :: storage_state where
  "example_storage = \<lparr>st_dirs = [], st_workspace = [''a.tmp'', ''keep'', ''tmp_x''],
     st_mirror = [(''/m/a.deb'', ''good''), (''/m/b.deb'', ''bad''), (''/m/c.deb'', ''new'')],
     st_table = [(''u/a.deb'', example_entry VERIFIED 0 ''sha:good'' ''/m/a.deb''), (''u/b.deb'', example_entry VERIFIED 0 ''sha:b'' ''/m/b.deb''),
       (''u/d.deb'', example_entry DOWNLOADING 2 ''sha:d'' ''/m/d.deb''), (''u/e.deb'', example_entry DOWNLOADING 3 ''sha:e'' ''/m/e.deb'')],
     st_cache = [True, True], st_events = []\<rparr>"

lemma example_initialized:
  "(let st = snd (initialize example_storage_env example_storage) in
     (map (rf_state \<circ> snd) (st_table st), map fst (st_mirror st), st_cache st, st_workspace st)) =
   ([VERIFIED, VERIFIED, QUEUED, FAILED], [''/m/a.deb'', ''/m/c.deb''], [False, False], [''keep''])"
  "fst (initialize example_storage_env example_storage) = Inr ()"
  by code_simp+

theorem initialize_recovers_witness:
  "let st' = snd (initialize example_storage_env example_storage) in
     (\<forall>(url, e) \<in> set (st_table st'). rf_state e \<noteq> DOWNLOADING) \<and> fst (initialize example_storage_env st') = Inr ()"
proof -
  obtain st' where i: "initialize example_storage_env example_storage = (Inr (), st')"
    using example_initialized(2) by (cases "initialize example_storage_env example_storage") auto
  have "distinct (map fst (st_mirror example_storage))" "sv_has_databases example_storage_env" by code_simp+
  from initialize_recovers [OF i this] show ?thesis by (simp add: i)
qed

text \<open>A file that the verification removed is not fetched again: its row stays verified, and the comparator skips what has a
  verified row with the remote digest.\<close>

lemma removed_file_is_skipped:
  assumes "initialize env st = (Inr (), st')" and "distinct (map fst (st_mirror st))" and "sv_has_databases env"
    and "dict_get (st_table st) (rstrip_slash (rc_base_url config) @ ''/'' @ fe_path entry) = Some e"
    and "rf_state e = VERIFIED" and "rf_sha256 e = fe_sha256 entry"
  shows "map sd_action (compute_sync_decisions [entry] (get_artifact_checksums (st_table st') config [entry])) = [Skip]"
proof -
  have "st_table st' = recover_table (st_table st)"
    using assms(1-3) initialize_Inr [OF assms(2)] by (auto simp: initialized_state_def Let_def verified_state_def)
  then have "dict_get (st_table st') (rstrip_slash (rc_base_url config) @ ''/'' @ fe_path entry) = Some e"
    using assms(4,5) by (simp add: dict_get_recover recover_entry_fixed)
  then show ?thesis using assms(5,6) by (simp add: get_artifact_checksums_def compute_sync_decisions_map decide_def)
qed

text \<open>A directory variable that is not absolute gives a directory that is not absolute.\<close>

lemma relative_directory:
  "resolve_xdg_path (\<lambda>p. p) [(''HOME'', ''/home/u''), (''XDG_CACHE_HOME'', ''cache'')] ''linux'' MIRROR = ''cache/debcraft/mirror''"
  "resolve_xdg_path (\<lambda>p. p) [(''HOME'', ''/home/u'')] ''linux'' MIRROR = ''/home/u/.cache/debcraft/mirror''"
  by code_simp+

text \<open>When the session of the verification cannot be committed, the files are gone and the cache is still valid.\<close>

lemma verify_commit_failure:
  assumes "sv_has_databases env" "st_mirror st \<noteq> []" "distinct (map fst (st_mirror st))" "cf_fails (sv_verify_commit env)"
    "\<not> cf_cancelled (sv_verify_commit env)"
  shows "\<exists>e. verify_cache_integrity env st = (Inl e, st\<lparr>st_mirror := filter (\<lambda>f. \<not> removed env (st_table st) f) (st_mirror st)\<rparr>)"
  using assms by (simp add: verify_cache_integrity_def verify_mirror unit_of_work_def uow_exit_def uow_commit_def)

end
