(* ===== verification/Mirror_Cli.thy ===== *)
theory Mirror_Cli
  imports Cli_Output Mirror_Workflow Storage
begin

text \<open>
  The commands \<open>debcraft mirror\<close> (\<open>src/debcraft/cli/mirror.py\<close>, with \<open>_formatting.py\<close> and \<open>_storage.py\<close>): what they
  print, their exit codes and what they change. The token of the commands is never cancelled and their event bus drops the
  events. The walk of the cache directory, what can be deleted and the answer to the prompt are parameters.
\<close>

section \<open>\<open>sync\<close>\<close>

fun run_sync :: "world \<Rightarrow> (nat \<Rightarrow> string) \<Rightarrow> nat \<Rightarrow> repository_config list \<Rightarrow> sync_result \<Rightarrow> engine \<Rightarrow>
    (engine_error + sync_result) \<times> engine" where
  "run_sync w uuid n [] totals en = (Inr totals, en)"
| "run_sync w uuid n (repo # repos) totals en = (case sync_repository w repo (uuid n) en of
     (Inl e, en) \<Rightarrow> (Inl e, en)
   | (Inr r, en) \<Rightarrow> run_sync w uuid (n + 1) repos (add_results totals r) en)"

definition is_mirror_error :: "engine_error \<Rightarrow> bool" where
  "is_mirror_error e = (case e of Download_Raised (RuntimeError _) \<Rightarrow> False | Download_Raised _ \<Rightarrow> True | _ \<Rightarrow> False)"

fun affected_url :: "download_error \<Rightarrow> string option" where
  "affected_url (HttpRateLimitError url status r) = Some url"
| "affected_url (HttpClientError url status r) = Some url"
| "affected_url (HttpServerError url status r) = Some url"
| "affected_url (NetworkError url message r) = Some url"
| "affected_url (ChecksumMismatchError url expected actual r) = Some url"
| "affected_url (SizeMismatchError url expected actual r) = Some url"
| "affected_url _ = None"

fun engine_error_str :: "string \<Rightarrow> engine_error \<Rightarrow> string" where
  "engine_error_str url_message (Download_Raised e) = error_str e"
| "engine_error_str url_message (Read_Raised message) = message"
| "engine_error_str url_message Url_Raised = url_message"

definition sync_failure :: "string \<Rightarrow> engine_error \<Rightarrow> printed list" where
  "sync_failure url_message e =
     (if is_mirror_error e
      then [Line (concat [[LF], ''[red]Sync failed:[/red] '', engine_error_str url_message e])]
        @ (case e of Download_Raised d \<Rightarrow> (case affected_url d of
             Some url \<Rightarrow> [Line (concat [''[dim]  Affected URL: '', url, ''[/dim]''])] | None \<Rightarrow> []) | _ \<Rightarrow> [])
        @ [Line ''[dim]Suggested fix: Check network connectivity and repository availability.[/dim]'']
      else [Line (concat [[LF], ''[red]Unexpected error during sync:[/red] '', engine_error_str url_message e]),
            Line ''[dim]Suggested fix: Run with --verbose for more details or check logs.[/dim]''])"

definition sync_summary :: "sync_result \<Rightarrow> printed" where
  "sync_summary r = Table ''Mirror Sync Summary''
     [[''Files downloaded'', nat_str (sr_downloaded r)], [''Files skipped'', nat_str (sr_skipped r)],
      [''Files failed'', nat_str (sr_failed r)], [''Bytes transferred'', format_bytes (nat (sr_bytes r))]]"

definition sync_command :: "world \<Rightarrow> (nat \<Rightarrow> string) \<Rightarrow> string \<Rightarrow> config_error + mirror_config \<Rightarrow> engine \<Rightarrow> cli_result \<times> engine" where
  "sync_command w uuid url_message cfg en = (case cfg of
     Inl e \<Rightarrow> (config_failure [''[dim]Suggested fix: Check your mirrors.toml file for syntax errors.[/dim]''] e, en)
   | Inr config \<Rightarrow>
       (if mc_repositories config = []
        then ((Exit 1, [Line ''[red]Error:[/red] No repositories configured.'',
               Line ''[dim]Add repository entries to your mirrors.toml configuration file.[/dim]'']), en)
        else
          (let repos = mc_repositories config;
               start = Line (concat [''Syncing '', nat_str (length repos), '' repository(ies): '', join '', '' (map rc_name repos)])
           in case run_sync w uuid 0 repos zero_result en of
                (Inl e, en) \<Rightarrow> ((Exit 1, start # sync_failure url_message e), en)
              | (Inr r, en) \<Rightarrow>
                  ((Exit 0, [start, Line [], sync_summary r]
                      @ (if sr_failed r > 0
                         then [Line (concat [[LF], ''[yellow]Warning:[/yellow] '', nat_str (sr_failed r), '' file(s) failed to sync.''])] else [])
                      @ [Line (concat [[LF], ''[green]Sync completed successfully.[/green]''])]), en))))"

section \<open>\<open>verify\<close>\<close>

text \<open>The rows that hold a file: \<open>None\<close> when \<open>mirror.db\<close> does not exist.\<close>

definition cached_state :: "repo_file \<Rightarrow> bool" where "cached_state e \<longleftrightarrow> rf_state e \<in> {VERIFIED, INDEXED}"

definition verified_files :: "file_table \<Rightarrow> (string \<times> string) list" where
  "verified_files t = List.map_filter (\<lambda>(url, e). if cached_state e then map_option (\<lambda>p. (p, rf_sha256 e)) (rf_local_path e) else None) t"

definition verify_checksums :: "(string \<Rightarrow> string) \<Rightarrow> (string \<Rightarrow> bool) \<Rightarrow> fs \<Rightarrow> (string \<times> string) list \<Rightarrow>
    nat \<times> string list \<times> (string \<times> string \<times> string) list" where
  "verify_checksums sha256 readable files file_data =
     foldl (\<lambda>(checked, missing, mismatches) (path, expected).
       case files path of
         None \<Rightarrow> (checked, missing @ [path], mismatches)
       | Some content \<Rightarrow>
           if \<not> readable path then (checked + 1, missing, mismatches @ [(path, expected, ''<unreadable>'')])
           else if sha256 content \<noteq> expected then (checked + 1, missing, mismatches @ [(path, expected, sha256 content)])
           else (checked + 1, missing, mismatches)) (0, [], []) file_data"

definition mismatch_lines :: "string \<times> string \<times> string \<Rightarrow> string list" where
  "mismatch_lines m = (case m of (path, expected, actual) \<Rightarrow>
     [concat [''  [red]x[/red] '', path], concat [''    expected: '', expected], concat [''    actual:   '', actual]])"

definition display_verification_results :: "nat \<Rightarrow> string list \<Rightarrow> (string \<times> string \<times> string) list \<Rightarrow> cli_result" where
  "display_verification_results checked missing mismatches =
     (let counts = [[], concat [''Files checked: [bold]'', nat_str checked, ''[/bold]'']]
            @ (if missing \<noteq> [] then [concat [''Files missing: [yellow]'', nat_str (length missing), ''[/yellow]'']] else [])
            @ [concat [''Mismatches:    [bold]'', nat_str (length mismatches), ''[/bold]''], []]
      in if mismatches \<noteq> []
         then (Exit 1, map Line (counts @ [''[red]FAIL[/red] - Checksum mismatches detected:'' @ [LF]] @ concat (map mismatch_lines mismatches) @ [[]]))
         else (Exit 0, map Line (counts @ [''[green]PASS[/green] - All cached files match stored checksums.''])))"

definition verify_command :: "(string \<Rightarrow> string) \<Rightarrow> (string \<Rightarrow> bool) \<Rightarrow> file_table option \<Rightarrow> fs \<Rightarrow> cli_result" where
  "verify_command sha256 readable db files = (case db of
     None \<Rightarrow> (Exit 1, [Line ''[red]Error:[/red] Mirror database not found. No repositories have been synced.''])
   | Some t \<Rightarrow>
       (if verified_files t = [] then (Exit 0, [Line ''[yellow]No verified files found in mirror database.[/yellow]''])
        else case verify_checksums sha256 readable files (verified_files t) of
          (checked, missing, mismatches) \<Rightarrow> display_verification_results checked missing mismatches))"

section \<open>\<open>status\<close> and \<open>list\<close>\<close>

text \<open>The statistics of a readable database: its two tables may be missing. The times of the sessions are texts whose order is
  that of the column.\<close>

record mirror_stats =
  ms_cached_files :: nat
  ms_failed_files :: nat
  ms_cache_size_bytes :: int
  ms_last_sync :: string

definition no_stats :: mirror_stats where
  "no_stats = \<lparr>ms_cached_files = 0, ms_failed_files = 0, ms_cache_size_bytes = 0, ms_last_sync = ''never''\<rparr>"

definition gather_mirror_stats :: "(string list \<Rightarrow> string) \<Rightarrow> (file_table option \<times> string option list option) option \<Rightarrow> mirror_stats" where
  "gather_mirror_stats latest db = (case db of None \<Rightarrow> no_stats
   | Some (repository_files, sync_sessions) \<Rightarrow>
       (let stats = (case repository_files of None \<Rightarrow> no_stats
            | Some t \<Rightarrow> no_stats\<lparr>ms_cached_files := length (filter (cached_state \<circ> snd) t),
                ms_failed_files := length (filter (\<lambda>(url, e). rf_state e = FAILED) t),
                ms_cache_size_bytes := sum_list (map (rf_size \<circ> snd) (filter (cached_state \<circ> snd) t))\<rparr>)
        in case sync_sessions of None \<Rightarrow> stats
           | Some completed \<Rightarrow>
               (case List.map_filter id completed of [] \<Rightarrow> stats | t # ts \<Rightarrow> stats\<lparr>ms_last_sync := latest (t # ts)\<rparr>)))"

definition status_command :: "config_error + mirror_config \<Rightarrow> mirror_stats \<Rightarrow> cli_result" where
  "status_command cfg stats = (case cfg of
     Inl e \<Rightarrow> (Escaped (config_error_str e), [])
   | Inr config \<Rightarrow> (Exit 0, [Table ''Mirror Status''
       [[''Configured repositories'', nat_str (length (mc_repositories config))], [''Last sync'', ms_last_sync stats],
        [''Cached files'', nat_str (ms_cached_files stats)], [''Failed files'', nat_str (ms_failed_files stats)],
        [''Cache size'', format_bytes (nat (ms_cache_size_bytes stats))]]]))"

definition list_command :: "config_error + mirror_config \<Rightarrow> cli_result" where
  "list_command cfg = (case cfg of
     Inl e \<Rightarrow> (Escaped (config_error_str e), [])
   | Inr config \<Rightarrow> (Exit 0, [Table ''Configured Repositories'' (map (\<lambda>r.
       [rc_name r, rc_base_url r, join '', '' (rc_suites r), join '', '' (rc_components r), join '', '' (rc_architectures r)])
       (mc_repositories config))]))"

section \<open>\<open>clean\<close>\<close>

text \<open>\<open>cl_walk\<close>: the regular files below the cache directory, in the order of the walk. Deleting or reading the size of some may fail.\<close>

record clean_env =
  cl_walk :: "string list"
  cl_deletable :: "string \<Rightarrow> bool"
  cl_stat_fails :: "string \<Rightarrow> bool"
  cl_yes :: bool
  cl_confirmed :: bool

definition scan_mirror_cache :: "clean_env \<Rightarrow> string list" where
  "scan_mirror_cache env = filter (\<lambda>p. path_suffix p \<noteq> ''.part'') (cl_walk env)"

definition referenced_paths :: "file_table option \<Rightarrow> string set" where
  "referenced_paths db = (case db of None \<Rightarrow> {}
   | Some t \<Rightarrow> set (List.map_filter (\<lambda>(url, e). if cached_state e then rf_local_path e else None) t))"

definition safe_file_size :: "clean_env \<Rightarrow> fs \<Rightarrow> string \<Rightarrow> nat" where
  "safe_file_size env files path =
     (if cl_stat_fails env path then 0 else case files path of None \<Rightarrow> 0 | Some content \<Rightarrow> length content)"

fun remove_files :: "clean_env \<Rightarrow> string list \<Rightarrow> nat \<Rightarrow> fs \<Rightarrow> nat \<times> fs" where
  "remove_files env [] reclaimed files = (reclaimed, files)"
| "remove_files env (path # paths) reclaimed files =
     (if cl_stat_fails env path \<or> \<not> cl_deletable env path then remove_files env paths reclaimed files
      else remove_files env paths (reclaimed + (case files path of None \<Rightarrow> 0 | Some content \<Rightarrow> length content)) (files(path := None)))"

definition clean_command :: "clean_env \<Rightarrow> config_error + mirror_config \<Rightarrow> file_table option \<Rightarrow> fs \<Rightarrow> cli_result \<times> fs" where
  "clean_command env cfg db files = (case cfg of
     Inl e \<Rightarrow> (config_failure [] e, files)
   | Inr config \<Rightarrow>
       (if mc_repositories config = []
        then ((Exit 1, [Line ''[red]Error:[/red] No repositories configured.'',
               Line ''[dim]Add repository entries to your mirrors.toml configuration file.[/dim]'']), files)
        else
          (let unreferenced = filter (\<lambda>f. f \<notin> referenced_paths db) (scan_mirror_cache env);
               n = nat_str (length unreferenced);
               total = sum_list (map (safe_file_size env files) unreferenced);
               found = Line (concat [''Found [bold]'', n, ''[/bold] unreferenced file(s) totaling [bold]'', format_bytes total, ''[/bold]''])
           in if unreferenced = [] then ((Exit 0, [Line ''[green]Cache is clean[/green]'']), files)
              else if \<not> cl_yes env \<and> \<not> cl_confirmed env then ((Exit 0, [found, Line ''[yellow]Aborted.[/yellow]'']), files)
              else case remove_files env unreferenced 0 files of
                (reclaimed, files) \<Rightarrow>
                  ((Exit 0, [found, Line (concat [''[green]Removed '', n, '' file(s), reclaimed '', format_bytes reclaimed, ''[/green]''])]), files))))"


section \<open>Synchronization\<close>

lemma is_cancelled_Nil: "en_cancel en = [] \<Longrightarrow> is_cancelled en = (False, en)"
  by (simp add: is_cancelled_def)

lemma sync_single_suite_polls:
  assumes "en_cancel en = []"
  shows "en_cancel (snd (sync_single_suite w config suite en)) = []"
proof -
  obtain r en1 where r: "stage_release w config suite en = (r, en1)" by fastforce
  have c1: "en_cancel en1 = []" using stage_release_polls [OF r] assms by simp
  show ?thesis
  proof (cases "\<exists>release. r = Inr (Some release)")
    case True
    then obtain release where release: "r = Inr (Some release)" by blast
    obtain i en2 where i: "stage_indexes w config suite release en1 = (i, en2)" by fastforce
    have c2: "en_cancel en2 = []" using stage_indexes_polls [OF i] c1 by simp
    show ?thesis
    proof (cases i)
      case (Inl e)
      then show ?thesis using r release i c2 is_cancelled_Nil [OF c1] by (simp add: sync_single_suite_def)
    next
      case (Inr entries)
      obtain a en3 where a: "stage_artifacts w config entries en2 = (a, en3)" by fastforce
      have c3: "en_cancel en3 = []" using stage_artifacts_polls [OF a] c2 by simp
      show ?thesis
        using r release i Inr a c3 is_cancelled_Nil [OF c1] is_cancelled_Nil [OF c2] is_cancelled_Nil [OF c3]
        by (cases a) (simp_all add: sync_single_suite_def stage_publish_polls case_unit_any)
    qed
  qed (use r c1 in \<open>auto simp: sync_single_suite_def split: sum.split option.split\<close>)
qed

lemma sync_repository_polls:
  assumes "en_cancel en = []"
  shows "en_cancel (snd (sync_repository w config session en)) = []"
proof -
  have "en_cancel en = [] \<Longrightarrow> en_cancel (snd (suites_loop w config suites en)) = []" for suites en
  proof (induction suites arbitrary: en)
    case (Cons suite suites)
    obtain r en1 where r: "sync_single_suite w config suite en = (r, en1)" by fastforce
    have "en_cancel en1 = []" using sync_single_suite_polls [OF Cons.prems] r by (metis snd_conv)
    then show ?case using Cons.IH by (simp add: is_cancelled_Nil [OF Cons.prems] r split: sum.split bool.split)
  qed simp
  note loop = this [of "en\<lparr>en_result := zero_result, en_table := resume_interrupted_downloads (en_table en)\<rparr>" "rc_suites config"]
  obtain r en1 where r: "suites_loop w config (rc_suites config)
      (en\<lparr>en_result := zero_result, en_table := resume_interrupted_downloads (en_table en)\<rparr>) = (r, en1)" by fastforce
  then have "en_cancel en1 = []" using loop assms by simp
  then show ?thesis by (cases r) (simp_all add: sync_repository_def Let_def r is_cancelled_Nil case_unit_any)
qed

lemma sync_all_failed_grow:
  "\<exists>l. mr_failed_repositories (sync_all_repositories w uuid n repos run) = mr_failed_repositories run @ l"
proof (induction repos arbitrary: n run)
  case (Cons repo repos)
  obtain c en where c: "is_cancelled (mr_engine run) = (c, en)" by fastforce
  have one: "\<exists>l. mr_failed_repositories (sync_one w (uuid n) repo (run\<lparr>mr_engine := en\<rparr>)) = mr_failed_repositories run @ l"
    by (auto simp: sync_one_def Let_def split: prod.split sum.split)
  show ?case
  proof (cases c)
    case False
    then show ?thesis using c one Cons.IH [of "n + 1" "sync_one w (uuid n) repo (run\<lparr>mr_engine := en\<rparr>)"] by auto
  qed (simp add: c)
qed simp

lemma run_sync_workflow:
  assumes "en_cancel (mr_engine run) = []"
  shows "case run_sync w uuid n repos (mr_totals run) (mr_engine run) of
      (Inr totals, en) \<Rightarrow> mr_engine (sync_all_repositories w uuid n repos run) = en \<and> en_cancel en = []
        \<and> mr_totals (sync_all_repositories w uuid n repos run) = totals
        \<and> mr_failed_repositories (sync_all_repositories w uuid n repos run) = mr_failed_repositories run
    | (Inl e, en) \<Rightarrow> mr_failed_repositories (sync_all_repositories w uuid n repos run) \<noteq> mr_failed_repositories run"
  using assms
proof (induction repos arbitrary: n run)
  case (Cons repo repos)
  obtain r en where r: "sync_repository w repo (uuid n) (mr_engine run) = (r, en)" by fastforce
  have polls: "en_cancel en = []" using sync_repository_polls [OF Cons.prems] r by (metis snd_conv)
  have same: "run\<lparr>mr_engine := mr_engine run\<rparr> = run" by simp
  let ?next = "sync_one w (uuid n) repo run"
  have step: "sync_all_repositories w uuid n (repo # repos) run = sync_all_repositories w uuid (n + 1) repos ?next"
    by (simp add: is_cancelled_Nil [OF Cons.prems])
  show ?case
  proof (cases r)
    case (Inl e)
    have "mr_failed_repositories ?next = mr_failed_repositories run @ [rc_name repo]" by (simp add: sync_one_def Let_def r Inl)
    then have "mr_failed_repositories (sync_all_repositories w uuid n (repo # repos) run) \<noteq> mr_failed_repositories run"
      using sync_all_failed_grow [of w uuid "n + 1" repos ?next] unfolding step by auto
    then show ?thesis by (simp add: r Inl)
  next
    case (Inr res)
    have next_run: "mr_engine ?next = en" "mr_totals ?next = add_results (mr_totals run) res"
      "mr_failed_repositories ?next = mr_failed_repositories run"
      by (simp_all add: sync_one_def Let_def r Inr)
    have "en_cancel (mr_engine ?next) = []" by (simp add: next_run polls)
    from Cons.IH [OF this, of "n + 1"] show ?thesis unfolding step next_run by (simp add: r Inr)
  qed
qed simp



definition example_mirror_config :: mirror_config where
  "example_mirror_config = DEFAULT_CONFIG\<lparr>mc_repositories := [example_config]\<rparr>"


section \<open>Verification and cleaning\<close>

definition bad_file :: "(string \<Rightarrow> string) \<Rightarrow> (string \<Rightarrow> bool) \<Rightarrow> fs \<Rightarrow> string \<times> string \<Rightarrow> bool" where
  "bad_file sha256 readable files = (\<lambda>(path, expected). case files path of None \<Rightarrow> False
     | Some content \<Rightarrow> \<not> readable path \<or> sha256 content \<noteq> expected)"

lemma verify_checksums_eq:
  "verify_checksums sha256 readable files l =
    (length (filter (\<lambda>(path, _). files path \<noteq> None) l), map fst (filter (\<lambda>(path, _). files path = None) l),
     map (\<lambda>(path, expected). (path, expected, if readable path then sha256 (the (files path)) else ''<unreadable>''))
       (filter (bad_file sha256 readable files) l))"
  by (induction l rule: rev_induct) (auto simp: verify_checksums_def bad_file_def split: option.split)

lemma verify_end:
  "fst (verify_command sha256 readable (Some t) files) =
     (if \<exists>f \<in> set (verified_files t). bad_file sha256 readable files f then Exit 1 else Exit 0)"
  by (auto simp: verify_command_def verify_checksums_eq display_verification_results_def Let_def filter_empty_conv)

text \<open>A cache that has lost every file passes the verification.\<close>

lemma missing_files_pass: "fst (verify_command sha256 readable (Some t) (\<lambda>_. None)) = Exit 0"
  by (auto simp: verify_end bad_file_def)

lemma verified_referenced: "(p, d) \<in> set (verified_files t) \<Longrightarrow> p \<in> referenced_paths (Some t)"
  by (force simp: verified_files_def referenced_paths_def List.map_filter_def split: if_splits)

lemma verify_command_cong:
  assumes "\<And>p. p \<in> referenced_paths db \<Longrightarrow> files' p = files p"
  shows "verify_command sha256 readable db files' = verify_command sha256 readable db files"
proof (cases db)
  case (Some t)
  have "verify_checksums sha256 readable files' l = verify_checksums sha256 readable files l" if "set l \<subseteq> set (verified_files t)" for l
    using that
  proof (induction l rule: rev_induct)
    case (snoc f l)
    obtain p d where f: "f = (p, d)" by force
    then have "files' p = files p" using snoc.prems assms verified_referenced unfolding Some by auto
    then show ?case using snoc by (simp add: verify_checksums_def f split: prod.split option.split)
  qed (simp add: verify_checksums_def)
  then show ?thesis by (simp add: verify_command_def Some)
qed (simp add: verify_command_def)

lemma remove_files_result:
  "snd (remove_files env paths n files) = (\<lambda>p. if p \<in> set paths \<and> \<not> cl_stat_fails env p \<and> cl_deletable env p then None else files p)"
  by (induction env paths n files rule: remove_files.induct) (auto simp: fun_upd_def intro!: ext)

text \<open>What a run of \<open>clean\<close> may delete.\<close>

definition cleanable :: "clean_env \<Rightarrow> file_table option \<Rightarrow> string \<Rightarrow> bool" where
  "cleanable env db p \<longleftrightarrow> p \<in> set (cl_walk env) \<and> path_suffix p \<noteq> ''.part'' \<and> p \<notin> referenced_paths db
     \<and> \<not> cl_stat_fails env p \<and> cl_deletable env p"

lemma clean_command_files:
  assumes "clean_command env (Inr config) db files = (r, files')" and "mc_repositories config \<noteq> []"
  shows "files' = (\<lambda>p. if cleanable env db p \<and> (cl_yes env \<or> cl_confirmed env) then None else files p) \<and> fst r = Exit 0"
proof (cases "filter (\<lambda>f. f \<notin> referenced_paths db) (scan_mirror_cache env) = [] \<or> \<not> cl_yes env \<and> \<not> cl_confirmed env")
  case True
  then show ?thesis
    using assms by (auto simp: clean_command_def Let_def cleanable_def scan_mirror_cache_def filter_empty_conv fun_eq_iff split: if_splits)
next
  case False
  obtain n fs' where r: "remove_files env (filter (\<lambda>f. f \<notin> referenced_paths db) (scan_mirror_cache env)) 0 files = (n, fs')" by fastforce
  have "fs' = snd (remove_files env (filter (\<lambda>f. f \<notin> referenced_paths db) (scan_mirror_cache env)) 0 files)" by (simp add: r)
  also have "\<dots> = (\<lambda>p. if cleanable env db p then None else files p)"
    unfolding remove_files_result by (auto simp: cleanable_def scan_mirror_cache_def intro!: ext)
  finally have "fs' = (\<lambda>p. if cleanable env db p then None else files p)" .
  then show ?thesis using assms False by (auto simp: clean_command_def Let_def r)
qed

text \<open>Property C38. \<open>mirror clean\<close> deletes only files below the cache directory that no verified or indexed row of the
  database names and that are no partial downloads, and none without consent; with consent it deletes all of those it can. It
  changes nothing else, so that \<open>mirror verify\<close> gives the same result before and after, whatever the digests are; and a second run
  over what is left deletes nothing.\<close>

theorem clean_keeps_referenced:
  assumes "clean_command env cfg db files = (r, files')"
  shows "(\<forall>p. files' p \<noteq> files p \<longrightarrow> files' p = None \<and> cleanable env db p \<and> (cl_yes env \<or> cl_confirmed env))
    \<and> (fst r = Exit 0 \<and> (cl_yes env \<or> cl_confirmed env) \<longrightarrow> (\<forall>p. cleanable env db p \<longrightarrow> files' p = None))
    \<and> verify_command sha256 readable db files' = verify_command sha256 readable db files
    \<and> snd (clean_command env cfg db files') = files'"
proof (cases "\<exists>config. cfg = Inr config \<and> mc_repositories config \<noteq> []")
  case True
  then obtain config where config: "cfg = Inr config" "mc_repositories config \<noteq> []" by blast
  from clean_command_files [OF assms [unfolded config] config(2)]
  have files': "files' = (\<lambda>p. if cleanable env db p \<and> (cl_yes env \<or> cl_confirmed env) then None else files p)" "fst r = Exit 0"
    by auto
  obtain r2 files2 where again: "clean_command env cfg db files' = (r2, files2)" by fastforce
  from clean_command_files [OF again [unfolded config] config(2)] have "files2 = files'" by (auto simp: files'(1))
  moreover have "verify_command sha256 readable db files' = verify_command sha256 readable db files"
    by (rule verify_command_cong) (simp add: files'(1) cleanable_def)
  ultimately show ?thesis using again by (auto simp: files')
next
  case False
  then have "files' = files" "fst r \<noteq> Exit 0" "snd (clean_command env cfg db files) = files"
    using assms by (auto simp: clean_command_def config_failure_def split: sum.splits config_error.splits)
  then show ?thesis by simp
qed

definition example_clean :: clean_env where
  "example_clean = \<lparr>cl_walk = [''/m/a.deb'', ''/m/old.deb'', ''/m/b.deb.part''], cl_deletable = (\<lambda>_. True), cl_stat_fails = (\<lambda>_. False),
     cl_yes = True, cl_confirmed = False\<rparr>"

definition example_mirror_files :: fs where
  "example_mirror_files = [''/m/a.deb'' \<mapsto> ''good'', ''/m/old.deb'' \<mapsto> ''older'', ''/m/b.deb.part'' \<mapsto> ''par'']"

lemma example_cleaned:
  "(case clean_command example_clean (Inr example_mirror_config) (Some (st_table example_storage)) example_mirror_files of
     ((end_state, printed), files) \<Rightarrow> (end_state, last printed, map files (cl_walk example_clean))) =
   (Exit 0, Line ''[green]Removed 1 file(s), reclaimed 5 B[/green]'', [Some ''good'', None, Some ''par''])"
  by code_simp

theorem clean_keeps_referenced_witness:
  "\<exists>r files'. clean_command example_clean (Inr example_mirror_config) (Some (st_table example_storage)) example_mirror_files = (r, files')
    \<and> files' ''/m/old.deb'' = None \<and> files' ''/m/a.deb'' = Some ''good''
    \<and> fst (verify_command (\<lambda>c. ''sha:'' @ c) (\<lambda>_. True) (Some (st_table example_storage)) files') = Exit 0"
proof -
  obtain r files' where r: "clean_command example_clean (Inr example_mirror_config) (Some (st_table example_storage)) example_mirror_files = (r, files')"
    by fastforce
  then have "files' ''/m/old.deb'' = None" "files' ''/m/a.deb'' = Some ''good''"
    using example_cleaned by (auto simp: example_clean_def split: prod.splits)
  moreover have "fst (verify_command (\<lambda>c. ''sha:'' @ c) (\<lambda>_. True) (Some (st_table example_storage)) example_mirror_files) = Exit 0"
    by code_simp
  ultimately show ?thesis
    using r clean_keeps_referenced [OF r, of "\<lambda>c. ''sha:'' @ c" "\<lambda>_. True"] by auto
qed

text \<open>The number of removed files that is printed counts those that could not be deleted; without a database everything is
  unreferenced; and just below a unit the size is rounded up to it.\<close>

lemma removed_count_overstated:
  "(case clean_command (example_clean\<lparr>cl_deletable := \<lambda>_. False\<rparr>) (Inr example_mirror_config) (Some (st_table example_storage)) example_mirror_files of
     ((end_state, printed), files) \<Rightarrow> (end_state, last printed, files ''/m/old.deb'')) =
   (Exit 0, Line ''[green]Removed 1 file(s), reclaimed 0 B[/green]'', Some ''older'')"
  by code_simp

lemma clean_without_database: "cleanable env None p \<longleftrightarrow> p \<in> set (cl_walk env) \<and> path_suffix p \<noteq> ''.part'' \<and> \<not> cl_stat_fails env p \<and> cl_deletable env p"
  by (auto simp: cleanable_def referenced_paths_def)

lemma size_rounded_up: "map format_bytes [1023, 1024, 1536, 1048575, 1048576] = [''1023 B'', ''1.0 KiB'', ''1.5 KiB'', ''1024.0 KiB'', ''1.0 MiB'']"
  by (simp add: format_bytes_def one_decimal_def round_half_even_def Let_def nat_str.simps digit_char_def) code_simp

text \<open>A synchronization in which files failed still ends with exit code 0.\<close>

lemma failures_exit_zero:
  assumes "run_sync w uuid 0 (mc_repositories config) zero_result en = (Inr r, en')" and "mc_repositories config \<noteq> []" and "sr_failed r > 0"
  shows "\<exists>printed. sync_command w uuid m (Inr config) en = ((Exit 0, printed), en') \<and>
    last printed = Line (LF # ''[green]Sync completed successfully.[/green]'')"
  using assms by (simp add: sync_command_def Let_def)

text \<open>An invalid configuration is reported by \<open>sync\<close> and \<open>clean\<close>, and escapes from \<open>status\<close> and \<open>list\<close>.\<close>

lemma configuration_error_escapes:
  "fst (fst (sync_command w uuid m (Inl (Mirror_Configuration_Error msg n)) en)) = Exit 1"
  "status_command (Inl (Mirror_Configuration_Error msg n)) stats = (Escaped msg, [])"
  "list_command (Inl (Mirror_Configuration_Error msg n)) = (Escaped msg, [])"
  by (simp_all add: sync_command_def status_command_def list_command_def config_failure_def)

end
