(* ===== verification/Configuration.thy ===== *)
theory Configuration
  imports Mirror_Config
begin

text \<open>
  \<open>src/debcraft/platform/kernel/configuration.py\<close>: the layered configuration service. The TOML parser, the reading and
  writing of floats, and the conversion of an integer to a float are parameters; two section types are the same class
  when they have the same name. A level is compared in upper case: below code point 256 only the ASCII letters matter for
  the four levels.
\<close>

section \<open>Errors, sources and sections\<close>

datatype python_error = TypeError | ValueError | AttributeError | OverflowError | UnicodeDecodeError

text \<open>\<open>Validation\<close> carries the field, the value that was refused and the reason.\<close>

datatype config_exn =
    Syntax string string
  | Validation string "toml option" string
  | Python_Exception python_error string

text \<open>A file of a source: \<open>is_file()\<close> is false, reading it raises \<open>OSError\<close>, it is not UTF-8, or it has a text.\<close>

datatype config_file = Absent | Unreadable | Undecodable | Contents string

record conversions =
  cv_read_float :: "string \<Rightarrow> py_float option"
  cv_float_of_int :: "int \<Rightarrow> py_float option"
  cv_str :: "toml \<Rightarrow> string"

record config_world =
  cw_user_path :: string
  cw_user_file :: config_file
  cw_project_path :: string
  cw_project_file :: config_file
  cw_environ :: "(string, string) dict"
  cw_toml :: "string \<Rightarrow> string + (string \<times> toml) list"

record logging_config =
  lc_level :: string
  lc_format :: string

record execution_config =
  ec_max_concurrency :: int
  ec_retry_count :: int
  ec_retry_backoff_seconds :: py_float
  ec_timeout_seconds :: py_float
  ec_fail_fast :: bool

datatype 'p section_instance = Logging logging_config | Execution execution_config | Plugin 'p

datatype 'p field_value = Plain toml | Nested "'p section_instance"

text \<open>A section type: its name, its fields with their types as \<open>dataclasses.fields\<close> gives them (a string under postponed
  evaluation of annotations), and its constructor with \<open>__post_init__\<close>.\<close>

datatype builtin_type = Str_Type | Int_Type | Float_Type | Bool_Type | Other_Type

datatype 'p section_type =
  Section_Type (st_name: string) (st_fields: "(string \<times> 'p field_type) list")
    (st_make: "(string, 'p field_value) dict \<Rightarrow> config_exn + 'p section_instance")
and 'p field_type = Annotation string | Builtin builtin_type | Dataclass "'p section_type"

section \<open>Sources\<close>

fun deep_merge :: "(string \<times> toml) list \<Rightarrow> (string \<times> toml) list \<Rightarrow> (string \<times> toml) list" where
  "deep_merge result [] = result"
| "deep_merge result ((key, value) # override) =
     deep_merge (dict_set result key
       (case dict_get result key of
          Some (TTable old) \<Rightarrow> (case value of TTable new \<Rightarrow> TTable (deep_merge old new) | _ \<Rightarrow> value)
        | _ \<Rightarrow> value)) override"

definition coerce_env_value :: "(string \<Rightarrow> py_float option) \<Rightarrow> string \<Rightarrow> toml" where
  "coerce_env_value read_float v =
     (if py_lower v = ''true'' then TBool True
      else if py_lower v = ''false'' then TBool False
      else case py_int v of Some i \<Rightarrow> TInt i
      | None \<Rightarrow> (case read_float v of Some x \<Rightarrow> TFloat x | None \<Rightarrow> TStr v))"

text \<open>\<open>s.split("__")\<close>.\<close>

fun split_double :: "string \<Rightarrow> string list" where
  "split_double [] = [[]]"
| "split_double (c # s) =
     (if c = CHR ''_'' \<and> s \<noteq> [] \<and> hd s = CHR ''_'' then [] # split_double (tl s)
      else (case split_double s of [] \<Rightarrow> [[c]] | w # ws \<Rightarrow> (c # w) # ws))"

definition env_step :: "(string \<Rightarrow> py_float option) \<Rightarrow> (string \<times> toml) list \<Rightarrow> string \<times> string \<Rightarrow> (string \<times> toml) list" where
  "env_step read_float result entry = (case entry of (env_key, env_value) \<Rightarrow>
     if \<not> startswith env_key ''DEBCRAFT_'' then result
     else (case split_double (drop 9 env_key) of
       [s, k] \<Rightarrow>
         (let sec = py_lower s; key = py_lower k; value = coerce_env_value read_float env_value;
              table = (case dict_get result sec of Some (TTable t) \<Rightarrow> t | _ \<Rightarrow> [])
          in dict_set result sec (TTable (dict_set table key value)))
     | _ \<Rightarrow> result))"

definition parse_env_vars :: "(string \<Rightarrow> py_float option) \<Rightarrow> (string, string) dict \<Rightarrow> (string \<times> toml) list" where
  "parse_env_vars read_float environ = foldl (env_step read_float) [] environ"

definition load_toml_file :: "(string \<Rightarrow> string + (string \<times> toml) list) \<Rightarrow> string \<Rightarrow> config_file \<Rightarrow> config_exn + (string \<times> toml) list" where
  "load_toml_file loads path contents = (case contents of
     Contents s \<Rightarrow> (case loads s of Inl detail \<Rightarrow> Inl (Syntax path detail) | Inr data \<Rightarrow> Inr data)
   | Undecodable \<Rightarrow> Inl (Python_Exception UnicodeDecodeError [])
   | _ \<Rightarrow> Inr [])"

section \<open>Values of fields\<close>

definition coerce_bool :: "string \<Rightarrow> toml \<Rightarrow> config_exn + toml" where
  "coerce_bool path v = (let refuse = Inl (Validation path (Some v) ''must be a boolean value'') in
     case v of
       TBool b \<Rightarrow> Inr v
     | TStr s \<Rightarrow> (if py_lower s = ''true'' then Inr (TBool True) else if py_lower s = ''false'' then Inr (TBool False) else refuse)
     | _ \<Rightarrow> refuse)"

definition coerce_int :: "string \<Rightarrow> toml \<Rightarrow> config_exn + toml" where
  "coerce_int path v = (let refuse = Inl (Validation path (Some v) ''must be an integer'') in
     case v of
       TBool b \<Rightarrow> Inl (Validation path (Some v) ''must be an integer, not a boolean'')
     | TInt i \<Rightarrow> Inr v
     | TStr s \<Rightarrow> (case py_int s of Some i \<Rightarrow> Inr (TInt i) | None \<Rightarrow> refuse)
     | _ \<Rightarrow> refuse)"

definition coerce_float :: "conversions \<Rightarrow> string \<Rightarrow> toml \<Rightarrow> config_exn + toml" where
  "coerce_float cv path v = (let refuse = Inl (Validation path (Some v) ''must be a number'') in
     case v of
       TBool b \<Rightarrow> Inl (Validation path (Some v) ''must be a number, not a boolean'')
     | TInt i \<Rightarrow> (case cv_float_of_int cv i of Some x \<Rightarrow> Inr (TFloat x)
          | None \<Rightarrow> Inl (Python_Exception OverflowError ''int too large to convert to float''))
     | TFloat x \<Rightarrow> Inr v
     | TStr s \<Rightarrow> (case cv_read_float cv s of Some x \<Rightarrow> Inr (TFloat x) | None \<Rightarrow> refuse)
     | _ \<Rightarrow> refuse)"

text \<open>\<open>str(value)\<close>; CPython refuses integers of more than 4300 digits.\<close>

definition coerce_str :: "conversions \<Rightarrow> toml \<Rightarrow> config_exn + toml" where
  "coerce_str cv v = (case v of
     TStr s \<Rightarrow> Inr v
   | TBool b \<Rightarrow> Inr (TStr (if b then ''True'' else ''False''))
   | TInt i \<Rightarrow> (if length (nat_str (nat \<bar>i\<bar>)) \<le> 4300 then Inr (TStr (int_str i))
        else Inl (Python_Exception ValueError ''Exceeds the limit (4300 digits) for integer string conversion''))
   | _ \<Rightarrow> Inr (TStr (cv_str cv v)))"

definition resolve_type :: "'p field_type \<Rightarrow> builtin_type" where
  "resolve_type ft = (case ft of
     Annotation s \<Rightarrow> (if s = ''str'' then Str_Type else if s = ''int'' then Int_Type else if s = ''float'' then Float_Type
        else if s = ''bool'' then Bool_Type else Other_Type)
   | Builtin t \<Rightarrow> t
   | Dataclass st \<Rightarrow> Other_Type)"

definition coerce_field_value :: "conversions \<Rightarrow> toml \<Rightarrow> 'p field_type \<Rightarrow> string \<Rightarrow> config_exn + toml" where
  "coerce_field_value cv v ft path = (case resolve_type ft of
     Bool_Type \<Rightarrow> coerce_bool path v | Int_Type \<Rightarrow> coerce_int path v | Float_Type \<Rightarrow> coerce_float cv path v
   | Str_Type \<Rightarrow> coerce_str cv v | Other_Type \<Rightarrow> Inr v)"

definition wrap_construction :: "string \<Rightarrow> (string \<times> toml) list \<Rightarrow> config_exn + 'i \<Rightarrow> config_exn + 'i" where
  "wrap_construction section_key data r = (case r of
     Inl (Python_Exception e message) \<Rightarrow>
       (if e \<in> {TypeError, ValueError, UnicodeDecodeError} then Inl (Validation section_key (Some (TTable data)) message) else r)
   | _ \<Rightarrow> r)"

fun dataclass_from_dict :: "conversions \<Rightarrow> 'p section_type \<Rightarrow> string \<Rightarrow> (string \<times> toml) list \<Rightarrow> config_exn + 'p section_instance"
and keyword_args :: "conversions \<Rightarrow> 'p section_type \<Rightarrow> string \<Rightarrow> (string \<times> toml) list \<Rightarrow> config_exn + (string, 'p field_value) dict" where
  "dataclass_from_dict cv st section_key data = (case keyword_args cv st section_key data of
     Inl e \<Rightarrow> Inl e
   | Inr kwargs \<Rightarrow> wrap_construction section_key data (st_make st kwargs))"
| "keyword_args cv st section_key [] = Inr []"
| "keyword_args cv st section_key ((key, v) # data) =
     (case dict_get (st_fields st) key of
        None \<Rightarrow> keyword_args cv st section_key data
      | Some ft \<Rightarrow>
          (case (case (v, ft) of
                   (TTable d, Dataclass inner) \<Rightarrow> map_sum id Nested (dataclass_from_dict cv inner (section_key @ ''.'' @ key) d)
                 | _ \<Rightarrow> map_sum id Plain (coerce_field_value cv v ft (section_key @ ''.'' @ key))) of
             Inl e \<Rightarrow> Inl e
           | Inr fv \<Rightarrow> map_sum id (\<lambda>kwargs. (key, fv) # kwargs) (keyword_args cv st section_key data)))"

declare dataclass_from_dict.simps [simp del]

section \<open>The built-in sections\<close>

definition VALID_LOG_LEVELS :: "string list" where "VALID_LOG_LEVELS = [''DEBUG'', ''ERROR'', ''INFO'', ''WARNING'']"
definition VALID_LOG_FORMATS :: "string list" where "VALID_LOG_FORMATS = [''human'', ''json'']"

definition float_le :: "py_float \<Rightarrow> real \<Rightarrow> bool" where
  "float_le x r = (case x of Finite y \<Rightarrow> y \<le> r | PosInf \<Rightarrow> False | NegInf \<Rightarrow> True | NaN \<Rightarrow> False)"

definition logging_post_init :: "logging_config \<Rightarrow> config_exn option" where
  "logging_post_init c =
     (if map ascii_upper_char (lc_level c) \<notin> set VALID_LOG_LEVELS
      then Some (Validation ''logging.level'' (Some (TStr (lc_level c)))
        (concat [''must be one of ['', [CHR 0x27], join [CHR 0x27, CHR '','', CHR '' '', CHR 0x27] VALID_LOG_LEVELS, [CHR 0x27], '']'']))
      else if lc_format c \<notin> set VALID_LOG_FORMATS
      then Some (Validation ''logging.format'' (Some (TStr (lc_format c)))
        (concat [''must be one of ['', [CHR 0x27], join [CHR 0x27, CHR '','', CHR '' '', CHR 0x27] VALID_LOG_FORMATS, [CHR 0x27], '']'']))
      else None)"

definition execution_post_init :: "execution_config \<Rightarrow> config_exn option" where
  "execution_post_init c =
     (if ec_max_concurrency c < 1 then Some (Validation ''execution.max_concurrency'' (Some (TInt (ec_max_concurrency c))) ''must be at least 1'')
      else if ec_retry_count c < 0 then Some (Validation ''execution.retry_count'' (Some (TInt (ec_retry_count c))) ''must be non-negative'')
      else if float_le (ec_retry_backoff_seconds c) 0
      then Some (Validation ''execution.retry_backoff_seconds'' (Some (TFloat (ec_retry_backoff_seconds c))) ''must be positive'')
      else if float_le (ec_timeout_seconds c) 0
      then Some (Validation ''execution.timeout_seconds'' (Some (TFloat (ec_timeout_seconds c))) ''must be positive'')
      else None)"

text \<open>The arguments have the fields' types: \<open>keyword_args\<close> coerces them.\<close>

definition str_arg :: "(string, 'p field_value) dict \<Rightarrow> string \<Rightarrow> string \<Rightarrow> string" where
  "str_arg kwargs k dflt = (case dict_get kwargs k of Some (Plain (TStr s)) \<Rightarrow> s | _ \<Rightarrow> dflt)"

definition int_arg :: "(string, 'p field_value) dict \<Rightarrow> string \<Rightarrow> int \<Rightarrow> int" where
  "int_arg kwargs k dflt = (case dict_get kwargs k of Some (Plain (TInt i)) \<Rightarrow> i | _ \<Rightarrow> dflt)"

definition float_arg :: "(string, 'p field_value) dict \<Rightarrow> string \<Rightarrow> py_float \<Rightarrow> py_float" where
  "float_arg kwargs k dflt = (case dict_get kwargs k of Some (Plain (TFloat x)) \<Rightarrow> x | _ \<Rightarrow> dflt)"

definition bool_arg :: "(string, 'p field_value) dict \<Rightarrow> string \<Rightarrow> bool \<Rightarrow> bool" where
  "bool_arg kwargs k dflt = (case dict_get kwargs k of Some (Plain (TBool b)) \<Rightarrow> b | _ \<Rightarrow> dflt)"

definition make_logging :: "(string, 'p field_value) dict \<Rightarrow> config_exn + 'p section_instance" where
  "make_logging kwargs = (let c = \<lparr>lc_level = str_arg kwargs ''level'' ''INFO'', lc_format = str_arg kwargs ''format'' ''human''\<rparr>
     in case logging_post_init c of Some e \<Rightarrow> Inl e | None \<Rightarrow> Inr (Logging c))"

definition make_execution :: "(string, 'p field_value) dict \<Rightarrow> config_exn + 'p section_instance" where
  "make_execution kwargs = (let c = \<lparr>ec_max_concurrency = int_arg kwargs ''max_concurrency'' 4,
       ec_retry_count = int_arg kwargs ''retry_count'' 0,
       ec_retry_backoff_seconds = float_arg kwargs ''retry_backoff_seconds'' (Finite 1),
       ec_timeout_seconds = float_arg kwargs ''timeout_seconds'' (Finite 300),
       ec_fail_fast = bool_arg kwargs ''fail_fast'' True\<rparr>
     in case execution_post_init c of Some e \<Rightarrow> Inl e | None \<Rightarrow> Inr (Execution c))"

definition LoggingConfig :: "'p section_type" where
  "LoggingConfig = Section_Type ''LoggingConfig'' [(''level'', Annotation ''str''), (''format'', Annotation ''str'')] make_logging"

definition ExecutionConfig :: "'p section_type" where
  "ExecutionConfig = Section_Type ''ExecutionConfig''
     [(''max_concurrency'', Annotation ''int''), (''retry_count'', Annotation ''int''),
      (''retry_backoff_seconds'', Annotation ''float''), (''timeout_seconds'', Annotation ''float''),
      (''fail_fast'', Annotation ''bool'')] make_execution"


section \<open>The service\<close>

record 'p config_service =
  cs_sections :: "(string, 'p section_type) dict"
  cs_merged :: "(string \<times> toml) list"
  cs_instances :: "(string, 'p section_instance) dict"
  cs_cli_overrides :: "(string \<times> toml) list"

definition load_layer :: "(string \<Rightarrow> string + (string \<times> toml) list) \<Rightarrow> string \<Rightarrow> config_file \<Rightarrow> (string \<times> toml) list \<Rightarrow>
    config_exn + (string \<times> toml) list" where
  "load_layer loads path f merged =
     (if f = Absent then Inr merged else map_sum id (deep_merge merged) (load_toml_file loads path f))"

definition merge_layers :: "conversions \<Rightarrow> config_world \<Rightarrow> (string \<times> toml) list \<Rightarrow> config_exn + (string \<times> toml) list" where
  "merge_layers cv w cli_overrides =
     (case load_layer (cw_toml w) (cw_user_path w) (cw_user_file w) [] of
        Inl e \<Rightarrow> Inl e
      | Inr merged \<Rightarrow>
          (case load_layer (cw_toml w) (cw_project_path w) (cw_project_file w) merged of
             Inl e \<Rightarrow> Inl e
           | Inr merged \<Rightarrow>
               (let merged = deep_merge merged (parse_env_vars (cv_read_float cv) (cw_environ w))
                in Inr (if cli_overrides \<noteq> [] then deep_merge merged cli_overrides else merged))))"

definition reload :: "conversions \<Rightarrow> config_world \<Rightarrow> 'p config_service \<Rightarrow> (config_exn + unit) \<times> 'p config_service" where
  "reload cv w st = (case merge_layers cv w (cs_cli_overrides st) of
     Inl e \<Rightarrow> (Inl e, st)
   | Inr merged \<Rightarrow> (Inr (), st\<lparr>cs_merged := merged, cs_instances := []\<rparr>))"

definition set_cli_overrides :: "conversions \<Rightarrow> config_world \<Rightarrow> (string \<times> toml) list \<Rightarrow> 'p config_service \<Rightarrow>
    (config_exn + unit) \<times> 'p config_service" where
  "set_cli_overrides cv w overrides st = reload cv w (st\<lparr>cs_cli_overrides := overrides\<rparr>)"

definition config_init :: "conversions \<Rightarrow> config_world \<Rightarrow> config_exn + 'p config_service" where
  "config_init cv w = (case reload cv w \<lparr>cs_sections = [(''logging'', LoggingConfig), (''execution'', ExecutionConfig)],
       cs_merged = [], cs_instances = [], cs_cli_overrides = []\<rparr> of
     (Inl e, st) \<Rightarrow> Inl e | (Inr u, st) \<Rightarrow> Inr st)"

definition find_section_key :: "'p section_type \<Rightarrow> 'p config_service \<Rightarrow> string option" where
  "find_section_key ty st = map_option fst (List.find (\<lambda>(key, registered). st_name registered = st_name ty) (cs_sections st))"

definition build_section :: "conversions \<Rightarrow> 'p section_type \<Rightarrow> string \<Rightarrow> (string \<times> toml) list \<Rightarrow> config_exn + 'p section_instance" where
  "build_section cv ty section_key merged = (case dict_getd merged section_key (TTable []) of
     TTable data \<Rightarrow> dataclass_from_dict cv ty section_key data
   | _ \<Rightarrow> Inl (Python_Exception AttributeError ''object has no attribute items''))"

definition get_section :: "conversions \<Rightarrow> 'p section_type \<Rightarrow> 'p config_service \<Rightarrow>
    (config_exn + 'p section_instance) \<times> 'p config_service" where
  "get_section cv ty st = (case dict_get (cs_instances st) (st_name ty) of
     Some inst \<Rightarrow> (Inr inst, st)
   | None \<Rightarrow> (case find_section_key ty st of
       None \<Rightarrow> (Inl (Validation (st_name ty) None ''section type is not registered''), st)
     | Some section_key \<Rightarrow> (case build_section cv ty section_key (cs_merged st) of
         Inl e \<Rightarrow> (Inl e, st)
       | Inr inst \<Rightarrow> (Inr inst, st\<lparr>cs_instances := dict_set (cs_instances st) (st_name ty) inst\<rparr>))))"

definition register_section :: "string \<Rightarrow> 'p section_type \<Rightarrow> 'p config_service \<Rightarrow> 'p config_service" where
  "register_section section_key ty st =
     st\<lparr>cs_sections := dict_set (cs_sections st) section_key ty, cs_instances := dict_pop (cs_instances st) (st_name ty)\<rparr>"

definition get_platform_config :: "conversions \<Rightarrow> 'p config_service \<Rightarrow>
    (config_exn + 'p section_instance \<times> 'p section_instance) \<times> 'p config_service" where
  "get_platform_config cv st = and_then (get_section cv LoggingConfig st) (\<lambda>l.
     \<lambda>st. and_then (get_section cv ExecutionConfig st) (\<lambda>e. \<lambda>st. (Inr (l, e), st)))"


section \<open>Which source decides\<close>

text \<open>A table of the parser is a dictionary, at every depth.\<close>

fun toml_wf :: "toml \<Rightarrow> bool" where
  "toml_wf (TTable d) \<longleftrightarrow> distinct (map fst d) \<and> (\<forall>(k, v) \<in> set d. toml_wf v)"
| "toml_wf v \<longleftrightarrow> True"

definition loads_wf :: "config_world \<Rightarrow> bool" where
  "loads_wf w \<longleftrightarrow> (\<forall>s data. cw_toml w s = Inr data \<longrightarrow> toml_wf (TTable data))"

text \<open>What one source says of a path of keys: nothing, that a part of the path is no table, or a value.\<close>

datatype probe_result = Missing | Blocked | Found toml

fun probe :: "toml \<Rightarrow> string list \<Rightarrow> probe_result" where
  "probe v [] = Found v"
| "probe (TTable d) (k # p) = (case dict_get d k of None \<Rightarrow> Missing | Some v \<Rightarrow> probe v p)"
| "probe v (k # p) = Blocked"

definition value_at :: "toml \<Rightarrow> string list \<Rightarrow> toml option" where
  "value_at v p = (case probe v p of Found x \<Rightarrow> Some x | _ \<Rightarrow> None)"

text \<open>The sources from the highest precedence down: the first that says anything decides.\<close>

fun setting :: "(string \<times> toml) list list \<Rightarrow> string list \<Rightarrow> toml option" where
  "setting [] p = None"
| "setting (source # lower) p = (case probe (TTable source) p of
     Found v \<Rightarrow> Some v | Blocked \<Rightarrow> None | Missing \<Rightarrow> setting lower p)"

text \<open>Tables are merged, so that only the kind of a table is decided by one source.\<close>

definition without_contents :: "toml \<Rightarrow> toml" where
  "without_contents v = (case v of TTable d \<Rightarrow> TTable [] | _ \<Rightarrow> v)"

lemma without_contents_simps [simp]:
  "without_contents (TTable d) = TTable []" "without_contents (without_contents v) = without_contents v"
  by (simp_all add: without_contents_def split: toml.split)

lemma without_contents_leaf: "(\<And>d. v \<noteq> TTable d) \<Longrightarrow> without_contents u = v \<longleftrightarrow> u = v"
  by (auto simp: without_contents_def split: toml.splits)

definition merged_value :: "toml option \<Rightarrow> toml \<Rightarrow> toml" where
  "merged_value old v = (case old of
     Some (TTable d) \<Rightarrow> (case v of TTable e \<Rightarrow> TTable (deep_merge d e) | _ \<Rightarrow> v) | _ \<Rightarrow> v)"

lemma deep_merge_Cons:
  "deep_merge result ((k, v) # override) = deep_merge (dict_set result k (merged_value (dict_get result k) v)) override"
  by (auto simp: merged_value_def split: option.split toml.split)

lemma dict_get_deep_merge:
  "distinct (map fst override) \<Longrightarrow> dict_get (deep_merge result override) k =
     (case dict_get override k of None \<Rightarrow> dict_get result k | Some v \<Rightarrow> Some (merged_value (dict_get result k) v))"
proof (induction override arbitrary: result)
  case (Cons e override)
  obtain k' v where e: "e = (k', v)" by force
  have "k' = k \<Longrightarrow> dict_get override k = None" using Cons.prems e by (auto simp: map_of_eq_None_iff)
  then show ?case using Cons.IH Cons.prems unfolding e deep_merge_Cons by (auto split: option.split)
qed simp

declare deep_merge.simps(2) [simp del]

lemma toml_wf_get: "toml_wf (TTable d) \<Longrightarrow> dict_get d k = Some v \<Longrightarrow> toml_wf v"
  by (auto dest: map_of_SomeD)

lemma probe_leaf: "(\<And>d. v \<noteq> TTable d) \<Longrightarrow> probe v p = (if p = [] then Found v else Blocked)"
  by (cases v; cases p) auto

lemma value_at_deep_merge:
  assumes "toml_wf (TTable override)"
  shows "map_option without_contents (value_at (TTable (deep_merge result override)) p) =
    (case probe (TTable override) p of
       Found v \<Rightarrow> Some (without_contents v)
     | Blocked \<Rightarrow> None
     | Missing \<Rightarrow> map_option without_contents (value_at (TTable result) p))"
  using assms
proof (induction p arbitrary: result override)
  case Nil
  then show ?case by (simp add: value_at_def)
next
  case (Cons k p)
  note get = dict_get_deep_merge [of override result k]
  show ?case
  proof (cases "dict_get override k")
    case None
    then show ?thesis using get Cons.prems by (simp add: value_at_def)
  next
    case (Some v)
    then have v: "toml_wf v" using Cons.prems toml_wf_get by blast
    have merged: "value_at (TTable (deep_merge result override)) (k # p) = value_at (merged_value (dict_get result k) v) p"
      using get Some Cons.prems by (simp add: value_at_def)
    show ?thesis
    proof (cases "\<exists>d e. dict_get result k = Some (TTable d) \<and> v = TTable e")
      case True
      then obtain d e where d: "dict_get result k = Some (TTable d)" "v = TTable e" by blast
      have "value_at (TTable result) (k # p) = value_at (TTable d) p" using d by (simp add: value_at_def)
      then show ?thesis unfolding merged using Cons.IH [of e d] v d Some
        by (simp add: merged_value_def split: probe_result.split)
    next
      case False
      then have m: "merged_value (dict_get result k) v = v" by (auto simp: merged_value_def split: option.split toml.split)
      have "probe v p = Missing \<Longrightarrow> map_option without_contents (value_at (TTable result) (k # p)) = None"
        using False probe_leaf [of v p] probe_leaf [of "the (dict_get result k)" p]
        by (cases v; cases "dict_get result k"; cases "the (dict_get result k)")
          (auto simp: value_at_def split: if_splits)
      then show ?thesis using Some m merged by (auto simp: value_at_def split: probe_result.split)
    qed
  qed
qed


text \<open>The sources of the service, from the highest precedence down.\<close>

definition layer_table :: "(string \<Rightarrow> string + (string \<times> toml) list) \<Rightarrow> config_file \<Rightarrow> (string \<times> toml) list" where
  "layer_table loads f = (case f of Contents s \<Rightarrow> (case loads s of Inl _ \<Rightarrow> [] | Inr data \<Rightarrow> data) | _ \<Rightarrow> [])"

definition config_sources :: "conversions \<Rightarrow> config_world \<Rightarrow> (string \<times> toml) list \<Rightarrow> (string \<times> toml) list list" where
  "config_sources cv w cli_overrides =
     [cli_overrides, parse_env_vars (cv_read_float cv) (cw_environ w),
      layer_table (cw_toml w) (cw_project_file w), layer_table (cw_toml w) (cw_user_file w)]"

lemma toml_wf_set: "toml_wf (TTable d) \<Longrightarrow> toml_wf v \<Longrightarrow> toml_wf (TTable (dict_set d k v))"
  by (induction d k v rule: dict_set.induct) (auto simp: keys_dict_set dict_has_def)

lemma env_wf: "toml_wf (TTable (parse_env_vars read_float environ))"
proof -
  have "toml_wf (TTable (foldl (env_step read_float) result environ))" if "toml_wf (TTable result)" for result
    using that
  proof (induction environ arbitrary: result)
    case (Cons entry environ)
    have leaf: "toml_wf (coerce_env_value read_float v)" for v by (simp add: coerce_env_value_def split: option.split)
    have table: "toml_wf (TTable (case dict_get result sec of Some (TTable t) \<Rightarrow> t | _ \<Rightarrow> []))" for sec
    proof (cases "dict_get result sec")
      case (Some v)
      then show ?thesis using toml_wf_get [OF Cons.prems Some] by (cases v) simp_all
    qed simp
    have "toml_wf (TTable (env_step read_float result entry))"
      unfolding env_step_def using Cons.prems
      by (auto simp del: toml_wf.simps(1) simp: Let_def intro!: toml_wf_set [OF table leaf] toml_wf_set
          split: prod.split list.split)
    then show ?case using Cons.IH by simp
  qed simp
  from this [of "[]"] show ?thesis by (simp add: parse_env_vars_def)
qed

lemma setting_merge_layers:
  assumes "merge_layers cv w cli = Inr merged"
    and loads: "loads_wf w" and cli: "toml_wf (TTable cli)"
  shows "map_option without_contents (value_at (TTable merged) p) = map_option without_contents (setting (config_sources cv w cli) p)"
proof -
  let ?user = "layer_table (cw_toml w) (cw_user_file w)" and ?project = "layer_table (cw_toml w) (cw_project_file w)"
  let ?env = "parse_env_vars (cv_read_float cv) (cw_environ w)"
  have layer: "load_layer (cw_toml w) path f m = Inr m' \<Longrightarrow> m' = deep_merge m (layer_table (cw_toml w) f)" for path f m m'
    by (auto simp: load_layer_def load_toml_file_def layer_table_def split: if_splits config_file.splits sum.splits)
  have merged: "merged = deep_merge (deep_merge (deep_merge (deep_merge [] ?user) ?project) ?env) cli"
    using assms(1) by (auto simp: merge_layers_def Let_def dest!: layer split: sum.splits if_splits)
  have files: "toml_wf (TTable (layer_table (cw_toml w) f))" for f
    using loads by (auto simp: loads_wf_def layer_table_def simp del: toml_wf.simps(1) split: config_file.split sum.split)
      (simp_all)
  have empty: "map_option without_contents (value_at (TTable []) q) = (if q = [] then Some (TTable []) else None)" for q
    by (cases q) (auto simp: value_at_def)
  show ?thesis
    unfolding merged config_sources_def setting.simps value_at_deep_merge [OF cli] value_at_deep_merge [OF env_wf] value_at_deep_merge [OF files]
    by (cases p) (auto simp: empty split: probe_result.split)
qed


section \<open>The execution section\<close>

lemma toml_wf_merged:
  "toml_wf (TTable result) \<Longrightarrow> toml_wf (TTable override) \<Longrightarrow> toml_wf (TTable (deep_merge result override))"
proof (induction result override rule: deep_merge.induct)
  case (2 result key v override)
  have v: "toml_wf v" using "2.prems"(2) by simp
  have "toml_wf (merged_value (dict_get result key) v)"
  proof (cases "\<exists>d e. dict_get result key = Some (TTable d) \<and> v = TTable e")
    case True
    then obtain d e where d: "dict_get result key = Some (TTable d)" "v = TTable e" by blast
    have "toml_wf (TTable d)" by (rule toml_wf_get [OF "2.prems"(1) d(1)])
    then show ?thesis using "2.IH"(1) [OF d(1) refl d(2)] v d by (simp add: merged_value_def)
  next
    case False
    then show ?thesis using v by (auto simp: merged_value_def split: option.split toml.split)
  qed
  then have "toml_wf (TTable (dict_set result key (merged_value (dict_get result key) v)))"
    by (rule toml_wf_set [OF "2.prems"(1)])
  then show ?case using "2.IH"(2) "2.prems"(2) unfolding deep_merge_Cons merged_value_def by simp
qed simp

lemma merge_layers_wf:
  assumes "merge_layers cv w cli = Inr merged"
    and loads: "loads_wf w" and cli: "toml_wf (TTable cli)"
  shows "toml_wf (TTable merged)"
proof -
  have layer: "load_layer (cw_toml w) path f m = Inr m' \<Longrightarrow> toml_wf (TTable m) \<Longrightarrow> toml_wf (TTable m')" for path f m m'
  proof -
    assume l: "load_layer (cw_toml w) path f m = Inr m'" and m: "toml_wf (TTable m)"
    have "load_toml_file (cw_toml w) path f = Inr data \<Longrightarrow> toml_wf (TTable data)" for data
      using loads by (cases f) (auto simp: loads_wf_def load_toml_file_def simp del: toml_wf.simps(1) split: sum.splits, simp_all)
    then show "toml_wf (TTable m')" using l m
      by (cases "load_toml_file (cw_toml w) path f") (auto simp: load_layer_def simp del: toml_wf.simps(1) intro: toml_wf_merged split: if_splits)
  qed
  have empty: "toml_wf (TTable [])" by simp
  obtain m1 m2 where m: "load_layer (cw_toml w) (cw_user_path w) (cw_user_file w) [] = Inr m1"
      "load_layer (cw_toml w) (cw_project_path w) (cw_project_file w) m1 = Inr m2"
      "merged = (let m = deep_merge m2 (parse_env_vars (cv_read_float cv) (cw_environ w)) in if cli \<noteq> [] then deep_merge m cli else m)"
    using assms(1) by (auto simp: merge_layers_def Let_def split: sum.splits)
  have "toml_wf (TTable (deep_merge m2 (parse_env_vars (cv_read_float cv) (cw_environ w))))"
    by (intro toml_wf_merged layer [OF m(2)] layer [OF m(1)] empty env_wf)
  then show ?thesis unfolding m(3) Let_def using toml_wf_merged cli by presburger
qed

text \<open>The arguments of a section without nested sections: every field that the data gives, coerced.\<close>

definition flat :: "'p section_type \<Rightarrow> bool" where
  "flat st \<longleftrightarrow> (\<forall>(k, ft) \<in> set (st_fields st). case ft of Dataclass _ \<Rightarrow> False | _ \<Rightarrow> True)"

lemma flat_keyword_args:
  assumes "flat st"
  shows "keyword_args cv st key ((k, v) # data) = (case dict_get (st_fields st) k of
      None \<Rightarrow> keyword_args cv st key data
    | Some ft \<Rightarrow> (case coerce_field_value cv v ft (key @ ''.'' @ k) of Inl e \<Rightarrow> Inl e
        | Inr u \<Rightarrow> map_sum id (\<lambda>kwargs. (k, Plain u) # kwargs) (keyword_args cv st key data)))"
proof (cases "dict_get (st_fields st) k")
  case (Some ft)
  then have "case ft of Dataclass _ \<Rightarrow> False | _ \<Rightarrow> True" using assms by (auto simp: flat_def dest: map_of_SomeD)
  then show ?thesis using Some by (cases v; cases ft) (auto split: sum.split)
qed simp

lemma keyword_args_get:
  assumes "flat st" and "keyword_args cv st key data = Inr kwargs"
  shows "dict_get kwargs k = (case dict_get (st_fields st) k of None \<Rightarrow> None
    | Some ft \<Rightarrow> (case dict_get data k of None \<Rightarrow> None
        | Some v \<Rightarrow> (case coerce_field_value cv v ft (key @ ''.'' @ k) of Inl e \<Rightarrow> None | Inr u \<Rightarrow> Some (Plain u))))"
    and "dict_get (st_fields st) k = Some ft \<Longrightarrow> dict_get data k = Some v \<Longrightarrow> \<exists>u. coerce_field_value cv v ft (key @ ''.'' @ k) = Inr u"
proof -
  have "dict_get kwargs k = (case dict_get (st_fields st) k of None \<Rightarrow> None
    | Some ft \<Rightarrow> (case dict_get data k of None \<Rightarrow> None
        | Some v \<Rightarrow> (case coerce_field_value cv v ft (key @ ''.'' @ k) of Inl e \<Rightarrow> None | Inr u \<Rightarrow> Some (Plain u))))
     \<and> (\<forall>ft v. dict_get (st_fields st) k = Some ft \<longrightarrow> dict_get data k = Some v \<longrightarrow>
          (\<exists>u. coerce_field_value cv v ft (key @ ''.'' @ k) = Inr u))"
    using assms(2)
  proof (induction data arbitrary: kwargs)
    case (Cons e data)
    obtain k' v where e: "e = (k', v)" by force
    show ?case
      using Cons.IH Cons.prems unfolding e flat_keyword_args [OF assms(1)]
      by (cases "keyword_args cv st key data") (auto split: option.splits sum.splits)
  qed (auto split: option.split)
  then show "dict_get kwargs k = (case dict_get (st_fields st) k of None \<Rightarrow> None
    | Some ft \<Rightarrow> (case dict_get data k of None \<Rightarrow> None
        | Some v \<Rightarrow> (case coerce_field_value cv v ft (key @ ''.'' @ k) of Inl e \<Rightarrow> None | Inr u \<Rightarrow> Some (Plain u))))"
    and "dict_get (st_fields st) k = Some ft \<Longrightarrow> dict_get data k = Some v \<Longrightarrow> \<exists>u. coerce_field_value cv v ft (key @ ''.'' @ k) = Inr u"
    by blast+
qed

lemma keyword_args_total:
  assumes "flat st" and "distinct (map fst data)"
    and "\<And>k v ft. dict_get data k = Some v \<Longrightarrow> dict_get (st_fields st) k = Some ft \<Longrightarrow>
      \<exists>u. coerce_field_value cv v ft (key @ ''.'' @ k) = Inr u"
  shows "\<exists>kwargs. keyword_args cv st key data = Inr kwargs"
  using assms(2,3)
proof (induction data)
  case (Cons e data)
  obtain k v where e: "e = (k, v)" by force
  have "dict_get data k = None" using Cons.prems(1) by (simp add: e map_of_eq_None_iff)
  then have "dict_get data l = Some u \<Longrightarrow> dict_get (e # data) l = Some u" for l u by (auto simp: e)
  then obtain kwargs where "keyword_args cv st key data = Inr kwargs" using Cons.IH Cons.prems by fastforce
  moreover have "dict_get (st_fields st) k = Some ft \<Longrightarrow> \<exists>u. coerce_field_value cv v ft (key @ ''.'' @ k) = Inr u" for ft
    using Cons.prems(2) [of k v] e by simp
  ultimately show ?case unfolding e flat_keyword_args [OF assms(1)] by (auto split: option.split)
qed simp


text \<open>What a field of a flat section takes: its default, or the decided setting coerced to its type.\<close>

definition field_setting :: "conversions \<Rightarrow> (string \<times> toml) list list \<Rightarrow> string \<Rightarrow> builtin_type \<Rightarrow> string \<Rightarrow> toml \<Rightarrow> config_exn + toml" where
  "field_setting cv sources sec ty k dflt = (case setting sources [sec, k] of
     None \<Rightarrow> Inr dflt
   | Some v \<Rightarrow> coerce_field_value cv v (Builtin ty :: unit field_type) (sec @ ''.'' @ k))"

definition section_is_table :: "(string \<times> toml) list list \<Rightarrow> string \<Rightarrow> bool" where
  "section_is_table sources sec = (case setting sources [sec] of None \<Rightarrow> True | Some (TTable _) \<Rightarrow> True | Some _ \<Rightarrow> False)"

definition execution_ok :: "execution_config \<Rightarrow> bool" where
  "execution_ok c \<longleftrightarrow> 1 \<le> ec_max_concurrency c \<and> 0 \<le> ec_retry_count c
     \<and> \<not> float_le (ec_retry_backoff_seconds c) 0 \<and> \<not> float_le (ec_timeout_seconds c) 0"

lemma execution_post_init_None: "execution_post_init c = None \<longleftrightarrow> execution_ok c"
  by (auto simp: execution_post_init_def execution_ok_def)

lemma coerce_int_result: "coerce_int path v = Inr u \<Longrightarrow> \<exists>i. u = TInt i"
  by (auto simp: coerce_int_def Let_def split: toml.splits option.splits)

lemma coerce_float_result: "coerce_float cv path v = Inr u \<Longrightarrow> \<exists>x. u = TFloat x"
  by (auto simp: coerce_float_def Let_def split: toml.splits option.splits)

lemma coerce_bool_result: "coerce_bool path v = Inr u \<Longrightarrow> \<exists>b. u = TBool b"
  by (auto simp: coerce_bool_def Let_def split: toml.splits if_splits)

lemma coerce_without_contents:
  assumes "resolve_type ft \<in> {Int_Type, Float_Type, Bool_Type}" and "without_contents v = without_contents v'"
  shows "coerce_field_value cv v ft path = Inr u \<longleftrightarrow> coerce_field_value cv v' ft path = Inr u"
  using assms by (cases v; cases v')
    (auto simp: without_contents_def coerce_field_value_def coerce_int_def coerce_float_def coerce_bool_def)

lemma st_make_execution: "st_make ExecutionConfig = make_execution"
  by (simp add: ExecutionConfig_def)

lemma flat_execution: "flat ExecutionConfig"
  by (simp add: flat_def ExecutionConfig_def)

lemma execution_fields:
  "dict_get (st_fields (ExecutionConfig :: 'p section_type)) = [''max_concurrency'' \<mapsto> Annotation ''int'', ''retry_count'' \<mapsto> Annotation ''int'',
     ''retry_backoff_seconds'' \<mapsto> Annotation ''float'', ''timeout_seconds'' \<mapsto> Annotation ''float'', ''fail_fast'' \<mapsto> Annotation ''bool'']"
  by (rule ext) (simp add: ExecutionConfig_def)

lemma resolve_annotations:
  "resolve_type (Annotation ''int'') = Int_Type" "resolve_type (Annotation ''float'') = Float_Type"
  "resolve_type (Annotation ''bool'') = Bool_Type" "resolve_type (Annotation ''str'') = Str_Type" "resolve_type (Builtin ty) = ty"
  by (simp_all add: resolve_type_def)

lemma coerce_annotation:
  "coerce_field_value cv v (Annotation ''int'' :: 'p field_type) path = coerce_int path v"
  "coerce_field_value cv v (Annotation ''float'' :: 'p field_type) path = coerce_float cv path v"
  "coerce_field_value cv v (Annotation ''bool'' :: 'p field_type) path = coerce_bool path v"
  "coerce_field_value cv v (Builtin Int_Type :: unit field_type) path = coerce_int path v"
  "coerce_field_value cv v (Builtin Float_Type :: unit field_type) path = coerce_float cv path v"
  "coerce_field_value cv v (Builtin Bool_Type :: unit field_type) path = coerce_bool path v"
  by (simp_all add: coerce_field_value_def resolve_annotations)

text \<open>The section as built from the table of its settings.\<close>

definition taken :: "(string \<times> toml) list \<Rightarrow> (string \<Rightarrow> toml \<Rightarrow> config_exn + toml) \<Rightarrow> string \<Rightarrow> toml \<Rightarrow> config_exn + toml" where
  "taken data coerce k dflt = (case dict_get data k of None \<Rightarrow> Inr dflt | Some v \<Rightarrow> coerce (''execution.'' @ k) v)"

definition execution_taken :: "conversions \<Rightarrow> (string \<times> toml) list \<Rightarrow> execution_config \<Rightarrow> bool" where
  "execution_taken cv data c \<longleftrightarrow>
     taken data coerce_int ''max_concurrency'' (TInt 4) = Inr (TInt (ec_max_concurrency c))
     \<and> taken data coerce_int ''retry_count'' (TInt 0) = Inr (TInt (ec_retry_count c))
     \<and> taken data (coerce_float cv) ''retry_backoff_seconds'' (TFloat (Finite 1)) = Inr (TFloat (ec_retry_backoff_seconds c))
     \<and> taken data (coerce_float cv) ''timeout_seconds'' (TFloat (Finite 300)) = Inr (TFloat (ec_timeout_seconds c))
     \<and> taken data coerce_bool ''fail_fast'' (TBool True) = Inr (TBool (ec_fail_fast c))"

lemma execution_arguments:
  assumes "keyword_args cv (ExecutionConfig :: 'p section_type) ''execution'' data = Inr kwargs"
  shows "execution_taken cv data \<lparr>ec_max_concurrency = int_arg kwargs ''max_concurrency'' 4, ec_retry_count = int_arg kwargs ''retry_count'' 0,
       ec_retry_backoff_seconds = float_arg kwargs ''retry_backoff_seconds'' (Finite 1),
       ec_timeout_seconds = float_arg kwargs ''timeout_seconds'' (Finite 300), ec_fail_fast = bool_arg kwargs ''fail_fast'' True\<rparr>"
proof -
  note get = keyword_args_get(1) [OF flat_execution assms] and ok = keyword_args_get(2) [OF flat_execution assms]
  have int: "taken data coerce_int k (TInt d) = Inr (TInt (int_arg kwargs k d))"
    if "dict_get (st_fields (ExecutionConfig :: 'p section_type)) k = Some (Annotation ''int'')" for k d
    using get [of k] ok [OF that] that coerce_int_result
    by (cases "dict_get data k") (fastforce simp: taken_def int_arg_def coerce_annotation)+
  have fl: "taken data (coerce_float cv) k (TFloat d) = Inr (TFloat (float_arg kwargs k d))"
    if "dict_get (st_fields (ExecutionConfig :: 'p section_type)) k = Some (Annotation ''float'')" for k d
    using get [of k] ok [OF that] that coerce_float_result
    by (cases "dict_get data k") (fastforce simp: taken_def float_arg_def coerce_annotation)+
  have bool: "taken data coerce_bool k (TBool d) = Inr (TBool (bool_arg kwargs k d))"
    if "dict_get (st_fields (ExecutionConfig :: 'p section_type)) k = Some (Annotation ''bool'')" for k d
    using get [of k] ok [OF that] that coerce_bool_result
    by (cases "dict_get data k") (fastforce simp: taken_def bool_arg_def coerce_annotation)+
  show ?thesis by (simp add: execution_taken_def int fl bool execution_fields)
qed

lemma execution_taken_unique: "execution_taken cv data c \<Longrightarrow> execution_taken cv data d \<Longrightarrow> c = d"
  by (auto simp: execution_taken_def intro: execution_config.equality)

lemma taken_coerces: "taken data coerce k dflt = Inr u \<Longrightarrow> dict_get data k = Some v \<Longrightarrow> coerce (''execution.'' @ k) v = Inr u"
  by (simp add: taken_def)

lemma build_execution:
  assumes "distinct (map fst data)"
  shows "dataclass_from_dict cv (ExecutionConfig :: 'p section_type) ''execution'' data = Inr (Execution c)
    \<longleftrightarrow> execution_taken cv data c \<and> execution_ok c"
proof
  assume built: "dataclass_from_dict cv (ExecutionConfig :: 'p section_type) ''execution'' data = Inr (Execution c)"
  then obtain kwargs where k: "keyword_args cv (ExecutionConfig :: 'p section_type) ''execution'' data = Inr kwargs"
    by (auto simp: dataclass_from_dict.simps split: sum.splits)
  show "execution_taken cv data c \<and> execution_ok c"
    using built execution_arguments [OF k]
    by (auto simp: dataclass_from_dict.simps k wrap_construction_def st_make_execution make_execution_def Let_def
        execution_post_init_None split: sum.splits option.splits config_exn.splits if_splits)
next
  assume c: "execution_taken cv data c \<and> execution_ok c"
  have "\<exists>u. coerce_field_value cv v ft (''execution'' @ ''.'' @ k) = Inr u"
    if "dict_get data k = Some v" "dict_get (st_fields (ExecutionConfig :: 'p section_type)) k = Some ft" for k v ft
    using c that taken_coerces [OF _ that(1)]
    by (fastforce simp: execution_taken_def execution_fields coerce_annotation split: if_splits)
  then obtain kwargs where k: "keyword_args cv (ExecutionConfig :: 'p section_type) ''execution'' data = Inr kwargs"
    using keyword_args_total [OF flat_execution assms] by blast
  have "c = \<lparr>ec_max_concurrency = int_arg kwargs ''max_concurrency'' 4, ec_retry_count = int_arg kwargs ''retry_count'' 0,
       ec_retry_backoff_seconds = float_arg kwargs ''retry_backoff_seconds'' (Finite 1),
       ec_timeout_seconds = float_arg kwargs ''timeout_seconds'' (Finite 300), ec_fail_fast = bool_arg kwargs ''fail_fast'' True\<rparr>"
    using c execution_arguments [OF k] execution_taken_unique by blast
  then show "dataclass_from_dict cv (ExecutionConfig :: 'p section_type) ''execution'' data = Inr (Execution c)"
    using c by (simp add: dataclass_from_dict.simps k wrap_construction_def st_make_execution)
      (simp add: make_execution_def Let_def execution_post_init_None [symmetric])
qed


lemma value_at_section:
  assumes "dict_getd merged sec (TTable []) = TTable data"
  shows "value_at (TTable merged) [sec, k] = dict_get data k"
  using assms by (cases "dict_get merged sec") (auto simp: dict_getd_def value_at_def split: option.split)

lemma taken_field_setting:
  assumes "map_option without_contents (dict_get data k) = map_option without_contents (setting sources [''execution'', k])"
  shows "taken data coerce_int k dflt = Inr u \<longleftrightarrow> field_setting cv sources ''execution'' Int_Type k dflt = Inr u"
    and "taken data (coerce_float cv) k dflt = Inr u \<longleftrightarrow> field_setting cv sources ''execution'' Float_Type k dflt = Inr u"
    and "taken data coerce_bool k dflt = Inr u \<longleftrightarrow> field_setting cv sources ''execution'' Bool_Type k dflt = Inr u"
proof -
  have same: "coerce_field_value cv v (Builtin ty :: unit field_type) path = Inr u \<longleftrightarrow> coerce_field_value cv v' (Builtin ty :: unit field_type) path = Inr u"
    if "ty \<in> {Int_Type, Float_Type, Bool_Type}" "without_contents v = without_contents v'" for ty v v' path
    using coerce_without_contents that by (metis resolve_annotations(5))
  have each: "taken data coerce k dflt = Inr u \<longleftrightarrow> field_setting cv sources ''execution'' ty k dflt = Inr u"
    if ty: "ty \<in> {Int_Type, Float_Type, Bool_Type}" and c: "\<And>v path. coerce path v = coerce_field_value cv v (Builtin ty :: unit field_type) path" for coerce ty
  proof (cases "setting sources [''execution'', k]")
    case None
    then show ?thesis using assms by (simp add: taken_def field_setting_def)
  next
    case (Some v')
    then obtain v where v: "dict_get data k = Some v" "without_contents v = without_contents v'" using assms by auto
    show ?thesis using same [OF ty v(2), of "''execution.'' @ k"] Some v(1) by (simp add: c taken_def field_setting_def)
  qed
  show "taken data coerce_int k dflt = Inr u \<longleftrightarrow> field_setting cv sources ''execution'' Int_Type k dflt = Inr u"
    and "taken data (coerce_float cv) k dflt = Inr u \<longleftrightarrow> field_setting cv sources ''execution'' Float_Type k dflt = Inr u"
    and "taken data coerce_bool k dflt = Inr u \<longleftrightarrow> field_setting cv sources ''execution'' Bool_Type k dflt = Inr u"
    by (rule each; simp add: coerce_annotation)+
qed

text \<open>The fields of a configuration, each decided by the sources.\<close>

definition execution_decided :: "conversions \<Rightarrow> (string \<times> toml) list list \<Rightarrow> execution_config \<Rightarrow> bool" where
  "execution_decided cv sources c \<longleftrightarrow>
     field_setting cv sources ''execution'' Int_Type ''max_concurrency'' (TInt 4) = Inr (TInt (ec_max_concurrency c))
     \<and> field_setting cv sources ''execution'' Int_Type ''retry_count'' (TInt 0) = Inr (TInt (ec_retry_count c))
     \<and> field_setting cv sources ''execution'' Float_Type ''retry_backoff_seconds'' (TFloat (Finite 1)) = Inr (TFloat (ec_retry_backoff_seconds c))
     \<and> field_setting cv sources ''execution'' Float_Type ''timeout_seconds'' (TFloat (Finite 300)) = Inr (TFloat (ec_timeout_seconds c))
     \<and> field_setting cv sources ''execution'' Bool_Type ''fail_fast'' (TBool True) = Inr (TBool (ec_fail_fast c))"

lemma service_after_overrides:
  assumes "config_init cv w0 = Inr st0" and "set_cli_overrides cv w cli st0 = (Inr (), st)"
  shows "merge_layers cv w cli = Inr (cs_merged st)" "cs_instances st = []"
    "cs_sections st = [(''logging'', LoggingConfig), (''execution'', ExecutionConfig)]"
  using assms by (auto simp: config_init_def set_cli_overrides_def reload_def split: sum.splits prod.splits)

lemma get_execution_section:
  assumes "cs_instances st = []" and "cs_sections st = [(''logging'', LoggingConfig), (''execution'', ExecutionConfig)]"
  shows "fst (get_section cv ExecutionConfig st) = build_section cv ExecutionConfig ''execution'' (cs_merged st)"
  using assms by (simp add: get_section_def find_section_key_def LoggingConfig_def ExecutionConfig_def split: sum.split)

lemma execution_section_iff:
  assumes merged: "merge_layers cv w cli = Inr merged"
    and loads: "loads_wf w" and cli: "toml_wf (TTable cli)"
  shows "build_section cv (ExecutionConfig :: 'p section_type) ''execution'' merged = Inr (Execution c)
    \<longleftrightarrow> section_is_table (config_sources cv w cli) ''execution'' \<and> execution_decided cv (config_sources cv w cli) c \<and> execution_ok c"
proof -
  note decided = setting_merge_layers [OF merged loads cli]
  have sec: "map_option without_contents (dict_get merged ''execution'') =
      map_option without_contents (setting (config_sources cv w cli) [''execution''])"
    using decided [of "[''execution'']"] by (simp add: value_at_def split: option.splits)
  show ?thesis
  proof (cases "dict_getd merged ''execution'' (TTable [])")
    case (TTable data)
    have "toml_wf (TTable data)"
      using merge_layers_wf [OF merged loads cli] TTable toml_wf_get
      by (cases "dict_get merged ''execution''") (auto simp: dict_getd_def simp del: toml_wf.simps(1), simp)
    then have data: "distinct (map fst data)" by simp
    have "section_is_table (config_sources cv w cli) ''execution''"
      using sec TTable by (auto simp: section_is_table_def dict_getd_def without_contents_def split: option.splits toml.splits)
    moreover have "map_option without_contents (dict_get data k) = map_option without_contents (setting (config_sources cv w cli) [''execution'', k])" for k
      using decided [of "[''execution'', k]"] by (simp add: value_at_section [OF TTable])
    then have "execution_taken cv data c \<longleftrightarrow> execution_decided cv (config_sources cv w cli) c"
      by (simp add: execution_taken_def execution_decided_def taken_field_setting [where cv = cv])
    ultimately show ?thesis by (simp add: build_section_def TTable build_execution [OF data])
  qed (use sec in \<open>auto simp: section_is_table_def dict_getd_def without_contents_def build_section_def split: option.splits toml.splits\<close>)
qed


text \<open>Property C30. The execution settings come from the layers in their order of precedence. After the overrides of the
  command line are set, \<open>get_section\<close> returns a configuration exactly when its section is a table, every field is its default or
  the value of the highest source that says anything of it (the command line, the environment, the project's file, the
  user's file), converted to the field's type, and the numbers are in their bounds.\<close>

theorem execution_settings:
  assumes "config_init cv w0 = Inr st0" and "set_cli_overrides cv w cli st0 = (Inr (), st)"
    and "loads_wf w" and "toml_wf (TTable cli)"
  shows "fst (get_section cv ExecutionConfig st) = Inr (Execution c)
    \<longleftrightarrow> section_is_table (config_sources cv w cli) ''execution'' \<and> execution_decided cv (config_sources cv w cli) c \<and> execution_ok c"
  using service_after_overrides [OF assms(1,2)] by (simp add: get_execution_section execution_section_iff [OF _ assms(3,4)])

definition example_conversions :: conversions where
  "example_conversions = \<lparr>cv_read_float = (\<lambda>s. if s = ''2.5'' then Some (Finite (5/2)) else None),
     cv_float_of_int = (\<lambda>i. Some (Finite (of_int i))), cv_str = (\<lambda>v. ''[]'')\<rparr>"

definition example_config_world :: config_world where
  "example_config_world = \<lparr>cw_user_path = ''/home/u/.config/debcraft/config.toml'', cw_user_file = Contents ''user'',
     cw_project_path = ''/work/.debcraft.toml'', cw_project_file = Contents ''project'',
     cw_environ = [(''DEBCRAFT_EXECUTION__RETRY_BACKOFF_SECONDS'', ''2.5''), (''DEBCRAFT_EXECUTION__MAX_CONCURRENCY'', ''8'')],
     cw_toml = (\<lambda>s. if s = ''user'' then Inr [(''execution'', TTable [(''timeout_seconds'', TInt 60), (''retry_count'', TInt 1)])]
       else if s = ''project'' then Inr [(''execution'', TTable [(''retry_count'', TStr ''3'')]), (''logging'', TTable [(''level'', TStr ''debug'')])]
       else Inl ''invalid'')\<rparr>"

definition example_overrides :: "(string \<times> toml) list" where
  "example_overrides = [(''execution'', TTable [(''max_concurrency'', TInt 16)])]"

definition example_service :: "unit config_service" where
  "example_service = (case config_init example_conversions example_config_world of
     Inr st \<Rightarrow> snd (set_cli_overrides example_conversions example_config_world example_overrides st)
   | Inl e \<Rightarrow> \<lparr>cs_sections = [], cs_merged = [], cs_instances = [], cs_cli_overrides = []\<rparr>)"

theorem execution_settings_witness:
  "fst (get_section example_conversions ExecutionConfig example_service) = Inr (Execution
     \<lparr>ec_max_concurrency = 16, ec_retry_count = 3, ec_retry_backoff_seconds = Finite (5/2), ec_timeout_seconds = Finite 60, ec_fail_fast = True\<rparr>)"
proof -
  obtain st0 :: "unit config_service" where i: "config_init example_conversions example_config_world = Inr st0"
    by (simp add: config_init_def reload_def merge_layers_def load_layer_def load_toml_file_def example_config_world_def Let_def)
  have s: "set_cli_overrides example_conversions example_config_world example_overrides st0 = (Inr (), example_service)"
    using i by (simp add: example_service_def set_cli_overrides_def reload_def merge_layers_def load_layer_def load_toml_file_def
        example_config_world_def Let_def)
  have "loads_wf example_config_world" "toml_wf (TTable example_overrides)"
    by (auto simp: loads_wf_def example_config_world_def example_overrides_def)
  note theorem_at = execution_settings [OF i s this]
  show ?thesis unfolding theorem_at by code_simp
qed

section \<open>The cache of instances\<close>

text \<open>The states of a service: any sequence of operations, with the files and the environment as they are at each reload.
  Section types are told apart by their names, and a key keeps the type it was first registered with.\<close>

inductive config_run :: "conversions \<Rightarrow> 'p section_type set \<Rightarrow> 'p config_service \<Rightarrow> bool" for cv U where
  init: "config_init cv w = Inr st \<Longrightarrow> config_run cv U st"
| get: "config_run cv U st \<Longrightarrow> ty \<in> U \<Longrightarrow> config_run cv U (snd (get_section cv ty st))"
| register: "config_run cv U st \<Longrightarrow> ty \<in> U \<Longrightarrow> (\<And>old. dict_get (cs_sections st) key = Some old \<Longrightarrow> st_name old = st_name ty) \<Longrightarrow>
    config_run cv U (register_section key ty st)"
| again: "config_run cv U st \<Longrightarrow> config_run cv U (snd (reload cv w st))"
| overrides: "config_run cv U st \<Longrightarrow> config_run cv U (snd (set_cli_overrides cv w cli st))"

definition section_value :: "conversions \<Rightarrow> 'p section_type \<Rightarrow> 'p config_service \<Rightarrow> config_exn + 'p section_instance" where
  "section_value cv ty st = (case find_section_key ty st of
     None \<Rightarrow> Inl (Validation (st_name ty) None ''section type is not registered'')
   | Some section_key \<Rightarrow> build_section cv ty section_key (cs_merged st))"

definition coherent :: "conversions \<Rightarrow> 'p section_type set \<Rightarrow> 'p config_service \<Rightarrow> bool" where
  "coherent cv U st \<longleftrightarrow> (\<forall>ty \<in> U. \<forall>inst. dict_get (cs_instances st) (st_name ty) = Some inst \<longrightarrow> section_value cv ty st = Inr inst)"

lemma coherentD: "coherent cv U st \<Longrightarrow> ty \<in> U \<Longrightarrow> dict_get (cs_instances st) (st_name ty) = Some inst \<Longrightarrow> section_value cv ty st = Inr inst"
  by (simp add: coherent_def)

lemma get_section_value: "coherent cv U st \<Longrightarrow> ty \<in> U \<Longrightarrow> fst (get_section cv ty st) = section_value cv ty st"
  by (auto simp: get_section_def section_value_def dest: coherentD split: option.splits sum.splits)

lemma section_value_eqs:
  "section_value cv ty (st\<lparr>cs_instances := i\<rparr>) = section_value cv ty st"
  "section_value cv ty (st\<lparr>cs_cli_overrides := cli\<rparr>) = section_value cv ty st"
  by (simp_all add: section_value_def find_section_key_def split: option.split)

lemma coherent_get:
  assumes "coherent cv U st" "inj_on st_name U" "ty \<in> U"
  shows "coherent cv U (snd (get_section cv ty st))"
proof (cases "dict_get (cs_instances st) (st_name ty)")
  case None
  show ?thesis
  proof (cases "section_value cv ty st")
    case (Inl e)
    then show ?thesis using None assms(1) by (auto simp: get_section_def section_value_def split: option.splits sum.splits)
  next
    case (Inr inst)
    then have "snd (get_section cv ty st) = st\<lparr>cs_instances := dict_set (cs_instances st) (st_name ty) inst\<rparr>"
      using None by (auto simp: get_section_def section_value_def split: option.splits)
    then show ?thesis
      using Inr assms by (auto simp: coherent_def section_value_eqs dest: inj_onD split: if_splits)
  qed
qed (simp add: get_section_def assms(1))

lemma find_dict_set:
  "(\<And>old. dict_get d k = Some old \<Longrightarrow> P (k, old) \<longleftrightarrow> P (k, v)) \<Longrightarrow> \<not> P (k, v) \<Longrightarrow>
    map_option fst (List.find P (dict_set d k v)) = map_option fst (List.find P d)"
  by (induction d k v rule: dict_set.induct) (auto split: if_splits)

lemma coherent_register:
  assumes "coherent cv U st" "inj_on st_name U" "ty \<in> U"
    and "\<And>old. dict_get (cs_sections st) key = Some old \<Longrightarrow> st_name old = st_name ty"
  shows "coherent cv U (register_section key ty st)"
proof -
  have "section_value cv ty' (register_section key ty st) = Inr inst"
    if ty': "ty' \<in> U" and i: "dict_get (cs_instances (register_section key ty st)) (st_name ty') = Some inst" for ty' inst
  proof -
    have n: "st_name ty' \<noteq> st_name ty" and "dict_get (cs_instances st) (st_name ty') = Some inst"
      using i by (auto simp: register_section_def split: if_splits)
    then have "section_value cv ty' st = Inr inst" using coherentD [OF assms(1) ty'] by blast
    moreover have "find_section_key ty' (register_section key ty st) = find_section_key ty' st"
      unfolding find_section_key_def register_section_def using assms(4) n by (simp add: find_dict_set)
    ultimately show ?thesis by (simp add: section_value_def register_section_def split: option.splits)
  qed
  then show ?thesis by (simp add: coherent_def)
qed

lemma coherent_reload: "coherent cv U st \<Longrightarrow> coherent cv U (snd (reload cv w st))"
  by (simp add: reload_def coherent_def split: sum.split)

lemma coherent_run: "config_run cv U st \<Longrightarrow> inj_on st_name U \<Longrightarrow> coherent cv U st"
proof (induction rule: config_run.induct)
  case (init w st)
  then show ?case by (auto simp: config_init_def reload_def coherent_def split: sum.splits prod.splits)
next
  case (overrides st w cli)
  have "coherent cv U (st\<lparr>cs_cli_overrides := cli\<rparr>)"
    using overrides by (simp add: coherent_def section_value_eqs)
  then show ?case by (simp add: set_cli_overrides_def coherent_reload)
qed (auto intro: coherent_get coherent_register coherent_reload)



definition example_used :: "unit config_service" where
  "example_used = snd (get_section example_conversions LoggingConfig example_service)"


section \<open>Behaviours worth knowing\<close>

text \<open>A key that is registered again with another type leaves the first type's instance in the cache: it is still returned,
  although the type is no longer registered.\<close>

definition Retention :: "unit section_type" where
  "Retention = Section_Type ''RetentionConfig'' [(''days'', Builtin Int_Type)] (\<lambda>kwargs. Inr (Plugin ()))"

lemma stale_instance:
  "(let st = register_section ''logging'' Retention example_used
    in (find_section_key LoggingConfig st, fst (get_section example_conversions LoggingConfig st))) =
   (None, Inr (Logging \<lparr>lc_level = ''debug'', lc_format = ''human''\<rparr>))"
  by code_simp

text \<open>Not a number passes the bounds: a timeout of \<open>nan\<close> is accepted.\<close>

lemma nan_timeout:
  "dataclass_from_dict cv ExecutionConfig ''execution'' [(''timeout_seconds'', TFloat NaN)] =
     Inr (Execution \<lparr>ec_max_concurrency = 4, ec_retry_count = 0, ec_retry_backoff_seconds = Finite 1, ec_timeout_seconds = NaN, ec_fail_fast = True\<rparr>)"
  by (simp add: build_execution execution_taken_def execution_ok_def taken_def coerce_float_def float_le_def)

text \<open>A text in the environment that reads as a number does not come back as it was.\<close>

lemma env_text_changed:
  "coerce_str cv (coerce_env_value read_float '' 007 '') = Inr (TStr ''7'')"
  "coerce_str cv (coerce_env_value read_float ''TRUE'') = Inr (TStr ''True'')"
proof -
  have "coerce_env_value read_float '' 007 '' = TInt 7"
  proof -
    have "py_lower '' 007 '' \<noteq> ''true''" "py_lower '' 007 '' \<noteq> ''false''" "py_int '' 007 '' = Some 7" by code_simp+
    then show ?thesis by (simp add: coerce_env_value_def)
  qed
  moreover have "int_str 7 = ''7''" "length (nat_str (nat \<bar>7\<bar>)) \<le> 4300" by code_simp+
  ultimately show "coerce_str cv (coerce_env_value read_float '' 007 '') = Inr (TStr ''7'')" by (simp add: coerce_str_def)
  have "py_lower ''TRUE'' = ''true''" by code_simp
  then show "coerce_str cv (coerce_env_value read_float ''TRUE'') = Inr (TStr ''True'')"
    by (simp add: coerce_env_value_def coerce_str_def)
qed

text \<open>Other exceptions than the configuration errors reach the caller: a section that is no table, a file that is not
  UTF-8, an integer too large for a float.\<close>

lemma foreign_exceptions:
  "build_section cv ty sec [(sec, TInt 1)] = Inl (Python_Exception AttributeError ''object has no attribute items'')"
  "cw_user_file w = Undecodable \<Longrightarrow> merge_layers cv w cli = Inl (Python_Exception UnicodeDecodeError [])"
  "cv_float_of_int cv i = None \<Longrightarrow> dataclass_from_dict cv ExecutionConfig ''execution'' [(''timeout_seconds'', TInt i)] =
     Inl (Python_Exception OverflowError ''int too large to convert to float'')"
  by (simp_all add: build_section_def dict_getd_def merge_layers_def load_layer_def load_toml_file_def
      dataclass_from_dict.simps flat_keyword_args [OF flat_execution] execution_fields coerce_annotation coerce_float_def)

text \<open>When the files cannot be read again, the overrides are kept although they have no effect yet.\<close>

lemma overrides_kept:
  assumes "set_cli_overrides cv w cli st = (Inl e, st')"
  shows "cs_cli_overrides st' = cli \<and> cs_merged st' = cs_merged st \<and> cs_instances st' = cs_instances st"
  using assms by (auto simp: set_cli_overrides_def reload_def split: sum.splits)

text \<open>A field whose annotation is a string is never a nested section: under postponed evaluation of annotations the
  table is passed as it is.\<close>

lemma nested_by_name_not_built:
  assumes "annotation \<notin> {''str'', ''int'', ''float'', ''bool''}"
  shows "keyword_args cv (Section_Type name [(''inner'', Annotation annotation)] mk) sec [(''inner'', TTable d)] =
    Inr [(''inner'', Plain (TTable d))]"
  using assms by (simp add: coerce_field_value_def resolve_type_def)

end
