(* ===== verification/Migrations.thy ===== *)
theory Migrations
  imports Mirror_Config
begin

text \<open>
  The migration runner (\<open>src/debcraft/infrastructure/database/runner.py\<close>) with the migration scripts under
  \<open>database/migrations\<close>, and the tables the mapped classes of \<open>infrastructure/models\<close> need. A run works in one session;
  what it leaves is the session's view of the database, which the caller commits. The scripts are DDL: a database is a
  schema for them, any type for the runner. Names of files have at most 255 characters, so that \<open>int\<close> reads every version.
\<close>

section \<open>Discovery\<close>

text \<open>\<open>re.compile(r"^v(\d+)_.*\.py$")\<close>: \<open>.\<close> is no line feed, and \<open>$\<close> may stand before a last one.\<close>

definition ends_py :: "string \<Rightarrow> bool" where
  "ends_py s = (let body = (if s \<noteq> [] \<and> last s = LF then butlast s else s)
     in endswith body ''.py'' \<and> LF \<notin> set body)"

definition version_match :: "string \<Rightarrow> nat option" where
  "version_match name = (case name of [] \<Rightarrow> None
   | c # rest \<Rightarrow>
       (let digits = takeWhile is_digit rest; after = dropWhile is_digit rest in
        if c = CHR ''v'' \<and> digits \<noteq> [] \<and> after \<noteq> [] \<and> hd after = CHR ''_'' \<and> ends_py (tl after)
        then Some (foldl (\<lambda>a d. 10 * a + the (digit_val 10 d)) 0 digits) else None))"

text \<open>The entries of a directory with whether they are files; \<open>None\<close> when it is no directory.\<close>

definition discover_migrations :: "(string \<times> bool) list option \<Rightarrow> (nat \<times> string) list" where
  "discover_migrations directory = (case directory of None \<Rightarrow> []
   | Some entries \<Rightarrow> sort_key fst (List.map_filter (\<lambda>(name, is_file).
       if is_file then map_option (\<lambda>v. (v, name)) (version_match name) else None) entries))"

section \<open>The runner\<close>

text \<open>A module of a migration: it cannot be loaded (\<open>spec\<close> is \<open>None\<close>, or executing it raises), it has no \<open>migrate\<close>, or it
  has one, which raises or gives the new content.\<close>

datatype 'db migration = Not_Loadable string | No_Migrate | Migrate "'db \<Rightarrow> string + 'db"

datatype migration_error = MigrationError nat string string

record 'db database =
  db_content :: 'db
  db_history :: "nat list option"
  db_events :: "(string \<times> nat) list"

definition ensure_history_table :: "'db database \<Rightarrow> 'db database" where
  "ensure_history_table st = (case db_history st of None \<Rightarrow> st\<lparr>db_history := Some []\<rparr> | Some _ \<Rightarrow> st)"

definition get_applied_versions :: "'db database \<Rightarrow> nat list" where
  "get_applied_versions st = (case db_history st of None \<Rightarrow> [] | Some versions \<Rightarrow> versions)"

text \<open>The body of the loop inside the savepoint: the module, and the row of the history with its primary key.\<close>

definition migrate_one :: "(string \<Rightarrow> 'db migration) \<Rightarrow> nat \<Rightarrow> string \<Rightarrow> 'db database \<Rightarrow> string + 'db database" where
  "migrate_one modules version path st = (case modules path of
     Not_Loadable cause \<Rightarrow> Inl cause
   | No_Migrate \<Rightarrow> Inl (concat [''Migration module '', path, '' does not define a '', [CHR 0x27], ''migrate'', [CHR 0x27], '' function''])
   | Migrate f \<Rightarrow> (case f (db_content st) of
       Inl cause \<Rightarrow> Inl cause
     | Inr content \<Rightarrow>
         if version \<in> set (get_applied_versions st) then Inl ''UNIQUE constraint failed: _migration_history.version''
         else Inr (st\<lparr>db_content := content, db_history := Some (get_applied_versions st @ [version])\<rparr>)))"

fun apply_pending :: "(string \<Rightarrow> 'db migration) \<Rightarrow> string \<Rightarrow> (nat \<times> string) list \<Rightarrow> 'db database \<Rightarrow>
    (migration_error + unit) \<times> 'db database" where
  "apply_pending modules db_name [] st = (Inr (), st)"
| "apply_pending modules db_name ((version, path) # pending) st = (case migrate_one modules version path st of
     Inl cause \<Rightarrow> (Inl (MigrationError version db_name cause), st)
   | Inr st' \<Rightarrow> apply_pending modules db_name pending (st'\<lparr>db_events := db_events st' @ [(db_name, version)]\<rparr>))"

definition pending_migrations :: "(string \<times> bool) list option \<Rightarrow> 'db database \<Rightarrow> (nat \<times> string) list" where
  "pending_migrations directory st =
     filter (\<lambda>(version, path). version \<notin> set (get_applied_versions st)) (discover_migrations directory)"

definition run_pending :: "(string \<Rightarrow> 'db migration) \<Rightarrow> string \<Rightarrow> (string \<times> bool) list option \<Rightarrow> 'db database \<Rightarrow>
    (migration_error + unit) \<times> 'db database" where
  "run_pending modules db_name directory st =
     (let st = ensure_history_table st in apply_pending modules db_name (pending_migrations directory st) st)"

section \<open>What a run leaves\<close>

text \<open>The content after a list of migrations, when none of them fails.\<close>

fun migrated :: "(string \<Rightarrow> 'db migration) \<Rightarrow> (nat \<times> string) list \<Rightarrow> 'db \<Rightarrow> 'db option" where
  "migrated modules [] content = Some content"
| "migrated modules ((version, path) # rest) content = (case modules path of
     Migrate f \<Rightarrow> (case f content of Inl _ \<Rightarrow> None | Inr content' \<Rightarrow> migrated modules rest content')
   | _ \<Rightarrow> None)"

lemma applied_ensure: "get_applied_versions (ensure_history_table st) = get_applied_versions st"
  by (simp add: ensure_history_table_def get_applied_versions_def split: option.split)

lemma migrate_one_Inr:
  "migrate_one modules v p st = Inr st' \<longleftrightarrow> v \<notin> set (get_applied_versions st) \<and>
    (\<exists>content. migrated modules [(v, p)] (db_content st) = Some content \<and>
       st' = st\<lparr>db_content := content, db_history := Some (get_applied_versions st @ [v])\<rparr>)"
  by (auto simp: migrate_one_def split: migration.splits sum.splits)

lemma migrated_Cons:
  "migrated modules ((v, p) # rest) content = (case migrated modules [(v, p)] content of None \<Rightarrow> None | Some c \<Rightarrow> migrated modules rest c)"
  by (auto split: migration.split sum.split)

lemma migrated_cong: "(\<And>v p. (v, p) \<in> set l \<Longrightarrow> modules' p = modules p) \<Longrightarrow> migrated modules' l content = migrated modules l content"
proof (induction l arbitrary: content)
  case (Cons e l)
  obtain v p where e: "e = (v, p)" by force
  then have "modules' p = modules p" "migrated modules' l = migrated modules l" using Cons by (auto intro: ext)
  then show ?case by (simp add: e split: migration.split sum.split)
qed simp

lemma apply_pending_result:
  assumes "apply_pending modules db_name pending st = (r, st')"
  shows "\<exists>done rest. pending = done @ rest
    \<and> apply_pending modules db_name done st = (Inr (), st')
    \<and> migrated modules done (db_content st) = Some (db_content st')
    \<and> get_applied_versions st' = get_applied_versions st @ map fst done
    \<and> db_events st' = db_events st @ map (\<lambda>(v, p). (db_name, v)) done
    \<and> (case r of Inr _ \<Rightarrow> rest = []
       | Inl e \<Rightarrow> \<exists>v p more cause. rest = (v, p) # more \<and> e = MigrationError v db_name cause \<and> migrate_one modules v p st' = Inl cause)"
  using assms
proof (induction modules db_name pending st rule: apply_pending.induct)
  case (2 modules db_name v p pending st)
  show ?case
  proof (cases "migrate_one modules v p st")
    case (Inl cause)
    then have "r = Inl (MigrationError v db_name cause)" "st' = st" using "2.prems" by auto
    then show ?thesis using Inl by (intro exI [of _ "[]"] exI [of _ "(v, p) # pending"]) simp
  next
    case (Inr st1)
    let ?st2 = "st1\<lparr>db_events := db_events st1 @ [(db_name, v)]\<rparr>"
    from "2.IH" [OF Inr] "2.prems" Inr obtain d rest where d: "pending = d @ rest"
        "apply_pending modules db_name d ?st2 = (Inr (), st')" "migrated modules d (db_content ?st2) = Some (db_content st')"
        "get_applied_versions st' = get_applied_versions ?st2 @ map fst d"
        "db_events st' = db_events ?st2 @ map (\<lambda>(v, p). (db_name, v)) d"
        "case r of Inr _ \<Rightarrow> rest = []
         | Inl e \<Rightarrow> \<exists>v p more cause. rest = (v, p) # more \<and> e = MigrationError v db_name cause \<and> migrate_one modules v p st' = Inl cause"
      by auto
    from Inr obtain content where c: "migrated modules [(v, p)] (db_content st) = Some content"
        "st1 = st\<lparr>db_content := content, db_history := Some (get_applied_versions st @ [v])\<rparr>"
      by (auto simp: migrate_one_Inr)
    show ?thesis
      using d c Inr by (intro exI [of _ "(v, p) # d"] exI [of _ rest])
        (simp add: migrated_Cons [of modules v p d] get_applied_versions_def del: migrated.simps(2))
  qed
qed auto


lemma apply_pending_append:
  "apply_pending modules db_name l st = (Inr (), st') \<Longrightarrow>
    apply_pending modules db_name (l @ rest) st = apply_pending modules db_name rest st'"
  by (induction modules db_name l st rule: apply_pending.induct) (auto split: sum.splits)

lemma apply_pending_cong:
  "(\<And>v p. (v, p) \<in> set l \<Longrightarrow> modules' p = modules p) \<Longrightarrow> apply_pending modules' db_name l st = apply_pending modules db_name l st"
proof (induction l arbitrary: st)
  case (Cons e l)
  obtain v p where e: "e = (v, p)" by force
  then have "modules' p = modules p" "apply_pending modules' db_name l = apply_pending modules db_name l"
    using Cons by (auto intro: ext)
  then show ?case by (simp add: e migrate_one_def split: sum.split)
qed simp

lemma history_kept:
  "apply_pending modules db_name l st = (r, st') \<Longrightarrow> db_history st \<noteq> None \<Longrightarrow> db_history st' \<noteq> None"
  by (induction modules db_name l st rule: apply_pending.induct) (auto simp: migrate_one_Inr split: sum.splits)

lemma sorted_pending: "sorted (map fst (pending_migrations directory st))"
  by (auto simp: pending_migrations_def discover_migrations_def sorted_filter split: option.split)

text \<open>A run applies an initial segment of the pending migrations.\<close>

lemma run_pending_segment:
  assumes "run_pending modules db_name directory st = (r, st')"
  shows "\<exists>done rest. pending_migrations directory st = done @ rest
    \<and> apply_pending modules db_name done (ensure_history_table st) = (Inr (), st')
    \<and> migrated modules done (db_content st) = Some (db_content st')
    \<and> get_applied_versions st' = get_applied_versions st @ map fst done
    \<and> db_events st' = db_events st @ map (\<lambda>(v, p). (db_name, v)) done
    \<and> (case r of Inr _ \<Rightarrow> rest = []
       | Inl e \<Rightarrow> \<exists>v p more cause. rest = (v, p) # more \<and> e = MigrationError v db_name cause \<and> migrate_one modules v p st' = Inl cause)"
proof -
  have same: "pending_migrations directory (ensure_history_table st) = pending_migrations directory st"
    "db_content (ensure_history_table st) = db_content st" "db_events (ensure_history_table st) = db_events st"
    by (simp_all add: pending_migrations_def applied_ensure) (simp_all add: ensure_history_table_def split: option.split)
  have "apply_pending modules db_name (pending_migrations directory st) (ensure_history_table st) = (r, st')"
    using assms by (simp add: run_pending_def Let_def same)
  from apply_pending_result [OF this] show ?thesis by (simp add: applied_ensure same)
qed

text \<open>Property C32. A run of the migrations applies, in ascending order of their versions, an initial segment of those that
  are not in the history: the content is what this segment makes of the old one, its versions are appended to the history,
  and there is one event for each. The run succeeds when the segment is everything; otherwise it raises for the first
  migration after the segment, and of that one and the later ones nothing is left.\<close>

theorem run_pending_applies:
  assumes "run_pending modules db_name directory st = (r, st')"
  shows "\<exists>done rest. pending_migrations directory st = done @ rest \<and> sorted (map fst (done @ rest))
    \<and> migrated modules done (db_content st) = Some (db_content st')
    \<and> get_applied_versions st' = get_applied_versions st @ map fst done
    \<and> db_events st' = db_events st @ map (\<lambda>(v, p). (db_name, v)) done
    \<and> (case r of Inr _ \<Rightarrow> rest = []
       | Inl e \<Rightarrow> \<exists>v p more cause. rest = (v, p) # more \<and> e = MigrationError v db_name cause \<and> migrate_one modules v p st' = Inl cause)"
proof -
  obtain d rest where d: "pending_migrations directory st = d @ rest" "migrated modules d (db_content st) = Some (db_content st')"
    "get_applied_versions st' = get_applied_versions st @ map fst d"
    "db_events st' = db_events st @ map (\<lambda>(v, p). (db_name, v)) d"
    "case r of Inr _ \<Rightarrow> rest = []
       | Inl e \<Rightarrow> \<exists>v p more cause. rest = (v, p) # more \<and> e = MigrationError v db_name cause \<and> migrate_one modules v p st' = Inl cause"
    using run_pending_segment [OF assms] by blast
  then show ?thesis using sorted_pending [of directory st] by (intro exI [of _ d] exI [of _ rest]) (simp only: simp_thms)
qed

definition example_modules :: "string \<Rightarrow> nat list migration" where
  "example_modules path = (if path = ''v1_a.py'' then Migrate (\<lambda>db. Inr (1 # db))
     else if path = ''v2_b.py'' then Migrate (\<lambda>db. Inr (2 # db))
     else if path = ''v10_c.py'' then Migrate (\<lambda>db. Inl ''boom'') else No_Migrate)"

definition example_directory_entries :: "(string \<times> bool) list option" where
  "example_directory_entries = Some [(''v10_c.py'', True), (''__init__.py'', True), (''v2_b.py'', True), (''v3_dir.py'', False), (''v1_a.py'', True)]"

definition empty_database :: "'db \<Rightarrow> 'db database" where
  "empty_database content = \<lparr>db_content = content, db_history = None, db_events = []\<rparr>"

lemma example_run:
  "run_pending example_modules ''mirror'' example_directory_entries (empty_database []) =
    (Inl (MigrationError 10 ''mirror'' ''boom''),
     \<lparr>db_content = [2, 1], db_history = Some [1, 2], db_events = [(''mirror'', 1), (''mirror'', 2)]\<rparr>)"
  by code_simp

theorem run_pending_applies_witness:
  "\<exists>done rest. pending_migrations example_directory_entries (empty_database ([] :: nat list)) = done @ rest
    \<and> migrated example_modules done [] = Some [2, 1] \<and> rest \<noteq> []"
  using run_pending_applies [OF example_run] by (auto simp: empty_database_def)

text \<open>Property C33. A failed run can be taken up again. When the versions of the files differ, running repaired scripts on what
  a run left gives the same result and the same database as running them from the start, provided that the scripts of the
  applied versions are as they were. So a second run after a successful one changes nothing.\<close>

theorem migrations_resume:
  assumes "run_pending modules db_name directory st = (r, st')" and "distinct (map fst (discover_migrations directory))"
    and "\<And>v p. (v, p) \<in> set (discover_migrations directory) \<Longrightarrow> v \<in> set (get_applied_versions st') \<Longrightarrow> modules' p = modules p"
  shows "run_pending modules' db_name directory st' = run_pending modules' db_name directory st"
proof -
  obtain d rest where d: "pending_migrations directory st = d @ rest"
    "apply_pending modules db_name d (ensure_history_table st) = (Inr (), st')"
    "get_applied_versions st' = get_applied_versions st @ map fst d"
    using run_pending_segment [OF assms(1)] by blast
  have in_d: "(v, p) \<in> set (discover_migrations directory)" if "(v, p) \<in> set d" for v p
    using that d(1) by (metis (no_types, lifting) Un_iff filter_is_subset pending_migrations_def set_append subsetD)
  have "modules' p = modules p" if "(v, p) \<in> set d" for v p
    using assms(3) [OF in_d [OF that]] d(3) that by force
  then have applied: "apply_pending modules' db_name d (ensure_history_table st) = (Inr (), st')"
    using apply_pending_cong d(2) by metis
  have "distinct (map fst (d @ rest))"
    using assms(2) d(1) by (metis distinct_map_filter pending_migrations_def)
  then have "fst ` set d \<inter> fst ` set rest = {}" by simp
  then have "filter (\<lambda>(v, p). v \<notin> fst ` set d) rest = rest" by (force intro: filter_True)
  moreover have "filter (\<lambda>(v, p). v \<notin> fst ` set d) d = []" by (force simp: filter_empty_conv)
  ultimately have "filter (\<lambda>(v, p). v \<notin> fst ` set d) (d @ rest) = rest" by simp
  moreover have "pending_migrations directory st' = filter (\<lambda>(v, p). v \<notin> fst ` set d) (pending_migrations directory st)"
    unfolding pending_migrations_def d(3) by (auto simp: filter_filter intro: filter_cong)
  ultimately have rest: "pending_migrations directory st' = rest" by (simp add: d(1))
  have ensured: "ensure_history_table st' = st'" "pending_migrations directory (ensure_history_table s) = pending_migrations directory s" for s
  proof -
    have "db_history st' \<noteq> None"
      by (rule history_kept [OF d(2)]) (simp add: ensure_history_table_def split: option.split)
    then show "ensure_history_table st' = st'" by (auto simp: ensure_history_table_def)
  qed (simp add: pending_migrations_def applied_ensure)
  show ?thesis
    unfolding run_pending_def Let_def ensured rest d(1) apply_pending_append [OF applied] ..
qed


definition example_repaired :: "string \<Rightarrow> nat list migration" where
  "example_repaired path = (if path = ''v10_c.py'' then Migrate (\<lambda>db. Inr (10 # db)) else example_modules path)"

theorem migrations_resume_witness:
  "run_pending example_repaired ''mirror'' example_directory_entries
     \<lparr>db_content = [2, 1], db_history = Some [1, 2], db_events = [(''mirror'', 1), (''mirror'', 2)]\<rparr> =
   (Inr (), \<lparr>db_content = [10, 2, 1], db_history = Some [1, 2, 10], db_events = [(''mirror'', 1), (''mirror'', 2), (''mirror'', 10)]\<rparr>)"
proof -
  have d: "discover_migrations example_directory_entries = [(1, ''v1_a.py''), (2, ''v2_b.py''), (10, ''v10_c.py'')]" by code_simp
  have "run_pending example_repaired ''mirror'' example_directory_entries
      \<lparr>db_content = [2, 1], db_history = Some [1, 2], db_events = [(''mirror'', 1), (''mirror'', 2)]\<rparr> =
    run_pending example_repaired ''mirror'' example_directory_entries (empty_database [])"
    by (rule migrations_resume [OF example_run]) (auto simp: d get_applied_versions_def example_repaired_def)
  also have "\<dots> = (Inr (), \<lparr>db_content = [10, 2, 1], db_history = Some [1, 2, 10],
      db_events = [(''mirror'', 1), (''mirror'', 2), (''mirror'', 10)]\<rparr>)"
    by code_simp
  finally show ?thesis .
qed

text \<open>Two files with one version: the second is never applied, not even by later runs. And a lower version that arrives late
  is applied after the higher ones.\<close>

definition twin_modules :: "string \<Rightarrow> nat list migration" where
  "twin_modules path = Migrate (\<lambda>db. Inr (length path # db))"

lemma twin_versions:
  "run_pending twin_modules ''cache'' (Some [(''v1_a.py'', True), (''v1_bb.py'', True)]) (empty_database []) =
     (Inl (MigrationError 1 ''cache'' ''UNIQUE constraint failed: _migration_history.version''),
      \<lparr>db_content = [7], db_history = Some [1], db_events = [(''cache'', 1)]\<rparr>)"
  "run_pending twin_modules ''cache'' (Some [(''v1_a.py'', True), (''v1_bb.py'', True)])
     \<lparr>db_content = [7], db_history = Some [1], db_events = [(''cache'', 1)]\<rparr> =
     (Inr (), \<lparr>db_content = [7], db_history = Some [1], db_events = [(''cache'', 1)]\<rparr>)"
  by code_simp+

lemma late_version:
  "run_pending twin_modules ''cache'' (Some [(''v3_c.py'', True), (''v2_late.py'', True)])
     \<lparr>db_content = [7], db_history = Some [3], db_events = []\<rparr> =
     (Inr (), \<lparr>db_content = [10, 7], db_history = Some [3, 2], db_events = [(''cache'', 2)]\<rparr>)"
  by code_simp

section \<open>The scripts\<close>

datatype sql_type = INTEGER | TEXT

datatype column_constraint = PRIMARY_KEY_AUTOINCREMENT | NOT_NULL | UNIQUE | DEFAULT_NOW | DEFAULT_INT nat | REFERENCES string

type_synonym column = "string \<times> sql_type \<times> column_constraint list"

text \<open>A table is created with its columns and its constraints over several columns; an index is unique or not.\<close>

datatype statement =
    CREATE_TABLE string "column list" "string list list"
  | CREATE_INDEX bool string string "string list"
  | ADD_COLUMN string column

record schema =
  sc_tables :: "(string, column list \<times> string list list) dict"
  sc_indexes :: "(string, bool \<times> string \<times> string list) dict"

definition names_used :: "schema \<Rightarrow> string list" where
  "names_used s = map fst (sc_tables s) @ map fst (sc_indexes s)"

definition execute_ddl :: "statement \<Rightarrow> schema \<Rightarrow> string + schema" where
  "execute_ddl stmt s = (case stmt of
     CREATE_TABLE name columns uniques \<Rightarrow>
       (if name \<in> set (names_used s) then Inl (''already exists: '' @ name)
        else Inr (s\<lparr>sc_tables := dict_set (sc_tables s) name (columns, uniques)\<rparr>))
   | CREATE_INDEX unique name table columns \<Rightarrow>
       (case dict_get (sc_tables s) table of
          None \<Rightarrow> Inl (''no such table: '' @ table)
        | Some (cols, _) \<Rightarrow>
            if name \<in> set (names_used s) then Inl (''already exists: '' @ name)
            else if \<not> set columns \<subseteq> set (map fst cols) then Inl ''no such column''
            else Inr (s\<lparr>sc_indexes := dict_set (sc_indexes s) name (unique, table, columns)\<rparr>))
   | ADD_COLUMN table column \<Rightarrow>
       (case dict_get (sc_tables s) table of
          None \<Rightarrow> Inl (''no such table: '' @ table)
        | Some (cols, uniques) \<Rightarrow>
            if fst column \<in> set (map fst cols) then Inl (''duplicate column name: '' @ fst column)
            else Inr (s\<lparr>sc_tables := dict_set (sc_tables s) table (cols @ [column], uniques)\<rparr>)))"

definition script :: "statement list \<Rightarrow> schema migration" where
  "script stmts = Migrate (fold_exc execute_ddl stmts)"

definition id_column :: column where "id_column = (''id'', INTEGER, [PRIMARY_KEY_AUTOINCREMENT])"

definition timestamps :: "column list" where
  "timestamps = [(''created_at'', TEXT, [NOT_NULL, DEFAULT_NOW]), (''updated_at'', TEXT, [NOT_NULL, DEFAULT_NOW])]"

definition text_columns :: "string list \<Rightarrow> column list" where "text_columns names = map (\<lambda>n. (n, TEXT, [NOT_NULL])) names"

definition v1_create_repository_files :: "statement list" where
  "v1_create_repository_files =
    [CREATE_TABLE ''repository_files'' ([id_column, (''url'', TEXT, [NOT_NULL, UNIQUE]), (''sha256'', TEXT, [NOT_NULL]),
       (''size_bytes'', INTEGER, [NOT_NULL]), (''state'', TEXT, [NOT_NULL]), (''retry_count'', INTEGER, [NOT_NULL, DEFAULT_INT 0]),
       (''local_path'', TEXT, [])] @ timestamps) [],
     CREATE_INDEX True ''ix_repository_files_url'' ''repository_files'' [''url''],
     CREATE_INDEX False ''ix_repository_files_sha256'' ''repository_files'' [''sha256''],
     CREATE_INDEX False ''ix_repository_files_state'' ''repository_files'' [''state'']]"

definition v1_create_cache_tables :: "statement list" where
  "v1_create_cache_tables =
    [CREATE_TABLE ''parsed_dep5'' ([id_column, (''source_sha256'', TEXT, [NOT_NULL, UNIQUE]), (''parsed_ast'', TEXT, [NOT_NULL]),
       (''valid'', INTEGER, [NOT_NULL, DEFAULT_INT 1])] @ timestamps) [],
     CREATE_INDEX True ''ix_parsed_dep5_source_sha256'' ''parsed_dep5'' [''source_sha256''],
     CREATE_TABLE ''normalized_licenses'' ([id_column, (''raw_expression'', TEXT, [NOT_NULL, UNIQUE]),
       (''normalized_expression'', TEXT, [NOT_NULL]), (''valid'', INTEGER, [NOT_NULL, DEFAULT_INT 1])] @ timestamps) [],
     CREATE_INDEX True ''ix_normalized_licenses_raw_expression'' ''normalized_licenses'' [''raw_expression''],
     CREATE_TABLE ''checksum_cache'' ([id_column, (''content_sha256'', TEXT, [NOT_NULL, UNIQUE]), (''computed_hash'', TEXT, [NOT_NULL]),
       (''valid'', INTEGER, [NOT_NULL, DEFAULT_INT 1])] @ timestamps) [],
     CREATE_INDEX True ''ix_checksum_cache_content_sha256'' ''checksum_cache'' [''content_sha256'']]"

definition v1_create_metadata_tables :: "statement list" where
  "v1_create_metadata_tables =
    [CREATE_TABLE ''repositories'' ([id_column, (''name'', TEXT, [NOT_NULL, UNIQUE])] @ text_columns [''base_url'', ''suite'', ''component''] @ timestamps) [],
     CREATE_TABLE ''repository_snapshots'' ([id_column, (''repository_id'', INTEGER, [NOT_NULL, REFERENCES ''repositories'']),
       (''schema_version'', INTEGER, [NOT_NULL]), (''captured_at'', TEXT, [NOT_NULL]), (''published'', INTEGER, [NOT_NULL, DEFAULT_INT 0])] @ timestamps) [],
     CREATE_INDEX False ''ix_repository_snapshots_repository_id'' ''repository_snapshots'' [''repository_id''],
     CREATE_TABLE ''package_instances'' ([id_column] @ text_columns [''package_name'', ''version'', ''architecture'', ''filename'', ''sha256''] @
       [(''size_bytes'', INTEGER, [NOT_NULL]), (''snapshot_id'', INTEGER, [NOT_NULL, REFERENCES ''repository_snapshots''])] @ timestamps)
       [[''package_name'', ''version'', ''architecture'', ''filename'']],
     CREATE_INDEX False ''ix_package_instances_package_name'' ''package_instances'' [''package_name''],
     CREATE_INDEX False ''ix_package_instances_sha256'' ''package_instances'' [''sha256''],
     CREATE_INDEX False ''ix_package_instances_snapshot_id'' ''package_instances'' [''snapshot_id''],
     CREATE_TABLE ''source_packages'' ([id_column] @ text_columns [''name'', ''version''] @ [(''maintainer'', TEXT, [])] @ timestamps) [[''name'', ''version'']],
     CREATE_TABLE ''license_expressions'' ([id_column, (''package_id'', INTEGER, [NOT_NULL, REFERENCES ''package_instances''])] @
       text_columns [''expression'', ''source''] @ timestamps) [],
     CREATE_INDEX False ''ix_license_expressions_package_id'' ''license_expressions'' [''package_id'']]"

definition v2_create_scan_tables :: "statement list" where
  "v2_create_scan_tables =
    [CREATE_TABLE ''scan_sessions'' ([id_column, (''snapshot_id'', INTEGER, [NOT_NULL, REFERENCES ''repository_snapshots'']),
       (''state'', TEXT, [NOT_NULL]), (''started_at'', TEXT, [NOT_NULL]), (''completed_at'', TEXT, [])] @ timestamps) [],
     CREATE_INDEX False ''ix_scan_sessions_snapshot_id'' ''scan_sessions'' [''snapshot_id''],
     CREATE_INDEX False ''ix_scan_sessions_state'' ''scan_sessions'' [''state''],
     CREATE_TABLE ''sbom_documents'' ([id_column, (''scan_session_id'', INTEGER, [NOT_NULL, REFERENCES ''scan_sessions''])] @
       text_columns [''format'', ''content_path'', ''sha256''] @ timestamps) [],
     CREATE_INDEX False ''ix_sbom_documents_scan_session_id'' ''sbom_documents'' [''scan_session_id''],
     CREATE_INDEX False ''ix_sbom_documents_sha256'' ''sbom_documents'' [''sha256'']]"

definition v3_add_indexer_tables :: "statement list" where
  "v3_add_indexer_tables =
    map (\<lambda>n. ADD_COLUMN ''package_instances'' (n, TEXT, [])) [''source_package'', ''source_version'', ''homepage'', ''maintainer'',
      ''depends'', ''provides'', ''section'', ''priority'', ''description'', ''download_url'']
    @ map (\<lambda>n. ADD_COLUMN ''source_packages'' (n, TEXT, [])) [''uploaders'', ''section'', ''homepage'', ''build_depends'', ''binary_packages'']
    @ [ADD_COLUMN ''source_packages'' (''snapshot_id'', INTEGER, [REFERENCES ''repository_snapshots'']),
     CREATE_TABLE ''file_ownerships'' ([id_column, (''snapshot_id'', INTEGER, [NOT_NULL, REFERENCES ''repository_snapshots''])] @
       text_columns [''file_path'', ''package_name''] @ timestamps) [],
     CREATE_INDEX False ''ix_file_ownerships_snapshot_id'' ''file_ownerships'' [''snapshot_id''],
     CREATE_INDEX False ''ix_file_ownerships_file_path'' ''file_ownerships'' [''file_path''],
     CREATE_INDEX False ''ix_file_ownerships_package_name'' ''file_ownerships'' [''package_name''],
     CREATE_TABLE ''indexing_records'' [id_column, (''repository_file_id'', INTEGER, [NOT_NULL]), (''parser_version'', INTEGER, [NOT_NULL]),
       (''indexed_sha256'', TEXT, [NOT_NULL]), (''indexed_at'', TEXT, [NOT_NULL, DEFAULT_NOW])] [[''repository_file_id'']],
     CREATE_INDEX False ''ix_indexing_records_file_id'' ''indexing_records'' [''repository_file_id'']]"


definition bundled :: "(string, (string, statement list) dict) dict" where
  "bundled =
    [(''mirror'', [(''v1_create_repository_files.py'', v1_create_repository_files)]),
     (''metadata'', [(''v1_create_metadata_tables.py'', v1_create_metadata_tables), (''v2_create_scan_tables.py'', v2_create_scan_tables),
       (''v3_add_indexer_tables.py'', v3_add_indexer_tables)]),
     (''cache'', [(''v1_create_cache_tables.py'', v1_create_cache_tables)])]"

definition bundled_modules :: "(string, statement list) dict \<Rightarrow> string \<Rightarrow> schema migration" where
  "bundled_modules scripts path = (case dict_get scripts path of None \<Rightarrow> No_Migrate | Some stmts \<Rightarrow> script stmts)"

definition run_bundled :: "string \<Rightarrow> (migration_error + unit) \<times> schema database" where
  "run_bundled db_name = (let scripts = dict_getd bundled db_name [] in
     run_pending (bundled_modules scripts) db_name (Some ((''__init__.py'', True) # map (\<lambda>(path, _). (path, True)) scripts))
       (empty_database \<lparr>sc_tables = [], sc_indexes = []\<rparr>))"

text \<open>The mapped classes of each database: the names of their columns, those of \<open>TimestampMixin\<close> last.\<close>

definition stamped :: "string list \<Rightarrow> string list" where
  "stamped columns = ''id'' # columns @ [''created_at'', ''updated_at'']"

definition mapped_mirror :: "(string, string list) dict" where
  "mapped_mirror =
    [(''repository_files'', stamped [''url'', ''sha256'', ''size_bytes'', ''state'', ''retry_count'', ''local_path'', ''etag'', ''last_modified'']),
     (''sync_sessions'', stamped [''session_id'', ''repository_name'', ''status'', ''files_downloaded'', ''files_skipped'', ''files_failed'',
       ''bytes_transferred'', ''started_at'', ''completed_at''])]"

definition mapped_metadata :: "(string, string list) dict" where
  "mapped_metadata =
    [(''file_ownerships'', stamped [''snapshot_id'', ''file_path'', ''package_name'']),
     (''indexing_records'', [''id'', ''repository_file_id'', ''parser_version'', ''indexed_sha256'', ''indexed_at'']),
     (''repositories'', stamped [''name'', ''base_url'', ''suite'', ''component'']),
     (''repository_snapshots'', stamped [''repository_id'', ''schema_version'', ''captured_at'', ''published'']),
     (''package_instances'', stamped [''package_name'', ''version'', ''architecture'', ''filename'', ''sha256'', ''size_bytes'', ''snapshot_id'',
       ''source_package'', ''source_version'', ''homepage'', ''maintainer'', ''depends'', ''provides'', ''section'', ''priority'',
       ''description'', ''download_url'']),
     (''source_packages'', stamped [''name'', ''version'', ''maintainer'', ''uploaders'', ''section'', ''homepage'', ''build_depends'',
       ''binary_packages'', ''snapshot_id'']),
     (''license_expressions'', stamped [''package_id'', ''expression'', ''source''])]"

definition mapped_scan :: "(string, string list) dict" where
  "mapped_scan =
    [(''scan_sessions'', stamped [''snapshot_id'', ''state'', ''started_at'', ''completed_at'']),
     (''sbom_documents'', stamped [''scan_session_id'', ''format'', ''content_path'', ''sha256''])]"

definition mapped_cache :: "(string, string list) dict" where
  "mapped_cache =
    [(''parsed_dep5'', stamped [''source_sha256'', ''parsed_ast'', ''valid'']),
     (''normalized_licenses'', stamped [''raw_expression'', ''normalized_expression'', ''valid'']),
     (''checksum_cache'', stamped [''content_sha256'', ''computed_hash'', ''valid'']),
     (''parsed_deb_packages'', stamped [''sha256'', ''parser_version'', ''control_metadata'', ''dependencies'', ''copyright_text'', ''file_listing'']),
     (''cached_enrichments'', stamped [''package_name'', ''version'', ''architecture'', ''snapshot_id'', ''source_package'', ''maintainer'',
       ''homepage'', ''depends'', ''section'', ''priority'', ''description'', ''sha256'', ''download_url'', ''purl'',
       ''license_expressions_json'', ''local_deb_path''])]"

text \<open>The columns that a mapped class reads and writes and its table does not have.\<close>

definition missing_columns :: "schema \<Rightarrow> (string, string list) dict \<Rightarrow> (string \<times> string list) list" where
  "missing_columns s mapped = filter (\<lambda>(_, columns). columns \<noteq> []) (map (\<lambda>(table, columns).
     (table, filter (\<lambda>c. c \<notin> set (map fst (fst (dict_getd (sc_tables s) table ([], []))))) columns)) mapped)"

lemma bundled_succeed:
  "map (\<lambda>n. (fst (run_bundled n), db_history (snd (run_bundled n)))) [''mirror'', ''metadata'', ''cache''] =
    [(Inr (), Some [1]), (Inr (), Some [1, 2, 3]), (Inr (), Some [1])]"
  by code_simp

lemma mirror_schema_behind:
  "missing_columns (db_content (snd (run_bundled ''mirror''))) mapped_mirror =
    [(''repository_files'', [''etag'', ''last_modified'']), (''sync_sessions'', snd (mapped_mirror ! 1))]"
  by code_simp

lemma metadata_schema_complete: "missing_columns (db_content (snd (run_bundled ''metadata''))) (mapped_metadata @ mapped_scan) = []"
  by code_simp

lemma cache_schema_behind:
  "map fst (missing_columns (db_content (snd (run_bundled ''cache''))) mapped_cache) = [''parsed_deb_packages'', ''cached_enrichments'']"
  by code_simp

end
