(* ===== verification/Sbom.thy ===== *)
theory Sbom
  imports Scan_Values
begin

text \<open>
  The software bill of materials: the values of \<open>src/debcraft/domain/sbom/values.py\<close> with the checks of
  their constructors, and the assembly of a document from a scan (\<open>assembler.py\<close>).
\<close>

section \<open>Values\<close>

datatype relationship_type = DESCRIBES | CONTAINS | DEPENDS_ON | BUILD_TOOL_OF | OTHER_RELATIONSHIP

datatype checksum_algorithm = SHA256 | SHA1 | MD5

datatype external_reference_category = PACKAGE_MANAGER | SECURITY_ADVISORY | OTHER_CATEGORY

datatype output_format = SPDX_3_0 | SPDX_2_3 | CYCLONEDX

fun algorithm_value :: "checksum_algorithm \<Rightarrow> string" where
  "algorithm_value SHA256 = ''SHA256''"
| "algorithm_value SHA1 = ''SHA1''"
| "algorithm_value MD5 = ''MD5''"

fun HASH_LENGTHS :: "checksum_algorithm \<Rightarrow> nat" where
  "HASH_LENGTHS SHA256 = 64"
| "HASH_LENGTHS SHA1 = 40"
| "HASH_LENGTHS MD5 = 32"

text \<open>\<open>match\<close> of a pattern \<open>^...[class]+$\<close>, where the dollar sign also matches before a final line
  break.\<close>

definition without_final_LF :: "string \<Rightarrow> string" where
  "without_final_LF s = (if s \<noteq> [] \<and> last s = LF then butlast s else s)"

definition matches_class :: "(char \<Rightarrow> bool) \<Rightarrow> string \<Rightarrow> string \<Rightarrow> bool" where
  "matches_class safe prefix s \<longleftrightarrow> startswith s prefix \<and>
     (let rest = without_final_LF (drop (length prefix) s) in rest \<noteq> [] \<and> (\<forall>c \<in> set rest. safe c))"

definition spdx_safe :: "char \<Rightarrow> bool" where
  "spdx_safe c = (let n = of_char c :: nat in
     (97 \<le> n \<and> n \<le> 122) \<or> (65 \<le> n \<and> n \<le> 90) \<or> (48 \<le> n \<and> n \<le> 57) \<or> c = CHR ''.'' \<or> c = CHR ''-'')"

definition lower_hex :: "char \<Rightarrow> bool" where
  "lower_hex c = (let n = of_char c :: nat in (97 \<le> n \<and> n \<le> 102) \<or> (48 \<le> n \<and> n \<le> 57))"

definition SPDX_ID_PATTERN :: "string \<Rightarrow> bool" where "SPDX_ID_PATTERN s = matches_class spdx_safe ''SPDXRef-'' s"
definition LICENSE_REF_PATTERN :: "string \<Rightarrow> bool" where "LICENSE_REF_PATTERN s = matches_class spdx_safe ''LicenseRef-'' s"
definition HEX_PATTERN :: "string \<Rightarrow> bool" where "HEX_PATTERN s = matches_class lower_hex [] s"

record sbom_checksum =
  cs_algorithm :: checksum_algorithm
  cs_value :: string

record sbom_external_reference =
  er_category :: external_reference_category
  er_url :: string
  er_comment :: "string option"

record sbom_extracted_license =
  el_license_id :: string
  el_extracted_text :: string
  el_name :: "string option"
  el_cross_references :: "string list"

record sbom_creation_info =
  ci_tools :: "string list"
  ci_created :: string
  ci_creators :: "string list"
  ci_license_list_version :: "string option"

record sbom_package =
  bp_spdx_id :: string
  bp_name :: string
  bp_version :: "string option"
  bp_supplier :: "string option"
  bp_download_location :: "string option"
  bp_checksums :: "sbom_checksum list"
  bp_package_url :: "string option"
  bp_concluded_license :: "string option"
  bp_declared_license :: "string option"
  bp_copyright_text :: "string option"
  bp_description :: "string option"
  bp_external_references :: "sbom_external_reference list"

record sbom_relationship =
  rl_source_id :: string
  rl_target_id :: string
  rl_relationship_type :: relationship_type

record sbom_document =
  bd_namespace :: string
  bd_name :: string
  bd_creation_info :: sbom_creation_info
  bd_root_package :: sbom_package
  bd_packages :: "sbom_package list"
  bd_relationships :: "sbom_relationship list"
  bd_extracted_licenses :: "sbom_extracted_license list"
  bd_comment :: "string option"
  bd_provenance_tool :: "string option"
  bd_provenance_timestamp :: "string option"

record writer_result =
  wt_output_path :: string
  wt_format :: output_format
  wt_sha256 :: string
  wt_file_size :: int
  wt_diagnostics :: "string list"

section \<open>Constructors\<close>

text \<open>The \<open>__post_init__\<close> methods: the value, or the message of the \<open>ValueError\<close>.\<close>

definition check_checksum :: "sbom_checksum \<Rightarrow> string + sbom_checksum" where
  "check_checksum c = (let v = cs_value c; expected = HASH_LENGTHS (cs_algorithm c) in
     if length v \<noteq> expected then
       Inl (''SBOMChecksum.value: expected '' @ nat_str expected @ '' characters for '' @ algorithm_value (cs_algorithm c)
            @ '', got '' @ nat_str (length v))
     else if \<not> HEX_PATTERN v then
       Inl (''SBOMChecksum.value: must be lowercase hexadecimal, got '' @
            (if length v > 20 then quoted (take 20 v @ ''...'') else quoted v))
     else Inr c)"

definition check_external_reference :: "sbom_external_reference \<Rightarrow> string + sbom_external_reference" where
  "check_external_reference r = (if er_url r = [] then Inl ''SBOMExternalReference.url: must be non-empty'' else Inr r)"

definition check_extracted_license :: "sbom_extracted_license \<Rightarrow> string + sbom_extracted_license" where
  "check_extracted_license l =
     (if \<not> LICENSE_REF_PATTERN (el_license_id l) then
        Inl (''SBOMExtractedLicense.license_id: must match pattern '' @ quoted ''LicenseRef-[a-zA-Z0-9.-]+'' @ '', got '' @ quoted (el_license_id l))
      else if el_extracted_text l = [] then Inl ''SBOMExtractedLicense.extracted_text: must be non-empty''
      else Inr l)"

definition check_creation_info :: "sbom_creation_info \<Rightarrow> string + sbom_creation_info" where
  "check_creation_info i =
     (if ci_tools i = [] then Inl ''SBOMCreationInfo.tools: must contain at least one entry''
      else case List.find (\<lambda>(_, tool). \<not> startswith tool ''Tool: '') (enumerate 0 (ci_tools i)) of
        Some (k, tool) \<Rightarrow> Inl (''SBOMCreationInfo.tools['' @ nat_str k @ '']: must be in '' @ quoted ''Tool: name-version'' @ '' format, got '' @ quoted tool)
      | None \<Rightarrow>
          if ci_creators i = [] then Inl ''SBOMCreationInfo.creators: must contain at least one entry''
          else case List.find (\<lambda>(_, creator). creator = []) (enumerate 0 (ci_creators i)) of
            Some (k, _) \<Rightarrow> Inl (''SBOMCreationInfo.creators['' @ nat_str k @ '']: must be non-empty'')
          | None \<Rightarrow> Inr i)"

definition spdx_id_message :: "string \<Rightarrow> string \<Rightarrow> string" where
  "spdx_id_message field i = field @ '': must match pattern '' @ quoted ''SPDXRef-[a-zA-Z0-9.-]+'' @ '', got '' @ quoted i"

definition check_package :: "sbom_package \<Rightarrow> string + sbom_package" where
  "check_package p =
     (if \<not> SPDX_ID_PATTERN (bp_spdx_id p) then Inl (spdx_id_message ''SBOMPackage.spdx_id'' (bp_spdx_id p))
      else if bp_name p = [] then Inl ''SBOMPackage.name: must be non-empty''
      else Inr p)"

definition check_relationship :: "sbom_relationship \<Rightarrow> string + sbom_relationship" where
  "check_relationship r =
     (if \<not> SPDX_ID_PATTERN (rl_source_id r) then Inl (spdx_id_message ''SBOMRelationship.source_id'' (rl_source_id r))
      else if \<not> SPDX_ID_PATTERN (rl_target_id r) then Inl (spdx_id_message ''SBOMRelationship.target_id'' (rl_target_id r))
      else Inr r)"

definition check_document :: "sbom_document \<Rightarrow> string + sbom_document" where
  "check_document d =
     (if bd_namespace d = [] then Inl ''SBOMDocument.namespace: must be non-empty''
      else if bd_name d = [] then Inl ''SBOMDocument.name: must be non-empty''
      else if length (bd_name d) > 255 then Inl (''SBOMDocument.name: must be at most 255 characters, got '' @ nat_str (length (bd_name d)))
      else Inr d)"

definition check_writer_result :: "writer_result \<Rightarrow> string + writer_result" where
  "check_writer_result w =
     (if length (wt_sha256 w) \<noteq> 64 then Inl (''WriterResult.sha256: must be 64 characters, got '' @ nat_str (length (wt_sha256 w)))
      else if \<not> HEX_PATTERN (wt_sha256 w) then Inl ''WriterResult.sha256: must be lowercase hexadecimal''
      else if wt_file_size w < 0 then Inl (''WriterResult.file_size: must be non-negative, got '' @ int_str (wt_file_size w))
      else if length (wt_diagnostics w) > 1000 then
        Inl (''WriterResult.diagnostics: must have at most 1000 entries, got '' @ nat_str (length (wt_diagnostics w)))
      else Inr w)"

section \<open>The assembler\<close>

text \<open>The installed version of the package, the clock, \<open>hashlib.sha256(...).hexdigest()\<close> and \<open>uuid4()\<close>.\<close>

record assembler_env =
  ae_version :: "string option"
  ae_now :: string
  ae_sha256 :: "string \<Rightarrow> string"
  ae_uuid :: string

definition get_debcraft_version :: "assembler_env \<Rightarrow> string" where
  "get_debcraft_version env = (case ae_version env of None \<Rightarrow> ''unknown'' | Some v \<Rightarrow> v)"

definition build_creation_info :: "assembler_env \<Rightarrow> string \<Rightarrow> string + sbom_creation_info" where
  "build_creation_info env debcraft_version =
     check_creation_info \<lparr>ci_tools = [''Tool: debcraft-'' @ debcraft_version], ci_created = ae_now env,
       ci_creators = [''Tool: debcraft''], ci_license_list_version = None\<rparr>"

definition generate_namespace :: "assembler_env \<Rightarrow> string \<Rightarrow> string" where
  "generate_namespace env artifact_path =
     ''https://debcraft.io/spdxdocs/'' @ take 16 (ae_sha256 env artifact_path) @ ''-'' @ ae_uuid env"

definition sanitize_for_spdx_id :: "string \<Rightarrow> string" where
  "sanitize_for_spdx_id value = map (\<lambda>c. if spdx_safe c then c else CHR ''-'') value"

definition base_id :: "enriched_package \<Rightarrow> string" where
  "base_id ep = ''SPDXRef-Package-'' @ sanitize_for_spdx_id (ip_name (ep_package ep)) @ ''-''
     @ sanitize_for_spdx_id (ip_version (ep_package ep))"

definition id_step :: "(string, nat) dict \<times> string list \<Rightarrow> string \<Rightarrow> (string, nat) dict \<times> string list" where
  "id_step acc base = (case acc of (id_counts, final_ids) \<Rightarrow>
     (case dict_get id_counts base of
        None \<Rightarrow> (dict_set id_counts base 1, final_ids @ [base])
      | Some k \<Rightarrow> (dict_set id_counts base (k + 1), final_ids @ [base @ ''-'' @ nat_str (k + 1)])))"

definition final_ids :: "string list \<Rightarrow> string list" where
  "final_ids base_ids = snd (foldl id_step ([], []) base_ids)"

definition or_error :: "'e + 'a \<Rightarrow> ('a \<Rightarrow> 'e + 'b) \<Rightarrow> 'e + 'b" where
  "or_error r k = (case r of Inl e \<Rightarrow> Inl e | Inr a \<Rightarrow> k a)"

text \<open>The fields that come from the enrichment, in the order in which their values are constructed.\<close>

definition enrichment_references :: "package_enrichment \<Rightarrow> string + sbom_external_reference list" where
  "enrichment_references e = (case pe_purl e of None \<Rightarrow> Inr []
     | Some purl \<Rightarrow> or_error (check_external_reference \<lparr>er_category = PACKAGE_MANAGER, er_url = purl, er_comment = None\<rparr>) (\<lambda>r. Inr [r]))"

definition enrichment_checksums :: "package_enrichment \<Rightarrow> string + sbom_checksum list" where
  "enrichment_checksums e = (case pe_sha256 e of None \<Rightarrow> Inr []
     | Some v \<Rightarrow> or_error (check_checksum \<lparr>cs_algorithm = SHA256, cs_value = v\<rparr>) (\<lambda>c. Inr [c]))"

definition build_single_package :: "enriched_package \<Rightarrow> string \<Rightarrow> string + sbom_package" where
  "build_single_package ep spdx_id =
     (let pkg = ep_package ep;
          description = (if ip_architecture pkg \<noteq> [] then Some (''Architecture: '' @ ip_architecture pkg) else None);
          plain = \<lparr>bp_spdx_id = spdx_id, bp_name = ip_name pkg, bp_version = Some (ip_version pkg), bp_supplier = None,
             bp_download_location = None, bp_checksums = [], bp_package_url = None, bp_concluded_license = None,
             bp_declared_license = None, bp_copyright_text = None, bp_description = description, bp_external_references = []\<rparr>
      in case ep_enrichment ep of
           None \<Rightarrow> check_package plain
         | Some e \<Rightarrow>
             or_error (enrichment_references e) (\<lambda>refs. or_error (enrichment_checksums e) (\<lambda>sums.
               let license = (case pe_license_expressions e of [] \<Rightarrow> None | (expression, _) # _ \<Rightarrow> Some expression)
               in check_package (plain\<lparr>bp_package_url := pe_purl e, bp_external_references := refs, bp_checksums := sums,
                    bp_concluded_license := license, bp_declared_license := license,
                    bp_download_location := pe_download_url e, bp_supplier := pe_maintainer e\<rparr>))))"

definition build_packages :: "enriched_package list \<Rightarrow> string + sbom_package list" where
  "build_packages enriched_packages =
     traverse (\<lambda>(ep, spdx_id). build_single_package ep spdx_id)
       (zip enriched_packages (final_ids (map base_id enriched_packages)))"

text \<open>The name in one entry of a \<open>Depends\<close> field: what stands before a parenthesis, its first
  alternative.\<close>

definition dependency_name :: "string \<Rightarrow> string" where
  "dependency_name dep_spec = py_strip (before CHR ''|'' (py_strip (before CHR ''('' dep_spec)))"

fun depends_loop :: "(string, string) dict \<Rightarrow> string \<Rightarrow> (string \<times> string) list \<Rightarrow> string list \<Rightarrow> string + sbom_relationship list" where
  "depends_loop name_to_spdx_id source seen_pairs [] = Inr []"
| "depends_loop name_to_spdx_id source seen_pairs (dep_spec # dep_specs) =
     (if dep_spec = [] then depends_loop name_to_spdx_id source seen_pairs dep_specs
      else
        (let dep_name = dependency_name dep_spec in
         case (if dep_name \<noteq> [] then dict_get name_to_spdx_id dep_name else None) of
           None \<Rightarrow> depends_loop name_to_spdx_id source seen_pairs dep_specs
         | Some target \<Rightarrow>
             if (source, target) \<in> set seen_pairs then depends_loop name_to_spdx_id source seen_pairs dep_specs
             else or_error (check_relationship \<lparr>rl_source_id = source, rl_target_id = target, rl_relationship_type = DEPENDS_ON\<rparr>)
               (\<lambda>r. or_error (depends_loop name_to_spdx_id source ((source, target) # seen_pairs) dep_specs) (\<lambda>rs. Inr (r # rs)))))"

definition build_depends_on_relationships ::
  "(string, string) dict \<Rightarrow> enriched_package \<times> sbom_package \<Rightarrow> string + sbom_relationship list" where
  "build_depends_on_relationships name_to_spdx_id p = (case p of (ep, pkg) \<Rightarrow>
     (case Option.bind (ep_enrichment ep) pe_depends of
        None \<Rightarrow> Inr []
      | Some depends_str \<Rightarrow> depends_loop name_to_spdx_id (bp_spdx_id pkg) [] (map py_strip (split_on CHR '','' depends_str))))"

definition ROOT_ID :: string where "ROOT_ID = ''SPDXRef-Package-root''"

definition name_index :: "sbom_package list \<Rightarrow> (string, string) dict" where
  "name_index packages = foldl (\<lambda>d pkg. dict_set d (bp_name pkg) (bp_spdx_id pkg)) [] packages"

definition assemble :: "assembler_env \<Rightarrow> scan_result \<Rightarrow> enriched_package list \<Rightarrow> string + sbom_document" where
  "assemble env scan enriched_packages =
     (let debcraft_version = get_debcraft_version env;
          path = sc_artifact_path scan
      in or_error (build_creation_info env debcraft_version) (\<lambda>creation_info.
         let namespace = generate_namespace env path;
             document = (\<lambda>root packages relationships comment. check_document
               \<lparr>bd_namespace = namespace, bd_name = path, bd_creation_info = creation_info, bd_root_package = root,
                bd_packages = packages, bd_relationships = relationships, bd_extracted_licenses = [], bd_comment = comment,
                bd_provenance_tool = Some (''debcraft-'' @ debcraft_version), bd_provenance_timestamp = Some (ci_created creation_info)\<rparr>)
         in or_error (check_package \<lparr>bp_spdx_id = ROOT_ID, bp_name = path, bp_version = None, bp_supplier = None,
               bp_download_location = None, bp_checksums = [], bp_package_url = None, bp_concluded_license = None,
               bp_declared_license = None, bp_copyright_text = None, bp_description = None, bp_external_references = []\<rparr>) (\<lambda>root.
            if enriched_packages = [] then document root [] [] (Some ''No packages were identified during scanning.'')
            else or_error (build_packages enriched_packages) (\<lambda>packages.
              or_error (traverse (\<lambda>pkg. check_relationship \<lparr>rl_source_id = ROOT_ID, rl_target_id = bp_spdx_id pkg,
                  rl_relationship_type = DESCRIBES\<rparr>) packages) (\<lambda>describes.
              or_error (traverse (build_depends_on_relationships (name_index packages)) (zip enriched_packages packages)) (\<lambda>depends.
                document root packages (describes @ concat depends) None))))))"

section \<open>Identifiers\<close>

definition numbered :: "string \<Rightarrow> nat \<Rightarrow> string" where
  "numbered base k = (if k = 1 then base else base @ ''-'' @ nat_str k)"

lemma id_fold:
  assumes "\<forall>b. dict_get counts b = (if count_list done b = 0 then None else Some (count_list done b))"
  shows "snd (foldl id_step (counts, ids) bs) =
     ids @ map (\<lambda>i. numbered (bs ! i) (count_list done (bs ! i) + count_list (take (Suc i) bs) (bs ! i))) [0..<length bs]"
  using assms
proof (induction bs arbitrary: counts ids "done")
  case (Cons b bs)
  let ?k = "count_list done b + 1"
  have s: "id_step (counts, ids) b = (dict_set counts b ?k, ids @ [numbered b ?k])"
    using Cons.prems by (simp add: id_step_def numbered_def)
  have c: "\<forall>x. dict_get (dict_set counts b ?k) x = (if count_list (done @ [b]) x = 0 then None else Some (count_list (done @ [b]) x))"
    using Cons.prems by simp
  have e: "[0..<length (b # bs)] = 0 # map Suc [0..<length bs]" by (simp only: length_Cons map_Suc_upt upt_conv_Cons [OF zero_less_Suc])
  show ?case
    unfolding foldl_Cons s Cons.IH [OF c] e by (auto simp: o_def)
qed simp

lemma final_ids_numbered:
  "final_ids bs = map (\<lambda>i. numbered (bs ! i) (count_list (take (Suc i) bs) (bs ! i))) [0..<length bs]"
  using id_fold [of "[]" "[]" "[]" bs] by (simp add: final_ids_def)

lemma nat_str_no_dash: "CHR ''-'' \<notin> set (nat_str n)"
  using nat_str_plain(2) by blast

lemma nat_str_inject: "nat_str m = nat_str n \<longleftrightarrow> m = n"
  using nat_str_value by metis

lemma last_dash_split:
  assumes "a @ CHR ''-'' # x = b @ CHR ''-'' # y" and "CHR ''-'' \<notin> set x" and "CHR ''-'' \<notin> set y"
  shows "a = b \<and> x = y"
proof -
  have t: "CHR ''-'' \<notin> set z \<Longrightarrow> takeWhile (\<lambda>c. c \<noteq> CHR ''-'') (rev (d @ CHR ''-'' # z)) = rev z" for d z
    by (induction z rule: rev_induct) auto
  then have "rev x = rev y" using assms by metis
  then have "x = y" by simp
  then show ?thesis using assms(1) by simp
qed

lemma numbered_inject:
  "numbered a k = numbered b l \<Longrightarrow> a = b \<and> k = l \<or> (k \<noteq> 1 \<and> l = 1 \<and> b = a @ ''-'' @ nat_str k) \<or> (l \<noteq> 1 \<and> k = 1 \<and> a = b @ ''-'' @ nat_str l)"
  using last_dash_split [of a "nat_str k" b "nat_str l"] nat_str_no_dash
  by (auto simp: numbered_def nat_str_inject split: if_splits)

text \<open>No base identifier looks like a repeated one with its number.\<close>

definition no_clash :: "string list \<Rightarrow> bool" where
  "no_clash bs \<longleftrightarrow> (\<forall>a \<in> set bs. \<forall>k \<in> {2..count_list bs a}. a @ ''-'' @ nat_str k \<notin> set bs)"

lemma no_clash_distinct: "distinct bs \<Longrightarrow> no_clash bs"
proof -
  assume "distinct bs"
  then have "count_list bs a \<le> 1" for a
    by (induction bs) (auto simp: count_list_0_iff)
  then have "{2..count_list bs a} = {}" for a by (metis Suc_1 atLeastatMost_empty' le_trans not_less_eq_eq)
  then show ?thesis by (simp add: no_clash_def)
qed

lemma count_take_le: "count_list (take n xs) x \<le> count_list xs x"
  by (metis append_take_drop_id count_list_append le_add1)

lemma count_take_pos: "i < length bs \<Longrightarrow> 1 \<le> count_list (take (Suc i) bs) (bs ! i)"
  by (simp add: take_Suc_conv_app_nth)

lemma count_take_less:
  assumes "i < j" "j < length bs" "bs ! i = bs ! j"
  shows "count_list (take (Suc i) bs) (bs ! i) < count_list (take (Suc j) bs) (bs ! j)"
proof -
  have "count_list (take (Suc i) bs) (bs ! i) \<le> count_list (take j bs) (bs ! i)"
    using assms(1) count_take_le [of "Suc i" "take j bs" "bs ! i"] by (simp add: min_def)
  then show ?thesis using assms by (simp add: take_Suc_conv_app_nth)
qed

lemma final_ids_distinct:
  assumes "no_clash bs"
  shows "distinct (final_ids bs)"
proof -
  let ?c = "\<lambda>i. count_list (take (Suc i) bs) (bs ! i)"
  have ne: "numbered (bs ! i) (?c i) \<noteq> numbered (bs ! j) (?c j)" if "i < j" "j < length bs" for i j
  proof
    assume eq: "numbered (bs ! i) (?c i) = numbered (bs ! j) (?c j)"
    have mem: "bs ! i \<in> set bs" "bs ! j \<in> set bs" using that by simp_all
    have pos: "1 \<le> ?c i" "1 \<le> ?c j" "?c i \<le> count_list bs (bs ! i)" "?c j \<le> count_list bs (bs ! j)"
      using that count_take_pos [of i bs] count_take_pos [of j bs] count_take_le by simp_all
    from numbered_inject [OF eq] consider "bs ! i = bs ! j" "?c i = ?c j" | "?c i \<noteq> 1" "bs ! j = bs ! i @ ''-'' @ nat_str (?c i)"
      | "?c j \<noteq> 1" "bs ! i = bs ! j @ ''-'' @ nat_str (?c j)" by blast
    then show False
    proof cases
      case 1
      then show False using count_take_less [OF that] by simp
    next
      case 2
      then have "?c i \<in> {2..count_list bs (bs ! i)}" using pos by simp
      then show False using assms mem 2(2) unfolding no_clash_def by metis
    next
      case 3
      then have "?c j \<in> {2..count_list bs (bs ! j)}" using pos by simp
      then show False using assms mem 3(2) unfolding no_clash_def by metis
    qed
  qed
  show ?thesis
    unfolding final_ids_numbered distinct_conv_nth
    using ne by (auto simp: nat_neq_iff) (metis less_trans)+
qed

lemma root_not_final: "ROOT_ID \<notin> set (final_ids (map base_id eps))"
proof
  assume "ROOT_ID \<in> set (final_ids (map base_id eps))"
  then obtain i k where "i < length eps" "ROOT_ID = numbered (base_id (eps ! i)) k"
    by (auto simp: final_ids_numbered)
  then obtain x y where "ROOT_ID = ''SPDXRef-Package-'' @ x @ ''-'' @ y"
    by (auto simp: numbered_def base_id_def split: if_splits)
  then have "''root'' = x @ ''-'' @ y" unfolding ROOT_ID_def by simp
  then have "CHR ''-'' \<in> set ''root''" by simp
  then show False by simp
qed

section \<open>Relationships\<close>

lemma or_error_Inr: "or_error r k = Inr b \<longleftrightarrow> (\<exists>a. r = Inr a \<and> k a = Inr b)"
  by (cases r) (simp_all add: or_error_def)

lemma check_simps:
  "check_relationship r = Inr r' \<Longrightarrow> r' = r" "check_package p = Inr p' \<Longrightarrow> p' = p \<and> SPDX_ID_PATTERN (bp_spdx_id p)"
  "check_document d = Inr d' \<Longrightarrow> d' = d \<and> bd_name d \<noteq> [] \<and> length (bd_name d) \<le> 255"
  by (auto simp: check_relationship_def check_package_def check_document_def split: if_splits)

text \<open>The packages that entries of a \<open>Depends\<close> field name.\<close>

definition named_dependencies :: "(string, string) dict \<Rightarrow> string list \<Rightarrow> string set" where
  "named_dependencies names specs = {t. \<exists>spec \<in> set specs. spec \<noteq> [] \<and> dependency_name spec \<noteq> [] \<and> dict_get names (dependency_name spec) = Some t}"

lemma named_dependencies_Cons:
  "named_dependencies names (spec # specs) = named_dependencies names specs \<union>
     (if spec = [] \<or> dependency_name spec = [] then {} else set_option (dict_get names (dependency_name spec)))"
  by (auto simp: named_dependencies_def)

lemma depends_loop_targets:
  "depends_loop names source seen specs = Inr rs \<Longrightarrow>
     distinct (map rl_target_id rs) \<and> set (map rl_target_id rs) = named_dependencies names specs - {t. (source, t) \<in> set seen} \<and>
     (\<forall>r \<in> set rs. rl_source_id r = source \<and> rl_relationship_type r = DEPENDS_ON)"
proof (induction specs arbitrary: seen rs)
  case Nil
  then show ?case by (simp add: named_dependencies_def)
next
  case (Cons spec specs)
  show ?case
  proof (cases "spec = [] \<or> (if dependency_name spec \<noteq> [] then dict_get names (dependency_name spec) else None) = None")
    case True
    have d: "depends_loop names source seen specs = Inr rs"
    proof (cases "spec = []")
      case False
      then have o: "(if dependency_name spec \<noteq> [] then dict_get names (dependency_name spec) else None) = None" using True by simp
      show ?thesis using Cons.prems False unfolding depends_loop.simps Let_def o by simp
    qed (use Cons.prems in simp)
    have "named_dependencies names (spec # specs) = named_dependencies names specs"
      using True unfolding named_dependencies_Cons by (auto split: if_splits)
    then show ?thesis using Cons.IH [OF d] by simp
  next
    case False
    then obtain t where t: "spec \<noteq> []" "dependency_name spec \<noteq> []" "dict_get names (dependency_name spec) = Some t"
      by (auto split: if_splits)
    have n: "named_dependencies names (spec # specs) = insert t (named_dependencies names specs)"
      using t unfolding named_dependencies_Cons by simp
    show ?thesis
    proof (cases "(source, t) \<in> set seen")
      case True
      then have d: "depends_loop names source seen specs = Inr rs" using Cons.prems t by (simp add: Let_def)
      show ?thesis using Cons.IH [OF d] True unfolding n by simp
    next
      case new: False
      then obtain qs where q: "depends_loop names source ((source, t) # seen) specs = Inr qs"
        "rs = \<lparr>rl_source_id = source, rl_target_id = t, rl_relationship_type = DEPENDS_ON\<rparr> # qs"
        using Cons.prems t by (auto simp: Let_def or_error_Inr dest: check_simps(1))
      show ?thesis using Cons.IH [OF q(1)] new unfolding n q(2) by auto
    qed
  qed
qed

lemma name_index_get:
  "dict_get (name_index ps) n = Some i \<Longrightarrow> \<exists>p \<in> set ps. bp_name p = n \<and> bp_spdx_id p = i"
proof -
  have "dict_get (foldl (\<lambda>d pkg. dict_set d (bp_name pkg) (bp_spdx_id pkg)) d ps) n = Some i \<Longrightarrow>
      dict_get d n = Some i \<or> (\<exists>p \<in> set ps. bp_name p = n \<and> bp_spdx_id p = i)" for d
    by (induction ps arbitrary: d) (fastforce split: if_splits)+
  then show "dict_get (name_index ps) n = Some i \<Longrightarrow> \<exists>p \<in> set ps. bp_name p = n \<and> bp_spdx_id p = i"
    unfolding name_index_def by fastforce
qed

lemma build_single_package_id:
  "build_single_package ep i = Inr p \<Longrightarrow> bp_spdx_id p = i \<and> bp_name p = ip_name (ep_package ep) \<and> SPDX_ID_PATTERN i"
  by (auto simp: build_single_package_def Let_def or_error_Inr split: option.splits dest!: check_simps(2))

lemma build_packages_ids:
  assumes "build_packages eps = Inr ps"
  shows "map bp_spdx_id ps = final_ids (map base_id eps)" "map bp_name ps = map (ip_name \<circ> ep_package) eps" "length ps = length eps"
proof -
  have len: "length (final_ids (map base_id eps)) = length eps" by (simp add: final_ids_numbered)
  have r: "list_all2 (\<lambda>(ep, i) p. build_single_package ep i = Inr p) (zip eps (final_ids (map base_id eps))) ps"
    using assms unfolding build_packages_def traverse_Inr_iff by (simp add: case_prod_unfold)
  have l: "list_all2 (\<lambda>x p. bp_spdx_id p = snd x \<and> bp_name p = ip_name (ep_package (fst x))) (zip eps (final_ids (map base_id eps))) ps"
    using r by (rule list_all2_mono) (auto dest: build_single_package_id)
  have m: "list_all2 (\<lambda>x p. bp_spdx_id p = snd x \<and> bp_name p = ip_name (ep_package (fst x))) xs ps \<Longrightarrow>
      map bp_spdx_id ps = map snd xs \<and> map bp_name ps = map (ip_name \<circ> ep_package) (map fst xs)" for xs
    by (induction xs ps rule: list_all2_induct) auto
  show "map bp_spdx_id ps = final_ids (map base_id eps)" "map bp_name ps = map (ip_name \<circ> ep_package) eps"
    using m [OF l] len by simp_all
  show "length ps = length eps" using list_all2_lengthD [OF l] len by simp
qed

lemma assembled_document:
  assumes "assemble env scan eps = Inr doc"
  defines "ids \<equiv> map bp_spdx_id (bd_packages doc)"
  shows "map bp_name (bd_packages doc) = map (ip_name \<circ> ep_package) eps \<and>
    ROOT_ID \<notin> set ids \<and> (no_clash (map base_id eps) \<longrightarrow> distinct ids) \<and>
    (\<exists>depends. list_all2 (\<lambda>(ep, pkg) rels. distinct (map rl_target_id rels) \<and>
          (\<forall>r \<in> set rels. rl_source_id r = bp_spdx_id pkg \<and> rl_relationship_type r = DEPENDS_ON) \<and>
          set (map rl_target_id rels) = named_dependencies (name_index (bd_packages doc))
            (case Option.bind (ep_enrichment ep) pe_depends of None \<Rightarrow> [] | Some d \<Rightarrow> map py_strip (split_on CHR '','' d)))
        (zip eps (bd_packages doc)) depends \<and>
      bd_relationships doc =
        map (\<lambda>i. \<lparr>rl_source_id = ROOT_ID, rl_target_id = i, rl_relationship_type = DESCRIBES\<rparr>) ids @ concat depends) \<and>
    rl_target_id ` set (bd_relationships doc) \<subseteq> set ids"
proof (cases "eps = []")
  case True
  then have "bd_packages doc = []" "bd_relationships doc = []"
    using assms(1) by (auto simp: assemble_def Let_def or_error_Inr dest!: check_simps(3))
  then show ?thesis using True by (simp add: ids_def)
next
  case False
  obtain ps ds deps where b: "build_packages eps = Inr ps"
    and ds: "traverse (\<lambda>pkg. check_relationship \<lparr>rl_source_id = ROOT_ID, rl_target_id = bp_spdx_id pkg,
         rl_relationship_type = DESCRIBES\<rparr>) ps = Inr ds"
    and deps: "traverse (build_depends_on_relationships (name_index ps)) (zip eps ps) = Inr deps"
    and doc: "bd_packages doc = ps" "bd_relationships doc = ds @ concat deps"
    using assms(1) False by (auto simp: assemble_def Let_def or_error_Inr dest!: check_simps(3))
  have "list_all2 (\<lambda>pkg r. r = \<lparr>rl_source_id = ROOT_ID, rl_target_id = bp_spdx_id pkg, rl_relationship_type = DESCRIBES\<rparr>) ps ds"
    using ds unfolding traverse_Inr_iff by (rule list_all2_mono) (rule check_simps(1))
  then have d: "ds = map (\<lambda>pkg. \<lparr>rl_source_id = ROOT_ID, rl_target_id = bp_spdx_id pkg, rl_relationship_type = DESCRIBES\<rparr>) ps"
    by (induction rule: list_all2_induct) simp_all
  let ?P = "\<lambda>(ep, pkg) rels. distinct (map rl_target_id rels) \<and>
          (\<forall>r \<in> set rels. rl_source_id r = bp_spdx_id pkg \<and> rl_relationship_type r = DEPENDS_ON) \<and>
          set (map rl_target_id rels) = named_dependencies (name_index ps)
            (case Option.bind (ep_enrichment ep) pe_depends of None \<Rightarrow> [] | Some d \<Rightarrow> map py_strip (split_on CHR '','' d))"
  have P: "?P x rels" if "build_depends_on_relationships (name_index ps) x = Inr rels" for x rels
    using that depends_loop_targets [of "name_index ps" "bp_spdx_id (snd x)" "[]"]
    by (cases "Option.bind (ep_enrichment (fst x)) pe_depends")
      (auto simp: build_depends_on_relationships_def case_prod_unfold named_dependencies_def)
  have all: "list_all2 ?P (zip eps ps) deps"
    using deps unfolding traverse_Inr_iff by (rule list_all2_mono) (rule P)
  have t: "rl_target_id r \<in> set ids" if rels: "rels \<in> set deps" and r: "r \<in> set rels" for rels r
  proof -
    obtain k where k: "k < length deps" "deps ! k = rels" using rels unfolding in_set_conv_nth by blast
    obtain ep pkg where x: "zip eps ps ! k = (ep, pkg)" by force
    have "?P (zip eps ps ! k) (deps ! k)" by (rule list_all2_nthD2 [OF all k(1)])
    then have "?P (ep, pkg) rels" unfolding x k(2) .
    then have "rl_target_id r \<in> named_dependencies (name_index ps)
        (case Option.bind (ep_enrichment ep) pe_depends of None \<Rightarrow> [] | Some d \<Rightarrow> map py_strip (split_on CHR '','' d))"
      using r by auto
    then obtain n where "dict_get (name_index ps) n = Some (rl_target_id r)" unfolding named_dependencies_def by blast
    from name_index_get [OF this] obtain p where "p \<in> set ps" "bp_spdx_id p = rl_target_id r" by blast
    then show ?thesis unfolding ids_def doc(1) set_map by (metis imageI)
  qed
  have ids: "ids = final_ids (map base_id eps)" using build_packages_ids(1) [OF b] by (simp add: ids_def doc)
  show ?thesis
  proof (intro conjI)
    show "map bp_name (bd_packages doc) = map (ip_name \<circ> ep_package) eps" using build_packages_ids(2) [OF b] by (simp add: doc)
    show "ROOT_ID \<notin> set ids" unfolding ids by (rule root_not_final)
    show "no_clash (map base_id eps) \<longrightarrow> distinct ids" unfolding ids using final_ids_distinct by blast
    have "map (\<lambda>i. \<lparr>rl_source_id = ROOT_ID, rl_target_id = i, rl_relationship_type = DESCRIBES\<rparr>) ids = ds"
      by (simp add: ids_def doc d)
    then show "\<exists>depends. list_all2 (\<lambda>(ep, pkg) rels. distinct (map rl_target_id rels) \<and>
          (\<forall>r \<in> set rels. rl_source_id r = bp_spdx_id pkg \<and> rl_relationship_type r = DEPENDS_ON) \<and>
          set (map rl_target_id rels) = named_dependencies (name_index (bd_packages doc))
            (case Option.bind (ep_enrichment ep) pe_depends of None \<Rightarrow> [] | Some d \<Rightarrow> map py_strip (split_on CHR '','' d)))
        (zip eps (bd_packages doc)) depends \<and>
      bd_relationships doc =
        map (\<lambda>i. \<lparr>rl_source_id = ROOT_ID, rl_target_id = i, rl_relationship_type = DESCRIBES\<rparr>) ids @ concat depends"
      using all doc(2) unfolding doc(1) by blast
    show "rl_target_id ` set (bd_relationships doc) \<subseteq> set ids"
    proof
      fix x assume "x \<in> rl_target_id ` set (bd_relationships doc)"
      then obtain r where r: "x = rl_target_id r" "r \<in> set ds \<or> (\<exists>rels \<in> set deps. r \<in> set rels)"
        unfolding doc(2) set_append set_concat by blast
      have "rl_target_id r \<in> set ids" if "r \<in> set ds" using that unfolding d ids_def doc(1) set_map by force
      then show "x \<in> set ids" using t r by blast
    qed
  qed
qed

text \<open>Every relationship of an assembled document is between its packages.\<close>

lemma assembled_relationship:
  assumes "assemble env scan eps = Inr doc" and "r \<in> set (bd_relationships doc)"
  shows "rl_source_id r = ROOT_ID \<and> rl_relationship_type r = DESCRIBES \<or>
    rl_source_id r \<in> bp_spdx_id ` set (bd_packages doc) \<and> rl_relationship_type r = DEPENDS_ON"
proof -
  from assembled_document [OF assms(1)] obtain depends where
    full: "list_all2 (\<lambda>(ep, pkg) rels. distinct (map rl_target_id rels) \<and>
          (\<forall>r \<in> set rels. rl_source_id r = bp_spdx_id pkg \<and> rl_relationship_type r = DEPENDS_ON) \<and>
          set (map rl_target_id rels) = named_dependencies (name_index (bd_packages doc))
            (case Option.bind (ep_enrichment ep) pe_depends of None \<Rightarrow> [] | Some d \<Rightarrow> map py_strip (split_on CHR '','' d)))
        (zip eps (bd_packages doc)) depends"
    and rels: "bd_relationships doc = map (\<lambda>i. \<lparr>rl_source_id = ROOT_ID, rl_target_id = i, rl_relationship_type = DESCRIBES\<rparr>)
      (map bp_spdx_id (bd_packages doc)) @ concat depends" by blast
  show ?thesis
  proof (cases "r \<in> set (concat depends)")
    case True
    then obtain rs where "rs \<in> set depends" "r \<in> set rs" by auto
    then obtain k where k: "r \<in> set rs" "k < length depends" "depends ! k = rs" by (meson in_set_conv_nth)
    then have "rl_source_id r = bp_spdx_id (snd (zip eps (bd_packages doc) ! k)) \<and> rl_relationship_type r = DEPENDS_ON"
      "k < length (zip eps (bd_packages doc))"
      using list_all2_nthD2 [OF full] list_all2_lengthD [OF full] by (auto simp: case_prod_unfold)
    then show ?thesis by simp
  next
    case False
    then show ?thesis using assms(2) rels by auto
  qed
qed

lemma assembled_closed:
  assumes "assemble env scan eps = Inr doc" and "r \<in> set (bd_relationships doc)"
  shows "rl_source_id r \<in> insert ROOT_ID (bp_spdx_id ` set (bd_packages doc))" and "rl_target_id r \<in> bp_spdx_id ` set (bd_packages doc)"
    and "rl_relationship_type r = DEPENDS_ON \<Longrightarrow> rl_source_id r \<in> bp_spdx_id ` set (bd_packages doc)"
proof -
  show "rl_target_id r \<in> bp_spdx_id ` set (bd_packages doc)" using assembled_document [OF assms(1)] assms(2) by (metis imageI set_map subsetD)
qed (use assembled_relationship [OF assms] in auto)

lemma assembled_root: "assemble env scan eps = Inr doc \<Longrightarrow> bp_spdx_id (bd_root_package doc) = ROOT_ID"
  by (cases "eps = []") (auto simp: assemble_def Let_def or_error_Inr dest!: check_simps(2,3))


definition example_assembler :: assembler_env where
  "example_assembler = \<lparr>ae_version = None, ae_now = ''2024'', ae_sha256 = (\<lambda>_. replicate 64 CHR ''0''), ae_uuid = ''u''\<rparr>"

definition example_scan :: scan_result where
  "example_scan = \<lparr>sc_packages = [], sc_strategy = ''dpkg_metadata'', sc_diagnostics = [], sc_artifact_path = ''/img'', sc_enriched_packages = []\<rparr>"

definition example_ep :: "string \<Rightarrow> string \<Rightarrow> string option \<Rightarrow> enriched_package" where
  "example_ep name version depends =
     \<lparr>ep_package = \<lparr>ip_name = name, ip_version = version, ip_architecture = ''all'', ip_status = ''installed''\<rparr>,
      ep_enrichment = Some \<lparr>pe_source_package = None, pe_maintainer = None, pe_homepage = None, pe_depends = depends, pe_section = None,
        pe_priority = None, pe_description = None, pe_sha256 = None, pe_download_url = None, pe_purl = None,
        pe_license_expressions = [], pe_local_deb_path = None\<rparr>\<rparr>"

lemma example_assembled:
  "(case assemble example_assembler example_scan [example_ep ''a'' ''1'' (Some ''b (>= 2) | c, b''), example_ep ''b'' ''2'' None] of
      Inl e \<Rightarrow> [] | Inr doc \<Rightarrow> map (\<lambda>r. (rl_source_id r, rl_target_id r)) (bd_relationships doc)) =
   [(ROOT_ID, ''SPDXRef-Package-a-1''), (ROOT_ID, ''SPDXRef-Package-b-2''), (''SPDXRef-Package-a-1'', ''SPDXRef-Package-b-2'')]"
  by code_simp


text \<open>One name and version in two architectures, and the version the number makes: two packages get one
  identifier.\<close>

lemma numbered_identifier_clash:
  "final_ids (map base_id [example_ep ''a'' ''1'' None, example_ep ''a'' ''1'' None, example_ep ''a'' ''1-2'' None]) =
     [''SPDXRef-Package-a-1'', ''SPDXRef-Package-a-1-2'', ''SPDXRef-Package-a-1-2'']"
  by code_simp

text \<open>A dependency with an architecture qualifier is not recognised.\<close>

lemma qualified_dependency_lost: "dependency_name ''python3:any (>= 3.8)'' = ''python3:any''"
  by code_simp

end
