(* ===== verification/Scanner_Mixin.thy ===== *)
theory Scanner_Mixin
  imports Scan_Values
begin

text \<open>
  What the scanners of \<open>src/debcraft/infrastructure/scanners/\<close> share (\<open>_mixin.py\<close>): the exceptions that the readers raise, the
  artifact, and the helpers that check for cancellation, analyse file systems and build results. A scan threads its state:
  the number of times the cancellation token was read, the diagnostics, and the readers it opened and closed. Durations and
  progress reports are left out.
\<close>

declare nat_str.simps [simp del]

section \<open>Exceptions\<close>

datatype scan_exc = Tar_Error string | OS_Error string | Key_Error string | JSON_Error string | Runtime_Error string
  | Scanner_Error string | Other_Error string

fun exc_str :: "scan_exc \<Rightarrow> string" where
  "exc_str (Tar_Error s) = s" | "exc_str (OS_Error s) = s" | "exc_str (Key_Error s) = s" | "exc_str (JSON_Error s) = s"
| "exc_str (Runtime_Error s) = s" | "exc_str (Scanner_Error s) = s" | "exc_str (Other_Error s) = s"

definition is_os_error :: "scan_exc \<Rightarrow> bool" where
  "is_os_error e = (case e of OS_Error _ \<Rightarrow> True | _ \<Rightarrow> False)"

definition is_os_or_runtime_error :: "scan_exc \<Rightarrow> bool" where
  "is_os_or_runtime_error e = (case e of OS_Error _ \<Rightarrow> True | Runtime_Error _ \<Rightarrow> True | _ \<Rightarrow> False)"

section \<open>Artifacts and results\<close>

record artifact =
  ar_type :: artifact_type
  ar_path :: string
  ar_options :: "(string, string) dict"

definition DPKG_STATUS_PATH :: string where "DPKG_STATUS_PATH = ''var/lib/dpkg/status''"

definition DPKG_METADATA :: string where "DPKG_METADATA = ''dpkg_metadata''"
definition FILESYSTEM_ANALYSIS :: string where "FILESYSTEM_ANALYSIS = ''filesystem_analysis''"

definition scan_result_of :: "artifact \<Rightarrow> identified_package list \<Rightarrow> string \<Rightarrow> string list \<Rightarrow> scan_result" where
  "scan_result_of art packages strategy diagnostics =
     \<lparr>sc_packages = packages, sc_strategy = strategy, sc_diagnostics = diagnostics, sc_artifact_path = ar_path art,
      sc_enriched_packages = []\<rparr>"

definition snapshot_option :: "artifact \<Rightarrow> scan_exc + int" where
  "snapshot_option art = (case py_int (dict_getd (ar_options art) ''snapshot_id'' ''0'') of
     Some n \<Rightarrow> Inr n | None \<Rightarrow> Inl (Other_Error ''ValueError''))"

definition MAX_PATHS :: nat where "MAX_PATHS = 100000"

section \<open>The state of a scan\<close>

datatype reader_event = Opened string | Closed string

record scan_state =
  ss_polls :: nat
  ss_diagnostics :: "string list"
  ss_events :: "reader_event list"

type_synonym 'a scanned = "(scan_exc + 'a) \<times> scan_state"

definition start_state :: scan_state where
  "start_state = \<lparr>ss_polls = 0, ss_diagnostics = [], ss_events = []\<rparr>"

definition note_all :: "string list \<Rightarrow> scan_state \<Rightarrow> scan_state" where
  "note_all ds st = st\<lparr>ss_diagnostics := ss_diagnostics st @ ds\<rparr>"

definition event :: "reader_event \<Rightarrow> scan_state \<Rightarrow> scan_state" where
  "event e st = st\<lparr>ss_events := ss_events st @ [e]\<rparr>"

text \<open>Reading the token: \<open>is_cancelled n\<close> is what the \<open>n\<close>-th read of the scan returns.\<close>

definition poll :: "(nat \<Rightarrow> bool) \<Rightarrow> scan_state \<Rightarrow> bool \<times> scan_state" where
  "poll is_cancelled st = (is_cancelled (ss_polls st), st\<lparr>ss_polls := Suc (ss_polls st)\<rparr>)"

lemma state_simps [simp]:
  "ss_events (note_all ds st) = ss_events st" "ss_polls (note_all ds st) = ss_polls st"
  "ss_diagnostics (note_all ds st) = ss_diagnostics st @ ds"
  "ss_events (event e st) = ss_events st @ [e]" "ss_diagnostics (event e st) = ss_diagnostics st"
  "ss_polls (event e st) = ss_polls st"
  by (simp_all add: note_all_def event_def)

section \<open>The helpers\<close>

definition check_cancellation :: "(nat \<Rightarrow> bool) \<Rightarrow> string \<Rightarrow> string \<Rightarrow> scan_state \<Rightarrow> unit scanned" where
  "check_cancellation is_cancelled artifact_path step st =
     (case poll is_cancelled st of
        (cancelled, st) \<Rightarrow>
          (if cancelled then Inl (Scanner_Error (''Scan cancelled for '' @ quoted artifact_path @ '' during '' @ step)) else Inr (), st))"

text \<open>The two ports, each asked at the snapshot of the artifact.\<close>

record scan_ports =
  sp_find_owners :: "int \<Rightarrow> string list \<Rightarrow> (string, string) dict"
  sp_find_by_name :: "int \<Rightarrow> string \<Rightarrow> (string \<times> string \<times> string) option"

definition analyze_at :: "scan_ports \<Rightarrow> int \<Rightarrow> string list \<Rightarrow> filesystem_analysis_result" where
  "analyze_at ports snapshot_id file_paths =
     analyze_filesystem (sp_find_owners ports snapshot_id) (sp_find_by_name ports snapshot_id) file_paths MAX_PATHS"

definition run_filesystem_analysis ::
  "scan_ports \<Rightarrow> (nat \<Rightarrow> bool) \<Rightarrow> string list \<Rightarrow> int \<Rightarrow> scan_state \<Rightarrow> filesystem_analysis_result scanned" where
  "run_filesystem_analysis ports is_cancelled file_paths snapshot_id st =
     and_then (check_cancellation is_cancelled ''filesystem-analysis'' ''post-analysis'' st)
       (\<lambda>_ st. (Inr (analyze_at ports snapshot_id file_paths), st))"

definition finish :: "artifact \<Rightarrow> identified_package list \<Rightarrow> string \<Rightarrow> scan_state \<Rightarrow> scan_result scanned" where
  "finish art packages strategy st = (Inr (scan_result_of art packages strategy (ss_diagnostics st)), st)"

definition build_cancellation_result :: "artifact \<Rightarrow> string \<Rightarrow> string \<Rightarrow> scan_state \<Rightarrow> scan_result scanned" where
  "build_cancellation_result art step strategy st =
     finish art [] strategy (note_all [''Scan cancelled during '' @ step] st)"

fun accept_packages ::
  "(nat \<Rightarrow> bool) \<Rightarrow> identified_package list \<Rightarrow> nat \<Rightarrow> identified_package list \<Rightarrow> scan_state \<Rightarrow>
     identified_package list \<times> scan_state" where
  "accept_packages is_cancelled accepted n [] st = (accepted, st)"
| "accept_packages is_cancelled accepted n (pkg # packages) st =
     (case poll is_cancelled st of
        (True, st) \<Rightarrow> (accepted, note_all [''Scan cancelled after processing '' @ nat_str (length accepted) @ '' of ''
          @ nat_str n @ '' packages''] st)
      | (False, st) \<Rightarrow> accept_packages is_cancelled (accepted @ [pkg]) n packages st)"

definition iterate_packages_with_cancellation ::
  "(nat \<Rightarrow> bool) \<Rightarrow> artifact \<Rightarrow> identified_package list \<Rightarrow> string \<Rightarrow> scan_state \<Rightarrow> scan_result scanned" where
  "iterate_packages_with_cancellation is_cancelled art packages strategy st =
     (case accept_packages is_cancelled [] (length packages) packages st of
        (accepted, st) \<Rightarrow> finish art accepted strategy st)"

definition analyze_and_build_filesystem_result ::
  "scan_ports \<Rightarrow> (nat \<Rightarrow> bool) \<Rightarrow> artifact \<Rightarrow> string list \<Rightarrow> bool \<Rightarrow> string \<Rightarrow> scan_state \<Rightarrow> scan_result scanned" where
  "analyze_and_build_filesystem_result ports is_cancelled art file_paths use_cancellation_iteration pre_cancellation_step st =
     (case (if pre_cancellation_step = [] then (False, st) else poll is_cancelled st) of
        (True, st) \<Rightarrow> build_cancellation_result art pre_cancellation_step FILESYSTEM_ANALYSIS st
      | (False, st) \<Rightarrow>
          and_then (snapshot_option art, st)
            (\<lambda>snapshot_id st.
               let result = analyze_at ports snapshot_id file_paths;
                   st = note_all (fa_diagnostics result) st
               in if use_cancellation_iteration
                  then iterate_packages_with_cancellation is_cancelled art (fa_packages result) FILESYSTEM_ANALYSIS st
                  else finish art (fa_packages result) FILESYSTEM_ANALYSIS st))"

definition build_dpkg_success_result :: "artifact \<Rightarrow> dpkg_parse_result \<Rightarrow> scan_state \<Rightarrow> scan_result scanned" where
  "build_dpkg_success_result art parse_result st =
     finish art (pr_packages parse_result) DPKG_METADATA (note_all (pr_diagnostics parse_result) st)"

section \<open>Facts on the helpers\<close>

named_theorems keeps_events \<open>operations that open and close no reader\<close>

lemma poll_events [keeps_events]: "ss_events (snd (poll tok st)) = ss_events st"
  by (simp add: poll_def)

lemma check_cancellation_events [keeps_events]: "ss_events (snd (check_cancellation tok p s st)) = ss_events st"
  by (simp add: check_cancellation_def poll_def)

lemma finish_events [keeps_events]: "ss_events (snd (finish art ps s st)) = ss_events st"
  by (simp add: finish_def)

lemma cancellation_result_events [keeps_events]: "ss_events (snd (build_cancellation_result art s g st)) = ss_events st"
  by (simp add: build_cancellation_result_def finish_events)

lemma accept_packages_events: "ss_events (snd (accept_packages tok acc n ps st)) = ss_events st"
  by (induction ps arbitrary: acc st) (auto simp: poll_def split: bool.splits)

lemma iterate_packages_events [keeps_events]:
  "ss_events (snd (iterate_packages_with_cancellation tok art ps s st)) = ss_events st"
  using accept_packages_events [of tok "[]" "length ps" ps st]
  by (auto simp: iterate_packages_with_cancellation_def finish_def split: prod.split)

lemma and_then_events: "ss_events (snd r) = E \<Longrightarrow> (\<And>a st. ss_events st = E \<Longrightarrow> ss_events (snd (k a st)) = E) \<Longrightarrow>
    ss_events (snd (and_then r k)) = E"
  by (auto simp: and_then_def split: prod.split sum.split)

lemma run_analysis_events [keeps_events]: "ss_events (snd (run_filesystem_analysis ports tok ps n st)) = ss_events st"
  by (simp add: run_filesystem_analysis_def and_then_events keeps_events)

lemma analyze_and_build_events [keeps_events]:
  "ss_events (snd (analyze_and_build_filesystem_result ports tok art ps u g st)) = ss_events st"
  by (auto simp: analyze_and_build_filesystem_result_def Let_def poll_def keeps_events
      intro!: and_then_events split: bool.splits)

lemma dpkg_success_events [keeps_events]: "ss_events (snd (build_dpkg_success_result art r st)) = ss_events st"
  by (simp add: build_dpkg_success_result_def keeps_events)

text \<open>Without cancellation every package is accepted; with it a prefix is.\<close>

lemma accept_packages_prefix:
  "\<exists>k \<le> length ps. fst (accept_packages tok acc n ps st) = acc @ take k ps"
proof (induction ps arbitrary: acc st)
  case (Cons p ps)
  show ?case
  proof (cases "tok (ss_polls st)")
    case True
    then show ?thesis by (intro exI [of _ 0]) (simp add: poll_def)
  next
    case False
    obtain k where "k \<le> length ps" "fst (accept_packages tok (acc @ [p]) n ps (snd (poll tok st))) = (acc @ [p]) @ take k ps"
      using Cons.IH by blast
    with False show ?thesis by (intro exI [of _ "Suc k"]) (simp add: poll_def)
  qed
qed simp

lemma accept_packages_all: "(\<And>n. \<not> tok n) \<Longrightarrow>
    accept_packages tok acc n ps st = (acc @ ps, st\<lparr>ss_polls := ss_polls st + length ps\<rparr>)"
  by (induction ps arbitrary: acc st) (simp_all add: poll_def)

end
