(* ===== verification/Sbom_Workflow.thy ===== *)
theory Sbom_Workflow
  imports Sbom Scanner_Mixin
begin

text \<open>
  The workflow that turns an artifact into SBOM files (\<open>src/debcraft/infrastructure/sbom_writers/workflow.py\<close>): scan, enrich,
  assemble, write and persist, with a cancellation check before each; and what the writers share (\<open>_output.py\<close>,
  \<open>_write_utils.py\<close>). The state has the files, the events published, the rows of metadata.db and the number of times the
  cancellation token was read. Scanners, the enricher, the assembler and the rendering of a document are arguments; an
  exception is the text it prints.
\<close>

section \<open>State and environment\<close>

datatype sbom_event = Workflow_Started | Step_Completed string nat | Workflow_Completed | Workflow_Failed string | Workflow_Cancelled

datatype run_exc = Workflow_Cancelled_Exc | Partial_Failure string | Failure string

fun run_exc_str :: "run_exc \<Rightarrow> string" where
  "run_exc_str Workflow_Cancelled_Exc = []" | "run_exc_str (Partial_Failure s) = s" | "run_exc_str (Failure s) = s"

record document_row =
  dr_scan_session_id :: int
  dr_format :: string
  dr_content_path :: string
  dr_sha256 :: string

record run_state =
  rs_files :: "(string, string) dict"
  rs_events :: "sbom_event list"
  rs_polls :: nat
  rs_rows :: "document_row list"

record sbom_config =
  sg_artifact_path :: string
  sg_output_dir :: string
  sg_formats :: "output_format list"
  sg_artifact_type :: "string option"
  sg_scan_session_id :: "int option"
  sg_snapshot_id :: int

text \<open>A writer: how often it reads the token before it has a rendering, and the bytes and diagnostics of a document.\<close>

type_synonym writer_method = "nat \<times> (sbom_document \<Rightarrow> string + string \<times> string list)"

record run_env =
  re_cancelled :: "nat \<Rightarrow> bool"
  re_isdir :: "string \<Rightarrow> bool"
  re_scanner :: "artifact_type \<Rightarrow> (artifact \<Rightarrow> nat \<Rightarrow> (string + scan_result) \<times> nat) option"
  re_enrich :: "identified_package list \<Rightarrow> int \<Rightarrow> string + enriched_package list \<times> string list"
  re_assemble :: "scan_result \<Rightarrow> enriched_package list \<Rightarrow> string + sbom_document"
  re_writer :: "output_format \<Rightarrow> writer_method option"
  re_mkdir_fault :: "string \<Rightarrow> string option"
  re_write_fault :: "string \<Rightarrow> string option"
  re_session_fault :: "string option"
  re_sha256 :: "string \<Rightarrow> string"
  re_registered_types :: string
  re_registered_formats :: string

fun format_value :: "output_format \<Rightarrow> string" where
  "format_value SPDX_3_0 = ''spdx_3_0''" | "format_value SPDX_2_3 = ''spdx_2_3''" | "format_value CYCLONEDX = ''cyclonedx''"

definition all_formats :: "output_format list" where "all_formats = [SPDX_3_0, SPDX_2_3, CYCLONEDX]"

fun artifact_type_value :: "artifact_type \<Rightarrow> string" where
  "artifact_type_value DIRECTORY = ''directory''" | "artifact_type_value DOCKER = ''docker''" | "artifact_type_value OCI = ''oci''"
| "artifact_type_value ISO = ''iso''" | "artifact_type_value QCOW2 = ''qcow2''" | "artifact_type_value IMG = ''img''"
| "artifact_type_value AMI = ''ami''"

definition artifact_type_of :: "string \<Rightarrow> artifact_type option" where
  "artifact_type_of s = List.find (\<lambda>t. artifact_type_value t = s) [DIRECTORY, DOCKER, OCI, ISO, QCOW2, IMG, AMI]"

fun get_output_filename :: "output_format \<Rightarrow> string" where
  "get_output_filename SPDX_3_0 = ''sbom.spdx3.json''" | "get_output_filename SPDX_2_3 = ''sbom.spdx.json''"
| "get_output_filename CYCLONEDX = ''sbom.cdx.json''"

definition output_path :: "string \<Rightarrow> output_format \<Rightarrow> string" where
  "output_path output_dir fmt = path_join output_dir (get_output_filename fmt)"

definition publish_sbom :: "sbom_event \<Rightarrow> run_state \<Rightarrow> run_state" where
  "publish_sbom e st = st\<lparr>rs_events := rs_events st @ [e]\<rparr>"

definition poll_token :: "run_env \<Rightarrow> run_state \<Rightarrow> bool \<times> run_state" where
  "poll_token env st = (re_cancelled env (rs_polls st), st\<lparr>rs_polls := Suc (rs_polls st)\<rparr>)"

section \<open>Writing\<close>

definition output_path_error :: "string \<Rightarrow> string \<Rightarrow> string" where
  "output_path_error path reason = ''Cannot write to output path '' @ quoted path @ '': '' @ reason"

definition writer_cancelled :: "string \<Rightarrow> string" where
  "writer_cancelled path = ''Write operation was cancelled (output path: '' @ quoted path @ '')''"

text \<open>A write that fails removes the file, whichever bytes it had before.\<close>

definition write_sbom_output :: "run_env \<Rightarrow> string \<Rightarrow> string \<Rightarrow> run_state \<Rightarrow> (string + string \<times> int) \<times> run_state" where
  "write_sbom_output env output_bytes path st =
     (case re_mkdir_fault env path of
        Some reason \<Rightarrow> (Inl (output_path_error path reason), st)
      | None \<Rightarrow>
          (case re_write_fault env path of
             Some reason \<Rightarrow> (Inl (output_path_error path reason), st\<lparr>rs_files := dict_pop (rs_files st) path\<rparr>)
           | None \<Rightarrow> (Inr (re_sha256 env output_bytes, int (length output_bytes)),
               st\<lparr>rs_files := dict_set (rs_files st) path output_bytes\<rparr>)))"

definition write_with_cancellation ::
  "run_env \<Rightarrow> string \<Rightarrow> string \<Rightarrow> output_format \<Rightarrow> string list \<Rightarrow> run_state \<Rightarrow> (string + writer_result) \<times> run_state" where
  "write_with_cancellation env output_bytes path fmt diagnostics st =
     (case poll_token env st of
        (True, st) \<Rightarrow> (Inl (writer_cancelled path), st)
      | (False, st) \<Rightarrow>
          and_then (write_sbom_output env output_bytes path st) (\<lambda>(sha256, file_size) st.
            case poll_token env st of
              (True, st) \<Rightarrow> (Inl (writer_cancelled path), st\<lparr>rs_files := dict_pop (rs_files st) path\<rparr>)
            | (False, st) \<Rightarrow>
                (check_writer_result \<lparr>wt_output_path = path, wt_format = fmt, wt_sha256 = sha256, wt_file_size = file_size,
                   wt_diagnostics = diagnostics\<rparr>, st)))"

fun check_token :: "run_env \<Rightarrow> nat \<Rightarrow> string \<Rightarrow> run_state \<Rightarrow> (string + unit) \<times> run_state" where
  "check_token env 0 path st = (Inr (), st)"
| "check_token env (Suc n) path st =
     (case poll_token env st of (True, st) \<Rightarrow> (Inl (writer_cancelled path), st) | (False, st) \<Rightarrow> check_token env n path st)"

definition write_document ::
  "run_env \<Rightarrow> writer_method \<Rightarrow> sbom_document \<Rightarrow> string \<Rightarrow> output_format \<Rightarrow> run_state \<Rightarrow> (string + writer_result) \<times> run_state" where
  "write_document env writer document path fmt st =
     and_then (check_token env (fst writer) path st) (\<lambda>_ st.
     and_then (snd writer document, st) (\<lambda>(output_bytes, diagnostics) st.
       write_with_cancellation env output_bytes path fmt diagnostics st))"

definition write_format :: "run_env \<Rightarrow> sbom_config \<Rightarrow> sbom_document \<Rightarrow> output_format \<Rightarrow> run_state \<Rightarrow> (string + writer_result) \<times> run_state" where
  "write_format env config document fmt st =
     (case re_writer env fmt of
        None \<Rightarrow> (Inl (''No writer registered for format '' @ quoted (format_value fmt) @ ''. Registered formats: ''
         @ re_registered_formats env), st)
      | Some writer \<Rightarrow> write_document env writer document (output_path (sg_output_dir config) fmt) fmt st)"

text \<open>A format that cannot be written is a failure that does not stop the others.\<close>

fun write_all_formats ::
  "run_env \<Rightarrow> sbom_config \<Rightarrow> sbom_document \<Rightarrow> output_format list \<Rightarrow> run_state \<Rightarrow>
     (writer_result list \<times> (output_format \<times> string) list) \<times> run_state" where
  "write_all_formats env config document [] st = (([], []), st)"
| "write_all_formats env config document (fmt # formats) st =
     (case write_format env config document fmt st of
        (r, st) \<Rightarrow>
          (case write_all_formats env config document formats st of
             ((results, failures), st) \<Rightarrow>
               (case r of Inr result \<Rightarrow> ((result # results, failures), st) | Inl e \<Rightarrow> ((results, (fmt, e) # failures), st))))"

section \<open>The steps\<close>

definition scan_step :: "run_env \<Rightarrow> sbom_config \<Rightarrow> run_state \<Rightarrow> (run_exc + scan_result) \<times> run_state" where
  "scan_step env config st =
     (case (case sg_artifact_type config of
              Some t \<Rightarrow> if t = [] then Some (detect_artifact_type (re_isdir env) (sg_artifact_path config)) else artifact_type_of t
            | None \<Rightarrow> Some (detect_artifact_type (re_isdir env) (sg_artifact_path config))) of
        None \<Rightarrow> (Inl (Failure (quoted (case sg_artifact_type config of Some t \<Rightarrow> t | None \<Rightarrow> []) @ '' is not a valid ArtifactType'')), st)
      | Some t \<Rightarrow>
          (case re_scanner env t of
             None \<Rightarrow> (Inl (Failure (''No scanner for artifact type '' @ quoted (artifact_type_value t) @ ''. Registered types: ''
               @ re_registered_types env)), st)
           | Some scan \<Rightarrow>
               (case scan \<lparr>ar_type = t, ar_path = sg_artifact_path config, ar_options = []\<rparr> (rs_polls st) of
                  (r, polls) \<Rightarrow> (map_sum Failure id r, st\<lparr>rs_polls := polls\<rparr>))))"

definition enrich_step :: "run_env \<Rightarrow> sbom_config \<Rightarrow> scan_result \<Rightarrow> run_state \<Rightarrow> (run_exc + scan_result) \<times> run_state" where
  "enrich_step env config scan_result st =
     (map_sum Failure (\<lambda>(enriched_packages, diagnostics). scan_result\<lparr>sc_enriched_packages := enriched_packages\<rparr>)
        (re_enrich env (sc_packages scan_result) (sg_snapshot_id config)), st)"

definition assemble_step :: "run_env \<Rightarrow> scan_result \<Rightarrow> run_state \<Rightarrow> (run_exc + sbom_document) \<times> run_state" where
  "assemble_step env scan_result st = (map_sum Failure id (re_assemble env scan_result (sc_enriched_packages scan_result)), st)"

definition document_row_of :: "int \<Rightarrow> writer_result \<Rightarrow> document_row" where
  "document_row_of scan_session_id result =
     \<lparr>dr_scan_session_id = scan_session_id, dr_format = format_value (wt_format result), dr_content_path = wt_output_path result,
      dr_sha256 = wt_sha256 result\<rparr>"

definition persist_step :: "run_env \<Rightarrow> sbom_config \<Rightarrow> writer_result list \<Rightarrow> run_state \<Rightarrow> (run_exc + unit) \<times> run_state" where
  "persist_step env config writer_results st =
     (case sg_scan_session_id config of
        None \<Rightarrow> (Inr (), st)
      | Some scan_session_id \<Rightarrow>
          if writer_results = [] then (Inr (), st)
          else (case re_session_fault env of
             Some e \<Rightarrow> (Inl (Failure e), st)
           | None \<Rightarrow> (Inr (), st\<lparr>rs_rows := rs_rows st @ map (document_row_of scan_session_id) writer_results\<rparr>)))"

definition check_write_failures :: "(output_format \<times> string) list \<Rightarrow> run_state \<Rightarrow> (run_exc + unit) \<times> run_state" where
  "check_write_failures write_failures st =
     (if write_failures = [] then (Inr (), st)
      else (let error_details = join ''; '' (map (\<lambda>(fmt, err). ''write['' @ format_value fmt @ '']: '' @ err) write_failures)
        in (Inl (Partial_Failure error_details), publish_sbom (Workflow_Failed error_details) st)))"

section \<open>The run\<close>

text \<open>A step after the check of the token that precedes it. A cancelled run publishes the event of its cancellation and raises.\<close>

definition guarded :: "run_env \<Rightarrow> (run_state \<Rightarrow> (run_exc + 'a) \<times> run_state) \<Rightarrow> run_state \<Rightarrow> (run_exc + 'a) \<times> run_state" where
  "guarded env step st =
     (case poll_token env st of
        (True, st) \<Rightarrow> (Inl Workflow_Cancelled_Exc, publish_sbom Workflow_Cancelled st)
      | (False, st) \<Rightarrow> step st)"

definition completed :: "string \<Rightarrow> nat \<Rightarrow> (run_exc + 'a) \<times> run_state \<Rightarrow> (run_exc + 'a) \<times> run_state" where
  "completed step_name step_index r = and_then r (\<lambda>a st. (Inr a, publish_sbom (Step_Completed step_name step_index) st))"

definition run_steps :: "run_env \<Rightarrow> sbom_config \<Rightarrow> run_state \<Rightarrow> (run_exc + unit) \<times> run_state" where
  "run_steps env config st =
     and_then (completed ''scan'' 0 (guarded env (scan_step env config) st)) (\<lambda>scan_result st.
     and_then (completed ''enrich'' 1 (guarded env (enrich_step env config scan_result) st)) (\<lambda>enriched_scan_result st.
     and_then (completed ''assemble'' 2 (guarded env (assemble_step env enriched_scan_result) st)) (\<lambda>document st.
     and_then (completed ''write'' 3 (guarded env (\<lambda>st. apfst Inr (write_all_formats env config document (sg_formats config) st)) st))
       (\<lambda>(writer_results, write_failures) st.
     and_then (completed ''persist'' 4 (guarded env (persist_step env config writer_results) st)) (\<lambda>_ st.
     and_then (check_write_failures write_failures st) (\<lambda>_ st.
       (Inr (), publish_sbom Workflow_Completed st)))))))"

text \<open>The handler: every exception but a partial failure also publishes a failure, cancellation among them.\<close>

definition execute :: "run_env \<Rightarrow> sbom_config \<Rightarrow> run_state \<Rightarrow> (run_exc + unit) \<times> run_state" where
  "execute env config st =
     (case run_steps env config (publish_sbom Workflow_Started st) of
        (Inl (Partial_Failure e), st) \<Rightarrow> (Inl (Partial_Failure e), st)
      | (Inl e, st) \<Rightarrow> (Inl e, publish_sbom (Workflow_Failed (''workflow: '' @ run_exc_str e)) st)
      | (Inr _, st) \<Rightarrow> (Inr (), st))"

section \<open>Events\<close>

named_theorems same_events \<open>steps that publish nothing\<close>

lemma poll_token_events [same_events]: "rs_events (snd (poll_token env st)) = rs_events st"
  by (simp add: poll_token_def)

lemma scan_step_events [same_events]: "rs_events (snd (scan_step env config st)) = rs_events st"
  by (simp add: scan_step_def split: option.split prod.split)

lemma enrich_step_events [same_events]: "rs_events (snd (enrich_step env config r st)) = rs_events st"
  by (simp add: enrich_step_def)

lemma assemble_step_events [same_events]: "rs_events (snd (assemble_step env r st)) = rs_events st"
  by (simp add: assemble_step_def)

lemma check_token_frame: "check_token env n path st = (r, st') \<Longrightarrow> rs_events st' = rs_events st \<and> rs_files st' = rs_files st \<and> rs_rows st' = rs_rows st"
  by (induction n arbitrary: st) (auto simp: poll_token_def split: bool.splits)

lemma write_with_cancellation_events: "write_with_cancellation env out path f ds st = (r, st') \<Longrightarrow> rs_events st' = rs_events st"
  by (auto simp: write_with_cancellation_def write_sbom_output_def and_then_def poll_token_def
      split: option.splits prod.splits sum.splits bool.splits)

lemma write_document_events: "write_document env writer d path f st = (r, st') \<Longrightarrow> rs_events st' = rs_events st"
proof -
  assume w: "write_document env writer d path f st = (r, st')"
  obtain c st1 where c: "check_token env (fst writer) path st = (c, st1)" by fastforce
  note frame = check_token_frame [OF c]
  show ?thesis
    using w frame
    by (auto simp: write_document_def c and_then_def split: sum.splits prod.splits dest: write_with_cancellation_events)
qed

lemma write_format_events [same_events]: "rs_events (snd (write_format env config d f st)) = rs_events st"
proof (cases "re_writer env f")
  case (Some writer)
  obtain r st' where w: "write_document env writer d (output_path (sg_output_dir config) f) f st = (r, st')" by fastforce
  then show ?thesis using write_document_events [OF w] by (simp add: write_format_def Some w)
qed (simp add: write_format_def)

lemma write_all_events [same_events]: "rs_events (snd (write_all_formats env config d fs st)) = rs_events st"
proof (induction fs arbitrary: st)
  case (Cons f fs)
  then show ?case using write_format_events [of env config d f st] by (auto split: prod.split sum.split) (metis snd_conv)+
qed simp

lemma persist_step_events [same_events]: "rs_events (snd (persist_step env config ws st)) = rs_events st"
  by (simp add: persist_step_def split: option.split)

text \<open>One guarded step.\<close>

lemma guarded_step:
  assumes "\<And>st. rs_events (snd (step st)) = rs_events st" and "completed n i (guarded env step st) = (r, st')"
    and "\<And>st d. fst (step st) \<noteq> Inl (Partial_Failure d)" and "\<And>st. fst (step st) \<noteq> Inl Workflow_Cancelled_Exc"
  shows "rs_events st' = rs_events st @ (case r of Inr _ \<Rightarrow> [Step_Completed n i] | Inl Workflow_Cancelled_Exc \<Rightarrow> [Workflow_Cancelled] | Inl _ \<Rightarrow> []) \<and>
    (\<forall>d. r \<noteq> Inl (Partial_Failure d))"
proof (cases "poll_token env st")
  case (Pair cancelled st1)
  have e: "rs_events st1 = rs_events st" using poll_token_events [of env st] by (simp add: Pair)
  show ?thesis
  proof (cases cancelled)
    case True
    then show ?thesis using assms(2) e by (auto simp: completed_def guarded_def Pair and_then_def publish_sbom_def)
  next
    case False
    then have g: "guarded env step st = step st1" by (simp add: guarded_def Pair)
    have s: "rs_events (snd (step st1)) = rs_events st" using assms(1) e by simp
    show ?thesis
    proof (cases "fst (step st1)")
      case (Inl x)
      then have "r = Inl x" "st' = snd (step st1)"
        using assms(2) by (auto simp: completed_def g and_then_def split: prod.splits)
      then show ?thesis using s Inl assms(3,4) [of st1] by (cases x) auto
    next
      case (Inr a)
      then have "r = Inr a" "st' = publish_sbom (Step_Completed n i) (snd (step st1))"
        using assms(2) by (auto simp: completed_def g and_then_def split: prod.splits)
      then show ?thesis using s by (simp add: publish_sbom_def)
    qed
  qed
qed

definition step_events :: "sbom_event list" where
  "step_events = [Step_Completed ''scan'' 0, Step_Completed ''enrich'' 1, Step_Completed ''assemble'' 2, Step_Completed ''write'' 3,
     Step_Completed ''persist'' 4]"

definition end_events :: "run_exc + unit \<Rightarrow> sbom_event list" where
  "end_events r = (case r of
     Inr _ \<Rightarrow> [Workflow_Completed]
   | Inl Workflow_Cancelled_Exc \<Rightarrow> [Workflow_Cancelled, Workflow_Failed ''workflow: '']
   | Inl (Partial_Failure details) \<Rightarrow> [Workflow_Failed details]
   | Inl (Failure msg) \<Rightarrow> [Workflow_Failed (''workflow: '' @ msg)])"

definition ended_after :: "run_exc + unit \<Rightarrow> nat \<Rightarrow> bool" where
  "ended_after r k \<longleftrightarrow> (case r of Inr _ \<Rightarrow> k = 5 | Inl (Partial_Failure _) \<Rightarrow> k = 5 | Inl _ \<Rightarrow> k < 5)"

lemma never_partial [simp]:
  "fst (scan_step env config st) \<noteq> Inl (Partial_Failure d)" "fst (scan_step env config st) \<noteq> Inl Workflow_Cancelled_Exc"
  "fst (enrich_step env config r st) \<noteq> Inl (Partial_Failure d)" "fst (enrich_step env config r st) \<noteq> Inl Workflow_Cancelled_Exc"
  "fst (assemble_step env r st) \<noteq> Inl (Partial_Failure d)" "fst (assemble_step env r st) \<noteq> Inl Workflow_Cancelled_Exc"
  "fst (persist_step env config ws st) \<noteq> Inl (Partial_Failure d)" "fst (persist_step env config ws st) \<noteq> Inl Workflow_Cancelled_Exc"
  "fst (apfst Inr x) \<noteq> Inl e"
  by (auto simp: scan_step_def enrich_step_def assemble_step_def persist_step_def map_sum_def apfst_def map_prod_def
      split: option.split prod.split sum.split)

lemma write_step_events: "rs_events (snd (apfst Inr (write_all_formats env config d fs st))) = rs_events st"
  by (simp add: write_all_events)

lemmas scan_guarded = guarded_step [OF scan_step_events, of _ _ env config, OF _ never_partial(1,2)] for env config
lemmas enrich_guarded = guarded_step [OF enrich_step_events, of _ _ env config r, OF _ never_partial(3,4)] for env config r
lemmas assemble_guarded = guarded_step [OF assemble_step_events, of _ _ env r, OF _ never_partial(5,6)] for env r
lemmas write_guarded = guarded_step [OF write_step_events, of _ _ env config d fs, OF _ never_partial(9,9)] for env config d fs
lemmas persist_guarded = guarded_step [OF persist_step_events, of _ _ env config ws, OF _ never_partial(7,8)] for env config ws


text \<open>What a run that stopped early has published.\<close>

definition handled :: "(run_exc + unit) \<times> run_state \<Rightarrow> (run_exc + unit) \<times> run_state" where
  "handled r = (case r of
     (Inl (Partial_Failure e), st) \<Rightarrow> (Inl (Partial_Failure e), st)
   | (Inl e, st) \<Rightarrow> (Inl e, publish_sbom (Workflow_Failed (''workflow: '' @ run_exc_str e)) st)
   | (Inr _, st) \<Rightarrow> (Inr (), st))"

lemma execute_handled: "execute env config st = handled (run_steps env config (publish_sbom Workflow_Started st))"
  by (simp add: execute_def handled_def)

definition published :: "sbom_event list \<Rightarrow> nat \<Rightarrow> run_state \<Rightarrow> bool" where
  "published evs k st \<longleftrightarrow> rs_events st = evs @ take k step_events"

definition ends_well :: "sbom_event list \<Rightarrow> (run_exc + unit) \<times> run_state \<Rightarrow> bool" where
  "ends_well evs out \<longleftrightarrow>
     (case handled out of (r, st') \<Rightarrow> \<exists>k\<le>5. rs_events st' = evs @ take k step_events @ end_events r \<and> ended_after r k)"

lemma length_step_events [simp]: "length step_events = 5"
  by (simp add: step_events_def)

lemma step_chain:
  assumes "published evs j st" and [simp]: "j = k" and "k < 5" and "step_events ! k = Step_Completed n k"
    and step: "\<And>r st'. completed n k (guarded env step st) = (r, st') \<Longrightarrow>
      rs_events st' = rs_events st @ (case r of Inr _ \<Rightarrow> [Step_Completed n k] | Inl Workflow_Cancelled_Exc \<Rightarrow> [Workflow_Cancelled] | Inl _ \<Rightarrow> [])
      \<and> (\<forall>d. r \<noteq> Inl (Partial_Failure d))"
    and continue: "\<And>a st'. published evs (Suc k) st' \<Longrightarrow> ends_well evs (f a st')"
  shows "ends_well evs (and_then (completed n k (guarded env step st)) f)"
proof (cases "completed n k (guarded env step st)")
  case (Pair r st')
  note e = step [OF Pair]
  show ?thesis
  proof (cases r)
    case (Inr a)
    have "published evs (Suc k) st'"
      using e assms(1,3,4) by (simp add: Inr published_def take_Suc_conv_app_nth)
    then show ?thesis using continue by (simp add: Pair Inr and_then_eqs)
  next
    case (Inl x)
    have "k \<le> 5" using assms(3) by simp
    then show ?thesis using e assms(1,3)
      by (cases x) (auto simp: Pair Inl and_then_eqs ends_well_def handled_def published_def publish_sbom_def end_events_def ended_after_def
          intro!: exI [of _ k])
  qed
qed

lemma published_end:
  assumes "published evs 5 st"
  shows "ends_well evs (and_then (check_write_failures fails st) (\<lambda>_ st. (Inr (), publish_sbom Workflow_Completed st)))"
  using assms
  by (auto simp: check_write_failures_def ends_well_def handled_def published_def publish_sbom_def end_events_def ended_after_def
      and_then_def Let_def intro!: exI [of _ 5])



section \<open>Files and rows\<close>

definition rendered :: "run_env \<Rightarrow> sbom_document \<Rightarrow> output_format \<Rightarrow> (string \<times> string list) option" where
  "rendered env document fmt =
     (case re_writer env fmt of None \<Rightarrow> None | Some writer \<Rightarrow> (case snd writer document of Inl _ \<Rightarrow> None | Inr out \<Rightarrow> Some out))"

definition result_of :: "run_env \<Rightarrow> string \<Rightarrow> output_format \<Rightarrow> string \<times> string list \<Rightarrow> writer_result" where
  "result_of env output_dir fmt out =
     \<lparr>wt_output_path = output_path output_dir fmt, wt_format = fmt, wt_sha256 = re_sha256 env (fst out),
      wt_file_size = int (length (fst out)), wt_diagnostics = snd out\<rparr>"

lemma output_path_inj: "output_path d f = output_path d g \<longleftrightarrow> f = g"
proof
  have last_part: "path_root (get_output_filename h) = []" "path_parts (get_output_filename h) = [get_output_filename h]" for h
    by (cases h; simp only: get_output_filename.simps, code_simp)+
  have inj: "get_output_filename f = get_output_filename g \<Longrightarrow> f = g" by (cases f; cases g) simp_all
  assume "output_path d f = output_path d g"
  then have "join ''/'' (path_parts d @ [get_output_filename f]) = join ''/'' (path_parts d @ [get_output_filename g])"
    by (simp add: output_path_def path_join_def path_str_def last_part)
  then have "get_output_filename f = get_output_filename g"
    by (cases "path_parts d = []") (simp_all add: join_append)
  then show "f = g" by (rule inj)
qed simp

definition same_elsewhere :: "run_state \<Rightarrow> run_state \<Rightarrow> string set \<Rightarrow> bool" where
  "same_elsewhere st st' ps \<longleftrightarrow> rs_rows st' = rs_rows st \<and> (\<forall>p. p \<notin> ps \<longrightarrow> dict_get (rs_files st') p = dict_get (rs_files st) p)"

lemma write_with_cancellation_effect:
  assumes "write_with_cancellation env out path f ds st = (r, st')"
  shows "same_elsewhere st st' {path} \<and> (\<forall>w. r = Inr w \<longrightarrow>
    w = \<lparr>wt_output_path = path, wt_format = f, wt_sha256 = re_sha256 env out, wt_file_size = int (length out), wt_diagnostics = ds\<rparr> \<and>
    dict_get (rs_files st') path = Some out)"
  using assms
  by (auto simp: write_with_cancellation_def write_sbom_output_def and_then_def poll_token_def same_elsewhere_def
      check_writer_result_def split: option.splits prod.splits sum.splits bool.splits if_splits)

lemma write_document_effect:
  assumes "write_document env writer doc path f st = (r, st')"
  shows "same_elsewhere st st' {path}"
    and "r = Inr w \<Longrightarrow> \<exists>out ds. snd writer doc = Inr (out, ds) \<and>
      w = \<lparr>wt_output_path = path, wt_format = f, wt_sha256 = re_sha256 env out, wt_file_size = int (length out), wt_diagnostics = ds\<rparr> \<and>
      dict_get (rs_files st') path = Some out"
proof -
  obtain c st1 where c: "check_token env (fst writer) path st = (c, st1)" by fastforce
  note frame = check_token_frame [OF c]
  have same: "same_elsewhere st st1 {path}" using frame by (simp add: same_elsewhere_def)
  consider e where "r = Inl e" "st' = st1" | out ds where "snd writer doc = Inr (out, ds)" "write_with_cancellation env out path f ds st1 = (r, st')"
    using assms by (auto simp: write_document_def c and_then_def split: sum.splits prod.splits)
  then have "same_elsewhere st st' {path} \<and> (\<forall>w. r = Inr w \<longrightarrow> (\<exists>out ds. snd writer doc = Inr (out, ds) \<and>
      w = \<lparr>wt_output_path = path, wt_format = f, wt_sha256 = re_sha256 env out, wt_file_size = int (length out), wt_diagnostics = ds\<rparr> \<and>
      dict_get (rs_files st') path = Some out))"
  proof cases
    case 1
    then show ?thesis using same by simp
  next
    case 2
    show ?thesis using write_with_cancellation_effect [OF 2(2)] 2(1) frame by (auto simp: same_elsewhere_def)
  qed
  then show "same_elsewhere st st' {path}"
    and "r = Inr w \<Longrightarrow> \<exists>out ds. snd writer doc = Inr (out, ds) \<and>
      w = \<lparr>wt_output_path = path, wt_format = f, wt_sha256 = re_sha256 env out, wt_file_size = int (length out), wt_diagnostics = ds\<rparr> \<and>
      dict_get (rs_files st') path = Some out" by blast+
qed

lemma write_format_effect:
  assumes "write_format env config doc f st = (r, st')"
  shows "same_elsewhere st st' {output_path (sg_output_dir config) f}"
    and "r = Inr w \<Longrightarrow> \<exists>out. rendered env doc f = Some out \<and> w = result_of env (sg_output_dir config) f out \<and>
      dict_get (rs_files st') (output_path (sg_output_dir config) f) = Some (fst out)"
proof -
  show "same_elsewhere st st' {output_path (sg_output_dir config) f}"
    using assms write_document_effect(1) by (auto simp: write_format_def same_elsewhere_def split: option.splits)
  assume r: "r = Inr w"
  then obtain writer where writer: "re_writer env f = Some writer"
    "write_document env writer doc (output_path (sg_output_dir config) f) f st = (Inr w, st')"
    using assms by (auto simp: write_format_def split: option.splits)
  show "\<exists>out. rendered env doc f = Some out \<and> w = result_of env (sg_output_dir config) f out \<and>
      dict_get (rs_files st') (output_path (sg_output_dir config) f) = Some (fst out)"
    using write_document_effect(2) [OF writer(2) refl] by (auto simp: rendered_def writer(1) result_of_def)
qed

lemma write_all_effect:
  assumes "write_all_formats env config doc fs st = ((ws, []), st')"
  shows "same_elsewhere st st' (output_path (sg_output_dir config) ` set fs)"
    and "\<forall>f\<in>set fs. dict_get (rs_files st') (output_path (sg_output_dir config) f) = map_option fst (rendered env doc f) \<and> rendered env doc f \<noteq> None"
    and "map Some ws = map (\<lambda>f. map_option (result_of env (sg_output_dir config) f) (rendered env doc f)) fs"
proof -
  have "same_elsewhere st st' (output_path (sg_output_dir config) ` set fs) \<and>
    (\<forall>f\<in>set fs. dict_get (rs_files st') (output_path (sg_output_dir config) f) = map_option fst (rendered env doc f) \<and> rendered env doc f \<noteq> None) \<and>
    map Some ws = map (\<lambda>f. map_option (result_of env (sg_output_dir config) f) (rendered env doc f)) fs"
    using assms
  proof (induction fs arbitrary: st ws)
    case (Cons f fs)
    obtain r st1 where f: "write_format env config doc f st = (r, st1)" by fastforce
    obtain w ws1 where r: "r = Inr w" and ws: "ws = w # ws1" and rest: "write_all_formats env config doc fs st1 = ((ws1, []), st')"
      using Cons.prems by (auto simp: f split: prod.splits sum.splits)
    note e = write_format_effect [OF f] and ih = Cons.IH [OF rest]
    obtain out where out: "rendered env doc f = Some out" "w = result_of env (sg_output_dir config) f out"
      "dict_get (rs_files st1) (output_path (sg_output_dir config) f) = Some (fst out)" using e(2) [OF r] by blast
    have "output_path (sg_output_dir config) f \<in> output_path (sg_output_dir config) ` set fs \<longleftrightarrow> f \<in> set fs"
      by (auto simp: output_path_inj)
    then have "dict_get (rs_files st') (output_path (sg_output_dir config) f) = Some (fst out)"
      using ih out by (cases "f \<in> set fs") (auto simp: same_elsewhere_def)
    then show ?case using ih e(1) out by (auto simp: same_elsewhere_def ws)
  qed (simp add: same_elsewhere_def)
  then show "same_elsewhere st st' (output_path (sg_output_dir config) ` set fs)"
    and "\<forall>f\<in>set fs. dict_get (rs_files st') (output_path (sg_output_dir config) f) = map_option fst (rendered env doc f) \<and> rendered env doc f \<noteq> None"
    and "map Some ws = map (\<lambda>f. map_option (result_of env (sg_output_dir config) f) (rendered env doc f)) fs" by blast+
qed

lemma completed_guarded_Inr:
  "completed n i (guarded env step st) = (Inr a, u) \<Longrightarrow>
     \<exists>v. step (snd (poll_token env st)) = (Inr a, v) \<and> u = publish_sbom (Step_Completed n i) v"
  by (auto simp: completed_def guarded_def and_then_def split: prod.splits sum.splits bool.splits)

lemma poll_elsewhere [simp]: "rs_files (snd (poll_token env st)) = rs_files st" "rs_rows (snd (poll_token env st)) = rs_rows st"
  by (simp_all add: poll_token_def)

lemma publish_elsewhere [simp]: "rs_files (publish_sbom e st) = rs_files st" "rs_rows (publish_sbom e st) = rs_rows st"
  by (simp_all add: publish_sbom_def)

lemma read_only_steps:
  "scan_step env config st = (r1, u) \<Longrightarrow> rs_files u = rs_files st \<and> rs_rows u = rs_rows st"
  "enrich_step env config s st = (r2, u) \<Longrightarrow> rs_files u = rs_files st \<and> rs_rows u = rs_rows st"
  "assemble_step env s st = (r3, u) \<Longrightarrow> rs_files u = rs_files st \<and> rs_rows u = rs_rows st"
  by (auto simp: scan_step_def enrich_step_def assemble_step_def split: option.splits prod.splits)

text \<open>Whatever the outcome, only the files of the requested formats change.\<close>

definition keeps_files :: "string set \<Rightarrow> run_state \<Rightarrow> run_state \<Rightarrow> bool" where
  "keeps_files ps st st' \<longleftrightarrow> (\<forall>p. p \<notin> ps \<longrightarrow> dict_get (rs_files st') p = dict_get (rs_files st) p)"

lemma keeps_same: "keeps_files ps st st1 \<Longrightarrow> rs_files st2 = rs_files st1 \<Longrightarrow> keeps_files ps st st2"
  by (simp add: keeps_files_def)

lemma keeps_and_then:
  "keeps_files ps st (snd m) \<Longrightarrow> (\<And>a st'. keeps_files ps st st' \<Longrightarrow> keeps_files ps st (snd (k a st'))) \<Longrightarrow>
     keeps_files ps st (snd (and_then m k))"
  by (cases m) (auto simp: and_then_def split: sum.split)

lemma keeps_step:
  assumes "keeps_files ps st st1" and step: "\<And>st'. keeps_files ps st st' \<Longrightarrow> keeps_files ps st (snd (step st'))"
  shows "keeps_files ps st (snd (completed n i (guarded env step st1)))"
proof -
  have polled: "keeps_files ps st (snd (poll_token env st1))" by (rule keeps_same [OF assms(1)]) simp
  then have "keeps_files ps st (snd (guarded env step st1))"
    using step by (cases "poll_token env st1") (auto simp: guarded_def keeps_files_def split: bool.split)
  then show ?thesis unfolding completed_def by (rule keeps_and_then) (simp add: keeps_files_def)
qed

lemma write_all_elsewhere:
  "keeps_files (output_path (sg_output_dir config) ` set fs) st st1 \<Longrightarrow>
   keeps_files (output_path (sg_output_dir config) ` set fs) st (snd (write_all_formats env config doc fs st1))"
proof -
  have "keeps_files (output_path (sg_output_dir config) ` set fs) st (snd (write_all_formats env config doc gs st1))"
    if "keeps_files (output_path (sg_output_dir config) ` set fs) st st1" "set gs \<subseteq> set fs" for gs
    using that
  proof (induction gs arbitrary: st1)
    case (Cons g gs)
    obtain r st2 where g: "write_format env config doc g st1 = (r, st2)" by fastforce
    have "keeps_files (output_path (sg_output_dir config) ` set fs) st st2"
      using write_format_effect(1) [OF g] Cons.prems by (auto simp: same_elsewhere_def keeps_files_def)
    then have "keeps_files (output_path (sg_output_dir config) ` set fs) st (snd (write_all_formats env config doc gs st2))"
      using Cons.IH Cons.prems(2) by simp
    then show ?case by (auto simp: g split: prod.split sum.split)
  qed simp
  then show "keeps_files (output_path (sg_output_dir config) ` set fs) st st1 \<Longrightarrow> ?thesis" by simp
qed

lemma execute_elsewhere: "keeps_files (output_path (sg_output_dir config) ` set (sg_formats config)) st (snd (execute env config st))"
proof -
  let ?ps = "output_path (sg_output_dir config) ` set (sg_formats config)"
  have start: "keeps_files ?ps st (publish_sbom Workflow_Started st)" by (simp add: keeps_files_def)
  have scan: "keeps_files ?ps st (snd (scan_step env config s))" if "keeps_files ?ps st s" for s
    by (rule keeps_same [OF that]) (metis read_only_steps(1) surjective_pairing)
  have enrich: "keeps_files ?ps st (snd (enrich_step env config r s))" if "keeps_files ?ps st s" for r s
    by (rule keeps_same [OF that]) (simp add: enrich_step_def)
  have assemble: "keeps_files ?ps st (snd (assemble_step env r s))" if "keeps_files ?ps st s" for r s
    by (rule keeps_same [OF that]) (simp add: assemble_step_def)
  have "write": "keeps_files ?ps st (snd (apfst Inr (write_all_formats env config d (sg_formats config) s)))" if "keeps_files ?ps st s" for d s
    using write_all_elsewhere [OF that] by simp
  have persist: "keeps_files ?ps st (snd (persist_step env config ws s))" if "keeps_files ?ps st s" for ws s
    by (rule keeps_same [OF that]) (simp add: persist_step_def split: option.split)
  have "keeps_files ?ps st (snd (run_steps env config (publish_sbom Workflow_Started st)))"
    unfolding run_steps_def
    apply (rule keeps_and_then keeps_step start scan, assumption?)+
    apply (rule keeps_and_then keeps_step enrich, assumption?)+
    apply (rule keeps_and_then keeps_step assemble, assumption?)+
    apply (rule keeps_and_then keeps_step "write", assumption?)+
    apply (simp split: prod.split, intro allI impI)
    apply (rule keeps_and_then keeps_step persist, assumption?)+
     apply (simp_all add: keeps_files_def check_write_failures_def Let_def)
    done
  then show ?thesis
    by (cases "run_steps env config (publish_sbom Workflow_Started st)")
      (auto simp: execute_def keeps_files_def split: sum.split run_exc.split)
qed

text \<open>The document of a scan.\<close>

definition document_of :: "run_env \<Rightarrow> sbom_config \<Rightarrow> scan_result \<Rightarrow> sbom_document option" where
  "document_of env config scan_result =
     (case re_enrich env (sc_packages scan_result) (sg_snapshot_id config) of
        Inl _ \<Rightarrow> None
      | Inr (enriched, _) \<Rightarrow>
          (case re_assemble env (scan_result\<lparr>sc_enriched_packages := enriched\<rparr>) enriched of Inl _ \<Rightarrow> None | Inr doc \<Rightarrow> Some doc))"



lemma run_steps_Inr:
  assumes "run_steps env config st = (Inr (), st')"
  shows "\<exists>scan_result doc ws u v st0. fst (scan_step env config st0) = Inr scan_result \<and> document_of env config scan_result = Some doc \<and>
    rs_files u = rs_files st \<and> rs_rows u = rs_rows st \<and> write_all_formats env config doc (sg_formats config) u = ((ws, []), v) \<and>
    rs_files st' = rs_files v \<and>
    rs_rows st' = rs_rows v @ (case sg_scan_session_id config of None \<Rightarrow> [] | Some i \<Rightarrow> map (document_row_of i) ws)"
proof -
  note chain = assms [unfolded run_steps_def and_then_Inr]
  from chain obtain scan_result s1 where r1: "completed ''scan'' 0 (guarded env (scan_step env config) st) = (Inr scan_result, s1)"
    and c1: "\<exists>enriched s2. completed ''enrich'' 1 (guarded env (enrich_step env config scan_result) s1) = (Inr enriched, s2) \<and>
      (\<exists>doc s3. completed ''assemble'' 2 (guarded env (assemble_step env enriched) s2) = (Inr doc, s3) \<and>
      (\<exists>out s4. completed ''write'' 3 (guarded env (\<lambda>st. apfst Inr (write_all_formats env config doc (sg_formats config) st)) s3) = (Inr out, s4) \<and>
      (case out of (writer_results, write_failures) \<Rightarrow> \<lambda>st.
        and_then (completed ''persist'' 4 (guarded env (persist_step env config writer_results) st)) (\<lambda>_ st.
        and_then (check_write_failures write_failures st) (\<lambda>_ st. (Inr (), publish_sbom Workflow_Completed st)))) s4 = (Inr (), st')))"
    by blast
  from c1 obtain enriched s2 doc s3 out s4 where r2: "completed ''enrich'' 1 (guarded env (enrich_step env config scan_result) s1) = (Inr enriched, s2)"
    and r3: "completed ''assemble'' 2 (guarded env (assemble_step env enriched) s2) = (Inr doc, s3)"
    and r4: "completed ''write'' 3 (guarded env (\<lambda>st. apfst Inr (write_all_formats env config doc (sg_formats config) st)) s3) = (Inr out, s4)"
    and c4: "and_then (completed ''persist'' 4 (guarded env (persist_step env config (fst out)) s4)) (\<lambda>_ st.
        and_then (check_write_failures (snd out) st) (\<lambda>_ st. (Inr (), publish_sbom Workflow_Completed st))) = (Inr (), st')"
    by (auto split: prod.splits)
  from c4 obtain s5 where r5: "completed ''persist'' 4 (guarded env (persist_step env config (fst out)) s4) = (Inr (), s5)"
    and r6: "check_write_failures (snd out) s5 = (Inr (), s5)" and r7: "st' = publish_sbom Workflow_Completed s5"
    by (auto simp: and_then_Inr check_write_failures_def Let_def split: if_splits)
  note runs = r1 r2 r3 r4 r5 r6 r7
  obtain v1 v2 v3 v4 v5 where steps:
      "scan_step env config (snd (poll_token env st)) = (Inr scan_result, v1)" "s1 = publish_sbom (Step_Completed ''scan'' 0) v1"
      "enrich_step env config scan_result (snd (poll_token env s1)) = (Inr enriched, v2)" "s2 = publish_sbom (Step_Completed ''enrich'' 1) v2"
      "assemble_step env enriched (snd (poll_token env s2)) = (Inr doc, v3)" "s3 = publish_sbom (Step_Completed ''assemble'' 2) v3"
      "apfst Inr (write_all_formats env config doc (sg_formats config) (snd (poll_token env s3))) = (Inr out :: run_exc + _, v4)"
      "s4 = publish_sbom (Step_Completed ''write'' 3) v4"
      "persist_step env config (fst out) (snd (poll_token env s4)) = (Inr (), v5)" "s5 = publish_sbom (Step_Completed ''persist'' 4) v5"
    using runs(1-5) [THEN completed_guarded_Inr] by blast
  have "document_of env config scan_result = Some doc"
    using steps(3,5) by (auto simp: document_of_def enrich_step_def assemble_step_def map_sum_def split: sum.splits prod.splits)
  moreover have "write_all_formats env config doc (sg_formats config) (snd (poll_token env s3)) = ((fst out, []), v4)"
    using steps(7) runs(6) by (cases "write_all_formats env config doc (sg_formats config) (snd (poll_token env s3))")
      (auto simp: check_write_failures_def Let_def prod_eq_iff split: if_splits)
  moreover have "rs_rows st' = rs_rows v4 @ (case sg_scan_session_id config of None \<Rightarrow> [] | Some i \<Rightarrow> map (document_row_of i) (fst out)) \<and>
      rs_files st' = rs_files v4"
    using steps(9) by (auto simp: steps(8,10) runs(7) persist_step_def split: option.splits if_splits)
  moreover have "rs_files (snd (poll_token env s3)) = rs_files st \<and> rs_rows (snd (poll_token env s3)) = rs_rows st"
    using read_only_steps(1) [OF steps(1)] read_only_steps(2) [OF steps(3)] read_only_steps(3) [OF steps(5)]
    by (simp add: steps(2,4,6))
  ultimately show ?thesis using steps(1) by (metis fst_conv)
qed

lemma run_files:
  assumes "execute env config st = (Inr (), st')"
  shows "\<exists>scan_result doc st0. fst (scan_step env config st0) = Inr scan_result \<and> document_of env config scan_result = Some doc \<and>
    (\<forall>fmt\<in>set (sg_formats config). \<exists>out. rendered env doc fmt = Some out \<and>
       dict_get (rs_files st') (output_path (sg_output_dir config) fmt) = Some (fst out)) \<and>
    (\<forall>p. p \<notin> output_path (sg_output_dir config) ` set (sg_formats config) \<longrightarrow> dict_get (rs_files st') p = dict_get (rs_files st) p) \<and>
    (\<exists>ws. map Some ws = map (\<lambda>fmt. map_option (result_of env (sg_output_dir config) fmt) (rendered env doc fmt)) (sg_formats config) \<and>
       rs_rows st' = rs_rows st @ (case sg_scan_session_id config of None \<Rightarrow> [] | Some i \<Rightarrow> map (document_row_of i) ws))"
proof -
  have "run_steps env config (publish_sbom Workflow_Started st) = (Inr (), st')"
    using assms by (auto simp: execute_def split: prod.splits sum.splits run_exc.splits)
  from run_steps_Inr [OF this] obtain scan_result doc ws u v st0 where run:
      "fst (scan_step env config st0) = Inr scan_result" "document_of env config scan_result = Some doc"
      "rs_files u = rs_files st" "rs_rows u = rs_rows st" "write_all_formats env config doc (sg_formats config) u = ((ws, []), v)"
      "rs_files st' = rs_files v" "rs_rows st' = rs_rows v @ (case sg_scan_session_id config of None \<Rightarrow> [] | Some i \<Rightarrow> map (document_row_of i) ws)"
    by auto
  note e = write_all_effect [OF run(5)]
  show ?thesis
    using run(1,2,3,4,6,7) e by (intro exI [of _ scan_result] exI [of _ doc] exI [of _ st0] exI [of _ ws] conjI) (auto simp: same_elsewhere_def)
qed

lemma written_files:
  assumes "execute env config st = (Inr (), st')"
  shows "\<exists>scan_result doc. document_of env config scan_result = Some doc \<and> (\<forall>fmt\<in>set (sg_formats config). \<exists>out. rendered env doc fmt = Some out \<and>
     dict_get (rs_files st') (output_path (sg_output_dir config) fmt) = Some (fst out))"
  using run_files [OF assms] by blast

text \<open>A run that returns has scanned, enriched and assembled one document; the file of every requested format holds
  exactly what its writer renders for that document, no other file changed, and, when the run belongs to a scan session, the
  database has one new row for each requested format, with the path and the hash of what was written.\<close>

theorem sbom_run_files:
  assumes "execute env config st = (Inr (), st')"
  shows "\<exists>scan_result doc st0. fst (scan_step env config st0) = Inr scan_result \<and> document_of env config scan_result = Some doc \<and>
    (\<forall>fmt\<in>set (sg_formats config). \<exists>out. rendered env doc fmt = Some out \<and>
       dict_get (rs_files st') (output_path (sg_output_dir config) fmt) = Some (fst out)) \<and>
    (\<forall>p. p \<notin> output_path (sg_output_dir config) ` set (sg_formats config) \<longrightarrow> dict_get (rs_files st') p = dict_get (rs_files st) p) \<and>
    (\<exists>ws. map Some ws = map (\<lambda>fmt. map_option (result_of env (sg_output_dir config) fmt) (rendered env doc fmt)) (sg_formats config) \<and>
       rs_rows st' = rs_rows st @ (case sg_scan_session_id config of None \<Rightarrow> [] | Some i \<Rightarrow> map (document_row_of i) ws))"
  using assms by (rule run_files)

definition example_document :: sbom_document where
  "example_document = \<lparr>bd_namespace = ''https://x'', bd_name = ''/img'',
     bd_creation_info = \<lparr>ci_tools = [], ci_created = ''2024'', ci_creators = [], ci_license_list_version = None\<rparr>,
     bd_root_package = \<lparr>bp_spdx_id = ''SPDXRef-root'', bp_name = ''img'', bp_version = None, bp_supplier = None, bp_download_location = None,
       bp_checksums = [], bp_package_url = None, bp_concluded_license = None, bp_declared_license = None, bp_copyright_text = None,
       bp_description = None, bp_external_references = []\<rparr>,
     bd_packages = [], bd_relationships = [], bd_extracted_licenses = [], bd_comment = None, bd_provenance_tool = None,
     bd_provenance_timestamp = None\<rparr>"

definition example_run :: run_env where
  "example_run = \<lparr>re_cancelled = (\<lambda>_. False), re_isdir = (\<lambda>_. False), re_scanner = (\<lambda>t. Some (\<lambda>a n. (Inr example_scan, Suc n))),
     re_enrich = (\<lambda>ps i. Inr (map (\<lambda>p. \<lparr>ep_package = p, ep_enrichment = None\<rparr>) ps, [])), re_assemble = (\<lambda>_ _. Inr example_document),
     re_writer = (\<lambda>f. Some (1, \<lambda>doc. Inr (format_value f @ bd_name doc, []))), re_mkdir_fault = (\<lambda>_. None), re_write_fault = (\<lambda>_. None),
     re_session_fault = None, re_sha256 = (\<lambda>_. replicate 64 CHR ''0''), re_registered_types = [], re_registered_formats = []\<rparr>"

definition example_config :: sbom_config where
  "example_config = \<lparr>sg_artifact_path = ''/img'', sg_output_dir = ''out'', sg_formats = [CYCLONEDX, SPDX_2_3], sg_artifact_type = Some ''docker'',
     sg_scan_session_id = Some 7, sg_snapshot_id = 0\<rparr>"

definition example_state :: run_state where
  "example_state = \<lparr>rs_files = [(''notes.txt'', ''hello'')], rs_events = [], rs_polls = 0, rs_rows = []\<rparr>"

lemma example_written:
  "write_with_cancellation example_run output_bytes path fmt [] st =
     (Inr \<lparr>wt_output_path = path, wt_format = fmt, wt_sha256 = replicate 64 CHR ''0'', wt_file_size = int (length output_bytes),
        wt_diagnostics = []\<rparr>,
      st\<lparr>rs_polls := rs_polls st + 2, rs_files := dict_set (rs_files st) path output_bytes\<rparr>)"
proof -
  have "HEX_PATTERN (replicate 64 CHR ''0'')" by code_simp
  then show ?thesis
    by (simp add: write_with_cancellation_def write_sbom_output_def poll_token_def and_then_def example_run_def check_writer_result_def)
qed

lemma example_paths: "output_path ''out'' CYCLONEDX = ''out/sbom.cdx.json''" "output_path ''out'' SPDX_2_3 = ''out/sbom.spdx.json''"
  "artifact_type_of ''docker'' = Some DOCKER"
  by code_simp+

lemma example_run_result:
  "(let r = execute example_run example_config example_state
    in (fst r, rs_files (snd r), map (\<lambda>w. (dr_format w, dr_content_path w)) (rs_rows (snd r)))) =
   (Inr (), [(''notes.txt'', ''hello''), (''out/sbom.cdx.json'', ''cyclonedx/img''), (''out/sbom.spdx.json'', ''spdx_2_3/img'')],
    [(''cyclonedx'', ''out/sbom.cdx.json''), (''spdx_2_3'', ''out/sbom.spdx.json'')])"
proof -
  have env: "re_cancelled example_run = (\<lambda>_. False)" "re_session_fault example_run = None"
    "re_scanner example_run DOCKER = Some (\<lambda>a n. (Inr example_scan, Suc n))" "re_enrich example_run [] 0 = Inr ([], [])"
    "re_assemble example_run s e = Inr example_document" "re_writer example_run f = Some (1, \<lambda>doc. Inr (format_value f @ bd_name doc, []))"
    for s e f by (simp_all add: example_run_def)
  show ?thesis
    by (simp add: execute_def run_steps_def and_then_eqs completed_def guarded_def poll_token_def env publish_sbom_def example_state_def
        example_config_def example_paths scan_step_def enrich_step_def example_scan_def assemble_step_def write_format_def write_document_def example_written Let_def persist_step_def check_write_failures_def document_row_of_def example_document_def)
qed

theorem sbom_run_files_witness:
  "\<exists>doc st'. execute example_run example_config example_state = (Inr (), st') \<and>
     rendered example_run doc CYCLONEDX = Some (''cyclonedx/img'', []) \<and> dict_get (rs_files st') ''notes.txt'' = Some ''hello''"
proof -
  let ?run = "execute example_run example_config example_state"
  have run: "?run = (Inr (), snd ?run)" using example_run_result by (simp add: prod_eq_iff Let_def)
  have elsewhere: "''notes.txt'' \<notin> output_path (sg_output_dir example_config) ` set (sg_formats example_config)" by code_simp
  have path: "output_path (sg_output_dir example_config) CYCLONEDX = ''out/sbom.cdx.json''" "CYCLONEDX \<in> set (sg_formats example_config)"
    "dict_get (rs_files example_state) ''notes.txt'' = Some ''hello''" by code_simp+
  have written: "dict_get (rs_files (snd ?run)) ''out/sbom.cdx.json'' = Some ''cyclonedx/img''" using example_run_result by (simp add: Let_def)
  note files = sbom_run_files [OF run]
  then obtain doc where all: "\<forall>fmt\<in>set (sg_formats example_config). \<exists>out. rendered example_run doc fmt = Some out \<and>
       dict_get (rs_files (snd ?run)) (output_path (sg_output_dir example_config) fmt) = Some (fst out)" by (elim exE conjE) rule
  obtain out where "rendered example_run doc CYCLONEDX = Some out" "dict_get (rs_files (snd ?run)) ''out/sbom.cdx.json'' = Some (fst out)"
    using bspec [OF all path(2)] unfolding path(1) by (elim exE conjE)
  then have "rendered example_run doc CYCLONEDX = Some (''cyclonedx/img'', [])"
    using written by (auto simp: rendered_def example_run_def)
  moreover have "dict_get (rs_files (snd ?run)) ''notes.txt'' = Some ''hello''" using files elsewhere path(3) by auto
  ultimately show ?thesis using run by (intro exI [of _ doc] exI [of _ "snd ?run"] conjI)
qed

end
