(* ===== verification/Registries.thy ===== *)
theory Registries
  imports Sbom_Workflow "HOL-Library.List_Lexorder" "HOL-Library.Char_ord"
begin

text \<open>
  The registries of scanners and of writers (\<open>src/debcraft/infrastructure/scanners/registry.py\<close>,
  \<open>src/debcraft/infrastructure/sbom_writers/registry.py\<close>). What an entry point loads is an argument: an exception, a class or
  an instance, whose \<open>scan\<close> (or \<open>write\<close>) is \<open>None\<close> when it is missing or not a coroutine function.
\<close>

section \<open>Scanners\<close>

record 's plugin =
  pl_method :: "'s option"
  pl_priority :: "int option"
  pl_class_name :: string
  pl_repr :: string

datatype 's loaded = Load_Error string | Loaded_Class string | Loaded_Instance "'s plugin"

record 's entry_point =
  ee_name :: string
  ee_load :: "'s loaded"

record 's scanner_registry =
  sr_scanners :: "(artifact_type, 's plugin) dict"
  sr_diagnostics :: "string list"
  sr_priorities :: "(artifact_type, int \<times> string) dict"

definition empty_scanner_registry :: "'s scanner_registry" where
  "empty_scanner_registry = \<lparr>sr_scanners = [], sr_diagnostics = [], sr_priorities = []\<rparr>"

definition store_scanner :: "artifact_type \<Rightarrow> 's plugin \<Rightarrow> int \<Rightarrow> string \<Rightarrow> 's scanner_registry \<Rightarrow> 's scanner_registry" where
  "store_scanner t scanner priority name registry =
     registry\<lparr>sr_scanners := dict_set (sr_scanners registry) t scanner,
       sr_priorities := dict_set (sr_priorities registry) t (priority, name)\<rparr>"

definition diagnose :: "string \<Rightarrow> 's scanner_registry \<Rightarrow> 's scanner_registry" where
  "diagnose d registry = registry\<lparr>sr_diagnostics := sr_diagnostics registry @ [d]\<rparr>"

definition plugin_priority :: "'s plugin \<Rightarrow> int" where
  "plugin_priority scanner = (case pl_priority scanner of None \<Rightarrow> 0 | Some n \<Rightarrow> n)"

text \<open>\<open>register\<close>, with the optional priority.\<close>

definition register_scanner ::
  "artifact_type \<Rightarrow> 's plugin \<Rightarrow> int option \<Rightarrow> 's scanner_registry \<Rightarrow> (string + unit) \<times> 's scanner_registry" where
  "register_scanner t scanner priority registry =
     (if pl_method scanner = None then
        (Inl (''Scanner '' @ pl_repr scanner @ '' does not conform to ArtifactScanner protocol: missing async ''
           @ quoted ''scan'' @ '' method''), registry)
      else
        (let priority = (case priority of None \<Rightarrow> plugin_priority scanner | Some n \<Rightarrow> n) in
         case dict_get (sr_priorities registry) t of
           None \<Rightarrow> (Inr (), store_scanner t scanner priority (pl_class_name scanner) registry)
         | Some (existing_priority, _) \<Rightarrow>
             if priority < existing_priority then (Inr (), registry)
             else if priority = existing_priority then (Inr (), registry)
             else (Inr (), store_scanner t scanner priority (pl_class_name scanner) registry)))"

definition load_scanner_entry_point :: "'s entry_point \<Rightarrow> 's scanner_registry \<Rightarrow> 's scanner_registry" where
  "load_scanner_entry_point ep registry =
     (case ee_load ep of
        Load_Error e \<Rightarrow> diagnose (''Failed to load entry point '' @ quoted (ee_name ep) @ '': '' @ e) registry
      | Loaded_Class class_name \<Rightarrow> diagnose (''Entry point '' @ quoted (ee_name ep) @ '' returned a class ('' @ class_name
          @ ''), not an instance. Use registry.register() with a pre-built instance instead.'') registry
      | Loaded_Instance loaded \<Rightarrow>
          if pl_method loaded = None then
            diagnose (''Entry point '' @ quoted (ee_name ep) @ '' does not conform to ArtifactScanner protocol: missing async ''
              @ quoted ''scan'' @ '' method'') registry
          else (case artifact_type_of (ee_name ep) of
             None \<Rightarrow> diagnose (''Entry point '' @ quoted (ee_name ep) @ '' does not map to a valid ArtifactType enum value'') registry
           | Some t \<Rightarrow>
               (let priority = plugin_priority loaded in
                case dict_get (sr_priorities registry) t of
                  None \<Rightarrow> store_scanner t loaded priority (ee_name ep) registry
                | Some (existing_priority, existing_name) \<Rightarrow>
                    if priority < existing_priority then registry
                    else if priority = existing_priority \<and> existing_name \<le> ee_name ep then registry
                    else store_scanner t loaded priority (ee_name ep) registry)))"

definition load_scanners :: "string + 's entry_point list \<Rightarrow> 's scanner_registry \<Rightarrow> 's scanner_registry" where
  "load_scanners entry_points registry =
     (case entry_points of
        Inl e \<Rightarrow> diagnose (''Failed to query entry points for '' @ quoted ''debcraft.scanners'' @ '': '' @ e) registry
      | Inr eps \<Rightarrow> foldl (\<lambda>registry ep. load_scanner_entry_point ep registry) registry eps)"

definition str_list :: "string list \<Rightarrow> string" where "str_list xs = ''['' @ join '', '' (map quoted xs) @ '']''"

definition get_scanner :: "artifact_type \<Rightarrow> 's scanner_registry \<Rightarrow> string + 's plugin" where
  "get_scanner t registry =
     (case dict_get (sr_scanners registry) t of
        None \<Rightarrow> Inl (''No scanner for artifact type '' @ quoted (artifact_type_value t) @ ''. Registered types: ''
          @ str_list (map (\<lambda>(t, _). artifact_type_value t) (sr_scanners registry)))
      | Some scanner \<Rightarrow> Inr scanner)"

section \<open>Writers\<close>

record 'w writer_registry =
  wr_writers :: "(output_format, 'w plugin) dict"
  wr_diagnostics :: "string list"

text \<open>An entry point of a writer is a class; \<open>loaded()\<close> is its instance or an exception.\<close>

record 'w writer_entry_point =
  we_name :: string
  we_load :: "string + (string + 'w plugin)"

definition output_format_of :: "string \<Rightarrow> output_format option" where
  "output_format_of s = List.find (\<lambda>f. format_value f = s) all_formats"

definition diagnose_writer :: "string \<Rightarrow> 'w writer_registry \<Rightarrow> 'w writer_registry" where
  "diagnose_writer d registry = registry\<lparr>wr_diagnostics := wr_diagnostics registry @ [d]\<rparr>"

definition load_writer_entry_point :: "'w writer_entry_point \<Rightarrow> 'w writer_registry \<Rightarrow> 'w writer_registry" where
  "load_writer_entry_point ep registry =
     (case output_format_of (we_name ep) of
        None \<Rightarrow> diagnose_writer (''Entry point '' @ quoted (we_name ep) @ '' does not map to a valid OutputFormat enum value'') registry
      | Some fmt \<Rightarrow>
          (case we_load ep of
             Inl e \<Rightarrow> diagnose_writer (''Failed to load entry point '' @ quoted (we_name ep) @ '': '' @ e) registry
           | Inr (Inl e) \<Rightarrow> diagnose_writer (''Failed to instantiate writer from entry point '' @ quoted (we_name ep) @ '': '' @ e) registry
           | Inr (Inr inst) \<Rightarrow>
               if pl_method inst = None then
                 diagnose_writer (''Entry point '' @ quoted (we_name ep) @ '' does not conform to SBOMWriter protocol: missing async ''
                   @ quoted ''write'' @ '' method'') registry
               else
                 (let registry = (if dict_has (wr_writers registry) fmt
                    then diagnose_writer (''Duplicate writer for format '' @ quoted (format_value fmt) @ '': overriding with entry point ''
                      @ quoted (we_name ep)) registry else registry)
                  in registry\<lparr>wr_writers := dict_set (wr_writers registry) fmt inst\<rparr>)))"

definition load_writers :: "string + 'w writer_entry_point list \<Rightarrow> 'w writer_registry \<Rightarrow> 'w writer_registry" where
  "load_writers entry_points registry =
     (case entry_points of
        Inl e \<Rightarrow> diagnose_writer (''Failed to query entry points for '' @ quoted ''debcraft.sbom_writers'' @ '': '' @ e) registry
      | Inr eps \<Rightarrow> foldl (\<lambda>registry ep. load_writer_entry_point ep registry) registry eps)"

definition get_writer :: "output_format \<Rightarrow> 'w writer_registry \<Rightarrow> string + 'w plugin" where
  "get_writer fmt registry =
     (case dict_get (wr_writers registry) fmt of
        None \<Rightarrow> Inl (''No writer registered for format '' @ quoted (format_value fmt) @ ''. Registered formats: ''
          @ str_list (map (\<lambda>(f, _). format_value f) (wr_writers registry)))
      | Some writer \<Rightarrow> Inr writer)"


section \<open>Selection\<close>

text \<open>What is put into a registry, and what it offers for a type.\<close>

datatype 's registration = Register artifact_type "'s plugin" "int option" | Entry_Point "'s entry_point"

fun apply_registration :: "'s registration \<Rightarrow> 's scanner_registry \<Rightarrow> 's scanner_registry" where
  "apply_registration (Register t scanner priority) registry = snd (register_scanner t scanner priority registry)"
| "apply_registration (Entry_Point ep) registry = load_scanner_entry_point ep registry"

fun offered :: "'s registration \<Rightarrow> (artifact_type \<times> 's plugin \<times> int) option" where
  "offered (Register t scanner priority) =
     (if pl_method scanner = None then None
      else Some (t, scanner, case priority of None \<Rightarrow> plugin_priority scanner | Some n \<Rightarrow> n))"
| "offered (Entry_Point ep) =
     (case ee_load ep of
        Loaded_Instance loaded \<Rightarrow>
          if pl_method loaded = None then None
          else map_option (\<lambda>t. (t, loaded, plugin_priority loaded)) (artifact_type_of (ee_name ep))
      | _ \<Rightarrow> None)"

definition candidates :: "artifact_type \<Rightarrow> 's registration list \<Rightarrow> ('s plugin \<times> int) list" where
  "candidates t regs = map snd (filter (\<lambda>c. fst c = t) (List.map_filter offered regs))"

definition selected :: "artifact_type \<Rightarrow> ('s plugin \<times> int) list \<Rightarrow> 's scanner_registry \<Rightarrow> bool" where
  "selected t cs registry \<longleftrightarrow>
     (if cs = [] then dict_get (sr_scanners registry) t = None \<and> dict_get (sr_priorities registry) t = None
      else \<exists>s n. dict_get (sr_scanners registry) t = Some s \<and> (s, Max (snd ` set cs)) \<in> set cs \<and>
        dict_get (sr_priorities registry) t = Some (Max (snd ` set cs), n))"

lemma selected_elsewhere: "t' \<noteq> t \<Longrightarrow> selected t cs (store_scanner t' s p n r) = selected t cs r"
  by (auto simp: selected_def store_scanner_def)

lemma selected_diagnose [simp]: "selected t cs (diagnose d r) = selected t cs r"
  by (simp add: selected_def diagnose_def)

lemma selected_better:
  assumes "selected t cs r" and "case dict_get (sr_priorities r) t of None \<Rightarrow> True | Some (q, _) \<Rightarrow> q \<le> p"
  shows "selected t (cs @ [(s, p)]) (store_scanner t s p n r)"
proof (cases "cs = []")
  case False
  then obtain m where "dict_get (sr_priorities r) t = Some (Max (snd ` set cs), m)" using assms(1) by (auto simp: selected_def)
  then have "Max (snd ` set cs) \<le> p" using assms(2) by simp
  then have "\<forall>c\<in>set cs. snd c \<le> p" using False by simp
  then have "Max (snd ` set (cs @ [(s, p)])) = p" by (auto intro!: Max_eqI)
  moreover have "(s, p) \<in> set (cs @ [(s, p)])" by simp
  ultimately show ?thesis by (simp add: selected_def store_scanner_def del: set_append)
qed (simp add: selected_def store_scanner_def)

lemma selected_worse:
  assumes "selected t cs r" and "dict_get (sr_priorities r) t = Some (q, m)" and "p \<le> q"
  shows "selected t (cs @ [(s, p)]) r"
proof -
  have "cs \<noteq> []" "q = Max (snd ` set cs)" using assms(1,2) by (auto simp: selected_def split: if_splits)
  then show ?thesis using assms by (auto simp: selected_def max_def)
qed

lemma selected_step:
  assumes "selected t cs r"
  shows "selected t (cs @ candidates t [reg]) (apply_registration reg r)"
proof (cases reg)
  case (Register t' scanner priority)
  then show ?thesis
    using assms selected_better [OF assms] selected_worse [OF assms]
    by (auto simp: selected_elsewhere candidates_def map_filter_simps register_scanner_def Let_def split: option.split)
next
  case (Entry_Point ep)
  then show ?thesis
    using assms selected_better [OF assms] selected_worse [OF assms]
    by (auto simp: selected_elsewhere candidates_def map_filter_simps load_scanner_entry_point_def Let_def split: option.split loaded.split)
qed

text \<open>For every sequence of registrations and entry points, a registry gives for a type one of the scanners offered
  for it, with the highest priority of all that were offered, and raises when none was; what cannot be loaded, is a class, has
  no asynchronous method or names no type is not offered and changes no choice.\<close>

theorem registry_selects_highest:
  "let registry = foldl (\<lambda>r reg. apply_registration reg r) empty_scanner_registry regs; cs = candidates t regs
   in if cs = [] then isl (get_scanner t registry)
      else \<exists>s. get_scanner t registry = Inr s \<and> (s, Max (snd ` set cs)) \<in> set cs"
proof -
  have "selected t (candidates t regs) (foldl (\<lambda>r reg. apply_registration reg r) empty_scanner_registry regs)"
  proof (induction regs rule: rev_induct)
    case (snoc reg regs)
    have "candidates t (regs @ [reg]) = candidates t regs @ candidates t [reg]"
      by (simp add: candidates_def map_filter_def)
    then show ?case using selected_step [OF snoc] by simp
  qed (simp add: selected_def candidates_def map_filter_simps empty_scanner_registry_def)
  then show ?thesis by (auto simp: selected_def get_scanner_def Let_def split: if_splits)
qed

text \<open>The order of names never decides between two entry points: those of one type have one name, so the first that is loaded stays.\<close>

lemma entry_points_of_one_type: "artifact_type_of a = Some t \<Longrightarrow> artifact_type_of b = Some t \<Longrightarrow> a = b"
  by (auto simp: artifact_type_of_def split: if_splits)

lemma equal_priority_keeps_first:
  assumes "ee_load e1 = Loaded_Instance s1" "ee_load e2 = Loaded_Instance s2" and "pl_method s1 \<noteq> None"
    and "artifact_type_of (ee_name e1) = Some t" "artifact_type_of (ee_name e2) = Some t" and "plugin_priority s1 = plugin_priority s2"
  shows "get_scanner t (load_scanner_entry_point e2 (load_scanner_entry_point e1 empty_scanner_registry)) = Inr s1"
  using assms entry_points_of_one_type [OF assms(4,5)]
  by (simp add: load_scanner_entry_point_def empty_scanner_registry_def store_scanner_def get_scanner_def diagnose_def)

text \<open>Of two writers of one format the last that is loaded is used.\<close>

lemma last_writer_used:
  assumes "output_format_of (we_name ep) = Some fmt" and "we_load ep = Inr (Inr w)" and "pl_method w = Some m"
  shows "get_writer fmt (load_writers (Inr (eps @ [ep])) registry) = Inr w"
  using assms by (simp add: load_writers_def load_writer_entry_point_def get_writer_def Let_def)

end
