(* ===== verification/Layers.thy ===== *)
theory Layers
  imports Archive Scanner_Mixin
begin

text \<open>
  The layered images of the Docker and OCI scanners (\<open>src/debcraft/infrastructure/scanners/\<close>): reading one layer's
  members into the merged file system, the loop over the layers with its cancellation checks, and the locale
  \<open>layer_step\<close> for what both scanners' loop bodies promise. The lemmas of the locale say what the merged file system
  holds at a path: the content of the topmost layer that carries the path, unless a marker of that or a higher layer
  hides it.

  Bytes are strings. What \<open>tarfile\<close> and \<open>json\<close> read from bytes is a parameter; the exceptions they raise are values.
\<close>

section \<open>Documents and archives\<close>

text \<open>A document as \<open>json.loads\<close> returns it. The \<open>get\<close> of a value that is not a dictionary, and the iteration of a number,
  raise.\<close>

datatype json = JNull | JBool bool | JNumber string | JString string | JArray "json list" | JObject "(string \<times> json) list"

fun json_truthy :: "json \<Rightarrow> bool" where
  "json_truthy JNull = False"
| "json_truthy (JBool b) = b"
| "json_truthy (JNumber s) = (s \<notin> {''0'', ''-0'', ''0.0'', ''-0.0''})"
| "json_truthy (JString s) = (s \<noteq> [])"
| "json_truthy (JArray xs) = (xs \<noteq> [])"
| "json_truthy (JObject d) = (d \<noteq> [])"

definition json_get :: "json \<Rightarrow> string \<Rightarrow> json \<Rightarrow> scan_exc + json" where
  "json_get j key otherwise = (case j of
     JObject d \<Rightarrow> Inr (case dict_get d key of Some v \<Rightarrow> v | None \<Rightarrow> otherwise)
   | _ \<Rightarrow> Inl (Other_Error ''AttributeError''))"

definition json_elements :: "json \<Rightarrow> scan_exc + json list" where
  "json_elements j = (case j of
     JArray xs \<Rightarrow> Inr xs
   | JString s \<Rightarrow> Inr (map (\<lambda>c. JString [c]) s)
   | JObject d \<Rightarrow> Inr (map (\<lambda>e. JString (fst e)) d)
   | _ \<Rightarrow> Inl (Other_Error ''TypeError''))"

text \<open>A member of a layer: its name, \<open>isfile()\<close>, and what reading it gives. An archive may turn out to be damaged after the
  members that can be read.\<close>

record layer_member =
  tm_name :: string
  tm_isfile :: bool
  tm_data :: "scan_exc + string"

record tar_file =
  tf_members :: "layer_member list"
  tf_fault :: "scan_exc option"

type_synonym vfs = "(string, string) dict"

section \<open>Reading one layer\<close>

text \<open>The member loop both scanners have: every named member is an entry of the layer, and the content of a regular file is
  stored under its name. An error leaves what was stored before it.\<close>

fun merge_members :: "layer_member list \<Rightarrow> vfs \<Rightarrow> string list \<Rightarrow> vfs \<times> (scan_exc + string list)" where
  "merge_members [] vfs entries = (vfs, Inr entries)"
| "merge_members (member # members) vfs entries =
     (let name = normalize_tar_member_name (tm_name member) in
      if name = [] \<or> name = ''.'' then merge_members members vfs entries
      else if tm_isfile member then
        (case tm_data member of
           Inl e \<Rightarrow> (vfs, Inl e)
         | Inr content \<Rightarrow> merge_members members (dict_set vfs name content) (entries @ [name]))
      else merge_members members vfs (entries @ [name]))"

section \<open>What a layer does\<close>

text \<open>The effect of one layer: the files it stores, in order, and the entries whose markers are then applied.\<close>

type_synonym layer_effect = "(string \<times> string) list \<times> string list"

definition apply_layer :: "vfs \<Rightarrow> layer_effect \<Rightarrow> vfs" where
  "apply_layer vfs layer = apply_whiteouts (foldl (\<lambda>d (k, v). dict_set d k v) vfs (fst layer)) (snd layer)"

fun stored_files :: "layer_member list \<Rightarrow> (string \<times> string) list" where
  "stored_files [] = []"
| "stored_files (member # members) =
     (let name = normalize_tar_member_name (tm_name member) in
      if name = [] \<or> name = ''.'' \<or> \<not> tm_isfile member then stored_files members
      else (case tm_data member of Inl e \<Rightarrow> [] | Inr content \<Rightarrow> (name, content) # stored_files members))"

definition entry_names :: "layer_member list \<Rightarrow> string list" where
  "entry_names members = filter (\<lambda>n. n \<noteq> [] \<and> n \<noteq> ''.'') (map (\<lambda>m. normalize_tar_member_name (tm_name m)) members)"

definition member_fails :: "layer_member \<Rightarrow> bool" where
  "member_fails m = (normalize_tar_member_name (tm_name m) \<notin> {[], ''.''} \<and> tm_isfile m \<and> isl (tm_data m))"

lemma merge_members_vfs: "fst (merge_members ms vfs es) = foldl (\<lambda>d (k, v). dict_set d k v) vfs (stored_files ms)"
  by (induction ms vfs es rule: merge_members.induct) (auto simp: Let_def split: sum.splits)

lemma merge_members_isl: "isl (snd (merge_members ms vfs es)) = list_ex member_fails ms"
  by (induction ms vfs es rule: merge_members.induct) (auto simp: Let_def member_fails_def split: sum.splits)

lemma merge_members_entries: "snd (merge_members ms vfs es) = Inr es' \<Longrightarrow> es' = es @ entry_names ms"
  by (induction ms vfs es rule: merge_members.induct) (auto simp: Let_def entry_names_def split: sum.splits if_splits)

definition members_effect :: "layer_member list \<Rightarrow> layer_effect" where
  "members_effect ms = (stored_files ms, if list_ex member_fails ms then [] else entry_names ms)"

lemma apply_whiteouts_Nil [simp]: "apply_whiteouts vfs [] = vfs"
  by (simp add: apply_whiteouts_def)

section \<open>The overlay\<close>

text \<open>Does a layer hide a path, and with what content does it carry it?\<close>

definition layer_hides :: "layer_effect \<Rightarrow> string \<Rightarrow> bool" where
  "layer_hides layer p = list_ex (\<lambda>m. hides (set (snd layer)) m p) (snd layer)"

definition layer_content :: "layer_effect \<Rightarrow> string \<Rightarrow> string option" where
  "layer_content layer p = dict_get (rev (fst layer)) p"

text \<open>The merged file system as the image format describes it, from the top: the first layer that hides or carries the
  path decides.\<close>

fun overlay_from_top :: "layer_effect list \<Rightarrow> string \<Rightarrow> string option" where
  "overlay_from_top [] p = None"
| "overlay_from_top (layer # lower) p =
     (if layer_hides layer p then None
      else (case layer_content layer p of Some content \<Rightarrow> Some content | None \<Rightarrow> overlay_from_top lower p))"

definition overlay :: "layer_effect list \<Rightarrow> string \<Rightarrow> string option" where
  "overlay layers p = overlay_from_top (rev layers) p"

lemma dict_get_filter: "dict_get (filter (\<lambda>e. P (fst e)) d) k = (if P k then dict_get d k else None)"
  by (induction d) auto

lemma dict_get_stores: "dict_get (foldl (\<lambda>d (k, v). dict_set d k v) vfs fs) k =
    (case dict_get (rev fs) k of Some v \<Rightarrow> Some v | None \<Rightarrow> dict_get vfs k)"
  by (induction fs arbitrary: vfs) (auto simp: map_of_append map_add_def split: option.splits)

lemma dict_get_apply_layer:
  "dict_get (apply_layer vfs layer) p =
     (if layer_hides layer p then None else case layer_content layer p of Some c \<Rightarrow> Some c | None \<Rightarrow> dict_get vfs p)"
proof -
  have "apply_layer vfs layer = filter (\<lambda>e. \<not> layer_hides layer (fst e)) (foldl (\<lambda>d (k, v). dict_set d k v) vfs (fst layer))"
    by (simp add: apply_layer_def apply_whiteouts_filter layer_hides_def list_ex_iff)
  then show ?thesis
    using dict_get_filter [of "\<lambda>k. \<not> layer_hides layer k" "foldl (\<lambda>d (k, v). dict_set d k v) vfs (fst layer)" p]
    by (simp add: dict_get_stores layer_content_def)
qed

lemma dict_wf_apply_layer: "dict_wf vfs \<Longrightarrow> dict_wf (apply_layer vfs layer)"
proof -
  assume "dict_wf vfs"
  then have "dict_wf (foldl (\<lambda>d (k, v). dict_set d k v) vfs fs)" for fs
    by (induction fs arbitrary: vfs) (auto simp: dict_wf_set)
  then show ?thesis
    by (auto simp: apply_layer_def apply_whiteouts_filter dict_wf_def distinct_map_filter)
qed

lemma dict_wf_layers: "dict_wf vfs \<Longrightarrow> dict_wf (foldl apply_layer vfs layers)"
  by (induction layers arbitrary: vfs) (simp_all add: dict_wf_apply_layer)

lemma dict_get_layers: "dict_get (foldl apply_layer [] layers) = overlay layers"
proof
  fix p
  show "dict_get (foldl apply_layer [] layers) p = overlay layers p"
    by (induction layers rule: rev_induct) (auto simp: overlay_def dict_get_apply_layer split: option.split)
qed

text \<open>The same said with the layers' positions: a path has a content exactly when a layer carries it with that content,
  does not hide it itself, and no higher layer carries or hides it.\<close>

lemma overlay_from_top_Some:
  "overlay_from_top layers p = Some c \<longleftrightarrow>
     (\<exists>i < length layers. layer_content (layers ! i) p = Some c \<and> \<not> layer_hides (layers ! i) p \<and>
        (\<forall>j < i. layer_content (layers ! j) p = None \<and> \<not> layer_hides (layers ! j) p))"
  (is "?l layers \<longleftrightarrow> ?r layers")
proof (induction layers)
  case (Cons layer lower)
  have "?r (layer # lower) \<longleftrightarrow>
     layer_content layer p = Some c \<and> \<not> layer_hides layer p \<or>
     layer_content layer p = None \<and> \<not> layer_hides layer p \<and> ?r lower"
    unfolding length_Cons Ex_less_Suc2 by (auto simp: All_less_Suc2)
  with Cons.IH show ?case by (auto split: option.splits)
qed simp

lemma overlay_Some:
  "overlay layers p = Some c \<longleftrightarrow>
     (\<exists>i < length layers. layer_content (layers ! i) p = Some c \<and> \<not> layer_hides (layers ! i) p \<and>
        (\<forall>j < length layers. i < j \<longrightarrow> layer_content (layers ! j) p = None \<and> \<not> layer_hides (layers ! j) p))"
proof -
  let ?n = "length layers"
  have r: "rev layers ! i = layers ! (?n - Suc i)" if "i < ?n" for i using that by (simp add: rev_nth)
  show ?thesis unfolding overlay_def overlay_from_top_Some length_rev
  proof (safe, goal_cases)
    case (1 i)
    show ?case
    proof (intro exI [of _ "?n - Suc i"] conjI allI impI)
      fix j assume j: "j < ?n" "?n - Suc i < j"
      then have "?n - Suc j < i" by arith
      with 1(4) have "layer_content (rev layers ! (?n - Suc j)) p = None" "\<not> layer_hides (rev layers ! (?n - Suc j)) p" by blast+
      then show "layer_content (layers ! j) p = None" "\<not> layer_hides (layers ! j) p"
        using r [of "?n - Suc j"] j by simp_all
    qed (use 1 r in auto)
  next
    case (2 i)
    show ?case
    proof (intro exI [of _ "?n - Suc i"] conjI allI impI)
      fix j assume j: "j < ?n - Suc i"
      then have "i < ?n - Suc j" "?n - Suc j < ?n" by arith+
      with 2(4) have "layer_content (layers ! (?n - Suc j)) p = None" "\<not> layer_hides (layers ! (?n - Suc j)) p" by blast+
      then show "layer_content (rev layers ! j) p = None" "\<not> layer_hides (rev layers ! j) p"
        using r [of j] j by simp_all
    qed (use 2 r in auto)
  qed
qed

lemma overlay_take:
  "k \<le> length layers \<Longrightarrow> overlay (map f (take k layers)) p = Some c \<longleftrightarrow>
     (\<exists>i < k. layer_content (f (layers ! i)) p = Some c \<and> \<not> layer_hides (f (layers ! i)) p \<and>
        (\<forall>j < k. i < j \<longrightarrow> layer_content (f (layers ! j)) p = None \<and> \<not> layer_hides (f (layers ! j)) p))"
  by (simp add: overlay_Some cong: conj_cong)

section \<open>The loop over the layers\<close>

text \<open>Both scanners check the cancellation token before each layer, and extract it with \<open>step\<close>, which adds its diagnostics
  or raises. The result has the index of the layer before which the scan was cancelled.\<close>

fun run_layers ::
  "(nat \<Rightarrow> 'l \<Rightarrow> vfs \<Rightarrow> vfs \<times> (scan_exc + string list)) \<Rightarrow> (nat \<Rightarrow> bool) \<Rightarrow> nat \<Rightarrow> 'l list \<Rightarrow> vfs \<Rightarrow> string list \<Rightarrow>
     scan_exc + vfs \<times> string list \<times> nat option" where
  "run_layers step is_cancelled i [] vfs diagnostics = Inr (vfs, diagnostics, None)"
| "run_layers step is_cancelled i (layer # layers) vfs diagnostics =
     (if is_cancelled i then Inr (vfs, diagnostics, Some i)
      else (case step i layer vfs of
              (vfs, Inl e) \<Rightarrow> Inl e
            | (vfs, Inr ds) \<Rightarrow> run_layers step is_cancelled (Suc i) layers vfs (diagnostics @ ds)))"

lemma run_layers_all:
  assumes "\<And>i layer vfs. layer \<in> set layers \<Longrightarrow> step i layer vfs = (apply_layer vfs (effect layer), Inr [])"
  shows "run_layers step (\<lambda>_. False) i layers vfs ds = Inr (foldl apply_layer vfs (map effect layers), ds, None)"
  using assms by (induction layers arbitrary: i vfs) simp_all

text \<open>An archive that is read to its end.\<close>

definition intact :: "tar_file \<Rightarrow> bool" where
  "intact tf \<longleftrightarrow> tf_fault tf = None \<and> list_all (Not \<circ> member_fails) (tf_members tf)"

lemma intact_merge: "intact tf \<Longrightarrow> merge_members (tf_members tf) vfs [] =
    (foldl (\<lambda>d (k, v). dict_set d k v) vfs (stored_files (tf_members tf)), Inr (entry_names (tf_members tf)))"
  using merge_members_vfs [of "tf_members tf" vfs "[]"] merge_members_isl [of "tf_members tf" vfs "[]"]
    merge_members_entries [of "tf_members tf" vfs "[]"]
  by (cases "merge_members (tf_members tf) vfs []"; cases "snd (merge_members (tf_members tf) vfs [])")
    (auto simp: intact_def list_ex_iff list_all_iff)

lemma intact_apply: "intact tf \<Longrightarrow> apply_layer vfs (members_effect (tf_members tf)) =
    apply_whiteouts (foldl (\<lambda>d (k, v). dict_set d k v) vfs (stored_files (tf_members tf))) (entry_names (tf_members tf))"
  by (auto simp: apply_layer_def members_effect_def intact_def list_ex_iff list_all_iff)

locale layer_step =
  fixes step :: "nat \<Rightarrow> 'l \<Rightarrow> vfs \<Rightarrow> vfs \<times> (scan_exc + string list)"
    and effect :: "'l \<Rightarrow> layer_effect"
  assumes step_effect: "step i layer vfs = (vfs', Inr ds) \<Longrightarrow> vfs' = apply_layer vfs (effect layer)"
begin

lemma run_layers_from:
  "run_layers step tok i layers vfs diags = Inr (vfs', diags', stop) \<Longrightarrow>
     vfs' = foldl apply_layer vfs (map effect (case stop of None \<Rightarrow> layers | Some k \<Rightarrow> take (k - i) layers)) \<and>
     (case stop of None \<Rightarrow> \<forall>k. i \<le> k \<and> k < i + length layers \<longrightarrow> \<not> tok k
      | Some k \<Rightarrow> i \<le> k \<and> k < i + length layers \<and> tok k \<and> (\<forall>j. i \<le> j \<and> j < k \<longrightarrow> \<not> tok j))"
proof (induction layers arbitrary: i vfs diags)
  case (Cons layer layers)
  show ?case
  proof (cases "tok i")
    case True
    then show ?thesis using Cons.prems by auto
  next
    case False
    then obtain vfs1 ds where st: "step i layer vfs = (vfs1, Inr ds)"
      and run: "run_layers step tok (Suc i) layers vfs1 (diags @ ds) = Inr (vfs', diags', stop)"
      using Cons.prems by (auto split: prod.splits sum.splits)
    have v: "vfs1 = apply_layer vfs (effect layer)" by (rule step_effect [OF st])
    show ?thesis
    proof (cases stop)
      case None
      then have "\<not> tok k" if "i \<le> k" "k < i + length (layer # layers)" for k
        using Cons.IH [OF run] False that by (cases "k = i") auto
      then show ?thesis using Cons.IH [OF run] None by (auto simp: v)
    next
      case (Some k)
      have "\<not> tok j" if "i \<le> j" "j < k" for j
        using Cons.IH [OF run] Some False that by (cases "j = i") auto
      then show ?thesis using Cons.IH [OF run] Some by (auto simp: v take_Cons' Suc_diff_le)
    qed
  qed
qed auto

lemma run_layers_overlay:
  assumes "run_layers step tok 0 layers [] diags = Inr (vfs, diags', stop)"
  shows "vfs = foldl apply_layer [] (map effect (case stop of None \<Rightarrow> layers | Some k \<Rightarrow> take k layers))"
    and "dict_get vfs = overlay (map effect (case stop of None \<Rightarrow> layers | Some k \<Rightarrow> take k layers))"
    and "dict_wf vfs"
proof -
  show v: "vfs = foldl apply_layer [] (map effect (case stop of None \<Rightarrow> layers | Some k \<Rightarrow> take k layers))"
    using run_layers_from [OF assms] by (simp cong: option.case_cong)
  show "dict_get vfs = overlay (map effect (case stop of None \<Rightarrow> layers | Some k \<Rightarrow> take k layers))"
    unfolding v by (rule dict_get_layers)
  show "dict_wf vfs" unfolding v by (rule dict_wf_layers) simp
qed

lemma run_layers_index: "run_layers step tok 0 layers [] diags = Inr (vfs, diags', Some k) \<Longrightarrow> k < length layers \<and> tok k"
  by (drule run_layers_from) simp

lemma run_layers_runs: "run_layers step tok 0 layers [] diags = Inr (vfs, diags', None) \<Longrightarrow> k < length layers \<Longrightarrow> \<not> tok k"
  by (drule run_layers_from) simp

end

end
