(* ===== verification/Json_Print.thy ===== *)
theory Json_Print
  imports Layers "HOL-Library.List_Lexorder" "HOL-Library.Char_ord"
begin

text \<open>
  The printer of SBOM documents (\<open>src/debcraft/infrastructure/sbom_writers/printer.py\<close>): \<open>json.dumps\<close> with an indentation of two,
  sorted keys and no escapes for what is not ASCII, and a final line break. The UTF-8 encoding is left out. A printed document
  can be read in one way only.
\<close>

section \<open>Printing\<close>

definition hex_digit :: "nat \<Rightarrow> char" where "hex_digit d = char_of (if d < 10 then 48 + d else 87 + d)"

definition escape_char :: "char \<Rightarrow> string" where
  "escape_char c = (let n = of_char c :: nat in
     if c = CHR 0x22 then [CHR 0x5C, CHR 0x22]
     else if c = CHR 0x5C then [CHR 0x5C, CHR 0x5C]
     else if n = 8 then [CHR 0x5C, CHR ''b'']
     else if n = 9 then [CHR 0x5C, CHR ''t'']
     else if n = 10 then [CHR 0x5C, CHR ''n'']
     else if n = 12 then [CHR 0x5C, CHR ''f'']
     else if n = 13 then [CHR 0x5C, CHR ''r'']
     else if n < 32 then [CHR 0x5C, CHR ''u'', CHR ''0'', CHR ''0'', hex_digit (n div 16), hex_digit (n mod 16)]
     else [c])"

definition json_string :: "string \<Rightarrow> string" where
  "json_string s = CHR 0x22 # concat (map escape_char s) @ [CHR 0x22]"

definition newline :: "nat \<Rightarrow> string" where "newline n = LF # replicate n CHR '' ''"

fun dumps :: "nat \<Rightarrow> json \<Rightarrow> string" where
  "dumps n JNull = ''null''"
| "dumps n (JBool b) = (if b then ''true'' else ''false'')"
| "dumps n (JNumber s) = s"
| "dumps n (JString s) = json_string s"
| "dumps n (JArray xs) =
     (if xs = [] then ''[]''
      else ''['' @ newline (n + 2) @ join ('','' @ newline (n + 2)) (map (dumps (n + 2)) xs) @ newline n @ '']'')"
| "dumps n (JObject d) =
     (if d = [] then ''{}''
      else ''{'' @ newline (n + 2)
        @ join ('','' @ newline (n + 2)) (map (\<lambda>(k, text). json_string k @ '': '' @ text) (sort_key fst (map (\<lambda>(k, v). (k, dumps (n + 2) v)) d)))
        @ newline n @ ''}'')"

definition print_sbom :: "json \<Rightarrow> string" where "print_sbom data = dumps 0 data @ [LF]"

text \<open>The document without the order of its keys.\<close>

fun canonical :: "json \<Rightarrow> json" where
  "canonical (JArray xs) = JArray (map canonical xs)"
| "canonical (JObject d) = JObject (sort_key fst (map (\<lambda>(k, v). (k, canonical v)) d))"
| "canonical j = j"

definition number_char :: "char \<Rightarrow> bool" where
  "number_char c \<longleftrightarrow> digit_val 10 c \<noteq> None \<or> c \<in> {CHR ''-'', CHR ''+'', CHR ''.'', CHR ''e'', CHR ''E''}"

text \<open>Numbers as \<open>json.dumps\<close> writes them.\<close>

fun json_printable :: "json \<Rightarrow> bool" where
  "json_printable (JNumber s) = (s \<noteq> [] \<and> (digit_val 10 (hd s) \<noteq> None \<or> hd s = CHR ''-'') \<and> list_all number_char s)"
| "json_printable (JArray xs) = list_all json_printable xs"
| "json_printable (JObject d) = list_all (\<lambda>(k, v). json_printable v) d"
| "json_printable j = True"

lemma dumps_example:
  "print_sbom (JObject [(''b'', JArray [JNumber ''1'', JNull]), (''a'', JString [CHR 0x22, LF])]) =
     ''{'' @ newline 2 @ json_string ''a'' @ '': '' @ [CHR 0x22, CHR 0x5C, CHR 0x22, CHR 0x5C, CHR ''n'', CHR 0x22] @ '','' @ newline 2 @
     json_string ''b'' @ '': ['' @ newline 4 @ ''1,'' @ newline 4 @ ''null'' @ newline 2 @ '']'' @ newline 0 @ ''}'' @ [LF]"
  by code_simp

section \<open>Strings\<close>

lemma hex_digit_inj: "d < 16 \<Longrightarrow> e < 16 \<Longrightarrow> hex_digit d = hex_digit e \<Longrightarrow> d = e"
proof -
  have v: "(of_char (hex_digit d) :: nat) = (if d < 10 then 48 + d else 87 + d)" if "d < 16" for d
    using that by (simp add: hex_digit_def)
  assume "d < 16" "e < 16" "hex_digit d = hex_digit e"
  then have "(if d < 10 then 48 + d else 87 + d) = (if e < 10 then 48 + e else 87 + e)" using v by metis
  then show "d = e" by (auto split: if_splits)
qed

lemma escape_char_forms:
  "(escape_char c = [c] \<and> c \<noteq> CHR 0x5C \<and> c \<noteq> CHR 0x22) \<or> (\<exists>x. escape_char c = [CHR 0x5C, x] \<and> x \<noteq> CHR ''u'') \<or>
   ((of_char c :: nat) < 32 \<and>
      escape_char c = [CHR 0x5C, CHR ''u'', CHR ''0'', CHR ''0'', hex_digit (of_char c div 16), hex_digit (of_char c mod 16)])"
  unfolding escape_char_def Let_def by simp

lemma escape_char_cases:
  obtains (plain) "escape_char c = [c]" "c \<noteq> CHR 0x5C" "c \<noteq> CHR 0x22"
  | (short) x where "escape_char c = [CHR 0x5C, x]" "x \<noteq> CHR ''u''"
  | (code) "(of_char c :: nat) < 32"
      "escape_char c = [CHR 0x5C, CHR ''u'', CHR ''0'', CHR ''0'', hex_digit (of_char c div 16), hex_digit (of_char c mod 16)]"
  using escape_char_forms [of c] by blast

lemma short_inj:
  assumes "escape_char c = [CHR 0x5C, x]" and "escape_char d = [CHR 0x5C, x]"
  shows "c = d"
proof -
  have eq: "(of_char c :: nat) = k \<Longrightarrow> (of_char d :: nat) = k \<Longrightarrow> c = d" for k using of_char_eq_iff by metis
  show ?thesis using assms by (auto simp: escape_char_def Let_def split: if_splits intro: eq)
qed

lemma escape_char_inj:
  assumes "escape_char c @ r = escape_char d @ s"
  shows "c = d \<and> r = s"
proof (cases c rule: escape_char_cases)
  case plain
  then show ?thesis using assms by (cases d rule: escape_char_cases) auto
next
  case (short x)
  then show ?thesis using assms short_inj by (cases d rule: escape_char_cases) auto
next
  case code
  show ?thesis
  proof (cases d rule: escape_char_cases)
    case code': code
    have "hex_digit (of_char c div 16) = hex_digit (of_char d div 16)" "hex_digit (of_char c mod 16) = hex_digit (of_char d mod 16)" "r = s"
      using assms code code' by simp_all
    then have "(of_char c :: nat) div 16 = of_char d div 16" "(of_char c :: nat) mod 16 = of_char d mod 16"
      using hex_digit_inj code(1) code'(1) by simp_all
    then have "(of_char c :: nat) = of_char d" by (metis div_mult_mod_eq)
    then show ?thesis using \<open>r = s\<close> by simp
  qed (use assms code in auto)
qed

lemma escape_char_start: "escape_char c \<noteq> [] \<and> hd (escape_char c) \<noteq> CHR 0x22"
  by (cases c rule: escape_char_cases) auto

lemma escaped_inj:
  "concat (map escape_char s) @ CHR 0x22 # r = concat (map escape_char t) @ CHR 0x22 # q \<Longrightarrow> s = t \<and> r = q"
proof (induction s arbitrary: t)
  case Nil
  show ?case
  proof (cases t)
    case (Cons d t')
    then show ?thesis using Nil.prems escape_char_start [of d] by (cases "escape_char d") auto
  qed (use Nil.prems in simp)
next
  case (Cons c s)
  show ?case
  proof (cases t)
    case Nil
    then show ?thesis using Cons.prems escape_char_start [of c] by (cases "escape_char c") auto
  next
    case (Cons d t')
    then have "c = d \<and> concat (map escape_char s) @ CHR 0x22 # r = concat (map escape_char t') @ CHR 0x22 # q"
      using Cons.prems by (intro escape_char_inj) simp
    then show ?thesis using Cons.IH Cons by blast
  qed
qed

lemma json_string_inj: "json_string s @ r = json_string t @ q \<Longrightarrow> s = t \<and> r = q"
proof (rule escaped_inj)
  assume "json_string s @ r = json_string t @ q"
  then show "concat (map escape_char s) @ CHR 0x22 # r = concat (map escape_char t) @ CHR 0x22 # q"
    unfolding json_string_def append_Cons append_assoc append_Nil list.inject by (rule conjunct2)
qed


section \<open>Unique readability\<close>

definition ends :: "string \<Rightarrow> bool" where "ends s \<longleftrightarrow> s = [] \<or> \<not> number_char (hd s)"

lemma ends_Cons [simp]: "ends (c # s) \<longleftrightarrow> \<not> number_char c" by (simp add: ends_def)

lemma not_number [simp]: "\<not> number_char (CHR '','')" "\<not> number_char LF" by code_simp+

lemma number_inj:
  "list_all number_char a \<Longrightarrow> list_all number_char b \<Longrightarrow> ends s \<Longrightarrow> ends t \<Longrightarrow> a @ s = b @ t \<Longrightarrow> a = b \<and> s = t"
proof (induction a arbitrary: b)
  case Nil
  then show ?case by (cases b) (auto simp: ends_def)
next
  case (Cons c a)
  then show ?case by (cases b) (auto simp: ends_def)
qed

lemma insort_key_map: "insort_key fst (k, f v) (map (\<lambda>(k, v). (k, f v)) d) = map (\<lambda>(k, v). (k, f v)) (insort_key fst (k, v) d)"
  by (induction d) auto

lemma sort_key_map: "sort_key fst (map (\<lambda>(k, v). (k, f v)) d) = map (\<lambda>(k, v). (k, f v)) (sort_key fst d)"
  by (induction d) (auto simp: insort_key_map)

lemma items_inj:
  assumes "\<And>x y s t. x \<in> set xs \<Longrightarrow> y \<in> set ys \<Longrightarrow> p x @ s = p y @ t \<Longrightarrow> ends s \<Longrightarrow> ends t \<Longrightarrow> f x = f y \<and> s = t"
    and "xs \<noteq> []" and "ys \<noteq> []"
    and "join (CHR '','' # sep) (map p xs) @ LF # s = join (CHR '','' # sep) (map p ys) @ LF # t"
  shows "map f xs = map f ys \<and> s = t"
  using assms
proof (induction xs arbitrary: ys)
  case (Cons x xs)
  obtain y ys' where ys: "ys = y # ys'" using Cons.prems(3) by (cases ys) auto
  define rest where "rest zs r = (if zs = [] then LF # r else CHR '','' # sep @ join (CHR '','' # sep) (map p zs) @ LF # r)" for zs r
  have unfold: "join (CHR '','' # sep) (map p (z # zs)) @ LF # r = p z @ rest zs r" for z zs r
    by (cases zs) (simp_all add: rest_def)
  have "f x = f y \<and> rest xs s = rest ys' t"
  proof (rule Cons.prems(1))
    show "p x @ rest xs s = p y @ rest ys' t" using Cons.prems(4) unfolding ys unfold .
  qed (simp_all add: rest_def ys)
  then have e: "f x = f y" "rest xs s = rest ys' t" by simp_all
  show ?case
  proof (cases "xs = []")
    case True
    then show ?thesis using e by (cases ys') (auto simp: ys rest_def)
  next
    case False
    then have "ys' \<noteq> []" using e(2) by (auto simp: rest_def)
    moreover from this False have "join (CHR '','' # sep) (map p xs) @ LF # s = join (CHR '','' # sep) (map p ys') @ LF # t"
      using e(2) by (simp add: rest_def)
    ultimately have "map f xs = map f ys' \<and> s = t"
    proof (intro Cons.IH)
      show "f a = f b \<and> s = t" if "a \<in> set xs" "b \<in> set ys'" "p a @ s = p b @ t" "ends s" "ends t" for a b s t
        by (rule Cons.prems(1)) (use that in \<open>simp_all add: ys\<close>)
    qed (use False in simp_all)
    then show ?thesis using e(1) by (simp add: ys)
  qed
qed simp

text \<open>The first character tells the kind.\<close>

fun kind :: "json \<Rightarrow> nat" where
  "kind JNull = 0" | "kind (JBool b) = (if b then 1 else 2)" | "kind (JNumber _) = 3" | "kind (JString _) = 4"
| "kind (JArray _) = 5" | "kind (JObject _) = 6"

definition kind_of_char :: "char \<Rightarrow> nat" where
  "kind_of_char c = (if c = CHR ''n'' then 0 else if c = CHR ''t'' then 1 else if c = CHR ''f'' then 2 else if c = CHR 0x22 then 4
     else if c = CHR ''['' then 5 else if c = CHR ''{'' then 6 else 3)"

lemma dumps_start: "json_printable j \<Longrightarrow> dumps n j \<noteq> [] \<and> kind_of_char (hd (dumps n j)) = kind j"
proof (cases j)
  case (JNumber s)
  have "kind_of_char c = 3" if "digit_val 10 c \<noteq> None \<or> c = CHR ''-''" for c
    using that by (auto simp: kind_of_char_def digit_val_def)
  then show "json_printable j \<Longrightarrow> ?thesis" by (auto simp: JNumber)
qed (auto simp: kind_of_char_def json_string_def)

lemma same_kind:
  assumes "json_printable a" "json_printable b" and "dumps n a @ s = dumps m b @ t"
  shows "kind a = kind b"
proof -
  note a = dumps_start [OF assms(1), of n] and b = dumps_start [OF assms(2), of m]
  then have "hd (dumps n a) = hd (dumps m b)" using assms(3) by (metis hd_append2)
  then show ?thesis using a b by simp
qed

lemma dumps_inj:
  "json_printable a \<Longrightarrow> json_printable b \<Longrightarrow> ends s \<Longrightarrow> ends t \<Longrightarrow> dumps n a @ s = dumps n b @ t \<Longrightarrow> canonical a = canonical b \<and> s = t"
proof (induction a arbitrary: n b s t)
  case JNull
  then show ?case using same_kind [OF JNull(1,2,5)] by (cases b) (auto split: if_splits)
next
  case (JBool x)
  then show ?case using same_kind [OF JBool(1,2,5)] by (cases b) (auto split: if_splits)
next
  case (JNumber x)
  then show ?case using same_kind [OF JNumber(1,2,5)] number_inj [of x _ s t] by (cases b) (auto split: if_splits)
next
  case (JString x)
  then show ?case using same_kind [OF JString(1,2,5)] json_string_inj [of x s _ t] by (cases b) (auto split: if_splits)
next
  case (JArray xs)
  obtain ys where b: "b = JArray ys" using same_kind [OF JArray.prems(1,2,5)] by (cases b) (auto split: if_splits)
  show ?case
  proof (cases "xs = [] \<or> ys = []")
    case True
    then show ?thesis using JArray.prems(5) by (auto simp: b newline_def split: if_splits)
  next
    case False
    let ?r = "\<lambda>s. replicate n CHR '' '' @ CHR '']'' # s"
    have "map canonical xs = map canonical ys \<and> ?r s = ?r t"
    proof (rule items_inj)
      show "join (CHR '','' # newline (n + 2)) (map (dumps (n + 2)) xs) @ LF # ?r s = join (CHR '','' # newline (n + 2)) (map (dumps (n + 2)) ys) @ LF # ?r t"
        using JArray.prems(5) False by (simp add: b newline_def)
      show "x \<in> set xs \<Longrightarrow> y \<in> set ys \<Longrightarrow> dumps (n + 2) x @ s = dumps (n + 2) y @ t \<Longrightarrow> ends s \<Longrightarrow> ends t \<Longrightarrow> canonical x = canonical y \<and> s = t" for x y s t
        using JArray.IH JArray.prems(1,2) by (auto simp: b list_all_iff)
    qed (use False in auto)
    then show ?thesis by (simp add: b)
  qed
next
  case (JObject d)
  obtain e where b: "b = JObject e" using same_kind [OF JObject.prems(1,2,5)] by (cases b) (auto split: if_splits)
  show ?case
  proof (cases "d = [] \<or> e = []")
    case True
    then show ?thesis using JObject.prems(5) by (auto simp: b newline_def split: if_splits)
  next
    case False
    let ?r = "\<lambda>s. replicate n CHR '' '' @ CHR ''}'' # s" and ?p = "\<lambda>(k, v). json_string k @ '': '' @ dumps (n + 2) v"
      and ?f = "\<lambda>(k, v). (k, canonical v)"
    have sorted_empty: "sort_key fst z = [] \<longleftrightarrow> z = []" for z :: "(string \<times> json) list"
      by (metis length_0_conv length_sort)
    have sorted: "map (\<lambda>(k, text). json_string k @ '': '' @ text) (sort_key fst (map (\<lambda>(k, v). (k, dumps (n + 2) v)) d)) = map ?p (sort_key fst d)" for d
      unfolding sort_key_map by (simp add: case_prod_unfold)
    have "map ?f (sort_key fst d) = map ?f (sort_key fst e) \<and> ?r s = ?r t"
    proof (rule items_inj)
      show "join (CHR '','' # newline (n + 2)) (map ?p (sort_key fst d)) @ LF # ?r s = join (CHR '','' # newline (n + 2)) (map ?p (sort_key fst e)) @ LF # ?r t"
        using JObject.prems(5) False unfolding b dumps.simps sorted by (simp add: newline_def)
      fix x y s t
      assume xy: "x \<in> set (sort_key fst d)" "y \<in> set (sort_key fst e)" "?p x @ s = ?p y @ t" "ends s" "ends t"
      obtain k v k' v' where kv: "x = (k, v)" "y = (k', v')" by fastforce
      have "k = k' \<and> '': '' @ dumps (n + 2) v @ s = '': '' @ dumps (n + 2) v' @ t"
        by (rule json_string_inj) (use xy(3) in \<open>simp add: kv\<close>)
      then have "k = k'" "dumps (n + 2) v @ s = dumps (n + 2) v' @ t" by simp_all
      moreover have "json_printable v" "json_printable v'" using JObject.prems(1,2) xy(1,2) by (auto simp: b kv list_all_iff)
      moreover have "(k, v) \<in> set d" "v \<in> Basic_BNFs.snds (k, v)" using xy(1) by (simp_all add: kv)
      ultimately have "canonical v = canonical v' \<and> s = t" using xy(4,5) by (intro JObject.IH [of "(k, v)" v])
      then show "?f x = ?f y \<and> s = t" using \<open>k = k'\<close> by (simp add: kv)
    qed (use False sorted_empty in auto)
    then show ?thesis by (simp add: b sort_key_map)
  qed
qed


lemma dumps_canonical: "dumps n (canonical j) = dumps n j"
proof (induction j arbitrary: n)
  case (JArray xs)
  then have "map (dumps (n + 2)) (map canonical xs) = map (dumps (n + 2)) xs" by simp
  then show ?case by (simp del: map_map)
next
  case (JObject d)
  let ?c = "map (\<lambda>(k, v). (k, canonical v)) d"
  have e: "sort_key fst z = [] \<longleftrightarrow> z = []" for z :: "(string \<times> json) list" by (metis length_0_conv length_sort)
  have "map (\<lambda>(k, v). (k, dumps (n + 2) v)) ?c = map (\<lambda>(k, v). (k, dumps (n + 2) v)) d"
    using JObject.IH by (auto simp: case_prod_unfold)
  moreover have "sort_key fst (sort_key fst z) = sort_key fst z" for z :: "(string \<times> string) list" by (simp add: sort_key_id_if_sorted)
  ultimately have "sort_key fst (map (\<lambda>(k, v). (k, dumps (n + 2) v)) (sort_key fst ?c)) = sort_key fst (map (\<lambda>(k, v). (k, dumps (n + 2) v)) d)"
    by (metis sort_key_map)
  then show ?case by (simp add: e)
qed simp_all

text \<open>Objects with the same members in another order are the same document.\<close>

lemma canonical_order:
  assumes "set d = set e" and d: "distinct (map fst d)" and e: "distinct (map fst e)"
  shows "canonical (JObject d) = canonical (JObject e)"
proof -
  have s: "distinct (map fst (sort_key fst z))" if "distinct (map fst z)" for z :: "(string \<times> json) list"
    using that by (simp add: distinct_map)
  have "sort_key fst d = sort_key fst e"
    by (rule map_sorted_distinct_set_unique [where f = fst]) (use assms s in \<open>simp_all add: distinct_map\<close>)
  then show ?thesis by (simp add: sort_key_map)
qed

text \<open>Property C25. Printing is deterministic and can be read back: two documents are printed to the same text exactly when they are
  equal up to the order of the keys in their objects.\<close>

theorem print_sbom_iff:
  assumes "json_printable a" and "json_printable b"
  shows "print_sbom a = print_sbom b \<longleftrightarrow> canonical a = canonical b"
proof
  have "ends [LF]" by simp
  then show "print_sbom a = print_sbom b \<Longrightarrow> canonical a = canonical b"
    using dumps_inj [OF assms, of "[LF]" "[LF]" 0] by (simp add: print_sbom_def)
  show "canonical a = canonical b \<Longrightarrow> print_sbom a = print_sbom b"
    unfolding print_sbom_def by (metis dumps_canonical)
qed

theorem print_sbom_iff_witness:
  "print_sbom (JObject [(''b'', JNumber ''1''), (''a'', JArray [JNull])]) = print_sbom (JObject [(''a'', JArray [JNull]), (''b'', JNumber ''1'')]) \<and>
   print_sbom (JString [CHR 0x22]) \<noteq> print_sbom (JString [CHR 0x5C, CHR 0x22])"
proof
  have ok: "json_printable (JObject [(''b'', JNumber ''1''), (''a'', JArray [JNull])])" "json_printable (JObject [(''a'', JArray [JNull]), (''b'', JNumber ''1'')])"
    by code_simp+
  have "canonical (JObject [(''b'', JNumber ''1''), (''a'', JArray [JNull])]) = canonical (JObject [(''a'', JArray [JNull]), (''b'', JNumber ''1'')])"
    by code_simp
  then show "print_sbom (JObject [(''b'', JNumber ''1''), (''a'', JArray [JNull])]) = print_sbom (JObject [(''a'', JArray [JNull]), (''b'', JNumber ''1'')])"
    using print_sbom_iff [OF ok] by blast
  show "print_sbom (JString [CHR 0x22]) \<noteq> print_sbom (JString [CHR 0x5C, CHR 0x22])"
    by (subst print_sbom_iff) simp_all
qed

end
