(* ===== verification/Sbom_Writers.thy ===== *)
theory Sbom_Writers
  imports Json_Print Sbom_Workflow
begin

text \<open>
  The writers of the three formats (\<open>spdx23.py\<close>, \<open>cyclonedx.py\<close> and \<open>spdx3.py\<close> in
  \<open>src/debcraft/infrastructure/sbom_writers/\<close>) and the validation of what they print (\<open>src/debcraft/domain/sbom/validator.py\<close>). The
  files of the schemas, \<open>jsonschema\<close>, \<open>json.loads\<close>, \<open>uuid5\<close> and \<open>hashlib\<close> are arguments. A dictionary is an object with its keys
  in the order they are set.
\<close>

section \<open>Validation\<close>

record schema_error =
  se_absolute_path :: "(string + int) list"
  se_message :: string
  se_instance :: string

datatype schema_exc = Schema_Unavailable string string | Schema_Invalid string

text \<open>\<open>load_schema\<close> raises a \<open>JSONDecodeError\<close> or \<open>OSError\<close>; \<open>check_schema\<close> raises what nobody catches.\<close>

record writer_env =
  wv_loads :: "string \<Rightarrow> (nat \<times> nat \<times> string) + json"
  wv_load_schema :: "output_format \<Rightarrow> string option"
  wv_check_schema :: "output_format \<Rightarrow> string option"
  wv_iter_errors :: "output_format \<Rightarrow> json \<Rightarrow> schema_error list"
  wv_sha256 :: "string \<Rightarrow> string"
  wv_uuid5 :: "string \<Rightarrow> string"

definition truncate_value :: "string \<Rightarrow> string" where
  "truncate_value repr = (if length repr > 200 then take 200 repr @ ''...'' else repr)"

definition path_to_json_pointer :: "(string + int) list \<Rightarrow> string" where
  "path_to_json_pointer path =
     (if path = [] then []
      else ''/'' @ join ''/'' (map (\<lambda>part. replace_char CHR ''/'' ''~1'' (replace_char CHR ''~'' ''~0''
        (case part of Inl s \<Rightarrow> s | Inr i \<Rightarrow> int_str i))) path))"

definition format_error :: "schema_error \<Rightarrow> string" where
  "format_error e = path_to_json_pointer (se_absolute_path e) @ '': '' @ se_message e @ '' (got: '' @ truncate_value (se_instance e) @ '')''"

fun schema_exc_str :: "schema_exc \<Rightarrow> string" where
  "schema_exc_str (Schema_Unavailable schema_name reason) = ''Schema '' @ quoted schema_name @ '' is unavailable: '' @ reason"
| "schema_exc_str (Schema_Invalid s) = s"

text \<open>The cache of validators has the formats whose schema was loaded.\<close>

definition get_validator :: "writer_env \<Rightarrow> output_format \<Rightarrow> output_format list \<Rightarrow> (schema_exc + unit) \<times> output_format list" where
  "get_validator env fmt cache =
     (if fmt \<in> set cache then (Inr (), cache)
      else (case wv_load_schema env fmt of
         Some reason \<Rightarrow> (Inl (Schema_Unavailable (format_value fmt) reason), cache)
       | None \<Rightarrow>
           (case wv_check_schema env fmt of
              Some e \<Rightarrow> (Inl (Schema_Invalid e), cache)
            | None \<Rightarrow> (Inr (), fmt # cache))))"

definition validate_json :: "writer_env \<Rightarrow> string \<Rightarrow> output_format \<Rightarrow> output_format list \<Rightarrow> (schema_exc + string list) \<times> output_format list" where
  "validate_json env json_text fmt cache =
     (case wv_loads env json_text of
        Inl (lineno, colno, msg) \<Rightarrow>
          (Inr [''JSON parse error at line '' @ nat_str lineno @ '', column '' @ nat_str colno @ '': '' @ msg], cache)
      | Inr document \<Rightarrow>
          and_then (get_validator env fmt cache) (\<lambda>_ cache. (Inr (map format_error (wv_iter_errors env fmt document)), cache)))"

section \<open>SPDX 2.3\<close>

fun relationship_value :: "relationship_type \<Rightarrow> string" where
  "relationship_value DESCRIBES = ''DESCRIBES''" | "relationship_value CONTAINS = ''CONTAINS''"
| "relationship_value DEPENDS_ON = ''DEPENDS_ON''" | "relationship_value BUILD_TOOL_OF = ''BUILD_TOOL_OF''"
| "relationship_value OTHER_RELATIONSHIP = ''OTHER''"

fun category_value :: "external_reference_category \<Rightarrow> string" where
  "category_value PACKAGE_MANAGER = ''PACKAGE_MANAGER''" | "category_value SECURITY_ADVISORY = ''SECURITY_ADVISORY''"
| "category_value OTHER_CATEGORY = ''OTHER''"

definition SPDX23_RELATIONSHIP_TYPES :: "string list" where
  "SPDX23_RELATIONSHIP_TYPES = [''DESCRIBES'', ''CONTAINS'', ''DEPENDS_ON'', ''BUILD_TOOL_OF'', ''OTHER'']"

definition or_noassertion :: "string option \<Rightarrow> json" where
  "or_noassertion v = JString (case v of None \<Rightarrow> ''NOASSERTION'' | Some s \<Rightarrow> s)"

definition optional :: "string \<Rightarrow> string option \<Rightarrow> (string \<times> json) list" where
  "optional key v = (case v of None \<Rightarrow> [] | Some s \<Rightarrow> [(key, JString s)])"

definition unless_empty :: "string \<Rightarrow> json list \<Rightarrow> (string \<times> json) list" where
  "unless_empty key xs = (if xs = [] then [] else [(key, JArray xs)])"

definition spdx23_creation_info :: "sbom_creation_info \<Rightarrow> json" where
  "spdx23_creation_info info = JObject ([(''created'', JString (ci_created info)), (''creators'', JArray (map JString (ci_creators info)))]
     @ optional ''licenseListVersion'' (ci_license_list_version info))"

definition spdx23_checksum :: "sbom_checksum \<Rightarrow> json" where
  "spdx23_checksum c = JObject [(''algorithm'', JString (algorithm_value (cs_algorithm c))), (''checksumValue'', JString (cs_value c))]"

definition spdx23_external_reference :: "sbom_external_reference \<Rightarrow> json" where
  "spdx23_external_reference ref =
     JObject ([(''referenceCategory'', JString (replace_char CHR ''_'' ''-'' (category_value (er_category ref)))),
       (''referenceType'', JString ''url''), (''referenceLocator'', JString (er_url ref))] @ optional ''comment'' (er_comment ref))"

definition spdx23_external_refs :: "sbom_package \<Rightarrow> json list" where
  "spdx23_external_refs package =
     (case bp_package_url package of
        None \<Rightarrow> []
      | Some url \<Rightarrow> [JObject [(''referenceCategory'', JString ''PACKAGE-MANAGER''), (''referenceType'', JString ''purl''),
          (''referenceLocator'', JString url)]])
     @ map spdx23_external_reference (bp_external_references package)"

definition spdx23_package :: "sbom_package \<Rightarrow> json" where
  "spdx23_package package =
     JObject ([(''SPDXID'', JString (bp_spdx_id package)), (''name'', JString (bp_name package)),
       (''versionInfo'', or_noassertion (bp_version package)), (''downloadLocation'', or_noassertion (bp_download_location package)),
       (''supplier'', or_noassertion (bp_supplier package)), (''licenseConcluded'', or_noassertion (bp_concluded_license package)),
       (''licenseDeclared'', or_noassertion (bp_declared_license package)), (''copyrightText'', or_noassertion (bp_copyright_text package))]
       @ unless_empty ''checksums'' (map spdx23_checksum (bp_checksums package))
       @ unless_empty ''externalRefs'' (spdx23_external_refs package))"

definition spdx23_relationship :: "sbom_relationship \<Rightarrow> json \<times> string list" where
  "spdx23_relationship rel =
     (let type_value = relationship_value (rl_relationship_type rel);
          mapped = type_value \<in> set SPDX23_RELATIONSHIP_TYPES
      in (JObject [(''spdxElementId'', JString (rl_source_id rel)), (''relatedSpdxElement'', JString (rl_target_id rel)),
            (''relationshipType'', JString (if mapped then type_value else ''OTHER''))],
          if mapped then [] else [''Unmapped relationship type '' @ quoted type_value @ '' mapped to OTHER'']))"

definition spdx23_extracted_license :: "sbom_extracted_license \<Rightarrow> json" where
  "spdx23_extracted_license lic =
     JObject ([(''licenseId'', JString (el_license_id lic)), (''extractedText'', JString (el_extracted_text lic))]
       @ optional ''name'' (el_name lic) @ unless_empty ''seeAlsos'' (map JString (el_cross_references lic)))"

definition spdx23_serialize :: "sbom_document \<Rightarrow> json \<times> string list" where
  "spdx23_serialize doc =
     (JObject ([(''spdxVersion'', JString ''SPDX-2.3''), (''dataLicense'', JString ''CC0-1.0''), (''SPDXID'', JString ''SPDXRef-DOCUMENT''),
        (''name'', JString (bd_name doc)), (''documentNamespace'', JString (bd_namespace doc)),
        (''creationInfo'', spdx23_creation_info (bd_creation_info doc)),
        (''packages'', JArray (map spdx23_package (bd_root_package doc # bd_packages doc))),
        (''relationships'', JArray (map (fst \<circ> spdx23_relationship) (bd_relationships doc)))]
        @ unless_empty ''hasExtractedLicensingInfos'' (map spdx23_extracted_license (bd_extracted_licenses doc))),
      concat (map (snd \<circ> spdx23_relationship) (bd_relationships doc)))"

text \<open>The token is read before the document is serialised and before it is printed.\<close>

definition spdx23_writer :: "writer_env \<Rightarrow> writer_method" where
  "spdx23_writer env = (2, \<lambda>doc.
     let (spdx_dict, diagnostics) = spdx23_serialize doc; output_bytes = print_sbom spdx_dict in
     case fst (validate_json env output_bytes SPDX_2_3 []) of
       Inr validation_errors \<Rightarrow> Inr (output_bytes, diagnostics @ validation_errors)
     | Inl (Schema_Unavailable _ _) \<Rightarrow> Inr (output_bytes, diagnostics @ [''Schema validation skipped: SPDX 2.3 schema unavailable''])
     | Inl e \<Rightarrow> Inl (schema_exc_str e))"

section \<open>CycloneDX 1.5\<close>

fun ALGORITHM_MAP :: "checksum_algorithm \<Rightarrow> string option" where
  "ALGORITHM_MAP SHA256 = Some ''SHA-256''" | "ALGORITHM_MAP SHA1 = Some ''SHA-1''" | "ALGORITHM_MAP MD5 = Some ''MD5''"

definition or_empty :: "string option \<Rightarrow> string" where "or_empty v = (case v of None \<Rightarrow> [] | Some s \<Rightarrow> s)"

definition generate_bom_ref :: "writer_env \<Rightarrow> sbom_package \<Rightarrow> string" where
  "generate_bom_ref env package =
     take 36 (wv_sha256 env (join ''|'' [bp_name package, or_empty (bp_version package), or_empty (bp_package_url package)]))"

definition build_tool :: "string \<Rightarrow> json" where
  "build_tool tool_str =
     (let name_version = removeprefix tool_str ''Tool: '';
          version = rev (takeWhile (\<lambda>c. c \<noteq> CHR ''-'') (rev name_version));
          last_hyphen = length name_version - Suc (length version)
      in if CHR ''-'' \<in> set name_version \<and> last_hyphen > 0
         then JObject [(''name'', JString (take last_hyphen name_version)), (''version'', JString version)]
         else JObject [(''name'', JString name_version), (''version'', JString [])])"

definition build_hashes :: "sbom_checksum list \<Rightarrow> json list" where
  "build_hashes checksums = List.map_filter (\<lambda>c.
     map_option (\<lambda>alg. JObject [(''alg'', JString alg), (''content'', JString (cs_value c))]) (ALGORITHM_MAP (cs_algorithm c))) checksums"

definition build_component :: "writer_env \<Rightarrow> sbom_package \<Rightarrow> json" where
  "build_component env package =
     JObject ([(''type'', JString ''library''), (''name'', JString (bp_name package)), (''bom-ref'', JString (generate_bom_ref env package))]
       @ optional ''version'' (bp_version package) @ optional ''purl'' (bp_package_url package)
       @ (if bp_checksums package = [] then [] else [(''hashes'', JArray (build_hashes (bp_checksums package)))])
       @ (case bp_concluded_license package of None \<Rightarrow> [] | Some l \<Rightarrow> [(''licenses'', JArray [JObject [(''expression'', JString l)]])])
       @ optional ''copyright'' (bp_copyright_text package))"

definition build_metadata :: "writer_env \<Rightarrow> sbom_document \<Rightarrow> json" where
  "build_metadata env doc =
     JObject ([(''timestamp'', JString (ci_created (bd_creation_info doc)))]
       @ unless_empty ''tools'' (map build_tool (ci_tools (bd_creation_info doc)))
       @ [(''component'', build_component env (bd_root_package doc))])"

definition id_to_bom_ref :: "writer_env \<Rightarrow> sbom_document \<Rightarrow> (string, string) dict" where
  "id_to_bom_ref env doc = foldl (\<lambda>d pkg. dict_set d (bp_spdx_id pkg) (generate_bom_ref env pkg)) [] (bd_packages doc @ [bd_root_package doc])"

definition deps_step :: "(string, string) dict \<Rightarrow> (string, string list) dict \<Rightarrow> sbom_relationship \<Rightarrow> (string, string list) dict" where
  "deps_step refs deps_by_source rel =
     (if rl_relationship_type rel = DEPENDS_ON then
        (case (dict_get refs (rl_source_id rel), dict_get refs (rl_target_id rel)) of
           (Some source_ref, Some target_ref) \<Rightarrow> dict_set deps_by_source source_ref (dict_getd deps_by_source source_ref [] @ [target_ref])
         | _ \<Rightarrow> deps_by_source)
      else deps_by_source)"

definition build_dependencies :: "writer_env \<Rightarrow> sbom_document \<Rightarrow> (string \<times> string list) list" where
  "build_dependencies env doc =
     map (\<lambda>(ref, depends_on). (ref, sort depends_on)) (sort_key fst (foldl (deps_step (id_to_bom_ref env doc)) [] (bd_relationships doc)))"

definition dependency_json :: "string \<times> string list \<Rightarrow> json" where
  "dependency_json d = JObject [(''ref'', JString (fst d)), (''dependsOn'', JArray (map JString (snd d)))]"

definition cyclonedx_serialize :: "writer_env \<Rightarrow> sbom_document \<Rightarrow> json" where
  "cyclonedx_serialize env doc =
     JObject [(''bomFormat'', JString ''CycloneDX''), (''specVersion'', JString ''1.5''), (''version'', JNumber ''1''),
       (''serialNumber'', JString (''urn:uuid:'' @ wv_uuid5 env (bd_namespace doc))), (''metadata'', build_metadata env doc),
       (''components'', JArray (map (build_component env) (bd_packages doc))),
       (''dependencies'', JArray (map dependency_json (build_dependencies env doc)))]"

definition cyclonedx_writer :: "writer_env \<Rightarrow> writer_method" where
  "cyclonedx_writer env = (1, \<lambda>doc.
     let output_bytes = print_sbom (cyclonedx_serialize env doc) in
     map_sum schema_exc_str (Pair output_bytes) (fst (validate_json env output_bytes CYCLONEDX [])))"

section \<open>SPDX 3.0\<close>

definition spdx3_term :: "string \<Rightarrow> string" where "spdx3_term s = ''https://spdx.org/rdf/3.0.1/terms/'' @ s"

fun ALGORITHM_VOCABULARY :: "checksum_algorithm \<Rightarrow> string" where
  "ALGORITHM_VOCABULARY SHA256 = spdx3_term ''HashAlgorithm/sha256''" | "ALGORITHM_VOCABULARY SHA1 = spdx3_term ''HashAlgorithm/sha1''"
| "ALGORITHM_VOCABULARY MD5 = spdx3_term ''HashAlgorithm/md5''"

fun RELATIONSHIP_TYPE_VOCABULARY :: "relationship_type \<Rightarrow> string option" where
  "RELATIONSHIP_TYPE_VOCABULARY DESCRIBES = Some (spdx3_term ''RelationshipType/describes'')"
| "RELATIONSHIP_TYPE_VOCABULARY CONTAINS = Some (spdx3_term ''RelationshipType/contains'')"
| "RELATIONSHIP_TYPE_VOCABULARY DEPENDS_ON = Some (spdx3_term ''RelationshipType/dependsOn'')"
| "RELATIONSHIP_TYPE_VOCABULARY BUILD_TOOL_OF = Some (spdx3_term ''RelationshipType/buildToolOf'')"
| "RELATIONSHIP_TYPE_VOCABULARY OTHER_RELATIONSHIP = None"

definition NO_ASSERTION :: string where "NO_ASSERTION = spdx3_term ''Core/NoAssertionElement''"

text \<open>An empty text counts as missing.\<close>

definition present :: "string option \<Rightarrow> string option" where
  "present v = (case v of Some s \<Rightarrow> if s = [] then None else Some s | None \<Rightarrow> None)"

definition or_no_assertion :: "string option \<Rightarrow> json" where
  "or_no_assertion v = JString (case present v of None \<Rightarrow> NO_ASSERTION | Some s \<Rightarrow> s)"

definition named :: "string \<Rightarrow> string \<Rightarrow> json" where
  "named type_name name = JObject [(''@type'', JString type_name), (''name'', JString name)]"

definition map_creation_info :: "sbom_creation_info \<Rightarrow> json" where
  "map_creation_info info =
     JObject ([(''created'', JString (ci_created info)), (''createdBy'', JArray (map (named ''Agent'') (ci_creators info))),
       (''createdUsing'', JArray (map (\<lambda>tool. named ''Tool'' (removeprefix tool ''Tool: '')) (ci_tools info)))]
       @ optional ''licenseListVersion'' (present (ci_license_list_version info)))"

definition map_checksum :: "sbom_checksum \<Rightarrow> json" where
  "map_checksum c = JObject [(''@type'', JString ''Hash''), (''algorithm'', JString (ALGORITHM_VOCABULARY (cs_algorithm c))),
     (''hashValue'', JString (cs_value c))]"

definition map_package :: "json \<Rightarrow> sbom_package \<Rightarrow> json" where
  "map_package creation_info package =
     JObject ([(''@type'', JString ''software_Package''), (''spdxId'', JString (bp_spdx_id package)), (''name'', JString (bp_name package)),
       (''creationInfo'', creation_info), (''software_packageVersion'', or_no_assertion (bp_version package)),
       (''software_downloadLocation'', or_no_assertion (bp_download_location package)),
       (''software_packageUrl'', or_no_assertion (bp_package_url package)),
       (''software_copyrightText'', or_no_assertion (bp_copyright_text package))]
       @ (case present (bp_supplier package) of None \<Rightarrow> [] | Some s \<Rightarrow> [(''suppliedBy'', named ''Agent'' s)])
       @ unless_empty ''verifiedUsing'' (map map_checksum (bp_checksums package))
       @ (case present (bp_concluded_license package) of None \<Rightarrow> []
          | Some l \<Rightarrow> [(''declaredLicense'', JObject [(''@type'', JString ''simplelicensing_LicenseExpression''),
              (''simplelicensing_licenseExpression'', JString l)])])
       @ optional ''description'' (present (bp_description package))
       @ unless_empty ''externalReference'' (map (\<lambda>ref. JObject [(''@type'', JString ''ExternalReference''),
           (''externalReferenceType'', JString (py_lower (category_value (er_category ref)))), (''locator'', JArray [JString (er_url ref)])])
           (bp_external_references package)))"

definition map_relationship :: "json \<Rightarrow> sbom_relationship \<Rightarrow> json option" where
  "map_relationship creation_info rel =
     map_option (\<lambda>rel_type. JObject [(''@type'', JString ''Relationship''),
         (''spdxId'', JString (rl_source_id rel @ ''-to-'' @ rl_target_id rel)), (''creationInfo'', creation_info),
         (''from'', JString (rl_source_id rel)), (''to'', JArray [JString (rl_target_id rel)]), (''relationshipType'', JString rel_type)])
       (RELATIONSHIP_TYPE_VOCABULARY (rl_relationship_type rel))"

definition map_extracted_license :: "json \<Rightarrow> sbom_extracted_license \<Rightarrow> json" where
  "map_extracted_license creation_info lic =
     JObject ([(''@type'', JString ''expandedlicensing_CustomLicense''), (''spdxId'', JString (el_license_id lic)),
       (''creationInfo'', creation_info), (''simplelicensing_licenseText'', JString (el_extracted_text lic))]
       @ optional ''name'' (present (el_name lic)) @ unless_empty ''seeAlso'' (map JString (el_cross_references lic)))"

definition unmapped_relationship :: "sbom_relationship \<Rightarrow> string" where
  "unmapped_relationship rel =
     ''Unmapped relationship type '' @ quoted (relationship_value (rl_relationship_type rel)) @ '' from '' @ quoted (rl_source_id rel)
       @ '' to '' @ quoted (rl_target_id rel) @ '' omitted''"

definition spdx3_serialize :: "sbom_document \<Rightarrow> json \<times> string list" where
  "spdx3_serialize doc =
     (let creation_info = map_creation_info (bd_creation_info doc);
          elements = map (map_package creation_info) (bd_root_package doc # bd_packages doc)
            @ List.map_filter (map_relationship creation_info) (bd_relationships doc)
            @ map (map_extracted_license creation_info) (bd_extracted_licenses doc)
      in (JObject ([(''@context'', JString ''https://spdx.org/rdf/3.0.1/spdx-context.jsonld''), (''@type'', JString ''SpdxDocument''),
            (''spdxId'', JString (bd_namespace doc)), (''name'', JString (bd_name doc)), (''creationInfo'', creation_info),
            (''element'', JArray elements)] @ optional ''comment'' (present (bd_comment doc))),
          map unmapped_relationship (filter (\<lambda>rel. map_relationship creation_info rel = None) (bd_relationships doc))))"

definition MAX_DIAGNOSTICS :: nat where "MAX_DIAGNOSTICS = 100"

definition spdx3_writer :: "writer_env \<Rightarrow> writer_method" where
  "spdx3_writer env = (1, \<lambda>doc.
     let (spdx_dict, unmapped_diagnostics) = spdx3_serialize doc; output_bytes = print_sbom spdx_dict in
     map_sum schema_exc_str (\<lambda>validation_errors. (output_bytes, take MAX_DIAGNOSTICS (unmapped_diagnostics @ validation_errors)))
       (fst (validate_json env output_bytes SPDX_3_0 [])))"


section \<open>The documents are well formed\<close>

lemma ok_optional [simp]: "list_all (\<lambda>(k, v). json_printable v) (optional key v)" by (simp add: optional_def split: option.split)
lemma ok_unless_empty [simp]: "list_all (\<lambda>(k, v). json_printable v) (unless_empty key xs) = list_all json_printable xs" by (auto simp: unless_empty_def)
lemma ok_or_noassertion [simp]: "json_printable (or_noassertion v)" "json_printable (or_no_assertion v)" by (simp_all add: or_noassertion_def or_no_assertion_def)
lemma ok_map [simp]: "(\<And>x. json_printable (f x)) \<Longrightarrow> list_all json_printable (map f xs)" by (simp add: list_all_iff)
lemma ok_named [simp]: "json_printable (named a b)" by (simp add: named_def)

lemma ok_spdx23_parts [simp]:
  "json_printable (spdx23_creation_info i)" "json_printable (spdx23_checksum c)" "json_printable (spdx23_external_reference r)" "json_printable (fst (spdx23_relationship rel))"
  "json_printable (spdx23_extracted_license l)" "list_all json_printable (spdx23_external_refs p)" "json_printable (spdx23_package p)"
  by (simp_all add: spdx23_creation_info_def spdx23_checksum_def spdx23_external_reference_def spdx23_relationship_def spdx23_extracted_license_def
      spdx23_package_def spdx23_external_refs_def Let_def split: option.split)

lemma printable_spdx23: "json_printable (fst (spdx23_serialize doc))"
  by (simp add: spdx23_serialize_def)

lemma ok_cyclonedx_parts [simp]:
  "list_all json_printable (build_hashes cs)" "json_printable (build_component env p)" "json_printable (build_tool s)" "json_printable (dependency_json d)" "json_printable (build_metadata env doc)"
proof -
  show h: "list_all json_printable (build_hashes cs)" for cs
    by (induction cs) (auto simp: build_hashes_def map_filter_simps split: option.split)
  show c: "json_printable (build_component env p)" for p by (simp add: build_component_def h split: option.split)
  show s: "json_printable (build_tool s)" for s by (simp add: build_tool_def Let_def)
  show "json_printable (dependency_json d)" by (simp add: dependency_json_def)
  show "json_printable (build_metadata env doc)" by (simp add: build_metadata_def c s)
qed

lemma printable_cyclonedx: "json_printable (cyclonedx_serialize env doc)"
proof -
  have "digit_val 10 (CHR ''1'') \<noteq> None" "number_char (CHR ''1'')" by code_simp+
  then show ?thesis by (simp add: cyclonedx_serialize_def)
qed

lemma ok_spdx3_parts [simp]:
  "json_printable (map_creation_info i)" "json_printable ci \<Longrightarrow> json_printable (map_package ci p)" "json_printable (map_checksum c)"
  "json_printable ci \<Longrightarrow> list_all json_printable (List.map_filter (map_relationship ci) rels)" "json_printable ci \<Longrightarrow> json_printable (map_extracted_license ci l)"
proof -
  show "json_printable (map_creation_info i)" by (simp add: map_creation_info_def)
  show c: "json_printable (map_checksum c)" for c by (simp add: map_checksum_def)
  show "json_printable ci \<Longrightarrow> json_printable (map_package ci p)" by (simp add: map_package_def c split: option.split)
  show "json_printable ci \<Longrightarrow> list_all json_printable (List.map_filter (map_relationship ci) rels)"
    by (induction rels) (auto simp: map_filter_simps map_relationship_def split: option.split)
  show "json_printable ci \<Longrightarrow> json_printable (map_extracted_license ci l)" by (simp add: map_extracted_license_def)
qed

lemma printable_spdx3: "json_printable (fst (spdx3_serialize doc))"
  by (simp add: spdx3_serialize_def Let_def)

section \<open>SPDX 2.3\<close>

definition member :: "string \<Rightarrow> json \<Rightarrow> json option" where
  "member key j = (case j of JObject d \<Rightarrow> dict_get d key | _ \<Rightarrow> None)"

lemma no_diagnostics: "snd (spdx23_relationship rel) = []"
  by (cases "rl_relationship_type rel") (simp_all add: spdx23_relationship_def SPDX23_RELATIONSHIP_TYPES_def Let_def)

lemma spdx23_relationship_members:
  "member ''spdxElementId'' (fst (spdx23_relationship rel)) = Some (JString (rl_source_id rel))"
  "member ''relatedSpdxElement'' (fst (spdx23_relationship rel)) = Some (JString (rl_target_id rel))"
  "member ''relationshipType'' (fst (spdx23_relationship rel)) = Some (JString (relationship_value (rl_relationship_type rel)))"
  by (cases "rl_relationship_type rel"; simp add: spdx23_relationship_def SPDX23_RELATIONSHIP_TYPES_def member_def Let_def)+

lemma spdx23_package_members:
  "member ''SPDXID'' (spdx23_package p) = Some (JString (bp_spdx_id p))" "member ''name'' (spdx23_package p) = Some (JString (bp_name p))"
  "member ''versionInfo'' (spdx23_package p) = Some (or_noassertion (bp_version p))"
  by (simp_all add: spdx23_package_def member_def)

lemma spdx23_members:
  "member ''packages'' (fst (spdx23_serialize doc)) = Some (JArray (map spdx23_package (bd_root_package doc # bd_packages doc)))"
  "member ''relationships'' (fst (spdx23_serialize doc)) = Some (JArray (map (fst \<circ> spdx23_relationship) (bd_relationships doc)))"
  "member ''name'' (fst (spdx23_serialize doc)) = Some (JString (bd_name doc))"
  "member ''documentNamespace'' (fst (spdx23_serialize doc)) = Some (JString (bd_namespace doc))"
  by (simp_all add: spdx23_serialize_def member_def)

text \<open>Property C26. The SPDX 2.3 file of an assembled document is closed: it lists the root and every package of the document with its
  identifier, in order, and both ends of each relationship it states are among the packages it lists.\<close>

theorem spdx23_references_resolve:
  assumes "assemble aenv scan eps = Inr doc"
  shows "\<exists>packages rels. member ''packages'' (fst (spdx23_serialize doc)) = Some (JArray packages) \<and>
    member ''relationships'' (fst (spdx23_serialize doc)) = Some (JArray rels) \<and>
    map (member ''SPDXID'') packages = map (Some \<circ> JString) (ROOT_ID # map bp_spdx_id (bd_packages doc)) \<and>
    (\<forall>r\<in>set rels. member ''spdxElementId'' r \<in> set (map (member ''SPDXID'') packages) \<and>
       member ''relatedSpdxElement'' r \<in> set (map (member ''SPDXID'') packages))"
proof -
  have root: "bp_spdx_id (bd_root_package doc) = ROOT_ID" by (rule assembled_root [OF assms])
  have "rl_source_id r \<in> set (ROOT_ID # map bp_spdx_id (bd_packages doc))" "rl_target_id r \<in> set (ROOT_ID # map bp_spdx_id (bd_packages doc))"
    if "r \<in> set (bd_relationships doc)" for r
    using assembled_closed [OF assms that] by auto
  moreover have ids: "map (member ''SPDXID'') (map spdx23_package (bd_root_package doc # bd_packages doc)) =
      map (Some \<circ> JString) (ROOT_ID # map bp_spdx_id (bd_packages doc))"
    by (simp add: spdx23_package_members root)
  moreover have "Some (JString i) \<in> set (map (Some \<circ> JString) is)" if "i \<in> set is" for i "is" using that by simp
  ultimately have "member ''spdxElementId'' (fst (spdx23_relationship r)) \<in> set (map (Some \<circ> JString) (ROOT_ID # map bp_spdx_id (bd_packages doc)))"
    "member ''relatedSpdxElement'' (fst (spdx23_relationship r)) \<in> set (map (Some \<circ> JString) (ROOT_ID # map bp_spdx_id (bd_packages doc)))"
    if "r \<in> set (bd_relationships doc)" for r
    using that unfolding spdx23_relationship_members by blast+
  then show ?thesis
    unfolding spdx23_members
    by (intro exI [of _ "map spdx23_package (bd_root_package doc # bd_packages doc)"] exI [of _ "map (fst \<circ> spdx23_relationship) (bd_relationships doc)"] conjI ids)
      (unfold ids, auto)
qed

definition example_inventory :: "string + sbom_document" where
  "example_inventory = assemble example_assembler example_scan [example_ep ''a'' ''1'' (Some ''b''), example_ep ''b'' ''2'' None]"

theorem spdx23_references_resolve_witness:
  "\<exists>doc packages. example_inventory = Inr doc \<and> member ''packages'' (fst (spdx23_serialize doc)) = Some (JArray packages) \<and>
     map (member ''SPDXID'') packages = map (Some \<circ> JString) [ROOT_ID, ''SPDXRef-Package-a-1'', ''SPDXRef-Package-b-2'']"
proof -
  have ids: "(case example_inventory of Inl _ \<Rightarrow> [] | Inr doc \<Rightarrow> map bp_spdx_id (bd_packages doc)) = [''SPDXRef-Package-a-1'', ''SPDXRef-Package-b-2'']"
    by code_simp
  have "\<not> isl example_inventory" by code_simp
  then obtain doc where inventory: "example_inventory = Inr doc" by (metis isl_def sum.exhaust)
  have doc: "example_inventory = Inr doc" "map bp_spdx_id (bd_packages doc) = [''SPDXRef-Package-a-1'', ''SPDXRef-Package-b-2'']"
    using inventory ids unfolding inventory by simp_all
  show ?thesis using spdx23_references_resolve [OF doc(1) [unfolded example_inventory_def]] doc by auto
qed

text \<open>What the file says determines the inventory.\<close>

lemma canonical_member:
  assumes "canonical (JObject d) = canonical (JObject e)" and "distinct (map fst d)" and "distinct (map fst e)"
  shows "map_option canonical (member k (JObject d)) = map_option canonical (member k (JObject e))"
proof -
  have same: "map_of (sort_key fst (map (\<lambda>(k, v). (k, canonical v)) z)) k = map_option canonical (member k (JObject z))"
    if z: "distinct (map fst z)" for z
  proof -
    have "distinct (map fst (sort_key fst z))" using z by (simp add: distinct_map)
    then have "map_of (sort_key fst z) = map_of z" using z by (simp add: map_of_inject_set)
    moreover have "map_of (map (\<lambda>(k, v). (k, canonical v)) y) k = map_option canonical (map_of y k)" for y
      by (induction y) auto
    ultimately show ?thesis by (simp add: sort_key_map member_def)
  qed
  have "sort_key fst (map (\<lambda>(k, v). (k, canonical v)) d) = sort_key fst (map (\<lambda>(k, v). (k, canonical v)) e)" using assms(1) by simp
  then show ?thesis using same [OF assms(2)] same [OF assms(3)] by simp
qed

lemma map_factor: "map f xs = map f ys \<Longrightarrow> (\<And>x y. f x = f y \<Longrightarrow> g x = g y) \<Longrightarrow> map g xs = map g ys"
proof (induction xs arbitrary: ys)
  case (Cons x xs)
  obtain y ys' where ys: "ys = y # ys'" using Cons.prems(1) by (cases ys) simp_all
  have "f x = f y" "map f xs = map f ys'" using Cons.prems(1) unfolding ys by simp_all
  then have "g x = g y" "map g xs = map g ys'" using Cons.IH Cons.prems(2) by blast+
  then show ?case by (simp only: ys list.map)
qed simp

lemma json_optional_keys [simp]: "map fst (optional key v) = (if v = None then [] else [key])"
  by (simp add: optional_def split: option.split)

lemma keys_unless_empty [simp]: "map fst (unless_empty key xs) = (if xs = [] then [] else [key])"
  by (simp add: unless_empty_def)

lemma spdx23_package_determined:
  assumes "canonical (spdx23_package p) = canonical (spdx23_package q)"
  shows "(bp_spdx_id p, bp_name p, or_noassertion (bp_version p)) = (bp_spdx_id q, bp_name q, or_noassertion (bp_version q))"
proof -
  have m: "map_option canonical (member k (spdx23_package p)) = map_option canonical (member k (spdx23_package q))" for k
    using assms unfolding spdx23_package_def by (rule canonical_member) simp_all
  have v: "canonical (or_noassertion v) = or_noassertion v" for v by (simp add: or_noassertion_def)
  show ?thesis using m [of "''SPDXID''"] m [of "''name''"] m [of "''versionInfo''"] by (simp add: spdx23_package_members v)
qed

lemma spdx23_relationship_determined:
  assumes "canonical (fst (spdx23_relationship r)) = canonical (fst (spdx23_relationship s))"
  shows "r = s"
proof -
  have m: "map_option canonical (member k (fst (spdx23_relationship r))) = map_option canonical (member k (fst (spdx23_relationship s)))" for k
    using assms unfolding spdx23_relationship_def Let_def fst_conv by (rule canonical_member) simp_all
  have inj: "relationship_value a = relationship_value b \<Longrightarrow> a = b" for a b by (cases a; cases b) simp_all
  show ?thesis
    using m [of "''spdxElementId''"] m [of "''relatedSpdxElement''"] m [of "''relationshipType''"] inj
    by (cases r; cases s) (auto simp: spdx23_relationship_members)
qed




section \<open>CycloneDX\<close>

lemma foldl_refs_get:
  "dict_get (foldl (\<lambda>d pkg. dict_set d (bp_spdx_id pkg) (generate_bom_ref env pkg)) d ps) i =
     (case List.find (\<lambda>p. bp_spdx_id p = i) (rev ps) of None \<Rightarrow> dict_get d i | Some p \<Rightarrow> Some (generate_bom_ref env p))"
  by (induction ps arbitrary: d rule: rev_induct) auto

lemma id_to_bom_ref_get:
  "dict_get (id_to_bom_ref env doc) i = map_option (generate_bom_ref env) (List.find (\<lambda>p. bp_spdx_id p = i) (bd_root_package doc # rev (bd_packages doc)))"
  unfolding id_to_bom_ref_def foldl_refs_get by (simp split: option.split)

text \<open>The pairs that a relationship adds.\<close>

definition dependency_pairs :: "(string, string) dict \<Rightarrow> sbom_relationship list \<Rightarrow> (string \<times> string) set" where
  "dependency_pairs refs rels = {(s, t). \<exists>r\<in>set rels. rl_relationship_type r = DEPENDS_ON \<and>
     dict_get refs (rl_source_id r) = Some s \<and> dict_get refs (rl_target_id r) = Some t}"

definition listed_pairs :: "(string \<times> string list) list \<Rightarrow> (string \<times> string) set" where
  "listed_pairs d = {(s, t). \<exists>ts. (s, ts) \<in> set d \<and> t \<in> set ts}"

lemma listed_pairs_set:
  assumes "dict_wf d"
  shows "listed_pairs (dict_set d s (dict_getd d s [] @ [t])) = insert (s, t) (listed_pairs d)"
proof -
  have get: "listed_pairs e = {(s, t). \<exists>ts. dict_get e s = Some ts \<and> t \<in> set ts}" if "dict_wf e" for e
    using that by (auto simp: listed_pairs_def dict_wf_def)
  show ?thesis unfolding get [OF dict_wf_set [OF assms]] get [OF assms] by (auto simp: dict_getd_def split: option.splits if_splits)
qed

lemma deps_fold:
  "dict_wf d \<Longrightarrow> dict_wf (foldl (deps_step refs) d rels) \<and>
     listed_pairs (foldl (deps_step refs) d rels) = listed_pairs d \<union> dependency_pairs refs rels"
proof (induction rels arbitrary: d)
  case (Cons r rels)
  have split: "dependency_pairs refs (r # rels) = dependency_pairs refs [r] \<union> dependency_pairs refs rels" by (auto simp: dependency_pairs_def)
  have "dict_wf (deps_step refs d r) \<and> listed_pairs (deps_step refs d r) = listed_pairs d \<union> dependency_pairs refs [r]"
    using Cons.prems by (auto simp: deps_step_def dict_wf_set listed_pairs_set dependency_pairs_def split: option.split)
  then show ?case using Cons.IH [of "deps_step refs d r"] by (simp add: split Un_assoc)
qed (simp add: dependency_pairs_def)

lemma build_dependencies_facts:
  "sorted (map fst (build_dependencies env doc))" "distinct (map fst (build_dependencies env doc))"
  "listed_pairs (build_dependencies env doc) = dependency_pairs (id_to_bom_ref env doc) (bd_relationships doc)"
proof -
  let ?d = "foldl (deps_step (id_to_bom_ref env doc)) [] (bd_relationships doc)"
  have wf: "dict_wf ?d" and pairs: "listed_pairs ?d = dependency_pairs (id_to_bom_ref env doc) (bd_relationships doc)"
    using deps_fold [of "[]"] by (simp_all add: dict_wf_def listed_pairs_def)
  have keys: "map fst (build_dependencies env doc) = map fst (sort_key fst ?d)" by (simp add: build_dependencies_def case_prod_unfold comp_def)
  show "sorted (map fst (build_dependencies env doc))" unfolding keys by simp
  show "distinct (map fst (build_dependencies env doc))" unfolding keys using wf by (simp add: dict_wf_def distinct_map)
  show "listed_pairs (build_dependencies env doc) = dependency_pairs (id_to_bom_ref env doc) (bd_relationships doc)"
    unfolding pairs [symmetric] by (fastforce simp: build_dependencies_def listed_pairs_def)
qed




text \<open>Two packages with the same name, version and package URL get one reference.\<close>

lemma bom_ref_clash:
  assumes "bp_name p = bp_name q" "bp_version p = bp_version q" "bp_package_url p = bp_package_url q"
  shows "generate_bom_ref env p = generate_bom_ref env q"
  using assms by (simp add: generate_bom_ref_def)

section \<open>What the formats leave out\<close>

text \<open>SPDX 3 states the concluded licence under the name of the declared one, and the declared licence nowhere.\<close>

lemma spdx3_license_fields:
  assumes "present (bp_concluded_license p) = Some l"
  shows "member ''declaredLicense'' (map_package ci p) =
      Some (JObject [(''@type'', JString ''simplelicensing_LicenseExpression''), (''simplelicensing_licenseExpression'', JString l)])"
    and "map_package ci (p\<lparr>bp_declared_license := x\<rparr>) = map_package ci p"
  using assms by (auto simp: map_package_def member_def unless_empty_def split: option.split)

text \<open>A missing schema ends the writing of two of the formats; the third goes on without validation.\<close>

lemma missing_schema:
  assumes "wv_loads env = (\<lambda>_. Inr JNull)" and "wv_load_schema env = (\<lambda>_. Some reason)"
  shows "isl (snd (cyclonedx_writer env) doc)" "isl (snd (spdx3_writer env) doc)" "\<not> isl (snd (spdx23_writer env) doc)"
  using assms by (simp_all add: cyclonedx_writer_def spdx3_writer_def spdx23_writer_def validate_json_def get_validator_def and_then_eqs Let_def
      split: prod.split)

text \<open>More diagnostics than a result may hold make a writer that does not cap them fail after its file is written.\<close>

lemma too_many_diagnostics:
  assumes "length diagnostics > 1000" and "\<And>n. \<not> re_cancelled env n" and "re_mkdir_fault env path = None" "re_write_fault env path = None"
  shows "isl (fst (write_with_cancellation env output_bytes path fmt diagnostics st))"
    and "dict_get (rs_files (snd (write_with_cancellation env output_bytes path fmt diagnostics st))) path = Some output_bytes"
  using assms by (simp_all add: write_with_cancellation_def write_sbom_output_def poll_token_def and_then_eqs check_writer_result_def)

text \<open>A validator in the cache gives what loading the schema again would give.\<close>

lemma validator_cache_transparent:
  assumes "\<forall>f\<in>set cache. wv_load_schema env f = None \<and> wv_check_schema env f = None"
  shows "fst (validate_json env json_text fmt cache) = fst (validate_json env json_text fmt [])"
    and "\<forall>f\<in>set (snd (validate_json env json_text fmt cache)). wv_load_schema env f = None \<and> wv_check_schema env f = None"
  using assms by (auto simp: validate_json_def get_validator_def and_then_def split: sum.splits option.splits)

end
