(* ===== verification/Symlinks.thy ===== *)
theory Symlinks
  imports Archive
begin

text \<open>
  \<open>src/debcraft/domain/package_intelligence/symlink_resolver.py\<close> over the port \<open>ContentsLookupPort\<close>, and
  the adapter that provides the port, \<open>src/debcraft/infrastructure/package_intelligence/contents_adapter.py\<close>.
  The port is the locale \<open>contents_lookup\<close>; it is interpreted on the adapter.
\<close>

section \<open>\<open>posixpath.normpath\<close>\<close>

definition normpath_step :: "nat \<Rightarrow> string list \<Rightarrow> string \<Rightarrow> string list" where
  "normpath_step initial_slashes new_comps name =
     (if name = [] \<or> name = ''.'' then new_comps
      else if name \<noteq> ''..'' \<or> (initial_slashes = 0 \<and> new_comps = []) \<or> (new_comps \<noteq> [] \<and> last new_comps = ''..'')
      then new_comps @ [name]
      else if new_comps \<noteq> [] then butlast new_comps
      else new_comps)"

definition posix_normpath :: "string \<Rightarrow> string" where
  "posix_normpath path =
     (if path = [] then ''.''
      else (let initial_slashes = (if startswith path ''//'' \<and> \<not> startswith path ''///'' then 2
                  else if startswith path ''/'' then 1 else 0);
                p = replicate initial_slashes CHR ''/'' @ join ''/'' (foldl (normpath_step initial_slashes) [] (split_on CHR ''/'' path))
            in if p = [] then ''.'' else p))"

section \<open>The resolver\<close>

record symlink_result =
  sy_resolved :: bool
  sy_target_path :: "string option"
  sy_owning_package :: "string option"
  sy_copyright_content :: "string option"
  sy_failure_reason :: "string option"

definition unresolved :: "string \<Rightarrow> symlink_result" where
  "unresolved reason = \<lparr>sy_resolved = False, sy_target_path = None, sy_owning_package = None,
     sy_copyright_content = None, sy_failure_reason = Some reason\<rparr>"

definition MAX_RESOLUTION_DEPTH :: nat where "MAX_RESOLUTION_DEPTH = 10"

definition is_symlink_path :: "string \<Rightarrow> bool" where
  "is_symlink_path content = (let stripped = py_strip content in
     if stripped = [] \<or> LF \<in> set stripped then False
     else startswith stripped ''/'' \<or> startswith stripped ''../'' \<or> startswith stripped ''./'')"

definition resolve_path :: "string \<Rightarrow> string \<Rightarrow> string" where
  "resolve_path current_target current_source_dir =
     (if startswith current_target ''/'' then current_target
      else posix_normpath (posix_join current_source_dir current_target))"

text \<open>The loop with the hops that are left.\<close>

fun resolve_loop ::
  "(string \<Rightarrow> string option) \<Rightarrow> (string \<Rightarrow> string option) \<Rightarrow> nat \<Rightarrow> string list \<Rightarrow> string \<Rightarrow> string \<Rightarrow> symlink_result" where
  "resolve_loop find_owner get_copyright_content 0 visited current_target current_source_dir =
     unresolved (''Maximum resolution depth ('' @ nat_str MAX_RESOLUTION_DEPTH @ '') exceeded'')"
| "resolve_loop find_owner get_copyright_content (Suc hops) visited current_target current_source_dir =
     (let resolved_path = resolve_path current_target current_source_dir in
      if resolved_path \<in> set visited
      then unresolved (''Circular symlink chain detected at: '' @ resolved_path)
      else case find_owner resolved_path of
        None \<Rightarrow> unresolved (''Cannot resolve path: no package owns '' @ resolved_path)
      | Some owner \<Rightarrow>
          (case get_copyright_content owner of
             None \<Rightarrow> unresolved (''Package '' @ owner @ '' owns '' @ resolved_path @ '' but has no copyright content'')
           | Some copyright_content \<Rightarrow>
               if is_symlink_path copyright_content
               then resolve_loop find_owner get_copyright_content hops (resolved_path # visited)
                      copyright_content (posix_dirname resolved_path)
               else \<lparr>sy_resolved = True, sy_target_path = Some resolved_path, sy_owning_package = Some owner,
                     sy_copyright_content = Some copyright_content, sy_failure_reason = None\<rparr>))"

definition resolve :: "(string \<Rightarrow> string option) \<Rightarrow> (string \<Rightarrow> string option) \<Rightarrow> string \<Rightarrow> string \<Rightarrow> symlink_result" where
  "resolve find_owner get_copyright_content symlink_target source_dir =
     resolve_loop find_owner get_copyright_content MAX_RESOLUTION_DEPTH [] symlink_target source_dir"

section \<open>The adapter\<close>

text \<open>Rows of \<open>file_ownership\<close>: path, package, snapshot; rows of \<open>parsed_deb_packages\<close>: the control
  metadata, a JSON object of strings, and the copyright text. \<open>json_loads\<close> is \<open>None\<close> where
  \<open>json.loads\<close> raises one of the two errors that are caught.\<close>

record contents_lookup_adapter =
  cl_file_owners :: "(string, string) dict"
  cl_copyright_contents :: "(string, string) dict"

definition find_owner :: "contents_lookup_adapter \<Rightarrow> string \<Rightarrow> string option" where
  "find_owner adapter file_path = dict_get (cl_file_owners adapter) file_path"

definition get_copyright_content :: "contents_lookup_adapter \<Rightarrow> string \<Rightarrow> string option" where
  "get_copyright_content adapter package_name = dict_get (cl_copyright_contents adapter) package_name"

definition load_file_owners :: "(string \<times> string \<times> nat) list \<Rightarrow> nat option \<Rightarrow> (string, string) dict" where
  "load_file_owners rows snapshot_id = foldl (\<lambda>d (file_path, package_name, _). dict_set d file_path package_name) []
     (filter (\<lambda>(_, _, s). case snapshot_id of None \<Rightarrow> True | Some i \<Rightarrow> s = i) rows)"

definition load_copyright_contents ::
  "(string \<Rightarrow> (string, string) dict option) \<Rightarrow> (string \<times> string option) list \<Rightarrow> (string, string) dict" where
  "load_copyright_contents json_loads rows = foldl (\<lambda>copyright_contents (control_metadata, copyright_text).
     case json_loads control_metadata of
       None \<Rightarrow> copyright_contents
     | Some control \<Rightarrow>
         (let package_name = dict_getd control ''Package'' [] in
          case copyright_text of
            Some t \<Rightarrow> if package_name \<noteq> [] \<and> t \<noteq> [] then dict_set copyright_contents package_name t else copyright_contents
          | None \<Rightarrow> copyright_contents)) []
     (filter (\<lambda>(_, t). t \<noteq> None) rows)"

definition from_session ::
  "(string \<Rightarrow> (string, string) dict option) \<Rightarrow> (string \<times> string \<times> nat) list \<Rightarrow> (string \<times> string option) list \<Rightarrow> nat option \<Rightarrow>
     contents_lookup_adapter" where
  "from_session json_loads owner_rows package_rows snapshot_id =
     \<lparr>cl_file_owners = load_file_owners owner_rows snapshot_id,
      cl_copyright_contents = load_copyright_contents json_loads package_rows\<rparr>"

section \<open>Chains of links\<close>

text \<open>The specification speaks of paths only: a path whose owner's copyright content is a link leads to
  another path; one whose content is not a link is a copyright file.\<close>

inductive link :: "(string \<Rightarrow> string option) \<Rightarrow> (string \<Rightarrow> string option) \<Rightarrow> string \<Rightarrow> string \<Rightarrow> bool" for own con where
  link: "own p = Some pkg \<Longrightarrow> con pkg = Some c \<Longrightarrow> is_symlink_path c \<Longrightarrow> link own con p (resolve_path c (posix_dirname p))"

definition copyright_file :: "(string \<Rightarrow> string option) \<Rightarrow> (string \<Rightarrow> string option) \<Rightarrow> string \<Rightarrow> string \<Rightarrow> string \<Rightarrow> bool" where
  "copyright_file own con p pkg c \<longleftrightarrow> own p = Some pkg \<and> con pkg = Some c \<and> \<not> is_symlink_path c"

inductive_simps link_iff: "link own con p q"

lemma link_fun: "link own con p q \<Longrightarrow> link own con p r \<Longrightarrow> r = q"
  by (auto simp: link_iff)

lemma copyright_file_stuck: "copyright_file own con p pkg c \<Longrightarrow> \<not> link own con p q"
  by (auto simp: link_iff copyright_file_def)

lemma cycle_step:
  assumes "(link own con)\<^sup>+\<^sup>+ p p" and "link own con p q"
  shows "(link own con)\<^sup>+\<^sup>+ q q"
proof -
  obtain r where "link own con p r" "(link own con)\<^sup>*\<^sup>* r p"
    using assms(1) by (blast dest: tranclpD)
  then show ?thesis using assms(2) link_fun [of own con p q r] by (simp add: rtranclp_into_tranclp1)
qed

lemma cycle_endless:
  "(link own con ^^ n) p q \<Longrightarrow> (link own con)\<^sup>+\<^sup>+ p p \<Longrightarrow> \<not> copyright_file own con q pkg c"
proof (induction n arbitrary: p)
  case 0
  then show ?case by (auto dest: tranclpD copyright_file_stuck)
next
  case (Suc n)
  then show ?case by (metis cycle_step relpowp_Suc_D2)
qed

definition found :: "string \<Rightarrow> string \<Rightarrow> string \<Rightarrow> symlink_result" where
  "found p pkg c = \<lparr>sy_resolved = True, sy_target_path = Some p, sy_owning_package = Some pkg,
     sy_copyright_content = Some c, sy_failure_reason = None\<rparr>"

lemma found_simps [simp]: "sy_resolved (found p pkg c)" "\<not> sy_resolved (unresolved m)" "unresolved m \<noteq> found p pkg c"
  "found p pkg c = found p' pkg' c' \<longleftrightarrow> p = p' \<and> pkg = pkg' \<and> c = c'"
  by (auto simp: found_def unresolved_def)

lemma resolve_loop_found:
  assumes "\<And>v. v \<in> set visited \<Longrightarrow> (link own con)\<^sup>+\<^sup>+ v (resolve_path t d)"
  shows "resolve_loop own con hops visited t d = found q pkg c \<longleftrightarrow>
    (\<exists>n < hops. (link own con ^^ n) (resolve_path t d) q \<and> copyright_file own con q pkg c)"
  using assms
proof (induction hops arbitrary: visited t d)
  case (Suc hops)
  let ?p = "resolve_path t d"
  show ?case
  proof (cases "?p \<in> set visited")
    case True
    then show ?thesis using Suc.prems [OF True] by (auto dest: cycle_endless)
  next
    case new: False
    have R: "(\<exists>n < Suc hops. (link own con ^^ n) ?p q \<and> copyright_file own con q pkg c) \<longleftrightarrow>
       (?p = q \<and> copyright_file own con q pkg c) \<or>
       (\<exists>r. link own con ?p r \<and> (\<exists>n < hops. (link own con ^^ n) r q \<and> copyright_file own con q pkg c))"
      (is "?L \<longleftrightarrow> ?A \<or> ?B")
    proof
      assume ?L
      then obtain n where n: "n < Suc hops" "(link own con ^^ n) ?p q" "copyright_file own con q pkg c" by blast
      show "?A \<or> ?B"
      proof (cases n)
        case (Suc m)
        then show ?thesis using n by (metis Suc_less_SucD relpowp_Suc_D2)
      qed (use n in simp)
    next
      assume "?A \<or> ?B"
      then show ?L
      proof
        assume ?A
        then show ?L by (intro exI [of _ 0]) simp
      next
        assume ?B
        then obtain r n where "link own con ?p r" "n < hops" "(link own con ^^ n) r q" "copyright_file own con q pkg c" by blast
        then show ?L by (intro exI [of _ "Suc n"]) (blast intro: relpowp_Suc_I2)
      qed
    qed
    consider (no_owner) "own ?p = None" | (no_content) k where "own ?p = Some k" "con k = None"
      | (plain) k x where "own ?p = Some k" "con k = Some x" "\<not> is_symlink_path x"
      | (follow) k x where "own ?p = Some k" "con k = Some x" "is_symlink_path x"
      by (metis not_None_eq)
    then show ?thesis
    proof cases
      case follow
      let ?r = "resolve_path x (posix_dirname ?p)"
      have l: "link own con ?p ?r" by (rule link.link [where own = own and con = con and pkg = k]) (use follow in simp_all)
      have "(link own con)\<^sup>+\<^sup>+ v ?r" if "v \<in> set (?p # visited)" for v
        using that Suc.prems l by (auto intro: tranclp.trancl_into_trancl)
      note IH = Suc.IH [of "?p # visited" x "posix_dirname ?p", OF this]
      have u: "link own con ?p r \<longleftrightarrow> r = ?r" for r using l link_fun by blast
      have "\<not> (?p = q \<and> copyright_file own con q pkg c)" using l by (auto dest: copyright_file_stuck)
      then show ?thesis
        unfolding R u using new follow IH by (simp add: Let_def) blast
    next
      case no_owner
      then have "\<not> link own con ?p r" for r by (simp add: link_iff)
      then show ?thesis unfolding R using new no_owner by (auto simp: Let_def copyright_file_def)
    next
      case no_content
      then have "\<not> link own con ?p r" for r by (simp add: link_iff)
      then show ?thesis unfolding R using new no_content by (auto simp: Let_def copyright_file_def)
    next
      case plain
      then have "\<not> link own con ?p r" for r by (simp add: link_iff)
      then show ?thesis unfolding R using new plain by (auto simp: Let_def copyright_file_def found_def [symmetric])
    qed
  qed
qed simp

text \<open>Without a file, the failure names the cause; a circular chain is reported only for one.\<close>

lemma resolve_loop_circular:
  assumes "\<And>v. v \<in> set visited \<Longrightarrow> (link own con)\<^sup>+\<^sup>+ v (resolve_path t d)"
    and "sy_failure_reason (resolve_loop own con hops visited t d) = Some (''Circular symlink chain detected at: '' @ q)"
  shows "(link own con)\<^sup>+\<^sup>+ q q"
  using assms
proof (induction hops arbitrary: visited t d)
  case (Suc hops)
  let ?p = "resolve_path t d"
  show ?case
  proof (cases "?p \<in> set visited")
    case True
    then show ?thesis using Suc.prems(1) [OF True] Suc.prems(2) by (simp add: unresolved_def)
  next
    case new: False
    then obtain k x where f: "own ?p = Some k" "con k = Some x" "is_symlink_path x"
      using Suc.prems(2) by (auto simp: unresolved_def Let_def split: option.splits if_splits)
    have l: "link own con ?p (resolve_path x (posix_dirname ?p))"
      by (rule link.link [where own = own and con = con and pkg = k]) (use f in simp_all)
    have "(link own con)\<^sup>+\<^sup>+ v (resolve_path x (posix_dirname ?p))" if "v \<in> set (?p # visited)" for v
      using that Suc.prems(1) l by (auto intro: tranclp.trancl_into_trancl)
    from Suc.IH [of "?p # visited" x "posix_dirname ?p", OF this] show ?thesis using Suc.prems(2) new f by (simp add: Let_def)
  qed
qed (simp add: unresolved_def)

section \<open>The port\<close>

text \<open>What the resolver may expect of a lookup: content that is there is not empty.\<close>

locale contents_lookup =
  fixes own :: "string \<Rightarrow> string option" and con :: "string \<Rightarrow> string option"
  assumes content_nonempty: "con pkg = Some c \<Longrightarrow> c \<noteq> []"
begin

lemma resolved_iff:
  "resolve own con t d = found q pkg c \<longleftrightarrow>
    (\<exists>n < 10. (link own con ^^ n) (resolve_path t d) q \<and> copyright_file own con q pkg c)"
  unfolding resolve_def MAX_RESOLUTION_DEPTH_def by (rule resolve_loop_found) simp

lemma resolve_cases:
  "(\<exists>q pkg c. resolve own con t d = found q pkg c \<and> c \<noteq> []) \<or> (\<exists>m. resolve own con t d = unresolved m)"
proof -
  have "(\<exists>q pkg c. con pkg = Some c \<and> resolve_loop own con n vs t d = found q pkg c) \<or> (\<exists>m. resolve_loop own con n vs t d = unresolved m)" for n vs t d
    by (induction n arbitrary: vs t d) (auto simp: Let_def found_def [symmetric] split: option.splits)
  then show ?thesis unfolding resolve_def using content_nonempty by meson
qed

end

lemma dict_get_foldl_nonempty:
  "dict_get (foldl (\<lambda>d x. case f x of None \<Rightarrow> d | Some (k, v) \<Rightarrow> dict_set d k v) d xs) k = Some c \<Longrightarrow>
     dict_get d k = Some c \<or> (\<exists>x \<in> set xs. f x = Some (k, c))"
proof (induction xs arbitrary: d)
  case (Cons x xs)
  show ?case
  proof (cases "f x")
    case (Some kv)
    obtain a b where kv: "kv = (a, b)" by fastforce
    show ?thesis using Cons.IH [of "dict_set d a b"] Cons.prems by (auto simp: Some kv split: if_splits)
  qed (use Cons in simp)
qed simp

lemma load_copyright_nonempty: "dict_get (load_copyright_contents json_loads rows) pkg = Some c \<Longrightarrow> c \<noteq> []"
proof -
  let ?f = "\<lambda>(control_metadata, copyright_text). case json_loads control_metadata of None \<Rightarrow> None
    | Some control \<Rightarrow> (case copyright_text of
         Some t \<Rightarrow> if dict_getd control ''Package'' [] \<noteq> [] \<and> t \<noteq> [] then Some (dict_getd control ''Package'' [], t) else None
       | None \<Rightarrow> None)"
  have e: "load_copyright_contents json_loads rows =
      foldl (\<lambda>d x. case ?f x of None \<Rightarrow> d | Some (k, v) \<Rightarrow> dict_set d k v) [] (filter (\<lambda>(_, t). t \<noteq> None) rows)"
    unfolding load_copyright_contents_def by (rule foldl_cong) (auto split: option.splits simp: Let_def)
  assume "dict_get (load_copyright_contents json_loads rows) pkg = Some c"
  from dict_get_foldl_nonempty [OF this [unfolded e]] show "c \<noteq> []"
    by (auto split: option.splits if_splits)
qed

interpretation adapter: contents_lookup
  "find_owner (from_session json_loads owner_rows package_rows snapshot_id)"
  "get_copyright_content (from_session json_loads owner_rows package_rows snapshot_id)"
  by unfold_locales (auto simp: get_copyright_content_def from_session_def dest: load_copyright_nonempty)

text \<open>Property C10. Resolution refines following links: over the adapter's data the resolver answers with
  a path, its owner and the owner's copyright text exactly when that path is reached from the target
  in fewer than ten links and its content is text; then the text is not empty. Everything else is
  a failure with a reason, and a chain reported as circular is one.\<close>

theorem resolve_refines_links:
  "let adapter = from_session json_loads owner_rows package_rows snapshot_id;
       own = find_owner adapter; con = get_copyright_content adapter
   in (resolve own con t d = found q pkg c \<longleftrightarrow>
        (\<exists>n < 10. (link own con ^^ n) (resolve_path t d) q \<and> copyright_file own con q pkg c)) \<and>
      ((\<exists>q pkg c. resolve own con t d = found q pkg c \<and> c \<noteq> []) \<or> (\<exists>m. resolve own con t d = unresolved m)) \<and>
      (sy_failure_reason (resolve own con t d) = Some (''Circular symlink chain detected at: '' @ p) \<longrightarrow> (link own con)\<^sup>+\<^sup>+ p p)"
  unfolding Let_def resolve_def
  by (intro conjI impI adapter.resolved_iff [unfolded resolve_def] adapter.resolve_cases [unfolded resolve_def]
      resolve_loop_circular [of "[]"]) simp_all

definition example_adapter :: contents_lookup_adapter where
  "example_adapter = from_session (\<lambda>s. Some [(''Package'', s)]) [(''/a'', ''p'', 1), (''/b'', ''q'', 1)]
     [(''p'', Some ''/b''), (''q'', Some ''./a'')] (Some 1)"

lemma example_circular:
  "sy_failure_reason (resolve (find_owner example_adapter) (get_copyright_content example_adapter) ''/a'' []) =
     Some (''Circular symlink chain detected at: '' @ ''/a'')"
  by code_simp

theorem resolve_refines_links_witness:
  "(link (find_owner example_adapter) (get_copyright_content example_adapter))\<^sup>+\<^sup>+ ''/a'' ''/a''"
  using resolve_refines_links [of "\<lambda>s. Some [(''Package'', s)]" "[(''/a'', ''p'', 1), (''/b'', ''q'', 1)]"
      "[(''p'', Some ''/b''), (''q'', Some ''./a'')]" "Some 1" "''/a''" "[]" _ _ _ "''/a''",
      folded example_adapter_def] example_circular
  unfolding Let_def by blast

text \<open>A link target that ends in a line break is followed with the line break: the content is
  stripped for the test and not for the path.\<close>

lemma link_keeps_newline:
  "is_symlink_path (''/b'' @ [LF]) \<and>
   resolve (map_of [(''/a'', ''p''), (''/b'', ''q'')]) (map_of [(''p'', ''/b'' @ [LF]), (''q'', ''text'')]) ''/a'' [] =
     unresolved (''Cannot resolve path: no package owns /b'' @ [LF]) \<and>
   resolve (map_of [(''/a'', ''p''), (''/b'', ''q'')]) (map_of [(''p'', ''/b''), (''q'', ''text'')]) ''/a'' [] =
     found ''/b'' ''q'' ''text''"
  by code_simp

end
