(* ===== verification/Directory_Scanner.thy ===== *)
theory Directory_Scanner
  imports Scanner_Mixin Symlinks
begin

text \<open>
  The scanner of directory trees (\<open>src/debcraft/infrastructure/scanners/directory.py\<close>). The file system is an argument:
  \<open>os.path.isdir\<close>, \<open>exists\<close>, \<open>isfile\<close> and \<open>realpath\<close>, what \<open>os.walk(root, followlinks=False)\<close> yields, and the text of a
  file. \<open>os.path.abspath\<close>, \<open>join\<close> and \<open>relpath\<close> are defined. The token is read as in the other scanners.
\<close>

section \<open>Paths\<close>

definition path_components :: "string \<Rightarrow> string list" where
  "path_components p = filter (\<lambda>x. x \<noteq> []) (split_on CHR ''/'' p)"

definition posix_abspath :: "string \<Rightarrow> string \<Rightarrow> string" where
  "posix_abspath cwd p = posix_normpath (if startswith p ''/'' then p else posix_join cwd p)"

fun common_prefix :: "'a list \<Rightarrow> 'a list \<Rightarrow> nat" where
  "common_prefix (x # xs) (y # ys) = (if x = y then Suc (common_prefix xs ys) else 0)"
| "common_prefix _ _ = 0"

definition posix_relpath :: "string \<Rightarrow> string \<Rightarrow> string \<Rightarrow> string" where
  "posix_relpath cwd path start =
     (let start_list = path_components (posix_abspath cwd start);
          path_list = path_components (posix_abspath cwd path);
          i = common_prefix start_list path_list;
          rel_list = replicate (length start_list - i) ''..'' @ drop i path_list
      in if rel_list = [] then ''.'' else join ''/'' rel_list)"

section \<open>The scanner\<close>

record directory_env =
  dv_cwd :: string
  dv_isdir :: "string \<Rightarrow> bool"
  dv_exists :: "string \<Rightarrow> bool"
  dv_isfile :: "string \<Rightarrow> bool"
  dv_realpath :: "string \<Rightarrow> string"
  dv_walk :: "string \<Rightarrow> (string \<times> string list) list"
  dv_read :: "string \<Rightarrow> scan_exc + string"
  dv_ports :: scan_ports

definition is_safe_path :: "directory_env \<Rightarrow> string \<Rightarrow> string \<Rightarrow> bool" where
  "is_safe_path env root target =
     (let real_root = dv_realpath env root; real_target = dv_realpath env target
      in real_target = real_root \<or> startswith real_target (real_root @ ''/''))"

definition relative_files :: "directory_env \<Rightarrow> string \<Rightarrow> string \<times> string list \<Rightarrow> string list" where
  "relative_files env root = (\<lambda>(dirpath, filenames).
     map (\<lambda>full_path. CHR ''/'' # posix_relpath (dv_cwd env) full_path root)
       (filter (is_safe_path env root) (map (posix_join dirpath) filenames)))"

fun walk_tree ::
  "directory_env \<Rightarrow> (nat \<Rightarrow> bool) \<Rightarrow> string \<Rightarrow> (string \<times> string list) list \<Rightarrow> scan_state \<Rightarrow> string list \<times> scan_state" where
  "walk_tree env is_cancelled root [] st = ([], st)"
| "walk_tree env is_cancelled root (entry # entries) st =
     (case poll is_cancelled st of
        (True, st) \<Rightarrow> ([], st)
      | (False, st) \<Rightarrow>
          (case walk_tree env is_cancelled root entries st of
             (file_paths, st) \<Rightarrow> (relative_files env root entry @ file_paths, st)))"

definition fallback_filesystem_analysis ::
  "directory_env \<Rightarrow> (nat \<Rightarrow> bool) \<Rightarrow> artifact \<Rightarrow> scan_state \<Rightarrow> scan_result scanned" where
  "fallback_filesystem_analysis env is_cancelled art st =
     (case walk_tree env is_cancelled (ar_path art) (dv_walk env (ar_path art)) st of
        (file_paths, st) \<Rightarrow>
          analyze_and_build_filesystem_result (dv_ports env) is_cancelled art file_paths True ''filesystem traversal'' st)"

definition dpkg_status_in :: "string \<Rightarrow> string" where
  "dpkg_status_in root = posix_join (posix_join (posix_join (posix_join root ''var'') ''lib'') ''dpkg'') ''status''"

definition directory_scan :: "directory_env \<Rightarrow> (nat \<Rightarrow> bool) \<Rightarrow> artifact \<Rightarrow> scan_state \<Rightarrow> scan_result scanned" where
  "directory_scan env is_cancelled art st =
     (let root = ar_path art in
      if \<not> dv_isdir env root then
        finish art [] DPKG_METADATA (note_all [''Directory not accessible at '' @ quoted root @ '': ''
          @ (if \<not> dv_exists env root then ''path does not exist'' else ''path is not a directory'')] st)
      else
        (let dpkg_status_path = dpkg_status_in root in
         if \<not> is_safe_path env root dpkg_status_path then fallback_filesystem_analysis env is_cancelled art st
         else if dv_isfile env dpkg_status_path then
           (case dv_read env dpkg_status_path of
              Inl e \<Rightarrow> if is_os_error e then fallback_filesystem_analysis env is_cancelled art st else (Inl e, st)
            | Inr content \<Rightarrow>
                (let parse_result = parse_dpkg_status content in
                 iterate_packages_with_cancellation is_cancelled art (pr_packages parse_result) DPKG_METADATA
                   (note_all (pr_diagnostics parse_result) st)))
         else fallback_filesystem_analysis env is_cancelled art st))"

section \<open>The walk\<close>

lemma walk_tree_prefix:
  "walk_tree env is_cancelled root entries st = (paths, st') \<Longrightarrow>
     \<exists>k\<le>length entries. paths = concat (map (relative_files env root) (take k entries)) \<and>
       (k < length entries \<longrightarrow> is_cancelled (ss_polls st + k)) \<and> (\<forall>i<k. \<not> is_cancelled (ss_polls st + i)) \<and>
       ss_diagnostics st' = ss_diagnostics st"
proof (induction entries arbitrary: st paths)
  case (Cons e es)
  obtain c st1 where p: "poll is_cancelled st = (c, st1)" by fastforce
  then have c: "c = is_cancelled (ss_polls st)" "ss_polls st1 = Suc (ss_polls st)" "ss_diagnostics st1 = ss_diagnostics st"
    by (auto simp: poll_def)
  show ?case
  proof (cases c)
    case True
    then show ?thesis using Cons.prems p c by (intro exI [of _ 0]) auto
  next
    case False
    obtain ps where w: "walk_tree env is_cancelled root es st1 = (ps, st')" and paths: "paths = relative_files env root e @ ps"
      using Cons.prems by (auto simp: p False split: prod.splits)
    from Cons.IH [OF w] obtain k where k: "k \<le> length es" "ps = concat (map (relative_files env root) (take k es))"
      "k < length es \<longrightarrow> is_cancelled (ss_polls st1 + k)" "\<forall>i<k. \<not> is_cancelled (ss_polls st1 + i)"
      "ss_diagnostics st' = ss_diagnostics st1" by blast
    then show ?thesis using c False
      by (intro exI [of _ "Suc k"]) (auto simp: paths less_Suc_eq_0_disj)
  qed
qed simp

text \<open>A file is looked up only when its real path lies in the real root.\<close>

lemma relative_files_safe:
  "p \<in> set (relative_files env root entry) \<longleftrightarrow>
     (\<exists>f\<in>set (snd entry). is_safe_path env root (posix_join (fst entry) f) \<and>
        p = CHR ''/'' # posix_relpath (dv_cwd env) (posix_join (fst entry) f) root)"
  by (auto simp: relative_files_def case_prod_unfold)


text \<open>The test on the texts is containment by components: a sibling whose name continues that of the root is outside.\<close>

definition within :: "string \<Rightarrow> string \<Rightarrow> bool" where
  "within root p \<longleftrightarrow> take (length (path_components root)) (path_components p) = path_components root"

lemma path_components_append: "path_components (a @ CHR ''/'' # b) = path_components a @ path_components b"
  by (simp add: path_components_def split_on_append_sep)

lemma safe_within:
  assumes "is_safe_path env root target"
  shows "within (dv_realpath env root) (dv_realpath env target)"
proof -
  from assms consider "dv_realpath env target = dv_realpath env root"
    | rest where "dv_realpath env target = dv_realpath env root @ CHR ''/'' # rest"
    by (auto simp: is_safe_path_def Let_def startswith_iff)
  then show ?thesis by cases (simp_all add: within_def path_components_append)
qed

lemma example_sibling: "\<not> within ''/srv/rootfs'' ''/srv/rootfs-old/etc/shadow''" "within ''/srv/rootfs'' ''/srv/rootfs/etc/shadow''"
  by code_simp+

text \<open>Property C23. A scan of a directory depends on no file outside of it. Two file systems that differ only in the text of files
  whose real paths are not below the real path of the root give the same result, whatever the links in the tree.\<close>

theorem directory_scan_contained:
  assumes "\<forall>p. within (dv_realpath env (ar_path art)) (dv_realpath env p) \<longrightarrow> read p = dv_read env p"
  shows "directory_scan (env\<lparr>dv_read := read\<rparr>) is_cancelled art st = directory_scan env is_cancelled art st"
proof -
  let ?env' = "env\<lparr>dv_read := read\<rparr>" and ?root = "ar_path art"
  have safe: "is_safe_path ?env' = is_safe_path env" by (intro ext) (simp add: is_safe_path_def)
  then have files: "relative_files ?env' r e = relative_files env r e" for r e by (simp add: relative_files_def)
  have walk: "walk_tree ?env' is_cancelled r es s = walk_tree env is_cancelled r es s" for r es s
    by (induction es arbitrary: s) (simp_all add: files split: prod.split bool.split)
  have fallback: "fallback_filesystem_analysis ?env' is_cancelled art st = fallback_filesystem_analysis env is_cancelled art st"
    by (simp add: fallback_filesystem_analysis_def walk)
  have read: "read (dpkg_status_in ?root) = dv_read env (dpkg_status_in ?root)" if "is_safe_path env ?root (dpkg_status_in ?root)"
    using assms safe_within [OF that] by simp
  show ?thesis
    by (auto simp: directory_scan_def Let_def safe fallback read split: sum.split)
qed

definition example_directory :: directory_env where
  "example_directory = \<lparr>dv_cwd = ''/'', dv_isdir = (\<lambda>p. p = ''/srv/rootfs''), dv_exists = (\<lambda>_. True), dv_isfile = (\<lambda>_. True),
     dv_realpath = (\<lambda>p. if p = ''/srv/rootfs/var/lib/dpkg/status'' then ''/etc/shadow'' else p),
     dv_walk = (\<lambda>_. [(''/srv/rootfs'', [''a'', ''b''])]), dv_read = (\<lambda>_. Inr ''Package: p''),
     dv_ports = \<lparr>sp_find_owners = (\<lambda>_ ps. map (\<lambda>p. (p, ''pkg'')) ps), sp_find_by_name = (\<lambda>_ _. Some (''1'', ''all'', []))\<rparr>\<rparr>"

definition example_root :: artifact where
  "example_root = \<lparr>ar_type = DIRECTORY, ar_path = ''/srv/rootfs'', ar_options = []\<rparr>"

theorem directory_scan_contained_witness:
  "directory_scan (example_directory\<lparr>dv_read := (\<lambda>p. if p = ''/etc/shadow'' then Inr ''secret'' else dv_read example_directory p)\<rparr>) (\<lambda>_. False) example_root start_state =
   directory_scan example_directory (\<lambda>_. False) example_root start_state"
proof (rule directory_scan_contained, intro allI impI)
  fix p
  assume w: "within (dv_realpath example_directory (ar_path example_root)) (dv_realpath example_directory p)"
  have "\<not> within (dv_realpath example_directory (ar_path example_root)) (dv_realpath example_directory ''/etc/shadow'')" by code_simp
  then show "(if p = ''/etc/shadow'' then Inr ''secret'' else dv_read example_directory p) = dv_read example_directory p" using w by auto
qed

text \<open>The root of the file system has no containment test that anything passes: its text already ends with the separator that
  is put after it, so a scan of \<open>/\<close> skips the status file and every other file.\<close>

lemma root_scan_sees_nothing:
  assumes "dv_realpath env ''/'' = ''/''" and "\<forall>p. \<not> startswith (dv_realpath env p) ''//''" and "dv_realpath env target \<noteq> ''/''"
  shows "\<not> is_safe_path env ''/'' target" "relative_files env ''/'' entry \<noteq> [] \<Longrightarrow>
    \<exists>f\<in>set (snd entry). dv_realpath env (posix_join (fst entry) f) = ''/''"
proof -
  have unsafe: "\<not> is_safe_path env ''/'' p" if "dv_realpath env p \<noteq> ''/''" for p
    using assms(1,2) that by (simp add: is_safe_path_def)
  then show "\<not> is_safe_path env ''/'' target" using assms(3) by blast
  show "\<exists>f\<in>set (snd entry). dv_realpath env (posix_join (fst entry) f) = ''/''" if "relative_files env ''/'' entry \<noteq> []"
    using that unsafe by (auto simp: relative_files_def case_prod_unfold filter_empty_conv)
qed

text \<open>A scan that is not cancelled reads the status file when it lies in the tree and is readable; otherwise it gives
  the index of contents every file of the walk whose real path is inside the tree, in the order of the walk and relative to the root,
  and its packages are the owners that have metadata.\<close>

theorem directory_scan_result:
  assumes "directory_scan env (\<lambda>_. False) art st = (Inr r, st')" and "dv_isdir env (ar_path art)"
  shows "case (if is_safe_path env (ar_path art) (dpkg_status_in (ar_path art)) \<and> dv_isfile env (dpkg_status_in (ar_path art))
               then dv_read env (dpkg_status_in (ar_path art)) else Inl (OS_Error [])) of
     Inr content \<Rightarrow> sc_strategy r = DPKG_METADATA \<and> sc_packages r = pr_packages (parse_dpkg_status content)
   | Inl e \<Rightarrow> is_os_error e \<and> sc_strategy r = FILESYSTEM_ANALYSIS \<and>
       (\<exists>snapshot_id. snapshot_option art = Inr snapshot_id \<and>
          sc_packages r = fa_packages (analyze_at (dv_ports env) snapshot_id
            (concat (map (relative_files env (ar_path art)) (dv_walk env (ar_path art))))))"
proof -
  have accept: "accept_packages (\<lambda>_. False) acc n pkgs s = (acc @ pkgs, s\<lparr>ss_polls := ss_polls s + length pkgs\<rparr>)" for acc n pkgs s
    by (induction pkgs arbitrary: acc s) (simp_all add: poll_def)
  have iter: "iterate_packages_with_cancellation (\<lambda>_. False) art pkgs strategy s = (Inr r, st') \<Longrightarrow>
      sc_packages r = pkgs \<and> sc_strategy r = strategy" for pkgs strategy s
    by (auto simp: iterate_packages_with_cancellation_def accept finish_def scan_result_of_def)
  have fallback: "sc_strategy r = FILESYSTEM_ANALYSIS \<and> (\<exists>snapshot_id. snapshot_option art = Inr snapshot_id \<and>
      sc_packages r = fa_packages (analyze_at (dv_ports env) snapshot_id (concat (map (relative_files env (ar_path art)) (dv_walk env (ar_path art))))))"
    if f: "fallback_filesystem_analysis env (\<lambda>_. False) art st = (Inr r, st')"
  proof -
    obtain paths st1 where w: "walk_tree env (\<lambda>_. False) (ar_path art) (dv_walk env (ar_path art)) st = (paths, st1)" by fastforce
    then have "paths = concat (map (relative_files env (ar_path art)) (dv_walk env (ar_path art)))"
      using walk_tree_prefix [OF w] by (auto simp: not_less)
    then show ?thesis
      using f by (auto simp: fallback_filesystem_analysis_def w analyze_and_build_filesystem_result_def poll_def and_then_Inr Let_def dest!: iter)
  qed
  show ?thesis
    using assms by (auto simp: directory_scan_def Let_def is_os_error_def dest: fallback iter split: if_splits sum.splits)
qed


theorem directory_scan_result_witness:
  "\<exists>r. fst (directory_scan example_directory (\<lambda>_. False) example_root start_state) = Inr r \<and> sc_strategy r = FILESYSTEM_ANALYSIS \<and>
     sc_packages r = fa_packages (analyze_at (dv_ports example_directory) 0 [''/a'', ''/b''])"
proof -
  let ?run = "directory_scan example_directory (\<lambda>_. False) example_root start_state"
  have facts: "dv_isdir example_directory (ar_path example_root)"
      "\<not> is_safe_path example_directory (ar_path example_root) (dpkg_status_in (ar_path example_root))"
      "snapshot_option example_root = Inr 0"
      "concat (map (relative_files example_directory (ar_path example_root)) (dv_walk example_directory (ar_path example_root))) = [''/a'', ''/b'']"
    by code_simp+
  have "\<exists>r. fst ?run = Inr r"
    by (simp add: directory_scan_def facts fallback_filesystem_analysis_def analyze_and_build_filesystem_result_def poll_def and_then_eqs
        Let_def iterate_packages_with_cancellation_def finish_def split: prod.split)
  then obtain r where r: "?run = (Inr r, snd ?run)" by (auto simp: prod_eq_iff)
  have "sc_strategy r = FILESYSTEM_ANALYSIS \<and> sc_packages r = fa_packages (analyze_at (dv_ports example_directory) 0 [''/a'', ''/b''])"
    using directory_scan_result [OF r facts(1)] facts(2-4) by simp
  then show ?thesis using r by (metis fst_conv)
qed

end
