(* ===== verification/Docker_Scanner.thy ===== *)
theory Docker_Scanner
  imports Layers
begin

text \<open>
  The scanner of \<open>docker save\<close> archives (\<open>src/debcraft/infrastructure/scanners/docker.py\<close>): the manifest with its checks, the
  layers, the packages of the merged file system, and the fall back to the analysis of its paths.
  The archive library, the JSON reader, the decoder with replacement characters and the two ports are parameters.
\<close>

section \<open>The environment\<close>

text \<open>\<open>de_open\<close> is \<open>tarfile.open(path)\<close>. An open image maps a member's name to what \<open>getmember\<close>, \<open>extractfile\<close> and \<open>read\<close>
  give: \<open>None\<close> when the member is not a file.\<close>

type_synonym outer_tar = "string \<Rightarrow> scan_exc + string option"

record docker_env =
  de_exists :: "string \<Rightarrow> bool"
  de_isfile :: "string \<Rightarrow> bool"
  de_open :: "string \<Rightarrow> scan_exc + outer_tar"
  de_json_loads :: "string \<Rightarrow> scan_exc + json"
  de_open_layer :: "string \<Rightarrow> scan_exc + tar_file"
  de_decode :: "string \<Rightarrow> string"
  de_ports :: scan_ports

section \<open>The manifest\<close>

definition validate_docker_artifact :: "docker_env \<Rightarrow> artifact \<Rightarrow> scan_result option" where
  "validate_docker_artifact env art =
     (if \<not> de_exists env (ar_path art) then
        Some (scan_result_of art [] DPKG_METADATA [''Docker image tarball not found: '' @ ar_path art])
      else if \<not> de_isfile env (ar_path art) then
        Some (scan_result_of art [] DPKG_METADATA [''Path is not a file: '' @ ar_path art])
      else None)"

text \<open>\<open>_parse_docker_manifest\<close> gives a result for the invalid image, or the layers the manifest names. A member that cannot be
  read raises the archive library's error, which is not among those caught here.\<close>

definition load_manifest :: "docker_env \<Rightarrow> outer_tar \<Rightarrow> scan_exc + json option" where
  "load_manifest env outer = (case outer ''manifest.json'' of
     Inl e \<Rightarrow> Inl e
   | Inr None \<Rightarrow> Inr None
   | Inr (Some content) \<Rightarrow> map_sum id Some (de_json_loads env content))"

definition parse_docker_manifest :: "docker_env \<Rightarrow> outer_tar \<Rightarrow> artifact \<Rightarrow> scan_exc + (scan_result + json)" where
  "parse_docker_manifest env outer art =
     (let invalid = (\<lambda>msg. Inr (Inl (scan_result_of art [] DPKG_METADATA [msg]))) in
      case load_manifest env outer of
        Inl (Key_Error _) \<Rightarrow> invalid ''Invalid Docker image: missing manifest.json''
      | Inl (JSON_Error s) \<Rightarrow> invalid (''Invalid Docker image: cannot parse manifest.json: '' @ s)
      | Inl (OS_Error s) \<Rightarrow> invalid (''Invalid Docker image: cannot parse manifest.json: '' @ s)
      | Inl e \<Rightarrow> Inl e
      | Inr None \<Rightarrow> invalid ''manifest.json is not a regular file''
      | Inr (Some (JArray (image_entry # _))) \<Rightarrow>
          (case json_get image_entry ''Layers'' (JArray []) of
             Inl e \<Rightarrow> Inl e
           | Inr layers \<Rightarrow>
               if json_truthy layers then Inr (Inr layers)
               else invalid ''Invalid Docker image: no layers found in manifest'')
      | Inr (Some _) \<Rightarrow> invalid ''Invalid Docker image: manifest.json is empty or not an array'')"

section \<open>The layers\<close>

text \<open>All headers are read before the first member is stored.\<close>

definition docker_merge_layer :: "vfs \<Rightarrow> tar_file \<Rightarrow> vfs \<times> (scan_exc + string list)" where
  "docker_merge_layer vfs layer_tar =
     (case tf_fault layer_tar of Some e \<Rightarrow> (vfs, Inl e) | None \<Rightarrow> merge_members (tf_members layer_tar) vfs [])"

definition caught_by_layer :: "scan_exc \<Rightarrow> bool" where
  "caught_by_layer e = (case e of Key_Error _ \<Rightarrow> True | Tar_Error _ \<Rightarrow> True | OS_Error _ \<Rightarrow> True | _ \<Rightarrow> False)"

definition extract_layer :: "docker_env \<Rightarrow> outer_tar \<Rightarrow> string \<Rightarrow> vfs \<Rightarrow> vfs \<times> (scan_exc + string list)" where
  "extract_layer env outer layer_path vfs =
     (case outer layer_path of
        Inl e \<Rightarrow> (vfs, Inl e)
      | Inr None \<Rightarrow> (vfs, Inr [''Layer '' @ quoted layer_path @ '' is not a regular file, skipping''])
      | Inr (Some content) \<Rightarrow>
          (case de_open_layer env content of
             Inl e \<Rightarrow> (vfs, Inl e)
           | Inr layer_tar \<Rightarrow>
               (case docker_merge_layer vfs layer_tar of
                  (vfs, Inl e) \<Rightarrow> (vfs, Inl e)
                | (vfs, Inr layer_entries) \<Rightarrow> (apply_whiteouts vfs layer_entries, Inr []))))"

definition docker_step :: "docker_env \<Rightarrow> outer_tar \<Rightarrow> nat \<Rightarrow> json \<Rightarrow> vfs \<Rightarrow> vfs \<times> (scan_exc + string list)" where
  "docker_step env outer layer_index layer vfs =
     (case layer of
        JString layer_path \<Rightarrow>
          (case extract_layer env outer layer_path vfs of
             (vfs, Inl e) \<Rightarrow>
               (vfs, if caught_by_layer e then Inr [''Error extracting layer '' @ quoted layer_path @ '': '' @ exc_str e] else Inl e)
           | (vfs, Inr ds) \<Rightarrow> (vfs, Inr ds))
      | _ \<Rightarrow> (vfs, Inl (Other_Error ''AttributeError'')))"

definition process_docker_layers ::
  "docker_env \<Rightarrow> outer_tar \<Rightarrow> (nat \<Rightarrow> bool) \<Rightarrow> json list \<Rightarrow> scan_exc + vfs \<times> string list \<times> bool" where
  "process_docker_layers env outer is_cancelled layers =
     (case run_layers (docker_step env outer) is_cancelled 0 layers [] [] of
        Inl e \<Rightarrow> Inl e
      | Inr (vfs, diagnostics, None) \<Rightarrow> Inr (vfs, diagnostics, False)
      | Inr (vfs, diagnostics, Some layer_index) \<Rightarrow>
          Inr (vfs, diagnostics @ [''Scan cancelled during layer extraction (processed '' @ nat_str layer_index @ ''/''
            @ nat_str (length layers) @ '' layers)''], True))"

section \<open>The packages\<close>

definition parse_vfs_dpkg :: "docker_env \<Rightarrow> vfs \<Rightarrow> identified_package list option" where
  "parse_vfs_dpkg env vfs = (case dict_get vfs DPKG_STATUS_PATH of
     Some content \<Rightarrow> Some (pr_packages (parse_dpkg_status (de_decode env content))) | None \<Rightarrow> None)"

definition parse_packages_from_vfs :: "docker_env \<Rightarrow> string \<Rightarrow> string list \<Rightarrow> artifact \<Rightarrow> scan_result" where
  "parse_packages_from_vfs env content diagnostics art =
     (let parse_result = parse_dpkg_status (de_decode env content)
      in scan_result_of art (pr_packages parse_result) DPKG_METADATA (diagnostics @ pr_diagnostics parse_result))"

text \<open>The analysis reads the token once more, after the reads the loop made, one for each layer.\<close>

definition scan_filesystem_fallback ::
  "docker_env \<Rightarrow> (nat \<Rightarrow> bool) \<Rightarrow> nat \<Rightarrow> vfs \<Rightarrow> string list \<Rightarrow> artifact \<Rightarrow> scan_exc + scan_result" where
  "scan_filesystem_fallback env is_cancelled polls vfs diagnostics art =
     (case snapshot_option art of
        Inl e \<Rightarrow> Inl e
      | Inr snapshot_id \<Rightarrow>
          (case run_filesystem_analysis (de_ports env) is_cancelled (map fst vfs) snapshot_id (start_state\<lparr>ss_polls := polls\<rparr>) of
             (Inl e, _) \<Rightarrow> Inl e
           | (Inr fs, _) \<Rightarrow> Inr (scan_result_of art (fa_packages fs) FILESYSTEM_ANALYSIS (diagnostics @ fa_diagnostics fs))))"

section \<open>The scan\<close>

definition scan_layers :: "docker_env \<Rightarrow> outer_tar \<Rightarrow> (nat \<Rightarrow> bool) \<Rightarrow> artifact \<Rightarrow> json list \<Rightarrow> scan_exc + scan_result" where
  "scan_layers env outer is_cancelled art layers =
     (case process_docker_layers env outer is_cancelled layers of
        Inl e \<Rightarrow> Inl e
      | Inr (vfs, diagnostics, cancelled) \<Rightarrow>
          if cancelled then
            (case parse_vfs_dpkg env vfs of
               Some packages \<Rightarrow> Inr (scan_result_of art packages DPKG_METADATA diagnostics)
             | None \<Rightarrow> Inr (scan_result_of art [] FILESYSTEM_ANALYSIS diagnostics))
          else
            (case dict_get vfs DPKG_STATUS_PATH of
               Some content \<Rightarrow> Inr (parse_packages_from_vfs env content diagnostics art)
             | None \<Rightarrow> scan_filesystem_fallback env is_cancelled (length layers) vfs diagnostics art))"

text \<open>What the scan returns. Layers that are not a list are returned as they are: the test for a list is what tells the layers
  from a result.\<close>

datatype docker_outcome = Scanned scan_result | Not_A_Result json

definition docker_scan :: "docker_env \<Rightarrow> (nat \<Rightarrow> bool) \<Rightarrow> artifact \<Rightarrow> scan_exc + docker_outcome" where
  "docker_scan env is_cancelled art =
     (case validate_docker_artifact env art of
        Some result \<Rightarrow> Inr (Scanned result)
      | None \<Rightarrow>
          (case de_open env (ar_path art) of
             Inl (Tar_Error s) \<Rightarrow> Inr (Scanned (scan_result_of art [] DPKG_METADATA [''Invalid Docker image tarball: '' @ s]))
           | Inl (OS_Error s) \<Rightarrow> Inr (Scanned (scan_result_of art [] DPKG_METADATA [''Invalid Docker image tarball: '' @ s]))
           | Inl e \<Rightarrow> Inl e
           | Inr outer \<Rightarrow>
               (case parse_docker_manifest env outer art of
                  Inl e \<Rightarrow> Inl e
                | Inr (Inl result) \<Rightarrow> Inr (Scanned result)
                | Inr (Inr (JArray layers)) \<Rightarrow> map_sum id Scanned (scan_layers env outer is_cancelled art layers)
                | Inr (Inr other) \<Rightarrow> Inr (Not_A_Result other))))"

section \<open>The layers' effects\<close>

text \<open>What a layer of the image contributes: nothing if it cannot be opened; if a member cannot be read, the files before it
  without the layer's markers.\<close>

definition docker_effect :: "docker_env \<Rightarrow> outer_tar \<Rightarrow> json \<Rightarrow> layer_effect" where
  "docker_effect env outer layer = (case layer of
     JString path \<Rightarrow>
       (case outer path of
          Inr (Some content) \<Rightarrow>
            (case de_open_layer env content of
               Inr tar \<Rightarrow> if tf_fault tar = None then members_effect (tf_members tar) else ([], [])
             | Inl _ \<Rightarrow> ([], []))
        | _ \<Rightarrow> ([], []))
   | _ \<Rightarrow> ([], []))"

lemma apply_layer_none [simp]: "apply_layer vfs ([], []) = vfs"
  by (simp add: apply_layer_def)

lemma merge_members_apply:
  "merge_members ms vfs [] = (vfs', r) \<Longrightarrow>
     (case r of Inr es \<Rightarrow> apply_whiteouts vfs' es | Inl _ \<Rightarrow> vfs') = apply_layer vfs (members_effect ms)"
  using merge_members_vfs [of ms vfs "[]"] merge_members_isl [of ms vfs "[]"] merge_members_entries [of ms vfs "[]"]
  by (cases r) (auto simp: apply_layer_def members_effect_def)

interpretation docker: layer_step "docker_step env outer" "docker_effect env outer" for env outer
proof (unfold_locales, goal_cases)
  case (1 i layer vfs vfs' ds)
  obtain path where l: "layer = JString path"
    using 1 by (cases layer) (simp_all add: docker_step_def)
  have "fst (extract_layer env outer path vfs) = apply_layer vfs (docker_effect env outer layer)"
    by (auto simp: l extract_layer_def docker_merge_layer_def docker_effect_def dest: merge_members_apply
        split: sum.splits option.splits prod.splits)
  then show ?case using 1 by (auto simp: docker_step_def l split: prod.splits sum.splits if_splits)
qed

section \<open>Properties\<close>

lemma process_docker_layers_vfs:
  assumes "process_docker_layers env outer tok layers = Inr (vfs, diags, cancelled)"
  obtains k where "k \<le> length layers" "if cancelled then k < length layers \<and> tok k else k = length layers"
    and "vfs = foldl apply_layer [] (map (docker_effect env outer) (take k layers))"
    and "dict_get vfs = overlay (map (docker_effect env outer) (take k layers))" and "dict_wf vfs"
proof -
  obtain ds stop where run: "run_layers (docker_step env outer) tok 0 layers [] [] = Inr (vfs, ds, stop)"
    and c: "cancelled = (stop \<noteq> None)"
    using assms by (auto simp: process_docker_layers_def split: sum.splits prod.splits option.splits)
  show ?thesis
  proof (cases stop)
    case None
    then show ?thesis using that [of "length layers"] docker.run_layers_overlay [OF run] c by simp
  next
    case (Some k)
    then show ?thesis using that [of k] docker.run_layers_overlay [OF run] docker.run_layers_index [of env outer tok layers] run c
      by force
  qed
qed


text \<open>An image for the witnesses: two layers, the upper of which replaces a file and hides another.\<close>

definition example_status :: string where
  "example_status = ''Package: base'' @ [LF] @ ''Version: 1'' @ [LF] @ ''Status: install ok installed''"

definition example_docker :: docker_env where
  "example_docker = \<lparr>de_exists = \<lambda>_. True, de_isfile = \<lambda>_. True,
     de_open = \<lambda>_. Inr (\<lambda>name. if name \<in> {''manifest.json'', ''a.tar'', ''b.tar''} then Inr (Some name) else Inl (Key_Error name)),
     de_json_loads = \<lambda>_. Inr (JArray [JObject [(''Layers'', JArray [JString ''a.tar'', JString ''b.tar'', JString ''c.tar''])]]),
     de_open_layer = \<lambda>content. Inr \<lparr>tf_members =
       (if content = ''a.tar'' then [\<lparr>tm_name = ''./'', tm_isfile = False, tm_data = Inr []\<rparr>,
          \<lparr>tm_name = ''./etc/x'', tm_isfile = True, tm_data = Inr ''1''\<rparr>,
          \<lparr>tm_name = ''var/lib/dpkg/status'', tm_isfile = True, tm_data = Inr example_status\<rparr>, \<lparr>tm_name = ''./etc/y'', tm_isfile = True, tm_data = Inr ''2''\<rparr>]
        else [\<lparr>tm_name = ''etc/.wh.y'', tm_isfile = True, tm_data = Inr []\<rparr>, \<lparr>tm_name = ''etc/x'', tm_isfile = True, tm_data = Inr ''3''\<rparr>]),
       tf_fault = None\<rparr>,
     de_decode = id, de_ports = \<lparr>sp_find_owners = \<lambda>_ paths. map (\<lambda>p. (p, ''base'')) paths,
       sp_find_by_name = \<lambda>_ name. Some (''1'', ''all'', ''x'')\<rparr>\<rparr>"

definition example_outer :: outer_tar where
  "example_outer = (\<lambda>name. if name \<in> {''manifest.json'', ''a.tar'', ''b.tar''} then Inr (Some name) else Inl (Key_Error name))"

lemma example_layers:
  "process_docker_layers example_docker example_outer (\<lambda>_. False) [JString ''a.tar'', JString ''b.tar'', JString ''c.tar''] =
     Inr ([(''etc/x'', ''3''), (DPKG_STATUS_PATH, example_status)], [''Error extracting layer 'c.tar': c.tar''], False)"
  by code_simp


text \<open>The packages of a scanned image are those of its overlay: if the overlay has a dpkg status file, they are the
  packages that file lists, after the layers' diagnostics; otherwise they are inferred from the overlay's paths, each passed
  once to the contents index of the snapshot the artifact's options name. The scan raises only if the snapshot option is
  not a number or a layer raises an error the loop does not catch.\<close>

theorem docker_scan_packages:
  assumes "validate_docker_artifact env art = None" and "de_open env (ar_path art) = Inr outer"
    and "parse_docker_manifest env outer art = Inr (Inr (JArray layers))"
  defines "view \<equiv> overlay (map (docker_effect env outer) layers)"
  shows "case docker_scan env (\<lambda>_. False) art of
      Inl e \<Rightarrow> view DPKG_STATUS_PATH = None \<and> snapshot_option art = Inl e \<or>
        run_layers (docker_step env outer) (\<lambda>_. False) 0 layers [] [] = Inl e
    | Inr outcome \<Rightarrow> \<exists>result layer_diagnostics. outcome = Scanned result \<and> sc_artifact_path result = ar_path art \<and>
        (case view DPKG_STATUS_PATH of
           Some status \<Rightarrow> sc_strategy result = DPKG_METADATA \<and>
             sc_packages result = pr_packages (parse_dpkg_status (de_decode env status)) \<and>
             sc_diagnostics result = layer_diagnostics @ pr_diagnostics (parse_dpkg_status (de_decode env status))
         | None \<Rightarrow> sc_strategy result = FILESYSTEM_ANALYSIS \<and>
             (\<exists>snapshot_id paths. snapshot_option art = Inr snapshot_id \<and> distinct paths \<and> set paths = {p. view p \<noteq> None} \<and>
                sc_packages result = fa_packages (analyze_at (de_ports env) snapshot_id paths)))"
proof -
  have scan: "docker_scan env (\<lambda>_. False) art = map_sum id Scanned (scan_layers env outer (\<lambda>_. False) art layers)"
    using assms by (simp add: docker_scan_def)
  show ?thesis
  proof (cases "process_docker_layers env outer (\<lambda>_. False) layers")
    case (Inl e)
    then have "run_layers (docker_step env outer) (\<lambda>_. False) 0 layers [] [] = Inl e"
      by (auto simp: process_docker_layers_def split: sum.splits prod.splits option.splits)
    then show ?thesis by (simp add: scan scan_layers_def Inl)
  next
    case (Inr r)
    obtain vfs ds c where r: "r = (vfs, ds, c)" by (cases r)
    obtain k where k: "if c then k < length layers \<and> False else k = length layers"
      and vk: "dict_get vfs = overlay (map (docker_effect env outer) (take k layers))" and wf: "dict_wf vfs"
      by (rule process_docker_layers_vfs [OF Inr [unfolded r]])
    have loop: "process_docker_layers env outer (\<lambda>_. False) layers = Inr (vfs, ds, c)" using Inr r by simp
    have c: "\<not> c" using k by (cases c) simp_all
    have v: "dict_get vfs = view" using k c vk by (simp add: view_def)
    have keys: "{p. view p \<noteq> None} = set (map fst vfs)"
      unfolding v [symmetric] by (simp add: dom_def [symmetric] dom_map_of_conv_image_fst del: not_None_eq)
    show ?thesis
    proof (cases "view DPKG_STATUS_PATH")
      case None
      show ?thesis
      proof (cases "snapshot_option art")
        case (Inr n)
        let ?fs = "analyze_at (de_ports env) n (map fst vfs)"
        have "docker_scan env (\<lambda>_. False) art =
            Inr (Scanned (scan_result_of art (fa_packages ?fs) FILESYSTEM_ANALYSIS (ds @ fa_diagnostics ?fs)))"
          by (simp add: scan scan_layers_def loop c v None scan_filesystem_fallback_def Inr
              run_filesystem_analysis_def check_cancellation_def poll_def and_then_eqs)
        moreover have "distinct (map fst vfs)" "set (map fst vfs) = {p. view p \<noteq> None}"
          using wf keys by (simp_all add: dict_wf_def)
        ultimately show ?thesis
          using None Inr by (auto simp: scan_result_of_def simp del: set_map)
      qed (simp add: scan scan_layers_def loop c v None scan_filesystem_fallback_def)
    next
      case (Some content)
      then show ?thesis
        by (simp add: scan scan_layers_def loop c v parse_packages_from_vfs_def scan_result_of_def Let_def)
    qed
  qed
qed

definition example_artifact :: artifact where
  "example_artifact = \<lparr>ar_type = DOCKER, ar_path = ''/image.tar'', ar_options = []\<rparr>"

theorem docker_scan_packages_witness:
  "\<exists>result. docker_scan example_docker (\<lambda>_. False) example_artifact = Inr (Scanned result) \<and>
     sc_strategy result = DPKG_METADATA \<and> sc_packages result = pr_packages (parse_dpkg_status example_status)"
proof -
  let ?layers = "[JString ''a.tar'', JString ''b.tar'', JString ''c.tar'']"
  have "validate_docker_artifact example_docker example_artifact = None"
    and "de_open example_docker (ar_path example_artifact) = Inr example_outer"
    and "parse_docker_manifest example_docker example_outer example_artifact = Inr (Inr (JArray ?layers))"
    by (simp_all add: validate_docker_artifact_def example_docker_def example_outer_def) code_simp
  note spec = docker_scan_packages [OF this]
  have "overlay (map (docker_effect example_docker example_outer) ?layers) DPKG_STATUS_PATH = Some example_status"
    and "run_layers (docker_step example_docker example_outer) (\<lambda>_. False) 0 ?layers [] [] \<noteq> Inl e"
    and "de_decode example_docker example_status = example_status" for e
    by code_simp+
  with spec show ?thesis by (auto split: sum.splits)
qed

section \<open>What the loop does not do\<close>

text \<open>A higher layer that replaces a file by anything but a regular file, as a symbolic link or a hard link, leaves the lower
  layer's content in the merged file system.\<close>

lemma link_keeps_stale_content:
  "dict_get (foldl apply_layer []
     [members_effect [\<lparr>tm_name = ''var/lib/dpkg/status'', tm_isfile = True, tm_data = Inr ''old''\<rparr>],
      members_effect [\<lparr>tm_name = ''var/lib/dpkg/status'', tm_isfile = False, tm_data = Inr []\<rparr>]]) DPKG_STATUS_PATH = Some ''old''"
  by code_simp

text \<open>A manifest member that the archive library cannot read raises its error out of the scan, which handles that error
  everywhere else.\<close>

lemma unreadable_manifest_raises:
  assumes "validate_docker_artifact env art = None" and "de_open env (ar_path art) = Inr outer"
    and "outer ''manifest.json'' = Inl (Tar_Error msg)"
  shows "docker_scan env tok art = Inl (Tar_Error msg)"
  using assms by (simp add: docker_scan_def parse_docker_manifest_def load_manifest_def)

text \<open>Layers that are an object are returned in place of a result.\<close>

lemma layers_object_returned:
  assumes "validate_docker_artifact env art = None" and "de_open env (ar_path art) = Inr outer"
    and "load_manifest env outer = Inr (Some (JArray [JObject [(''Layers'', JObject [(''a'', JNull)])]]))"
  shows "docker_scan env tok art = Inr (Not_A_Result (JObject [(''a'', JNull)]))"
  using assms by (simp add: docker_scan_def parse_docker_manifest_def json_get_def)

end
