(* ===== verification/Oci_Scanner.thy ===== *)
theory Oci_Scanner
  imports Docker_Scanner
begin

text \<open>
  The scanner of OCI image layouts (\<open>src/debcraft/infrastructure/scanners/oci.py\<close>): the checks of the layout, the blob of a
  digest, the layers by media type, and the packages of the merged file system. The file system, the JSON reader and the
  decompressors are parameters. The two image scanners are compared at the end.
\<close>

section \<open>The environment\<close>

text \<open>\<open>oe_zstd\<close> is \<open>None\<close> when the package \<open>zstandard\<close> is not installed; \<open>oe_str\<close> is \<open>str\<close> on
  documents that are not texts; \<open>oe_utf8\<close> decodes, or gives the error's message.\<close>

record oci_env =
  oe_exists :: "string \<Rightarrow> bool"
  oe_read_text :: "string \<Rightarrow> scan_exc + string"
  oe_read_bytes :: "string \<Rightarrow> scan_exc + string"
  oe_json_loads :: "string \<Rightarrow> scan_exc + json"
  oe_str :: "json \<Rightarrow> string"
  oe_gunzip :: "string \<Rightarrow> scan_exc + string"
  oe_zstd :: "(string \<Rightarrow> scan_exc + string) option"
  oe_open_tar :: "string \<Rightarrow> scan_exc + tar_file"
  oe_utf8 :: "string \<Rightarrow> string + string"

definition json_str :: "oci_env \<Rightarrow> json \<Rightarrow> string" where
  "json_str env j = (case j of JString s \<Rightarrow> s | _ \<Rightarrow> oe_str env j)"

definition GZIP_LAYER :: string where "GZIP_LAYER = ''application/vnd.oci.image.layer.v1.tar+gzip''"
definition ZSTD_LAYER :: string where "ZSTD_LAYER = ''application/vnd.oci.image.layer.v1.tar+zstd''"

section \<open>The layout\<close>

text \<open>A document is read from a file; \<open>OSError\<close> and \<open>JSONDecodeError\<close> become the message, other errors are raised. A text that is
  not UTF-8 raises \<open>UnicodeDecodeError\<close>, which is neither.\<close>

definition read_document :: "oci_env \<Rightarrow> string \<Rightarrow> string \<Rightarrow> scan_exc + (string + json)" where
  "read_document env msg path =
     (case (case oe_read_text env path of Inl e \<Rightarrow> Inl e | Inr content \<Rightarrow> oe_json_loads env content) of
        Inl (OS_Error s) \<Rightarrow> Inr (Inl (msg @ s))
      | Inl (JSON_Error s) \<Rightarrow> Inr (Inl (msg @ s))
      | Inl e \<Rightarrow> Inl e
      | Inr document \<Rightarrow> Inr (Inr document))"

definition check_oci_layout :: "oci_env \<Rightarrow> string \<Rightarrow> scan_exc + string option" where
  "check_oci_layout env layout_dir =
     (let oci_layout_path = path_join layout_dir ''oci-layout'' in
      if \<not> oe_exists env oci_layout_path then Inr (Some ''Invalid OCI layout: missing oci-layout file'')
      else
        (case read_document env ''Invalid OCI layout: cannot read oci-layout file: '' oci_layout_path of
           Inl e \<Rightarrow> Inl e
         | Inr (Inl msg) \<Rightarrow> Inr (Some msg)
         | Inr (Inr oci_layout) \<Rightarrow>
             (case json_get oci_layout ''imageLayoutVersion'' JNull of
                Inl e \<Rightarrow> Inl e
              | Inr layout_version \<Rightarrow>
                  if layout_version \<noteq> JString ''1.0.0''
                  then Inr (Some (''Invalid OCI layout: unsupported imageLayoutVersion '' @ quoted (json_str env layout_version)
                    @ '' (expected '1.0.0')''))
                  else Inr None)))"

text \<open>\<open>_read_oci_index\<close> gives a message or the manifests, whose type is not checked: a text is taken for a message.\<close>

definition read_oci_index :: "oci_env \<Rightarrow> string \<Rightarrow> scan_exc + (string + json)" where
  "read_oci_index env layout_dir =
     (let index_path = path_join layout_dir ''index.json'' in
      if \<not> oe_exists env index_path then Inr (Inl ''Invalid OCI layout: missing index.json'')
      else
        (case read_document env ''Invalid OCI layout: cannot read index.json: '' index_path of
           Inl e \<Rightarrow> Inl e
         | Inr (Inl msg) \<Rightarrow> Inr (Inl msg)
         | Inr (Inr index_data) \<Rightarrow>
             (case json_get index_data ''manifests'' (JArray []) of
                Inl e \<Rightarrow> Inl e
              | Inr manifests \<Rightarrow>
                  if \<not> json_truthy manifests then Inr (Inl ''Invalid OCI layout: index.json contains no manifests'')
                  else (case manifests of JString s \<Rightarrow> Inr (Inl s) | _ \<Rightarrow> Inr (Inr manifests)))))"

text \<open>The blob of a digest: a value that is not a text raises, unless it is a list or an object without a colon.\<close>

definition digest_to_blob_path :: "string \<Rightarrow> json \<Rightarrow> scan_exc + string option" where
  "digest_to_blob_path layout_dir digest =
     (case digest of
        JString s \<Rightarrow>
          Inr (if CHR '':'' \<notin> set s then None
               else Some (path_join (path_join (path_join layout_dir ''blobs'') (before CHR '':'' s)) (after CHR '':'' s)))
      | JArray xs \<Rightarrow> if JString '':'' \<in> set xs then Inl (Other_Error ''AttributeError'') else Inr None
      | JObject d \<Rightarrow> if '':'' \<in> fst ` set d then Inl (Other_Error ''AttributeError'') else Inr None
      | _ \<Rightarrow> Inl (Other_Error ''TypeError''))"

definition read_manifest_layers :: "oci_env \<Rightarrow> string \<Rightarrow> json \<Rightarrow> scan_exc + (string + json)" where
  "read_manifest_layers env layout_dir manifest_descriptor =
     (case json_get manifest_descriptor ''digest'' (JString []) of
        Inl e \<Rightarrow> Inl e
      | Inr manifest_digest \<Rightarrow>
          (case digest_to_blob_path layout_dir manifest_digest of
             Inl e \<Rightarrow> Inl e
           | Inr manifest_blob_path \<Rightarrow>
               (case (case manifest_blob_path of Some path \<Rightarrow> if oe_exists env path then Some path else None | None \<Rightarrow> None) of
                  None \<Rightarrow> Inr (Inl (''Invalid OCI layout: manifest blob not found for digest '' @ quoted (json_str env manifest_digest)))
                | Some path \<Rightarrow>
                    (case read_document env ''Invalid OCI layout: cannot read manifest blob: '' path of
                       Inl e \<Rightarrow> Inl e
                     | Inr (Inl msg) \<Rightarrow> Inr (Inl msg)
                     | Inr (Inr manifest_data) \<Rightarrow>
                         (case json_get manifest_data ''layers'' (JArray []) of
                            Inl e \<Rightarrow> Inl e
                          | Inr (JString s) \<Rightarrow> Inr (Inl s)
                          | Inr layers \<Rightarrow> Inr (Inr layers))))))"

definition first_element :: "json \<Rightarrow> scan_exc + json" where
  "first_element j = (case j of
     JArray (x # _) \<Rightarrow> Inr x
   | JObject _ \<Rightarrow> Inl (Key_Error ''0'')
   | JArray [] \<Rightarrow> Inl (Other_Error ''IndexError'')
   | _ \<Rightarrow> Inl (Other_Error ''TypeError''))"

definition validate_oci_artifact :: "oci_env \<Rightarrow> string \<Rightarrow> scan_exc + (string + json)" where
  "validate_oci_artifact env layout_dir =
     (case check_oci_layout env layout_dir of
        Inl e \<Rightarrow> Inl e
      | Inr (Some layout_error) \<Rightarrow> Inr (Inl layout_error)
      | Inr None \<Rightarrow>
          (case read_oci_index env layout_dir of
             Inl e \<Rightarrow> Inl e
           | Inr (Inl msg) \<Rightarrow> Inr (Inl msg)
           | Inr (Inr index_result) \<Rightarrow>
               (case first_element index_result of
                  Inl e \<Rightarrow> Inl e
                | Inr manifest_descriptor \<Rightarrow> read_manifest_layers env layout_dir manifest_descriptor)))"

section \<open>The layers\<close>

text \<open>Members are stored as the archive is read: what comes before damage stays.\<close>

definition oci_merge_layer :: "vfs \<Rightarrow> tar_file \<Rightarrow> vfs \<times> (scan_exc + unit)" where
  "oci_merge_layer vfs tf =
     (case merge_members (tf_members tf) vfs [] of
        (vfs, Inl e) \<Rightarrow> (vfs, Inl e)
      | (vfs, Inr layer_entries) \<Rightarrow>
          (case tf_fault tf of Some e \<Rightarrow> (vfs, Inl e) | None \<Rightarrow> (apply_whiteouts vfs layer_entries, Inr ())))"

definition decompress_layer :: "oci_env \<Rightarrow> string \<Rightarrow> string \<Rightarrow> scan_exc + string option \<times> string list" where
  "decompress_layer env data media_type =
     (if media_type = GZIP_LAYER then map_sum id (\<lambda>d. (Some d, [])) (oe_gunzip env data)
      else if media_type = ZSTD_LAYER then
        (case oe_zstd env of
           Some decompress \<Rightarrow> map_sum id (\<lambda>d. (Some d, [])) (decompress data)
         | None \<Rightarrow> Inr (None, [''Cannot decompress zstd layer: 'zstandard' package is not installed. ''
             @ ''Install with: pip install zstandard'']))
      else Inr (None, []))"

definition extract_oci_layer :: "oci_env \<Rightarrow> string \<Rightarrow> string \<Rightarrow> vfs \<Rightarrow> vfs \<times> string list \<times> scan_exc option" where
  "extract_oci_layer env path media_type vfs =
     (case (case oe_read_bytes env path of Inl e \<Rightarrow> Inl e | Inr layer_data \<Rightarrow> decompress_layer env layer_data media_type) of
        Inl e \<Rightarrow> (vfs, [], Some e)
      | Inr (None, ds) \<Rightarrow> (vfs, ds, None)
      | Inr (Some tar_data, ds) \<Rightarrow>
          (case oe_open_tar env tar_data of
             Inl e \<Rightarrow> (vfs, ds, Some e)
           | Inr tf \<Rightarrow>
               (case oci_merge_layer vfs tf of
                  (vfs, Inl e) \<Rightarrow> (vfs, ds, Some e)
                | (vfs, Inr _) \<Rightarrow> (vfs, ds, None))))"

text \<open>The guards of the loop body: the blob to extract with its media type, or the reason the layer is skipped.\<close>

definition layer_blob :: "oci_env \<Rightarrow> string \<Rightarrow> json \<Rightarrow> scan_exc + (string + string \<times> string)" where
  "layer_blob env layout_dir layer_descriptor =
     (case (json_get layer_descriptor ''mediaType'' (JString []), json_get layer_descriptor ''digest'' (JString [])) of
        (Inr media_type, Inr layer_digest) \<Rightarrow>
          (case media_type of
             JArray _ \<Rightarrow> Inl (Other_Error ''TypeError'')
           | JObject _ \<Rightarrow> Inl (Other_Error ''TypeError'')
           | _ \<Rightarrow>
             if media_type \<notin> {JString GZIP_LAYER, JString ZSTD_LAYER}
             then Inr (Inl (''unsupported media type '' @ quoted (json_str env media_type)))
             else
               (case digest_to_blob_path layout_dir layer_digest of
                  Inl e \<Rightarrow> Inl e
                | Inr layer_blob_path \<Rightarrow>
                    (case (case layer_blob_path of Some path \<Rightarrow> if oe_exists env path then Some path else None | None \<Rightarrow> None) of
                       None \<Rightarrow> Inr (Inl (''blob not found for digest '' @ quoted (json_str env layer_digest)))
                     | Some path \<Rightarrow> Inr (Inr (path, json_str env media_type)))))
      | (Inl e, _) \<Rightarrow> Inl e
      | (_, Inl e) \<Rightarrow> Inl e)"

definition oci_step :: "oci_env \<Rightarrow> string \<Rightarrow> nat \<Rightarrow> json \<Rightarrow> vfs \<Rightarrow> vfs \<times> (scan_exc + string list)" where
  "oci_step env layout_dir layer_index layer_descriptor vfs =
     (case layer_blob env layout_dir layer_descriptor of
        Inl e \<Rightarrow> (vfs, Inl e)
      | Inr (Inl reason) \<Rightarrow> (vfs, Inr [''Skipping layer '' @ nat_str layer_index @ '': '' @ reason])
      | Inr (Inr (path, media_type)) \<Rightarrow>
          (case extract_oci_layer env path media_type vfs of
             (vfs, ds, error) \<Rightarrow>
               (vfs, (case error of
                  None \<Rightarrow> Inr ds
                | Some (OS_Error s) \<Rightarrow> Inr (ds @ [''Error extracting layer '' @ nat_str layer_index @ '': '' @ s])
                | Some (Tar_Error s) \<Rightarrow> Inr (ds @ [''Error extracting layer '' @ nat_str layer_index @ '': '' @ s])
                | Some e \<Rightarrow> Inl e))))"

definition extract_oci_layers ::
  "oci_env \<Rightarrow> string \<Rightarrow> (nat \<Rightarrow> bool) \<Rightarrow> json list \<Rightarrow> scan_exc + (vfs \<times> string list) option" where
  "extract_oci_layers env layout_dir is_cancelled layers =
     (case run_layers (oci_step env layout_dir) is_cancelled 0 layers [] [] of
        Inl e \<Rightarrow> Inl e
      | Inr (vfs, diagnostics, None) \<Rightarrow> Inr (Some (vfs, diagnostics))
      | Inr (vfs, diagnostics, Some _) \<Rightarrow> Inr None)"

section \<open>The scan\<close>

definition parse_dpkg_status_from_layers :: "oci_env \<Rightarrow> vfs \<Rightarrow> string list \<Rightarrow> identified_package list \<times> string list" where
  "parse_dpkg_status_from_layers env vfs diagnostics =
     (case dict_get vfs DPKG_STATUS_PATH of
        None \<Rightarrow> ([], diagnostics @ [''dpkg status file not found at var/lib/dpkg/status in merged layer filesystem''])
      | Some content \<Rightarrow>
          (case oe_utf8 env content of
             Inl msg \<Rightarrow> ([], diagnostics @ [''Cannot decode dpkg status file: '' @ msg])
           | Inr status_content \<Rightarrow>
               (let parse_result = parse_dpkg_status status_content
                in (pr_packages parse_result, diagnostics @ pr_diagnostics parse_result))))"

definition scan_oci_layers :: "oci_env \<Rightarrow> (nat \<Rightarrow> bool) \<Rightarrow> artifact \<Rightarrow> string \<Rightarrow> json list \<Rightarrow> scan_exc + scan_result" where
  "scan_oci_layers env is_cancelled art layout_dir layers =
     (case extract_oci_layers env layout_dir is_cancelled layers of
        Inl e \<Rightarrow> Inl e
      | Inr None \<Rightarrow> Inr (scan_result_of art [] DPKG_METADATA [''Scan cancelled during layer extraction''])
      | Inr (Some (vfs, diagnostics)) \<Rightarrow>
          (case parse_dpkg_status_from_layers env vfs diagnostics of
             (packages, diagnostics) \<Rightarrow> Inr (scan_result_of art packages DPKG_METADATA diagnostics)))"

text \<open>The scan takes the layers for messages when the first of them is a text; other values that are not lists raise.\<close>

definition oci_scan :: "oci_env \<Rightarrow> (nat \<Rightarrow> bool) \<Rightarrow> artifact \<Rightarrow> scan_exc + scan_result" where
  "oci_scan env is_cancelled art =
     (let layout_dir = path_of (ar_path art) in
      case validate_oci_artifact env layout_dir of
        Inl e \<Rightarrow> Inl e
      | Inr (Inl msg) \<Rightarrow> Inr (scan_result_of art [] DPKG_METADATA [msg])
      | Inr (Inr (JArray (JString s # rest))) \<Rightarrow> Inr (scan_result_of art [] DPKG_METADATA (map (json_str env) (JString s # rest)))
      | Inr (Inr (JArray layers)) \<Rightarrow> scan_oci_layers env is_cancelled art layout_dir layers
      | Inr (Inr (JObject [])) \<Rightarrow> scan_oci_layers env is_cancelled art layout_dir []
      | Inr (Inr (JObject _)) \<Rightarrow> Inl (Key_Error ''0'')
      | Inr (Inr _) \<Rightarrow> Inl (Other_Error ''TypeError''))"

section \<open>The layers' effects\<close>

definition blob_effect :: "oci_env \<Rightarrow> string \<Rightarrow> string \<Rightarrow> layer_effect" where
  "blob_effect env path media_type =
     (case oe_read_bytes env path of
        Inl _ \<Rightarrow> ([], [])
      | Inr data \<Rightarrow>
          (case decompress_layer env data media_type of
             Inr (Some tar_data, _) \<Rightarrow>
               (case oe_open_tar env tar_data of
                  Inl _ \<Rightarrow> ([], [])
                | Inr tf \<Rightarrow> if tf_fault tf = None then members_effect (tf_members tf) else (stored_files (tf_members tf), []))
           | _ \<Rightarrow> ([], [])))"

definition oci_effect :: "oci_env \<Rightarrow> string \<Rightarrow> json \<Rightarrow> layer_effect" where
  "oci_effect env layout_dir layer =
     (case layer_blob env layout_dir layer of
        Inr (Inr (path, media_type)) \<Rightarrow> blob_effect env path media_type | _ \<Rightarrow> ([], []))"

lemma oci_merge_layer_vfs:
  "fst (oci_merge_layer vfs tf) =
     apply_layer vfs (if tf_fault tf = None then members_effect (tf_members tf) else (stored_files (tf_members tf), []))"
  using merge_members_apply [of "tf_members tf" vfs] merge_members_vfs [of "tf_members tf" vfs "[]"]
  by (auto simp: oci_merge_layer_def apply_layer_def split: prod.splits sum.splits option.splits)

lemma extract_oci_layer_vfs: "fst (extract_oci_layer env path mt vfs) = apply_layer vfs (blob_effect env path mt)"
proof (cases "oe_read_bytes env path")
  case (Inr data)
  show ?thesis
  proof (cases "decompress_layer env data mt")
    case d: (Inr r)
    obtain tar_data ds where r: "r = (tar_data, ds)" by (cases r)
    show ?thesis
    proof (cases tar_data)
      case (Some t)
      then show ?thesis
        using oci_merge_layer_vfs [of vfs "projr (oe_open_tar env t)"]
        by (cases "oe_open_tar env t")
          (auto simp: extract_oci_layer_def blob_effect_def Inr d r split: prod.splits sum.splits)
    qed (simp add: extract_oci_layer_def blob_effect_def Inr d r)
  qed (simp add: extract_oci_layer_def blob_effect_def Inr)
qed (simp add: extract_oci_layer_def blob_effect_def)

interpretation oci: layer_step "oci_step env layout_dir" "oci_effect env layout_dir" for env layout_dir
proof (unfold_locales, goal_cases)
  case (1 i layer vfs vfs' ds)
  then show ?case
    using extract_oci_layer_vfs [of env _ _ vfs]
    by (auto simp: oci_step_def oci_effect_def split: sum.splits prod.splits) (metis fst_conv)
qed

section \<open>The two image formats\<close>

text \<open>The layer of an image is the given archive.\<close>

definition docker_layer_is :: "docker_env \<Rightarrow> outer_tar \<Rightarrow> json \<Rightarrow> tar_file \<Rightarrow> bool" where
  "docker_layer_is env outer layer tf \<longleftrightarrow>
     (case layer of
        JString path \<Rightarrow> (case outer path of Inr (Some content) \<Rightarrow> de_open_layer env content = Inr tf | _ \<Rightarrow> False)
      | _ \<Rightarrow> False)"

definition oci_layer_is :: "oci_env \<Rightarrow> string \<Rightarrow> json \<Rightarrow> tar_file \<Rightarrow> bool" where
  "oci_layer_is env layout_dir layer tf \<longleftrightarrow>
     (case layer_blob env layout_dir layer of
        Inr (Inr (path, media_type)) \<Rightarrow>
          (case oe_read_bytes env path of
             Inr data \<Rightarrow>
               (case decompress_layer env data media_type of Inr (Some tar_data, _) \<Rightarrow> oe_open_tar env tar_data = Inr tf | _ \<Rightarrow> False)
           | _ \<Rightarrow> False)
      | _ \<Rightarrow> False)"

lemma docker_step_intact:
  assumes "docker_layer_is env outer layer tf" and "intact tf"
  shows "docker_step env outer i layer vfs = (apply_layer vfs (members_effect (tf_members tf)), Inr [])"
  using assms
  by (auto simp: docker_layer_is_def docker_step_def extract_layer_def docker_merge_layer_def intact_merge intact_apply
      split: json.splits sum.splits option.splits) (simp_all add: intact_def)

lemma decompress_layer_quiet: "decompress_layer env data mt = Inr (Some t, ds) \<Longrightarrow> ds = []"
  by (auto simp: decompress_layer_def map_sum_def split: if_splits option.splits sum.splits)

lemma oci_step_intact:
  assumes "oci_layer_is env dir layer tf" and "intact tf"
  shows "oci_step env dir i layer vfs = (apply_layer vfs (members_effect (tf_members tf)), Inr [])"
proof -
  obtain path mt where "layer_blob env dir layer = Inr (Inr (path, mt))"
    using assms(1) by (auto simp: oci_layer_is_def split: sum.split_asm)
  moreover from this obtain data where "oe_read_bytes env path = Inr data"
    using assms(1) by (cases "oe_read_bytes env path") (auto simp: oci_layer_is_def)
  moreover from calculation obtain t ds where d: "decompress_layer env data mt = Inr (Some t, ds)" and "oe_open_tar env t = Inr tf"
    using assms(1) by (auto simp: oci_layer_is_def split: sum.split_asm option.split_asm)
  moreover have "tf_fault tf = None" using assms(2) by (simp add: intact_def)
  ultimately show ?thesis
    using decompress_layer_quiet [OF d] assms(2)
    by (simp add: oci_step_def extract_oci_layer_def oci_merge_layer_def intact_merge intact_apply)
qed

lemma run_layers_intact:
  assumes "list_all2 (\<lambda>layer tf. intact tf \<and>
      (\<forall>i vfs. step i layer vfs = (apply_layer vfs (members_effect (tf_members tf)), Inr []))) layers tars"
  shows "run_layers step (\<lambda>_. False) i layers vfs ds =
    Inr (foldl apply_layer vfs (map (members_effect \<circ> tf_members) tars), ds, None)"
  using assms by (induction layers tars arbitrary: i vfs rule: list_all2_induct) simp_all


definition example_oci :: oci_env where
  "example_oci = \<lparr>oe_exists = \<lambda>_. True, oe_read_text = \<lambda>path. Inr path, oe_read_bytes = \<lambda>path. Inr (path_name path),
     oe_json_loads = \<lambda>_. Inr JNull, oe_str = \<lambda>_. [], oe_gunzip = Inr, oe_zstd = None,
     oe_open_tar = \<lambda>data. if data = ''a'' then de_open_layer example_docker ''a.tar'' else de_open_layer example_docker ''b.tar'',
     oe_utf8 = Inr\<rparr>"

definition example_descriptor :: "string \<Rightarrow> json" where
  "example_descriptor name = JObject [(''mediaType'', JString GZIP_LAYER), (''digest'', JString (''sha256:'' @ name))]"


section \<open>What the checks let through\<close>

text \<open>A digest is not checked: an absolute path after the colon leaves the layout's directory.\<close>

lemma digest_outside_layout:
  "digest_to_blob_path ''/layout'' (JString ''sha256:/etc/shadow'') = Inr (Some ''/etc/shadow'')"
  by code_simp

text \<open>A layer whose decompression raises \<open>EOFError\<close> or \<open>zlib.error\<close>, which a truncated or damaged gzip stream does, ends the scan
  with that exception: the loop catches only \<open>OSError\<close> and the archive library's error.\<close>

lemma truncated_layer_ends_scan:
  assumes "layer_blob env dir layer = Inr (Inr (path, GZIP_LAYER))" and "oe_read_bytes env path = Inr data"
    and "oe_gunzip env data = Inl (Other_Error ''EOFError'')"
  shows "extract_oci_layers env dir (\<lambda>_. False) (layer # layers) = Inl (Other_Error ''EOFError'')"
  using assms by (simp add: extract_oci_layers_def oci_step_def extract_oci_layer_def decompress_layer_def)

text \<open>The layer that fails inside the archive stays in the merged file system without its markers.\<close>

lemma damaged_layer_half_applied:
  assumes "tf_members tf = [\<lparr>tm_name = ''a'', tm_isfile = True, tm_data = Inr c\<rparr>, \<lparr>tm_name = ''.wh.b'', tm_isfile = True, tm_data = Inr []\<rparr>]"
    and "tf_fault tf = Some e"
  shows "oci_merge_layer [(''b'', ''old'')] tf = ([(''b'', ''old''), (''a'', c), (''.wh.b'', [])], Inl e)"
  using assms by (simp add: oci_merge_layer_def normalize_tar_member_name_def removeprefix_def lstrip_of_def Let_def)

end
