(* ===== verification/Iso_Scanner.thy ===== *)
theory Iso_Scanner
  imports Scanner_Mixin
begin

text \<open>
  The ISO scanner (\<open>src/debcraft/infrastructure/scanners/iso.py\<close>): the squashfs root file system if there is one, else the
  package repository on the medium, else a dpkg status file at its root, else the analysis of its paths. The two readers, gzip
  and the decoder with replacement characters are parameters. An open reader is an event of the scan's state, so that the
  theorems can say that each is closed.
\<close>

section \<open>The environment\<close>

record iso_env =
  iso_open :: "string \<Rightarrow> scan_exc option"
  iso_list_dir :: "string \<Rightarrow> scan_exc + string list"
  iso_read_file :: "string \<Rightarrow> scan_exc + string"
  sq_open :: "string \<Rightarrow> scan_exc option"
  sq_list_dir :: "string \<Rightarrow> string \<Rightarrow> scan_exc + string list"
  sq_read_file :: "string \<Rightarrow> string \<Rightarrow> scan_exc + string"
  iso_gunzip :: "string \<Rightarrow> scan_exc + string"
  iso_decode :: "string \<Rightarrow> string"
  iso_ports :: scan_ports
  recursion_limit :: nat

definition SQUASHFS_SEARCH_PATHS :: "string list" where
  "SQUASHFS_SEARCH_PATHS = [''live/filesystem.squashfs'', ''casper/filesystem.squashfs'', ''install/filesystem.squashfs'']"

text \<open>Reading with \<open>except OSError\<close>.\<close>

definition or_none :: "scan_exc + 'a \<Rightarrow> scan_exc + 'a option" where
  "or_none r = (case r of Inr x \<Rightarrow> Inr (Some x) | Inl e \<Rightarrow> if is_os_error e then Inr None else Inl e)"

section \<open>Walking a file system\<close>

text \<open>Both walks have this shape. The interpreter's limit on nested calls is the fuel: a walk that exceeds it raises.\<close>

definition child :: "string \<Rightarrow> string \<Rightarrow> string" where
  "child directory entry = (if directory \<noteq> [] then directory @ ''/'' @ entry else entry)"

fun walk :: "(string \<Rightarrow> scan_exc + string list) \<Rightarrow> nat \<Rightarrow> string \<Rightarrow> string list \<Rightarrow> scan_exc + string list" where
  "walk list_dir 0 directory file_paths = Inl (Runtime_Error ''RecursionError'')"
| "walk list_dir (Suc depth) directory file_paths =
     (case list_dir directory of
        Inl e \<Rightarrow> if is_os_error e then Inr file_paths else Inl e
      | Inr entries \<Rightarrow>
          fold_exc (\<lambda>entry file_paths.
            case list_dir (child directory entry) of
              Inl e \<Rightarrow> if is_os_error e then Inr (file_paths @ [''/'' @ child directory entry]) else Inl e
            | Inr _ \<Rightarrow> walk list_dir depth (child directory entry) file_paths) entries file_paths)"

section \<open>Repositories\<close>

definition find_squashfs :: "iso_env \<Rightarrow> scan_exc + string option" where
  "find_squashfs env = foldr (\<lambda>path rest. case or_none (iso_read_file env path) of
     Inl e \<Rightarrow> Inl e | Inr (Some data) \<Rightarrow> Inr (Some data) | Inr None \<Rightarrow> rest) SQUASHFS_SEARCH_PATHS (Inr None)"

definition has_repository_structure :: "iso_env \<Rightarrow> scan_state \<Rightarrow> bool scanned" where
  "has_repository_structure env st =
     (case or_none (iso_list_dir env []) of
        Inl e \<Rightarrow> (Inl e, st)
      | Inr None \<Rightarrow> (Inr False, st)
      | Inr (Some root_entries) \<Rightarrow>
          if ''dists'' \<in> set root_entries
          then (Inr True, note_all [''Repository structure detected: dists/ directory found at ISO root''] st)
          else (Inr False, st))"

text \<open>Listing a directory of the repository: a failure is a diagnostic and an empty listing.\<close>

type_synonym found = "string list \<times> string list"

definition in_directory :: "iso_env \<Rightarrow> string \<Rightarrow> (string list \<Rightarrow> found \<Rightarrow> scan_exc + found) \<Rightarrow> found \<Rightarrow> scan_exc + found" where
  "in_directory env path body acc =
     (case iso_list_dir env path of
        Inr entries \<Rightarrow> body entries acc
      | Inl e \<Rightarrow> if is_os_error e then Inr (fst acc, snd acc @ [''Failed to list directory: '' @ path @ '': '' @ exc_str e])
          else Inl e)"

definition visit_arch :: "iso_env \<Rightarrow> string \<Rightarrow> string \<Rightarrow> found \<Rightarrow> scan_exc + found" where
  "visit_arch env component_path arch_entry acc =
     (if \<not> startswith arch_entry ''binary-'' then Inr acc
      else (let arch_path = component_path @ ''/'' @ arch_entry in
        in_directory env arch_path (\<lambda>arch_contents acc.
          Inr (if ''Packages.gz'' \<in> set arch_contents then (fst acc @ [arch_path @ ''/Packages.gz''], snd acc)
               else if ''Packages'' \<in> set arch_contents then (fst acc @ [arch_path @ ''/Packages''], snd acc)
               else acc)) acc))"

definition visit_component :: "iso_env \<Rightarrow> string \<Rightarrow> string \<Rightarrow> found \<Rightarrow> scan_exc + found" where
  "visit_component env codename_path component acc =
     (if component \<in> {''Release'', ''InRelease''} then Inr acc
      else (let component_path = codename_path @ ''/'' @ component in
        in_directory env component_path (fold_exc (visit_arch env component_path)) acc))"

definition visit_codename :: "iso_env \<Rightarrow> string \<Rightarrow> found \<Rightarrow> scan_exc + found" where
  "visit_codename env codename acc =
     (let codename_path = ''dists/'' @ codename in
      in_directory env codename_path (fold_exc (visit_component env codename_path)) acc)"

definition discover_packages_files :: "iso_env \<Rightarrow> scan_state \<Rightarrow> string list scanned" where
  "discover_packages_files env st =
     (case iso_list_dir env ''dists'' of
        Inl e \<Rightarrow>
          if is_os_error e then (Inr [], note_all [''Failed to list directory: dists: '' @ exc_str e] st) else (Inl e, st)
      | Inr codenames \<Rightarrow>
          (case fold_exc (visit_codename env) codenames ([], []) of
             Inl e \<Rightarrow> (Inl e, st)
           | Inr (packages_files, ds) \<Rightarrow>
               (Inr packages_files,
                note_all (ds @ (if packages_files = [] then [''No Packages files found in repository structure''] else [])) st)))"

text \<open>One stanza of a Packages file: a package, or the diagnostic that says what is missing.\<close>

definition stanza_package :: "string \<Rightarrow> nat \<Rightarrow> string \<Rightarrow> string + identified_package" where
  "stanza_package path n stanza_text =
     (let fields_of = dict_get (rev (parse_stanza_fields_ordered stanza_text));
          skipped = (\<lambda>field. Inl (''Stanza '' @ nat_str n @ '' in '' @ path @ '': skipped, missing field: '' @ field))
      in case fields_of ''Package'' of
           None \<Rightarrow> skipped ''Package''
         | Some package_name \<Rightarrow>
             if package_name = [] then skipped ''Package''
             else
               (case fields_of ''Version'' of
                  None \<Rightarrow> skipped ''Version''
                | Some version \<Rightarrow>
                    if version = [] then skipped ''Version''
                    else Inr \<lparr>ip_name = package_name, ip_version = version,
                      ip_architecture = (case fields_of ''Architecture'' of Some a \<Rightarrow> a | None \<Rightarrow> []),
                      ip_status = ''installed''\<rparr>))"

definition parse_iso_packages_file :: "iso_env \<Rightarrow> string \<Rightarrow> scan_state \<Rightarrow> identified_package list scanned" where
  "parse_iso_packages_file env path st =
     (case iso_read_file env path of
        Inl e \<Rightarrow> if is_os_error e then (Inr [], note_all [''Failed to read '' @ path @ '': '' @ exc_str e] st) else (Inl e, st)
      | Inr raw_bytes \<Rightarrow>
          (case (if endswith path ''.gz'' then iso_gunzip env raw_bytes else Inr raw_bytes) of
             Inl e \<Rightarrow>
               if is_os_error e then (Inr [], note_all [''Failed to decompress '' @ path @ '': '' @ exc_str e] st) else (Inl e, st)
           | Inr raw_bytes \<Rightarrow>
               (let stanzas = split_stanzas (iso_decode env raw_bytes);
                    parsed = map (\<lambda>(n, text). stanza_package path n text) (zip [1..<Suc (length stanzas)] stanzas)
                in (Inr (List.map_filter (\<lambda>r. case r of Inr p \<Rightarrow> Some p | Inl _ \<Rightarrow> None) parsed),
                    note_all (List.map_filter (\<lambda>r. case r of Inl d \<Rightarrow> Some d | Inr _ \<Rightarrow> None) parsed) st))))"

text \<open>The loop over the files. Cancellation ends it with the packages so far; \<open>True\<close> says so.\<close>

fun parse_packages_files ::
  "iso_env \<Rightarrow> (nat \<Rightarrow> bool) \<Rightarrow> artifact \<Rightarrow> identified_package list \<Rightarrow> string list \<Rightarrow> scan_state \<Rightarrow>
     (identified_package list \<times> bool) scanned" where
  "parse_packages_files env is_cancelled art all_packages [] st = (Inr (all_packages, False), st)"
| "parse_packages_files env is_cancelled art all_packages (path # paths) st =
     (case check_cancellation is_cancelled (ar_path art) ''parsing Packages file'' st of
        (Inl _, st) \<Rightarrow> (Inr (all_packages, True), st)
      | (Inr _, st) \<Rightarrow>
          (case parse_iso_packages_file env path st of
             (Inl e, st) \<Rightarrow> (Inl e, st)
           | (Inr parsed, st) \<Rightarrow> parse_packages_files env is_cancelled art (all_packages @ parsed) paths st))"

definition package_key :: "identified_package \<Rightarrow> string \<times> string \<times> string" where
  "package_key pkg = (ip_name pkg, ip_version pkg, ip_architecture pkg)"

fun unique_packages :: "(string \<times> string \<times> string) list \<Rightarrow> identified_package list \<Rightarrow> identified_package list" where
  "unique_packages seen [] = []"
| "unique_packages seen (pkg # packages) =
     (if package_key pkg \<in> set seen then unique_packages seen packages
      else pkg # unique_packages (package_key pkg # seen) packages)"

definition deduplicate_packages :: "identified_package list \<Rightarrow> nat \<Rightarrow> scan_state \<Rightarrow> identified_package list \<times> scan_state" where
  "deduplicate_packages packages num_files st =
     (let result = unique_packages [] packages
      in (result, note_all [''Repository scan: '' @ nat_str (length result) @ '' unique packages from '' @ nat_str num_files
           @ '' Packages file(s) ('' @ nat_str (length packages - length result) @ '' duplicates removed)''] st))"

definition scan_repository :: "iso_env \<Rightarrow> (nat \<Rightarrow> bool) \<Rightarrow> artifact \<Rightarrow> scan_state \<Rightarrow> scan_result option scanned" where
  "scan_repository env is_cancelled art st =
     and_then (has_repository_structure env st) (\<lambda>found st.
       if \<not> found then (Inr None, st)
       else and_then (discover_packages_files env st) (\<lambda>packages_files st.
         and_then (check_cancellation is_cancelled (ar_path art) ''discovering Packages files'' st) (\<lambda>_ st.
           if packages_files = [] then (Inr None, st)
           else and_then (parse_packages_files env is_cancelled art [] packages_files st) (\<lambda>(all_packages, cancelled) st.
             (case deduplicate_packages all_packages (length packages_files) st of
                (deduplicated, st) \<Rightarrow>
                  if deduplicated = [] then (Inr None, st)
                  else and_then (finish art deduplicated DPKG_METADATA
                      (if cancelled then note_all [''Repository scan cancelled during parsing Packages file''] st else st))
                    (\<lambda>result st. (Inr (Some result), st)))))))"

section \<open>The scan\<close>

definition fallback_filesystem ::
  "iso_env \<Rightarrow> (string \<Rightarrow> scan_exc + string list) \<Rightarrow> (nat \<Rightarrow> bool) \<Rightarrow> artifact \<Rightarrow> scan_state \<Rightarrow> scan_result scanned" where
  "fallback_filesystem env list_dir is_cancelled art st =
     and_then (walk list_dir (recursion_limit env) [] [], st) (\<lambda>file_paths st.
     and_then (check_cancellation is_cancelled (ar_path art) ''collecting filesystem paths'' st) (\<lambda>_ st.
     and_then (snapshot_option art, st) (\<lambda>snapshot_id st.
     and_then (run_filesystem_analysis (iso_ports env) is_cancelled file_paths snapshot_id st) (\<lambda>fs st.
       finish art (fa_packages fs) FILESYSTEM_ANALYSIS (note_all (fa_diagnostics fs) st)))))"

definition parse_status :: "iso_env \<Rightarrow> (nat \<Rightarrow> bool) \<Rightarrow> artifact \<Rightarrow> string \<Rightarrow> scan_state \<Rightarrow> scan_result scanned" where
  "parse_status env is_cancelled art dpkg_content st =
     and_then (check_cancellation is_cancelled (ar_path art) ''parsing dpkg status'' st) (\<lambda>_ st.
       build_dpkg_success_result art (parse_dpkg_status (iso_decode env dpkg_content)) st)"

definition scan_open_squashfs :: "iso_env \<Rightarrow> (nat \<Rightarrow> bool) \<Rightarrow> artifact \<Rightarrow> string \<Rightarrow> scan_state \<Rightarrow> scan_result scanned" where
  "scan_open_squashfs env is_cancelled art squashfs_data st =
     and_then (check_cancellation is_cancelled (ar_path art) ''extracting squashfs'' st) (\<lambda>_ st.
     and_then (or_none (sq_read_file env squashfs_data DPKG_STATUS_PATH), st) (\<lambda>dpkg_content st.
       case dpkg_content of
         Some content \<Rightarrow> parse_status env is_cancelled art content st
       | None \<Rightarrow> fallback_filesystem env (sq_list_dir env squashfs_data) is_cancelled art st))"

text \<open>\<open>try: body finally: reader.close()\<close>.\<close>

definition closing :: "string \<Rightarrow> (scan_state \<Rightarrow> 'a scanned) \<Rightarrow> scan_state \<Rightarrow> 'a scanned" where
  "closing reader body st = (case body st of (r, st) \<Rightarrow> (r, event (Closed reader) st))"

definition scan_squashfs :: "iso_env \<Rightarrow> (nat \<Rightarrow> bool) \<Rightarrow> artifact \<Rightarrow> string \<Rightarrow> scan_state \<Rightarrow> scan_result scanned" where
  "scan_squashfs env is_cancelled art squashfs_data st =
     (case sq_open env squashfs_data of
        Some e \<Rightarrow>
          if is_os_or_runtime_error e then finish art [] DPKG_METADATA (note_all [''Squashfs extraction failure: '' @ exc_str e] st)
          else (Inl e, st)
      | None \<Rightarrow> closing ''squashfs'' (scan_open_squashfs env is_cancelled art squashfs_data) (event (Opened ''squashfs'') st))"

definition scan_direct_rootfs :: "iso_env \<Rightarrow> (nat \<Rightarrow> bool) \<Rightarrow> artifact \<Rightarrow> scan_state \<Rightarrow> scan_result scanned" where
  "scan_direct_rootfs env is_cancelled art st =
     and_then (or_none (iso_read_file env DPKG_STATUS_PATH), st) (\<lambda>dpkg_content st.
       case dpkg_content of
         Some content \<Rightarrow> parse_status env is_cancelled art content st
       | None \<Rightarrow> fallback_filesystem env (iso_list_dir env) is_cancelled art st)"

definition scan_open_iso :: "iso_env \<Rightarrow> (nat \<Rightarrow> bool) \<Rightarrow> artifact \<Rightarrow> scan_state \<Rightarrow> scan_result scanned" where
  "scan_open_iso env is_cancelled art st =
     and_then (check_cancellation is_cancelled (ar_path art) ''opening ISO'' st) (\<lambda>_ st.
     and_then (find_squashfs env, st) (\<lambda>squashfs_data st.
     and_then (check_cancellation is_cancelled (ar_path art) ''locating squashfs'' st) (\<lambda>_ st.
       case squashfs_data of
         Some data \<Rightarrow> scan_squashfs env is_cancelled art data st
       | None \<Rightarrow>
           and_then (scan_repository env is_cancelled art st) (\<lambda>repo_result st.
             case repo_result of Some result \<Rightarrow> (Inr result, st) | None \<Rightarrow> scan_direct_rootfs env is_cancelled art st))))"

definition catch_scanner_error :: "artifact \<Rightarrow> (scan_state \<Rightarrow> scan_result scanned) \<Rightarrow> scan_state \<Rightarrow> scan_result scanned" where
  "catch_scanner_error art body st =
     (case body st of
        (Inl (Scanner_Error _), st) \<Rightarrow> build_cancellation_result art ''scan'' DPKG_METADATA st
      | r \<Rightarrow> r)"

definition iso_scan :: "iso_env \<Rightarrow> (nat \<Rightarrow> bool) \<Rightarrow> artifact \<Rightarrow> scan_result scanned" where
  "iso_scan env is_cancelled art =
     (case iso_open env (ar_path art) of
        Some e \<Rightarrow>
          if is_os_or_runtime_error e
          then finish art [] DPKG_METADATA
            (note_all [''Invalid ISO image at '' @ quoted (ar_path art) @ '': '' @ exc_str e] start_state)
          else (Inl e, start_state)
      | None \<Rightarrow>
          closing ''iso'' (catch_scanner_error art (scan_open_iso env is_cancelled art)) (event (Opened ''iso'') start_state))"

section \<open>Readers are closed\<close>

lemma has_repository_events [keeps_events]: "ss_events (snd (has_repository_structure env st)) = ss_events st"
  by (simp add: has_repository_structure_def split: sum.split option.split)

lemma discover_events [keeps_events]: "ss_events (snd (discover_packages_files env st)) = ss_events st"
  by (simp add: discover_packages_files_def split: sum.split prod.split)

lemma parse_file_events [keeps_events]: "ss_events (snd (parse_iso_packages_file env path st)) = ss_events st"
  by (simp add: parse_iso_packages_file_def Let_def split: sum.split)

lemma parse_files_events [keeps_events]: "ss_events (snd (parse_packages_files env tok art ps paths st)) = ss_events st"
proof (induction paths arbitrary: ps st)
  case (Cons path paths)
  show ?case
    using check_cancellation_events [of tok "ar_path art" "''parsing Packages file''" st] parse_file_events [of env path] Cons.IH
    by (auto split: prod.split sum.split) (metis snd_conv)+
qed simp

lemma scan_repository_events [keeps_events]: "ss_events (snd (scan_repository env tok art st)) = ss_events st"
  by (auto simp: scan_repository_def keeps_events deduplicate_packages_def Let_def split: prod.split intro!: and_then_events)

lemma fallback_events [keeps_events]: "ss_events (snd (fallback_filesystem env ls tok art st)) = ss_events st"
  by (auto simp: fallback_filesystem_def keeps_events intro!: and_then_events)

lemma parse_status_events [keeps_events]: "ss_events (snd (parse_status env tok art c st)) = ss_events st"
  by (auto simp: parse_status_def keeps_events intro!: and_then_events)

lemma scan_open_squashfs_events [keeps_events]: "ss_events (snd (scan_open_squashfs env tok art d st)) = ss_events st"
  by (auto simp: scan_open_squashfs_def keeps_events intro!: and_then_events split: option.split)

lemma scan_direct_events [keeps_events]: "ss_events (snd (scan_direct_rootfs env tok art st)) = ss_events st"
  by (auto simp: scan_direct_rootfs_def keeps_events intro!: and_then_events split: option.split)

lemma closing_events: "ss_events (snd (closing r body st)) = ss_events (snd (body st)) @ [Closed r]"
  by (simp add: closing_def split: prod.split)

definition squashfs_used :: "reader_event list" where
  "squashfs_used = [Opened ''squashfs'', Closed ''squashfs'']"

lemma scan_squashfs_events:
  "ss_events (snd (scan_squashfs env tok art d st)) \<in> {ss_events st, ss_events st @ squashfs_used}"
  by (simp add: scan_squashfs_def closing_events keeps_events squashfs_used_def split: option.split)

lemma and_then_events_in: "ss_events (snd r) = E \<Longrightarrow> E \<in> S \<Longrightarrow> (\<And>a st. ss_events st = E \<Longrightarrow> ss_events (snd (k a st)) \<in> S) \<Longrightarrow>
    ss_events (snd (and_then r k)) \<in> S"
  by (auto simp: and_then_def split: prod.split sum.split)

lemma scan_open_iso_events:
  "ss_events (snd (scan_open_iso env tok art st)) \<in> {ss_events st, ss_events st @ squashfs_used}"
proof -
  let ?S = "{ss_events st, ss_events st @ squashfs_used}"
  show ?thesis unfolding scan_open_iso_def
  proof (intro and_then_events_in [where E = "ss_events st" and S = ?S], goal_cases)
    case (7 _ st1 data st2 _ st3)
    show ?case
    proof (cases data)
      case (Some d)
      then show ?thesis using scan_squashfs_events [of env tok art d st3] 7 by simp
    next
      case None
      have "ss_events (snd (and_then (scan_repository env tok art st3) (\<lambda>repo_result st. case repo_result of
          Some result \<Rightarrow> (Inr result, st) | None \<Rightarrow> scan_direct_rootfs env tok art st))) = ss_events st3"
        by (auto intro!: and_then_events simp: keeps_events split: option.split)
      then show ?thesis using 7 None by simp
    qed
  qed (simp_all add: keeps_events)
qed

text \<open>Property C19. Every reader a scan opens is closed again, the squashfs reader before the ISO reader, on every path: with a result,
  with a cancellation at any of the checks, and when any reader, gzip or the snapshot option raises. Nothing is closed when the
  image could not be opened.\<close>

theorem iso_scan_closes_readers:
  "ss_events (snd (iso_scan env is_cancelled art)) \<in>
     (if iso_open env (ar_path art) = None
      then {[Opened ''iso'', Closed ''iso''], [Opened ''iso'', Opened ''squashfs'', Closed ''squashfs'', Closed ''iso'']} else {[]})"
proof (cases "iso_open env (ar_path art)")
  case None
  let ?st = "event (Opened ''iso'') start_state"
  have "ss_events (snd (catch_scanner_error art (scan_open_iso env is_cancelled art) ?st)) =
      ss_events (snd (scan_open_iso env is_cancelled art ?st))"
    by (auto simp: catch_scanner_error_def keeps_events split: prod.split sum.split scan_exc.split)
  with scan_open_iso_events [of env is_cancelled art ?st] show ?thesis
    by (auto simp: iso_scan_def None closing_events squashfs_used_def start_state_def)
qed (simp add: iso_scan_def finish_def start_state_def)

section \<open>The walk lists the files\<close>

text \<open>The directories below a directory, and the files in them: the entries that cannot be listed.\<close>

inductive below :: "(string \<Rightarrow> scan_exc + string list) \<Rightarrow> string \<Rightarrow> string \<Rightarrow> bool" for list_dir where
  here: "below list_dir d d"
| inside: "below list_dir d d'" if "list_dir d = Inr entries" "entry \<in> set entries" "list_dir (child d entry) = Inr entries'"
    "below list_dir (child d entry) d'"

inductive_cases below_cases: "below list_dir d d'"

definition file_below :: "(string \<Rightarrow> scan_exc + string list) \<Rightarrow> string \<Rightarrow> string \<Rightarrow> bool" where
  "file_below list_dir d p \<longleftrightarrow>
     (\<exists>d' entries entry e. below list_dir d d' \<and> list_dir d' = Inr entries \<and> entry \<in> set entries \<and> p = child d' entry \<and>
        list_dir p = Inl e \<and> is_os_error e)"

lemma file_below_unfold:
  assumes "list_dir d = Inr entries"
  shows "file_below list_dir d p \<longleftrightarrow>
    (\<exists>entry \<in> set entries. case list_dir (child d entry) of
       Inl e \<Rightarrow> is_os_error e \<and> p = child d entry | Inr _ \<Rightarrow> file_below list_dir (child d entry) p)" (is "?l \<longleftrightarrow> ?r")
proof
  assume ?l
  then obtain d' es entry e where f: "below list_dir d d'" "list_dir d' = Inr es" "entry \<in> set es" "p = child d' entry"
    "list_dir p = Inl e" "is_os_error e"
    unfolding file_below_def by blast
  from f(1) show ?r
  proof (cases rule: below.cases)
    case here
    with f assms show ?thesis by (intro bexI [of _ entry]) auto
  next
    case (inside es2 entry2 es3)
    with f have "file_below list_dir (child d entry2) p" unfolding file_below_def by blast
    with inside assms show ?thesis by (intro bexI [of _ entry2]) auto
  qed
next
  assume ?r
  then obtain entry where e: "entry \<in> set entries" and c: "case list_dir (child d entry) of
      Inl e \<Rightarrow> is_os_error e \<and> p = child d entry | Inr _ \<Rightarrow> file_below list_dir (child d entry) p" by blast
  show ?l
  proof (cases "list_dir (child d entry)")
    case (Inl ex)
    then have "list_dir p = Inl ex" "is_os_error ex" "p = child d entry" using c by auto
    then show ?thesis unfolding file_below_def using assms e here by blast
  next
    case (Inr es)
    with c obtain d' es' entry' e' where "below list_dir (child d entry) d'" "list_dir d' = Inr es'" "entry' \<in> set es'"
      "p = child d' entry'" "list_dir p = Inl e'" "is_os_error e'"
      unfolding file_below_def by auto
    moreover from this(1) have "below list_dir d d'" using inside [where list_dir = list_dir] assms e Inr by blast
    ultimately show ?thesis unfolding file_below_def by blast
  qed
qed

lemma fold_exc_sets:
  assumes "\<And>x acc. x \<in> set xs \<Longrightarrow> \<exists>acc'. f x acc = Inr acc' \<and> set acc' = set acc \<union> F x"
  shows "\<exists>acc'. fold_exc f xs acc = Inr acc' \<and> set acc' = set acc \<union> (\<Union>x \<in> set xs. F x)"
  using assms
proof (induction xs arbitrary: acc)
  case (Cons x xs)
  obtain a where a: "f x acc = Inr a" "set a = set acc \<union> F x" using Cons.prems by (meson list.set_intros(1))
  obtain b where "fold_exc f xs a = Inr b" "set b = set a \<union> (\<Union>x \<in> set xs. F x)"
    using Cons.IH [of a] Cons.prems by (meson list.set_intros(2))
  with a show ?case by auto
qed simp

lemma union_swap: "(\<Union>x \<in> A. {g p | p. Q x p}) = {g p | p. \<exists>x \<in> A. Q x p}"
  by blast

lemma walk_set:
  assumes os: "\<And>d e. list_dir d = Inl e \<Longrightarrow> is_os_error e"
    and deep: "\<And>d es entry es'. list_dir d = Inr es \<Longrightarrow> entry \<in> set es \<Longrightarrow> list_dir (child d entry) = Inr es' \<Longrightarrow>
        height (child d entry) < (height d :: nat)"
  shows "height d < n \<Longrightarrow> \<exists>ps. walk list_dir n d acc = Inr ps \<and> set ps = set acc \<union> {''/'' @ p | p. file_below list_dir d p}"
proof (induction n arbitrary: d acc)
  case (Suc n)
  show ?case
  proof (cases "list_dir d")
    case (Inl e)
    then have "\<not> file_below list_dir d p" for p
      unfolding file_below_def by (auto elim: below_cases)
    with Inl os [OF Inl] show ?thesis by simp
  next
    case (Inr es)
    let ?F = "\<lambda>entry. {''/'' @ p | p. case list_dir (child d entry) of
       Inl e \<Rightarrow> is_os_error e \<and> p = child d entry | Inr _ \<Rightarrow> file_below list_dir (child d entry) p}"
    have "\<exists>acc'. (case list_dir (child d entry) of
              Inl e \<Rightarrow> if is_os_error e then Inr (acc @ [''/'' @ child d entry]) else Inl e
            | Inr _ \<Rightarrow> walk list_dir n (child d entry) acc) = Inr acc' \<and> set acc' = set acc \<union> ?F entry"
      if e: "entry \<in> set es" for entry acc
    proof (cases "list_dir (child d entry)")
      case (Inl ex)
      then show ?thesis using os [OF Inl] by simp
    next
      case r: (Inr es')
      have "height (child d entry) < n" using deep [OF Inr e r] Suc.prems by simp
      then show ?thesis using Suc.IH r by simp
    qed
    from fold_exc_sets [of es _ ?F acc, OF this] obtain ps where
      "walk list_dir (Suc n) d acc = Inr ps" and "set ps = set acc \<union> (\<Union>entry \<in> set es. ?F entry)"
      by (simp only: walk.simps Inr sum.case) blast
    moreover have "(\<Union>entry \<in> set es. ?F entry) = {''/'' @ p | p. file_below list_dir d p}"
      by (simp only: union_swap file_below_unfold [where list_dir = list_dir, OF Inr])
    ultimately show ?thesis by (intro exI [of _ ps]) (simp only: simp_thms)
  qed
qed simp

text \<open>The walk over a file system returns, and lists exactly its files, each with a leading slash: the entries of
  reachable directories that cannot be listed themselves. Its hypotheses: the reader fails with \<open>OSError\<close> only, and the nesting of
  directories is finite and below the interpreter's recursion limit, which is what the fuel stands for.\<close>

theorem walk_lists_files:
  assumes "\<And>d e. list_dir d = Inl e \<Longrightarrow> is_os_error e"
    and "\<And>d es entry es'. list_dir d = Inr es \<Longrightarrow> entry \<in> set es \<Longrightarrow> list_dir (child d entry) = Inr es' \<Longrightarrow>
        height (child d entry) < (height d :: nat)"
    and "height [] < recursion_limit env"
  shows "\<exists>paths. walk list_dir (recursion_limit env) [] [] = Inr paths \<and> set paths = {''/'' @ p | p. file_below list_dir [] p}"
  using walk_set [of list_dir height "[]" "recursion_limit env" "[]", OF assms] by simp

definition example_tree :: "string \<Rightarrow> scan_exc + string list" where
  "example_tree d = (if d = [] then Inr [''etc'', ''README''] else if d = ''etc'' then Inr [''hosts'']
     else Inl (OS_Error ''not a directory''))"

definition example_iso :: iso_env where
  "example_iso = \<lparr>iso_open = \<lambda>_. None, iso_list_dir = example_tree, iso_read_file = \<lambda>_. Inl (OS_Error ''no file''),
     sq_open = \<lambda>_. None, sq_list_dir = \<lambda>_. example_tree, sq_read_file = \<lambda>_ _. Inl (OS_Error ''no file''),
     iso_gunzip = Inr, iso_decode = id, iso_ports = \<lparr>sp_find_owners = \<lambda>_ _. [], sp_find_by_name = \<lambda>_ _. None\<rparr>, recursion_limit = 3\<rparr>"

theorem walk_lists_files_witness:
  "walk example_tree 3 [] [] = Inr [''/etc/hosts'', ''/README''] \<and>
   set [''/etc/hosts'', ''/README''] = {''/'' @ p | p. file_below example_tree [] p}"
proof -
  have w: "walk example_tree 3 [] [] = Inr [''/etc/hosts'', ''/README'']" by code_simp
  have "\<exists>paths. walk example_tree (recursion_limit example_iso) [] [] = Inr paths \<and>
      set paths = {''/'' @ p | p. file_below example_tree [] p}"
    by (rule walk_lists_files [where height = "\<lambda>d. if d = [] then 2 else if d = ''etc'' then 1 else 0"])
      (auto simp: example_tree_def is_os_error_def example_iso_def child_def split: if_splits)
  with w show ?thesis by (simp add: example_iso_def)
qed

section \<open>The packages of a repository\<close>

text \<open>The Packages files of the medium: one for each binary architecture of each component of each code name, the compressed one if
  there is one. A directory that cannot be listed has none.\<close>

definition arch_files :: "iso_env \<Rightarrow> string \<Rightarrow> string \<Rightarrow> string set" where
  "arch_files env component_path arch =
     (if \<not> startswith arch ''binary-'' then {}
      else (case iso_list_dir env (component_path @ ''/'' @ arch) of
        Inl _ \<Rightarrow> {}
      | Inr contents \<Rightarrow>
          if ''Packages.gz'' \<in> set contents then {component_path @ ''/'' @ arch @ ''/Packages.gz''}
          else if ''Packages'' \<in> set contents then {component_path @ ''/'' @ arch @ ''/Packages''} else {}))"

definition component_files :: "iso_env \<Rightarrow> string \<Rightarrow> string \<Rightarrow> string set" where
  "component_files env codename_path component =
     (if component \<in> {''Release'', ''InRelease''} then {}
      else (case iso_list_dir env (codename_path @ ''/'' @ component) of
        Inl _ \<Rightarrow> {} | Inr archs \<Rightarrow> (\<Union>arch \<in> set archs. arch_files env (codename_path @ ''/'' @ component) arch)))"

definition codename_files :: "iso_env \<Rightarrow> string \<Rightarrow> string set" where
  "codename_files env codename = (case iso_list_dir env (''dists/'' @ codename) of
     Inl _ \<Rightarrow> {} | Inr components \<Rightarrow> (\<Union>component \<in> set components. component_files env (''dists/'' @ codename) component))"

definition repository_files :: "iso_env \<Rightarrow> string set" where
  "repository_files env = (case iso_list_dir env ''dists'' of
     Inl _ \<Rightarrow> {} | Inr codenames \<Rightarrow> (\<Union>codename \<in> set codenames. codename_files env codename))"

text \<open>A step adds the files \<open>F x\<close> to those found.\<close>

definition finds :: "('a \<Rightarrow> found \<Rightarrow> scan_exc + found) \<Rightarrow> ('a \<Rightarrow> string set) \<Rightarrow> bool" where
  "finds f F \<longleftrightarrow> (\<forall>x u v. f x u = Inr v \<longrightarrow> set (fst v) = set (fst u) \<union> F x)"

lemma findsD: "finds f F \<Longrightarrow> f x u = Inr v \<Longrightarrow> set (fst v) = set (fst u) \<union> F x"
  unfolding finds_def by blast

lemma finds_fold: "finds f F \<Longrightarrow> finds (fold_exc f) (\<lambda>xs. \<Union>x \<in> set xs. F x)"
proof -
  assume f: "finds f F"
  have "fold_exc f xs u = Inr v \<Longrightarrow> set (fst v) = set (fst u) \<union> (\<Union>x \<in> set xs. F x)" for xs u v
    by (induction xs arbitrary: u) (auto dest: findsD [OF f] split: sum.splits)
  then show ?thesis unfolding finds_def by blast
qed

lemma finds_in_directory:
  assumes "finds body F"
  shows "in_directory env path body u = Inr v \<Longrightarrow>
    set (fst v) = set (fst u) \<union> (case iso_list_dir env path of Inl _ \<Rightarrow> {} | Inr es \<Rightarrow> F es)"
  using findsD [OF assms] by (auto simp: in_directory_def split: sum.splits if_splits)

lemma finds_arch: "finds (visit_arch env cp) (arch_files env cp)"
  by (auto simp: finds_def visit_arch_def arch_files_def in_directory_def Let_def split: sum.splits if_splits)

lemma finds_component: "finds (visit_component env cn) (component_files env cn)"
  using finds_in_directory [OF finds_fold [OF finds_arch]]
  by (auto simp: finds_def visit_component_def component_files_def Let_def simp del: append.simps split: if_splits)

lemma finds_codename: "finds (visit_codename env) (codename_files env)"
  using finds_in_directory [OF finds_fold [OF finds_component]]
  by (auto simp: finds_def visit_codename_def codename_files_def Let_def simp del: append.simps)

lemma discover_set: "discover_packages_files env st = (Inr files, st') \<Longrightarrow> set files = repository_files env"
proof (cases "iso_list_dir env ''dists''")
  case (Inr codenames)
  assume "discover_packages_files env st = (Inr files, st')"
  then obtain ds where "fold_exc (visit_codename env) codenames ([], []) = Inr (files, ds)"
    by (auto simp: discover_packages_files_def Inr split: sum.splits)
  from findsD [OF finds_fold [OF finds_codename] this] show ?thesis by (simp add: repository_files_def Inr)
qed (auto simp: discover_packages_files_def repository_files_def split: if_splits)

text \<open>The packages of one file do not depend on the scan's state.\<close>

definition packages_in :: "iso_env \<Rightarrow> string \<Rightarrow> identified_package list" where
  "packages_in env path = (case fst (parse_iso_packages_file env path start_state) of Inr packages \<Rightarrow> packages | Inl _ \<Rightarrow> [])"

lemma parse_file_packages: "parse_iso_packages_file env path st = (Inr ps, st') \<Longrightarrow> ps = packages_in env path"
  by (auto simp: packages_in_def parse_iso_packages_file_def Let_def split: sum.splits if_splits)

lemma parse_files_packages:
  "parse_packages_files env (\<lambda>_. False) art acc paths st = (Inr (ps, c), st') \<Longrightarrow>
     \<not> c \<and> ps = acc @ concat (map (packages_in env) paths)"
proof (induction paths arbitrary: acc st)
  case (Cons path paths)
  then obtain parsed st1 where "parse_iso_packages_file env path (snd (poll (\<lambda>_. False) st)) = (Inr parsed, st1)"
    and "parse_packages_files env (\<lambda>_. False) art (acc @ parsed) paths st1 = (Inr (ps, c), st')"
    by (auto simp: check_cancellation_def poll_def split: prod.splits sum.splits)
  with Cons.IH parse_file_packages show ?case by fastforce
qed simp

lemma packages_in_installed: "p \<in> set (packages_in env path) \<Longrightarrow> ip_status p = ''installed''"
  by (auto simp: packages_in_def parse_iso_packages_file_def Let_def stanza_package_def map_filter_def
      split: sum.splits if_splits option.splits)

lemma unique_packages_keys:
  "distinct (map package_key (unique_packages seen ps)) \<and> package_key ` set (unique_packages seen ps) = package_key ` set ps - set seen \<and>
   set (unique_packages seen ps) \<subseteq> set ps"
  by (induction seen ps rule: unique_packages.induct) auto

lemma unique_packages_set:
  assumes "\<And>p. p \<in> set ps \<Longrightarrow> ip_status p = ''installed''"
  shows "set (unique_packages [] ps) = set ps"
proof
  show "set ps \<subseteq> set (unique_packages [] ps)"
  proof
    fix p assume p: "p \<in> set ps"
    then obtain q where q: "q \<in> set (unique_packages [] ps)" "package_key q = package_key p"
      using unique_packages_keys [of "[]" ps] by (metis Diff_empty image_iff list.set(1))
    then have "q = p"
      using assms [OF p] assms [of q] unique_packages_keys [of "[]" ps] by (cases p; cases q) (auto simp: package_key_def)
    with q show "p \<in> set (unique_packages [] ps)" by simp
  qed
qed (use unique_packages_keys in blast)

text \<open>Property C20. A repository scan that is not cancelled and finds packages lists exactly the packages of the medium's Packages files,
  each name, version and architecture once, however often they are listed and in whichever of the files.\<close>

theorem iso_repository_packages:
  assumes "scan_repository env (\<lambda>_. False) art st = (Inr (Some result), st')"
  shows "distinct (map package_key (sc_packages result)) \<and> sc_packages result \<noteq> [] \<and> sc_strategy result = DPKG_METADATA \<and>
    set (sc_packages result) = (\<Union>path \<in> repository_files env. set (packages_in env path))"
proof -
  obtain files st1 st2 ps c st3 where files: "discover_packages_files env st1 = (Inr files, st2)"
    and "parse_packages_files env (\<lambda>_. False) art [] files (snd (poll (\<lambda>_. False) st2)) = (Inr (ps, c), st3)"
    and r: "sc_packages result = unique_packages [] ps" "sc_packages result \<noteq> []" "sc_strategy result = DPKG_METADATA"
    using assms
    by (auto simp: scan_repository_def and_then_Inr check_cancellation_def poll_def deduplicate_packages_def Let_def
        finish_def scan_result_of_def split: if_splits prod.splits)
  then have "ps = concat (map (packages_in env) files)" using parse_files_packages by fastforce
  then have "set ps = (\<Union>path \<in> repository_files env. set (packages_in env path))"
    and "p \<in> set ps \<Longrightarrow> ip_status p = ''installed''" for p
    using discover_set [OF files] packages_in_installed by auto
  then show ?thesis using r unique_packages_keys [of "[]" ps] unique_packages_set by metis
qed

lemma scan_repositoryI:
  assumes "has_repository_structure env st = (Inr True, st1)" and "discover_packages_files env st1 = (Inr (f # files), st2)"
    and "parse_packages_files env (\<lambda>_. False) art [] (f # files) (snd (poll (\<lambda>_. False) st2)) = (Inr (p # ps, False), st3)"
  shows "\<exists>result st'. scan_repository env (\<lambda>_. False) art st = (Inr (Some result), st')"
proof -
  have c: "check_cancellation (\<lambda>_. False) a s st2 = (Inr (), snd (poll (\<lambda>_. False) st2))" for a s
    by (simp add: check_cancellation_def poll_def)
  show ?thesis
    by (simp add: scan_repository_def assms(1,2) c assms(3) and_then_eqs deduplicate_packages_def finish_def Let_def
        del: parse_packages_files.simps)
qed

definition example_medium :: iso_env where
  "example_medium = example_iso\<lparr>iso_list_dir := \<lambda>d.
       (if d = [] then Inr [''dists''] else if d = ''dists'' then Inr [''trixie''] else if d = ''dists/trixie'' then Inr [''Release'', ''main'']
        else if d = ''dists/trixie/main'' then Inr [''binary-all'', ''source'']
        else if d = ''dists/trixie/main/binary-all'' then Inr [''Packages''] else Inl (OS_Error ''no directory'')),
     iso_read_file := \<lambda>p. if p = ''dists/trixie/main/binary-all/Packages''
       then Inr (''Package: a'' @ [LF] @ ''Version: 1'' @ [LF, LF] @ ''Package: a'' @ [LF] @ ''Version: 1'') else Inl (OS_Error ''no file'')\<rparr>"

definition example_medium_artifact :: artifact where
  "example_medium_artifact = \<lparr>ar_type = ISO, ar_path = ''/a.iso'', ar_options = []\<rparr>"

theorem iso_repository_packages_witness:
  "\<exists>result st'. scan_repository example_medium (\<lambda>_. False) example_medium_artifact start_state = (Inr (Some result), st') \<and>
     set (sc_packages result) = (\<Union>path \<in> repository_files example_medium. set (packages_in example_medium path))"
proof -
  let ?f = "''dists/trixie/main/binary-all/Packages''"
  let ?p = "\<lparr>ip_name = ''a'', ip_version = ''1'', ip_architecture = [], ip_status = ''installed''\<rparr>"
  have found: "has_repository_structure example_medium st =
      (Inr True, note_all [''Repository structure detected: dists/ directory found at ISO root''] st)" for st
    by (simp add: has_repository_structure_def example_medium_def or_none_def)
  have "fold_exc (visit_codename example_medium) [''trixie''] ([], []) = Inr ([?f], [])"
    and "iso_list_dir example_medium ''dists'' = Inr [''trixie'']"
    by code_simp+
  then have files: "discover_packages_files example_medium st = (Inr [?f], note_all [] st)" for st
    by (simp add: discover_packages_files_def)
  have "fst (parse_iso_packages_file example_medium ?f start_state) = Inr [?p, ?p]" by code_simp
  then have "fst (parse_iso_packages_file example_medium ?f st) = Inr [?p, ?p]" for st
    by (auto simp: parse_iso_packages_file_def Let_def split: sum.splits if_splits)
  then have parsed: "\<exists>st'. parse_iso_packages_file example_medium ?f st = (Inr [?p, ?p], st')" for st
    by (metis prod.collapse)
  have "\<exists>st'. parse_packages_files example_medium (\<lambda>_. False) example_medium_artifact [] [?f] st = (Inr ([?p, ?p], False), st')" for st
    using parsed [of "snd (poll (\<lambda>_. False) st)"] by (auto simp: check_cancellation_def poll_def)
  then have "\<exists>result st'. scan_repository example_medium (\<lambda>_. False) example_medium_artifact start_state = (Inr (Some result), st')"
    using scan_repositoryI [OF found files, where p = ?p and ps = "[?p]"] by blast
  then obtain result st' where r: "scan_repository example_medium (\<lambda>_. False) example_medium_artifact start_state = (Inr (Some result), st')"
    by blast
  show ?thesis using iso_repository_packages [OF r] by (intro exI [of _ result] exI [of _ st'] conjI r) simp
qed

section \<open>Damaged Packages files\<close>

text \<open>A truncated or damaged Packages.gz, for which gzip raises \<open>EOFError\<close> or \<open>zlib.error\<close>, ends the whole scan with that exception, after
  the reader was closed: only \<open>OSError\<close> is caught.\<close>

lemma truncated_packages_file_raises:
  assumes "iso_read_file env (path @ ''.gz'') = Inr data" and "iso_gunzip env data = Inl (Other_Error ''EOFError'')"
  shows "parse_iso_packages_file env (path @ ''.gz'') st = (Inl (Other_Error ''EOFError''), st)"
proof -
  have "endswith (path @ ''.gz'') ''.gz''" by (simp add: endswith_def)
  with assms show ?thesis by (simp add: parse_iso_packages_file_def is_os_error_def)
qed

end
