(* ===== verification/Guest_Scanners.thy ===== *)
theory Guest_Scanners
  imports Scanner_Mixin
begin

text \<open>
  The disk image scanners (\<open>img.py\<close>, \<open>qcow2.py\<close>, \<open>ami.py\<close> in \<open>src/debcraft/infrastructure/scanners/\<close>), over the guestfs library.
  The library is a parameter: what it reads may depend on the devices mounted so far, which no scanner unmounts. The
  breadth-first collection of paths ends by a lexicographic measure, and its limit is a parameter that the scanner sets to
  100000.
\<close>

section \<open>The environment\<close>

record guest_env =
  gf_available :: bool
  gf_open_image :: "string \<Rightarrow> scan_exc option"
  gf_inspect_os :: "scan_exc + string list"
  gf_mount_readonly :: "string \<Rightarrow> scan_exc option"
  gf_read_file :: "string list \<Rightarrow> string \<Rightarrow> scan_exc + string"
  gf_ls :: "string list \<Rightarrow> string \<Rightarrow> scan_exc + string list"
  gf_header :: "string \<Rightarrow> scan_exc + string"
  gf_repr :: "string \<Rightarrow> string"
  gf_decode :: "string \<Rightarrow> string"
  gf_ports :: scan_ports

definition STATUS_FILE :: string where "STATUS_FILE = ''/var/lib/dpkg/status''"

definition fail_with :: "artifact \<Rightarrow> string \<Rightarrow> scan_state \<Rightarrow> scan_result scanned" where
  "fail_with art diagnostic st = finish art [] DPKG_METADATA (note_all [diagnostic] st)"

text \<open>\<open>try: body finally: guestfs.close()\<close>.\<close>

definition closing_guest :: "(scan_state \<Rightarrow> 'a scanned) \<Rightarrow> scan_state \<Rightarrow> 'a scanned" where
  "closing_guest body st = (case body st of (r, st) \<Rightarrow> (r, event (Closed ''guestfs'') st))"

section \<open>Raw disk images\<close>

text \<open>The path of an entry; every entry is a path and is visited in its turn, files as well, for which \<open>ls\<close> fails.\<close>

definition entry_path :: "string \<Rightarrow> string \<Rightarrow> string" where
  "entry_path current_dir entry = (if current_dir \<noteq> ''/'' then current_dir @ ''/'' @ entry else ''/'' @ entry)"

function collect_file_paths :: "nat \<Rightarrow> (string \<Rightarrow> scan_exc + string list) \<Rightarrow> string list \<Rightarrow> string list \<Rightarrow> scan_exc + string list" where
  "collect_file_paths max_paths ls dirs_to_visit paths =
     (case dirs_to_visit of
        [] \<Rightarrow> Inr paths
      | current_dir # rest \<Rightarrow>
          if max_paths \<le> length paths then Inr paths
          else
            (case ls current_dir of
               Inl e \<Rightarrow> if is_os_or_runtime_error e then collect_file_paths max_paths ls rest paths else Inl e
             | Inr entries \<Rightarrow>
                 (let added = map (entry_path current_dir) (take (max_paths - length paths) entries)
                  in collect_file_paths max_paths ls (rest @ added) (paths @ added))))"
  by pat_completeness auto
termination
  by (relation "measures [\<lambda>(m, ls, dirs, paths). m - length paths, \<lambda>(m, ls, dirs, paths). length dirs]")
    (auto simp: Let_def min_def split: list.splits if_splits, simp_all flip: length_0_conv)

declare collect_file_paths.simps [simp del]

lemmas collect_Nil = collect_file_paths.simps [of m ls "[]" paths for m ls paths, simplified]
lemmas collect_Cons = collect_file_paths.simps [of m ls "d # rest" paths for m ls d rest paths, simplified]

definition img_max_paths :: nat where "img_max_paths = 100000"

definition img_fallback :: "guest_env \<Rightarrow> (nat \<Rightarrow> bool) \<Rightarrow> artifact \<Rightarrow> string list \<Rightarrow> scan_state \<Rightarrow> scan_result scanned" where
  "img_fallback env is_cancelled art mounts st =
     analyze_and_build_filesystem_result (gf_ports env) is_cancelled art
       (case collect_file_paths img_max_paths (gf_ls env mounts) [''/''] [] of Inr paths \<Rightarrow> paths | Inl _ \<Rightarrow> [])
       False ''filesystem analysis'' st"

text \<open>The loop over the partitions: a result when the scan is cancelled, else the first status file with the devices mounted.\<close>

fun inspect_loop ::
  "guest_env \<Rightarrow> (nat \<Rightarrow> bool) \<Rightarrow> artifact \<Rightarrow> nat \<Rightarrow> nat \<Rightarrow> string list \<Rightarrow> string list \<Rightarrow> scan_state \<Rightarrow>
     (scan_result + string option \<times> string list) scanned" where
  "inspect_loop env is_cancelled art n index mounts [] st = (Inr (Inr (None, mounts)), st)"
| "inspect_loop env is_cancelled art n index mounts (root_device # roots) st =
     (case poll is_cancelled st of
        (True, st) \<Rightarrow>
          and_then (build_cancellation_result art (''inspecting partitions ('' @ nat_str index @ '' of '' @ nat_str n @ '' inspected)'')
            DPKG_METADATA st) (\<lambda>result st. (Inr (Inl result), st))
      | (False, st) \<Rightarrow>
          (case gf_mount_readonly env root_device of
             Some e \<Rightarrow>
               if is_os_or_runtime_error e then inspect_loop env is_cancelled art n (Suc index) mounts roots st else (Inl e, st)
           | None \<Rightarrow>
               (let mounts = mounts @ [root_device] in
                case gf_read_file env mounts STATUS_FILE of
                  Inr content \<Rightarrow> (Inr (Inr (Some (gf_decode env content), mounts)), st)
                | Inl e \<Rightarrow>
                    if is_os_or_runtime_error e then inspect_loop env is_cancelled art n (Suc index) mounts roots st
                    else (Inl e, st))))"

definition inspect_partitions :: "guest_env \<Rightarrow> (nat \<Rightarrow> bool) \<Rightarrow> artifact \<Rightarrow> scan_state \<Rightarrow> scan_result scanned" where
  "inspect_partitions env is_cancelled art st =
     (case poll is_cancelled st of
        (True, st) \<Rightarrow> build_cancellation_result art ''before partition enumeration'' DPKG_METADATA st
      | (False, st) \<Rightarrow>
          (case gf_inspect_os env of
             Inl e \<Rightarrow>
               if is_os_or_runtime_error e then fail_with art (''Failed to inspect disk image partitions: '' @ exc_str e) st
               else (Inl e, st)
           | Inr roots \<Rightarrow>
               if roots = [] then
                 fail_with art ''No OS partitions found in disk image: unrecognized partition table or filesystem'' st
               else
                 and_then (inspect_loop env is_cancelled art (length roots) 0 [] roots st) (\<lambda>r st.
                   case r of
                     Inl result \<Rightarrow> (Inr result, st)
                   | Inr (Some dpkg_content, _) \<Rightarrow> build_dpkg_success_result art (parse_dpkg_status dpkg_content) st
                   | Inr (None, mounts) \<Rightarrow> img_fallback env is_cancelled art mounts st)))"

definition img_scan :: "guest_env \<Rightarrow> (nat \<Rightarrow> bool) \<Rightarrow> artifact \<Rightarrow> scan_state \<Rightarrow> scan_result scanned" where
  "img_scan env is_cancelled art st =
     (if \<not> gf_available env then
        fail_with art ''guestfs library is not available: cannot inspect raw disk image without libguestfs'' st
      else
        (case gf_open_image env (ar_path art) of
           Some e \<Rightarrow>
             if is_os_or_runtime_error e
             then fail_with art (''Failed to open disk image at '' @ quoted (ar_path art) @ '': '' @ exc_str e) st
             else (Inl e, st)
         | None \<Rightarrow> closing_guest (inspect_partitions env is_cancelled art) (event (Opened ''guestfs'') st)))"

section \<open>QCOW2 images\<close>

definition QCOW2_MAGIC :: string where "QCOW2_MAGIC = ''QFI'' @ [CHR 0xFB]"

definition validate_qcow2_header :: "guest_env \<Rightarrow> string \<Rightarrow> scan_exc + string option" where
  "validate_qcow2_header env path =
     (case gf_header env path of
        Inl e \<Rightarrow> if is_os_error e then Inr (Some (''Cannot read QCOW2 image at '' @ quoted path @ '': '' @ exc_str e)) else Inl e
      | Inr header \<Rightarrow>
          if length header < 4 \<or> header \<noteq> QCOW2_MAGIC
          then Inr (Some (''Invalid QCOW2 image at '' @ quoted path @ '': missing QFI'' @ [CHR 0x5C] @ ''xfb magic bytes at offset 0 (got ''
            @ gf_repr env header @ '')''))
          else Inr None)"

definition qcow2_fallback :: "guest_env \<Rightarrow> (nat \<Rightarrow> bool) \<Rightarrow> artifact \<Rightarrow> string list \<Rightarrow> scan_state \<Rightarrow> scan_result scanned" where
  "qcow2_fallback env is_cancelled art mounts st =
     analyze_and_build_filesystem_result (gf_ports env) is_cancelled art
       (case gf_ls env mounts ''/'' of Inr entries \<Rightarrow> map (\<lambda>entry. ''/'' @ entry) entries | Inl _ \<Rightarrow> [])
       True ''filesystem traversal'' st"

definition parse_dpkg_packages :: "(nat \<Rightarrow> bool) \<Rightarrow> artifact \<Rightarrow> string \<Rightarrow> scan_state \<Rightarrow> scan_result scanned" where
  "parse_dpkg_packages is_cancelled art dpkg_content st =
     (let parse_result = parse_dpkg_status dpkg_content
      in iterate_packages_with_cancellation is_cancelled art (pr_packages parse_result) DPKG_METADATA
           (note_all (pr_diagnostics parse_result) st))"

definition read_and_parse_dpkg :: "guest_env \<Rightarrow> (nat \<Rightarrow> bool) \<Rightarrow> artifact \<Rightarrow> string list \<Rightarrow> scan_state \<Rightarrow> scan_result scanned" where
  "read_and_parse_dpkg env is_cancelled art mounts st =
     (case poll is_cancelled st of
        (True, st) \<Rightarrow> build_cancellation_result art ''before reading dpkg status'' DPKG_METADATA st
      | (False, st) \<Rightarrow>
          (case gf_read_file env mounts STATUS_FILE of
             Inr raw_bytes \<Rightarrow> parse_dpkg_packages is_cancelled art (gf_decode env raw_bytes) st
           | Inl e \<Rightarrow> if is_os_or_runtime_error e then qcow2_fallback env is_cancelled art mounts st else (Inl e, st)))"

text \<open>\<open>_inspect_and_mount_root\<close> and what follows it: only the first root is mounted.\<close>

definition inspect_and_read :: "guest_env \<Rightarrow> (nat \<Rightarrow> bool) \<Rightarrow> artifact \<Rightarrow> scan_state \<Rightarrow> scan_result scanned" where
  "inspect_and_read env is_cancelled art st =
     (case poll is_cancelled st of
        (True, st) \<Rightarrow> build_cancellation_result art ''before OS inspection'' DPKG_METADATA st
      | (False, st) \<Rightarrow>
          (case gf_inspect_os env of
             Inl e \<Rightarrow>
               if is_os_or_runtime_error e then fail_with art (''Failed to inspect OS roots in QCOW2 image: '' @ exc_str e) st
               else (Inl e, st)
           | Inr [] \<Rightarrow> fail_with art (''No inspectable operating system root found in QCOW2 image: ''
               @ ''unrecognized partition layout or unsupported filesystem'') st
           | Inr (first_root # _) \<Rightarrow>
               (case poll is_cancelled st of
                  (True, st) \<Rightarrow> build_cancellation_result art ''before mounting filesystem'' DPKG_METADATA st
                | (False, st) \<Rightarrow>
                    (case gf_mount_readonly env first_root of
                       Some e \<Rightarrow>
                         if is_os_or_runtime_error e
                         then fail_with art (''Failed to mount root '' @ quoted first_root @ '' read-only: '' @ exc_str e) st
                         else (Inl e, st)
                     | None \<Rightarrow> read_and_parse_dpkg env is_cancelled art [first_root] st))))"

definition qcow2_scan :: "guest_env \<Rightarrow> (nat \<Rightarrow> bool) \<Rightarrow> artifact \<Rightarrow> scan_state \<Rightarrow> scan_result scanned" where
  "qcow2_scan env is_cancelled art st =
     (if \<not> gf_available env then
        fail_with art (''guestfs library is not available: cannot inspect QCOW2 images. ''
          @ ''Install python3-guestfs or libguestfs Python bindings.'') st
      else
        (case validate_qcow2_header env (ar_path art) of
           Inl e \<Rightarrow> (Inl e, st)
         | Inr (Some diagnostic) \<Rightarrow> fail_with art diagnostic st
         | Inr None \<Rightarrow>
             (case poll is_cancelled st of
                (True, st) \<Rightarrow> build_cancellation_result art ''before opening image'' DPKG_METADATA st
              | (False, st) \<Rightarrow>
                  (case gf_open_image env (ar_path art) of
                     Some e \<Rightarrow>
                       if is_os_or_runtime_error e
                       then fail_with art (''Failed to open QCOW2 image at '' @ quoted (ar_path art) @ '' via guestfs: '' @ exc_str e) st
                       else (Inl e, st)
                   | None \<Rightarrow> closing_guest (inspect_and_read env is_cancelled art) (event (Opened ''guestfs'') st)))))"

section \<open>Machine images\<close>

definition ami_scan :: "guest_env \<Rightarrow> (nat \<Rightarrow> bool) \<Rightarrow> artifact \<Rightarrow> scan_state \<Rightarrow> scan_result scanned" where
  "ami_scan env is_cancelled art st =
     (case poll is_cancelled st of
        (True, st) \<Rightarrow> build_cancellation_result art ''before format detection'' DPKG_METADATA st
      | (False, st) \<Rightarrow>
          (case gf_header env (ar_path art) of
             Inl e \<Rightarrow>
               if is_os_error e then fail_with art (''Cannot read AMI image at '' @ quoted (ar_path art) @ '': '' @ exc_str e) st
               else (Inl e, st)
           | Inr header \<Rightarrow>
               if length header < 4 then
                 fail_with art (''AMI image at '' @ quoted (ar_path art) @ '' is too small for format detection: ''
                   @ ''expected at least 4 bytes, got '' @ nat_str (length header)) st
               else
                 (case poll is_cancelled st of
                    (True, st) \<Rightarrow> build_cancellation_result art ''before delegating to sub-scanner'' DPKG_METADATA st
                  | (False, st) \<Rightarrow>
                      if header = QCOW2_MAGIC then qcow2_scan env is_cancelled art st else img_scan env is_cancelled art st)))"

section \<open>The handle is closed\<close>

lemma img_fallback_events [keeps_events]: "ss_events (snd (img_fallback env tok art ms st)) = ss_events st"
  by (simp add: img_fallback_def keeps_events)

lemma fail_with_events [keeps_events]: "ss_events (snd (fail_with art d st)) = ss_events st"
  by (simp add: fail_with_def keeps_events)

lemma inspect_loop_events [keeps_events]: "ss_events (snd (inspect_loop env tok art n i ms roots st)) = ss_events st"
proof (induction roots arbitrary: i ms st)
  case (Cons root_device roots)
  show ?case
    by (cases "tok (ss_polls st)")
      (simp_all add: Cons.IH poll_def and_then_def build_cancellation_result_def finish_def Let_def split: option.split sum.split)
qed simp

lemma inspect_partitions_events [keeps_events]: "ss_events (snd (inspect_partitions env tok art st)) = ss_events st"
  by (auto simp: inspect_partitions_def poll_def keeps_events intro!: and_then_events split: bool.split sum.split option.split prod.split)

lemma read_and_parse_events [keeps_events]: "ss_events (snd (read_and_parse_dpkg env tok art ms st)) = ss_events st"
  by (auto simp: read_and_parse_dpkg_def parse_dpkg_packages_def qcow2_fallback_def Let_def poll_def keeps_events
      split: bool.split sum.split)

lemma inspect_and_read_events [keeps_events]: "ss_events (snd (inspect_and_read env tok art st)) = ss_events st"
  by (auto simp: inspect_and_read_def poll_def keeps_events split: bool.split sum.split list.split option.split)

lemma closing_guest_events: "ss_events (snd (closing_guest body st)) = ss_events (snd (body st)) @ [Closed ''guestfs'']"
  by (simp add: closing_guest_def split: prod.split)

lemma img_scan_events:
  "ss_events (snd (img_scan env tok art st)) \<in> {ss_events st, ss_events st @ [Opened ''guestfs'', Closed ''guestfs'']}"
  by (auto simp: img_scan_def closing_guest_events keeps_events split: option.split)

lemma qcow2_scan_events:
  "ss_events (snd (qcow2_scan env tok art st)) \<in> {ss_events st, ss_events st @ [Opened ''guestfs'', Closed ''guestfs'']}"
  by (auto simp: qcow2_scan_def poll_def closing_guest_events keeps_events split: option.split sum.split bool.split)

text \<open>The scanner of machine images delegates to one of the two by the magic bytes, so the guestfs handle is closed exactly when it was
  opened, whatever the scan returns or raises.\<close>

lemma ami_scan_events:
  "ss_events (snd (ami_scan env tok art st)) \<in> {ss_events st, ss_events st @ [Opened ''guestfs'', Closed ''guestfs'']}"
  using img_scan_events [of env tok art "st\<lparr>ss_polls := Suc (Suc (ss_polls st))\<rparr>"]
    qcow2_scan_events [of env tok art "st\<lparr>ss_polls := Suc (Suc (ss_polls st))\<rparr>"]
  by (auto simp: ami_scan_def poll_def keeps_events split: sum.split bool.split)

section \<open>The collected paths\<close>

text \<open>The paths below a directory: the entries of what \<open>ls\<close> lists, at any depth.\<close>

inductive path_below :: "(string \<Rightarrow> scan_exc + string list) \<Rightarrow> string \<Rightarrow> string \<Rightarrow> bool" for ls where
  entry: "path_below ls d (entry_path d e)" if "ls d = Inr entries" "e \<in> set entries"
| deeper: "path_below ls d p" if "ls d = Inr entries" "e \<in> set entries" "path_below ls (entry_path d e) p"

lemma path_below_unfold:
  "ls d = Inr entries \<Longrightarrow> path_below ls d p \<longleftrightarrow> (\<exists>e \<in> set entries. p = entry_path d e \<or> path_below ls (entry_path d e) p)"
  by (subst path_below.simps) auto

lemma path_below_none: "ls d = Inl e \<Longrightarrow> \<not> path_below ls d p"
  by (subst path_below.simps) auto

lemma collect_bound: "collect_file_paths m ls dirs paths = Inr r \<Longrightarrow> length paths \<le> m \<Longrightarrow> length r \<le> m \<and> length paths \<le> length r"
proof (induction m ls dirs paths rule: collect_file_paths.induct)
  case (1 m ls dirs paths)
  show ?case
  proof (cases dirs)
    case Nil
    then show ?thesis using "1.prems" by (simp add: collect_Nil collect_Cons)
  next
    case (Cons d rest)
    show ?thesis
    proof (cases "m \<le> length paths")
      case True
      then show ?thesis using "1.prems" Cons by (simp add: collect_Nil collect_Cons)
    next
      case False
      show ?thesis
      proof (cases "ls d")
        case (Inl e)
        then show ?thesis using "1.IH"(1) [OF Cons False Inl] "1.prems" Cons False
          by (auto simp: collect_Nil collect_Cons split: if_splits)
      next
        case (Inr entries)
        have "length paths + min (length entries) (m - length paths) \<le> m" using False by simp
        then show ?thesis using Inr "1.IH"(2) [OF Cons False Inr refl] "1.prems" Cons False
          by (auto simp: collect_Nil collect_Cons Let_def)
      qed
    qed
  qed
qed

lemma collect_set:
  "collect_file_paths m ls dirs paths = Inr r \<Longrightarrow> length r < m \<Longrightarrow>
     set r = set paths \<union> {p. \<exists>d \<in> set dirs. path_below ls d p}"
proof (induction m ls dirs paths rule: collect_file_paths.induct)
  case (1 m ls dirs paths)
  have "length paths \<le> m \<Longrightarrow> length paths < m" using collect_bound [OF "1.prems"(1)] "1.prems"(2) by simp
  show ?case
  proof (cases dirs)
    case Nil
    then show ?thesis using "1.prems" by (simp add: collect_Nil collect_Cons)
  next
    case (Cons d rest)
    show ?thesis
    proof (cases "m \<le> length paths")
      case True
      then show ?thesis using "1.prems" Cons by (simp add: collect_Nil collect_Cons)
    next
      case False
      show ?thesis
      proof (cases "ls d")
        case (Inl e)
        then have "collect_file_paths m ls rest paths = Inr r" and e: "is_os_or_runtime_error e"
          using "1.prems" Cons False by (auto simp: collect_Nil collect_Cons split: if_splits)
        then show ?thesis using "1.IH"(1) [OF Cons False Inl e] "1.prems" Cons path_below_none [of ls d, OF Inl] by auto
      next
        case (Inr entries)
        let ?added = "map (entry_path d) (take (m - length paths) entries)"
        have step: "collect_file_paths m ls (rest @ ?added) (paths @ ?added) = Inr r"
          using "1.prems" Cons False Inr by (simp add: collect_Nil collect_Cons Let_def)
        have "length paths + min (length entries) (m - length paths) \<le> m" using False by simp
        then have "length (paths @ ?added) \<le> length r" using collect_bound [OF step] by simp
        then have all: "take (m - length paths) entries = entries" using "1.prems"(2) False by (cases "length entries \<le> m - length paths") auto
        from "1.IH"(2) [OF Cons False Inr refl step "1.prems"(2)] show ?thesis
          unfolding all Cons by (auto simp: path_below_unfold [of ls d, OF Inr])
      qed
    qed
  qed
qed

text \<open>The collection of a disk image's paths always ends, with at most \<open>max_paths\<close> of them even when links make the
  tree infinite; and when it ends below the limit it has collected exactly the paths below the root. It raises only what \<open>ls\<close>
  raises other than \<open>OSError\<close> and \<open>RuntimeError\<close>.\<close>

theorem collect_file_paths_spec:
  fixes max_paths :: nat and ls :: "string \<Rightarrow> scan_exc + string list"
  shows "case collect_file_paths max_paths ls [''/''] [] of
     Inr paths \<Rightarrow> length paths \<le> max_paths \<and> (length paths < max_paths \<longrightarrow> set paths = {p. path_below ls ''/'' p})
   | Inl e \<Rightarrow> \<not> is_os_or_runtime_error e \<and> (\<exists>d. ls d = Inl e)"
proof -
  have "\<not> is_os_or_runtime_error e \<and> (\<exists>d. ls d = Inl e)" if "collect_file_paths m ls dirs paths = Inl e" for m dirs paths e
    using that
  proof (induction m ls dirs paths rule: collect_file_paths.induct)
    case (1 m ls dirs paths)
    then show ?case
      by (subst (asm) (3) collect_file_paths.simps) (auto split: list.splits if_splits sum.splits simp: Let_def)
  qed
  then show ?thesis
    using collect_bound [of max_paths ls "[''/'']" "[]"] collect_set [of max_paths ls "[''/'']" "[]"]
    by (auto split: sum.split)
qed

definition example_ls :: "string \<Rightarrow> scan_exc + string list" where
  "example_ls d = (if d = ''/'' then Inr [''usr'', ''README''] else if d = ''/usr'' then Inr [''bin''] else if d = ''/usr/bin'' then Inr [''ls'']
     else Inl (Runtime_Error ''not a directory''))"

lemma example_collect:
  "collect_file_paths 9 example_ls [''/''] [] = Inr [''/usr'', ''/README'', ''/usr/bin'', ''/usr/bin/ls'']"
  by (simp add: collect_Nil collect_Cons example_ls_def entry_path_def is_os_or_runtime_error_def Let_def)

theorem collect_file_paths_spec_witness:
  "set [''/usr'', ''/README'', ''/usr/bin'', ''/usr/bin/ls''] = {p. path_below example_ls ''/'' p}"
  using collect_file_paths_spec [where max_paths = 9 and ls = example_ls] unfolding example_collect by simp

text \<open>The scanner of QCOW2 images collects the names in the root directory only, so that no file below a directory is ever looked up.\<close>

lemma qcow2_paths_top_level:
  assumes "gf_ls env mounts = example_ls" and "\<And>n. \<not> tok n" and "ar_options art = []"
  shows "qcow2_fallback env tok art mounts st =
    analyze_and_build_filesystem_result (gf_ports env) tok art [''/usr'', ''/README''] True ''filesystem traversal'' st"
  using assms by (simp add: qcow2_fallback_def example_ls_def)

end
