(* ===== verification/Sbom_Cli.thy ===== *)
theory Sbom_Cli
  imports Registries Sbom_Writers Enricher Directory_Scanner Docker_Scanner Oci_Scanner Iso_Scanner Guest_Scanners
begin

text \<open>
  The command \<open>debcraft sbom\<close> (\<open>src/debcraft/cli/sbom.py\<close>): the validation of its options, the scanners and services it
  builds, the run of the workflow and the exit. What the operating system, the entry points and the database give is in
  \<open>cli_env\<close>. The bus of the command drops the events and its token is never cancelled; the display, the logger, the closing of
  engines and readers, and the probe file of the output directory are left out.
\<close>

section \<open>Environment\<close>

type_synonym scanner_method = "artifact \<Rightarrow> nat \<Rightarrow> (string + scan_result) \<times> nat"

record database_engines =
  db_metadata :: "index_store option"
  db_cache :: bool

record cli_env =
  cx_exists :: "string \<Rightarrow> bool"
  cx_isdir :: "string \<Rightarrow> bool"
  cx_mkdir_fault :: "string \<Rightarrow> string option"
  cx_writable :: "string \<Rightarrow> bool"
  cx_write_fault :: "string \<Rightarrow> string option"
  cx_unlink_fault :: "string \<Rightarrow> bool"
  cx_sha256 :: "string \<Rightarrow> string"
  cx_engines :: "string + database_engines"
  cx_query_fails :: bool
  cx_missing_dependency :: "string option"
  cx_deb_extractor :: "string \<Rightarrow> (identified_package \<Rightarrow> deb_error + package_enrichment option) option"
  cx_enrich :: enrich_env
  cx_cache_rows :: "cached_row list"
  cx_assembler :: assembler_env
  cx_writer_entry_points :: "string + writer_method writer_entry_point list"
  cx_directory :: directory_env
  cx_docker :: docker_env
  cx_oci :: oci_env
  cx_iso :: iso_env
  cx_guest :: guest_env

section \<open>Options\<close>

definition MAX_SNAPSHOT_ID :: int where "MAX_SNAPSHOT_ID = 2147483647"

definition validate_formats :: "string list option \<Rightarrow> string + output_format list" where
  "validate_formats format_values =
     (case format_values of
        None \<Rightarrow> Inr all_formats
      | Some [] \<Rightarrow> Inr all_formats
      | Some values \<Rightarrow>
          (let invalid = filter (\<lambda>f. output_format_of f = None) values in
           if invalid \<noteq> [] then Inl (''Invalid format value(s): '' @ join '', '' invalid)
           else Inr (List.map_filter output_format_of values)))"

definition snapshot_range_error :: "string \<Rightarrow> string" where
  "snapshot_range_error got =
     ''--snapshot-id must be a positive integer in range [1, '' @ int_str MAX_SNAPSHOT_ID @ ''], got: '' @ got"

text \<open>The first error shows the value by its \<open>repr\<close>, an argument.\<close>

definition validate_snapshot_id :: "(string \<Rightarrow> string) \<Rightarrow> string option \<Rightarrow> string + int option" where
  "validate_snapshot_id repr value =
     (case value of
        None \<Rightarrow> Inr None
      | Some value \<Rightarrow>
          (case (if CHR ''.'' \<in> set value then None else py_int value) of
             None \<Rightarrow> Inl (snapshot_range_error (repr value))
           | Some parsed \<Rightarrow>
               if parsed < 1 \<or> parsed > MAX_SNAPSHOT_ID then Inl (snapshot_range_error (int_str parsed)) else Inr (Some parsed)))"

definition validate_artifact_path :: "cli_env \<Rightarrow> string \<Rightarrow> string + unit" where
  "validate_artifact_path env artifact_path =
     (if \<not> cx_exists env artifact_path then Inl (''Artifact path does not exist: '' @ artifact_path) else Inr ())"

definition validate_output_dir :: "cli_env \<Rightarrow> string \<Rightarrow> string + unit" where
  "validate_output_dir env output_dir =
     (case cx_mkdir_fault env output_dir of
        Some e \<Rightarrow> Inl (''Cannot create output directory: '' @ output_dir @ '' ('' @ e @ '')'')
      | None \<Rightarrow> if \<not> cx_writable env output_dir then Inl (''Output directory is not writable: '' @ output_dir) else Inr ())"

section \<open>The scanners\<close>

text \<open>The stand-ins for the two ports find nothing.\<close>

definition no_op_ports :: scan_ports where
  "no_op_ports = \<lparr>sp_find_owners = (\<lambda>_ _. []), sp_find_by_name = (\<lambda>_ _. None)\<rparr>"

definition never :: "nat \<Rightarrow> bool" where "never = (\<lambda>_. False)"

definition of_scanned :: "(artifact \<Rightarrow> scan_state \<Rightarrow> scan_result scanned) \<Rightarrow> scanner_method" where
  "of_scanned scan = (\<lambda>art polls. case scan art start_state of (r, st) \<Rightarrow> (map_sum exc_str id r, polls + ss_polls st))"

fun json_type_name :: "json \<Rightarrow> string" where
  "json_type_name JNull = ''NoneType''" | "json_type_name (JBool _) = ''bool''"
| "json_type_name (JNumber s) = (if \<forall>c\<in>set s. c = CHR ''-'' \<or> digit_val 10 c \<noteq> None then ''int'' else ''float'')"
| "json_type_name (JString _) = ''str''" | "json_type_name (JArray _) = ''list''" | "json_type_name (JObject _) = ''dict''"

text \<open>What is not a result fails where its packages are first read.\<close>

definition docker_method :: "docker_env \<Rightarrow> scanner_method" where
  "docker_method env = (\<lambda>art polls.
     (case docker_scan env never art of
        Inl e \<Rightarrow> Inl (exc_str e)
      | Inr (Scanned result) \<Rightarrow> Inr result
      | Inr (Not_A_Result j) \<Rightarrow> Inl (quoted (json_type_name j) @ '' object has no attribute '' @ quoted ''packages''), polls))"

definition cli_scanner :: "cli_env \<Rightarrow> artifact_type \<Rightarrow> scanner_method" where
  "cli_scanner env t =
     (let guest = (cx_guest env)\<lparr>gf_available := False, gf_ports := no_op_ports\<rparr> in
      case t of
        DIRECTORY \<Rightarrow> of_scanned (directory_scan ((cx_directory env)\<lparr>dv_ports := no_op_ports\<rparr>) never)
      | DOCKER \<Rightarrow> docker_method ((cx_docker env)\<lparr>de_ports := no_op_ports\<rparr>)
      | OCI \<Rightarrow> (\<lambda>art polls. (map_sum exc_str id (oci_scan (cx_oci env) never art), polls))
      | ISO \<Rightarrow> of_scanned (\<lambda>art st. iso_scan ((cx_iso env)\<lparr>iso_ports := no_op_ports\<rparr>) never art)
      | QCOW2 \<Rightarrow> of_scanned (qcow2_scan guest never)
      | IMG \<Rightarrow> of_scanned (img_scan guest never)
      | AMI \<Rightarrow> of_scanned (ami_scan guest never))"

definition scanner_class :: "artifact_type \<Rightarrow> string" where
  "scanner_class t = (case t of DIRECTORY \<Rightarrow> ''DirectoryScanner'' | DOCKER \<Rightarrow> ''DockerScanner'' | OCI \<Rightarrow> ''OCIScanner'' | ISO \<Rightarrow> ''ISOScanner''
     | QCOW2 \<Rightarrow> ''QCOW2Scanner'' | IMG \<Rightarrow> ''IMGScanner'' | AMI \<Rightarrow> ''AMIScanner'')"

definition cli_plugin :: "cli_env \<Rightarrow> artifact_type \<Rightarrow> scanner_method plugin" where
  "cli_plugin env t =
     \<lparr>pl_method = Some (cli_scanner env t), pl_priority = None, pl_class_name = scanner_class t, pl_repr = scanner_class t\<rparr>"

definition create_scanner_registry :: "cli_env \<Rightarrow> string + scanner_method scanner_registry" where
  "create_scanner_registry env =
     (case cx_missing_dependency env of
        Some name \<Rightarrow> Inl (''Missing dependency for ISO scanning: '' @ name @ ''. Install it with: uv add '' @ name)
      | None \<Rightarrow> Inr (foldl (\<lambda>r t. snd (register_scanner t (cli_plugin env t) None r)) empty_scanner_registry
          [DIRECTORY, DOCKER, OCI, ISO, QCOW2, IMG, AMI]))"


section \<open>The services\<close>

fun enrich_exc_str :: "enrich_exc \<Rightarrow> string" where
  "enrich_exc_str (Type_Error s) = s"
| "enrich_exc_str (Attribute_Error s) = quoted ''_NoOpCacheAdapter'' @ '' object has no attribute '' @ quoted s"
| "enrich_exc_str (Value_Error s) = s"
| "enrich_exc_str (Deb_Error (DebParseError file_path reason)) = ''Failed to parse .deb archive '' @ quoted file_path @ '': '' @ reason"
| "enrich_exc_str (Deb_Error (DependencyParseError package_name field_name reason)) =
     ''Failed to parse '' @ quoted field_name @ '' for package '' @ quoted package_name @ '': '' @ reason"

definition create_deb_extractor_for_iso ::
  "cli_env \<Rightarrow> string \<Rightarrow> string option \<Rightarrow> (identified_package \<Rightarrow> deb_error + package_enrichment option) option" where
  "create_deb_extractor_for_iso env artifact_path artifact_type =
     (let detected_type = (case artifact_type of
            Some t \<Rightarrow> if t = [] then Some (detect_artifact_type (cx_isdir env) artifact_path) else artifact_type_of t
          | None \<Rightarrow> Some (detect_artifact_type (cx_isdir env) artifact_path))
      in if detected_type = Some ISO then cx_deb_extractor env artifact_path else None)"

definition cli_enricher ::
  "cli_env \<Rightarrow> database_engines \<Rightarrow> (identified_package \<Rightarrow> deb_error + package_enrichment option) option \<Rightarrow> enrich_env" where
  "cli_enricher env engines deb_extractor =
     (cx_enrich env)\<lparr>en_cache := if db_cache engines then Cache_Database else No_Op_Cache, en_metadata := db_metadata engines,
       en_extract := deb_extractor\<rparr>"

definition create_run_env ::
  "cli_env \<Rightarrow> database_engines \<Rightarrow> (identified_package \<Rightarrow> deb_error + package_enrichment option) option \<Rightarrow>
     scanner_method scanner_registry \<Rightarrow> run_env" where
  "create_run_env env engines deb_extractor scanners =
     (let writers = load_writers (cx_writer_entry_points env) \<lparr>wr_writers = [], wr_diagnostics = []\<rparr>
      in \<lparr>re_cancelled = never, re_isdir = cx_isdir env,
        re_scanner = (\<lambda>t. case get_scanner t scanners of Inl _ \<Rightarrow> None | Inr p \<Rightarrow> pl_method p),
        re_enrich = (\<lambda>packages snapshot_id.
          map_sum enrich_exc_str id (fst (enrich (cli_enricher env engines deb_extractor) packages snapshot_id (cx_cache_rows env)))),
        re_assemble = assemble (cx_assembler env),
        re_writer = (\<lambda>f. case get_writer f writers of Inl _ \<Rightarrow> None | Inr p \<Rightarrow> pl_method p),
        re_mkdir_fault = (\<lambda>_. None), re_write_fault = cx_write_fault env, re_session_fault = None, re_sha256 = cx_sha256 env,
        re_registered_types = str_list (map (\<lambda>(t, _). artifact_type_value t) (sr_scanners scanners)),
        re_registered_formats = str_list (map (\<lambda>(f, _). format_value f) (wr_writers writers))\<rparr>)"

section \<open>The run\<close>

text \<open>Results are read back from the files.\<close>

definition collect_results :: "cli_env \<Rightarrow> output_format list \<Rightarrow> string \<Rightarrow> run_state \<Rightarrow> string + writer_result list" where
  "collect_results env formats output_dir st =
     traverse (\<lambda>(fmt, content). check_writer_result \<lparr>wt_output_path = output_path output_dir fmt, wt_format = fmt,
         wt_sha256 = cx_sha256 env content, wt_file_size = int (length content), wt_diagnostics = []\<rparr>)
       (List.map_filter (\<lambda>fmt. map_option (Pair fmt) (dict_get (rs_files st) (output_path output_dir fmt))) formats)"

definition run_sbom ::
  "cli_env \<Rightarrow> string \<Rightarrow> output_format list \<Rightarrow> string \<Rightarrow> string option \<Rightarrow> int option \<Rightarrow> run_state \<Rightarrow>
     (string + writer_result list) \<times> run_state" where
  "run_sbom env artifact_path formats output_dir artifact_type snapshot_id st =
     (case cx_engines env of
        Inl e \<Rightarrow> (Inl e, st)
      | Inr engines \<Rightarrow>
          (let resolved_snapshot_id = resolve_snapshot_id (cx_query_fails env) (db_metadata engines) snapshot_id;
               deb_extractor = create_deb_extractor_for_iso env artifact_path artifact_type;
               config = \<lparr>sg_artifact_path = artifact_path, sg_output_dir = output_dir, sg_formats = formats,
                 sg_artifact_type = artifact_type, sg_scan_session_id = None, sg_snapshot_id = resolved_snapshot_id\<rparr>
           in case create_scanner_registry env of
                Inl e \<Rightarrow> (Inl e, st)
              | Inr scanners \<Rightarrow>
                  (case execute (create_run_env env engines deb_extractor scanners) config st of
                     (Inl e, st) \<Rightarrow> (Inl (run_exc_str e), st)
                   | (Inr _, st) \<Rightarrow> (collect_results env formats output_dir st, st))))"

definition remove_outputs :: "cli_env \<Rightarrow> output_format list \<Rightarrow> string \<Rightarrow> run_state \<Rightarrow> run_state" where
  "remove_outputs env formats output_dir st =
     foldl (\<lambda>st fmt. let partial_path = output_path output_dir fmt in
       if dict_has (rs_files st) partial_path \<and> \<not> cx_unlink_fault env partial_path
       then st\<lparr>rs_files := dict_pop (rs_files st) partial_path\<rparr> else st) st formats"

datatype cli_outcome = Generated "writer_result list" | Not_Generated | Run_Failed string | Rejected string

fun exit_code :: "cli_outcome \<Rightarrow> nat" where
  "exit_code (Generated _) = 0" | "exit_code Not_Generated = 1" | "exit_code (Run_Failed _) = 1" | "exit_code (Rejected _) = 1"

record sbom_options =
  so_format :: "string list option"
  so_output_dir :: string
  so_type :: "string option"
  so_snapshot_id :: "string option"

text \<open>The checks in their order.\<close>

definition validate_options :: "cli_env \<Rightarrow> (string \<Rightarrow> string) \<Rightarrow> string \<Rightarrow> sbom_options \<Rightarrow> string + output_format list \<times> int option" where
  "validate_options env repr artifact_path options =
     (case validate_artifact_path env artifact_path of
        Inl e \<Rightarrow> Inl e
      | Inr _ \<Rightarrow>
          (case validate_formats (so_format options) of
             Inl e \<Rightarrow> Inl e
           | Inr formats \<Rightarrow>
               (case validate_output_dir env (so_output_dir options) of
                  Inl e \<Rightarrow> Inl e
                | Inr _ \<Rightarrow> map_sum id (Pair formats) (validate_snapshot_id repr (so_snapshot_id options)))))"

definition sbom_command :: "cli_env \<Rightarrow> (string \<Rightarrow> string) \<Rightarrow> string \<Rightarrow> sbom_options \<Rightarrow> run_state \<Rightarrow> cli_outcome \<times> run_state" where
  "sbom_command env repr artifact_path options st =
     (case validate_options env repr artifact_path options of
        Inl e \<Rightarrow> (Rejected e, st)
      | Inr (formats, snapshot_id) \<Rightarrow>
          (case run_sbom env artifact_path formats (so_output_dir options) (so_type options) snapshot_id st of
             (Inl e, st) \<Rightarrow> (Run_Failed e, remove_outputs env formats (so_output_dir options) st)
           | (Inr results, st) \<Rightarrow> (if results = [] then Not_Generated else Generated results, st)))"


section \<open>All or nothing\<close>

lemma remove_outputs_get:
  "dict_get (rs_files (remove_outputs env formats output_dir st)) p =
     (if p \<in> output_path output_dir ` set formats \<and> \<not> cx_unlink_fault env p then None else dict_get (rs_files st) p)"
  by (induction formats arbitrary: st) (auto simp: remove_outputs_def Let_def dict_has_iff split: if_splits)

lemma validate_options_formats:
  assumes "validate_options env repr artifact_path options = Inr (formats, snapshot_id)"
  shows "formats \<noteq> []"
proof -
  have "List.map_filter output_format_of vs \<noteq> []" if "filter (\<lambda>f. output_format_of f = None) vs = []" "vs \<noteq> []" for vs
    using that by (cases vs) (auto simp: map_filter_simps split: if_splits option.splits)
  moreover have "validate_formats (so_format options) = Inr formats"
    using assms by (auto simp: validate_options_def map_sum_def split: sum.splits)
  ultimately show ?thesis by (auto simp: validate_formats_def all_formats_def Let_def split: option.splits list.splits if_splits)
qed

text \<open>The files that a run has written are read back, one result for each.\<close>

lemma collect_written:
  assumes "\<forall>fmt\<in>set formats. dict_get (rs_files st) (output_path output_dir fmt) \<noteq> None"
    and "collect_results env formats output_dir st = Inr results"
  shows "map wt_format results = formats"
proof -
  have files: "map fst (List.map_filter (\<lambda>fmt. map_option (Pair fmt) (dict_get (rs_files st) (output_path output_dir fmt))) formats) = formats"
    using assms(1) by (induction formats) (auto simp: map_filter_simps)
  have each: "check_writer_result w = Inr r \<Longrightarrow> r = w" for w r by (simp add: check_writer_result_def split: if_splits)
  have "map wt_format rs = map fst fs" if "traverse (\<lambda>(fmt, content). check_writer_result \<lparr>wt_output_path = output_path output_dir fmt, wt_format = fmt,
      wt_sha256 = cx_sha256 env content, wt_file_size = int (length content), wt_diagnostics = []\<rparr>) fs = Inr rs" for fs rs
    using that by (induction fs arbitrary: rs) (auto split: sum.splits dest: each)
  then show ?thesis using assms(2) files by (simp add: collect_results_def)
qed

lemma run_sbom_files:
  assumes "run_sbom env artifact_path formats output_dir artifact_type snapshot_id st = (r, st')"
  shows "keeps_files (output_path output_dir ` set formats) st st'"
    and "r = Inr results \<Longrightarrow> map wt_format results = formats \<and>
      (\<exists>engines extractor scanners scan eps doc. assemble (cx_assembler env) scan eps = Inr doc \<and> (\<forall>fmt\<in>set formats.
         \<exists>out. rendered (create_run_env env engines extractor scanners) doc fmt = Some out \<and>
           dict_get (rs_files st') (output_path output_dir fmt) = Some (fst out)))"
proof -
  define config where "config snapshot_id = \<lparr>sg_artifact_path = artifact_path, sg_output_dir = output_dir, sg_formats = formats,
      sg_artifact_type = artifact_type, sg_scan_session_id = None, sg_snapshot_id = snapshot_id\<rparr>" for snapshot_id
  have same: "keeps_files (output_path output_dir ` set formats) st st" by (simp add: keeps_files_def)
  have run: "(\<exists>e. r = Inl e \<and> st' = st) \<or> (\<exists>renv i q. execute renv (config i) st = (q, st') \<and>
      (\<exists>engines extractor scanners. renv = create_run_env env engines extractor scanners) \<and>
      (\<forall>results. r = Inr results \<longrightarrow> q = Inr () \<and> collect_results env formats output_dir st' = Inr results))"
    using assms by (force simp: run_sbom_def Let_def config_def split: sum.splits prod.splits)
  show "keeps_files (output_path output_dir ` set formats) st st'"
  proof (cases "\<exists>e. r = Inl e \<and> st' = st")
    case False
    then obtain renv i q where "execute renv (config i) st = (q, st')" using run by blast
    then show ?thesis using execute_elsewhere [of "config i" st renv] by (simp add: config_def)
  qed (use same in auto)
  show "map wt_format results = formats \<and>
      (\<exists>engines extractor scanners scan eps doc. assemble (cx_assembler env) scan eps = Inr doc \<and> (\<forall>fmt\<in>set formats.
         \<exists>out. rendered (create_run_env env engines extractor scanners) doc fmt = Some out \<and>
           dict_get (rs_files st') (output_path output_dir fmt) = Some (fst out)))" if r: "r = Inr results"
  proof -
    from run r obtain renv i engines extractor scanners where e: "execute renv (config i) st = (Inr (), st')"
      and renv: "renv = create_run_env env engines extractor scanners" and c: "collect_results env formats output_dir st' = Inr results" by auto
    have params: "sg_formats (config i) = formats" "sg_output_dir (config i) = output_dir" by (simp_all add: config_def)
    obtain scan_result doc where assembled: "document_of renv (config i) scan_result = Some doc"
      and doc: "\<forall>fmt\<in>set formats. \<exists>out. rendered renv doc fmt = Some out \<and>
        dict_get (rs_files st') (output_path output_dir fmt) = Some (fst out)"
      using written_files [OF e] unfolding params by blast
    from assembled have "\<exists>scan eps. assemble (cx_assembler env) scan eps = Inr doc"
      by (auto simp: document_of_def renv create_run_env_def Let_def split: sum.splits prod.splits)
    have "map wt_format results = formats" by (rule collect_written [OF _ c]) (use doc in auto)
    then show ?thesis using doc renv \<open>\<exists>scan eps. _\<close> by blast
  qed
qed



text \<open>A command whose databases cannot be opened removes the file that an earlier command wrote.\<close>

definition example_guest :: guest_env where
  "example_guest = \<lparr>gf_available = False, gf_open_image = (\<lambda>_. None), gf_inspect_os = Inr [], gf_mount_readonly = (\<lambda>_. None),
     gf_read_file = (\<lambda>_ p. Inl (OS_Error p)), gf_ls = (\<lambda>_. example_ls), gf_header = (\<lambda>p. Inl (OS_Error p)), gf_repr = id,
     gf_decode = id, gf_ports = no_op_ports\<rparr>"

definition example_cli :: cli_env where
  "example_cli = \<lparr>cx_exists = (\<lambda>_. True), cx_isdir = (\<lambda>_. False), cx_mkdir_fault = (\<lambda>_. None), cx_writable = (\<lambda>_. True),
     cx_write_fault = (\<lambda>_. None), cx_unlink_fault = (\<lambda>_. False), cx_sha256 = (\<lambda>_. replicate 64 CHR ''0''),
     cx_engines = Inl ''unable to open database file'', cx_query_fails = False, cx_missing_dependency = None,
     cx_deb_extractor = (\<lambda>_. None), cx_enrich = pair_env, cx_cache_rows = [], cx_assembler = example_assembler,
     cx_writer_entry_points = Inr [], cx_directory = example_directory, cx_docker = example_docker, cx_oci = example_oci,
     cx_iso = example_iso, cx_guest = example_guest\<rparr>"

definition example_options :: sbom_options where
  "example_options = \<lparr>so_format = Some [''cyclonedx''], so_output_dir = ''out'', so_type = None, so_snapshot_id = None\<rparr>"

definition earlier_run :: run_state where
  "earlier_run = \<lparr>rs_files = [(''out/sbom.cdx.json'', ''{}''), (''out/sbom.spdx.json'', ''{}'')], rs_events = [], rs_polls = 0, rs_rows = []\<rparr>"

lemma example_command:
  "sbom_command example_cli id ''/img'' example_options earlier_run =
     (Run_Failed ''unable to open database file'', earlier_run\<lparr>rs_files := [(''out/sbom.spdx.json'', ''{}'')]\<rparr>)"
proof -
  have "output_format_of ''cyclonedx'' = Some CYCLONEDX" by code_simp
  then show ?thesis
    by (simp add: sbom_command_def validate_options_def validate_artifact_path_def validate_formats_def validate_output_dir_def
        validate_snapshot_id_def run_sbom_def remove_outputs_def Let_def example_cli_def example_options_def earlier_run_def
        map_filter_simps example_paths dict_has_def dict_pop_def)
qed


section \<open>What the command cannot find\<close>

text \<open>Without a cache, enrichment at a snapshot fails for every artifact that has a package.\<close>

lemma enrichment_needs_the_cache:
  assumes "\<not> db_cache engines" and "snapshot_id \<noteq> 0"
  shows "\<exists>msg. re_enrich (create_run_env env engines extractor scanners) (pkg # packages) snapshot_id = Inl msg"
proof -
  have "en_cache (cli_enricher env engines extractor) = No_Op_Cache" using assms(1) by (simp add: cli_enricher_def)
  from no_op_cache_raises [OF this assms(2)] obtain msg
    where "enrich (cli_enricher env engines extractor) (pkg # packages) snapshot_id (cx_cache_rows env) = (Inl (Type_Error msg), cx_cache_rows env)" by blast
  then show ?thesis by (simp add: create_run_env_def Let_def)
qed

text \<open>The scanners of disk images are given no inspector: every image gives no package, and the run goes on.\<close>

lemma disk_images_empty:
  "\<exists>d. cli_scanner env QCOW2 art polls = (Inr (scan_result_of art [] DPKG_METADATA [d]), polls)"
  "\<exists>d. cli_scanner env IMG art polls = (Inr (scan_result_of art [] DPKG_METADATA [d]), polls)"
  by (auto simp: cli_scanner_def of_scanned_def qcow2_scan_def img_scan_def fail_with_def finish_def note_all_def start_state_def Let_def)

text \<open>No package is ever inferred from files.\<close>

lemma nothing_inferred: "fa_packages (analyze_at no_op_ports snapshot_id file_paths) = []"
  by (simp add: analyze_at_def analyze_filesystem_def no_op_ports_def Let_def)

text \<open>The warnings of the writers are dropped: what is read back has no diagnostics.\<close>

lemma collected_without_diagnostics:
  assumes "collect_results env formats output_dir st = Inr results"
  shows "concat (map wt_diagnostics results) = []"
proof -
  have "concat (map wt_diagnostics rs) = []" if "traverse (\<lambda>(fmt, content). check_writer_result \<lparr>wt_output_path = output_path output_dir fmt, wt_format = fmt,
      wt_sha256 = cx_sha256 env content, wt_file_size = int (length content), wt_diagnostics = []\<rparr>) fs = Inr rs" for fs rs
    using that by (induction fs arbitrary: rs) (auto simp: check_writer_result_def split: sum.splits if_splits)
  then show ?thesis using assms unfolding collect_results_def .
qed

section \<open>Snapshot identifiers\<close>

text \<open>A decimal integer is accepted exactly in the range; the text may also have blanks around it and underscores between digits.\<close>

lemma validate_snapshot_int:
  assumes "length (nat_str (nat \<bar>i\<bar>)) \<le> 4300"
  shows "validate_snapshot_id repr (Some (int_str i)) =
    (if 1 \<le> i \<and> i \<le> MAX_SNAPSHOT_ID then Inr (Some i) else Inl (snapshot_range_error (int_str i)))"
proof -
  have "CHR ''.'' \<notin> set (int_str i)"
  proof
    assume "CHR ''.'' \<in> set (int_str i)"
    then have "CHR ''.'' \<in> set (nat_str (nat \<bar>i\<bar>))" by (auto simp: int_str_def split: if_splits)
    from nat_str_digits [OF this] obtain d where "d < 10" "CHR ''.'' = digit_char d" by blast
    then have "(of_char (CHR ''.'') :: nat) = 48 + d" using of_char_digit_char by metis
    then show False by simp
  qed
  then show ?thesis using py_int_int_str [OF assms] by (auto simp: validate_snapshot_id_def)
qed

lemma validate_snapshot_other:
  "validate_snapshot_id repr (Some ''1_0'') = Inr (Some 10)" "validate_snapshot_id repr (Some '' +7 '') = Inr (Some 7)"
  "validate_snapshot_id repr (Some ''3.0'') = Inl (snapshot_range_error (repr ''3.0''))"
proof -
  have "py_int ''1_0'' = Some 10" "py_int '' +7 '' = Some 7" by code_simp+
  then show "validate_snapshot_id repr (Some ''1_0'') = Inr (Some 10)" "validate_snapshot_id repr (Some '' +7 '') = Inr (Some 7)"
    "validate_snapshot_id repr (Some ''3.0'') = Inl (snapshot_range_error (repr ''3.0''))"
    by (simp_all add: validate_snapshot_id_def MAX_SNAPSHOT_ID_def)
qed


section \<open>The files are the documents\<close>

text \<open>The entry points of the project itself (\<open>pyproject.toml\<close>).\<close>

definition writer_plugin :: "string \<Rightarrow> writer_method \<Rightarrow> writer_method plugin" where
  "writer_plugin name w = \<lparr>pl_method = Some w, pl_priority = None, pl_class_name = name, pl_repr = name\<rparr>"

definition builtin_writers :: "writer_env \<Rightarrow> writer_method writer_entry_point list" where
  "builtin_writers wenv =
     [\<lparr>we_name = ''spdx_3_0'', we_load = Inr (Inr (writer_plugin ''SPDX3Writer'' (spdx3_writer wenv)))\<rparr>,
      \<lparr>we_name = ''spdx_2_3'', we_load = Inr (Inr (writer_plugin ''SPDX23Writer'' (spdx23_writer wenv)))\<rparr>,
      \<lparr>we_name = ''cyclonedx'', we_load = Inr (Inr (writer_plugin ''CycloneDXWriter'' (cyclonedx_writer wenv)))\<rparr>]"

definition serialized :: "writer_env \<Rightarrow> output_format \<Rightarrow> sbom_document \<Rightarrow> json" where
  "serialized wenv fmt doc = (case fmt of
     SPDX_3_0 \<Rightarrow> fst (spdx3_serialize doc) | SPDX_2_3 \<Rightarrow> fst (spdx23_serialize doc) | CYCLONEDX \<Rightarrow> cyclonedx_serialize wenv doc)"

definition builtin_writer :: "writer_env \<Rightarrow> output_format \<Rightarrow> writer_method" where
  "builtin_writer wenv fmt = (case fmt of
     SPDX_3_0 \<Rightarrow> spdx3_writer wenv | SPDX_2_3 \<Rightarrow> spdx23_writer wenv | CYCLONEDX \<Rightarrow> cyclonedx_writer wenv)"

lemma output_formats: "output_format_of ''spdx_3_0'' = Some SPDX_3_0" "output_format_of ''spdx_2_3'' = Some SPDX_2_3" "output_format_of ''cyclonedx'' = Some CYCLONEDX"
  by code_simp+

lemma builtin_registered:
  assumes "cx_writer_entry_points env = Inr (builtin_writers wenv)"
  shows "re_writer (create_run_env env engines extractor scanners) fmt = Some (builtin_writer wenv fmt)"
  using assms
  by (cases fmt) (simp_all add: create_run_env_def Let_def load_writers_def builtin_writers_def load_writer_entry_point_def output_formats
      writer_plugin_def get_writer_def dict_has_def builtin_writer_def)

lemma builtin_output:
  assumes "snd (builtin_writer wenv fmt) doc = Inr out"
  shows "fst out = print_sbom (serialized wenv fmt doc)"
  using assms
  by (cases fmt) (auto simp: builtin_writer_def serialized_def spdx3_writer_def spdx23_writer_def cyclonedx_writer_def Let_def map_sum_def
      split: prod.splits sum.splits schema_exc.splits)

text \<open>Property C29. From the artifact to the bytes: with the project's own writers, a command that succeeds leaves, for every format it was
  asked for, the printed form of the same document, which the assembler built from a scan; what is printed is well formed, so that
  two such files are equal only if they state the same.\<close>

theorem generated_files_are_documents:
  assumes "cx_writer_entry_points env = Inr (builtin_writers wenv)"
    and "sbom_command env repr artifact_path options st = (Generated results, st')"
  shows "\<exists>scan eps doc. assemble (cx_assembler env) scan eps = Inr doc \<and>
    (\<forall>fmt\<in>set (map wt_format results). json_printable (serialized wenv fmt doc) \<and>
       dict_get (rs_files st') (output_path (so_output_dir options) fmt) = Some (print_sbom (serialized wenv fmt doc)))"
proof -
  obtain formats snapshot_id where valid: "validate_options env repr artifact_path options = Inr (formats, snapshot_id)"
    and run: "run_sbom env artifact_path formats (so_output_dir options) (so_type options) snapshot_id st = (Inr results, st')"
    using assms(2) by (auto simp: sbom_command_def split: sum.splits prod.splits if_splits)
  obtain engines extractor scanners scan eps doc where formats: "map wt_format results = formats" and doc: "assemble (cx_assembler env) scan eps = Inr doc"
    and files: "\<forall>fmt\<in>set formats. \<exists>out. rendered (create_run_env env engines extractor scanners) doc fmt = Some out \<and>
           dict_get (rs_files st') (output_path (so_output_dir options) fmt) = Some (fst out)"
    using run_sbom_files(2) [OF run refl] by blast
  have "json_printable (serialized wenv fmt doc)" for fmt
    by (cases fmt) (simp_all add: serialized_def printable_spdx3 printable_spdx23 printable_cyclonedx)
  moreover have "fst out = print_sbom (serialized wenv fmt doc)" if "rendered (create_run_env env engines extractor scanners) doc fmt = Some out" for fmt out
    using that by (intro builtin_output) (auto simp: rendered_def builtin_registered [OF assms(1)] split: sum.splits)
  ultimately show ?thesis using doc files unfolding formats by metis
qed

text \<open>A command that succeeds: a path that is not accessible has no packages, and the document says so.\<close>

definition example_wenv :: writer_env where
  "example_wenv = \<lparr>wv_loads = (\<lambda>_. Inr JNull), wv_load_schema = (\<lambda>_. None), wv_check_schema = (\<lambda>_. None), wv_iter_errors = (\<lambda>_ _. []),
     wv_sha256 = (\<lambda>_. replicate 64 CHR ''0''), wv_uuid5 = (\<lambda>_. ''u'')\<rparr>"

definition working_cli :: cli_env where
  "working_cli = example_cli\<lparr>cx_engines := Inr \<lparr>db_metadata = None, db_cache = True\<rparr>, cx_writer_entry_points := Inr (builtin_writers example_wenv)\<rparr>"

lemma write_succeeds:
  assumes "\<And>n. \<not> re_cancelled env n" "re_mkdir_fault env path = None" "re_write_fault env path = None"
    and "HEX_PATTERN (re_sha256 env out)" "length (re_sha256 env out) = 64" and "snd writer doc = Inr (out, [])"
  shows "\<exists>n. write_document env writer doc path fmt st =
    (Inr \<lparr>wt_output_path = path, wt_format = fmt, wt_sha256 = re_sha256 env out, wt_file_size = int (length out), wt_diagnostics = []\<rparr>,
     st\<lparr>rs_polls := n, rs_files := dict_set (rs_files st) path out\<rparr>)"
proof -
  have "\<exists>m. check_token env k path s = (Inr (), s\<lparr>rs_polls := m\<rparr>)" for k s
  proof (induction k arbitrary: s)
    case 0
    show ?case by (rule exI [of _ "rs_polls s"]) simp
  next
    case (Suc k)
    then show ?case using Suc.IH [of "s\<lparr>rs_polls := Suc (rs_polls s)\<rparr>"] by (auto simp: poll_token_def assms(1))
  qed
  then obtain m where "check_token env (fst writer) path st = (Inr (), st\<lparr>rs_polls := m\<rparr>)" by blast
  then show ?thesis
    using assms by (intro exI [of _ "Suc (Suc m)"])
      (simp add: write_document_def and_then_eqs write_with_cancellation_def write_sbom_output_def poll_token_def check_writer_result_def)
qed

lemma example_empty_document: "\<exists>doc. assemble example_assembler (scan_result_of a [] DPKG_METADATA ds) [] = Inr doc"
  if "ar_path a = ''/img''"
proof -
  have "\<not> isl (assemble example_assembler (scan_result_of \<lparr>ar_type = DIRECTORY, ar_path = ''/img'', ar_options = []\<rparr> [] [] []) [])" by code_simp
  moreover have "assemble example_assembler (scan_result_of a [] DPKG_METADATA ds) [] =
      assemble example_assembler (scan_result_of \<lparr>ar_type = DIRECTORY, ar_path = ''/img'', ar_options = []\<rparr> [] [] []) []"
    using that by (simp add: assemble_def scan_result_of_def)
  ultimately show ?thesis by (metis isl_def sum.exhaust)
qed


lemma working_command:
  "\<exists>results st'. sbom_command working_cli id ''/img'' example_options earlier_run = (Generated results, st') \<and> map wt_format results = [CYCLONEDX]"
proof -
  let ?engines = "\<lparr>db_metadata = None, db_cache = True\<rparr>"
  obtain scanners where scanners: "create_scanner_registry working_cli = Inr scanners"
    and dir: "get_scanner DIRECTORY scanners = Inr (cli_plugin working_cli DIRECTORY)"
    by (simp add: create_scanner_registry_def working_cli_def example_cli_def register_scanner_def Let_def cli_plugin_def empty_scanner_registry_def
        store_scanner_def get_scanner_def)
  let ?renv = "create_run_env working_cli ?engines None scanners"
  let ?config = "\<lparr>sg_artifact_path = ''/img'', sg_output_dir = ''out'', sg_formats = [CYCLONEDX], sg_artifact_type = None, sg_scan_session_id = None, sg_snapshot_id = 0\<rparr>"
  have type: "detect_artifact_type (\<lambda>_. False) ''/img'' = DIRECTORY" by code_simp
  have env: "re_cancelled ?renv = never" "re_isdir ?renv = (\<lambda>_. False)" "re_scanner ?renv DIRECTORY = Some (cli_scanner working_cli DIRECTORY)"
    "re_enrich ?renv [] 0 = Inr ([], [''No published RepositorySnapshot available and no .deb extractor configured; skipping metadata enrichment.''])"
    "re_assemble ?renv = assemble example_assembler" "re_writer ?renv CYCLONEDX = Some (cyclonedx_writer example_wenv)"
    "re_mkdir_fault ?renv = (\<lambda>_. None)" "re_write_fault ?renv = (\<lambda>_. None)" "re_sha256 ?renv = (\<lambda>_. replicate 64 CHR ''0'')"
    using builtin_registered [of working_cli example_wenv]
    by (simp_all add: create_run_env_def Let_def dir cli_plugin_def cli_enricher_def enrich_def enrich_without_snapshot_def builtin_writer_def)
      (simp_all add: working_cli_def example_cli_def cli_plugin_def)
  obtain ds polls where scan: "cli_scanner working_cli DIRECTORY \<lparr>ar_type = DIRECTORY, ar_path = ''/img'', ar_options = []\<rparr> n =
      (Inr (scan_result_of \<lparr>ar_type = DIRECTORY, ar_path = ''/img'', ar_options = []\<rparr> [] DPKG_METADATA ds), polls n)" for n
    by (simp add: cli_scanner_def of_scanned_def directory_scan_def working_cli_def example_cli_def example_directory_def finish_def note_all_def
        start_state_def Let_def)
  obtain doc where doc: "assemble example_assembler (scan_result_of \<lparr>ar_type = DIRECTORY, ar_path = ''/img'', ar_options = []\<rparr> [] DPKG_METADATA ds) [] = Inr doc"
    using example_empty_document [of "\<lparr>ar_type = DIRECTORY, ar_path = ''/img'', ar_options = []\<rparr>" ds] by auto
  then have doc': "assemble example_assembler \<lparr>sc_packages = [], sc_strategy = DPKG_METADATA, sc_diagnostics = ds, sc_artifact_path = ''/img'',
      sc_enriched_packages = []\<rparr> [] = Inr doc"
    by (simp add: scan_result_of_def)
  define out where "out = print_sbom (cyclonedx_serialize example_wenv doc)"
  have rendered: "snd (cyclonedx_writer example_wenv) doc = Inr (out, [])"
    by (simp add: cyclonedx_writer_def Let_def out_def validate_json_def get_validator_def and_then_eqs example_wenv_def)
  have hash: "HEX_PATTERN (replicate 64 CHR ''0'')" by code_simp
  let ?result = "\<lparr>wt_output_path = ''out/sbom.cdx.json'', wt_format = CYCLONEDX, wt_sha256 = replicate 64 CHR ''0'', wt_file_size = int (length out), wt_diagnostics = []\<rparr>"
  have "\<exists>n. write_document ?renv (cyclonedx_writer example_wenv) doc ''out/sbom.cdx.json'' CYCLONEDX s =
      (Inr ?result, s\<lparr>rs_polls := n, rs_files := dict_set (rs_files s) ''out/sbom.cdx.json'' out\<rparr>)" for s
    using write_succeeds [of ?renv "''out/sbom.cdx.json''" out "cyclonedx_writer example_wenv" doc CYCLONEDX s] rendered hash
    by (simp add: env never_def)
  then obtain n where written: "write_document ?renv (cyclonedx_writer example_wenv) doc ''out/sbom.cdx.json'' CYCLONEDX s =
      (Inr ?result, s\<lparr>rs_polls := n s, rs_files := dict_set (rs_files s) ''out/sbom.cdx.json'' out\<rparr>)" for s by metis
  have "\<exists>st'. execute ?renv ?config earlier_run = (Inr (), st') \<and> dict_get (rs_files st') ''out/sbom.cdx.json'' = Some out"
    by (simp add: execute_def run_steps_def and_then_eqs completed_def guarded_def poll_token_def env publish_sbom_def scan_step_def type scan
        never_def enrich_step_def scan_result_of_def assemble_step_def doc' write_format_def example_paths written persist_step_def
        check_write_failures_def)
  then obtain st' where run: "execute ?renv ?config earlier_run = (Inr (), st')" and stored: "dict_get (rs_files st') ''out/sbom.cdx.json'' = Some out" by blast
  have collected: "collect_results working_cli [CYCLONEDX] ''out'' st' = Inr [?result]"
    using hash by (simp add: collect_results_def map_filter_simps example_paths stored check_writer_result_def) (simp add: working_cli_def example_cli_def)
  have engines: "cx_engines working_cli = Inr ?engines" "create_deb_extractor_for_iso working_cli ''/img'' None = None" "cx_query_fails working_cli = False"
    using type by (simp_all add: working_cli_def example_cli_def create_deb_extractor_for_iso_def)
  have valid: "validate_options working_cli id ''/img'' example_options = Inr ([CYCLONEDX], None)"
    by (simp add: validate_options_def validate_artifact_path_def validate_formats_def validate_output_dir_def
        validate_snapshot_id_def working_cli_def example_cli_def example_options_def map_filter_simps output_formats)
  have "run_sbom working_cli ''/img'' [CYCLONEDX] ''out'' None None earlier_run = (Inr [?result], st')"
    by (simp add: run_sbom_def engines resolve_snapshot_id_def Let_def scanners run collected)
  then have "sbom_command working_cli id ''/img'' example_options earlier_run = (Generated [?result], st')"
    unfolding sbom_command_def valid by (simp add: example_options_def)
  then show ?thesis by (intro exI [of _ "[?result]"] exI [of _ st'] conjI) simp_all
qed

theorem generated_files_are_documents_witness:
  "\<exists>results st' doc. sbom_command working_cli id ''/img'' example_options earlier_run = (Generated results, st') \<and>
     dict_get (rs_files st') ''out/sbom.cdx.json'' = Some (print_sbom (cyclonedx_serialize example_wenv doc))"
proof -
  obtain results st' where run: "sbom_command working_cli id ''/img'' example_options earlier_run = (Generated results, st')"
    and formats: "map wt_format results = [CYCLONEDX]" using working_command by (elim exE conjE) rule
  have "cx_writer_entry_points working_cli = Inr (builtin_writers example_wenv)" by (simp add: working_cli_def)
  from generated_files_are_documents [OF this run]
  obtain doc where "dict_get (rs_files st') (output_path (so_output_dir example_options) CYCLONEDX) = Some (print_sbom (serialized example_wenv CYCLONEDX doc))"
    unfolding formats by auto
  then show ?thesis using run by (auto simp: example_options_def example_paths serialized_def)
qed

end
