(* ===== verification/Kernel_Workflow.thy ===== *)
theory Kernel_Workflow
  imports Py_Data Complex_Main
begin

text \<open>
  The runtime of the platform: the event bus (\<open>src/debcraft/platform/kernel/events.py\<close>), the resource
  manager (\<open>resources.py\<close>) and the workflow engine (\<open>workflow.py\<close>) with the contracts of
  \<open>src/debcraft/platform/contracts/\<close>. The engine is a state machine: between two \<open>await\<close>s a coroutine
  runs undisturbed, so a step of the machine is what one coroutine does from one \<open>await\<close> to the next, and
  the steps of all workflows interleave with cancellation, shutdown and the interrupt handler.
\<close>

section \<open>The event bus\<close>

text \<open>Handlers are numbers; a handler either returns or raises, and the bus goes on in both cases.\<close>

record event_bus =
  eb_handlers :: "(string, nat list) dict"

definition subscribe :: "string \<Rightarrow> nat \<Rightarrow> event_bus \<Rightarrow> event_bus" where
  "subscribe event_type handler bus =
     bus\<lparr>eb_handlers := dict_set (eb_handlers bus) event_type (dict_getd (eb_handlers bus) event_type [] @ [handler])\<rparr>"

definition unsubscribe :: "string \<Rightarrow> nat \<Rightarrow> event_bus \<Rightarrow> event_bus" where
  "unsubscribe event_type handler bus =
     (case dict_get (eb_handlers bus) event_type of None \<Rightarrow> bus
      | Some handlers \<Rightarrow> bus\<lparr>eb_handlers := dict_set (eb_handlers bus) event_type (remove1 handler handlers)\<rparr>)"

text \<open>The handlers called, in order, each with whether its exception was logged.\<close>

definition publish :: "(nat \<Rightarrow> bool) \<Rightarrow> string \<Rightarrow> event_bus \<Rightarrow> (nat \<times> bool) list" where
  "publish raises event_type bus =
     (case dict_get (eb_handlers bus) event_type of None \<Rightarrow> [] | Some handlers \<Rightarrow> map (\<lambda>h. (h, raises h)) handlers)"

section \<open>The resource manager\<close>

record resource_manager =
  rm_cleanups :: "(string \<times> nat) list"

text \<open>\<open>acquire_async\<close> and \<open>acquire_sync\<close>: entering the context manager raises or gives a value.\<close>

definition acquire :: "string \<Rightarrow> nat \<Rightarrow> string + 'v \<Rightarrow> resource_manager \<Rightarrow> (string + 'v) \<times> resource_manager" where
  "acquire resource_name resource entered rm =
     (case entered of Inl e \<Rightarrow> (Inl e, rm)
      | Inr v \<Rightarrow> (Inr v, rm\<lparr>rm_cleanups := rm_cleanups rm @ [(resource_name, resource)]\<rparr>))"

text \<open>The resources left, in order, each with whether its exception was logged.\<close>

definition cleanup :: "(nat \<Rightarrow> bool) \<Rightarrow> resource_manager \<Rightarrow> (nat \<times> bool) list \<times> resource_manager" where
  "cleanup raises rm = (map (\<lambda>(_, resource). (resource, raises resource)) (rev (rm_cleanups rm)), rm\<lparr>rm_cleanups := []\<rparr>)"

section \<open>Workflows\<close>

record execution_policy =
  ep_max_concurrency :: int
  ep_retry_count :: int
  ep_retry_backoff_seconds :: real
  ep_timeout_seconds :: real
  ep_fail_fast :: bool

definition default_policy :: execution_policy where
  "default_policy = \<lparr>ep_max_concurrency = 4, ep_retry_count = 0, ep_retry_backoff_seconds = 1,
     ep_timeout_seconds = 300, ep_fail_fast = True\<rparr>"

text \<open>The terminal states of \<open>WorkflowState\<close>; \<open>error_details\<close> is the argument of \<open>FAILED\<close>.\<close>

datatype workflow_state = COMPLETED | FAILED string | CANCELLED

text \<open>Where the coroutine of \<open>run\<close> waits: for the start event, in \<open>workflow.execute\<close>, in the back-off
  sleep, in \<open>scope.close\<close>, for the terminal event. It has returned its summary or, after the cancellation
  of its task reached it outside the \<open>try\<close> statement, it has not.\<close>

datatype phase =
    Starting
  | Executing nat
  | Sleeping nat real
  | Closing workflow_state
  | Publishing workflow_state
  | Done workflow_state
  | Aborted "workflow_state option"

record workflow_run =
  wr_name :: string
  wr_policy :: execution_policy
  wr_phase :: phase
  wr_cancelled :: bool

datatype signal =
    Scope_Ready
  | Scope_Failed string
  | Execute_Returns
  | Execute_Times_Out string
  | Execute_Raises string
  | Sleep_Ends
  | Scope_Closed
  | Event_Published
  | Task_Cancelled

definition max_attempts :: "execution_policy \<Rightarrow> nat" where "max_attempts policy = nat (ep_retry_count policy + 1)"

definition backoff :: "execution_policy \<Rightarrow> nat \<Rightarrow> real" where
  "backoff policy attempt = ep_retry_backoff_seconds policy * 2 ^ (attempt - 1)"

definition settle :: "workflow_run \<Rightarrow> phase" where
  "settle r = Closing (if wr_cancelled r then CANCELLED else COMPLETED)"

text \<open>The head of the loop \<open>for attempt in range(max_attempts)\<close>.\<close>

definition loop_head :: "nat \<Rightarrow> workflow_run \<Rightarrow> phase" where
  "loop_head attempt r =
     (if attempt \<ge> max_attempts (wr_policy r) \<or> wr_cancelled r then settle r
      else if attempt > 0 then Sleeping attempt (backoff (wr_policy r) attempt)
      else Executing attempt)"

definition goto :: "phase \<Rightarrow> workflow_run \<Rightarrow> workflow_run option" where "goto p r = Some (r\<lparr>wr_phase := p\<rparr>)"

definition cancel_and :: "workflow_state \<Rightarrow> workflow_run \<Rightarrow> workflow_run option" where
  "cancel_and final r = Some (r\<lparr>wr_cancelled := True, wr_phase := Closing final\<rparr>)"

fun advance :: "signal \<Rightarrow> phase \<Rightarrow> workflow_run \<Rightarrow> workflow_run option" where
  "advance Scope_Ready Starting r = goto (loop_head 0 r) r"
| "advance (Scope_Failed e) Starting r = goto (Closing (FAILED e)) r"
| "advance Task_Cancelled Starting r = cancel_and CANCELLED r"
| "advance Execute_Returns (Executing attempt) r = goto (settle r) r"
| "advance (Execute_Times_Out e) (Executing attempt) r = cancel_and (FAILED e) r"
| "advance (Execute_Raises e) (Executing attempt) r =
     goto (if ep_fail_fast (wr_policy r) \<or> attempt = max_attempts (wr_policy r) - 1 then Closing (FAILED e)
           else loop_head (attempt + 1) r) r"
| "advance Task_Cancelled (Executing attempt) r = cancel_and CANCELLED r"
| "advance Sleep_Ends (Sleeping attempt delay) r = goto (if wr_cancelled r then settle r else Executing attempt) r"
| "advance Task_Cancelled (Sleeping attempt delay) r = cancel_and CANCELLED r"
| "advance Scope_Closed (Closing final) r = goto (Publishing final) r"
| "advance Task_Cancelled (Closing final) r = goto (Aborted None) r"
| "advance Event_Published (Publishing final) r = goto (Done final) r"
| "advance Task_Cancelled (Publishing final) r = goto (Aborted (Some final)) r"
| "advance _ _ r = None"

section \<open>The engine\<close>

datatype workflow_event =
    WorkflowStartedEvent string nat
  | WorkflowCompletedEvent string nat
  | WorkflowFailedEvent string nat string
  | WorkflowCancelledEvent string nat

definition terminal_event :: "string \<Rightarrow> nat \<Rightarrow> workflow_state \<Rightarrow> workflow_event" where
  "terminal_event name i final =
     (case final of COMPLETED \<Rightarrow> WorkflowCompletedEvent name i
      | FAILED e \<Rightarrow> WorkflowFailedEvent name i e
      | CANCELLED \<Rightarrow> WorkflowCancelledEvent name i)"

text \<open>The identifier of a run is its index.\<close>

record workflow_engine =
  we_runs :: "workflow_run list"
  we_active_workflows :: "nat list"
  we_log :: "workflow_event list"

datatype label =
    Run_Workflow string execution_policy
  | Signal nat signal
  | Token_Cancelled nat
  | Cancel nat
  | Shutdown
  | Interrupt

definition cancel_runs :: "nat list \<Rightarrow> workflow_run list \<Rightarrow> workflow_run list" where
  "cancel_runs ids runs = map (\<lambda>(i, r). if i \<in> set ids then r\<lparr>wr_cancelled := True\<rparr> else r) (enumerate 0 runs)"

definition is_live :: "phase \<Rightarrow> bool" where
  "is_live p = (case p of Starting \<Rightarrow> True | Executing _ \<Rightarrow> True | Sleeping _ _ \<Rightarrow> True | _ \<Rightarrow> False)"

definition is_executing :: "phase \<Rightarrow> bool" where
  "is_executing p = (case p of Executing _ \<Rightarrow> True | _ \<Rightarrow> False)"

definition run_signal :: "nat \<Rightarrow> signal \<Rightarrow> workflow_engine \<Rightarrow> workflow_engine option" where
  "run_signal i s e =
     (if i < length (we_runs e) then
        map_option (\<lambda>r. e\<lparr>we_runs := (we_runs e)[i := r],
             we_active_workflows := (if is_live (wr_phase r) then we_active_workflows e else remove1 i (we_active_workflows e)),
             we_log := (case wr_phase r of Publishing final \<Rightarrow> we_log e @ [terminal_event (wr_name r) i final] | _ \<Rightarrow> we_log e)\<rparr>)
          (advance s (wr_phase (we_runs e ! i)) (we_runs e ! i))
      else None)"

text \<open>A workflow can cancel its own token while it executes.\<close>

fun engine_step :: "label \<Rightarrow> workflow_engine \<Rightarrow> workflow_engine option" where
  "engine_step (Run_Workflow name policy) e =
     (let i = length (we_runs e)
      in Some (e\<lparr>we_runs := we_runs e @ [\<lparr>wr_name = name, wr_policy = policy, wr_phase = Starting, wr_cancelled = False\<rparr>],
                we_active_workflows := we_active_workflows e @ [i],
                we_log := we_log e @ [WorkflowStartedEvent name i]\<rparr>))"
| "engine_step (Signal i s) e = run_signal i s e"
| "engine_step (Token_Cancelled i) e =
     (if i < length (we_runs e) \<and> is_executing (wr_phase (we_runs e ! i))
      then Some (e\<lparr>we_runs := cancel_runs [i] (we_runs e)\<rparr>) else None)"
| "engine_step (Cancel i) e =
     Some (if i \<in> set (we_active_workflows e) then e\<lparr>we_runs := cancel_runs [i] (we_runs e)\<rparr> else e)"
| "engine_step Shutdown e = Some (e\<lparr>we_runs := cancel_runs (we_active_workflows e) (we_runs e)\<rparr>)"
| "engine_step Interrupt e = Some (e\<lparr>we_runs := cancel_runs (we_active_workflows e) (we_runs e)\<rparr>)"

definition idle_engine :: workflow_engine where
  "idle_engine = \<lparr>we_runs = [], we_active_workflows = [], we_log = []\<rparr>"

inductive engine_trace :: "label list \<Rightarrow> workflow_engine \<Rightarrow> bool" where
  idle: "engine_trace [] idle_engine"
| step: "engine_trace ls e \<Longrightarrow> engine_step l e = Some e' \<Longrightarrow> engine_trace (ls @ [l]) e'"

inductive_cases engine_trace_snocE: "engine_trace (ls @ [l]) e"

section \<open>What a run may look like\<close>

fun event_id :: "workflow_event \<Rightarrow> nat" where
  "event_id (WorkflowStartedEvent name i) = i"
| "event_id (WorkflowCompletedEvent name i) = i"
| "event_id (WorkflowFailedEvent name i e) = i"
| "event_id (WorkflowCancelledEvent name i) = i"

text \<open>The events of a run: its start, and its end once the terminal event is being published.\<close>

definition run_events :: "nat \<Rightarrow> workflow_run \<Rightarrow> workflow_event list" where
  "run_events i r = WorkflowStartedEvent (wr_name r) i #
     (case wr_phase r of
        Publishing f \<Rightarrow> [terminal_event (wr_name r) i f]
      | Done f \<Rightarrow> [terminal_event (wr_name r) i f]
      | Aborted (Some f) \<Rightarrow> [terminal_event (wr_name r) i f]
      | _ \<Rightarrow> [])"

text \<open>The state fits the token: a completed run was not cancelled, a cancelled one was.\<close>

definition final_ok :: "workflow_state \<Rightarrow> bool \<Rightarrow> bool" where
  "final_ok f cancelled = (case f of COMPLETED \<Rightarrow> \<not> cancelled | FAILED _ \<Rightarrow> True | CANCELLED \<Rightarrow> cancelled)"

definition run_ok :: "workflow_run \<Rightarrow> bool" where
  "run_ok r = (case wr_phase r of
       Starting \<Rightarrow> True
     | Executing k \<Rightarrow> k < max_attempts (wr_policy r)
     | Sleeping k d \<Rightarrow> 0 < k \<and> k < max_attempts (wr_policy r) \<and> \<not> ep_fail_fast (wr_policy r) \<and> d = backoff (wr_policy r) k
     | Closing f \<Rightarrow> final_ok f (wr_cancelled r)
     | Publishing f \<Rightarrow> final_ok f (wr_cancelled r)
     | Done f \<Rightarrow> final_ok f (wr_cancelled r)
     | Aborted f \<Rightarrow> True)"

definition run_fuel :: "workflow_run \<Rightarrow> nat" where
  "run_fuel r = (let m = max_attempts (wr_policy r) in case wr_phase r of
       Starting \<Rightarrow> 2 * m + 3
     | Executing k \<Rightarrow> 2 * (m - k) + 2
     | Sleeping k _ \<Rightarrow> 2 * (m - k) + 3
     | Closing _ \<Rightarrow> 2
     | Publishing _ \<Rightarrow> 1
     | Done _ \<Rightarrow> 0
     | Aborted _ \<Rightarrow> 0)"

lemmas run_defs = goto_def cancel_and_def settle_def loop_head_def run_ok_def final_ok_def is_live_def run_events_def run_fuel_def

text \<open>What one step of a run does to it.\<close>

lemma advance_run:
  assumes "advance s (wr_phase r) r = Some r'" and "run_ok r"
  shows "wr_name r' = wr_name r" "wr_policy r' = wr_policy r" "run_ok r'" "run_fuel r' < run_fuel r"
    "is_live (wr_phase r') \<Longrightarrow> is_live (wr_phase r)"
    "run_events i r' = run_events i r @ (case wr_phase r' of Publishing f \<Rightarrow> [terminal_event (wr_name r') i f] | _ \<Rightarrow> [])"
  using assms
  by (cases "wr_phase r"; cases s; auto simp: run_defs split: if_splits)+

lemma advance_enabled: "run_fuel r \<noteq> 0 \<Longrightarrow> \<exists>s. advance s (wr_phase r) r \<noteq> None"
proof (cases "wr_phase r")
  case Starting
  then show ?thesis by (intro exI [of _ Scope_Ready]) (simp add: run_defs)
next
  case (Executing k)
  then show ?thesis by (intro exI [of _ Execute_Returns]) (simp add: run_defs)
next
  case (Sleeping k d)
  then show ?thesis by (intro exI [of _ Sleep_Ends]) (simp add: run_defs)
next
  case (Closing f)
  then show ?thesis by (intro exI [of _ Scope_Closed]) (simp add: run_defs)
next
  case (Publishing f)
  then show ?thesis by (intro exI [of _ Event_Published]) (simp add: run_defs)
qed (simp_all add: run_defs)

lemma cancel_run_live:
  "is_live (wr_phase r) \<Longrightarrow> run_ok (r\<lparr>wr_cancelled := True\<rparr>) = run_ok r"
  by (auto simp: run_defs split: phase.splits)

lemma cancel_run_events [simp]:
  "run_events i (r\<lparr>wr_cancelled := True\<rparr>) = run_events i r" "run_fuel (r\<lparr>wr_cancelled := True\<rparr>) = run_fuel r"
  by (simp_all add: run_events_def run_fuel_def split: phase.split option.split)

lemma cancel_runs_length [simp]: "length (cancel_runs ids runs) = length runs"
  by (simp add: cancel_runs_def)

lemma cancel_runs_nth [simp]:
  "i < length runs \<Longrightarrow> cancel_runs ids runs ! i = (if i \<in> set ids then (runs ! i)\<lparr>wr_cancelled := True\<rparr> else runs ! i)"
  by (simp add: cancel_runs_def nth_enumerate_eq)

section \<open>The invariant of the engine\<close>

definition engine_ok :: "workflow_engine \<Rightarrow> bool" where
  "engine_ok e \<longleftrightarrow> distinct (we_active_workflows e) \<and>
     (\<forall>i \<in> set (we_active_workflows e). i < length (we_runs e)) \<and>
     (\<forall>ev \<in> set (we_log e). event_id ev < length (we_runs e)) \<and>
     (\<forall>i < length (we_runs e). (i \<in> set (we_active_workflows e) \<longleftrightarrow> is_live (wr_phase (we_runs e ! i))) \<and>
        run_ok (we_runs e ! i) \<and> filter (\<lambda>ev. event_id ev = i) (we_log e) = run_events i (we_runs e ! i))"

lemma event_id_terminal [simp]: "event_id (terminal_event name i f) = i"
  by (cases f) (simp_all add: terminal_event_def)

lemma engine_ok_idle: "engine_ok idle_engine"
  by (simp add: engine_ok_def idle_engine_def)

lemma engine_ok_start: "engine_ok e \<Longrightarrow> engine_step (Run_Workflow name policy) e = Some e' \<Longrightarrow> engine_ok e'"
proof -
  assume e: "engine_ok e" and s: "engine_step (Run_Workflow name policy) e = Some e'"
  let ?r = "\<lparr>wr_name = name, wr_policy = policy, wr_phase = Starting, wr_cancelled = False\<rparr>"
  have e': "we_runs e' = we_runs e @ [?r]" "we_active_workflows e' = we_active_workflows e @ [length (we_runs e)]"
    "we_log e' = we_log e @ [WorkflowStartedEvent name (length (we_runs e))]"
    using s by (auto simp: Let_def)
  have new: "filter (\<lambda>ev. event_id ev = length (we_runs e)) (we_log e) = []"
    using e by (auto simp: engine_ok_def filter_empty_conv)
  show ?thesis unfolding engine_ok_def e'
  proof (intro conjI allI impI)
    fix i assume i: "i < length (we_runs e @ [?r])"
    show "(i \<in> set (we_active_workflows e @ [length (we_runs e)])) = is_live (wr_phase ((we_runs e @ [?r]) ! i))"
      "run_ok ((we_runs e @ [?r]) ! i)"
      "filter (\<lambda>ev. event_id ev = i) (we_log e @ [WorkflowStartedEvent name (length (we_runs e))]) = run_events i ((we_runs e @ [?r]) ! i)"
      using e i new by (cases "i = length (we_runs e)"; auto simp: engine_ok_def nth_append run_ok_def is_live_def run_events_def)+
  qed (use e in \<open>auto simp: engine_ok_def intro: less_SucI\<close>)
qed

lemma engine_ok_cancel:
  assumes "engine_ok e" and "\<forall>i \<in> set ids. i < length (we_runs e) \<longrightarrow> is_live (wr_phase (we_runs e ! i))"
  shows "engine_ok (e\<lparr>we_runs := cancel_runs ids (we_runs e)\<rparr>)"
  using assms by (auto simp: engine_ok_def cancel_run_live)

lemma engine_ok_signal:
  assumes e: "engine_ok e" and s: "run_signal i sg e = Some e'"
  shows "engine_ok e'"
proof -
  let ?r = "we_runs e ! i"
  obtain r where i: "i < length (we_runs e)" and r: "advance sg (wr_phase ?r) ?r = Some r"
    and e': "e' = e\<lparr>we_runs := (we_runs e)[i := r],
             we_active_workflows := (if is_live (wr_phase r) then we_active_workflows e else remove1 i (we_active_workflows e)),
             we_log := (case wr_phase r of Publishing final \<Rightarrow> we_log e @ [terminal_event (wr_name r) i final] | _ \<Rightarrow> we_log e)\<rparr>"
    using s by (auto simp: run_signal_def split: if_splits)
  have ok: "run_ok ?r" "i \<in> set (we_active_workflows e) \<longleftrightarrow> is_live (wr_phase ?r)"
    "filter (\<lambda>ev. event_id ev = i) (we_log e) = run_events i ?r"
    using e i by (auto simp: engine_ok_def)
  note a = advance_run [OF r ok(1)]
  define new where "new = (case wr_phase r of Publishing final \<Rightarrow> [terminal_event (wr_name r) i final] | _ \<Rightarrow> [])"
  have log: "we_log e' = we_log e @ new" by (simp add: e' new_def split: phase.split)
  have new: "\<forall>ev \<in> set new. event_id ev = i" by (cases "wr_phase r") (simp_all add: new_def)
  have len: "length (we_runs e') = length (we_runs e)" by (simp add: e')
  have act: "j \<in> set (we_active_workflows e') \<longleftrightarrow> (if j = i then is_live (wr_phase r) else j \<in> set (we_active_workflows e))" for j
    using e a(5) ok(2) by (auto simp: e' engine_ok_def)
  have f: "filter (\<lambda>ev. event_id ev = j) (we_log e') = (if j = i then run_events i r else filter (\<lambda>ev. event_id ev = j) (we_log e))" for j
    using a(6) [of i, folded new_def] ok(3) new unfolding log
    by (auto simp: filter_id_conv [THEN iffD2] filter_empty_conv)
  show ?thesis
    unfolding engine_ok_def
  proof (intro conjI)
    show "distinct (we_active_workflows e')" using e by (auto simp: e' engine_ok_def)
    show "\<forall>j \<in> set (we_active_workflows e'). j < length (we_runs e')" using e i by (auto simp: e' engine_ok_def dest: notin_set_remove1)
    show "\<forall>ev \<in> set (we_log e'). event_id ev < length (we_runs e')" using e i new unfolding log len by (auto simp: engine_ok_def)
    show "\<forall>j < length (we_runs e'). (j \<in> set (we_active_workflows e') \<longleftrightarrow> is_live (wr_phase (we_runs e' ! j))) \<and>
        run_ok (we_runs e' ! j) \<and> filter (\<lambda>ev. event_id ev = j) (we_log e') = run_events j (we_runs e' ! j)"
      unfolding act f using e a(3) by (auto simp: engine_ok_def e' nth_list_update)
  qed
qed

lemma active_live: "engine_ok e \<Longrightarrow> i \<in> set (we_active_workflows e) \<Longrightarrow> i < length (we_runs e) \<Longrightarrow> is_live (wr_phase (we_runs e ! i))"
  unfolding engine_ok_def by blast

lemma engine_ok_step:
  assumes e: "engine_ok e" and s: "engine_step l e = Some e'"
  shows "engine_ok e'"
proof (cases l)
  case (Token_Cancelled i)
  then have "is_executing (wr_phase (we_runs e ! i))" "e' = e\<lparr>we_runs := cancel_runs [i] (we_runs e)\<rparr>"
    using s by (auto split: if_splits)
  then show ?thesis using engine_ok_cancel [OF e, of "[i]"]
    by (cases "wr_phase (we_runs e ! i)") (simp_all add: is_executing_def is_live_def)
next
  case (Cancel i)
  then have "e' = (if i \<in> set (we_active_workflows e) then e\<lparr>we_runs := cancel_runs [i] (we_runs e)\<rparr> else e)" using s by simp
  then show ?thesis using e engine_ok_cancel [OF e, of "[i]"] active_live [OF e, of i] by simp
next
  case Shutdown
  then show ?thesis using s engine_ok_cancel [OF e, of "we_active_workflows e"] active_live [OF e] by simp
next
  case Interrupt
  then show ?thesis using s engine_ok_cancel [OF e, of "we_active_workflows e"] active_live [OF e] by simp
qed (use e s in \<open>auto intro: engine_ok_start engine_ok_signal simp del: engine_step.simps(1)\<close>)

lemma engine_trace_ok: "engine_trace ls e \<Longrightarrow> engine_ok e"
  by (induction rule: engine_trace.induct) (auto intro: engine_ok_idle engine_ok_step)

section \<open>How long a run takes\<close>

definition own_step :: "nat \<Rightarrow> label \<Rightarrow> bool" where
  "own_step i l = (case l of Signal j _ \<Rightarrow> j = i | _ \<Rightarrow> False)"

lemma run_policy_stays:
  "engine_step l e = Some e' \<Longrightarrow> engine_ok e \<Longrightarrow> i < length (we_runs e) \<Longrightarrow>
     i < length (we_runs e') \<and> wr_policy (we_runs e' ! i) = wr_policy (we_runs e ! i) \<and>
     (if own_step i l then run_fuel (we_runs e' ! i) < run_fuel (we_runs e ! i)
      else run_fuel (we_runs e' ! i) = run_fuel (we_runs e ! i))"
proof (cases l)
  case (Signal j s)
  assume a: "engine_step l e = Some e'" "engine_ok e" "i < length (we_runs e)"
  then obtain r where r: "j < length (we_runs e)" "advance s (wr_phase (we_runs e ! j)) (we_runs e ! j) = Some r"
    "we_runs e' = (we_runs e)[j := r]"
    using Signal by (auto simp: run_signal_def split: if_splits)
  have "run_ok (we_runs e ! j)" using a(2) r(1) by (simp add: engine_ok_def)
  note advance_run [OF r(2) this]
  then show ?thesis using a(3) r Signal by (auto simp: own_step_def nth_list_update)
qed (auto simp: own_step_def nth_append Let_def split: if_splits)

lemma step_length:
  assumes "engine_step l e = Some e'"
  shows "length (we_runs e) \<le> length (we_runs e')" and "own_step i l \<Longrightarrow> i < length (we_runs e)"
  using assms by (cases l; auto simp: Let_def run_signal_def own_step_def split: if_splits)+

lemma trace_own_step: "engine_trace ls e \<Longrightarrow> i \<ge> length (we_runs e) \<Longrightarrow> \<forall>l \<in> set ls. \<not> own_step i l"
proof (induction rule: engine_trace.induct)
  case (step ls e l e')
  then show ?case using step_length [OF step.hyps(2)] by fastforce
qed simp

lemma trace_fuel:
  "engine_trace ls e \<Longrightarrow> \<forall>i < length (we_runs e).
     length (filter (own_step i) ls) + run_fuel (we_runs e ! i) \<le> 2 * max_attempts (wr_policy (we_runs e ! i)) + 3"
proof (induction rule: engine_trace.induct)
  case (step ls e l e')
  have ok: "engine_ok e" using step.hyps(1) by (rule engine_trace_ok)
  show ?case
  proof (intro allI impI)
    fix i assume i: "i < length (we_runs e')"
    show "length (filter (own_step i) (ls @ [l])) + run_fuel (we_runs e' ! i) \<le> 2 * max_attempts (wr_policy (we_runs e' ! i)) + 3"
    proof (cases "i < length (we_runs e)")
      case True
      then show ?thesis using run_policy_stays [OF step.hyps(2) ok True] step.IH by (auto split: if_splits dest!: spec [of _ i])
    next
      case False
      then obtain name policy where l: "l = Run_Workflow name policy" using step.hyps(2) i
        by (cases l) (auto simp: run_signal_def split: if_splits)
      then have "we_runs e' ! i = \<lparr>wr_name = name, wr_policy = policy, wr_phase = Starting, wr_cancelled = False\<rparr>"
        using step.hyps(2) i False by (auto simp: Let_def nth_append)
      moreover have "filter (own_step i) ls = []" using trace_own_step [OF step.hyps(1)] False by (simp add: filter_empty_conv)
      ultimately show ?thesis using l by (simp add: own_step_def run_fuel_def Let_def)
    qed
  qed
qed (simp add: idle_engine_def)


text \<open>If its workflow returns whenever it is executed, every run comes to its end: it takes at
  most two steps for each attempt and three more, and until it has ended some step of it is possible.\<close>

theorem engine_runs_end:
  assumes "engine_trace ls e" and "i < length (we_runs e)"
  shows "length (filter (own_step i) ls) \<le> 2 * max_attempts (wr_policy (we_runs e ! i)) + 3 \<and>
    ((\<exists>s. engine_step (Signal i s) e \<noteq> None) \<or>
     (\<exists>f. wr_phase (we_runs e ! i) = Done f) \<or> (\<exists>f. wr_phase (we_runs e ! i) = Aborted f))"
proof
  show "length (filter (own_step i) ls) \<le> 2 * max_attempts (wr_policy (we_runs e ! i)) + 3"
    using trace_fuel [OF assms(1)] assms(2) by fastforce
  show "(\<exists>s. engine_step (Signal i s) e \<noteq> None) \<or>
     (\<exists>f. wr_phase (we_runs e ! i) = Done f) \<or> (\<exists>f. wr_phase (we_runs e ! i) = Aborted f)"
  proof (cases "run_fuel (we_runs e ! i) = 0")
    case True
    then show ?thesis by (auto simp: run_fuel_def Let_def split: phase.splits)
  next
    case False
    then show ?thesis using advance_enabled assms(2) by (auto simp: run_signal_def)
  qed
qed

text \<open>A sequence of labels run from the idle engine, for examples.\<close>

fun run_labels :: "label list \<Rightarrow> workflow_engine \<Rightarrow> workflow_engine option" where
  "run_labels [] e = Some e"
| "run_labels (l # ls) e = (case engine_step l e of None \<Rightarrow> None | Some e' \<Rightarrow> run_labels ls e')"

lemma run_labels_trace: "engine_trace ls e \<Longrightarrow> run_labels ms e = Some e' \<Longrightarrow> engine_trace (ls @ ms) e'"
proof (induction ms arbitrary: ls e)
  case (Cons m ms)
  then obtain e1 where "engine_step m e = Some e1" "run_labels ms e1 = Some e'" by (auto split: option.splits)
  then show ?case using Cons.IH [of "ls @ [m]" e1] engine_trace.step [OF Cons.prems(1)] by simp
qed simp

definition retry_policy :: execution_policy where
  "retry_policy = default_policy\<lparr>ep_retry_count := 1, ep_fail_fast := False\<rparr>"

definition example_labels :: "label list" where
  "example_labels = [Run_Workflow ''a'' retry_policy, Run_Workflow ''b'' default_policy, Signal 0 Scope_Ready,
     Signal 1 Scope_Ready, Signal 0 (Execute_Raises ''E''), Cancel 1, Signal 0 Sleep_Ends, Signal 1 Execute_Returns,
     Signal 0 Execute_Returns, Signal 1 Scope_Closed, Signal 0 Scope_Closed]"

definition example_engine :: workflow_engine where
  "example_engine = \<lparr>we_runs = [\<lparr>wr_name = ''a'', wr_policy = retry_policy, wr_phase = Publishing COMPLETED, wr_cancelled = False\<rparr>,
       \<lparr>wr_name = ''b'', wr_policy = default_policy, wr_phase = Publishing CANCELLED, wr_cancelled = True\<rparr>],
     we_active_workflows = [],
     we_log = [WorkflowStartedEvent ''a'' 0, WorkflowStartedEvent ''b'' 1, WorkflowCancelledEvent ''b'' 1, WorkflowCompletedEvent ''a'' 0]\<rparr>"

lemma example_trace: "engine_trace example_labels example_engine"
proof -
  have "run_labels example_labels idle_engine = Some example_engine"
    by (simp add: example_labels_def example_engine_def idle_engine_def run_signal_def run_defs max_attempts_def
        retry_policy_def default_policy_def cancel_runs_def terminal_event_def Let_def)
  then show ?thesis using run_labels_trace [OF engine_trace.idle] by fastforce
qed


theorem engine_runs_end_witness: "length (filter (own_step 0) example_labels) \<le> 7"
  using engine_runs_end [OF example_trace, of 0]
  by (simp add: example_engine_def retry_policy_def default_policy_def max_attempts_def)

text \<open>With the default policy, which fails fast, a retry count has no effect.\<close>

lemma fail_fast_never_retries:
  assumes "ep_fail_fast (wr_policy r)" and "wr_phase r = Executing k"
  shows "advance (Execute_Raises m) (wr_phase r) r = Some (r\<lparr>wr_phase := Closing (FAILED m)\<rparr>)"
  using assms by (simp add: goto_def)

text \<open>A negative retry count completes a workflow that was never executed.\<close>

lemma negative_retries_complete:
  "ep_retry_count (wr_policy r) < 0 \<Longrightarrow> \<not> wr_cancelled r \<Longrightarrow>
     advance Scope_Ready Starting r = Some (r\<lparr>wr_phase := Closing COMPLETED\<rparr>)"
  by (simp add: goto_def loop_head_def settle_def max_attempts_def)

end
