(* ===== verification/Kernel_Container.thy ===== *)
theory Kernel_Container
  imports Py_Data
begin

text \<open>
  Dependency injection: \<open>src/debcraft/platform/kernel/container.py\<close>, the registrations of
  \<open>bootstrap.py\<close> and the errors of \<open>errors.py\<close>. Types are names; what reflection says of a class and
  whether its constructor raises are parameters. Instances live on a heap, so that sharing shows.
\<close>

section \<open>Registrations, instances, errors\<close>

datatype lifetime = SINGLETON | TRANSIENT | SCOPED

record service_registration =
  sr_interface :: string
  sr_implementation :: string
  sr_lifetime :: lifetime

datatype container_error =
    ServiceNotFoundError string
  | CircularDependencyError "string list"
  | Constructor_Raised string

text \<open>\<open>inspect.signature\<close> and \<open>typing.get_type_hints\<close> of a constructor: each parameter with whether
  it has a default and whether it is variadic, and the hints; \<open>None\<close> for a class without one.\<close>

record class_info =
  ci_params :: "(string \<times> bool \<times> bool) list"
  ci_hints :: "(string, string) dict"

record world_classes =
  wc_info :: "string \<Rightarrow> class_info option"
  wc_raises :: "string \<Rightarrow> (string \<times> nat) list \<Rightarrow> string option"

record instance_obj =
  io_class :: string
  io_arguments :: "(string \<times> nat) list"

record container =
  ct_registrations :: "(string, service_registration) dict"
  ct_singletons :: "(string, nat) dict"
  ct_heap :: "instance_obj list"

definition empty_container :: container where
  "empty_container = \<lparr>ct_registrations = [], ct_singletons = [], ct_heap = []\<rparr>"

definition register :: "lifetime \<Rightarrow> string \<Rightarrow> string option \<Rightarrow> container \<Rightarrow> container" where
  "register lt interface implementation c =
     (let impl = (case implementation of None \<Rightarrow> interface | Some i \<Rightarrow> i)
      in c\<lparr>ct_registrations := dict_set (ct_registrations c) interface
             \<lparr>sr_interface = interface, sr_implementation = impl, sr_lifetime = lt\<rparr>\<rparr>)"

definition register_singleton :: "string \<Rightarrow> string option \<Rightarrow> container \<Rightarrow> container" where
  "register_singleton = register SINGLETON"

definition register_transient :: "string \<Rightarrow> string option \<Rightarrow> container \<Rightarrow> container" where
  "register_transient = register TRANSIENT"

definition register_scoped :: "string \<Rightarrow> string option \<Rightarrow> container \<Rightarrow> container" where
  "register_scoped = register SCOPED"

text \<open>The instance is an object of the heap.\<close>

definition register_instance :: "string \<Rightarrow> nat \<Rightarrow> container \<Rightarrow> container" where
  "register_instance interface inst c =
     c\<lparr>ct_registrations := dict_set (ct_registrations c) interface
          \<lparr>sr_interface = interface, sr_implementation = io_class (ct_heap c ! inst), sr_lifetime = SINGLETON\<rparr>,
       ct_singletons := dict_set (ct_singletons c) interface inst\<rparr>"

definition get_constructor_annotations :: "world_classes \<Rightarrow> string \<Rightarrow> (string \<times> string) list" where
  "get_constructor_annotations w cls =
     (case wc_info w cls of
        None \<Rightarrow> []
      | Some info \<Rightarrow>
          (let params_without_defaults = map fst (filter (\<lambda>(name, has_default, variadic).
                 name \<noteq> ''self'' \<and> \<not> has_default \<and> \<not> variadic) (ci_params info))
           in if params_without_defaults = [] then []
              else filter (\<lambda>(k, v). k \<noteq> ''return'' \<and> k \<in> set params_without_defaults) (ci_hints info)))"

section \<open>Resolution\<close>

text \<open>\<open>implementation(**dependencies)\<close>.\<close>

definition instantiate :: "world_classes \<Rightarrow> string \<Rightarrow> (string \<times> nat) list \<Rightarrow> container \<Rightarrow> (container_error + nat) \<times> container" where
  "instantiate w impl dependencies c =
     (case wc_raises w impl dependencies of
        Some m \<Rightarrow> (Inl (Constructor_Raised m), c)
      | None \<Rightarrow> (Inr (length (ct_heap c)),
                 c\<lparr>ct_heap := ct_heap c @ [\<lparr>io_class = impl, io_arguments = dependencies\<rparr>]\<rparr>))"

definition cache_singleton :: "service_registration \<Rightarrow> string \<Rightarrow> nat \<Rightarrow> container \<Rightarrow> container" where
  "cache_singleton registration service_type inst c =
     (if sr_lifetime registration = SINGLETON
      then c\<lparr>ct_singletons := dict_set (ct_singletons c) service_type inst\<rparr> else c)"

text \<open>Each nested call has one more registered type on the stack.\<close>

lemma stack_measure:
  assumes "dict_get regs t = Some r" and "t \<notin> set stack"
  shows "card (set (map fst regs) - set (stack @ [t])) < card (set (map fst regs) - set stack)"
proof (rule psubset_card_mono)
  have "t \<in> set (map fst regs)" using map_of_SomeD [OF assms(1)] by force
  then show "set (map fst regs) - set (stack @ [t]) \<subset> set (map fst regs) - set stack" using assms(2) by auto
qed simp

text \<open>The stack is an argument: what \<open>try ... finally\<close> adds to it is gone after the call. It is a
  set in the code; the chain of the error lists it in no particular order.\<close>

function (sequential) resolve_in :: "world_classes \<Rightarrow> (string, service_registration) dict \<Rightarrow> string list \<Rightarrow> string \<Rightarrow> container \<Rightarrow>
    (container_error + nat) \<times> container"
  and resolve_all :: "world_classes \<Rightarrow> (string, service_registration) dict \<Rightarrow> string list \<Rightarrow> (string \<times> string) list \<Rightarrow> container \<Rightarrow>
    (container_error + (string \<times> nat) list) \<times> container" where
  "resolve_in w regs stack service_type c =
     (case dict_get regs service_type of
        None \<Rightarrow> (Inl (ServiceNotFoundError service_type), c)
      | Some registration \<Rightarrow>
          (case (if sr_lifetime registration = SINGLETON then dict_get (ct_singletons c) service_type else None) of
             Some inst \<Rightarrow> (Inr inst, c)
           | None \<Rightarrow>
               if service_type \<in> set stack then (Inl (CircularDependencyError (stack @ [service_type])), c)
               else
                 (case resolve_all w regs (stack @ [service_type])
                         (get_constructor_annotations w (sr_implementation registration)) c of
                    (Inl e, c') \<Rightarrow> (Inl e, c')
                  | (Inr dependencies, c') \<Rightarrow>
                      (case instantiate w (sr_implementation registration) dependencies c' of
                         (Inl e, c'') \<Rightarrow> (Inl e, c'')
                       | (Inr inst, c'') \<Rightarrow> (Inr inst, cache_singleton registration service_type inst c'')))))"
| "resolve_all w regs stack [] c = (Inr [], c)"
| "resolve_all w regs stack ((param_name, param_type) # params) c =
     (case resolve_in w regs stack param_type c of
        (Inl e, c') \<Rightarrow> (Inl e, c')
      | (Inr inst, c') \<Rightarrow>
          (case resolve_all w regs stack params c' of
             (Inl e, c'') \<Rightarrow> (Inl e, c'')
           | (Inr dependencies, c'') \<Rightarrow> (Inr ((param_name, inst) # dependencies), c'')))"
  by pat_completeness auto

termination
  by (relation "measures [\<lambda>x. case x of Inl (w, regs, stack, t, c) \<Rightarrow> card (set (map fst regs) - set stack)
                          | Inr (w, regs, stack, ps, c) \<Rightarrow> card (set (map fst regs) - set stack),
                         \<lambda>x. case x of Inl _ \<Rightarrow> 0 | Inr (w, regs, stack, ps, c) \<Rightarrow> Suc (length ps)]")
    (auto dest: stack_measure [unfolded set_append list.set])

definition container_resolve :: "world_classes \<Rightarrow> string \<Rightarrow> container \<Rightarrow> (container_error + nat) \<times> container" where
  "container_resolve w service_type c = resolve_in w (ct_registrations c) [] service_type c"

section \<open>Scopes\<close>

text \<open>Singletons are the parent's, with the parent's own stack, which is empty between its calls.\<close>

record kernel_scope =
  ks_container :: container
  ks_scoped_instances :: "(string, nat) dict"

definition create_scope :: "container \<Rightarrow> kernel_scope" where
  "create_scope c = \<lparr>ks_container = c, ks_scoped_instances = []\<rparr>"

definition cache_scoped :: "service_registration \<Rightarrow> string \<Rightarrow> nat \<Rightarrow> kernel_scope \<Rightarrow> kernel_scope" where
  "cache_scoped registration service_type inst s =
     (if sr_lifetime registration = SCOPED
      then s\<lparr>ks_scoped_instances := dict_set (ks_scoped_instances s) service_type inst\<rparr> else s)"

function (sequential) scope_resolve_in :: "world_classes \<Rightarrow> (string, service_registration) dict \<Rightarrow> string list \<Rightarrow> string \<Rightarrow> kernel_scope \<Rightarrow>
    (container_error + nat) \<times> kernel_scope"
  and scope_resolve_all :: "world_classes \<Rightarrow> (string, service_registration) dict \<Rightarrow> string list \<Rightarrow> (string \<times> string) list \<Rightarrow> kernel_scope \<Rightarrow>
    (container_error + (string \<times> nat) list) \<times> kernel_scope" where
  "scope_resolve_in w regs stack service_type s =
     (case dict_get regs service_type of
        None \<Rightarrow> (Inl (ServiceNotFoundError service_type), s)
      | Some registration \<Rightarrow>
          if sr_lifetime registration = SINGLETON then
            (case container_resolve w service_type (ks_container s) of (r, c) \<Rightarrow> (r, s\<lparr>ks_container := c\<rparr>))
          else
          (case (if sr_lifetime registration = SCOPED then dict_get (ks_scoped_instances s) service_type else None) of
             Some inst \<Rightarrow> (Inr inst, s)
           | None \<Rightarrow>
               if service_type \<in> set stack then (Inl (CircularDependencyError (stack @ [service_type])), s)
               else
                 (case scope_resolve_all w regs (stack @ [service_type])
                         (get_constructor_annotations w (sr_implementation registration)) s of
                    (Inl e, s') \<Rightarrow> (Inl e, s')
                  | (Inr dependencies, s') \<Rightarrow>
                      (case instantiate w (sr_implementation registration) dependencies (ks_container s') of
                         (Inl e, c) \<Rightarrow> (Inl e, s'\<lparr>ks_container := c\<rparr>)
                       | (Inr inst, c) \<Rightarrow> (Inr inst, cache_scoped registration service_type inst (s'\<lparr>ks_container := c\<rparr>))))))"
| "scope_resolve_all w regs stack [] s = (Inr [], s)"
| "scope_resolve_all w regs stack ((param_name, param_type) # params) s =
     (case scope_resolve_in w regs stack param_type s of
        (Inl e, s') \<Rightarrow> (Inl e, s')
      | (Inr inst, s') \<Rightarrow>
          (case scope_resolve_all w regs stack params s' of
             (Inl e, s'') \<Rightarrow> (Inl e, s'')
           | (Inr dependencies, s'') \<Rightarrow> (Inr ((param_name, inst) # dependencies), s'')))"
  by pat_completeness auto

termination
  by (relation "measures [\<lambda>x. case x of Inl (w, regs, stack, t, s) \<Rightarrow> card (set (map fst regs) - set stack)
                          | Inr (w, regs, stack, ps, s) \<Rightarrow> card (set (map fst regs) - set stack),
                         \<lambda>x. case x of Inl _ \<Rightarrow> 0 | Inr (w, regs, stack, ps, s) \<Rightarrow> Suc (length ps)]")
    (auto dest: stack_measure [unfolded set_append list.set])

definition scope_resolve :: "world_classes \<Rightarrow> string \<Rightarrow> kernel_scope \<Rightarrow> (container_error + nat) \<times> kernel_scope" where
  "scope_resolve w service_type s = scope_resolve_in w (ct_registrations (ks_container s)) [] service_type s"

text \<open>\<open>Scope.close\<close>: \<open>close\<close> is called on the scoped instances that have one, until one raises; \<open>closes\<close>
  tells for a class whether it has the method and whether it raises. The objects closed are returned.\<close>

fun close_loop :: "(string \<Rightarrow> string option option) \<Rightarrow> instance_obj list \<Rightarrow> nat list \<Rightarrow> nat list \<times> string option" where
  "close_loop closes heap [] = ([], None)"
| "close_loop closes heap (inst # insts) =
     (case closes (io_class (heap ! inst)) of
        None \<Rightarrow> close_loop closes heap insts
      | Some (Some m) \<Rightarrow> ([], Some m)
      | Some None \<Rightarrow> (case close_loop closes heap insts of (closed, r) \<Rightarrow> (inst # closed, r)))"

definition scope_close :: "(string \<Rightarrow> string option option) \<Rightarrow> kernel_scope \<Rightarrow> (nat list \<times> string option) \<times> kernel_scope" where
  "scope_close closes s =
     (case close_loop closes (ct_heap (ks_container s)) (map snd (ks_scoped_instances s)) of
        (closed, None) \<Rightarrow> ((closed, None), s\<lparr>ks_scoped_instances := []\<rparr>)
      | (closed, Some m) \<Rightarrow> ((closed, Some m), s))"

section \<open>The kernel's registrations\<close>

definition bootstrap :: container where
  "bootstrap =
     (let c = empty_container\<lparr>ct_heap := [\<lparr>io_class = ''KernelContainer'', io_arguments = []\<rparr>]\<rparr>
      in register_scoped ''ResourceManager'' (Some ''KernelResourceManager'')
        (register_singleton ''WorkflowFactory'' (Some ''KernelWorkflowFactory'')
        (register_singleton ''WorkflowEngine'' (Some ''KernelWorkflowEngine'')
        (register_singleton ''LoggerFactory'' (Some ''KernelLoggerFactory'')
        (register_singleton ''EventBus'' (Some ''KernelEventBus'')
        (register_singleton ''ConfigurationService'' (Some ''KernelConfigurationService'')
        (register_instance ''Container'' 0 c)))))))"

section \<open>What can be resolved\<close>

text \<open>A type is resolvable when it is a singleton that exists, or is registered and all types of its
  constructor are resolvable. The definition knows neither an order nor a stack.\<close>

inductive resolvable :: "world_classes \<Rightarrow> container \<Rightarrow> string \<Rightarrow> bool" for w c where
  cached: "dict_get (ct_registrations c) t = Some r \<Longrightarrow> sr_lifetime r = SINGLETON \<Longrightarrow> dict_get (ct_singletons c) t = Some i \<Longrightarrow>
    resolvable w c t"
| built: "dict_get (ct_registrations c) t = Some r \<Longrightarrow>
    (\<And>n u. (n, u) \<in> set (get_constructor_annotations w (sr_implementation r)) \<Longrightarrow> resolvable w c u) \<Longrightarrow> resolvable w c t"

inductive_cases resolvableE: "resolvable w c t"

definition depends :: "world_classes \<Rightarrow> container \<Rightarrow> string \<Rightarrow> string \<Rightarrow> bool" where
  "depends w c t u \<longleftrightarrow> (\<exists>r. dict_get (ct_registrations c) t = Some r \<and>
     \<not> (sr_lifetime r = SINGLETON \<and> dict_get (ct_singletons c) t \<noteq> None) \<and>
     u \<in> snd ` set (get_constructor_annotations w (sr_implementation r)))"

lemma accp_irrefl: "Wellfounded.accp (\<lambda>u t. R t u) x \<Longrightarrow> \<not> R\<^sup>+\<^sup>+ x x"
proof (erule accp_induct)
  fix x assume IH: "\<forall>y. R x y \<longrightarrow> \<not> R\<^sup>+\<^sup>+ y y"
  show "\<not> R\<^sup>+\<^sup>+ x x"
  proof
    assume "R\<^sup>+\<^sup>+ x x"
    then obtain y where "R x y" "R\<^sup>*\<^sup>* y x" by (blast dest: tranclpD)
    then have "R\<^sup>+\<^sup>+ y y" by (simp add: rtranclp_into_tranclp1)
    with IH \<open>R x y\<close> show False by blast
  qed
qed

lemma resolvable_acc: "resolvable w c t \<Longrightarrow> Wellfounded.accp (\<lambda>u t. depends w c t u) t"
proof (induction rule: resolvable.induct)
  case (cached t r i)
  show ?case
  proof (rule accp.accI)
    fix u assume "depends w c t u"
    then show "Wellfounded.accp (\<lambda>u t. depends w c t u) u" using cached unfolding depends_def by simp
  qed
next
  case (built t r)
  show ?case
  proof (rule accp.accI)
    fix u assume "depends w c t u"
    then obtain n where "(n, u) \<in> set (get_constructor_annotations w (sr_implementation r))"
      using built.hyps(1) unfolding depends_def by auto
    then show "Wellfounded.accp (\<lambda>u t. depends w c t u) u" by (rule built.IH)
  qed
qed

lemma resolvable_acyclic: "resolvable w c t \<Longrightarrow> \<not> (depends w c)\<^sup>+\<^sup>+ t t"
  by (rule accp_irrefl [OF resolvable_acc])

text \<open>Every singleton that exists is an object of the registered class.\<close>

definition container_wf :: "container \<Rightarrow> bool" where
  "container_wf c \<longleftrightarrow> (\<forall>t r i. dict_get (ct_registrations c) t = Some r \<longrightarrow> sr_lifetime r = SINGLETON \<longrightarrow>
     dict_get (ct_singletons c) t = Some i \<longrightarrow> i < length (ct_heap c) \<and> io_class (ct_heap c ! i) = sr_implementation r)"

definition grows :: "container \<Rightarrow> container \<Rightarrow> bool" where
  "grows c c' \<longleftrightarrow> ct_registrations c' = ct_registrations c \<and>
     (\<forall>t i. dict_get (ct_singletons c) t = Some i \<longrightarrow> dict_get (ct_singletons c') t = Some i) \<and>
     (\<exists>objs. ct_heap c' = ct_heap c @ objs)"

definition sound :: "world_classes \<Rightarrow> container \<Rightarrow> container \<Rightarrow> bool" where
  "sound w c0 c \<longleftrightarrow> grows c0 c \<and> container_wf c \<and>
     (\<forall>t r i. dict_get (ct_registrations c) t = Some r \<longrightarrow> sr_lifetime r = SINGLETON \<longrightarrow>
        dict_get (ct_singletons c) t = Some i \<longrightarrow> resolvable w c0 t)"

lemma grows_refl [simp]: "grows c c" by (simp add: grows_def)

lemma grows_trans [trans]: "grows a b \<Longrightarrow> grows b c \<Longrightarrow> grows a c"
  by (auto simp: grows_def)

lemma grows_nth: "grows c c' \<Longrightarrow> i < length (ct_heap c) \<Longrightarrow> i < length (ct_heap c') \<and> ct_heap c' ! i = ct_heap c ! i"
  by (auto simp: grows_def nth_append)

definition no_raise :: "world_classes \<Rightarrow> bool" where "no_raise w \<longleftrightarrow> (\<forall>cls args. wc_raises w cls args = None)"

text \<open>The new object: unless the type became a singleton meanwhile.\<close>

lemma built_sound:
  fixes ds
  assumes "sound w c0 c" and "dict_get (ct_registrations c) t = Some r" and "resolvable w c0 t"
    and "sr_lifetime r = SINGLETON \<Longrightarrow> dict_get (ct_singletons c) t = None"
  defines "c' \<equiv> cache_singleton r t (length (ct_heap c)) (c\<lparr>ct_heap := ct_heap c @ [\<lparr>io_class = sr_implementation r, io_arguments = ds\<rparr>]\<rparr>)"
  shows "sound w c0 c' \<and> grows c c' \<and> length (ct_heap c) < length (ct_heap c') \<and>
    io_class (ct_heap c' ! length (ct_heap c)) = sr_implementation r \<and>
    (sr_lifetime r = SINGLETON \<longrightarrow> dict_get (ct_singletons c') t = Some (length (ct_heap c))) \<and>
    (\<forall>s. s \<noteq> t \<longrightarrow> dict_get (ct_singletons c') s = dict_get (ct_singletons c) s)"
proof -
  have g: "grows c c'" using assms(4) by (auto simp: grows_def c'_def cache_singleton_def)
  have h: "ct_heap c' = ct_heap c @ [\<lparr>io_class = sr_implementation r, io_arguments = ds\<rparr>]" "ct_registrations c' = ct_registrations c"
    by (simp_all add: c'_def cache_singleton_def)
  have "dict_get (ct_singletons c') s = (if s = t \<and> sr_lifetime r = SINGLETON then Some (length (ct_heap c)) else dict_get (ct_singletons c) s)" for s
    by (simp add: c'_def cache_singleton_def)
  then show ?thesis
    using assms(1-3) g grows_trans [of c0 c c'] by (auto simp: sound_def container_wf_def h nth_append intro: less_SucI)
qed

definition resolved :: "world_classes \<Rightarrow> container \<Rightarrow> string list \<Rightarrow> container \<Rightarrow> container \<Rightarrow> bool" where
  "resolved w c0 stack c c' \<longleftrightarrow> sound w c0 c' \<and> grows c c' \<and>
     (\<forall>s r. s \<in> set stack \<longrightarrow> dict_get (ct_registrations c0) s = Some r \<longrightarrow> sr_lifetime r = SINGLETON \<longrightarrow>
        dict_get (ct_singletons c) s = None \<longrightarrow> dict_get (ct_singletons c') s = None)"

lemma resolved_refl: "sound w c0 c \<Longrightarrow> resolved w c0 stack c c"
  by (simp add: resolved_def)

lemma resolved_trans: "resolved w c0 stack a b \<Longrightarrow> resolved w c0 stack b c \<Longrightarrow> resolved w c0 stack a c"
  unfolding resolved_def by (blast intro: grows_trans)

definition is_instance :: "container \<Rightarrow> string \<Rightarrow> nat \<Rightarrow> container \<Rightarrow> bool" where
  "is_instance c0 t i c \<longleftrightarrow> (\<exists>r. dict_get (ct_registrations c0) t = Some r \<and> i < length (ct_heap c) \<and>
     io_class (ct_heap c ! i) = sr_implementation r \<and>
     (sr_lifetime r = SINGLETON \<longrightarrow> dict_get (ct_singletons c) t = Some i))"

lemma resolve_sound:
  assumes "no_raise w"
  shows "regs = ct_registrations c0 \<Longrightarrow> sound w c0 c \<Longrightarrow> \<forall>s \<in> set stack. (depends w c0)\<^sup>+\<^sup>+ s t \<Longrightarrow>
      case resolve_in w regs stack t c of
        (Inr i, c') \<Rightarrow> resolvable w c0 t \<and> resolved w c0 stack c c' \<and> is_instance c0 t i c'
      | (Inl e, c') \<Rightarrow> \<not> resolvable w c0 t"
    and "regs = ct_registrations c0 \<Longrightarrow> sound w c0 c \<Longrightarrow> \<forall>s \<in> set stack. \<forall>p \<in> set ps. (depends w c0)\<^sup>+\<^sup>+ s (snd p) \<Longrightarrow>
      case resolve_all w regs stack ps c of
        (Inr ds, c') \<Rightarrow> (\<forall>p \<in> set ps. resolvable w c0 (snd p)) \<and> resolved w c0 stack c c'
      | (Inl e, c') \<Rightarrow> \<exists>p \<in> set ps. \<not> resolvable w c0 (snd p)"
  using assms
proof (induction w regs stack t c and w regs stack ps c rule: resolve_in_resolve_all.induct)
  case (1 w regs stack t c)
  have regs: "ct_registrations c = regs" using 1(2,3) by (simp add: sound_def grows_def)
  show ?case
  proof (cases "dict_get regs t")
    case None
    then have "\<not> resolvable w c0 t" using 1(2) by (auto elim: resolvableE)
    then show ?thesis using None by simp
  next
    case (Some r)
    show ?thesis
    proof (cases "if sr_lifetime r = SINGLETON then dict_get (ct_singletons c) t else None")
      case i: (Some i)
      then have s: "sr_lifetime r = SINGLETON" "dict_get (ct_singletons c) t = Some i" by (auto split: if_splits)
      then have "resolvable w c0 t" "is_instance c0 t i c"
        using 1(2,3) Some regs by (auto simp: sound_def is_instance_def container_wf_def)
      then show ?thesis using Some s 1(3) by (simp add: resolved_refl)
    next
      case nc: None
      have nc0: "\<not> (sr_lifetime r = SINGLETON \<and> dict_get (ct_singletons c0) t \<noteq> None)"
        using nc 1(3) by (cases "dict_get (ct_singletons c0) t") (auto simp: sound_def grows_def split: if_splits)
      show ?thesis
      proof (cases "t \<in> set stack")
        case True
        then have "\<not> resolvable w c0 t" using 1(4) resolvable_acyclic by blast
        then show ?thesis using Some nc True by simp
      next
        case False
        let ?ps = "get_constructor_annotations w (sr_implementation r)"
        have dep: "depends w c0 t (snd p)" if "p \<in> set ?ps" for p
          using that Some nc0 1(2) by (auto simp: depends_def)
        then have "\<forall>s \<in> set (stack @ [t]). \<forall>p \<in> set ?ps. (depends w c0)\<^sup>+\<^sup>+ s (snd p)"
          using 1(4) by (auto intro: tranclp.trancl_into_trancl)
        note IH = 1(1) [OF Some nc False 1(2,3) this 1(5)]
        obtain d c' where d: "resolve_all w regs (stack @ [t]) ?ps c = (d, c')" by force
        show ?thesis
        proof (cases d)
          case (Inl e)
          then obtain n u where "(n, u) \<in> set ?ps" "\<not> resolvable w c0 u" using IH d by force
          then have "\<not> resolvable w c0 t"
            using Some nc0 1(2) by (auto elim!: resolvableE)
          then show ?thesis using Some nc False d Inl by simp
        next
          case (Inr ds)
          have r': "resolved w c0 (stack @ [t]) c c'" and "\<forall>p \<in> set ?ps. resolvable w c0 (snd p)" using IH d Inr by simp_all
          then have res: "resolvable w c0 t" using Some 1(2) by (intro resolvable.built [of c0 t r]) auto
          have c': "sound w c0 c'" "ct_registrations c' = regs" "sr_lifetime r = SINGLETON \<Longrightarrow> dict_get (ct_singletons c') t = None"
            using r' regs nc Some 1(2) by (auto simp: resolved_def grows_def)
          let ?c = "cache_singleton r t (length (ct_heap c')) (c'\<lparr>ct_heap := ct_heap c' @ [\<lparr>io_class = sr_implementation r, io_arguments = ds\<rparr>]\<rparr>)"
          have new: "resolve_in w regs stack t c = (Inr (length (ct_heap c')), ?c)"
            using Some nc False d Inr 1(5) by (simp add: instantiate_def no_raise_def)
          have b: "sound w c0 ?c" "grows c' ?c" "length (ct_heap c') < length (ct_heap ?c)"
            "io_class (ct_heap ?c ! length (ct_heap c')) = sr_implementation r"
            "sr_lifetime r = SINGLETON \<longrightarrow> dict_get (ct_singletons ?c) t = Some (length (ct_heap c'))"
            "\<forall>s. s \<noteq> t \<longrightarrow> dict_get (ct_singletons ?c) s = dict_get (ct_singletons c') s"
            using built_sound [OF c'(1) _ res c'(3), where ds = ds] Some c'(2) by blast+
          have "resolved w c0 stack c ?c"
            using r' b(1,2,6) False grows_trans [of c c' ?c] unfolding resolved_def by (auto split: if_splits)
          moreover have "is_instance c0 t (length (ct_heap c')) ?c"
            using b(3-5) Some 1(2) by (simp add: is_instance_def)
          ultimately show ?thesis using new res by (simp del: resolve_in.simps)
        qed
      qed
    qed
  qed
next
  case (2 w regs stack c)
  then show ?case by (simp add: resolved_refl)
next
  case (3 w regs stack n u ps c)
  obtain a c' where a: "resolve_in w regs stack u c = (a, c')" by force
  have A: "case resolve_in w regs stack u c of
        (Inr i, c') \<Rightarrow> resolvable w c0 u \<and> resolved w c0 stack c c' \<and> is_instance c0 u i c'
      | (Inl e, c') \<Rightarrow> \<not> resolvable w c0 u" using 3(1) [OF 3(3,4) _ 3(6)] 3(5) by simp
  show ?case
  proof (cases a)
    case (Inl e)
    then show ?thesis using A a by (simp del: resolve_in.simps)
  next
    case (Inr i)
    then have A': "resolvable w c0 u" "resolved w c0 stack c c'" using A a by (simp_all del: resolve_in.simps)
    obtain b c'' where b: "resolve_all w regs stack ps c' = (b, c'')" by force
    have B: "case resolve_all w regs stack ps c' of
        (Inr ds, c') \<Rightarrow> (\<forall>p \<in> set ps. resolvable w c0 (snd p)) \<and> resolved w c0 stack c' c'
      | (Inl e, c') \<Rightarrow> \<exists>p \<in> set ps. \<not> resolvable w c0 (snd p)" if False using that by simp
    have "case (b, c'') of
        (Inr ds, d) \<Rightarrow> (\<forall>p \<in> set ps. resolvable w c0 (snd p)) \<and> resolved w c0 stack c' d
      | (Inl e, d) \<Rightarrow> \<exists>p \<in> set ps. \<not> resolvable w c0 (snd p)"
      using 3(2) [OF a [symmetric] Inr 3(3) _ _ 3(6)] A'(2) 3(5) b by (simp add: resolved_def)
    then show ?thesis using a Inr b A' resolved_trans by (cases b) (auto simp del: resolve_in.simps)
  qed
qed

lemma sound_start: "container_wf c \<Longrightarrow> sound w c c"
  by (auto simp: sound_def intro: resolvable.cached)

lemma resolve_cached:
  "is_instance c0 t i c \<Longrightarrow> ct_registrations c = ct_registrations c0 \<Longrightarrow>
     (\<exists>r. dict_get (ct_registrations c) t = Some r \<and> sr_lifetime r = SINGLETON) \<Longrightarrow> container_resolve w t c = (Inr i, c)"
  by (auto simp: is_instance_def container_resolve_def)


text \<open>The constructors of \<open>KernelWorkflowEngine\<close> and \<open>KernelWorkflowFactory\<close>; the other services take
  no arguments.\<close>

definition kernel_classes :: world_classes where
  "kernel_classes = \<lparr>wc_info = (\<lambda>cls.
       if cls = ''KernelWorkflowEngine'' then
         Some \<lparr>ci_params = [(''self'', False, False), (''event_bus'', False, False), (''logger_factory'', False, False), (''container'', False, False)],
               ci_hints = [(''event_bus'', ''EventBus''), (''logger_factory'', ''LoggerFactory''), (''container'', ''Container''), (''return'', ''None'')]\<rparr>
       else if cls = ''KernelWorkflowFactory'' then
         Some \<lparr>ci_params = [(''self'', False, False), (''container'', False, False)], ci_hints = [(''container'', ''Container''), (''return'', ''None'')]\<rparr>
       else None),
     wc_raises = (\<lambda>_ _. None)\<rparr>"

lemma container_wf_bootstrap: "container_wf bootstrap"
proof -
  have s: "ct_singletons bootstrap = [(''Container'', 0)]" by code_simp
  have "dict_get (ct_registrations bootstrap) ''Container'' =
      Some \<lparr>sr_interface = ''Container'', sr_implementation = ''KernelContainer'', sr_lifetime = SINGLETON\<rparr>"
    and "ct_heap bootstrap = [\<lparr>io_class = ''KernelContainer'', io_arguments = []\<rparr>]" by code_simp+
  then show ?thesis unfolding container_wf_def s by (auto split: if_splits)
qed

lemma bootstrap_engine:
  "map_prod (\<lambda>r. case r of Inl e \<Rightarrow> None | Inr i \<Rightarrow> Some i) (\<lambda>c. map io_class (ct_heap c))
     (container_resolve kernel_classes ''WorkflowEngine'' bootstrap) =
   (Some 3, [''KernelContainer'', ''KernelEventBus'', ''KernelLoggerFactory'', ''KernelWorkflowEngine''])"
  by code_simp


text \<open>A singleton that was registered again stays the object of the first registration.\<close>

lemma registered_again_ignored:
  "(case container_resolve kernel_classes ''EventBus'' bootstrap of (_, c) \<Rightarrow>
     case container_resolve kernel_classes ''EventBus'' (register_singleton ''EventBus'' (Some ''OtherEventBus'') c) of
       (Inr i, c) \<Rightarrow> io_class (ct_heap c ! i) | _ \<Rightarrow> []) = ''KernelEventBus''"
  by code_simp

text \<open>Closing a scope calls \<open>close\<close>, which \<open>KernelResourceManager\<close> does not have: its \<open>cleanup\<close> is
  not called, and the scope forgets it.\<close>

lemma resource_manager_not_closed:
  "(case scope_resolve kernel_classes ''ResourceManager'' (create_scope bootstrap) of
      (r, s) \<Rightarrow> (ks_scoped_instances s, map_prod id ks_scoped_instances (scope_close (\<lambda>_. None) s))) =
   ([(''ResourceManager'', 1)], (([], None), []))"
  by code_simp

end
