(* ===== verification/Rate_Limiter.thy ===== *)
theory Rate_Limiter
  imports Complex_Main
begin

text \<open>
  The token bucket of \<open>src/debcraft/infrastructure/mirror/rate_limiter.py\<close>. Tokens, the rate and
  the clock are exact numbers where the code has floats. The section under the lock is one step;
  callers that wait are turns of \<open>acquire\<close>, so any interleaving of callers is a list of steps at
  non-decreasing times.
\<close>

section \<open>State and steps\<close>

record limiter =
  rl_tokens :: real
  rl_max_tokens :: nat
  rl_rate :: real
  rl_last_replenish :: real

definition limiter_init :: "real \<Rightarrow> nat \<Rightarrow> real \<Rightarrow> limiter" where
  "limiter_init rate burst_size now =
     \<lparr>rl_tokens = real burst_size, rl_max_tokens = burst_size, rl_rate = rate, rl_last_replenish = now\<rparr>"

definition replenish :: "real \<Rightarrow> limiter \<Rightarrow> limiter" where
  "replenish now l = (let elapsed = now - rl_last_replenish l in
     if elapsed > 0
     then l\<lparr>rl_tokens := min (rl_tokens l + rl_rate l * elapsed) (real (rl_max_tokens l)), rl_last_replenish := now\<rparr>
     else l)"

text \<open>What \<open>acquire\<close> does while it holds the lock: \<open>True\<close> when it took a token.\<close>

definition try_acquire :: "real \<Rightarrow> limiter \<Rightarrow> bool \<times> limiter" where
  "try_acquire now l = (let l = replenish now l in
     if rl_tokens l \<ge> 1 then (True, l\<lparr>rl_tokens := rl_tokens l - 1\<rparr>) else (False, l))"

text \<open>One call: each turn of its loop reads the clock under the lock, before sleeping and after
  sleeping. It ends with a token (\<open>Some True\<close>) or with \<open>RateLimitTimeoutError\<close> (\<open>Some False\<close>);
  \<open>None\<close> when the turns given do not suffice.\<close>

fun acquire_loop :: "real \<Rightarrow> (real \<times> real \<times> real) list \<Rightarrow> limiter \<Rightarrow> bool option \<times> limiter" where
  "acquire_loop deadline [] l = (None, l)"
| "acquire_loop deadline ((locked, before_sleep, after_sleep) # turns) l =
     (case try_acquire locked l of
        (True, l') \<Rightarrow> (Some True, l')
      | (False, l') \<Rightarrow>
          if deadline - before_sleep \<le> 0 then (Some False, l')
          else if after_sleep \<ge> deadline then (Some False, l')
          else acquire_loop deadline turns l')"

definition sleep_time :: "limiter \<Rightarrow> real \<Rightarrow> real" where
  "sleep_time l remaining = min (1 / rl_rate l) remaining"

text \<open>A run: the locked sections of all callers, in the order they got the lock, with their
  outcomes.\<close>

inductive limiter_run :: "limiter \<Rightarrow> (real \<times> bool) list \<Rightarrow> limiter \<Rightarrow> bool" where
  run_nil: "limiter_run l [] l"
| run_step: "limiter_run l evs m \<Longrightarrow> rl_last_replenish m \<le> now \<Longrightarrow> try_acquire now m = (granted, m') \<Longrightarrow>
    limiter_run l (evs @ [(now, granted)]) m'"

definition grants :: "(real \<times> bool) list \<Rightarrow> nat" where
  "grants evs = length (filter snd evs)"

inductive_simps limiter_run_Nil [simp]: "limiter_run l [] m"

section \<open>Invariants\<close>

definition limiter_ok :: "limiter \<Rightarrow> bool" where
  "limiter_ok l \<longleftrightarrow> 0 \<le> rl_tokens l \<and> rl_tokens l \<le> real (rl_max_tokens l) \<and> 0 \<le> rl_rate l"

lemma replenish_ok: "limiter_ok l \<Longrightarrow> limiter_ok (replenish now l)"
  by (auto simp: limiter_ok_def replenish_def Let_def)

lemma try_acquire_ok: "limiter_ok l \<Longrightarrow> limiter_ok (snd (try_acquire now l))"
  using replenish_ok [of l now] by (auto simp: try_acquire_def limiter_ok_def Let_def)

lemma limiter_run_ok: "limiter_run l evs m \<Longrightarrow> limiter_ok l \<Longrightarrow> limiter_ok m"
  by (induction rule: limiter_run.induct) (auto dest: try_acquire_ok simp: prod_eq_iff)

lemma try_acquire_const:
  "try_acquire now l = (g, m) \<Longrightarrow> rl_rate m = rl_rate l \<and> rl_max_tokens m = rl_max_tokens l"
  by (auto simp: try_acquire_def replenish_def Let_def split: if_splits)

lemma limiter_run_const:
  "limiter_run l evs m \<Longrightarrow> rl_rate m = rl_rate l \<and> rl_max_tokens m = rl_max_tokens l"
  by (induction rule: limiter_run.induct) (auto dest: try_acquire_const)

text \<open>The potential: tokens in the bucket and tokens handed out grow no faster than the rate.\<close>

lemma try_acquire_potential:
  assumes "try_acquire now l = (g, m)" and "limiter_ok l" and "rl_last_replenish l \<le> now"
  shows "rl_tokens m + (if g then 1 else 0) \<le> rl_tokens l + rl_rate l * (now - rl_last_replenish l)"
    and "rl_last_replenish m = now"
proof -
  show "rl_last_replenish m = now"
    using assms by (auto simp: try_acquire_def replenish_def Let_def split: if_splits)
  have "rl_tokens (replenish now l) \<le> rl_tokens l + rl_rate l * (now - rl_last_replenish l)"
    using assms(2,3) by (auto simp: replenish_def Let_def limiter_ok_def)
  then show "rl_tokens m + (if g then 1 else 0) \<le> rl_tokens l + rl_rate l * (now - rl_last_replenish l)"
    using assms(1) by (auto simp: try_acquire_def Let_def split: if_splits)
qed

lemma limiter_run_potential:
  "limiter_run l evs m \<Longrightarrow> limiter_ok l \<Longrightarrow>
    rl_tokens m + real (grants evs) \<le> rl_tokens l + rl_rate l * (rl_last_replenish m - rl_last_replenish l)"
proof (induction rule: limiter_run.induct)
  case (run_step l evs m now granted m')
  have ok: "limiter_ok m" using limiter_run_ok run_step by blast
  have rate: "rl_rate m = rl_rate l" using limiter_run_const run_step.hyps(1) by blast
  note p = try_acquire_potential [OF run_step.hyps(3) ok run_step.hyps(2)]
  have "real (grants (evs @ [(now, granted)])) = real (grants evs) + (if granted then 1 else 0)"
    by (simp add: grants_def)
  then have "rl_tokens m' + real (grants (evs @ [(now, granted)])) \<le>
      rl_tokens l + rl_rate l * (rl_last_replenish m - rl_last_replenish l) + rl_rate l * (now - rl_last_replenish m)"
    using p(1) run_step.IH run_step.prems rate by simp
  also have "\<dots> = rl_tokens l + rl_rate l * (now - rl_last_replenish l)"
    by (simp add: algebra_simps)
  finally show ?case using p(2) by simp
qed (simp add: grants_def)

section \<open>Properties\<close>

text \<open>Property C9. Rate limit: in every run, from any reachable state on and however the callers
  interleave, the number of requests let through is at most the burst size plus the rate times
  the length of the run; and the bucket always holds between zero and burst-size tokens.\<close>

theorem rate_limit_window:
  assumes "0 \<le> rate" and "limiter_run (limiter_init rate burst t0) past l" and "limiter_run l evs m"
  shows "real (grants evs) \<le> real burst + rate * (rl_last_replenish m - rl_last_replenish l)
    \<and> 0 \<le> rl_tokens m \<and> rl_tokens m \<le> real burst"
proof -
  have "limiter_ok (limiter_init rate burst t0)" using assms(1) by (simp add: limiter_ok_def limiter_init_def)
  then have l: "limiter_ok l" "rl_rate l = rate" "rl_max_tokens l = burst"
    using limiter_run_ok [OF assms(2)] limiter_run_const [OF assms(2)] by (auto simp: limiter_init_def)
  have m: "limiter_ok m" "rl_max_tokens m = burst"
    using limiter_run_ok [OF assms(3)] limiter_run_const [OF assms(3)] l by auto
  have "real (grants evs) \<le> real burst + rate * (rl_last_replenish m - rl_last_replenish l)"
    using limiter_run_potential [OF assms(3) l(1)] l m by (simp add: limiter_ok_def)
  then show ?thesis using m by (simp add: limiter_ok_def)
qed

theorem rate_limit_window_witness:
  "real (grants [(0, True), (0, False)]) \<le> real 1 + 2 * (0 - 0)"
proof -
  let ?l = "limiter_init 2 1 0"
  have 1: "try_acquire 0 ?l = (True, ?l\<lparr>rl_tokens := 0\<rparr>)" by (simp add: try_acquire_def replenish_def limiter_init_def)
  have 2: "try_acquire 0 (?l\<lparr>rl_tokens := 0\<rparr>) = (False, ?l\<lparr>rl_tokens := 0\<rparr>)" by (simp add: try_acquire_def replenish_def limiter_init_def)
  have "limiter_run ?l [(0, True)] (?l\<lparr>rl_tokens := 0\<rparr>)"
    using run_step [OF run_nil [of ?l] _ 1] by (simp add: limiter_init_def)
  from run_step [OF this _ 2] have "limiter_run ?l [(0, True), (0, False)] (?l\<lparr>rl_tokens := 0\<rparr>)"
    by (simp add: limiter_init_def)
  from rate_limit_window [OF _ run_nil this] show ?thesis by (simp add: limiter_init_def)
qed

text \<open>No caller starves for want of tokens: as soon as one token's time has passed
  since the last replenishment, a caller that gets the lock is served, so one that sleeps for the
  time the code computes is served on its next turn unless another took the token.\<close>

theorem acquire_progress:
  assumes "limiter_ok l" and "0 < rl_rate l" and "1 \<le> rl_max_tokens l"
    and "rl_last_replenish l + 1 / rl_rate l \<le> locked"
  shows "fst (acquire_loop deadline ((locked, before_sleep, after_sleep) # turns) l) = Some True"
proof -
  have "1 / rl_rate l > 0" using assms(2) by simp
  then have e: "locked - rl_last_replenish l > 0" using assms(4) by linarith
  have "1 / rl_rate l \<le> locked - rl_last_replenish l" using assms(4) by simp
  then have "1 \<le> rl_rate l * (locked - rl_last_replenish l)"
    using assms(2) by (simp add: pos_divide_le_eq mult.commute)
  then have "1 \<le> rl_tokens (replenish locked l)"
    using e assms(1,3) by (auto simp: replenish_def Let_def limiter_ok_def)
  then show ?thesis by (simp add: try_acquire_def Let_def)
qed

theorem acquire_progress_witness:
  "fst (acquire_loop 60 [(1/2, 1/2, 1)] (\<lparr>rl_tokens = 0, rl_max_tokens = 1, rl_rate = 2, rl_last_replenish = 0\<rparr>)) = Some True"
  by (rule acquire_progress) (simp_all add: limiter_ok_def)

end
