(* ===== verification/Spec2Isabelle.thy ===== *)
theory Spec2Isabelle
  imports Index_Cli Mirror_Cli Configuration Migrations Sbom_Cli Oci_Scanner Iso_Scanner Guest_Scanners Sbom Kernel_Workflow Kernel_Container Indexer_Service Dpkg Archive Spdx_Print Mirror_Workflow Mirror_Config Dep5 Symlinks License_Map Purl Deb_Parser Indexer_Parsers Rate_Limiter
begin

text \<open>
  DebCraft (\<open>src/src/debcraft/\<close>) mirrors Debian repositories, indexes the mirrored metadata, scans artifacts
  (directories, disk and container images) for installed packages, enriches those with the indexed metadata
  and writes software bills of materials. This library models the program's own logic; source paths below are
  relative to \<open>src/src/debcraft/\<close>.

  \<^bold>\<open>Parts and how they interact.\<close>
  The mirror engine downloads \<open>Release\<close>, index files and artifacts and keeps a table of files in
  \<open>mirror.db\<close>. The indexer reads the verified files of that table and fills \<open>metadata.db\<close>. A scan gives
  installed packages; the enricher looks each up in a cache, in \<open>metadata.db\<close> and in \<open>.deb\<close> files; the
  assembler makes a document of the result, which the writers serialise. The platform kernel (container,
  event bus, workflow engine) runs all of it. The theories import each other along these lines.

  \<^bold>\<open>Prelude.\<close> \<open>Py_Prelude\<close> (characters, \<open>strip\<close>, prefixes), \<open>Py_Text\<close> (\<open>split\<close>, \<open>join\<close>, \<open>splitlines\<close>),
  \<open>Py_Data\<close> (\<open>int\<close>, insertion-ordered dictionaries, loops that may raise), \<open>Py_Path\<close> (\<open>pathlib\<close>,
  \<open>urlparse\<close>): the parts of Python's library the sources use. Strings are lists of characters up to 255, so
  that of the Unicode tables only their Latin-1 part is modelled. Collections of rewrite rules: \<open>py_str\<close>,
  \<open>py_dict\<close>.

  \<^bold>\<open>Control data.\<close> \<open>Stanza\<close>: splitting text into stanzas, shared by the parsers through the locale
  \<open>stanza_reader\<close>. \<open>Dpkg\<close> (\<open>domain/scanner/dpkg_parser.py\<close>, \<open>dpkg_printer.py\<close>): exact classification of
  stanzas, round trip. \<open>Indexer_Parsers\<close> (\<open>domain/indexer/*_parser.py\<close>): two more readers of stanzas, round
  trip of the package printer. \<open>Dep5\<close> (copyright files): round trip. \<open>Deb_Parser\<close> and \<open>Ar\<close>
  (\<open>domain/package_intelligence/deb_parser.py\<close>, \<open>infrastructure/package_intelligence/_ar_utils.py\<close>): reading
  a written archive, round trip of dependency fields; the loop over members is a partial function, because it
  need not end.

  \<^bold>\<open>Licenses.\<close> \<open>Spdx_Tokens\<close>, \<open>Spdx_Parse\<close>, \<open>Spdx_Print\<close>: the tokenizer equals a lexer, the parser accepts
  exactly the sentences of a grammar whose parentheses are nested at most 32 deep (fuel: 33 levels, and one
  turn of a loop for each token and one more, which are never used up), and printing round-trips up to the
  grouping of operands. \<open>License_Map\<close>: the rules that map license names, with bounds on their results.

  \<^bold>\<open>Other package intelligence.\<close> \<open>Purl\<close> (package URLs identify), \<open>Symlinks\<close> (following at most
  \<open>MAX_RESOLUTION_DEPTH\<close> = 10 links refines a relation between paths; the port is the locale
  \<open>contents_lookup\<close>, interpreted on the adapter).

  \<^bold>\<open>Mirror.\<close> \<open>Mirror\<close> (index parsers, comparator), \<open>Mirror_Download\<close> (at most three attempts, a destination
  changes only by a verified file), \<open>Mirror_Engine\<close> (stages, accounting, convergence of a second run),
  \<open>Mirror_Workflow\<close> (one repository does not stop another), \<open>Mirror_Config\<close> (validation), \<open>Rate_Limiter\<close>
  (bound of any window, progress). The HTTP server, digests, jitter, text codecs and SQL \<open>LIKE\<close> are the
  record \<open>world\<close>.

  \<^bold>\<open>Indexer.\<close> \<open>Indexer_Service\<close> (\<open>domain/indexer/service.py\<close>, \<open>infrastructure/indexer/\<close>): the rows of both
  databases, every call may fail; the locale \<open>keyed_table\<close> is interpreted on the two tables with natural keys,
  \<open>indexing_log\<close> on the records of indexed files. Lemmas: the databases stay consistent, results agree with
  events and rows, a second run skips everything.

  \<^bold>\<open>Scans.\<close> \<open>Scan_Values\<close> (\<open>domain/scanner/values.py\<close>, \<open>filesystem_analyzer.py\<close>) and \<open>Scanner_Mixin\<close>
  (\<open>infrastructure/scanners/_mixin.py\<close>): values, paths analysed, what the scanners share. \<open>Layers\<close>: overlay of image layers;
  its locale \<open>layer_step\<close> is interpreted on \<open>Docker_Scanner\<close> and \<open>Oci_Scanner\<close>, which therefore agree on intact layers.
  \<open>Iso_Scanner\<close>: Python's recursion limit is the fuel of the walk over a medium; every reader that is opened is closed.
  \<open>Guest_Scanners\<close> (\<open>img.py\<close>, \<open>qcow2.py\<close>, \<open>ami.py\<close>): at most 100000 paths, a lexicographic measure.
  \<open>Directory_Scanner\<close>: no file outside of the directory matters. \<open>Registries\<close>: priorities of scanners and writers.
  \<open>Deb_Extractor\<close> and \<open>Enricher\<close>: enrichment from the medium, the cache and \<open>metadata.db\<close>; a consistent cache is invisible.

  \<^bold>\<open>Documents.\<close> \<open>Sbom\<close> (\<open>domain/sbom/\<close>): values and assembler. \<open>Json_Print\<close>: printed texts are equal exactly for documents
  equal up to the order of keys. \<open>Sbom_Writers\<close>: SPDX 2.3, CycloneDX and SPDX 3 with validation. \<open>Sbom_Workflow\<close>: events, files
  and rows of a run. \<open>Sbom_Cli\<close>: \<open>debcraft sbom\<close>, whose success leaves every requested file and whose failure leaves none.

  \<^bold>\<open>Configuration, databases, storage.\<close> \<open>Configuration\<close> (\<open>platform/kernel/configuration.py\<close>): the layers, the conversion of
  values, the cached sections; a section is decided field by field by the highest source that says anything of it. \<open>Migrations\<close>
  (\<open>infrastructure/database/runner.py\<close>, \<open>migrations/\<close>): initial segments of the pending scripts are applied, and the tables they
  make are compared with the mapped classes. \<open>Unit_Of_Work\<close>: sessions as working and committed state, repositories, publication
  of snapshots. \<open>Storage\<close> (\<open>infrastructure/storage/\<close>, \<open>database/provider.py\<close>): directories, recovery and verification at start.

  \<^bold>\<open>Commands.\<close> \<open>Cli_Output\<close> (what is printed), \<open>Mirror_Cli\<close> (\<open>cli/mirror.py\<close>: agreement of \<open>sync\<close> with the workflow, what
  \<open>clean\<close> may delete), \<open>Index_Cli\<close> (\<open>cli/index.py\<close>): the locale \<open>incremental_runs\<close>, interpreted on the runs of the indexer, gives
  that each repository is read once, and that a second run changes no content.

  \<^bold>\<open>Kernel.\<close> \<open>Kernel_Container\<close> (\<open>platform/kernel/container.py\<close>): resolution ends, because each nested call
  has one more registered type on its stack, and succeeds exactly for the types an order-free inductive
  definition calls resolvable. \<open>Kernel_Workflow\<close> (\<open>events.py\<close>, \<open>resources.py\<close>, \<open>workflow.py\<close>): the engine is a
  transition system whose steps lead from one \<open>await\<close> to the next; invariants of all interleavings, and a
  measure that bounds each run by two steps per attempt and three.

  \<^bold>\<open>Archive layers.\<close> \<open>Archive\<close>: names of archive members and whiteouts of container layers.

  \<^bold>\<open>Parameters.\<close> What is not the program's own code is an argument: servers, digests, clocks, random numbers,
  JSON, TOML, tar and compression libraries, \<open>ipaddress\<close>, SQL operators beyond equality, reflection on classes.

  \<^bold>\<open>Not modelled.\<close> The commands \<open>doctor\<close>, \<open>info\<close> and \<open>version\<close>, progress bars, logging and its formatters: output only. Readers of
  disk, ISO and squashfs images, which only call third-party libraries; SQLAlchemy's engines and pragmas. The bootstraps of the
  storage, mirror and scanner services, which are lists of registrations in the modelled container. The cache of parsed
  packages (\<open>infrastructure/package_intelligence/cache_adapter.py\<close>), which nothing calls. Abstract base classes of
  \<open>platform/contracts/\<close> without behaviour, scripts and documentation.
\<close>

end
